(* ===== verification/Prelude.thy ===== *)
theory Prelude
  imports Main "HOL-Library.Word" "HOL-Library.Sublist"
begin

unbundle bit_operations_syntax

text \<open>
  Shared ground of the development: machine integers and byte strings, the exceptions the C++
  code throws as values of a sum type, the character classes of the C locale, decimal and
  hexadecimal formatting, and the list lemmas the components share.
  A C++ \<open>std::string\<close> is a sequence of bytes, which is what HOL's \<open>char list\<close> is.
\<close>

section \<open>Machine integers and bytes\<close>

type_synonym u8 = "8 word"
type_synonym u16 = "16 word"
type_synonym u32 = "32 word"
type_synonym bytes = "u8 list"

section \<open>Exceptions as values\<close>

text \<open>
  Every \<open>throw\<close> of the code is one of two classes, with the text \<open>what()\<close> returns; the daemon
  puts that text into its replies, so it is kept.
\<close>

datatype exn = Runtime_error string | Invalid_argument string | Out_of_range string

fun what :: "exn \<Rightarrow> string" where
  "what (Runtime_error m) = m"
| "what (Invalid_argument m) = m"
| "what (Out_of_range m) = m"

type_synonym 'a result = "exn + 'a"

named_theorems result_simps \<open>equations that push a successful result through a sequence\<close>
named_theorems class_simps \<open>the definitions of the character classes\<close>

definition bind_result :: "'a result \<Rightarrow> ('a \<Rightarrow> 'b result) \<Rightarrow> 'b result" where
  "bind_result m f = (case m of Inl e \<Rightarrow> Inl e | Inr a \<Rightarrow> f a)"

lemma bind_result_simps [simp, result_simps]:
  "bind_result (Inl e) f = Inl e"
  "bind_result (Inr a) f = f a"
  by (simp_all add: bind_result_def)

lemma bind_result_cong [fundef_cong]:
  assumes "m = m'" and "\<And>a. m' = Inr a \<Longrightarrow> f a = f' a"
  shows "bind_result m f = bind_result m' f'"
  using assms by (cases m') auto

lemma bind_result_Inr [result_simps]:
  "bind_result m f = Inr b \<longleftrightarrow> (\<exists>a. m = Inr a \<and> f a = Inr b)"
  by (cases m) auto

lemma bind_result_Inl:
  "bind_result m f = Inl e \<longleftrightarrow> m = Inl e \<or> (\<exists>a. m = Inr a \<and> f a = Inl e)"
  by (cases m) auto

lemma bind_result_assoc:
  "bind_result (bind_result m f) g = bind_result m (\<lambda>a. bind_result (f a) g)"
  by (cases m) auto

lemma bind_result_unit [simp]: "bind_result m Inr = m"
  by (cases m) auto

text \<open>A guard: the code's \<open>if (!ok) throw e;\<close>.\<close>

definition require_that :: "bool \<Rightarrow> exn \<Rightarrow> unit result" where
  "require_that ok e = (if ok then Inr () else Inl e)"

lemma require_that_simps [simp, result_simps]:
  "require_that True e = Inr ()"
  "require_that False e = Inl e"
  by (simp_all add: require_that_def)

lemma require_that_Inr [result_simps]: "require_that ok e = Inr u \<longleftrightarrow> ok"
  by (simp add: require_that_def)

definition is_ok :: "'a result \<Rightarrow> bool" where
  "is_ok r = (case r of Inl _ \<Rightarrow> False | Inr _ \<Rightarrow> True)"

lemma is_ok_simps [simp]: "is_ok (Inl e) = False" "is_ok (Inr a) = True"
  by (simp_all add: is_ok_def)

lemma is_ok_iff: "is_ok r \<longleftrightarrow> (\<exists>a. r = Inr a)"
  by (cases r) auto

section \<open>Character classes of the C locale\<close>

text \<open>
  The program never calls \<open>setlocale\<close>, so \<open>isspace\<close>, \<open>isdigit\<close>, \<open>isxdigit\<close>, \<open>tolower\<close> and
  \<open>toupper\<close> are those of the C locale.
\<close>

definition code_of :: "char \<Rightarrow> nat" where
  "code_of c = of_char c"

definition isspace :: "char \<Rightarrow> bool" where
  [class_simps]: "isspace c \<longleftrightarrow> code_of c = 32 \<or> (9 \<le> code_of c \<and> code_of c \<le> 13)"

definition isdigit :: "char \<Rightarrow> bool" where
  [class_simps]: "isdigit c \<longleftrightarrow> 48 \<le> code_of c \<and> code_of c \<le> 57"

definition isxdigit :: "char \<Rightarrow> bool" where
  [class_simps]: "isxdigit c \<longleftrightarrow> isdigit c \<or> (97 \<le> code_of c \<and> code_of c \<le> 102)
     \<or> (65 \<le> code_of c \<and> code_of c \<le> 70)"

definition tolower :: "char \<Rightarrow> char" where
  "tolower c = (if 65 \<le> code_of c \<and> code_of c \<le> 90 then char_of (code_of c + 32) else c)"

definition toupper :: "char \<Rightarrow> char" where
  "toupper c = (if 97 \<le> code_of c \<and> code_of c \<le> 122 then char_of (code_of c - 32) else c)"

lemma code_of_less [simp]: "code_of c < 256"
  by (simp add: code_of_def)

lemma code_of_char_of [simp]: "n < 256 \<Longrightarrow> code_of (char_of n) = n"
  by (simp add: code_of_def)

lemma char_of_code_of [simp]: "char_of (code_of c) = c"
  by (simp add: code_of_def)

lemma code_of_inject [simp]: "code_of c = code_of d \<longleftrightarrow> c = d"
  by (simp add: code_of_def)

lemma code_of_tolower:
  "code_of (tolower c) = (if 65 \<le> code_of c \<and> code_of c \<le> 90 then code_of c + 32 else code_of c)"
  by (simp add: tolower_def)

lemma tolower_idem [simp]: "tolower (tolower c) = tolower c"
  by (auto simp: tolower_def)

lemma isxdigit_tolower [simp]: "isxdigit (tolower c) = isxdigit c"
  by (auto simp: isxdigit_def isdigit_def code_of_tolower)

section \<open>Splitting a string at a separator\<close>

text \<open>
  \<open>text.find(sep)\<close> followed by \<open>substr(0, pos)\<close> and \<open>substr(pos + 1)\<close>: the part before the
  first separator, and what follows it, \<open>None\<close> for \<open>npos\<close>.
\<close>

fun split_first :: "char \<Rightarrow> string \<Rightarrow> string \<times> string option" where
  "split_first sep [] = ([], None)"
| "split_first sep (c # cs) =
     (if c = sep then ([], Some cs)
      else (let (before, after) = split_first sep cs in (c # before, after)))"

lemma split_first_None: "sep \<notin> set s \<Longrightarrow> split_first sep s = (s, None)"
  by (induction s) auto

lemma split_first_Some: "sep \<notin> set s \<Longrightarrow> split_first sep (s @ sep # t) = (s, Some t)"
  by (induction s) auto

lemma split_first_length:
  "split_first sep s = (a, Some r) \<Longrightarrow> length r < length s"
  by (induction s arbitrary: a) (auto split: if_splits prod.splits)

fun contains_text :: "string \<Rightarrow> string \<Rightarrow> bool" where
  "contains_text pat [] \<longleftrightarrow> pat = []"
| "contains_text pat (c # cs) \<longleftrightarrow> prefix pat (c # cs) \<or> contains_text pat cs"

section \<open>Decimal formatting: std::to_string\<close>

definition digit_char :: "nat \<Rightarrow> char" where
  "digit_char d = char_of (48 + d)"

fun to_string :: "nat \<Rightarrow> string" where
  "to_string n = (if n < 10 then [digit_char n] else to_string (n div 10) @ [digit_char (n mod 10)])"

declare to_string.simps [simp del]

lemma digit_char_values:
  "digit_char 0 = CHR ''0''" "digit_char (Suc 0) = CHR ''1''" "digit_char 1 = CHR ''1''"
  "digit_char 2 = CHR ''2''" "digit_char 3 = CHR ''3''" "digit_char 4 = CHR ''4''"
  "digit_char 5 = CHR ''5''" "digit_char 6 = CHR ''6''" "digit_char 7 = CHR ''7''"
  "digit_char 8 = CHR ''8''" "digit_char 9 = CHR ''9''"
  by code_simp+

lemma code_of_digit_char [simp]: "d < 10 \<Longrightarrow> code_of (digit_char d) = 48 + d"
  by (simp add: digit_char_def)

lemma isdigit_digit_char [simp]: "d < 10 \<Longrightarrow> isdigit (digit_char d)"
  by (simp add: isdigit_def)

lemma to_string_not_Nil [simp]: "to_string n \<noteq> []"
  by (subst to_string.simps) simp

lemma to_string_digits: "c \<in> set (to_string n) \<Longrightarrow> isdigit c"
proof (induction n rule: to_string.induct)
  case (1 n)
  show ?case
  proof (cases "n < 10")
    case True
    with 1(2) show ?thesis by (simp add: to_string.simps [of n])
  next
    case False
    with 1 show ?thesis by (auto simp: to_string.simps [of n])
  qed
qed

text \<open>The value of a digit string, most significant digit first.\<close>

definition dec_value :: "nat \<Rightarrow> string \<Rightarrow> nat" where
  "dec_value acc s = foldl (\<lambda>v c. v * 10 + (code_of c - 48)) acc s"

lemma dec_value_simps [simp]:
  "dec_value acc [] = acc"
  "dec_value acc (c # s) = dec_value (acc * 10 + (code_of c - 48)) s"
  by (simp_all add: dec_value_def)

lemma dec_value_append: "dec_value acc (s @ t) = dec_value (dec_value acc s) t"
  by (simp add: dec_value_def)

lemma dec_value_ge: "acc \<le> dec_value acc s"
proof (induction s arbitrary: acc)
  case (Cons c s)
  have "acc \<le> acc * 10 + (code_of c - 48)" by simp
  also have "\<dots> \<le> dec_value (acc * 10 + (code_of c - 48)) s" by (rule Cons.IH)
  finally show ?case by simp
qed simp

lemma dec_value_to_string [simp]: "dec_value 0 (to_string n) = n"
proof (induction n rule: to_string.induct)
  case (1 n)
  show ?case
  proof (cases "n < 10")
    case True
    then show ?thesis by (simp add: to_string.simps [of n])
  next
    case False
    with 1 show ?thesis by (simp add: to_string.simps [of n] dec_value_append)
  qed
qed

lemma to_string_inject [simp]: "to_string m = to_string n \<longleftrightarrow> m = n"
  by (metis dec_value_to_string)

section \<open>Lists written at an offset\<close>

text \<open>
  \<open>std::copy\<close> and \<open>memcpy\<close> into a fixed array: the bytes of \<open>xs\<close> replace those of \<open>buf\<close> from
  \<open>off\<close> on. The code only writes inside the array; the model states that as \<open>off + length xs
  \<le> length buf\<close> where it is used.
\<close>

definition write_at :: "nat \<Rightarrow> 'a list \<Rightarrow> 'a list \<Rightarrow> 'a list" where
  "write_at off xs buf = take off buf @ xs @ drop (off + length xs) buf"

lemma length_write_at [simp]:
  "off + length xs \<le> length buf \<Longrightarrow> length (write_at off xs buf) = length buf"
  by (simp add: write_at_def)

lemma nth_write_at:
  assumes "off + length xs \<le> length buf"
  shows "write_at off xs buf ! i =
    (if off \<le> i \<and> i < off + length xs then xs ! (i - off) else buf ! i)"
proof -
  consider "i < off" | "off \<le> i" "i < off + length xs" | "off + length xs \<le> i"
    by linarith
  then show ?thesis
  proof cases
    case 1
    with assms show ?thesis by (simp add: write_at_def nth_append)
  next
    case 2
    then have "i - off < length xs" by simp
    with 2 assms show ?thesis by (simp add: write_at_def nth_append)
  next
    case 3
    then have "\<not> i - off < length xs" and "\<not> i < off" by auto
    with 3 assms show ?thesis by (simp add: write_at_def nth_append)
  qed
qed

lemma take_write_at:
  "n \<le> off \<Longrightarrow> off \<le> length buf \<Longrightarrow> take n (write_at off xs buf) = take n buf"
  by (simp add: write_at_def)

end
