(* ===== verification/Jsonl.thy ===== *)
theory Jsonl
  imports Prelude
begin

text \<open>
  \<open>src/src/jsonl.cc\<close>: the JSON-lines reader and writer of the configuration database and of
  the control protocol. The code walks one \<open>offset\<close> forward over an immutable text; here each
  function takes the text from the offset on and returns what is left of it. The order of the
  checks and the texts of the exceptions are the code's.
\<close>

section \<open>Values and fields\<close>

record jsonl_value =
  string_value :: string
  array_value :: "nat list"
  is_array :: bool

record jsonl_field =
  field_key :: string
  field_value :: jsonl_value

definition jsonl_string :: "string \<Rightarrow> jsonl_value" where
  "jsonl_string s = \<lparr>string_value = s, array_value = [], is_array = False\<rparr>"

definition jsonl_array :: "nat list \<Rightarrow> jsonl_value" where
  "jsonl_array xs = \<lparr>string_value = [], array_value = xs, is_array = True\<rparr>"

section \<open>Reading\<close>

definition context_suffix :: "string \<Rightarrow> string" where
  "context_suffix ctx = (if ctx = [] then [] else '' in '' @ ctx)"

fun skip_jsonl_space :: "string \<Rightarrow> string" where
  "skip_jsonl_space [] = []"
| "skip_jsonl_space (c # cs) = (if isspace c then skip_jsonl_space cs else c # cs)"

definition require_jsonl_char :: "string \<Rightarrow> char \<Rightarrow> string \<Rightarrow> string result" where
  "require_jsonl_char ctx expected text =
     (case skip_jsonl_space text of
        [] \<Rightarrow> Inl (Runtime_error (''invalid JSON object'' @ context_suffix ctx))
      | c # rest \<Rightarrow>
          if c = expected then Inr rest
          else Inl (Runtime_error (''invalid JSON object'' @ context_suffix ctx)))"

abbreviation quote_char :: char where "quote_char \<equiv> CHR 0x22"
abbreviation backslash :: char where "backslash \<equiv> CHR 0x5C"

definition parse_jsonl_escape :: "string \<Rightarrow> char \<Rightarrow> char result" where
  "parse_jsonl_escape ctx e =
     (if e = quote_char \<or> e = backslash \<or> e = CHR ''/'' then Inr e
      else if e = CHR ''b'' then Inr (CHR 0x08)
      else if e = CHR ''f'' then Inr (CHR 0x0C)
      else if e = CHR ''n'' then Inr (CHR 0x0A)
      else if e = CHR ''r'' then Inr (CHR 0x0D)
      else if e = CHR ''t'' then Inr (CHR 0x09)
      else Inl (Runtime_error (''unsupported JSON escape'' @ context_suffix ctx)))"

definition parse_jsonl_hex_digit :: "string \<Rightarrow> char \<Rightarrow> nat result" where
  "parse_jsonl_hex_digit ctx c =
     (let n = code_of c in
      if 48 \<le> n \<and> n \<le> 57 then Inr (n - 48)
      else if 97 \<le> n \<and> n \<le> 102 then Inr (n - 97 + 10)
      else if 65 \<le> n \<and> n \<le> 70 then Inr (n - 65 + 10)
      else Inl (Runtime_error (''invalid JSON unicode escape'' @ context_suffix ctx)))"

text \<open>
  The loop over the four digits: \<open>code_point << 4 | digit\<close> is \<open>code_point * 16 + digit\<close>, since
  a digit is below 16. The first bad digit throws.
\<close>

fun parse_jsonl_code_point :: "string \<Rightarrow> nat \<Rightarrow> string \<Rightarrow> nat result" where
  "parse_jsonl_code_point ctx cp [] = Inr cp"
| "parse_jsonl_code_point ctx cp (c # cs) =
     bind_result (parse_jsonl_hex_digit ctx c)
       (\<lambda>d. parse_jsonl_code_point ctx (cp * 16 + d) cs)"

text \<open>The \<open>\u\<close> branch: the escaped character and the text after its four digits.\<close>

definition parse_jsonl_unicode :: "string \<Rightarrow> string \<Rightarrow> (char \<times> string) result" where
  "parse_jsonl_unicode ctx text =
     (if length text < 4 then
        Inl (Runtime_error (''unterminated JSON unicode escape'' @ context_suffix ctx))
      else bind_result (parse_jsonl_code_point ctx 0 (take 4 text)) (\<lambda>cp.
        if cp > 127 then
          Inl (Runtime_error (''unsupported JSON unicode escape'' @ context_suffix ctx))
        else Inr (char_of cp, drop 4 text)))"

lemma parse_jsonl_unicode_rest:
  "parse_jsonl_unicode ctx s = Inr (c, rest) \<Longrightarrow> rest = drop 4 s \<and> 4 \<le> length s"
  by (auto simp: parse_jsonl_unicode_def bind_result_Inr split: if_splits)

function parse_jsonl_string_body ::
    "string \<Rightarrow> string \<Rightarrow> string \<Rightarrow> (string \<times> string) result" where
  "parse_jsonl_string_body ctx v [] =
     Inl (Runtime_error (''unterminated JSON string'' @ context_suffix ctx))"
| "parse_jsonl_string_body ctx v (c # text) =
     (if c = quote_char then Inr (v, text)
      else if c = backslash then
        (case text of
           [] \<Rightarrow> Inl (Runtime_error (''unterminated JSON escape'' @ context_suffix ctx))
         | e # text' \<Rightarrow>
             if e = CHR ''u'' then
               (case parse_jsonl_unicode ctx text' of
                  Inl err \<Rightarrow> Inl err
                | Inr (d, rest) \<Rightarrow> parse_jsonl_string_body ctx (v @ [d]) rest)
             else
               (case parse_jsonl_escape ctx e of
                  Inl err \<Rightarrow> Inl err
                | Inr d \<Rightarrow> parse_jsonl_string_body ctx (v @ [d]) text'))
      else if code_of c < 32 then
        Inl (Runtime_error (''invalid control character in JSON string'' @ context_suffix ctx))
      else parse_jsonl_string_body ctx (v @ [c]) text)"
  by pat_completeness auto
termination
  by (relation "measure (\<lambda>(ctx, v, text). length text)")
    (auto dest!: parse_jsonl_unicode_rest [THEN conjunct1])

definition parse_jsonl_string :: "string \<Rightarrow> string \<Rightarrow> (string \<times> string) result" where
  "parse_jsonl_string ctx text =
     (case skip_jsonl_space text of
        [] \<Rightarrow> Inl (Runtime_error (''expected JSON string'' @ context_suffix ctx))
      | c # rest \<Rightarrow>
          if c = quote_char then parse_jsonl_string_body ctx [] rest
          else Inl (Runtime_error (''expected JSON string'' @ context_suffix ctx)))"

text \<open>\<open>std::numeric_limits<unsigned>::max()\<close>; the 64-bit accumulator never overflows below it.\<close>

abbreviation unsigned_max :: nat where "unsigned_max \<equiv> 4294967295"

fun accumulate_digits :: "exn \<Rightarrow> nat \<Rightarrow> string \<Rightarrow> nat result" where
  "accumulate_digits overflow v [] = Inr v"
| "accumulate_digits overflow v (c # cs) =
     (let v' = v * 10 + (code_of c - 48) in
      if v' > unsigned_max then Inl overflow else accumulate_digits overflow v' cs)"

definition parse_jsonl_unsigned :: "string \<Rightarrow> string \<Rightarrow> (nat \<times> string) result" where
  "parse_jsonl_unsigned ctx text =
     (let text' = skip_jsonl_space text;
          digits = takeWhile isdigit text';
          rest = dropWhile isdigit text'
      in if digits = [] then
           Inl (Runtime_error (''expected JSON unsigned integer'' @ context_suffix ctx))
         else bind_result
           (accumulate_digits
             (Runtime_error (''JSON unsigned integer overflow'' @ context_suffix ctx)) 0 digits)
           (\<lambda>v. Inr (v, rest)))"

section \<open>Consumption: what makes the loops of the reader stop\<close>

lemma skip_jsonl_space_eq: "skip_jsonl_space s = dropWhile isspace s"
  by (induction s) auto

lemma skip_jsonl_space_length: "length (skip_jsonl_space s) \<le> length s"
  by (induction s) auto

lemma length_takeWhile_dropWhile:
  "length xs = length (takeWhile P xs) + length (dropWhile P xs)"
  by (induction xs) auto

lemma parse_jsonl_unsigned_consumes:
  assumes "parse_jsonl_unsigned ctx s = Inr (v, rest)"
  shows "length rest < length s"
proof -
  define t where "t = skip_jsonl_space s"
  from assms have "takeWhile isdigit t \<noteq> []" and rest: "rest = dropWhile isdigit t"
    by (auto simp: parse_jsonl_unsigned_def Let_def bind_result_Inr t_def split: if_splits)
  then have "length rest < length t"
    using length_takeWhile_dropWhile [of t isdigit] by (cases "takeWhile isdigit t") auto
  with skip_jsonl_space_length [of s] show ?thesis by (simp add: t_def)
qed

lemma parse_jsonl_string_body_consumes:
  "parse_jsonl_string_body ctx v s = Inr (w, rest) \<Longrightarrow> length rest < length s"
proof (induction ctx v s rule: parse_jsonl_string_body.induct)
  case (1 ctx v)
  then show ?case by simp
next
  case (2 ctx v c s)
  consider "c = quote_char" | "c = backslash" | "c \<noteq> quote_char" "c \<noteq> backslash" by blast
  then show ?case
  proof cases
    case 1
    with 2(4) show ?thesis by simp
  next
    case c: 2
    show ?thesis
    proof (cases s)
      case Nil
      with c 2(4) show ?thesis by simp
    next
      case (Cons e s')
      show ?thesis
      proof (cases "e = CHR ''u''")
        case True
        with c Cons 2(4) obtain d r where u: "parse_jsonl_unicode ctx s' = Inr (d, r)"
          and "parse_jsonl_string_body ctx (v @ [d]) r = Inr (w, rest)"
          by (auto split: sum.splits prod.splits)
        then have "length rest < length r"
          using 2(1) c Cons True by auto
        with parse_jsonl_unicode_rest [OF u] Cons show ?thesis by simp
      next
        case False
        with c Cons 2(4) obtain d where "parse_jsonl_escape ctx e = Inr d"
          and "parse_jsonl_string_body ctx (v @ [d]) s' = Inr (w, rest)"
          by (auto split: sum.splits)
        then have "length rest < length s'"
          using 2(2) c Cons False by auto
        with Cons show ?thesis by simp
      qed
    qed
  next
    case 3
    with 2(3,4) show ?thesis by (auto split: if_splits)
  qed
qed

lemma parse_jsonl_string_consumes:
  assumes "parse_jsonl_string ctx s = Inr (w, rest)"
  shows "length rest < length s"
proof -
  from assms obtain t where "skip_jsonl_space s = quote_char # t"
    and "parse_jsonl_string_body ctx [] t = Inr (w, rest)"
    by (auto simp: parse_jsonl_string_def split: list.splits if_splits)
  then have "length rest < length (skip_jsonl_space s)"
    using parse_jsonl_string_body_consumes by fastforce
  with skip_jsonl_space_length [of s] show ?thesis by simp
qed

lemma require_jsonl_char_consumes:
  assumes "require_jsonl_char ctx c s = Inr rest"
  shows "length rest < length s"
proof -
  from assms have "skip_jsonl_space s = c # rest"
    by (auto simp: require_jsonl_char_def split: list.splits if_splits)
  with skip_jsonl_space_length [of s] show ?thesis by simp
qed

section \<open>Arrays, values and objects\<close>

function parse_jsonl_unsigned_items ::
    "string \<Rightarrow> nat list \<Rightarrow> string \<Rightarrow> (nat list \<times> string) result" where
  "parse_jsonl_unsigned_items ctx acc s =
     (case parse_jsonl_unsigned ctx s of
        Inl e \<Rightarrow> Inl e
      | Inr (v, s1) \<Rightarrow>
          (case skip_jsonl_space s1 of
             [] \<Rightarrow> Inl (Runtime_error (''unterminated JSON array'' @ context_suffix ctx))
           | c # s2 \<Rightarrow>
               if c = CHR '']'' then Inr (acc @ [v], s2)
               else if c \<noteq> CHR '','' then
                 Inl (Runtime_error (''expected JSON array separator'' @ context_suffix ctx))
               else parse_jsonl_unsigned_items ctx (acc @ [v]) s2))"
  by pat_completeness auto
termination
proof (relation "measure (\<lambda>(ctx, acc, s). length s)", goal_cases)
  case (2 ctx acc s p v s1 c s2)
  then have "length s1 < length s" by (auto dest: parse_jsonl_unsigned_consumes)
  moreover from 2 have "length (c # s2) \<le> length s1"
    by (metis skip_jsonl_space_length)
  ultimately show ?case by simp
qed simp

declare parse_jsonl_unsigned_items.simps [simp del]

definition parse_jsonl_unsigned_array :: "string \<Rightarrow> string \<Rightarrow> (nat list \<times> string) result" where
  "parse_jsonl_unsigned_array ctx s =
     bind_result (require_jsonl_char ctx (CHR ''['') s) (\<lambda>s1.
       case skip_jsonl_space s1 of
         [] \<Rightarrow> parse_jsonl_unsigned_items ctx [] []
       | c # s2 \<Rightarrow> if c = CHR '']'' then Inr ([], s2)
                   else parse_jsonl_unsigned_items ctx [] (c # s2))"

definition parse_jsonl_value :: "string \<Rightarrow> string \<Rightarrow> (jsonl_value \<times> string) result" where
  "parse_jsonl_value ctx s =
     (case skip_jsonl_space s of
        [] \<Rightarrow> Inl (Runtime_error (''missing JSON value'' @ context_suffix ctx))
      | c # s1 \<Rightarrow>
          if c = quote_char then
            bind_result (parse_jsonl_string ctx (c # s1)) (\<lambda>(v, rest). Inr (jsonl_string v, rest))
          else if c = CHR ''['' then
            bind_result (parse_jsonl_unsigned_array ctx (c # s1))
              (\<lambda>(xs, rest). Inr (jsonl_array xs, rest))
          else Inl (Runtime_error (''unsupported JSON value'' @ context_suffix ctx)))"

lemma parse_jsonl_unsigned_items_consumes:
  "parse_jsonl_unsigned_items ctx acc s = Inr (xs, rest) \<Longrightarrow> length rest < length s"
proof (induction ctx acc s rule: parse_jsonl_unsigned_items.induct)
  case (1 ctx acc s)
  from 1(2) obtain v s1 c s2 where v: "parse_jsonl_unsigned ctx s = Inr (v, s1)"
    and s1: "skip_jsonl_space s1 = c # s2"
    and cont: "c = CHR '']'' \<and> rest = s2 \<or>
      c = CHR '','' \<and> parse_jsonl_unsigned_items ctx (acc @ [v]) s2 = Inr (xs, rest)"
    by (subst (asm) parse_jsonl_unsigned_items.simps)
      (auto split: sum.splits prod.splits list.splits if_splits)
  have "length (c # s2) \<le> length s1" using s1 by (metis skip_jsonl_space_length)
  moreover have "length s1 < length s" using v by (rule parse_jsonl_unsigned_consumes)
  moreover have "length rest \<le> length s2" using cont 1(1) v s1 by fastforce
  ultimately show ?case by simp
qed

lemma parse_jsonl_unsigned_array_consumes:
  assumes "parse_jsonl_unsigned_array ctx s = Inr (xs, rest)"
  shows "length rest < length s"
proof -
  from assms obtain s1 where s1: "require_jsonl_char ctx (CHR ''['') s = Inr s1"
    and body: "(case skip_jsonl_space s1 of [] \<Rightarrow> parse_jsonl_unsigned_items ctx [] []
      | c # s2 \<Rightarrow> if c = CHR '']'' then Inr ([], s2) else parse_jsonl_unsigned_items ctx [] (c # s2))
      = Inr (xs, rest)"
    by (auto simp: parse_jsonl_unsigned_array_def bind_result_Inr)
  from body have "length rest \<le> length (skip_jsonl_space s1)"
    by (cases "skip_jsonl_space s1")
      (auto dest!: parse_jsonl_unsigned_items_consumes split: if_splits)
  with require_jsonl_char_consumes [OF s1] skip_jsonl_space_length [of s1] show ?thesis by simp
qed

lemma parse_jsonl_value_consumes:
  assumes "parse_jsonl_value ctx s = Inr (v, rest)"
  shows "length rest < length s"
proof -
  from assms have "length rest < length (skip_jsonl_space s)"
    by (auto simp: parse_jsonl_value_def bind_result_Inr split: list.splits if_splits
        dest!: parse_jsonl_string_consumes parse_jsonl_unsigned_array_consumes)
  with skip_jsonl_space_length [of s] show ?thesis by simp
qed

text \<open>The check after a closing brace: only white space may follow.\<close>

definition finish_jsonl_object :: "string \<Rightarrow> jsonl_field list \<Rightarrow> string \<Rightarrow> jsonl_field list result" where
  "finish_jsonl_object ctx fs s =
     (if skip_jsonl_space s \<noteq> [] then
        Inl (Runtime_error (''trailing data after JSON object'' @ context_suffix ctx))
      else Inr fs)"

text \<open>One round of the loop up to the field it pushes.\<close>

definition parse_jsonl_field :: "string \<Rightarrow> string \<Rightarrow> (jsonl_field \<times> string) result" where
  "parse_jsonl_field ctx s =
     bind_result (parse_jsonl_string ctx s) (\<lambda>(k, s1).
     bind_result (require_jsonl_char ctx (CHR '':'') s1) (\<lambda>s2.
     bind_result (parse_jsonl_value ctx s2) (\<lambda>(v, s3).
       Inr (\<lparr>field_key = k, field_value = v\<rparr>, s3))))"

lemma parse_jsonl_field_consumes:
  assumes "parse_jsonl_field ctx s = Inr (f, rest)"
  shows "length rest < length s"
proof -
  from assms obtain k s1 s2 v where "parse_jsonl_string ctx s = Inr (k, s1)"
    and "require_jsonl_char ctx (CHR '':'') s1 = Inr s2" and "parse_jsonl_value ctx s2 = Inr (v, rest)"
    by (auto simp: parse_jsonl_field_def bind_result_Inr)
  then show ?thesis
    by (auto dest!: parse_jsonl_string_consumes require_jsonl_char_consumes parse_jsonl_value_consumes)
qed

function parse_jsonl_fields ::
    "string \<Rightarrow> jsonl_field list \<Rightarrow> string \<Rightarrow> jsonl_field list result" where
  "parse_jsonl_fields ctx acc s =
     (case parse_jsonl_field ctx s of
        Inl e \<Rightarrow> Inl e
      | Inr (f, s1) \<Rightarrow>
          (case skip_jsonl_space s1 of
             [] \<Rightarrow> Inl (Runtime_error (''unterminated JSON object'' @ context_suffix ctx))
           | c # s2 \<Rightarrow>
               if c = CHR ''}'' then finish_jsonl_object ctx (acc @ [f]) s2
               else if c \<noteq> CHR '','' then
                 Inl (Runtime_error (''expected JSON field separator'' @ context_suffix ctx))
               else parse_jsonl_fields ctx (acc @ [f]) s2))"
  by pat_completeness auto
termination
proof (relation "measure (\<lambda>(ctx, acc, s). length s)", goal_cases)
  case (2 ctx acc s p f s1 c s2)
  then have "length s1 < length s" by (auto dest: parse_jsonl_field_consumes)
  moreover from 2 have "length (c # s2) \<le> length s1"
    by (metis skip_jsonl_space_length)
  ultimately show ?case by simp
qed simp

declare parse_jsonl_fields.simps [simp del]

definition parse_jsonl_object :: "string \<Rightarrow> string \<Rightarrow> jsonl_field list result" where
  "parse_jsonl_object s ctx =
     bind_result (require_jsonl_char ctx (CHR ''{'') s) (\<lambda>s1.
       case skip_jsonl_space s1 of
         [] \<Rightarrow> parse_jsonl_fields ctx [] []
       | c # s2 \<Rightarrow> if c = CHR ''}'' then finish_jsonl_object ctx [] s2
                   else parse_jsonl_fields ctx [] (c # s2))"

section \<open>Writing\<close>

definition hex_digit_lower :: "nat \<Rightarrow> char" where
  "hex_digit_lower d = (if d < 10 then char_of (48 + d) else char_of (87 + d))"

text \<open>\<open>snprintf(code, sizeof(code), "\\u%04x", ch)\<close> for a byte below 0x20.\<close>

definition escape_jsonl_char :: "char \<Rightarrow> string" where
  "escape_jsonl_char c =
     (if c = quote_char then [backslash, quote_char]
      else if c = backslash then [backslash, backslash]
      else if c = CHR 0x08 then [backslash, CHR ''b'']
      else if c = CHR 0x0C then [backslash, CHR ''f'']
      else if c = CHR 0x0A then [backslash, CHR ''n'']
      else if c = CHR 0x0D then [backslash, CHR ''r'']
      else if c = CHR 0x09 then [backslash, CHR ''t'']
      else if code_of c < 32 then
        [backslash, CHR ''u'', CHR ''0'', CHR ''0'',
         hex_digit_lower (code_of c div 16), hex_digit_lower (code_of c mod 16)]
      else [c])"

fun escape_jsonl_string :: "string \<Rightarrow> string" where
  "escape_jsonl_string [] = []"
| "escape_jsonl_string (c # cs) = escape_jsonl_char c @ escape_jsonl_string cs"

definition jsonl_string_value :: "string \<Rightarrow> string" where
  "jsonl_string_value v = quote_char # escape_jsonl_string v @ [quote_char]"

definition jsonl_string_field :: "string \<Rightarrow> string \<Rightarrow> string" where
  "jsonl_string_field k v = quote_char # k @ [quote_char, CHR '':''] @ jsonl_string_value v"

definition jsonl_bool_field :: "string \<Rightarrow> bool \<Rightarrow> string" where
  "jsonl_bool_field k v =
     quote_char # k @ [quote_char, CHR '':''] @ (if v then ''true'' else ''false'')"

fun join_unsigned :: "nat list \<Rightarrow> string" where
  "join_unsigned [] = []"
| "join_unsigned [x] = to_string x"
| "join_unsigned (x # y # xs) = to_string x @ [CHR '',''] @ join_unsigned (y # xs)"

definition jsonl_unsigned_array :: "nat list \<Rightarrow> string" where
  "jsonl_unsigned_array xs = CHR ''['' # join_unsigned xs @ [CHR '']'']"

definition jsonl_unsigned_array_field :: "string \<Rightarrow> nat list \<Rightarrow> string" where
  "jsonl_unsigned_array_field k xs =
     quote_char # k @ [quote_char, CHR '':''] @ jsonl_unsigned_array xs"

section \<open>Looking fields up\<close>

text \<open>
  \<open>find_jsonl_field\<close> keeps the pointer to the one field found so far and throws at a second one.
\<close>

fun find_jsonl_field_from ::
    "jsonl_value option \<Rightarrow> jsonl_field list \<Rightarrow> string \<Rightarrow> string \<Rightarrow> jsonl_value option result" where
  "find_jsonl_field_from found [] k ctx = Inr found"
| "find_jsonl_field_from found (f # fs) k ctx =
     (if field_key f \<noteq> k then find_jsonl_field_from found fs k ctx
      else if found \<noteq> None then
        Inl (Runtime_error (''duplicate JSON field'' @ context_suffix ctx @ '': '' @ k))
      else find_jsonl_field_from (Some (field_value f)) fs k ctx)"

definition find_jsonl_field :: "jsonl_field list \<Rightarrow> string \<Rightarrow> string \<Rightarrow> jsonl_value option result" where
  "find_jsonl_field fs k ctx = find_jsonl_field_from None fs k ctx"

definition require_jsonl_string :: "jsonl_field list \<Rightarrow> string \<Rightarrow> string \<Rightarrow> string result" where
  "require_jsonl_string fs k ctx =
     bind_result (find_jsonl_field fs k ctx) (\<lambda>found.
       case found of
         None \<Rightarrow> Inl (Runtime_error (''missing JSON field'' @ context_suffix ctx @ '': '' @ k))
       | Some v \<Rightarrow>
           if is_array v then
             Inl (Runtime_error (''JSON field must be a string'' @ context_suffix ctx @ '': '' @ k))
           else Inr (string_value v))"

definition require_jsonl_unsigned_array ::
    "jsonl_field list \<Rightarrow> string \<Rightarrow> string \<Rightarrow> nat list result" where
  "require_jsonl_unsigned_array fs k ctx =
     bind_result (find_jsonl_field fs k ctx) (\<lambda>found.
       case found of
         None \<Rightarrow> Inl (Runtime_error (''missing JSON field'' @ context_suffix ctx @ '': '' @ k))
       | Some v \<Rightarrow>
           if \<not> is_array v then
             Inl (Runtime_error (''JSON field must be an array'' @ context_suffix ctx @ '': '' @ k))
           else Inr (array_value v))"

fun reject_unknown_jsonl_fields ::
    "jsonl_field list \<Rightarrow> string list \<Rightarrow> string \<Rightarrow> unit result" where
  "reject_unknown_jsonl_fields [] expected ctx = Inr ()"
| "reject_unknown_jsonl_fields (f # fs) expected ctx =
     (if field_key f \<notin> set expected then
        Inl (Runtime_error (''unknown JSON field'' @ context_suffix ctx @ '': '' @ field_key f))
      else reject_unknown_jsonl_fields fs expected ctx)"

section \<open>Round trips\<close>

text \<open>
  What a writer promises its reader: reading the written text gives the value back and leaves
  the rest of the text, whatever it is, as long as the rest cannot be taken for more of the
  value (\<open>stop\<close>).
\<close>

locale string_codec =
  fixes enc :: "'a \<Rightarrow> string"
    and dec :: "string \<Rightarrow> ('a \<times> string) result"
    and wf :: "'a \<Rightarrow> bool"
    and stop :: "string \<Rightarrow> bool"
  assumes dec_enc: "wf a \<Longrightarrow> stop rest \<Longrightarrow> dec (enc a @ rest) = Inr (a, rest)"
begin

lemma enc_prefix_free:
  assumes "wf a" "wf b" "stop r" "stop r'" and eq: "enc a @ r = enc b @ r'"
  shows "a = b \<and> r = r'"
proof -
  have "dec (enc b @ r') = Inr (a, r)" using dec_enc [OF assms(1,3)] unfolding eq .
  with dec_enc [OF assms(2,4)] show ?thesis by simp
qed

lemma enc_inject:
  assumes "wf a" "wf b" "stop []" and "enc a = enc b"
  shows "a = b"
proof -
  have "enc a @ [] = enc b @ []" unfolding assms(4) ..
  with enc_prefix_free [OF assms(1,2,3,3)] show ?thesis by blast
qed

end

lemma parse_hex_digit_lower [simp]:
  "d < 16 \<Longrightarrow> parse_jsonl_hex_digit ctx (hex_digit_lower d) = Inr d"
  by (auto simp: parse_jsonl_hex_digit_def hex_digit_lower_def)

lemma parse_hex_digit_zero [simp]: "parse_jsonl_hex_digit ctx (CHR ''0'') = Inr 0"
  by (simp add: parse_jsonl_hex_digit_def code_of_def)

lemma parse_escaped_control:
  assumes "code_of c < 32"
  shows "parse_jsonl_unicode ctx
    ([CHR ''0'', CHR ''0'', hex_digit_lower (code_of c div 16), hex_digit_lower (code_of c mod 16)] @ rest)
    = Inr (c, rest)"
proof -
  have "code_of c div 16 < 16" and "code_of c mod 16 < 16" and "code_of c div 16 * 16 + code_of c mod 16 = code_of c"
    using assms by auto
  with assms show ?thesis by (simp add: parse_jsonl_unicode_def)
qed

lemma parse_string_body_escape_char:
  "parse_jsonl_string_body ctx v (escape_jsonl_char c @ rest) =
   parse_jsonl_string_body ctx (v @ [c]) rest"
proof -
  consider (special) "c \<in> {quote_char, backslash, CHR 0x08, CHR 0x0C, CHR 0x0A, CHR 0x0D, CHR 0x09}"
    | (control) "c \<notin> {quote_char, backslash, CHR 0x08, CHR 0x0C, CHR 0x0A, CHR 0x0D, CHR 0x09}" "code_of c < 32"
    | (plain) "c \<notin> {quote_char, backslash}" "\<not> code_of c < 32"
    by blast
  then show ?thesis
  proof cases
    case special
    then show ?thesis by (auto simp: escape_jsonl_char_def parse_jsonl_escape_def)
  next
    case control
    then show ?thesis
      using parse_escaped_control [of c ctx rest] by (simp add: escape_jsonl_char_def)
  next
    case plain
    then have "escape_jsonl_char c = [c]"
      by (auto simp: escape_jsonl_char_def code_of_def)
    with plain show ?thesis by simp
  qed
qed

lemma parse_string_body_escape:
  "parse_jsonl_string_body ctx v (escape_jsonl_string w @ quote_char # rest) = Inr (v @ w, rest)"
  by (induction w arbitrary: v) (simp_all add: parse_string_body_escape_char)

lemma skip_jsonl_space_nonspace [simp]:
  "\<not> isspace c \<Longrightarrow> skip_jsonl_space (c # s) = c # s"
  by simp

lemma not_isspace_punctuation [simp]:
  "\<not> isspace quote_char" "\<not> isspace (CHR ''['')" "\<not> isspace (CHR '']'')" "\<not> isspace (CHR ''{'')"
  "\<not> isspace (CHR ''}'')" "\<not> isspace (CHR '':'')" "\<not> isspace (CHR '','')"
  by (simp_all add: isspace_def code_of_def)

lemma isdigit_not_isspace: "isdigit c \<Longrightarrow> \<not> isspace c"
  by (auto simp: isdigit_def isspace_def)

lemma not_isdigit_punctuation [simp]:
  "\<not> isdigit (CHR '']'')" "\<not> isdigit (CHR '','')"
  by (simp_all add: isdigit_def code_of_def)

lemma parse_jsonl_string_value:
  "parse_jsonl_string ctx (jsonl_string_value v @ rest) = Inr (v, rest)"
  by (simp add: parse_jsonl_string_def jsonl_string_value_def parse_string_body_escape)

lemma accumulate_digits_eq:
  "accumulate_digits e acc ds =
    (if dec_value acc ds \<le> unsigned_max \<or> ds = [] then Inr (dec_value acc ds) else Inl e)"
proof (induction ds arbitrary: acc)
  case (Cons c ds)
  let ?acc = "acc * 10 + (code_of c - 48)"
  have "?acc \<le> dec_value ?acc ds" by (rule dec_value_ge)
  with Cons.IH [of ?acc] show ?case by (cases ds) (auto simp: Let_def)
qed simp

definition no_digit_ahead :: "string \<Rightarrow> bool" where
  "no_digit_ahead s \<longleftrightarrow> (case s of [] \<Rightarrow> True | c # _ \<Rightarrow> \<not> isdigit c)"

lemma takeWhile_to_string:
  assumes "no_digit_ahead rest"
  shows "takeWhile isdigit (to_string n @ rest) = to_string n"
    and "dropWhile isdigit (to_string n @ rest) = rest"
proof -
  have all: "\<forall>c\<in>set (to_string n). isdigit c" using to_string_digits by blast
  have rest: "takeWhile isdigit rest = []" "dropWhile isdigit rest = rest"
    using assms by (auto simp: no_digit_ahead_def split: list.splits)
  show "takeWhile isdigit (to_string n @ rest) = to_string n"
    using all rest by (simp add: takeWhile_append2)
  show "dropWhile isdigit (to_string n @ rest) = rest"
    using all rest by (simp add: dropWhile_append2)
qed

lemma to_string_hd_digit:
  obtains c cs where "to_string n = c # cs" and "isdigit c"
  using to_string_digits [of _ n] by (cases "to_string n") auto

lemma skip_space_to_string: "skip_jsonl_space (to_string n @ rest) = to_string n @ rest"
  by (rule to_string_hd_digit [of n]) (simp add: isdigit_not_isspace)

lemma parse_jsonl_unsigned_to_string:
  assumes "n \<le> unsigned_max" and "no_digit_ahead rest"
  shows "parse_jsonl_unsigned ctx (to_string n @ rest) = Inr (n, rest)"
  using assms
  by (simp add: parse_jsonl_unsigned_def skip_space_to_string takeWhile_to_string
      accumulate_digits_eq Let_def)

lemma parse_jsonl_unsigned_items_join:
  assumes "xs \<noteq> []" and "\<forall>x\<in>set xs. x \<le> unsigned_max"
  shows "parse_jsonl_unsigned_items ctx acc (join_unsigned xs @ CHR '']'' # rest) = Inr (acc @ xs, rest)"
  using assms
proof (induction xs arbitrary: acc rule: join_unsigned.induct)
  case 1
  then show ?case by simp
next
  case (2 x)
  then show ?case
    by (simp add: parse_jsonl_unsigned_items.simps parse_jsonl_unsigned_to_string no_digit_ahead_def)
next
  case (3 x y xs)
  then show ?case
    by (subst parse_jsonl_unsigned_items.simps)
      (simp add: parse_jsonl_unsigned_to_string no_digit_ahead_def)
qed

lemma join_unsigned_hd:
  assumes "xs \<noteq> []"
  obtains c cs where "join_unsigned xs = c # cs" and "isdigit c"
proof -
  obtain c cs where "to_string (hd xs) = c # cs" and c: "isdigit c" by (rule to_string_hd_digit)
  then have "\<exists>ds. join_unsigned xs = c # ds"
    using assms by (cases xs rule: join_unsigned.cases) auto
  with c that show thesis by blast
qed

lemma not_isdigit_bracket: "isdigit c \<Longrightarrow> c \<noteq> CHR '']''"
  by auto

lemma parse_jsonl_unsigned_array_value:
  assumes "\<forall>x\<in>set xs. x \<le> unsigned_max"
  shows "parse_jsonl_unsigned_array ctx (jsonl_unsigned_array xs @ rest) = Inr (xs, rest)"
proof (cases "xs = []")
  case True
  then show ?thesis
    by (simp add: parse_jsonl_unsigned_array_def jsonl_unsigned_array_def require_jsonl_char_def)
next
  case False
  then obtain c cs where hd: "join_unsigned xs = c # cs" "isdigit c" by (rule join_unsigned_hd)
  from parse_jsonl_unsigned_items_join [OF False assms, of ctx "[]" rest] hd
  show ?thesis
    by (auto simp: parse_jsonl_unsigned_array_def jsonl_unsigned_array_def require_jsonl_char_def
        isdigit_not_isspace)
qed

interpretation json_string: string_codec jsonl_string_value "parse_jsonl_string ctx"
  "\<lambda>_. True" "\<lambda>_. True"
  by unfold_locales (simp add: parse_jsonl_string_value)

interpretation json_unsigned: string_codec to_string "parse_jsonl_unsigned ctx"
  "\<lambda>n. n \<le> unsigned_max" no_digit_ahead
  by unfold_locales (simp add: parse_jsonl_unsigned_to_string)

interpretation json_array: string_codec jsonl_unsigned_array "parse_jsonl_unsigned_array ctx"
  "\<lambda>xs. \<forall>x\<in>set xs. x \<le> unsigned_max" "\<lambda>_. True"
  by unfold_locales (simp add: parse_jsonl_unsigned_array_value)

subsection \<open>Whole objects\<close>

text \<open>
  What every caller of the field writers builds: \<open>{\<close>, the fields separated by commas, \<open>}\<close>.
  The writers do not escape keys, so a key has to be plain; values are arbitrary byte strings.
\<close>

definition plain_key :: "string \<Rightarrow> bool" where
  "plain_key k \<longleftrightarrow> list_all (\<lambda>c. c \<noteq> quote_char \<and> c \<noteq> backslash \<and> 32 \<le> code_of c) k"

definition wf_value :: "jsonl_value \<Rightarrow> bool" where
  "wf_value v \<longleftrightarrow>
     (if is_array v then string_value v = [] \<and> (\<forall>x\<in>set (array_value v). x \<le> unsigned_max)
      else array_value v = [])"

definition wf_field :: "jsonl_field \<Rightarrow> bool" where
  "wf_field f \<longleftrightarrow> plain_key (field_key f) \<and> wf_value (field_value f)"

definition write_field :: "jsonl_field \<Rightarrow> string" where
  "write_field f =
     (if is_array (field_value f) then jsonl_unsigned_array_field (field_key f) (array_value (field_value f))
      else jsonl_string_field (field_key f) (string_value (field_value f)))"

fun write_fields :: "jsonl_field list \<Rightarrow> string" where
  "write_fields [] = []"
| "write_fields [f] = write_field f"
| "write_fields (f # g # fs) = write_field f @ CHR '','' # write_fields (g # fs)"

definition write_object :: "jsonl_field list \<Rightarrow> string" where
  "write_object fs = CHR ''{'' # write_fields fs @ [CHR ''}'']"

definition string_field :: "string \<Rightarrow> string \<Rightarrow> jsonl_field" where
  "string_field k v = \<lparr>field_key = k, field_value = jsonl_string v\<rparr>"

definition array_field :: "string \<Rightarrow> nat list \<Rightarrow> jsonl_field" where
  "array_field k xs = \<lparr>field_key = k, field_value = jsonl_array xs\<rparr>"

lemma write_field_simps [simp]:
  "write_field (string_field k v) = jsonl_string_field k v"
  "write_field (array_field k xs) = jsonl_unsigned_array_field k xs"
  by (simp_all add: write_field_def string_field_def array_field_def jsonl_string_def jsonl_array_def)

lemma field_simps_key [simp]:
  "field_key (string_field k v) = k" "field_key (array_field k xs) = k"
  "field_value (string_field k v) = jsonl_string v" "field_value (array_field k xs) = jsonl_array xs"
  by (simp_all add: string_field_def array_field_def)

lemma jsonl_value_simps [simp]:
  "is_array (jsonl_string v) = False" "is_array (jsonl_array xs) = True"
  "string_value (jsonl_string v) = v" "array_value (jsonl_array xs) = xs"
  "string_value (jsonl_array xs) = []" "array_value (jsonl_string v) = []"
  by (simp_all add: jsonl_string_def jsonl_array_def)

lemma wf_field_simps [simp]:
  "wf_field (string_field k v) = plain_key k"
  "wf_field (array_field k xs) \<longleftrightarrow> plain_key k \<and> (\<forall>x\<in>set xs. x \<le> unsigned_max)"
  by (simp_all add: wf_field_def wf_value_def)

lemma parse_string_body_plain:
  "plain_key k \<Longrightarrow> parse_jsonl_string_body ctx v (k @ quote_char # rest) = Inr (v @ k, rest)"
  by (induction k arbitrary: v) (auto simp: plain_key_def)

lemma parse_jsonl_string_plain:
  "plain_key k \<Longrightarrow>
    parse_jsonl_string ctx (quote_char # k @ quote_char # rest) = Inr (k, rest)"
  by (simp add: parse_jsonl_string_def parse_string_body_plain)

lemma parse_jsonl_value_string:
  "parse_jsonl_value ctx (jsonl_string_value v @ rest) = Inr (jsonl_string v, rest)"
  using parse_jsonl_string_value [of ctx v rest]
  by (simp add: parse_jsonl_value_def jsonl_string_value_def)

lemma parse_jsonl_value_array:
  "\<forall>x\<in>set xs. x \<le> unsigned_max \<Longrightarrow>
    parse_jsonl_value ctx (jsonl_unsigned_array xs @ rest) = Inr (jsonl_array xs, rest)"
  using parse_jsonl_unsigned_array_value [of xs ctx rest]
  by (simp add: parse_jsonl_value_def jsonl_unsigned_array_def)

lemma parse_jsonl_field_write:
  assumes "wf_field f"
  shows "parse_jsonl_field ctx (write_field f @ rest) = Inr (f, rest)"
proof (cases "is_array (field_value f)")
  case True
  with assms have "jsonl_array (array_value (field_value f)) = field_value f"
    and le: "\<forall>x\<in>set (array_value (field_value f)). x \<le> unsigned_max"
    by (auto simp: wf_field_def wf_value_def jsonl_array_def)
  with parse_jsonl_value_array [OF le, of ctx rest] True assms show ?thesis
    by (simp add: write_field_def parse_jsonl_field_def jsonl_unsigned_array_field_def
        parse_jsonl_string_plain wf_field_def require_jsonl_char_def)
next
  case False
  with assms have "jsonl_string (string_value (field_value f)) = field_value f"
    by (auto simp: wf_field_def wf_value_def jsonl_string_def)
  with parse_jsonl_value_string [of ctx "string_value (field_value f)" rest] False assms show ?thesis
    by (simp add: write_field_def parse_jsonl_field_def jsonl_string_field_def
        parse_jsonl_string_plain wf_field_def require_jsonl_char_def)
qed

lemma write_field_hd: "\<exists>s. write_field f = quote_char # s"
  by (simp add: write_field_def jsonl_unsigned_array_field_def jsonl_string_field_def)

lemma finish_jsonl_object_blank:
  "list_all isspace tail \<Longrightarrow> finish_jsonl_object ctx fs tail = Inr fs"
proof -
  assume "list_all isspace tail"
  then have "skip_jsonl_space tail = []" by (induction tail) auto
  then show ?thesis by (simp add: finish_jsonl_object_def)
qed

lemma parse_jsonl_fields_write:
  assumes "fs \<noteq> []" and "list_all wf_field fs" and "list_all isspace tail"
  shows "parse_jsonl_fields ctx acc (write_fields fs @ CHR ''}'' # tail) = Inr (acc @ fs)"
  using assms
proof (induction fs arbitrary: acc rule: write_fields.induct)
  case 1
  then show ?case by simp
next
  case (2 f)
  then show ?case
    by (simp add: parse_jsonl_fields.simps parse_jsonl_field_write finish_jsonl_object_blank)
next
  case (3 f g fs)
  then show ?case
    by (subst parse_jsonl_fields.simps) (simp add: parse_jsonl_field_write)
qed

lemma write_fields_hd:
  assumes "fs \<noteq> []"
  shows "\<exists>s. write_fields fs = quote_char # s"
  using assms write_field_hd [of "hd fs"] by (cases fs rule: write_fields.cases) auto

theorem parse_write_object:
  assumes "list_all wf_field fs" and "list_all isspace tail"
  shows "parse_jsonl_object (write_object fs @ tail) ctx = Inr fs"
proof (cases "fs = []")
  case True
  with assms show ?thesis
    by (simp add: parse_jsonl_object_def write_object_def require_jsonl_char_def
        finish_jsonl_object_blank)
next
  case False
  then obtain s where hd: "write_fields fs = quote_char # s" using write_fields_hd by blast
  with parse_jsonl_fields_write [OF False assms, of ctx "[]"] show ?thesis
    by (simp add: parse_jsonl_object_def write_object_def require_jsonl_char_def)
qed

section \<open>Field lookup against the plain reading of an object as an association list\<close>

lemma find_jsonl_field_from_Some:
  assumes "found \<noteq> None"
  shows "find_jsonl_field_from found fs k ctx =
    (if k \<in> set (map field_key fs) then Inl (Runtime_error (''duplicate JSON field'' @ context_suffix ctx @ '': '' @ k))
     else Inr found)"
  using assms by (induction fs) auto

lemma find_jsonl_field_Cons:
  "find_jsonl_field (f # fs) k ctx =
    (if field_key f \<noteq> k then find_jsonl_field fs k ctx
     else if k \<in> set (map field_key fs) then Inl (Runtime_error (''duplicate JSON field'' @ context_suffix ctx @ '': '' @ k))
     else Inr (Some (field_value f)))"
  by (simp add: find_jsonl_field_def find_jsonl_field_from_Some)

lemma find_jsonl_field_Nil [simp]: "find_jsonl_field [] k ctx = Inr None"
  by (simp add: find_jsonl_field_def)

lemma find_jsonl_field_spec:
  "find_jsonl_field fs k ctx =
    (case filter (\<lambda>f. field_key f = k) fs of
       [] \<Rightarrow> Inr None
     | [f] \<Rightarrow> Inr (Some (field_value f))
     | _ \<Rightarrow> Inl (Runtime_error (''duplicate JSON field'' @ context_suffix ctx @ '': '' @ k)))"
proof (induction fs)
  case (Cons f fs)
  have "k \<notin> set (map field_key fs) \<longleftrightarrow> filter (\<lambda>f. field_key f = k) fs = []"
    by (auto simp: filter_empty_conv)
  with Cons show ?case
    by (auto simp: find_jsonl_field_Cons filter_empty_conv split: list.splits)
qed simp

lemma reject_unknown_jsonl_fields_iff:
  "reject_unknown_jsonl_fields fs expected ctx = Inr u \<longleftrightarrow> field_key ` set fs \<subseteq> set expected"
  by (induction fs) auto

lemmas field_lookup = require_jsonl_string_def require_jsonl_unsigned_array_def find_jsonl_field_Cons

section \<open>Properties\<close>

text \<open>
  C31. What the field writers produce, the reader reads back: an object with any string values
  (quotes, backslashes, control bytes and non-ASCII bytes included) and any arrays of unsigned
  values is parsed to exactly its fields, in order, trailing white space allowed.
\<close>

theorem jsonl_object_roundtrip:
  assumes "list_all wf_field fs" and "list_all isspace tail"
  shows "parse_jsonl_object (write_object fs @ tail) ctx = Inr fs"
  using assms by (rule parse_write_object)

theorem jsonl_object_roundtrip_witness:
  "parse_jsonl_object (write_object [string_field ''n'' [CHR 0x22, CHR 0x0A, CHR 0xE4],
      array_field ''p'' [0, 4294967295]] @ [CHR 0x0A]) ''request''
    = Inr [string_field ''n'' [CHR 0x22, CHR 0x0A, CHR 0xE4], array_field ''p'' [0, 4294967295]]"
  by (rule jsonl_object_roundtrip) (simp_all add: plain_key_def isspace_def code_of_def)

text \<open>
  Looking a string field up succeeds exactly when the object has one field of this name and
  it is a string: a missing field, a second field of the same name and an array are all refused.
\<close>

theorem require_jsonl_string_exact:
  "(require_jsonl_string fs k ctx = Inr v) =
     (\<exists>f. filter (\<lambda>f. field_key f = k) fs = [f] \<and> \<not> is_array (field_value f)
        \<and> string_value (field_value f) = v)"
  by (auto simp: require_jsonl_string_def find_jsonl_field_spec split: list.splits if_splits)

end
