(* ===== verification/Common.thy ===== *)
theory Common
  imports Prelude
begin

text \<open>
  The small helpers every program shares: \<open>src/src/vds_common.cc\<close> (number test, hexadecimal
  dumps), \<open>src/src/vds_profile.hh\<close> with the profile enumeration of \<open>src/src/vds_config.hh\<close>
  (device identification from a modalias) and the line format of \<open>src/src/vds_log.cc\<close>.
\<close>

section \<open>vds_common.cc\<close>

definition is_decimal_number :: "string \<Rightarrow> bool" where
  "is_decimal_number s \<longleftrightarrow> s \<noteq> [] \<and> list_all isdigit s"

definition kHexDigits :: string where
  "kHexDigits = ''0123456789abcdef''"

definition append_byte_hex_digits :: "string \<Rightarrow> u8 \<Rightarrow> string" where
  "append_byte_hex_digits acc v =
     acc @ [kHexDigits ! unat (drop_bit 4 v AND 15), kHexDigits ! unat (v AND 15)]"

definition hex_u8 :: "u8 \<Rightarrow> string" where
  "hex_u8 v = append_byte_hex_digits ''0x'' v"

definition hex_u16 :: "u16 \<Rightarrow> string" where
  "hex_u16 v =
     (''0x0000'')
       [2 := kHexDigits ! unat (drop_bit 12 v AND 15),
        3 := kHexDigits ! unat (drop_bit 8 v AND 15),
        4 := kHexDigits ! unat (drop_bit 4 v AND 15),
        5 := kHexDigits ! unat (v AND 15)]"

text \<open>
  \<open>hex_bytes\<close>: at most \<open>max_bytes\<close> bytes, a separator before each but the first unless it is
  the NUL character, and an ellipsis when bytes were left out.
\<close>

fun hex_bytes_loop :: "char \<Rightarrow> nat \<Rightarrow> bytes \<Rightarrow> string \<Rightarrow> string" where
  "hex_bytes_loop sep index [] acc = acc"
| "hex_bytes_loop sep index (b # bs) acc =
     hex_bytes_loop sep (Suc index) bs
       (append_byte_hex_digits (if index > 0 \<and> sep \<noteq> CHR 0x00 then acc @ [sep] else acc) b)"

definition hex_bytes :: "bytes \<Rightarrow> nat \<Rightarrow> char \<Rightarrow> bool \<Rightarrow> string" where
  "hex_bytes bs max_bytes sep append_ellipsis =
     (let count = min (length bs) max_bytes;
          dump = hex_bytes_loop sep 0 (take count bs) []
      in if append_ellipsis \<and> length bs > max_bytes then dump @ '' ...'' else dump)"

section \<open>Profiles and device identification: vds_profile.hh\<close>

datatype controller_profile = Unspecified | Ds5 | Dse

record device_id =
  vendor :: u16
  product :: u16

definition VDS_PROFILE_DS5 :: nat where "VDS_PROFILE_DS5 = 0"
definition VDS_PROFILE_DSE :: nat where "VDS_PROFILE_DSE = 1"

fun usb_profile_from_controller_profile :: "controller_profile \<Rightarrow> nat result" where
  "usb_profile_from_controller_profile Ds5 = Inr VDS_PROFILE_DS5"
| "usb_profile_from_controller_profile Dse = Inr VDS_PROFILE_DSE"
| "usb_profile_from_controller_profile Unspecified =
     Inl (Runtime_error ''empty profile has no fixed USB profile'')"

definition usb_profile_name :: "nat \<Rightarrow> string" where
  "usb_profile_name p = (if p = VDS_PROFILE_DSE then ''dse'' else ''ds5'')"

definition hex_nibble :: "char \<Rightarrow> nat option" where
  "hex_nibble c =
     (let n = code_of c in
      if 48 \<le> n \<and> n \<le> 57 then Some (n - 48)
      else if 97 \<le> n \<and> n \<le> 102 then Some (10 + n - 97)
      else if 65 \<le> n \<and> n \<le> 70 then Some (10 + n - 65)
      else None)"

text \<open>The loop: the value of a 32-bit \<open>unsigned int\<close>, and how many digits it read.\<close>

fun parse_hex_digits :: "nat \<Rightarrow> nat \<Rightarrow> nat \<Rightarrow> string \<Rightarrow> nat \<times> nat" where
  "parse_hex_digits max_digits digits v [] = (v, digits)"
| "parse_hex_digits max_digits digits v (c # cs) =
     (if digits < max_digits then
        (case hex_nibble c of
           None \<Rightarrow> (v, digits)
         | Some nibble \<Rightarrow>
             parse_hex_digits max_digits (Suc digits) ((v * 16 + nibble) mod 2 ^ 32) cs)
      else (v, digits))"

definition parse_hex_token :: "string \<Rightarrow> nat \<Rightarrow> nat option" where
  "parse_hex_token s max_digits =
     (let (v, digits) = parse_hex_digits max_digits 0 0 s
      in if digits = 0 then None else Some v)"

definition parse_modalias_device_id :: "string \<Rightarrow> device_id option" where
  "parse_modalias_device_id line =
     (case snd (split_first (CHR ''v'') line) of
        None \<Rightarrow> None
      | Some after_v \<Rightarrow>
          (case snd (split_first (CHR ''p'') after_v) of
             None \<Rightarrow> None
           | Some after_p \<Rightarrow>
               (let usb_modalias = contains_text ''usb:'' line;
                    digits = (if usb_modalias then 4 else 8)
                in case (parse_hex_token after_v digits, parse_hex_token after_p digits) of
                     (Some v, Some p) \<Rightarrow>
                       Some \<lparr>vendor = of_nat v AND 0xffff, product = of_nat p AND 0xffff\<rparr>
                   | _ \<Rightarrow> None)))"

definition VDS_SONY_VENDOR_ID :: u16 where "VDS_SONY_VENDOR_ID = 0x054c"
definition VDS_DS5_PRODUCT_ID :: u16 where "VDS_DS5_PRODUCT_ID = 0x0ce6"
definition VDS_DSE_PRODUCT_ID :: u16 where "VDS_DSE_PRODUCT_ID = 0x0df2"

definition controller_profile_from_device_id :: "device_id \<Rightarrow> controller_profile option" where
  "controller_profile_from_device_id d =
     (if vendor d \<noteq> VDS_SONY_VENDOR_ID then None
      else if product d = VDS_DS5_PRODUCT_ID then Some Ds5
      else if product d = VDS_DSE_PRODUCT_ID then Some Dse
      else None)"

definition controller_profile_from_modalias :: "string \<Rightarrow> controller_profile option" where
  "controller_profile_from_modalias modalias =
     (case parse_modalias_device_id modalias of
        None \<Rightarrow> None
      | Some d \<Rightarrow> controller_profile_from_device_id d)"

section \<open>The log line: vds_log.cc\<close>

datatype log_level = Debug | Info | Warn | Error

datatype log_scope =
  Bluetooth | Config_scope | Control | Daemon | Hid | InputAudio | InputControl | Output | Port | Usb

fun log_level_name :: "log_level \<Rightarrow> string" where
  "log_level_name Debug = ''DEBUG''"
| "log_level_name Info = ''INFO''"
| "log_level_name Warn = ''WARN''"
| "log_level_name Error = ''ERROR''"

fun log_scope_name :: "log_scope \<Rightarrow> string" where
  "log_scope_name Bluetooth = ''bluetooth''"
| "log_scope_name Config_scope = ''config''"
| "log_scope_name Control = ''control''"
| "log_scope_name Daemon = ''daemon''"
| "log_scope_name Hid = ''hid''"
| "log_scope_name InputAudio = ''input-audio''"
| "log_scope_name InputControl = ''input-control''"
| "log_scope_name Output = ''output''"
| "log_scope_name Port = ''port''"
| "log_scope_name Usb = ''usb''"

definition write_log_message :: "string \<Rightarrow> string" where
  "write_log_message msg =
     map (\<lambda>c. if c = CHR 0x0A \<or> c = CHR 0x0D \<or> c = CHR ''|'' then CHR '' '' else c) msg"

text \<open>
  \<open>Logger::log\<close> appends this to the file. The timestamp comes from the clock and is a parameter.
\<close>

definition log_line :: "string \<Rightarrow> log_scope \<Rightarrow> log_level \<Rightarrow> string \<Rightarrow> string" where
  "log_line timestamp scope level msg =
     timestamp @ ''|'' @ log_scope_name scope @ ''|'' @ log_level_name level @ ''|''
       @ write_log_message msg @ [CHR 0x0A]"

section \<open>Lemmas\<close>

lemma nibble_less [simp]: "unat ((w :: 'a :: len word) AND 15) < 16" if "LENGTH('a) \<ge> 4"
proof -
  have "w AND 15 \<le> 15" by (rule word_and_le1)
  then have "unat (w AND 15) \<le> unat (15 :: 'a word)" by (simp add: word_le_nat_alt)
  also have "\<dots> \<le> 15" by (metis unat_of_nat mod_less_eq_dividend of_nat_numeral)
  finally show ?thesis by simp
qed

lemma hex_nibble_kHexDigits: "n < 16 \<Longrightarrow> hex_nibble (kHexDigits ! n) = Some n"
proof -
  assume "n < 16"
  moreover have "\<forall>n\<in>set [0..<16]. hex_nibble (kHexDigits ! n) = Some n" by code_simp
  ultimately show ?thesis by simp
qed

lemma hex_nibble_None_if: "\<not> isxdigit c \<Longrightarrow> hex_nibble c = None"
  by (auto simp: hex_nibble_def isxdigit_def isdigit_def Let_def)

text \<open>
  No byte of a message can end a log line early or forge a column: the fields of the line are
  fixed by the three separators the logger writes itself.
\<close>

lemma write_log_message_safe:
  "CHR ''|'' \<notin> set (write_log_message m)" "CHR 0x0A \<notin> set (write_log_message m)"
  "CHR 0x0D \<notin> set (write_log_message m)"
  by (auto simp: write_log_message_def)

lemma log_names_safe:
  "CHR ''|'' \<notin> set (log_scope_name s)" "CHR 0x0A \<notin> set (log_scope_name s)"
  "CHR ''|'' \<notin> set (log_level_name l)" "CHR 0x0A \<notin> set (log_level_name l)"
  by (cases s; simp)+ (cases l; simp)+

text \<open>The four digits of a 16-bit value, as \<open>hex_u16\<close> writes them after \<open>0x\<close>.\<close>

definition hex4 :: "u16 \<Rightarrow> string" where
  "hex4 v = drop 2 (hex_u16 v)"

lemma hex4_eq:
  "hex4 v = [kHexDigits ! unat (drop_bit 12 v AND 15), kHexDigits ! unat (drop_bit 8 v AND 15),
             kHexDigits ! unat (drop_bit 4 v AND 15), kHexDigits ! unat (v AND 15)]"
  by (simp add: hex4_def hex_u16_def eval_nat_numeral)

lemma unat_nibble: "unat (drop_bit k v AND 15 :: u16) = unat v div 2 ^ k mod 16"
proof -
  have "(15 :: u16) = mask 4" by (simp add: mask_eq_exp_minus_1)
  then have "unat (drop_bit k v AND 15 :: u16) = unat (take_bit 4 (drop_bit k v))"
    by (simp add: take_bit_eq_mask)
  also have "\<dots> = take_bit 4 (drop_bit k (unat v))"
    by (simp only: unsigned_take_bit_eq unat_drop_bit_eq)
  also have "\<dots> = unat v div 2 ^ k mod 2 ^ 4"
    by (simp only: drop_bit_eq_div take_bit_eq_mod)
  finally show ?thesis by simp
qed

lemma nibbles_value:
  fixes n :: nat
  assumes "n < 65536"
  shows "((n div 4096 mod 16 * 16 + n div 256 mod 16) * 16 + n div 16 mod 16) * 16 + n mod 16 = n"
proof -
  define a b c where "a = n div 16" and "b = a div 16" and "c = b div 16"
  have ab: "n div 256 = b" "n div 4096 = c" by (simp_all add: a_def b_def c_def flip: div_mult2_eq)
  have "c mod 16 = c" using assms by (simp add: a_def b_def c_def flip: div_mult2_eq)
  then show ?thesis
    unfolding ab using div_mult_mod_eq [of n 16] div_mult_mod_eq [of a 16] div_mult_mod_eq [of b 16]
    by (simp add: a_def b_def c_def)
qed

lemma parse_hex_token_hex4:
  "parse_hex_token (hex4 v @ rest) 4 = Some (unat v)"
proof -
  have n: "unat (drop_bit 12 v AND 15) = unat v div 4096 mod 16"
    "unat (drop_bit 8 v AND 15) = unat v div 256 mod 16"
    "unat (drop_bit 4 v AND 15) = unat v div 16 mod 16" "unat (v AND 15) = unat v mod 16"
    using unat_nibble [of 12 v] unat_nibble [of 8 v] unat_nibble [of 4 v] unat_nibble [of 0 v]
    by simp_all
  have "unat v < 65536" using unsigned_less [of v, where ?'a = nat] by simp
  then have "parse_hex_digits 4 0 0 (hex4 v @ rest) = (unat v, 4)"
    using nibbles_value [of "unat v"]
    by (cases rest) (simp_all add: hex4_eq n hex_nibble_kHexDigits)
  then show ?thesis by (simp add: parse_hex_token_def)
qed

lemma kHexDigits_not_marker:
  "n < 16 \<Longrightarrow> kHexDigits ! n \<noteq> CHR ''v'' \<and> kHexDigits ! n \<noteq> CHR ''p''"
proof -
  assume "n < 16"
  moreover have "\<forall>n\<in>set [0..<16]. kHexDigits ! n \<noteq> CHR ''v'' \<and> kHexDigits ! n \<noteq> CHR ''p''" by code_simp
  ultimately show ?thesis by simp
qed

lemma hex4_not_marker: "CHR ''p'' \<notin> set (hex4 v)"
  by (simp add: hex4_eq kHexDigits_not_marker not_sym)

text \<open>The fields a Linux \<open>usb:\<close> modalias carries are the ones the identification reads.\<close>

lemma parse_usb_modalias:
  "parse_modalias_device_id (''usb:v'' @ hex4 v @ ''p'' @ hex4 p @ rest) =
     Some \<lparr>vendor = v, product = p\<rparr>"
proof -
  have m1: "(0xffff :: u16) = -1" by simp
  have full: "w AND 0xffff = w" for w :: u16 unfolding m1 by (rule and.right_neutral)
  show ?thesis
    by (simp add: parse_modalias_device_id_def split_first_Some hex4_not_marker
        parse_hex_token_hex4 full)
qed

section \<open>Properties\<close>

text \<open>
  A log line always has exactly the columns the logger wrote: whatever bytes the message
  holds, the line has three separators and one line end more than the timestamp, so no message
  can forge a column or a second record.
\<close>

theorem log_line_columns:
  "count_list (log_line ts scope level msg) (CHR ''|'') = 3 + count_list ts (CHR ''|'')
   \<and> count_list (log_line ts scope level msg) (CHR 0x0A) = 1 + count_list ts (CHR 0x0A)"
  using write_log_message_safe [of msg] log_names_safe
  by (simp add: log_line_def count_list_0_iff [THEN iffD2])

text \<open>
  Identification of a controller from a \<open>usb:\<close> modalias: for every vendor and product id,
  the profile is exactly the one of Sony's two products, and anything else is refused, whatever
  follows the ids in the modalias.
\<close>

theorem usb_modalias_profile:
  "controller_profile_from_modalias (''usb:v'' @ hex4 v @ ''p'' @ hex4 p @ rest) =
     (if v = 0x054c \<and> p = 0x0ce6 then Some Ds5
      else if v = 0x054c \<and> p = 0x0df2 then Some Dse
      else None)"
  unfolding controller_profile_from_modalias_def parse_usb_modalias
  by (simp add: controller_profile_from_device_id_def VDS_SONY_VENDOR_ID_def
      VDS_DS5_PRODUCT_ID_def VDS_DSE_PRODUCT_ID_def)

end
