(* ===== verification/Store.thy ===== *)
theory Store
  imports Prelude
begin

text \<open>
  The contract several components share: a list of entries that is used as a map, one entry per
  key. The registered controllers (\<open>upsert_controller_config\<close>, \<open>remove_controller_config\<close>), and
  the worker backoffs (\<open>record_vdsd_worker_failure\<close>) keep their entries this way.
\<close>

section \<open>The interface\<close>

locale keyed_store =
  fixes key :: "'v \<Rightarrow> 'k"
    and look :: "'s \<Rightarrow> 'k \<Rightarrow> 'v option"
    and upd :: "'v \<Rightarrow> 's \<Rightarrow> 's"
    and del :: "'k \<Rightarrow> 's \<Rightarrow> 's"
    and inv :: "'s \<Rightarrow> bool"
  assumes look_upd: "inv s \<Longrightarrow> look (upd v s) k = (if k = key v then Some v else look s k)"
    and look_del: "inv s \<Longrightarrow> look (del k s) k' = (if k' = k then None else look s k')"
    and inv_upd: "inv s \<Longrightarrow> inv (upd v s)"
    and inv_del: "inv s \<Longrightarrow> inv (del k s)"
begin

lemma look_upd_same: "inv s \<Longrightarrow> look (upd v s) (key v) = Some v"
  by (simp add: look_upd)

lemma look_upd_other: "inv s \<Longrightarrow> k \<noteq> key v \<Longrightarrow> look (upd v s) k = look s k"
  by (simp add: look_upd)

lemma look_del_same: "inv s \<Longrightarrow> look (del k s) k = None"
  by (simp add: look_del)

lemma del_after_upd: "inv s \<Longrightarrow> look (del (key v) (upd v s)) k = look (del (key v) s) k"
  by (simp add: look_del look_upd inv_upd)

lemma upd_commute:
  "inv s \<Longrightarrow> key v \<noteq> key w \<Longrightarrow> look (upd v (upd w s)) k = look (upd w (upd v s)) k"
  by (simp add: look_upd inv_upd)

lemma inv_fold_upd: "inv s \<Longrightarrow> inv (fold upd vs s)"
  by (induction vs arbitrary: s) (simp_all add: inv_upd)

text \<open>A run of insertions: the last entry of a key wins.\<close>

lemma look_fold_upd:
  "inv s \<Longrightarrow> look (fold upd vs s) k =
    (case filter (\<lambda>v. key v = k) (rev vs) of [] \<Rightarrow> look s k | v # _ \<Rightarrow> Some v)"
  by (induction vs rule: rev_induct) (auto simp: look_upd inv_fold_upd)

end

section \<open>The list loops\<close>

text \<open>The first entry with the key, as \<open>find_if\<close> returns it.\<close>

fun find_entry :: "('v \<Rightarrow> 'k) \<Rightarrow> 'v list \<Rightarrow> 'k \<Rightarrow> 'v option" where
  "find_entry key [] k = None"
| "find_entry key (x # xs) k = (if key x = k then Some x else find_entry key xs k)"

text \<open>Overwrite the first entry with the key of \<open>v\<close>, or append \<open>v\<close> when there is none.\<close>

fun replace_or_append :: "('v \<Rightarrow> 'k) \<Rightarrow> 'v \<Rightarrow> 'v list \<Rightarrow> 'v list" where
  "replace_or_append key v [] = [v]"
| "replace_or_append key v (x # xs) =
     (if key x = key v then v # xs else x # replace_or_append key v xs)"

definition distinct_keys :: "('v \<Rightarrow> 'k) \<Rightarrow> 'v list \<Rightarrow> bool" where
  "distinct_keys key xs \<longleftrightarrow> distinct (map key xs)"

lemma find_entry_Some:
  "find_entry key xs k = Some x \<Longrightarrow> x \<in> set xs \<and> key x = k"
  by (induction xs) (auto split: if_splits)

lemma find_entry_None_iff: "find_entry key xs k = None \<longleftrightarrow> k \<notin> key ` set xs"
  by (induction xs) auto

lemma find_entry_replace:
  "find_entry key (replace_or_append key v xs) k = (if k = key v then Some v else find_entry key xs k)"
  by (induction xs) auto

lemma set_replace_or_append:
  "set (replace_or_append key v xs) \<subseteq> insert v (set xs)"
  by (induction xs) auto

lemma keys_replace_or_append:
  "key ` set (replace_or_append key v xs) = insert (key v) (key ` set xs)"
  by (induction xs) auto

lemma distinct_replace_or_append:
  "distinct_keys key xs \<Longrightarrow> distinct_keys key (replace_or_append key v xs)"
proof (induction xs)
  case (Cons x xs)
  have "key x \<notin> key ` set (replace_or_append key v xs)" if "key x \<noteq> key v"
    using that Cons.prems by (auto simp: keys_replace_or_append distinct_keys_def)
  with Cons show ?case by (auto simp: distinct_keys_def)
qed (simp add: distinct_keys_def)

lemma find_entry_filter:
  "find_entry key (filter (\<lambda>x. key x \<noteq> k) xs) k' = (if k' = k then None else find_entry key xs k')"
  by (induction xs) auto

lemma distinct_keys_filter: "distinct_keys key xs \<Longrightarrow> distinct_keys key (filter P xs)"
  by (induction xs) (auto simp: distinct_keys_def)

lemma distinct_keys_find:
  "distinct_keys key xs \<Longrightarrow> x \<in> set xs \<Longrightarrow> find_entry key xs (key x) = Some x"
  by (induction xs) (auto simp: distinct_keys_def)

lemma distinct_keys_snoc:
  "distinct_keys key (xs @ [x]) \<longleftrightarrow> distinct_keys key xs \<and> find_entry key xs (key x) = None"
  by (auto simp: distinct_keys_def find_entry_None_iff)

end
