(* ===== verification/Fs.thy ===== *)
theory Fs
  imports Prelude
begin

text \<open>
  \<open>src/src/platform/linux/vds_fs.cc\<close>: the file operations behind the configuration database.
  The state is what the file system holds, one content per path. What the operating system
  answers to each call is an argument: \<open>None\<close> for success, \<open>Some\<close> of the error text (the
  \<open>strerror\<close>) for a failure, and for \<open>write\<close> one outcome per call.
\<close>

type_synonym files = "string \<Rightarrow> string option"

datatype write_outcome = Written nat | Interrupted | Write_failed string

record os =
  os_mkdir :: "string option"
  os_lock_open :: "string option"
  os_flock :: "string option"
  os_chmod :: "string option"
  os_stat :: "string option"
  os_open_read :: "string option"
  os_open_tmp :: "string option"
  os_fchmod :: "string option"
  os_writes :: "write_outcome list"
  os_fsync_tmp :: "string option"
  os_rename :: "string option"
  os_open_dir :: "string option"
  os_fsync_dir :: "string option"

text \<open>Every call succeeds.\<close>

definition os_ok :: os where
  "os_ok = \<lparr>os_mkdir = None, os_lock_open = None, os_flock = None, os_chmod = None, os_stat = None,
     os_open_read = None, os_open_tmp = None, os_fchmod = None, os_writes = [], os_fsync_tmp = None,
     os_rename = None, os_open_dir = None, os_fsync_dir = None\<rparr>"

definition throw_if :: "string option \<Rightarrow> string \<Rightarrow> unit result" where
  "throw_if err prefix_text =
     (case err of None \<Rightarrow> Inr () | Some e \<Rightarrow> Inl (Runtime_error (prefix_text @ e)))"

lemma throw_if_simps [simp]:
  "throw_if None p = Inr ()" "throw_if (Some e) p = Inl (Runtime_error (p @ e))"
  by (simp_all add: throw_if_def)

section \<open>Paths\<close>

definition parent_path :: "string \<Rightarrow> string" where
  "parent_path p =
     (let after = dropWhile (\<lambda>c. c \<noteq> CHR ''/'') (rev p);
          stripped = dropWhile (\<lambda>c. c = CHR ''/'') after
      in if after = [] then [] else if stripped = [] then ''/'' else rev stripped)"

definition db_directory :: "string \<Rightarrow> string" where
  "db_directory p = (if parent_path p = [] then ''.'' else parent_path p)"

definition tmp_path :: "string \<Rightarrow> string" where
  "tmp_path p = p @ ''.tmp''"

lemma tmp_path_neq [simp]: "tmp_path p \<noteq> p" "p \<noteq> tmp_path p"
  by (simp_all add: tmp_path_def)

section \<open>Locking and reading\<close>

definition ensure_parent_directory :: "os \<Rightarrow> string \<Rightarrow> unit result" where
  "ensure_parent_directory os p =
     (if parent_path p \<noteq> [] then throw_if (os_mkdir os) [] else Inr ())"

definition lock_file :: "os \<Rightarrow> string \<Rightarrow> unit result" where
  "lock_file os p =
     bind_result (throw_if (os_lock_open os) (''failed to open DB directory '' @ db_directory p @ '': '')) (\<lambda>_.
     bind_result (throw_if (os_flock os) (''failed to lock DB directory '' @ db_directory p @ '': '')) (\<lambda>_.
       throw_if (os_chmod os) (''failed to chmod '' @ p @ '': '')))"

definition read_file_if_exists :: "os \<Rightarrow> string \<Rightarrow> files \<Rightarrow> string result" where
  "read_file_if_exists os p fs =
     (case os_stat os of
        Some e \<Rightarrow> Inl (Runtime_error (''failed to stat '' @ p @ '': '' @ e))
      | None \<Rightarrow>
          (case fs p of
             None \<Rightarrow> Inr []
           | Some content \<Rightarrow>
               (case os_open_read os of
                  Some e \<Rightarrow> Inl (Runtime_error (''failed to open '' @ p))
                | None \<Rightarrow> Inr content)))"

section \<open>Writing: a temporary file, then a rename\<close>

text \<open>
  Each call that changes the file system adds the state it leaves to a trace, newest first: a
  crash of the machine between two calls leaves one of these states. The trace is what the
  atomicity of the write is about.
\<close>

fun write_loop :: "write_outcome list \<Rightarrow> string \<Rightarrow> string \<Rightarrow> files \<Rightarrow> files list \<Rightarrow>
    files \<times> files list \<times> unit result" where
  "write_loop outcomes tmp [] fs trace = (fs, trace, Inr ())"
| "write_loop [] tmp (c # data) fs trace =
     (let fs' = fs(tmp \<mapsto> the (fs tmp) @ (c # data)) in (fs', fs' # trace, Inr ()))"
| "write_loop (out # outcomes) tmp (c # data) fs trace =
     (case out of
        Interrupted \<Rightarrow> write_loop outcomes tmp (c # data) fs trace
      | Write_failed e \<Rightarrow> (fs, trace, Inl (Runtime_error (''failed to write '' @ tmp @ '': '' @ e)))
      | Written n \<Rightarrow>
          if n = 0 then (fs, trace, Inl (Runtime_error (''write returned zero for '' @ tmp)))
          else (let fs' = fs(tmp \<mapsto> the (fs tmp) @ take n (c # data))
                in write_loop outcomes tmp (drop n (c # data)) fs' (fs' # trace)))"

text \<open>The calls after the temporary file is closed: rename, then the directory's fsync.\<close>

definition commit_file :: "os \<Rightarrow> string \<Rightarrow> files \<Rightarrow> files list \<Rightarrow> files \<times> files list \<times> unit result" where
  "commit_file os p fs trace =
     (case os_rename os of
        Some e \<Rightarrow> (fs, trace, Inl (Runtime_error
          (''failed to rename '' @ tmp_path p @ '' to '' @ p @ '': '' @ e)))
      | None \<Rightarrow>
          (let fs' = (fs(p := fs (tmp_path p)))(tmp_path p := None)
           in (fs', fs' # trace,
               bind_result (throw_if (os_open_dir os) ''failed to open DB directory for fsync: '') (\<lambda>_.
                 throw_if (os_fsync_dir os) ''failed to fsync DB directory: ''))))"

definition write_file_atomic :: "os \<Rightarrow> string \<Rightarrow> string \<Rightarrow> files \<Rightarrow> files \<times> files list \<times> unit result" where
  "write_file_atomic os p data fs =
     (case os_open_tmp os of
        Some e \<Rightarrow> (fs, [fs], Inl (Runtime_error (''failed to open '' @ tmp_path p @ '': '' @ e)))
      | None \<Rightarrow>
          (let fs1 = fs(tmp_path p \<mapsto> []); trace1 = [fs1, fs] in
           (case os_fchmod os of
              Some e \<Rightarrow> (fs1, trace1, Inl (Runtime_error (''failed to chmod '' @ tmp_path p @ '': '' @ e)))
            | None \<Rightarrow>
                (case write_loop (os_writes os) (tmp_path p) data fs1 trace1 of
                   (fs2, trace2, Inl e) \<Rightarrow> (fs2, trace2, Inl e)
                 | (fs2, trace2, Inr _) \<Rightarrow>
                     (case os_fsync_tmp os of
                        Some e \<Rightarrow> (fs2, trace2, Inl (Runtime_error
                          (''failed to fsync '' @ tmp_path p @ '': '' @ e)))
                      | None \<Rightarrow> commit_file os p fs2 trace2)))))"

section \<open>Atomicity\<close>

text \<open>The write loop touches the temporary file only, and a success leaves all the data in it.\<close>

lemma write_loop_frame:
  assumes "write_loop outcomes tmp data fs trace = (fs', trace', r)"
    and "\<forall>f\<in>set trace. \<forall>q. q \<noteq> tmp \<longrightarrow> f q = g q" and "\<forall>q. q \<noteq> tmp \<longrightarrow> fs q = g q"
  shows "(\<forall>f\<in>set trace'. \<forall>q. q \<noteq> tmp \<longrightarrow> f q = g q) \<and> (\<forall>q. q \<noteq> tmp \<longrightarrow> fs' q = g q)"
  using assms
proof (induction outcomes tmp data fs trace rule: write_loop.induct)
  case (1 outcomes tmp fs trace)
  then have "fs' = fs" "trace' = trace" by simp_all
  with 1(2,3) show ?case by simp
next
  case (2 tmp c data fs trace)
  from 2(1) have "fs' = fs(tmp \<mapsto> the (fs tmp) @ (c # data))" "trace' = fs' # trace"
    by (auto simp: Let_def)
  with 2(2,3) show ?case by simp
next
  case (3 out outcomes tmp c data fs trace)
  show ?case
  proof (cases out)
    case (Written n)
    show ?thesis
    proof (cases "n = 0")
      case True
      with Written "3.prems"(1) have "fs' = fs" "trace' = trace" by simp_all
      with "3.prems"(2,3) show ?thesis by simp
    next
      case False
      let ?fs = "fs(tmp \<mapsto> the (fs tmp) @ take n (c # data))"
      from False Written "3.prems"(1)
      have run: "write_loop outcomes tmp (drop n (c # data)) ?fs (?fs # trace) = (fs', trace', r)"
        by (simp add: Let_def)
      have "\<forall>f\<in>set (?fs # trace). \<forall>q. q \<noteq> tmp \<longrightarrow> f q = g q" and "\<forall>q. q \<noteq> tmp \<longrightarrow> ?fs q = g q"
        using "3.prems"(2,3) by simp_all
      from "3.IH"(1) [OF Written False refl run this] show ?thesis .
    qed
  next
    case Interrupted
    with "3.prems"(1) have "write_loop outcomes tmp (c # data) fs trace = (fs', trace', r)" by simp
    from "3.IH"(2) [OF Interrupted this "3.prems"(2,3)] show ?thesis .
  next
    case (Write_failed e)
    with "3.prems"(1) have "fs' = fs" "trace' = trace" by simp_all
    with "3.prems"(2,3) show ?thesis by simp
  qed
qed

lemma write_loop_content:
  assumes "write_loop outcomes tmp data fs trace = (fs', trace', Inr u)" and "fs tmp = Some done_part"
  shows "fs' tmp = Some (done_part @ data)"
  using assms
proof (induction outcomes tmp data fs trace arbitrary: done_part rule: write_loop.induct)
  case (3 out outcomes tmp c data fs trace)
  show ?case
  proof (cases out)
    case (Written n)
    show ?thesis
    proof (cases "n = 0")
      case True
      with Written "3.prems" show ?thesis by simp
    next
      case False
      let ?fs = "fs(tmp \<mapsto> the (fs tmp) @ take n (c # data))"
      from False Written "3.prems"(1)
      have "write_loop outcomes tmp (drop n (c # data)) ?fs (?fs # trace) = (fs', trace', Inr u)"
        by (simp add: Let_def)
      moreover have "?fs tmp = Some (done_part @ take n (c # data))" using "3.prems"(2) by simp
      ultimately have "fs' tmp = Some ((done_part @ take n (c # data)) @ drop n (c # data))"
        using "3.IH"(1) [OF Written False refl] by blast
      then show ?thesis by simp
    qed
  qed (use 3 in auto)
qed (auto simp: Let_def)

lemma commit_file_states:
  assumes "commit_file os p fs trace = (fs', trace', r)"
  shows "set trace' \<subseteq> insert fs' (set trace)"
    and "fs' = fs \<or> fs' = (fs(p := fs (tmp_path p)))(tmp_path p := None)"
    and "r = Inr u \<Longrightarrow> fs' p = fs (tmp_path p)"
  using assms by (auto simp: commit_file_def Let_def split: option.splits)

lemma write_file_atomic_states:
  assumes run: "write_file_atomic os p data fs = (fs', trace, r)"
  shows "(\<forall>f\<in>set trace. f p = fs p \<or> f p = Some data)
    \<and> (fs' p = fs p \<or> fs' p = Some data)
    \<and> (\<forall>q. q \<noteq> p \<and> q \<noteq> tmp_path p \<longrightarrow> fs' q = fs q)
    \<and> (r = Inr () \<longrightarrow> fs' p = Some data \<and> fs' (tmp_path p) = None)"
proof -
  let ?tmp = "tmp_path p"
  let ?fs1 = "fs(?tmp \<mapsto> [])"
  consider (early) "fs' = fs \<or> fs' = ?fs1" "set trace \<subseteq> {fs, ?fs1}" "r \<noteq> Inr ()"
    | (loop) fs2 trace2 e where
        "write_loop (os_writes os) ?tmp data ?fs1 [?fs1, fs] = (fs2, trace2, e)"
        "e = Inr () \<and> (r \<noteq> Inr () \<and> fs' = fs2 \<and> trace = trace2
           \<or> commit_file os p fs2 trace2 = (fs', trace, r))
         \<or> e \<noteq> Inr () \<and> r \<noteq> Inr () \<and> fs' = fs2 \<and> trace = trace2"
    using run unfolding write_file_atomic_def Let_def
    by (auto split: option.splits prod.splits sum.splits)
  then show ?thesis
  proof cases
    case early
    then show ?thesis by auto
  next
    case loop
    have fr: "\<forall>f\<in>set trace2. \<forall>q. q \<noteq> ?tmp \<longrightarrow> f q = fs q" "\<forall>q. q \<noteq> ?tmp \<longrightarrow> fs2 q = fs q"
      using write_loop_frame [OF loop(1), of fs] by auto
    have content: "e = Inr () \<Longrightarrow> fs2 ?tmp = Some data"
      using write_loop_content [of _ _ _ _ _ fs2 trace2 "()" "[]"] loop(1) by fastforce
    from loop(2) show ?thesis
    proof (elim disjE conjE)
      assume e: "e = Inr ()" and c: "commit_file os p fs2 trace2 = (fs', trace, r)"
      have "set trace \<subseteq> insert fs' (set trace2)" by (rule commit_file_states(1) [OF c])
      moreover have *: "fs' = fs2 \<or> fs' = (fs2(p := Some data))(?tmp := None)"
        using commit_file_states(2) [OF c] content [OF e] by simp
      moreover have "r = Inr () \<Longrightarrow> fs' p = Some data \<and> fs' ?tmp = None"
        using c content [OF e] by (auto simp: commit_file_def Let_def split: option.splits)
      ultimately show ?thesis using fr by auto
    qed (use fr in auto)
  qed
qed

section \<open>Properties\<close>



end
