(* ===== verification/Config.thy ===== *)
theory Config
  imports Jsonl Common Store Fs
begin

text \<open>
  \<open>src/src/vds_config.cc\<close>: Bluetooth addresses, port lists, port paths, port selection, and the
  database of registered controllers with its text form (one JSON object per line), its file,
  its update and the check of its assignments. \<open>#ifdef _WIN32\<close> is the argument \<open>platform\<close>.
\<close>

datatype platform = Linux | Windows

record controller_config =
  cc_address :: string
  cc_profile :: controller_profile
  cc_ports :: "nat list"

record controller_target =
  ct_address :: string
  ct_name :: string
  ct_profile :: controller_profile
  ct_online :: bool
  ct_usb :: bool

record config_db =
  controllers :: "controller_config list"

definition kMaxPortCount :: nat where
  "kMaxPortCount = 4"

section \<open>Addresses\<close>

definition invalid_address :: "string \<Rightarrow> exn" where
  "invalid_address address = Runtime_error (''invalid Bluetooth address: '' @ address)"

definition is_separator_index :: "nat \<Rightarrow> bool" where
  "is_separator_index i \<longleftrightarrow> i = 2 \<or> i = 5 \<or> i = 8 \<or> i = 11 \<or> i = 14"

fun normalize_loop :: "string \<Rightarrow> nat \<Rightarrow> string \<Rightarrow> string \<Rightarrow> string result" where
  "normalize_loop address i [] normalized = Inr normalized"
| "normalize_loop address i (c # cs) normalized =
     (if is_separator_index i then
        (if c \<noteq> CHR '':'' then Inl (invalid_address address)
         else normalize_loop address (Suc i) cs (normalized @ [CHR '':'']))
      else if \<not> isxdigit c then Inl (invalid_address address)
      else normalize_loop address (Suc i) cs (normalized @ [tolower c]))"

definition normalize_bluetooth_address :: "string \<Rightarrow> string result" where
  "normalize_bluetooth_address address =
     (if length address \<noteq> 17 then Inl (invalid_address address)
      else normalize_loop address 0 address [])"

section \<open>Profiles\<close>

definition parse_controller_profile :: "string \<Rightarrow> controller_profile result" where
  "parse_controller_profile p =
     (if p = [] then Inr Unspecified
      else if p = ''ds5'' then Inr Ds5
      else if p = ''dse'' then Inr Dse
      else Inl (Runtime_error (''unknown profile: '' @ p)))"

fun controller_profile_name :: "controller_profile \<Rightarrow> string" where
  "controller_profile_name Unspecified = []"
| "controller_profile_name Ds5 = ''ds5''"
| "controller_profile_name Dse = ''dse''"

section \<open>Port lists\<close>

function split_commas_from :: "string list \<Rightarrow> string \<Rightarrow> string list result" where
  "split_commas_from parts s =
     (case split_first (CHR '','') s of
        (part, after) \<Rightarrow>
          if part = [] then Inl (Runtime_error ''empty port in ports list'')
          else (case after of
                  None \<Rightarrow> Inr (parts @ [part])
                | Some rest \<Rightarrow> split_commas_from (parts @ [part]) rest))"
  by pat_completeness auto
termination
  by (relation "measure (\<lambda>(parts, s). length s)") (auto dest: split_first_length [OF sym])

declare split_commas_from.simps [simp del]

definition split_commas :: "string \<Rightarrow> string list result" where
  "split_commas s = split_commas_from [] s"

text \<open>The first of two equal neighbours, as \<open>std::adjacent_find\<close> finds it.\<close>

fun adjacent_find :: "nat list \<Rightarrow> nat option" where
  "adjacent_find (x # y # xs) = (if x = y then Some x else adjacent_find (y # xs))"
| "adjacent_find _ = None"

fun check_port_range :: "nat list \<Rightarrow> unit result" where
  "check_port_range [] = Inr ()"
| "check_port_range (p # ps) =
     (if p \<ge> kMaxPortCount then
        Inl (Runtime_error (''port must be in range 0..'' @ to_string (kMaxPortCount - 1) @ '': '' @ to_string p))
      else check_port_range ps)"

text \<open>The vector is sorted in place: the result is what it holds afterwards.\<close>

definition validate_ports :: "nat list \<Rightarrow> nat list result" where
  "validate_ports ports =
     (let sorted_ports = sort ports in
      case adjacent_find sorted_ports of
        Some duplicate \<Rightarrow> Inl (Runtime_error (''duplicate port: '' @ to_string duplicate))
      | None \<Rightarrow> bind_result (check_port_range sorted_ports) (\<lambda>_. Inr sorted_ports))"

fun parse_port_parts :: "string list \<Rightarrow> nat list result" where
  "parse_port_parts [] = Inr []"
| "parse_port_parts (part # parts) =
     (if \<not> is_decimal_number part then
        Inl (Runtime_error (''port must be a number: '' @ part))
      else bind_result (accumulate_digits (Runtime_error (''port number overflow: '' @ part)) 0 part)
        (\<lambda>v. bind_result (parse_port_parts parts) (\<lambda>vs. Inr (v # vs))))"

definition parse_ports :: "string \<Rightarrow> nat list result" where
  "parse_ports s =
     (if s = [] then Inr []
      else bind_result (split_commas s) (\<lambda>parts.
        bind_result (parse_port_parts parts) validate_ports))"

definition format_ports :: "nat list \<Rightarrow> string" where
  "format_ports ports = join_unsigned ports"

section \<open>Port paths\<close>

fun port_prefix :: "platform \<Rightarrow> string" where
  "port_prefix Linux = ''/dev/vds''"
| "port_prefix Windows = [backslash, backslash, CHR ''.'', backslash] @ ''vds''"

definition port_path_for_index :: "platform \<Rightarrow> nat \<Rightarrow> string result" where
  "port_path_for_index platform port =
     (if port \<ge> kMaxPortCount then
        Inl (Runtime_error (''port must be in range 0..'' @ to_string (kMaxPortCount - 1) @ '': '' @ to_string port))
      else Inr (port_prefix platform @ to_string port))"

definition usbip_prefix :: string where
  "usbip_prefix = ''usbip://127.0.0.1:3240/1-''"

definition nt_prefix :: string where
  "nt_prefix = [backslash, backslash, CHR ''?'', backslash] @ ''vds''"

text \<open>The text of the port number and whether it is a USB/IP bus id; None for a foreign path.\<close>

fun port_text_of_path :: "platform \<Rightarrow> string \<Rightarrow> (string \<times> bool) option" where
  "port_text_of_path Windows path =
     (if prefix usbip_prefix path then Some (drop (length usbip_prefix) path, True)
      else if prefix (port_prefix Windows) path then Some (drop (length (port_prefix Windows)) path, False)
      else if prefix nt_prefix path then Some (drop (length nt_prefix) path, False)
      else if prefix ''vds'' path then Some (drop 3 path, False)
      else None)"
| "port_text_of_path Linux path =
     (if \<not> prefix (port_prefix Linux) path then None
      else Some (drop (length (port_prefix Linux)) path, False))"

fun port_value_loop :: "nat \<Rightarrow> nat \<Rightarrow> string \<Rightarrow> nat option" where
  "port_value_loop maximum v [] = Some v"
| "port_value_loop maximum v (c # cs) =
     (let v' = v * 10 + (code_of c - 48) in
      if v' > maximum then None else port_value_loop maximum v' cs)"

definition port_index_from_path :: "platform \<Rightarrow> string \<Rightarrow> nat option" where
  "port_index_from_path platform path =
     (case port_text_of_path platform path of
        None \<Rightarrow> None
      | Some (port_text, usbip_port) \<Rightarrow>
          if \<not> is_decimal_number port_text then None
          else
            (case port_value_loop (if usbip_port then kMaxPortCount else kMaxPortCount - 1) 0 port_text of
               None \<Rightarrow> None
             | Some v \<Rightarrow> if usbip_port then (if v = 0 then None else Some (v - 1)) else Some v))"

section \<open>Which ports a controller may use\<close>

definition controller_config_allows_port :: "controller_config \<Rightarrow> nat \<Rightarrow> bool" where
  "controller_config_allows_port config port \<longleftrightarrow> cc_ports config = [] \<or> port \<in> set (cc_ports config)"

definition controller_config_allows_path :: "platform \<Rightarrow> controller_config \<Rightarrow> string \<Rightarrow> bool" where
  "controller_config_allows_path platform config path =
     (case port_index_from_path platform path of
        None \<Rightarrow> False
      | Some port \<Rightarrow> controller_config_allows_port config port)"

definition controller_config_port_targets :: "controller_config \<Rightarrow> nat list" where
  "controller_config_port_targets config =
     (if cc_ports config \<noteq> [] then cc_ports config else [0..<kMaxPortCount])"

fun select_port_loop :: "nat list \<Rightarrow> nat list \<Rightarrow> nat list \<Rightarrow> nat option" where
  "select_port_loop [] candidates occupied = None"
| "select_port_loop (p # ps) candidates occupied =
     (if p \<notin> set candidates then select_port_loop ps candidates occupied
      else if p \<in> set occupied then select_port_loop ps candidates occupied
      else Some p)"

definition select_controller_config_port ::
    "controller_config \<Rightarrow> nat list \<Rightarrow> nat list \<Rightarrow> nat option" where
  "select_controller_config_port config candidates occupied =
     select_port_loop (controller_config_port_targets config) candidates occupied"

definition controller_config_has_candidate_port :: "controller_config \<Rightarrow> nat list \<Rightarrow> bool" where
  "controller_config_has_candidate_port config candidates =
     (select_controller_config_port config candidates [] \<noteq> None)"

section \<open>The database in memory\<close>

definition find_controller_config_by_address :: "config_db \<Rightarrow> string \<Rightarrow> controller_config option" where
  "find_controller_config_by_address db address =
     (let normalized =
        (if length address = 17 then
           (case normalize_bluetooth_address address of Inl _ \<Rightarrow> address | Inr a \<Rightarrow> a)
         else address)
      in find_entry cc_address (controllers db) normalized)"

definition upsert_controller_config :: "config_db \<Rightarrow> controller_config \<Rightarrow> config_db result" where
  "upsert_controller_config db config =
     bind_result (normalize_bluetooth_address (cc_address config)) (\<lambda>a.
     bind_result (validate_ports (cc_ports config)) (\<lambda>ps.
       Inr (db\<lparr>controllers := replace_or_append cc_address
              (config\<lparr>cc_address := a, cc_ports := ps\<rparr>) (controllers db)\<rparr>)))"

definition remove_controller_config :: "config_db \<Rightarrow> string \<Rightarrow> (bool \<times> config_db) result" where
  "remove_controller_config db address =
     bind_result (normalize_bluetooth_address address) (\<lambda>normalized.
       let kept = filter (\<lambda>config. cc_address config \<noteq> normalized) (controllers db)
       in Inr (length kept \<noteq> length (controllers db), db\<lparr>controllers := kept\<rparr>))"

fun check_assignments :: "nat list \<Rightarrow> controller_config list \<Rightarrow> unit result" where
  "check_assignments available [] = Inr ()"
| "check_assignments available (config # cs) =
     (if cc_ports config = [] then check_assignments available cs
      else if find (\<lambda>port. port \<in> set available) (cc_ports config) = None then
        Inl (Runtime_error (''no allowed virtual port for '' @ cc_address config))
      else check_assignments available cs)"

definition validate_config_assignments :: "platform \<Rightarrow> config_db \<Rightarrow> string list \<Rightarrow> unit result" where
  "validate_config_assignments platform db devices =
     (if controllers db = [] then Inr ()
      else if devices = [] then Inl (Runtime_error ''virtual port provider unavailable'')
      else check_assignments (sort (List.map_filter (port_index_from_path platform) devices)) (controllers db))"

section \<open>The database as text\<close>

definition serialize_controller :: "controller_config \<Rightarrow> string" where
  "serialize_controller c =
     ''{'' @ jsonl_string_field ''address'' (cc_address c) @ '','' @
     jsonl_string_field ''profile'' (controller_profile_name (cc_profile c)) @ '','' @
     jsonl_unsigned_array_field ''ports'' (cc_ports c) @ ''}'' @ [CHR 0x0A]"

definition serialize_config_db :: "config_db \<Rightarrow> string" where
  "serialize_config_db db = concat (map serialize_controller (controllers db))"

definition line_context :: "nat \<Rightarrow> string" where
  "line_context n = ''config record at line '' @ to_string n"

definition parse_controller_line :: "string \<Rightarrow> nat \<Rightarrow> controller_config result" where
  "parse_controller_line line n =
     (let ctx = line_context n in
      bind_result (parse_jsonl_object line ctx) (\<lambda>fs.
      bind_result (reject_unknown_jsonl_fields fs [''address'', ''profile'', ''ports''] ctx) (\<lambda>_.
      bind_result (require_jsonl_string fs ''address'' ctx) (\<lambda>raw.
      bind_result (normalize_bluetooth_address raw) (\<lambda>a.
      bind_result (require_jsonl_string fs ''profile'' ctx) (\<lambda>pname.
      bind_result (parse_controller_profile pname) (\<lambda>p.
      bind_result (require_jsonl_unsigned_array fs ''ports'' ctx) (\<lambda>raw_ports.
      bind_result (validate_ports raw_ports) (\<lambda>ps.
        Inr \<lparr>cc_address = a, cc_profile = p, cc_ports = ps\<rparr>)))))))))"

text \<open>\<open>std::getline\<close> until it fails: a last line without a newline counts, an empty one does not.\<close>

function getline_all :: "string \<Rightarrow> string list" where
  "getline_all s =
     (if s = [] then []
      else (case split_first (CHR 0x0A) s of
              (line, None) \<Rightarrow> [line]
            | (line, Some rest) \<Rightarrow> line # getline_all rest))"
  by pat_completeness auto
termination
  by (relation "measure length") (auto dest: split_first_length [OF sym])

declare getline_all.simps [simp del]

definition strip_carriage_return :: "string \<Rightarrow> string" where
  "strip_carriage_return line =
     (if line \<noteq> [] \<and> last line = CHR 0x0D then butlast line else line)"

fun parse_config_lines :: "nat \<Rightarrow> config_db \<Rightarrow> string list \<Rightarrow> config_db result" where
  "parse_config_lines n db [] = Inr db"
| "parse_config_lines n db (raw # ls) =
     (let line = strip_carriage_return raw in
      if line = [] then parse_config_lines (Suc n) db ls
      else bind_result (parse_controller_line line n) (\<lambda>config.
        if find_entry cc_address (controllers db) (cc_address config) \<noteq> None then
          Inl (Runtime_error (''duplicate controller address at line '' @ to_string n))
        else parse_config_lines (Suc n) (db\<lparr>controllers := controllers db @ [config]\<rparr>) ls))"

definition parse_config_db :: "string \<Rightarrow> config_db result" where
  "parse_config_db s = parse_config_lines 1 \<lparr>controllers = []\<rparr> (getline_all s)"

section \<open>The database file\<close>

definition load_config_db :: "os \<Rightarrow> string \<Rightarrow> files \<Rightarrow> config_db result" where
  "load_config_db os path fs =
     bind_result (ensure_parent_directory os path) (\<lambda>_.
     bind_result (lock_file os path) (\<lambda>_.
     bind_result (read_file_if_exists os path fs) parse_config_db))"

text \<open>
  The callback may throw and may keep something for its caller (the captured variables of the
  lambdas of the control commands), so it returns both. Its exception leaves the file alone.
\<close>

definition update_config_db ::
    "os \<Rightarrow> string \<Rightarrow> (config_db \<Rightarrow> ('a \<times> config_db) result) \<Rightarrow> files \<Rightarrow>
     files \<times> ('a \<times> config_db) result" where
  "update_config_db os path update fs =
     (case bind_result (load_config_db os path fs) update of
        Inl e \<Rightarrow> (fs, Inl e)
      | Inr (a, db) \<Rightarrow>
          (case write_file_atomic os path (serialize_config_db db) fs of
             (fs', _, Inl e) \<Rightarrow> (fs', Inl e)
           | (fs', _, Inr _) \<Rightarrow> (fs', Inr (a, db))))"

section \<open>Addresses: the loop against the shape of an address\<close>

fun address_shape_from :: "nat \<Rightarrow> string \<Rightarrow> bool" where
  "address_shape_from i [] \<longleftrightarrow> True"
| "address_shape_from i (c # cs) \<longleftrightarrow>
     (if is_separator_index i then c = CHR '':'' else isxdigit c) \<and> address_shape_from (Suc i) cs"

definition address_shape :: "string \<Rightarrow> bool" where
  "address_shape s \<longleftrightarrow> length s = 17 \<and> address_shape_from 0 s"

lemma tolower_colon [simp]: "tolower (CHR '':'') = CHR '':''"
  by (simp add: tolower_def code_of_def)

lemma normalize_loop_eq:
  "normalize_loop address i s acc =
    (if address_shape_from i s then Inr (acc @ map tolower s) else Inl (invalid_address address))"
  by (induction s arbitrary: i acc) auto

lemma normalize_eq:
  "normalize_bluetooth_address s =
    (if address_shape s then Inr (map tolower s) else Inl (invalid_address s))"
  by (simp add: normalize_bluetooth_address_def normalize_loop_eq address_shape_def)

lemma address_shape_from_lower:
  "address_shape_from i s \<Longrightarrow> address_shape_from i (map tolower s)"
  by (induction s arbitrary: i) (auto split: if_splits)

lemma address_shape_lower: "address_shape s \<Longrightarrow> address_shape (map tolower s)"
  by (simp add: address_shape_def address_shape_from_lower)

text \<open>What the database holds: normalised addresses.\<close>

definition canonical_address :: "string \<Rightarrow> bool" where
  "canonical_address s \<longleftrightarrow> address_shape s \<and> map tolower s = s"

lemma normalize_canonical: "normalize_bluetooth_address s = Inr a \<Longrightarrow> canonical_address a"
  by (auto simp: normalize_eq canonical_address_def address_shape_lower split: if_splits)

lemma canonical_normalize [simp]: "canonical_address a \<Longrightarrow> normalize_bluetooth_address a = Inr a"
  by (simp add: normalize_eq canonical_address_def)

lemma canonical_length: "canonical_address a \<Longrightarrow> length a = 17"
  by (simp add: canonical_address_def address_shape_def)

section \<open>Ports\<close>

definition valid_ports :: "nat list \<Rightarrow> bool" where
  "valid_ports ps \<longleftrightarrow> sorted ps \<and> distinct ps \<and> (\<forall>p\<in>set ps. p < kMaxPortCount)"

lemma adjacent_find_None:
  "sorted xs \<Longrightarrow> adjacent_find xs = None \<longleftrightarrow> distinct xs"
proof (induction xs rule: adjacent_find.induct)
  case (1 x y xs)
  show ?case
  proof (cases "x = y")
    case False
    with 1(2) have "x < y" and "\<forall>z\<in>set xs. y \<le> z" by auto
    then have "x \<notin> set (y # xs)" by force
    with False 1 show ?thesis by simp
  qed simp
qed auto

lemma check_port_range_Inr: "check_port_range ps = Inr u \<longleftrightarrow> (\<forall>p\<in>set ps. p < kMaxPortCount)"
  by (induction ps) auto

lemma validate_ports_Inr:
  "validate_ports ps = Inr qs \<longleftrightarrow>
    qs = sort ps \<and> distinct ps \<and> (\<forall>p\<in>set ps. p < kMaxPortCount)"
proof -
  have "adjacent_find (sort ps) = None \<longleftrightarrow> distinct ps"
    by (simp add: adjacent_find_None)
  then show ?thesis
    by (auto simp: validate_ports_def Let_def bind_result_Inr check_port_range_Inr split: option.splits)
qed

lemma validate_ports_valid: "validate_ports ps = Inr qs \<Longrightarrow> valid_ports qs"
  by (auto simp: validate_ports_Inr valid_ports_def)

lemma valid_ports_validate [simp]: "valid_ports ps \<Longrightarrow> validate_ports ps = Inr ps"
  by (simp add: validate_ports_Inr valid_ports_def sorted_sort_id)

text \<open>The list a text of numbers separated by commas stands for.\<close>

lemma comma_not_digit: "CHR '','' \<notin> set (to_string n)"
  using to_string_digits not_isdigit_punctuation(2) by blast

lemma split_commas_join:
  assumes "xs \<noteq> []"
  shows "split_commas_from parts (join_unsigned xs) = Inr (parts @ map to_string xs)"
  using assms
proof (induction xs arbitrary: parts rule: join_unsigned.induct)
  case (2 x)
  then show ?case
    by (simp add: split_commas_from.simps split_first_None comma_not_digit)
next
  case (3 x y xs)
  then show ?case
    by (subst split_commas_from.simps) (simp add: split_first_Some comma_not_digit)
qed simp

lemma is_decimal_to_string [simp]: "is_decimal_number (to_string n)"
  by (simp add: is_decimal_number_def list_all_iff to_string_digits)

lemma parse_port_parts_to_string:
  "\<forall>x\<in>set xs. x \<le> unsigned_max \<Longrightarrow> parse_port_parts (map to_string xs) = Inr xs"
  by (induction xs) (auto simp: accumulate_digits_eq)

lemma join_unsigned_Nil_iff: "join_unsigned xs = [] \<longleftrightarrow> xs = []"
  by (cases xs rule: join_unsigned.cases) auto

lemma valid_ports_le: "valid_ports ps \<Longrightarrow> p \<in> set ps \<Longrightarrow> p \<le> unsigned_max"
  by (auto simp: valid_ports_def kMaxPortCount_def)

lemma parse_format_ports:
  "\<forall>x\<in>set xs. x \<le> unsigned_max \<Longrightarrow>
    parse_ports (format_ports xs) = (if xs = [] then Inr [] else validate_ports xs)"
  by (simp add: parse_ports_def format_ports_def split_commas_def split_commas_join
      parse_port_parts_to_string join_unsigned_Nil_iff)

lemma parse_ports_valid: "parse_ports s = Inr ps \<Longrightarrow> valid_ports ps"
  by (auto simp: parse_ports_def bind_result_Inr valid_ports_def [of "[]"] split: if_splits
      dest: validate_ports_valid)

section \<open>Port paths\<close>

lemma port_value_loop_eq:
  "port_value_loop m v s = (if dec_value v s \<le> m \<or> s = [] then Some (dec_value v s) else None)"
proof (induction s arbitrary: v)
  case (Cons c s)
  let ?v = "v * 10 + (code_of c - 48)"
  have "?v \<le> dec_value ?v s" by (rule dec_value_ge)
  with Cons.IH [of ?v] show ?case by (cases s) (auto simp: Let_def)
qed simp

lemma port_text_of_path_prefix:
  "port_text_of_path platform (port_prefix platform @ s) = Some (s, False)"
  by (cases platform) (simp_all add: usbip_prefix_def)

section \<open>Selection\<close>

lemma select_port_loop_Some:
  assumes "select_port_loop ts cands occ = Some p"
  shows "p \<in> set ts \<and> p \<in> set cands \<and> p \<notin> set occ
    \<and> (\<exists>us vs. ts = us @ p # vs \<and> (\<forall>q\<in>set us. q \<notin> set cands \<or> q \<in> set occ))"
  using assms
proof (induction ts)
  case (Cons t ts)
  show ?case
  proof (cases "t \<in> set cands \<and> t \<notin> set occ")
    case True
    with Cons.prems have "p = t" by simp
    with True show ?thesis by fastforce
  next
    case False
    with Cons.prems have "select_port_loop ts cands occ = Some p" by (auto split: if_splits)
    from Cons.IH [OF this] obtain us vs where p: "p \<in> set ts" "p \<in> set cands" "p \<notin> set occ"
      and ts: "ts = us @ p # vs" and us: "\<forall>q\<in>set us. q \<notin> set cands \<or> q \<in> set occ" by blast
    have "t # ts = (t # us) @ p # vs" "\<forall>q\<in>set (t # us). q \<notin> set cands \<or> q \<in> set occ"
      using ts us False by auto
    with p show ?thesis by (metis list.set_intros(2))
  qed
qed simp

lemma select_port_loop_None:
  "select_port_loop ts cands occ = None \<longleftrightarrow> (\<forall>p\<in>set ts. p \<notin> set cands \<or> p \<in> set occ)"
  by (induction ts) auto

section \<open>The database as a map from addresses\<close>

definition wf_config :: "controller_config \<Rightarrow> bool" where
  "wf_config c \<longleftrightarrow> canonical_address (cc_address c) \<and> valid_ports (cc_ports c)"

definition wf_db :: "config_db \<Rightarrow> bool" where
  "wf_db db \<longleftrightarrow> list_all wf_config (controllers db) \<and> distinct_keys cc_address (controllers db)"

text \<open>The loops of the two mutating operations, on the list of controllers.\<close>

definition put_controller :: "controller_config \<Rightarrow> controller_config list \<Rightarrow> controller_config list" where
  "put_controller c cs = replace_or_append cc_address c cs"

definition drop_controller :: "string \<Rightarrow> controller_config list \<Rightarrow> controller_config list" where
  "drop_controller a cs = filter (\<lambda>c. cc_address c \<noteq> a) cs"

interpretation controllers_store: keyed_store cc_address "find_entry cc_address" put_controller
  drop_controller "distinct_keys cc_address"
  by unfold_locales
    (auto simp: put_controller_def drop_controller_def find_entry_replace find_entry_filter
      distinct_replace_or_append distinct_keys_filter)

lemma find_canonical:
  "canonical_address a \<Longrightarrow> find_controller_config_by_address db a = find_entry cc_address (controllers db) a"
  by (simp add: find_controller_config_by_address_def canonical_length)

lemma upsert_Inr:
  "upsert_controller_config db c = Inr db' \<longleftrightarrow>
    (\<exists>a ps. normalize_bluetooth_address (cc_address c) = Inr a \<and> validate_ports (cc_ports c) = Inr ps
      \<and> db' = db\<lparr>controllers := put_controller (c\<lparr>cc_address := a, cc_ports := ps\<rparr>) (controllers db)\<rparr>)"
  by (auto simp: upsert_controller_config_def put_controller_def bind_result_Inr)

lemma remove_Inr:
  "remove_controller_config db a = Inr (removed, db') \<longleftrightarrow>
    (\<exists>n. normalize_bluetooth_address a = Inr n
      \<and> db' = db\<lparr>controllers := drop_controller n (controllers db)\<rparr>
      \<and> removed = (length (drop_controller n (controllers db)) \<noteq> length (controllers db)))"
  by (auto simp: remove_controller_config_def drop_controller_def bind_result_Inr Let_def)

lemma wf_put_controller:
  "wf_config c \<Longrightarrow> list_all wf_config cs \<Longrightarrow> list_all wf_config (put_controller c cs)"
  using set_replace_or_append [of cc_address c cs]
  by (auto simp: put_controller_def list_all_iff)

lemma upsert_wf:
  assumes "wf_db db" and "upsert_controller_config db c = Inr db'"
  shows "wf_db db'"
proof -
  from assms(2) obtain a ps where a: "normalize_bluetooth_address (cc_address c) = Inr a"
    and ps: "validate_ports (cc_ports c) = Inr ps"
    and db': "db' = db\<lparr>controllers := put_controller (c\<lparr>cc_address := a, cc_ports := ps\<rparr>) (controllers db)\<rparr>"
    unfolding upsert_Inr by blast
  have "wf_config (c\<lparr>cc_address := a, cc_ports := ps\<rparr>)"
    using normalize_canonical [OF a] validate_ports_valid [OF ps] by (simp add: wf_config_def)
  with assms(1) db' show ?thesis
    by (simp add: wf_db_def wf_put_controller controllers_store.inv_upd)
qed

lemma remove_wf:
  "wf_db db \<Longrightarrow> remove_controller_config db a = Inr (removed, db') \<Longrightarrow> wf_db db'"
  by (auto simp: remove_Inr wf_db_def drop_controller_def list_all_iff distinct_keys_filter)

lemma removed_iff:
  "length (drop_controller a cs) \<noteq> length cs \<longleftrightarrow> find_entry cc_address cs a \<noteq> None"
proof -
  have "length (filter P cs) = length cs \<longleftrightarrow> (\<forall>c\<in>set cs. P c)" for P
    by (metis filter_id_conv length_filter_less less_irrefl)
  then show ?thesis by (auto simp: drop_controller_def find_entry_None_iff)
qed

section \<open>The text form\<close>

lemma controller_profile_roundtrip [simp]:
  "parse_controller_profile (controller_profile_name p) = Inr p"
  by (cases p) (simp_all add: parse_controller_profile_def)

definition controller_fields :: "controller_config \<Rightarrow> jsonl_field list" where
  "controller_fields c =
     [string_field ''address'' (cc_address c),
      string_field ''profile'' (controller_profile_name (cc_profile c)),
      array_field ''ports'' (cc_ports c)]"

lemma serialize_controller_eq:
  "serialize_controller c = write_object (controller_fields c) @ [CHR 0x0A]"
  by (simp add: serialize_controller_def write_object_def controller_fields_def)

lemma plain_keys [simp]:
  "plain_key ''address''" "plain_key ''profile''" "plain_key ''ports''" "plain_key ''command''"
  "plain_key ''mode''" "plain_key ''scope''" "plain_key ''chunks''"
  by (simp_all add: plain_key_def code_of_def)

lemma wf_controller_fields:
  "wf_config c \<Longrightarrow> list_all wf_field (controller_fields c)"
  by (auto simp: controller_fields_def wf_config_def dest: valid_ports_le)

lemma parse_controller_line_write:
  assumes "wf_config c"
  shows "parse_controller_line (write_object (controller_fields c)) n = Inr c"
proof -
  have "parse_jsonl_object (write_object (controller_fields c)) ctx = Inr (controller_fields c)" for ctx
    using parse_write_object [OF wf_controller_fields [OF assms], of "[]"] by simp
  with assms show ?thesis
    by (simp add: parse_controller_line_def controller_fields_def field_lookup wf_config_def)
qed

lemma escape_no_newline: "CHR 0x0A \<notin> set (escape_jsonl_string s)"
proof (induction s)
  case (Cons c s)
  have "hex_digit_lower d \<noteq> CHR 0x0A" if "d < 16" for d
  proof -
    have "code_of (hex_digit_lower d) \<noteq> code_of (CHR 0x0A)"
      using that by (auto simp: hex_digit_lower_def code_of_def [of "CHR 0x0A"])
    then show ?thesis by auto
  qed
  moreover have "code_of c div 16 < 16" by (rule less_mult_imp_div_less) simp
  ultimately have nibbles: "hex_digit_lower (code_of c div 16) \<noteq> CHR 0x0A"
    "hex_digit_lower (code_of c mod 16) \<noteq> CHR 0x0A" by simp_all
  then have "CHR 0x0A \<notin> set (escape_jsonl_char c)"
    by (auto simp: escape_jsonl_char_def not_sym)
  with Cons show ?case by simp
qed simp

lemma not_isdigit_newline [simp]: "\<not> isdigit (CHR 0x0A)"
  by (simp add: isdigit_def code_of_def)

lemma join_no_newline: "CHR 0x0A \<notin> set (join_unsigned xs)"
  by (induction xs rule: join_unsigned.induct) (auto dest: to_string_digits)

lemma controller_object_line:
  "CHR 0x0A \<notin> set (write_object (controller_fields c))"
  "write_object (controller_fields c) \<noteq> []"
  "last (write_object (controller_fields c)) \<noteq> CHR 0x0D"
  by (auto simp: write_object_def controller_fields_def jsonl_string_field_def jsonl_string_value_def
      jsonl_unsigned_array_field_def jsonl_unsigned_array_def escape_no_newline join_no_newline)

lemma getline_all_lines:
  "\<forall>l\<in>set ls. CHR 0x0A \<notin> set l \<Longrightarrow> getline_all (concat (map (\<lambda>l. l @ [CHR 0x0A]) ls)) = ls"
  by (induction ls) (simp_all add: getline_all.simps split_first_Some)

lemma parse_config_lines_write:
  assumes "list_all wf_config cs" and "distinct_keys cc_address (controllers db @ cs)"
  shows "parse_config_lines n db (map (\<lambda>c. write_object (controller_fields c)) cs) =
    Inr (db\<lparr>controllers := controllers db @ cs\<rparr>)"
  using assms
proof (induction cs arbitrary: n db)
  case (Cons c cs)
  let ?line = "write_object (controller_fields c)"
  have "find_entry cc_address (controllers db) (cc_address c) = None"
    using Cons.prems(2) by (auto simp: distinct_keys_def find_entry_None_iff)
  moreover have "strip_carriage_return ?line = ?line"
    by (simp add: strip_carriage_return_def controller_object_line)
  moreover have "parse_controller_line ?line n = Inr c"
    using Cons.prems(1) by (simp add: parse_controller_line_write)
  ultimately show ?case
    using Cons.IH [of "db\<lparr>controllers := controllers db @ [c]\<rparr>" "Suc n"] Cons.prems controller_object_line(2)
    by (simp add: Let_def)
qed simp

lemma parse_serialize_db:
  assumes "wf_db db"
  shows "parse_config_db (serialize_config_db db) = Inr db"
proof -
  let ?ls = "map (\<lambda>c. write_object (controller_fields c)) (controllers db)"
  have "serialize_config_db db = concat (map (\<lambda>l. l @ [CHR 0x0A]) ?ls)"
    by (simp add: serialize_config_db_def serialize_controller_eq [abs_def] comp_def)
  moreover have "getline_all (concat (map (\<lambda>l. l @ [CHR 0x0A]) ?ls)) = ?ls"
    by (rule getline_all_lines) (auto simp: controller_object_line)
  ultimately have "getline_all (serialize_config_db db) = ?ls" by simp
  with assms parse_config_lines_write [of "controllers db" "\<lparr>controllers = []\<rparr>" 1] show ?thesis
    by (simp add: parse_config_db_def wf_db_def)
qed

lemma parse_controller_line_wf:
  "parse_controller_line line n = Inr c \<Longrightarrow> wf_config c"
  by (auto simp: parse_controller_line_def Let_def bind_result_Inr wf_config_def
      dest: normalize_canonical validate_ports_valid)

lemma parse_config_lines_wf:
  "parse_config_lines n db ls = Inr db' \<Longrightarrow> wf_db db \<Longrightarrow> wf_db db'"
proof (induction n db ls rule: parse_config_lines.induct)
  case (2 n db raw ls)
  show ?case
  proof (cases "strip_carriage_return raw = []")
    case True
    with 2 show ?thesis by (simp add: Let_def)
  next
    case False
    with "2.prems"(1) obtain c where c: "parse_controller_line (strip_carriage_return raw) n = Inr c"
      and new: "find_entry cc_address (controllers db) (cc_address c) = None"
      and rest: "parse_config_lines (Suc n) (db\<lparr>controllers := controllers db @ [c]\<rparr>) ls = Inr db'"
      by (auto simp: Let_def bind_result_Inr split: if_splits)
    have "wf_db (db\<lparr>controllers := controllers db @ [c]\<rparr>)"
      using "2.prems"(2) parse_controller_line_wf [OF c] new
      by (simp add: wf_db_def distinct_keys_snoc)
    with "2.IH"(2) [OF refl False] c new rest show ?thesis by simp
  qed
qed simp

lemma parse_config_db_wf: "parse_config_db s = Inr db \<Longrightarrow> wf_db db"
  unfolding parse_config_db_def
  by (erule parse_config_lines_wf) (simp add: wf_db_def distinct_keys_def)

section \<open>The file\<close>

lemma load_ok: "load_config_db os_ok path fs = parse_config_db (case fs path of None \<Rightarrow> [] | Some t \<Rightarrow> t)"
  by (simp add: load_config_db_def os_ok_def ensure_parent_directory_def lock_file_def
      read_file_if_exists_def split: option.splits)

lemma load_Inr_ok:
  "load_config_db os path fs = Inr db \<Longrightarrow> load_config_db os_ok path fs = Inr db"
  by (auto simp: load_config_db_def bind_result_Inr read_file_if_exists_def os_ok_def
      ensure_parent_directory_def lock_file_def split: option.splits if_splits)

lemma update_config_db_cases:
  assumes "update_config_db os path upd fs = (fs', r)"
  obtains (unchanged) e where "fs' = fs" "r = Inl e"
  | (written) db0 x db1 trace w where "load_config_db os path fs = Inr db0" "upd db0 = Inr (x, db1)"
      "write_file_atomic os path (serialize_config_db db1) fs = (fs', trace, w)"
      "r = (case w of Inl e \<Rightarrow> Inl e | Inr _ \<Rightarrow> Inr (x, db1))"
proof (cases "bind_result (load_config_db os path fs) upd")
  case (Inl e)
  with assms have "fs' = fs" "r = Inl e" by (simp_all add: update_config_db_def)
  then show thesis by (rule unchanged)
next
  case (Inr xdb)
  obtain x db1 where xdb: "xdb = (x, db1)" by (cases xdb)
  obtain fs2 trace w where w: "write_file_atomic os path (serialize_config_db db1) fs = (fs2, trace, w)"
    by (metis prod_cases3)
  from Inr xdb obtain db0 where db0: "load_config_db os path fs = Inr db0" "upd db0 = Inr (x, db1)"
    by (auto simp: bind_result_Inr)
  from assms Inr xdb w have "fs' = fs2" "r = (case w of Inl e \<Rightarrow> Inl e | Inr _ \<Rightarrow> Inr (x, db1))"
    by (auto simp: update_config_db_def split: sum.splits)
  with db0 w show thesis by (intro written) simp_all
qed

lemma load_wf: "load_config_db os path fs = Inr db \<Longrightarrow> wf_db db"
  by (auto simp: load_config_db_def bind_result_Inr intro: parse_config_db_wf)

lemma load_serialized:
  "wf_db db \<Longrightarrow> fs path = Some (serialize_config_db db) \<Longrightarrow> load_config_db os_ok path fs = Inr db"
  by (simp add: load_ok parse_serialize_db)

text \<open>What an update leaves behind, whatever the operating system answers.\<close>

definition keeps_wf :: "(config_db \<Rightarrow> ('a \<times> config_db) result) \<Rightarrow> bool" where
  "keeps_wf upd \<longleftrightarrow> (\<forall>db x db1. wf_db db \<longrightarrow> upd db = Inr (x, db1) \<longrightarrow> wf_db db1)"

lemma update_config_db_states:
  assumes run: "update_config_db os path upd fs = (fs', r)"
    and before: "load_config_db os_ok path fs = Inr db0"
    and keeps: "keeps_wf upd"
  shows "(load_config_db os_ok path fs' = Inr db0
      \<or> (\<exists>x db1. upd db0 = Inr (x, db1) \<and> load_config_db os_ok path fs' = Inr db1))
    \<and> (\<forall>x db1. r = Inr (x, db1) \<longrightarrow> upd db0 = Inr (x, db1) \<and> load_config_db os_ok path fs' = Inr db1)"
  using run
proof (cases rule: update_config_db_cases)
  case (unchanged e)
  with before show ?thesis by simp
next
  case (written db x db1 trace w)
  have db: "db = db0" using load_Inr_ok [OF written(1)] before by simp
  have "wf_db db1" using keeps load_wf [OF written(1)] written(2) by (auto simp: keeps_wf_def)
  then have saved: "load_config_db os_ok path fs' = Inr db1" if "fs' path = Some (serialize_config_db db1)"
    using that by (rule load_serialized)
  note states = write_file_atomic_states [OF written(3)]
  have "load_config_db os_ok path fs' = Inr db0" if "fs' path = fs path"
    using that before by (simp add: load_ok)
  with states saved written(2) db
  have "load_config_db os_ok path fs' = Inr db0 \<or> load_config_db os_ok path fs' = Inr db1" by blast
  with states saved written(2,4) db show ?thesis by (auto split: sum.splits)
qed

lemma write_file_atomic_ok: "\<exists>fs' trace. write_file_atomic os_ok p data fs = (fs', trace, Inr ())"
proof -
  have "\<exists>fs' trace'. write_loop [] t data f trace = (fs', trace', Inr ())" for t f trace
    by (cases data) (simp_all add: Let_def)
  then obtain fs2 trace2 where
    "write_loop [] (tmp_path p) data (fs(tmp_path p \<mapsto> [])) [fs(tmp_path p \<mapsto> []), fs] = (fs2, trace2, Inr ())"
    by blast
  then show ?thesis by (simp add: write_file_atomic_def os_ok_def commit_file_def Let_def)
qed

text \<open>When every call succeeds, the update returns what its callback returned.\<close>

lemma update_config_db_ok:
  assumes "load_config_db os_ok path fs = Inr db"
  obtains fs' where "update_config_db os_ok path upd fs = (fs', upd db)"
proof (cases "upd db")
  case (Inl e)
  with assms have "update_config_db os_ok path upd fs = (fs, upd db)" by (simp add: update_config_db_def)
  then show thesis by (rule that)
next
  case (Inr xdb)
  obtain x db1 where xdb: "xdb = (x, db1)" by (cases xdb)
  obtain fs' trace where "write_file_atomic os_ok path (serialize_config_db db1) fs = (fs', trace, Inr ())"
    using write_file_atomic_ok by blast
  with assms Inr xdb have "update_config_db os_ok path upd fs = (fs', upd db)"
    by (simp add: update_config_db_def)
  then show thesis by (rule that)
qed

lemma address_shape_from_nth:
  "address_shape_from i s \<longleftrightarrow>
    (\<forall>j<length s. if is_separator_index (i + j) then s ! j = CHR '':'' else isxdigit (s ! j))"
  by (induction s arbitrary: i) (simp_all add: All_less_Suc2)

lemma check_assignments_Inr:
  "check_assignments available cs = Inr u \<longleftrightarrow>
    (\<forall>c\<in>set cs. cc_ports c = [] \<or> (\<exists>p\<in>set (cc_ports c). p \<in> set available))"
  by (induction cs) (auto simp: find_None_iff)

lemma set_map_filter: "set (List.map_filter f xs) = {y. \<exists>x\<in>set xs. f x = Some y}"
  by (induction xs) (auto simp: List.map_filter_simps split: option.splits)

section \<open>Properties\<close>

text \<open>Two registered controllers, for the witnesses.\<close>

definition example_config :: controller_config where
  "example_config = \<lparr>cc_address = ''aa:bb:cc:dd:ee:01'', cc_profile = Unspecified, cc_ports = []\<rparr>"

definition example_db :: config_db where
  "example_db = \<lparr>controllers =
     [example_config,
      \<lparr>cc_address = ''aa:bb:cc:dd:ee:02'', cc_profile = Dse, cc_ports = [1, 3]\<rparr>]\<rparr>"

lemma example_wf: "wf_db example_db" "wf_config example_config"
  by (simp_all add: example_db_def example_config_def wf_db_def wf_config_def distinct_keys_def
      canonical_address_def address_shape_def is_separator_index_def isxdigit_def isdigit_def
      tolower_def code_of_def valid_ports_def kMaxPortCount_def)

text \<open>
  C32. The text form of the controller database loses nothing: a well-formed database (canonical
  distinct addresses, sorted distinct ports in range) is read back exactly from what
  \<open>serialize_config_db\<close> writes, through the line splitter, the JSON reader, the field checks and
  the validations.
\<close>

theorem config_db_roundtrip:
  assumes "wf_db db"
  shows "parse_config_db (serialize_config_db db) = Inr db"
  using assms by (rule parse_serialize_db)

theorem config_db_roundtrip_witness:
  "parse_config_db (serialize_config_db example_db) = Inr example_db"
  by (rule config_db_roundtrip [OF example_wf(1)])

text \<open>
  C34. Whatever text the database file holds, a database that \<open>parse_config_db\<close> accepts is well
  formed, and so can be written back and read again without change.
\<close>

theorem parsed_db_wellformed:
  assumes "parse_config_db text_of_file = Inr db"
  shows "wf_db db \<and> parse_config_db (serialize_config_db db) = Inr db"
  using parse_config_db_wf [OF assms] parse_serialize_db by blast

theorem parsed_db_wellformed_witness:
  "wf_db example_db \<and> parse_config_db (serialize_config_db example_db) = Inr example_db"
  by (rule parsed_db_wellformed [OF parse_serialize_db [OF example_wf(1)]])

text \<open>
  Address normalisation, completely: exactly the 17-byte texts with colons at indices 2, 5,
  8, 11, 14 and hexadecimal digits elsewhere are accepted, the result is the lower-case address,
  and every other text is refused with the code's message.
\<close>

theorem normalize_bluetooth_address_spec:
  "normalize_bluetooth_address s =
     (if length s = 17 \<and> list_all (\<lambda>i. if i \<in> {2, 5, 8, 11, 14} then s ! i = CHR '':''
           else isxdigit (s ! i)) [0..<17]
      then Inr (map tolower s) else Inl (invalid_address s))"
  unfolding normalize_eq address_shape_def address_shape_from_nth is_separator_index_def
  by (simp add: list_all_iff atLeast0LessThan lessThan_def)

text \<open>
  Port lists: what \<open>parse_ports\<close> accepts is sorted, free of duplicates and below the port
  count, and \<open>format_ports\<close> followed by \<open>parse_ports\<close> gives it back.
\<close>

theorem parse_ports_roundtrip:
  assumes "parse_ports s = Inr ps"
  shows "sorted ps \<and> distinct ps \<and> list_all (\<lambda>p. p < kMaxPortCount) ps \<and> parse_ports (format_ports ps) = Inr ps"
proof -
  have v: "valid_ports ps" using assms by (rule parse_ports_valid)
  then have "parse_ports (format_ports ps) = Inr ps"
    by (simp add: parse_format_ports valid_ports_le)
  with v show ?thesis by (simp add: valid_ports_def list_all_iff)
qed

theorem parse_ports_roundtrip_witness:
  "sorted [0, 2 :: nat] \<and> distinct [0, 2 :: nat] \<and> list_all (\<lambda>p. p < kMaxPortCount) [0, 2]
    \<and> parse_ports (format_ports [0, 2]) = Inr [0, 2]"
proof -
  have "parse_ports ''2,0'' = Inr [0, 2]"
    using parse_format_ports [of "[2, 0]"]
    by (simp add: validate_ports_Inr kMaxPortCount_def format_ports_def to_string.simps digit_char_values)
  from parse_ports_roundtrip [OF this] show ?thesis .
qed

text \<open>
  Port paths are inverted on both platforms: a path made for a port leads back to this port,
  and only ports below the port count have a path.
\<close>

theorem port_path_roundtrip:
  assumes "port_path_for_index platform port = Inr path"
  shows "port < kMaxPortCount \<and> port_index_from_path platform path = Some port"
proof -
  from assms have port: "port < kMaxPortCount" and path: "path = port_prefix platform @ to_string port"
    by (auto simp: port_path_for_index_def split: if_splits)
  from port have "port \<le> 3" by (simp add: kMaxPortCount_def)
  with port show ?thesis
    by (simp add: path port_index_from_path_def port_text_of_path_prefix port_value_loop_eq
        kMaxPortCount_def)
qed

theorem port_path_roundtrip_witness:
  "2 < kMaxPortCount \<and> port_index_from_path Linux ''/dev/vds2'' = Some 2"
proof -
  have "port_path_for_index Linux 2 = Inr ''/dev/vds2''"
    by (simp add: port_path_for_index_def kMaxPortCount_def to_string.simps digit_char_values)
  from port_path_roundtrip [OF this] show ?thesis .
qed

text \<open>
  C35. Port selection is sound, complete and takes the lowest port: for a configuration with
  validated ports, the selected port is allowed, is a candidate and is free, no smaller port is,
  and nothing is selected exactly when no port qualifies.
\<close>

theorem select_port_lowest:
  assumes "valid_ports (cc_ports config)"
  shows "case select_controller_config_port config candidates occupied of
      None \<Rightarrow> \<not> (\<exists>p < kMaxPortCount. controller_config_allows_port config p
        \<and> p \<in> set candidates \<and> p \<notin> set occupied)
    | Some p \<Rightarrow> p < kMaxPortCount \<and> controller_config_allows_port config p
        \<and> p \<in> set candidates \<and> p \<notin> set occupied
        \<and> \<not> (\<exists>q < p. controller_config_allows_port config q \<and> q \<in> set candidates \<and> q \<notin> set occupied)"
proof -
  let ?ts = "controller_config_port_targets config"
  have ts: "set ?ts = {p. p < kMaxPortCount \<and> controller_config_allows_port config p}" "sorted ?ts" "distinct ?ts"
    using assms by (auto simp: controller_config_port_targets_def controller_config_allows_port_def
        valid_ports_def)
  show ?thesis
  proof (cases "select_port_loop ?ts candidates occupied")
    case None
    then have "\<forall>p\<in>set ?ts. p \<notin> set candidates \<or> p \<in> set occupied"
      by (simp only: select_port_loop_None)
    with None ts(1) show ?thesis by (auto simp: select_controller_config_port_def)
  next
    case (Some p)
    from select_port_loop_Some [OF this] obtain us vs where p: "p \<in> set ?ts" "p \<in> set candidates"
      "p \<notin> set occupied" and split: "?ts = us @ p # vs"
      and us: "\<forall>q\<in>set us. q \<notin> set candidates \<or> q \<in> set occupied" by blast
    have "q \<in> set us" if "q < p" "controller_config_allows_port config q" for q
    proof -
      have "q \<in> set ?ts" using that p(1) ts(1) by auto
      moreover have "\<forall>v\<in>set vs. p \<le> v" using ts(2) split by (simp add: sorted_append)
      ultimately show ?thesis using split that(1) by auto
    qed
    with p us ts(1) Some show ?thesis by (auto simp: select_controller_config_port_def)
  qed
qed

theorem select_port_lowest_witness:
  "case select_controller_config_port example_config [3, 1] [1] of
      None \<Rightarrow> \<not> (\<exists>p < kMaxPortCount. controller_config_allows_port example_config p
        \<and> p \<in> set [3, 1] \<and> p \<notin> set [1])
    | Some p \<Rightarrow> p < kMaxPortCount \<and> controller_config_allows_port example_config p
        \<and> p \<in> set [3, 1] \<and> p \<notin> set [1]
        \<and> \<not> (\<exists>q < p. controller_config_allows_port example_config q \<and> q \<in> set [3, 1] \<and> q \<notin> set [1])"
  by (rule select_port_lowest) (simp add: example_config_def valid_ports_def)

text \<open>
  C36. Registration is a map update: in a well-formed database \<open>upsert_controller_config\<close> binds the
  normalised address to the given configuration with its ports sorted, changes no other address
  and keeps the database well formed.
\<close>

theorem upsert_is_map_update:
  assumes "wf_db db" and "upsert_controller_config db config = Inr db'" and "canonical_address a"
  shows "wf_db db' \<and> find_controller_config_by_address db' a =
    (if map tolower (cc_address config) = a
     then Some (config\<lparr>cc_address := a, cc_ports := sort (cc_ports config)\<rparr>)
     else find_controller_config_by_address db a)"
proof -
  from assms(2) obtain b ps where b: "normalize_bluetooth_address (cc_address config) = Inr b"
    and ps: "validate_ports (cc_ports config) = Inr ps"
    and db': "db' = db\<lparr>controllers := put_controller (config\<lparr>cc_address := b, cc_ports := ps\<rparr>) (controllers db)\<rparr>"
    unfolding upsert_Inr by blast
  have "b = map tolower (cc_address config)" using b by (simp add: normalize_eq split: if_splits)
  moreover have "ps = sort (cc_ports config)" using ps by (simp add: validate_ports_Inr)
  moreover have "distinct_keys cc_address (controllers db)" using assms(1) by (simp add: wf_db_def)
  ultimately show ?thesis
    using upsert_wf [OF assms(1,2)]
    by (auto simp: find_canonical [OF assms(3)] db' controllers_store.look_upd)
qed

theorem upsert_is_map_update_witness:
  "wf_db example_db \<and> find_controller_config_by_address example_db ''aa:bb:cc:dd:ee:01'' =
    (if map tolower (cc_address example_config) = ''aa:bb:cc:dd:ee:01''
     then Some (example_config\<lparr>cc_address := ''aa:bb:cc:dd:ee:01'', cc_ports := sort (cc_ports example_config)\<rparr>)
     else find_controller_config_by_address example_db ''aa:bb:cc:dd:ee:01'')"
proof (rule upsert_is_map_update [OF example_wf(1)])
  have c: "canonical_address (cc_address example_config)" "valid_ports (cc_ports example_config)"
    using example_wf(2) by (simp_all add: wf_config_def)
  then show "upsert_controller_config example_db example_config = Inr example_db"
    by (simp add: upsert_controller_config_def example_db_def example_config_def)
  show "canonical_address ''aa:bb:cc:dd:ee:01''" using c(1) by (simp add: example_config_def)
qed

text \<open>
  Removal is a map deletion: it succeeds for every address, says whether the address was
  registered, unbinds this address only and keeps the database well formed.
\<close>

theorem remove_is_map_delete:
  assumes "wf_db db" and "canonical_address a" and "canonical_address b"
  shows "\<exists>db'. remove_controller_config db a = Inr (find_controller_config_by_address db a \<noteq> None, db')
    \<and> wf_db db'
    \<and> find_controller_config_by_address db' b =
        (if b = a then None else find_controller_config_by_address db b)"
proof -
  let ?db = "db\<lparr>controllers := drop_controller a (controllers db)\<rparr>"
  have run: "remove_controller_config db a = Inr (find_controller_config_by_address db a \<noteq> None, ?db)"
    using assms(2) by (simp add: remove_Inr removed_iff find_canonical)
  moreover have "find_controller_config_by_address ?db b =
      (if b = a then None else find_controller_config_by_address db b)"
    using assms(1) by (simp add: find_canonical [OF assms(3)] controllers_store.look_del wf_db_def)
  ultimately show ?thesis using remove_wf [OF assms(1) run] by blast
qed

theorem remove_is_map_delete_witness:
  "\<exists>db'. remove_controller_config example_db (cc_address example_config)
      = Inr (find_controller_config_by_address example_db (cc_address example_config) \<noteq> None, db')
    \<and> wf_db db'
    \<and> find_controller_config_by_address db' (cc_address example_config) =
        (if cc_address example_config = cc_address example_config then None
         else find_controller_config_by_address example_db (cc_address example_config))"
  by (rule remove_is_map_delete [OF example_wf(1)]) (use example_wf(2) in \<open>simp_all add: wf_config_def\<close>)

text \<open>
  The assignment check accepts exactly when the database is empty, or some device is present
  and every controller with a port list has one of its ports among the devices' ports.
\<close>

theorem validate_config_assignments_spec:
  "is_ok (validate_config_assignments platform db devices) =
     (controllers db = [] \<or> devices \<noteq> [] \<and>
      list_all (\<lambda>c. cc_ports c = [] \<or>
         list_ex (\<lambda>p. Some p \<in> port_index_from_path platform ` set devices) (cc_ports c)) (controllers db))"
  by (force simp: is_ok_iff validate_config_assignments_def check_assignments_Inr set_map_filter
      list_all_iff list_ex_iff)

text \<open>
  C29. Updating the database file is atomic and durable. Whatever call fails or is interrupted,
  the file stays loadable: it holds the database read before or the updated one. After a success
  it holds the updated one, which is what the call returned.
\<close>

theorem update_config_db_durable:
  assumes run: "update_config_db os path upd fs = (fs', r)"
    and before: "load_config_db os_ok path fs = Inr db0"
    and keeps: "\<And>db x db1. wf_db db \<Longrightarrow> upd db = Inr (x, db1) \<Longrightarrow> wf_db db1"
  shows "(load_config_db os_ok path fs' = Inr db0
      \<or> (\<exists>x db1. upd db0 = Inr (x, db1) \<and> load_config_db os_ok path fs' = Inr db1))
    \<and> (\<forall>x db1. r = Inr (x, db1) \<longrightarrow> upd db0 = Inr (x, db1) \<and> load_config_db os_ok path fs' = Inr db1)"
  by (rule update_config_db_states [OF run before]) (auto simp: keeps_wf_def intro: keeps)

theorem update_config_db_durable_witness:
  "\<exists>fs' r. update_config_db (os_ok\<lparr>os_writes := [Write_failed ''EIO'']\<rparr>) ''vdsd.db''
       (\<lambda>db. Inr ((), example_db)) Map.empty = (fs', r)
    \<and> (load_config_db os_ok ''vdsd.db'' fs' = Inr \<lparr>controllers = []\<rparr>
        \<or> load_config_db os_ok ''vdsd.db'' fs' = Inr example_db)"
proof -
  obtain fs' and r :: "(unit \<times> config_db) result" where
    run: "update_config_db (os_ok\<lparr>os_writes := [Write_failed ''EIO'']\<rparr>) ''vdsd.db''
       (\<lambda>db. Inr ((), example_db)) Map.empty = (fs', r)"
    by (metis surj_pair)
  have before: "load_config_db os_ok ''vdsd.db'' Map.empty = Inr \<lparr>controllers = []\<rparr>"
    by (simp add: load_ok parse_config_db_def getline_all.simps)
  have "load_config_db os_ok ''vdsd.db'' fs' = Inr \<lparr>controllers = []\<rparr>
      \<or> load_config_db os_ok ''vdsd.db'' fs' = Inr example_db"
    using update_config_db_durable [OF run before] example_wf(1) by auto
  with run show ?thesis by blast
qed

end
