(* ===== verification/Crc.thy ===== *)
theory Crc
  imports Prelude
begin

text \<open>
  The report checksums of \<open>src/src/vds_protocol.cc\<close>: the table \<open>kCrc32Table\<close>, \<open>crc32_seeded\<close> and
  the two functions that store a checksum in the last four bytes of a report. The reference is
  the bit-serial CRC-32 with the reflected polynomial, and the algebra of its register (linear,
  one step injective) is what the error detection rests on.
\<close>

section \<open>The code\<close>

text \<open>One round of \<open>crc32_table_entry\<close>: the mask \<open>0u - (index & 1u)\<close> is all ones or zero.\<close>

definition crc_step :: "u32 \<Rightarrow> u32" where
  "crc_step index = drop_bit 1 index XOR (0xedb88320 AND (0 - (index AND 1)))"

definition crc32_table_entry :: "u32 \<Rightarrow> u32" where
  "crc32_table_entry index = (crc_step ^^ 8) index"

definition kCrc32Table :: "u32 list" where
  "kCrc32Table = map (\<lambda>i. crc32_table_entry (of_nat i)) [0..<256]"

definition crc_update :: "u32 \<Rightarrow> u8 \<Rightarrow> u32" where
  "crc_update crc byte = drop_bit 8 crc XOR (kCrc32Table ! unat ((crc XOR ucast byte) AND 0xff))"

definition crc32_seeded :: "bytes \<Rightarrow> u32 \<Rightarrow> u32" where
  "crc32_seeded data seed = NOT (foldl crc_update (NOT seed) data)"

definition kOutputCrcSeed :: u32 where "kOutputCrcSeed = 0xeada2d49"
definition kFeatureCrcSeed :: u32 where "kFeatureCrcSeed = 0x2060efc3"

definition output_crc32 :: "bytes \<Rightarrow> u32" where
  "output_crc32 data = crc32_seeded data kOutputCrcSeed"

definition feature_crc32 :: "bytes \<Rightarrow> u32" where
  "feature_crc32 data = crc32_seeded data kFeatureCrcSeed"

text \<open>The four stores \<open>report[offset + i] = (crc >> 8 i) & 0xff\<close>.\<close>

definition crc_bytes :: "u32 \<Rightarrow> bytes" where
  "crc_bytes crc = [ucast (crc AND 0xff), ucast (drop_bit 8 crc AND 0xff),
     ucast (drop_bit 16 crc AND 0xff), ucast (drop_bit 24 crc AND 0xff)]"

definition fill_output_report_checksum :: "bytes \<Rightarrow> bytes result" where
  "fill_output_report_checksum report =
     (if length report < 4 then Inl (Invalid_argument ''output report is too small for CRC'')
      else (let offset = length report - 4; crc = output_crc32 (take offset report)
            in Inr (write_at offset (crc_bytes crc) report)))"

definition fill_feature_report_checksum :: "bytes \<Rightarrow> bytes result" where
  "fill_feature_report_checksum report =
     (if length report < 4 then Inl (Invalid_argument ''feature report is too small for CRC'')
      else (let offset = length report - 4; crc = feature_crc32 (take offset report)
            in Inr (write_at offset (crc_bytes crc) report)))"

section \<open>The register as a linear map\<close>

lemma bit_beyond: "32 \<le> n \<Longrightarrow> \<not> bit (x :: u32) n"
  using bit_imp_le_length [of x n] by auto

lemma bit_byte_beyond: "8 \<le> n \<Longrightarrow> \<not> bit (b :: u8) n"
  using bit_imp_le_length [of b n] by auto

lemma xor_left_cancel: "x XOR y = x XOR z \<longleftrightarrow> y = (z :: u32)"
proof
  assume "x XOR y = x XOR z"
  then have "x XOR (x XOR y) = x XOR (x XOR z)" by simp
  then show "y = z" by (simp add: xor.assoc [symmetric])
qed simp

lemma xor_right_cancel: "y XOR x = z XOR x \<longleftrightarrow> y = (z :: u32)"
  using xor_left_cancel [of x y z] by (simp only: xor.commute)

lemma xor_zero_iff: "x XOR y = 0 \<longleftrightarrow> x = (y :: u32)"
  using xor_left_cancel [of x y x] by auto

lemma crc_step_even: "\<not> bit x 0 \<Longrightarrow> crc_step x = drop_bit 1 x"
proof -
  assume "\<not> bit x 0"
  then have "x AND 1 = 0" by (simp add: and_one_eq bit_0 even_iff_mod_2_eq_zero)
  then show ?thesis by (simp add: crc_step_def)
qed

lemma crc_step_odd: "bit x 0 \<Longrightarrow> crc_step x = drop_bit 1 x XOR 0xedb88320"
proof -
  assume "bit x 0"
  then have "x AND 1 = 1" by (simp add: and_one_eq bit_0 odd_iff_mod_2_eq_one)
  then show ?thesis by (simp add: crc_step_def)
qed

lemma crc_step_xor: "crc_step (x XOR y) = crc_step x XOR crc_step y"
  by (cases "bit x 0"; cases "bit y 0")
    (simp_all add: crc_step_odd crc_step_even bit_xor_iff drop_bit_xor ac_simps)

lemma crc_steps_xor: "(crc_step ^^ n) (x XOR y) = (crc_step ^^ n) x XOR (crc_step ^^ n) y"
  by (induction n) (simp_all add: crc_step_xor)

lemma crc_step_0 [simp]: "crc_step 0 = 0"
  by (simp add: crc_step_def)

text \<open>The polynomial has its top bit set, so a step can be undone.\<close>

lemma crc_step_top: "bit (crc_step x) 31 \<longleftrightarrow> bit x 0"
proof (cases "bit x 0")
  case True
  have "bit (0xedb88320 :: u32) 31" by (simp add: bit_numeral_rec)
  with True show ?thesis by (simp add: crc_step_odd bit_xor_iff bit_drop_bit_eq bit_beyond)
next
  case False
  then show ?thesis by (simp add: crc_step_even bit_drop_bit_eq bit_beyond)
qed

lemma crc_step_kernel: "crc_step x = 0 \<Longrightarrow> x = 0"
proof -
  assume z: "crc_step x = 0"
  then have even: "\<not> bit x 0" using crc_step_top [of x] by simp
  with z have d: "drop_bit 1 x = 0" by (simp add: crc_step_even)
  show "x = 0"
  proof (rule bit_eqI)
    fix n
    show "bit x n = bit 0 n"
    proof (cases n)
      case 0
      with even show ?thesis by simp
    next
      case (Suc m)
      have "bit (drop_bit 1 x) m = bit x (Suc m)" by (simp add: bit_drop_bit_eq)
      with d Suc show ?thesis by simp
    qed
  qed
qed

lemma crc_steps_kernel: "(crc_step ^^ n) x = 0 \<Longrightarrow> x = 0"
  by (induction n) (auto dest: crc_step_kernel)

lemma crc_steps_inject: "(crc_step ^^ n) x = (crc_step ^^ n) y \<longleftrightarrow> x = y"
proof
  assume "(crc_step ^^ n) x = (crc_step ^^ n) y"
  then have "(crc_step ^^ n) (x XOR y) = 0" by (simp add: crc_steps_xor)
  then have "x XOR y = 0" by (rule crc_steps_kernel)
  then show "x = y" by (simp only: xor_zero_iff)
qed simp

lemma crc_steps_shift:
  "\<forall>i<n. \<not> bit x i \<Longrightarrow> (crc_step ^^ n) x = drop_bit n x"
proof (induction n arbitrary: x)
  case (Suc n)
  then have "\<forall>i<n. \<not> bit (drop_bit 1 x) i" and "\<not> bit x 0"
    by (auto simp: bit_drop_bit_eq)
  with Suc.IH [of "drop_bit 1 x"] show ?case
    by (simp add: funpow_Suc_right crc_step_even del: funpow.simps)
qed simp

lemma crc_steps_8_shift: "(crc_step ^^ 8) (push_bit 8 x) = drop_bit 8 (push_bit 8 x)"
  by (rule crc_steps_shift) (simp add: bit_push_bit_iff)

section \<open>The table against the bit-serial register\<close>

definition crc_update_bits :: "u32 \<Rightarrow> u8 \<Rightarrow> u32" where
  "crc_update_bits crc byte = (crc_step ^^ 8) (crc XOR ucast byte)"

lemma mask_8_split: "(x :: u32) = push_bit 8 (drop_bit 8 x) XOR (x AND 0xff)"
proof (rule bit_eqI)
  fix n
  have m: "x AND 0xff = take_bit 8 x" by (simp add: take_bit_eq_mask mask_eq_exp_minus_1)
  show "bit x n = bit (push_bit 8 (drop_bit 8 x) XOR (x AND 0xff)) n"
    unfolding m using bit_imp_le_length [of x n]
    by (auto simp: bit_xor_iff bit_take_bit_iff bit_push_bit_iff bit_drop_bit_eq)
qed

lemma drop_push_drop_8: "drop_bit 8 (push_bit 8 (drop_bit 8 (x :: u32))) = drop_bit 8 x"
proof (rule bit_eqI)
  fix n
  show "bit (drop_bit 8 (push_bit 8 (drop_bit 8 x))) n = bit (drop_bit 8 x) n"
    using bit_imp_le_length [of x "8 + n"] by (auto simp: bit_drop_bit_eq bit_push_bit_iff)
qed

lemma drop_bit_8_byte: "drop_bit 8 (ucast (byte :: u8) :: u32) = 0"
proof (rule bit_eqI)
  fix n
  show "bit (drop_bit 8 (ucast byte :: u32)) n = bit (0 :: u32) n"
    by (simp add: bit_drop_bit_eq bit_ucast_iff bit_byte_beyond)
qed

lemma kCrc32Table_nth: "n < 256 \<Longrightarrow> kCrc32Table ! n = crc32_table_entry (of_nat n)"
  by (simp add: kCrc32Table_def)

lemma and_ff_less: "unat ((x :: u32) AND 0xff) < 256"
proof -
  have "x AND 0xff = take_bit 8 x" by (simp add: take_bit_eq_mask mask_eq_exp_minus_1)
  then have "unat (x AND 0xff) = take_bit 8 (unat x)" by (simp only: unsigned_take_bit_eq)
  then show ?thesis by (simp add: take_bit_eq_mod)
qed

lemma crc_update_eq_bits: "crc_update crc byte = crc_update_bits crc byte"
proof -
  let ?x = "crc XOR ucast byte"
  have "(crc_step ^^ 8) ?x =
      (crc_step ^^ 8) (push_bit 8 (drop_bit 8 ?x)) XOR (crc_step ^^ 8) (?x AND 0xff)"
    by (subst mask_8_split [of ?x]) (rule crc_steps_xor)
  also have "(crc_step ^^ 8) (push_bit 8 (drop_bit 8 ?x)) = drop_bit 8 ?x"
    by (simp only: crc_steps_8_shift drop_push_drop_8)
  also have "drop_bit 8 ?x = drop_bit 8 crc"
    by (simp add: drop_bit_xor drop_bit_8_byte)
  also have "(crc_step ^^ 8) (?x AND 0xff) = kCrc32Table ! unat (?x AND 0xff)"
    by (simp only: kCrc32Table_nth [OF and_ff_less] crc32_table_entry_def of_nat_unat ucast_id)
  finally show ?thesis by (simp only: crc_update_def crc_update_bits_def)
qed

text \<open>The specification: the CRC-32 of a byte string, initial register and final value inverted.\<close>

definition crc32_spec :: "bytes \<Rightarrow> u32" where
  "crc32_spec data = NOT (foldl crc_update_bits (NOT 0) data)"

lemma crc32_seeded_spec: "crc32_seeded data (crc32_spec prefix_bytes) = crc32_spec (prefix_bytes @ data)"
  by (simp add: crc32_seeded_def crc32_spec_def crc_update_eq_bits [abs_def])

section \<open>Reports that carry their checksum\<close>

text \<open>
  The checksum a receiver reads: the little-endian value of the last four bytes.
\<close>

definition le32 :: "bytes \<Rightarrow> u32" where
  "le32 bs = foldr (\<lambda>b acc. ucast b XOR push_bit 8 acc) bs 0"

lemma le32_simps [simp]: "le32 [] = 0" "le32 (b # bs) = ucast b XOR push_bit 8 (le32 bs)"
  by (simp_all add: le32_def)

lemma length_crc_bytes [simp]: "length (crc_bytes crc) = 4"
  by (simp add: crc_bytes_def)

lemma bit_and_ff: "bit ((x :: u32) AND 0xff) n \<longleftrightarrow> n < 8 \<and> bit x n"
proof -
  have m: "x AND 0xff = take_bit 8 x" by (simp add: take_bit_eq_mask mask_eq_exp_minus_1)
  show ?thesis unfolding m by (simp add: bit_take_bit_iff)
qed

lemma le32_crc_bytes [simp]: "le32 (crc_bytes crc) = crc"
proof (rule bit_eqI)
  fix n :: nat
  consider "n < 8" | "8 \<le> n" "n < 16" | "16 \<le> n" "n < 24" | "24 \<le> n" "n < 32" | "32 \<le> n" by linarith
  then show "bit (le32 (crc_bytes crc)) n = bit crc n"
    by cases (auto simp: crc_bytes_def bit_xor_iff bit_push_bit_iff bit_ucast_iff bit_and_ff
        bit_drop_bit_eq bit_beyond)
qed

lemma le32_bits: "bit (le32 bs) n \<Longrightarrow> n < 8 * length bs"
proof (induction bs arbitrary: n)
  case (Cons b bs)
  show ?case
  proof (cases "n < 8")
    case False
    with Cons.prems have "bit (le32 bs) (n - 8)"
      by (auto simp: bit_xor_iff bit_push_bit_iff bit_ucast_iff bit_byte_beyond)
    from Cons.IH [OF this] show ?thesis by simp
  qed simp
qed simp

lemma byte_xor_shift_inject:
  assumes "ucast a XOR push_bit 8 (x :: u32) = ucast b XOR push_bit 8 y"
    and "\<forall>n\<ge>24. \<not> bit x n" "\<forall>n\<ge>24. \<not> bit y n"
  shows "(a :: u8) = b \<and> x = y"
proof -
  have bits: "bit (ucast a XOR push_bit 8 x) n = bit (ucast b XOR push_bit 8 y) n" for n
    using assms(1) by simp
  have "bit a n = bit b n" for n
    using bits [of n] bit_imp_le_length [of a n] bit_imp_le_length [of b n]
    by (auto simp: bit_xor_iff bit_push_bit_iff bit_ucast_iff)
  moreover have "bit x n = bit y n" for n
  proof (cases "n < 24")
    case True
    then show ?thesis
      using bits [of "n + 8"] by (simp add: bit_xor_iff bit_push_bit_iff bit_ucast_iff bit_byte_beyond)
  qed (use assms in simp)
  ultimately show ?thesis by (auto intro!: bit_eqI)
qed

lemma le32_inject: "length as = length bs \<Longrightarrow> length as \<le> 4 \<Longrightarrow> le32 as = le32 bs \<Longrightarrow> as = bs"
proof (induction as arbitrary: bs)
  case (Cons a as)
  from Cons.prems(1) obtain b bs' where bs: "bs = b # bs'" and len: "length as = length bs'"
    by (cases bs) auto
  have "a = b \<and> le32 as = le32 bs'"
  proof (rule byte_xor_shift_inject)
    show "ucast a XOR push_bit 8 (le32 as) = ucast b XOR push_bit 8 (le32 bs')"
      using Cons.prems(3) bs by simp
    show "\<forall>n\<ge>24. \<not> bit (le32 as) n" and "\<forall>n\<ge>24. \<not> bit (le32 bs') n"
      using le32_bits [of as] le32_bits [of bs'] Cons.prems(2) len by fastforce+
  qed
  with Cons.IH [OF len] Cons.prems(2) bs show ?case by simp
qed simp

text \<open>Up to four bytes enter the register at once, shifted to their place.\<close>

lemma crc_register_bytes:
  "length bs \<le> 4 \<Longrightarrow>
    foldl crc_update_bits crc bs = (crc_step ^^ (8 * length bs)) (crc XOR le32 bs)"
proof (induction bs arbitrary: crc)
  case (Cons b bs)
  have small: "drop_bit 8 (push_bit 8 (le32 bs)) = le32 bs"
  proof (rule bit_eqI)
    fix n
    show "bit (drop_bit 8 (push_bit 8 (le32 bs))) n = bit (le32 bs) n"
      using le32_bits [of bs n] Cons.prems by (auto simp: bit_drop_bit_eq bit_push_bit_iff)
  qed
  have "foldl crc_update_bits crc (b # bs)
      = (crc_step ^^ (8 * length bs)) ((crc_step ^^ 8) (crc XOR ucast b) XOR le32 bs)"
    using Cons.prems by (simp add: Cons.IH) (simp add: crc_update_bits_def)
  also have "le32 bs = (crc_step ^^ 8) (push_bit 8 (le32 bs))"
    by (simp only: crc_steps_8_shift small)
  also have "(crc_step ^^ 8) (crc XOR ucast b) XOR (crc_step ^^ 8) (push_bit 8 (le32 bs))
      = (crc_step ^^ 8) (crc XOR le32 (b # bs))"
    by (simp add: crc_steps_xor [symmetric] xor.assoc)
  finally show ?case by (simp only: funpow_add [symmetric, THEN fun_cong, unfolded comp_apply])
      (simp add: algebra_simps)
qed simp

lemma crc_update_bits_inject: "crc_update_bits x b = crc_update_bits y b \<longleftrightarrow> x = y"
  by (simp only: crc_update_bits_def crc_steps_inject xor_right_cancel)

lemma crc_register_inject: "foldl crc_update_bits x bs = foldl crc_update_bits y bs \<longleftrightarrow> x = y"
  by (induction bs arbitrary: x y) (simp_all add: crc_update_bits_inject)

lemma crc_update_fold: "foldl crc_update crc data = foldl crc_update_bits crc data"
  by (induction data arbitrary: crc) (simp_all add: crc_update_eq_bits)

lemma not_inject: "NOT x = NOT y \<Longrightarrow> x = (y :: u32)"
  by (metis bit.double_compl)

lemma crc32_burst:
  assumes "length a = length b" "length a \<le> 4" "a \<noteq> b"
  shows "crc32_seeded (p @ a @ s) seed \<noteq> crc32_seeded (p @ b @ s) seed"
proof
  let ?r = "foldl crc_update_bits (NOT seed) p"
  assume "crc32_seeded (p @ a @ s) seed = crc32_seeded (p @ b @ s) seed"
  then have "NOT (foldl crc_update_bits (foldl crc_update_bits ?r a) s)
      = NOT (foldl crc_update_bits (foldl crc_update_bits ?r b) s)"
    by (simp only: crc32_seeded_def crc_update_fold foldl_append)
  then have "foldl crc_update_bits (foldl crc_update_bits ?r a) s
      = foldl crc_update_bits (foldl crc_update_bits ?r b) s"
    by (rule not_inject)
  then have "foldl crc_update_bits ?r a = foldl crc_update_bits ?r b"
    by (simp only: crc_register_inject)
  then have "?r XOR le32 a = ?r XOR le32 b"
    using assms by (simp only: crc_register_bytes crc_steps_inject)
  then have "le32 a = le32 b" by (simp only: xor_left_cancel)
  with assms le32_inject show False by blast
qed

lemma fill_output_Inr:
  "fill_output_report_checksum report = Inr r \<longleftrightarrow>
    4 \<le> length report \<and> r = take (length report - 4) report
      @ crc_bytes (output_crc32 (take (length report - 4) report))"
  by (auto simp: fill_output_report_checksum_def Let_def write_at_def)

lemma fill_feature_Inr:
  "fill_feature_report_checksum report = Inr r \<longleftrightarrow>
    4 \<le> length report \<and> r = take (length report - 4) report
      @ crc_bytes (feature_crc32 (take (length report - 4) report))"
  by (auto simp: fill_feature_report_checksum_def Let_def write_at_def)

text \<open>The two seeds are the checksums of the HIDP header byte the report travels behind.\<close>

lemma kOutputCrcSeed_spec: "kOutputCrcSeed = crc32_spec [0xa2]"
  unfolding kOutputCrcSeed_def crc32_spec_def crc_update_bits_def by code_simp

lemma kFeatureCrcSeed_spec: "kFeatureCrcSeed = crc32_spec [0x53]"
  unfolding kFeatureCrcSeed_def crc32_spec_def crc_update_bits_def by code_simp

lemma output_crc32_spec: "output_crc32 data = crc32_spec (0xa2 # data)"
  using crc32_seeded_spec [of data "[0xa2]"] by (simp add: output_crc32_def kOutputCrcSeed_spec)

lemma feature_crc32_spec: "feature_crc32 data = crc32_spec (0x53 # data)"
  using crc32_seeded_spec [of data "[0x53]"] by (simp add: feature_crc32_def kFeatureCrcSeed_spec)

section \<open>Properties\<close>

text \<open>
  C37. The table-driven checksum is the standard CRC-32: for output and feature reports alike, the
  table and the precomputed seed give the bit-serial CRC-32 of the HIDP header byte followed by
  the report, that is of the packet as it goes over the air.
\<close>

theorem report_crc_is_crc32:
  "output_crc32 data = crc32_spec (0xa2 # data) \<and> feature_crc32 data = crc32_spec (0x53 # data)"
  by (simp only: output_crc32_spec feature_crc32_spec)

text \<open>
  C38. Error detection: changing up to four consecutive bytes of the data, in any way, changes the
  checksum, wherever the bytes are and whatever the seed is.
\<close>

theorem crc_detects_bursts:
  assumes "length a = length b" "length a \<le> 4" "a \<noteq> b"
  shows "crc32_seeded (p @ a @ s) seed \<noteq> crc32_seeded (p @ b @ s) seed"
  using assms by (rule crc32_burst)

theorem crc_detects_bursts_witness:
  "crc32_seeded ([0x31] @ [1, 2] @ [7]) kOutputCrcSeed \<noteq> crc32_seeded ([0x31] @ [2, 1] @ [7]) kOutputCrcSeed"
  by (rule crc_detects_bursts) simp_all

text \<open>
  A filled report keeps its length and its payload, and the checksum its receiver reads from
  the last four bytes is the one of the bytes before them. Only reports that are too short for a
  checksum are refused.
\<close>

theorem filled_report_checks:
  assumes "4 \<le> length report"
  shows "\<exists>r. fill_output_report_checksum report = Inr r \<and> length r = length report
      \<and> take (length r - 4) r = take (length report - 4) report
      \<and> le32 (drop (length r - 4) r) = crc32_spec (0xa2 # take (length r - 4) r)"
  using assms by (auto simp: fill_output_Inr output_crc32_spec [symmetric])

theorem filled_report_checks_witness:
  "\<exists>r. fill_output_report_checksum [0x31, 0, 0, 0, 0] = Inr r \<and> length r = length [0x31, 0, 0, 0, 0 :: u8]
      \<and> take (length r - 4) r = take (length [0x31, 0, 0, 0, 0 :: u8] - 4) [0x31, 0, 0, 0, 0]
      \<and> le32 (drop (length r - 4) r) = crc32_spec (0xa2 # take (length r - 4) r)"
  by (rule filled_report_checks) simp

end
