(* ===== verification/OutputState.thy ===== *)
theory OutputState
  imports Crc
begin

text \<open>
  \<open>DsOutputState\<close> of \<open>src/src/vds_protocol.cc\<close>: the controller state the daemon keeps between the
  output reports of the game, the effects the daemon authors itself, and the Bluetooth reports it
  sends. The members \<open>state_\<close>, \<open>light_color_\<close>, \<dots> are the fields of a record; the packed
  \<open>vds_set_state_data\<close> is read through its bytes, bit fields from the low bit up.
\<close>

section \<open>Layout\<close>

abbreviation (input) kSetStateSize :: nat where "kSetStateSize \<equiv> 47"
abbreviation (input) kDsStateSize :: nat where "kDsStateSize \<equiv> 63"
abbreviation (input) kBtStateReportSize :: nat where "kBtStateReportSize \<equiv> 78"
abbreviation (input) kBtInitReportSize :: nat where "kBtInitReportSize \<equiv> 142"
abbreviation (input) kBtStateOffset :: nat where "kBtStateOffset \<equiv> 3"

abbreviation (input) kOutputFlag0Offset :: nat where "kOutputFlag0Offset \<equiv> 0"
abbreviation (input) kOutputFlag1Offset :: nat where "kOutputFlag1Offset \<equiv> 1"
abbreviation (input) kOutputRumbleRightOffset :: nat where "kOutputRumbleRightOffset \<equiv> 2"
abbreviation (input) kOutputRumbleLeftOffset :: nat where "kOutputRumbleLeftOffset \<equiv> 3"
abbreviation (input) kOutputHeadphoneVolumeOffset :: nat where "kOutputHeadphoneVolumeOffset \<equiv> 4"
abbreviation (input) kOutputSpeakerVolumeOffset :: nat where "kOutputSpeakerVolumeOffset \<equiv> 5"
abbreviation (input) kOutputMicVolumeOffset :: nat where "kOutputMicVolumeOffset \<equiv> 6"
abbreviation (input) kOutputAudioControlOffset :: nat where "kOutputAudioControlOffset \<equiv> 7"
abbreviation (input) kOutputMuteLedOffset :: nat where "kOutputMuteLedOffset \<equiv> 8"
abbreviation (input) kOutputPowerSaveControlOffset :: nat where "kOutputPowerSaveControlOffset \<equiv> 9"
abbreviation (input) kOutputRightTriggerFfbOffset :: nat where "kOutputRightTriggerFfbOffset \<equiv> 10"
abbreviation (input) kOutputLeftTriggerFfbOffset :: nat where "kOutputLeftTriggerFfbOffset \<equiv> 21"
abbreviation (input) kTriggerFfbSize :: nat where "kTriggerFfbSize \<equiv> 11"
abbreviation (input) kOutputAudioControl2Offset :: nat where "kOutputAudioControl2Offset \<equiv> 37"
abbreviation (input) kOutputLightFadeOffset :: nat where "kOutputLightFadeOffset \<equiv> 41"
abbreviation (input) kOutputLightBrightnessOffset :: nat where "kOutputLightBrightnessOffset \<equiv> 42"
abbreviation (input) kOutputPlayerLightsOffset :: nat where "kOutputPlayerLightsOffset \<equiv> 43"
abbreviation (input) kOutputLedColorOffset :: nat where "kOutputLedColorOffset \<equiv> 44"

abbreviation (input) kOutputRumbleCompatibilityEnable :: u8 where "kOutputRumbleCompatibilityEnable \<equiv> 0x03"
abbreviation (input) kOutputFlag0RightTriggerFfbEnable :: u8 where "kOutputFlag0RightTriggerFfbEnable \<equiv> 0x04"
abbreviation (input) kOutputFlag0LeftTriggerFfbEnable :: u8 where "kOutputFlag0LeftTriggerFfbEnable \<equiv> 0x08"
abbreviation (input) kOutputFlag0HeadphoneVolumeEnable :: u8 where "kOutputFlag0HeadphoneVolumeEnable \<equiv> 0x10"
abbreviation (input) kOutputFlag0SpeakerVolumeEnable :: u8 where "kOutputFlag0SpeakerVolumeEnable \<equiv> 0x20"
abbreviation (input) kOutputFlag0MicVolumeEnable :: u8 where "kOutputFlag0MicVolumeEnable \<equiv> 0x40"
abbreviation (input) kOutputFlag0AudioControlEnable :: u8 where "kOutputFlag0AudioControlEnable \<equiv> 0x80"
abbreviation (input) kOutputFlag1MicMuteLedControlEnable :: u8 where "kOutputFlag1MicMuteLedControlEnable \<equiv> 0x01"
abbreviation (input) kOutputFlag1PowerSaveControlEnable :: u8 where "kOutputFlag1PowerSaveControlEnable \<equiv> 0x02"
abbreviation (input) kOutputFlag1LedColorEnable :: u8 where "kOutputFlag1LedColorEnable \<equiv> 0x04"
abbreviation (input) kOutputFlag1PlayerIndicatorsEnable :: u8 where "kOutputFlag1PlayerIndicatorsEnable \<equiv> 0x10"
abbreviation (input) kOutputFlag1AudioControl2Enable :: u8 where "kOutputFlag1AudioControl2Enable \<equiv> 0x80"
abbreviation (input) kOutputMicSelectMask :: u8 where "kOutputMicSelectMask \<equiv> 0x03"
abbreviation (input) kOutputMicSelectAuto :: u8 where "kOutputMicSelectAuto \<equiv> 0x00"
abbreviation (input) kOutputMicSelectInternal :: u8 where "kOutputMicSelectInternal \<equiv> 0x01"
abbreviation (input) kOutputAudioControlNonPathMask :: u8 where "kOutputAudioControlNonPathMask \<equiv> 0xcf"
abbreviation (input) kOutputPathHeadphones :: u8 where "kOutputPathHeadphones \<equiv> 0x00"
abbreviation (input) kOutputPathSpeaker :: u8 where "kOutputPathSpeaker \<equiv> 0x30"
abbreviation (input) kOutputPathMask :: u8 where "kOutputPathMask \<equiv> 0x30"
abbreviation (input) kOutputPowerSaveMicMute :: u8 where "kOutputPowerSaveMicMute \<equiv> 0x10"
abbreviation (input) kBtAudioBufferLength :: u8 where "kBtAudioBufferLength \<equiv> 64"
abbreviation (input) kBtMicReportId :: u8 where "kBtMicReportId \<equiv> 0x32"
abbreviation (input) kBtMicOpen :: u8 where "kBtMicOpen \<equiv> 0xff"
abbreviation (input) kBtMicClose :: u8 where "kBtMicClose \<equiv> 0xfe"
abbreviation (input) VDS_BT_STATE_REPORT_ID :: u8 where "VDS_BT_STATE_REPORT_ID \<equiv> 0x31"
abbreviation (input) VDS_USB_OUTPUT_REPORT_ID :: u8 where "VDS_USB_OUTPUT_REPORT_ID \<equiv> 0x02"

definition kInitialSetStateData :: bytes where
  "kInitialSetStateData =
     [0xfd, 0xf7, 0, 0, 0x7f, 0x64, 0x08, 0x09, 0, 0x0f] @ replicate 27 0
     @ [0x01, 0x07, 0, 0, 0x02, 0x01, 0, 0xff, 0xd7, 0]"

definition kInitialDsState :: bytes where
  "kInitialDsState = kInitialSetStateData @ replicate (kDsStateSize - kSetStateSize) 0"

section \<open>State\<close>

record ds_output =
  state_bytes :: bytes
  light_color :: "u8 \<times> u8 \<times> u8"
  headphones_volume :: u8
  speaker_volume :: u8
  mic_volume :: u8
  audio_control :: u8
  audio_output_path :: u8
  audio_control2 :: u8
  power_save_control :: u8
  light_brightness :: u8
  emulate_light_brightness :: bool
  headset_mic_plugged :: bool
  report_sequence :: u8
  mic_sequence :: u8

record authored_effects =
  left_trigger :: "bytes option"
  right_trigger :: "bytes option"
  led_color :: "(u8 \<times> u8 \<times> u8) option"
  player_lights :: "u8 option"
  mute_light :: "u8 option"
  effects_force :: bool

definition initial_output :: ds_output where
  "initial_output = \<lparr>
     state_bytes = kInitialDsState,
     light_color = (kInitialDsState ! kOutputLedColorOffset,
                    kInitialDsState ! (kOutputLedColorOffset + 1),
                    kInitialDsState ! (kOutputLedColorOffset + 2)),
     headphones_volume = kInitialDsState ! kOutputHeadphoneVolumeOffset,
     speaker_volume = kInitialDsState ! kOutputSpeakerVolumeOffset,
     mic_volume = kInitialDsState ! kOutputMicVolumeOffset,
     audio_control = kInitialDsState ! kOutputAudioControlOffset AND kOutputAudioControlNonPathMask,
     audio_output_path = kInitialDsState ! kOutputAudioControlOffset AND kOutputPathMask,
     audio_control2 = kInitialDsState ! kOutputAudioControl2Offset,
     power_save_control = kInitialDsState ! kOutputPowerSaveControlOffset,
     light_brightness = kInitialDsState ! kOutputLightBrightnessOffset,
     emulate_light_brightness = False,
     headset_mic_plugged = False,
     report_sequence = 0,
     mic_sequence = 0\<rparr>"

section \<open>Bytes of the state\<close>

definition copy_state_bytes :: "bytes \<Rightarrow> bytes \<Rightarrow> nat \<Rightarrow> nat \<Rightarrow> bytes" where
  "copy_state_bytes state update off len = write_at off (take len (drop off update)) state"

definition set_state_bit :: "u8 \<Rightarrow> nat \<Rightarrow> bool \<Rightarrow> u8" where
  "set_state_bit byte b v =
     (let mask = push_bit b 1 in (byte AND NOT mask) OR (if v then mask else 0))"

definition scale_light_component :: "u8 \<Rightarrow> u8 \<Rightarrow> u8" where
  "scale_light_component component brightness =
     (let scale = (if brightness = 1 then 128 else if brightness = 2 then 64 else 255)
      in of_nat ((unat component * scale + 127) div 255))"

definition audio_control_with_output_path :: "u8 \<Rightarrow> u8 \<Rightarrow> u8" where
  "audio_control_with_output_path control output_path =
     (control AND NOT kOutputPathMask) OR output_path"

text \<open>\<open>state_[i] = v\<close>, \<open>state_[i] |= m\<close>, \<open>state_[i] &= ~m\<close> and \<open>copy_state_bytes(state_, \<dots>)\<close>.\<close>

definition put_byte :: "nat \<Rightarrow> u8 \<Rightarrow> ds_output \<Rightarrow> ds_output" where
  "put_byte i v d = d\<lparr>state_bytes := (state_bytes d)[i := v]\<rparr>"

definition or_byte :: "nat \<Rightarrow> u8 \<Rightarrow> ds_output \<Rightarrow> ds_output" where
  "or_byte i m d = put_byte i (state_bytes d ! i OR m) d"

definition clear_byte :: "nat \<Rightarrow> u8 \<Rightarrow> ds_output \<Rightarrow> ds_output" where
  "clear_byte i m d = put_byte i (state_bytes d ! i AND NOT m) d"

definition copy_bytes :: "bytes \<Rightarrow> nat \<Rightarrow> nat \<Rightarrow> ds_output \<Rightarrow> ds_output" where
  "copy_bytes update off len d = d\<lparr>state_bytes := copy_state_bytes (state_bytes d) update off len\<rparr>"

section \<open>Output reports of the game\<close>

definition apply_mic_select :: "ds_output \<Rightarrow> ds_output" where
  "apply_mic_select d =
     (let control = (audio_control d AND NOT kOutputMicSelectMask)
            OR (if headset_mic_plugged d then kOutputMicSelectAuto else kOutputMicSelectInternal);
          d = d\<lparr>audio_control := control\<rparr>;
          d = or_byte kOutputFlag0Offset kOutputFlag0AudioControlEnable d
      in put_byte kOutputAudioControlOffset
           (audio_control_with_output_path control (audio_output_path d)) d)"

text \<open>
  The part of an output report that is the state data, with or without its report id.
\<close>

definition usb_output_update :: "bytes \<Rightarrow> bytes option" where
  "usb_output_update report =
     (if length report \<ge> 1 + kSetStateSize \<and> report ! 0 = VDS_USB_OUTPUT_REPORT_ID
      then Some (take kSetStateSize (drop 1 report))
      else if length report = kSetStateSize then Some (take kSetStateSize report)
      else None)"

abbreviation (input) enable_rumble_emulation :: "bytes \<Rightarrow> bool" where
  "enable_rumble_emulation u \<equiv> bit (u ! 0) 0"
abbreviation (input) use_rumble_not_haptics :: "bytes \<Rightarrow> bool" where
  "use_rumble_not_haptics u \<equiv> bit (u ! 0) 1"
abbreviation (input) allow_right_trigger_ffb :: "bytes \<Rightarrow> bool" where
  "allow_right_trigger_ffb u \<equiv> bit (u ! 0) 2"
abbreviation (input) allow_left_trigger_ffb :: "bytes \<Rightarrow> bool" where
  "allow_left_trigger_ffb u \<equiv> bit (u ! 0) 3"
abbreviation (input) allow_headphone_volume :: "bytes \<Rightarrow> bool" where
  "allow_headphone_volume u \<equiv> bit (u ! 0) 4"
abbreviation (input) allow_speaker_volume :: "bytes \<Rightarrow> bool" where
  "allow_speaker_volume u \<equiv> bit (u ! 0) 5"
abbreviation (input) allow_mic_volume :: "bytes \<Rightarrow> bool" where
  "allow_mic_volume u \<equiv> bit (u ! 0) 6"
abbreviation (input) allow_audio_control :: "bytes \<Rightarrow> bool" where
  "allow_audio_control u \<equiv> bit (u ! 0) 7"
abbreviation (input) allow_mute_light :: "bytes \<Rightarrow> bool" where
  "allow_mute_light u \<equiv> bit (u ! 1) 0"
abbreviation (input) allow_audio_mute :: "bytes \<Rightarrow> bool" where
  "allow_audio_mute u \<equiv> bit (u ! 1) 1"
abbreviation (input) allow_led_color :: "bytes \<Rightarrow> bool" where
  "allow_led_color u \<equiv> bit (u ! 1) 2"
abbreviation (input) allow_player_indicators :: "bytes \<Rightarrow> bool" where
  "allow_player_indicators u \<equiv> bit (u ! 1) 4"
abbreviation (input) allow_audio_control2 :: "bytes \<Rightarrow> bool" where
  "allow_audio_control2 u \<equiv> bit (u ! 1) 7"
abbreviation (input) allow_light_brightness_change :: "bytes \<Rightarrow> bool" where
  "allow_light_brightness_change u \<equiv> bit (u ! 38) 0"
abbreviation (input) allow_color_light_fade_animation :: "bytes \<Rightarrow> bool" where
  "allow_color_light_fade_animation u \<equiv> bit (u ! 38) 1"
abbreviation (input) enable_improved_rumble_emulation :: "bytes \<Rightarrow> bool" where
  "enable_improved_rumble_emulation u \<equiv> bit (u ! 38) 2"

definition update_rumble :: "bytes \<Rightarrow> ds_output \<Rightarrow> ds_output" where
  "update_rumble u d =
     (let d = put_byte 0 (set_state_bit (state_bytes d ! 0) 0 (enable_rumble_emulation u)) d;
          d = put_byte 0 (set_state_bit (state_bytes d ! 0) 1 (use_rumble_not_haptics u)) d;
          d = put_byte 38 (set_state_bit (state_bytes d ! 38) 2 (enable_improved_rumble_emulation u)) d
      in if use_rumble_not_haptics u \<or> enable_rumble_emulation u
         then copy_bytes u kOutputRumbleRightOffset 2 d else d)"

definition update_headphone_volume :: "bytes \<Rightarrow> ds_output \<Rightarrow> ds_output" where
  "update_headphone_volume u d =
     (if allow_headphone_volume u then
        (let d = or_byte kOutputFlag0Offset kOutputFlag0HeadphoneVolumeEnable d;
             d = d\<lparr>headphones_volume := u ! kOutputHeadphoneVolumeOffset\<rparr>
         in copy_bytes u kOutputHeadphoneVolumeOffset 1 d)
      else d)"

definition update_speaker_volume :: "bytes \<Rightarrow> ds_output \<Rightarrow> ds_output" where
  "update_speaker_volume u d =
     (if allow_speaker_volume u then
        (let d = or_byte kOutputFlag0Offset kOutputFlag0SpeakerVolumeEnable d;
             d = d\<lparr>speaker_volume := u ! kOutputSpeakerVolumeOffset\<rparr>
         in copy_bytes u kOutputSpeakerVolumeOffset 1 d)
      else d)"

definition update_mic_volume :: "bytes \<Rightarrow> ds_output \<Rightarrow> ds_output" where
  "update_mic_volume u d =
     (if allow_mic_volume u then
        (let d = or_byte kOutputFlag0Offset kOutputFlag0MicVolumeEnable d;
             d = d\<lparr>mic_volume := u ! kOutputMicVolumeOffset\<rparr>
         in put_byte kOutputMicVolumeOffset (mic_volume d) d)
      else d)"

definition update_audio_control :: "bytes \<Rightarrow> ds_output \<Rightarrow> ds_output" where
  "update_audio_control u d =
     (if allow_audio_control u then
        (let d = or_byte kOutputFlag0Offset kOutputFlag0AudioControlEnable d;
             requested_control = u ! kOutputAudioControlOffset;
             requested_non_path = requested_control AND kOutputAudioControlNonPathMask;
             d = (if requested_non_path \<noteq> 0 then d\<lparr>audio_control := requested_non_path\<rparr> else d);
             d = d\<lparr>audio_output_path := requested_control AND kOutputPathMask\<rparr>
         in apply_mic_select d)
      else d)"

definition update_audio_control2 :: "bytes \<Rightarrow> ds_output \<Rightarrow> ds_output" where
  "update_audio_control2 u d =
     (if allow_audio_control2 u then
        (let d = or_byte kOutputFlag1Offset kOutputFlag1AudioControl2Enable d;
             d = d\<lparr>audio_control2 := u ! kOutputAudioControl2Offset\<rparr>
         in copy_bytes u kOutputAudioControl2Offset 1 d)
      else d)"

definition update_audio_mute :: "bytes \<Rightarrow> ds_output \<Rightarrow> ds_output" where
  "update_audio_mute u d =
     (if allow_audio_mute u then
        (let d = or_byte kOutputFlag1Offset kOutputFlag1PowerSaveControlEnable d;
             d = d\<lparr>power_save_control := u ! kOutputPowerSaveControlOffset\<rparr>
         in put_byte kOutputPowerSaveControlOffset (power_save_control d) d)
      else d)"

definition update_speaker_path :: "bytes \<Rightarrow> ds_output \<Rightarrow> ds_output" where
  "update_speaker_path u d =
     (if allow_speaker_volume u \<and> u ! kOutputSpeakerVolumeOffset \<noteq> 0 then
        (let d = or_byte kOutputFlag0Offset
               (kOutputFlag0AudioControlEnable OR kOutputFlag0SpeakerVolumeEnable) d;
             d = or_byte kOutputFlag1Offset kOutputFlag1AudioControl2Enable d;
             d = put_byte kOutputAudioControlOffset
               (audio_control_with_output_path (audio_control d) kOutputPathSpeaker) d
         in put_byte kOutputAudioControl2Offset (audio_control2 d) d)
      else d)"

text \<open>The sections that are copied as they are, each behind its own bit.\<close>

definition update_section :: "bool \<Rightarrow> nat \<Rightarrow> nat \<Rightarrow> bytes \<Rightarrow> ds_output \<Rightarrow> ds_output" where
  "update_section allowed off len u d = (if allowed then copy_bytes u off len d else d)"

definition update_brightness :: "bytes \<Rightarrow> ds_output \<Rightarrow> ds_output" where
  "update_brightness u d =
     (if allow_light_brightness_change u then
        (copy_bytes u kOutputLightBrightnessOffset 1 d)
          \<lparr>light_brightness := u ! kOutputLightBrightnessOffset, emulate_light_brightness := True\<rparr>
      else d)"

definition update_led_color :: "bytes \<Rightarrow> ds_output \<Rightarrow> ds_output" where
  "update_led_color u d =
     (if allow_led_color u then
        copy_bytes u kOutputLedColorOffset 3
          (d\<lparr>light_color := (u ! kOutputLedColorOffset, u ! (kOutputLedColorOffset + 1),
             u ! (kOutputLedColorOffset + 2))\<rparr>)
      else d)"

definition put_scaled_light :: "ds_output \<Rightarrow> ds_output" where
  "put_scaled_light d =
     (case light_color d of (r, g, b) \<Rightarrow>
        put_byte (kOutputLedColorOffset + 2) (scale_light_component b (light_brightness d))
          (put_byte (kOutputLedColorOffset + 1) (scale_light_component g (light_brightness d))
            (put_byte kOutputLedColorOffset (scale_light_component r (light_brightness d)) d)))"

definition update_emulated_light :: "bytes \<Rightarrow> ds_output \<Rightarrow> ds_output" where
  "update_emulated_light u d =
     (if emulate_light_brightness d \<and> (allow_light_brightness_change u \<or> allow_led_color u)
      then put_scaled_light d else d)"

definition apply_update :: "bytes \<Rightarrow> ds_output \<Rightarrow> ds_output" where
  "apply_update u d =
     (let d = update_rumble u d;
          d = update_headphone_volume u d;
          d = update_speaker_volume u d;
          d = update_mic_volume u d;
          d = update_audio_control u d;
          d = update_audio_control2 u d;
          d = update_audio_mute u d;
          d = update_speaker_path u d;
          d = update_section (allow_mute_light u) kOutputMuteLedOffset 1 u d;
          d = update_section (allow_right_trigger_ffb u) kOutputRightTriggerFfbOffset kTriggerFfbSize u d;
          d = update_section (allow_left_trigger_ffb u) kOutputLeftTriggerFfbOffset kTriggerFfbSize u d;
          d = update_section (allow_color_light_fade_animation u) kOutputLightFadeOffset 1 u d;
          d = update_brightness u d;
          d = update_section (allow_player_indicators u) (kOutputLedColorOffset - 1) 1 u d;
          d = update_led_color u d
      in update_emulated_light u d)"

definition apply_usb_output_report :: "bytes \<Rightarrow> ds_output \<Rightarrow> bool \<times> ds_output" where
  "apply_usb_output_report report d =
     (case usb_output_update report of
        None \<Rightarrow> (False, d)
      | Some u \<Rightarrow> (True, apply_update u d))"

section \<open>Effects of the daemon\<close>

definition copy_trigger :: "bytes \<Rightarrow> nat \<Rightarrow> ds_output \<Rightarrow> ds_output" where
  "copy_trigger t off d = d\<lparr>state_bytes := write_at off t (state_bytes d)\<rparr>"

definition apply_authored_effects :: "authored_effects \<Rightarrow> ds_output \<Rightarrow> ds_output" where
  "apply_authored_effects e d =
     (let d = (case right_trigger e of None \<Rightarrow> d
               | Some t \<Rightarrow> copy_trigger t kOutputRightTriggerFfbOffset
                   (or_byte kOutputFlag0Offset kOutputFlag0RightTriggerFfbEnable d));
          d = (case left_trigger e of None \<Rightarrow> d
               | Some t \<Rightarrow> copy_trigger t kOutputLeftTriggerFfbOffset
                   (or_byte kOutputFlag0Offset kOutputFlag0LeftTriggerFfbEnable d));
          d = (case led_color e of None \<Rightarrow> d
               | Some (r, g, b) \<Rightarrow>
                   put_byte (kOutputLedColorOffset + 2) b (put_byte (kOutputLedColorOffset + 1) g
                     (put_byte kOutputLedColorOffset r
                       ((or_byte kOutputFlag1Offset kOutputFlag1LedColorEnable d)
                         \<lparr>light_color := (r, g, b)\<rparr>))));
          d = (case player_lights e of None \<Rightarrow> d
               | Some v \<Rightarrow> put_byte kOutputPlayerLightsOffset (v AND 0x3f)
                   (or_byte kOutputFlag1Offset kOutputFlag1PlayerIndicatorsEnable d))
      in (case mute_light e of None \<Rightarrow> d
          | Some v \<Rightarrow> put_byte kOutputMuteLedOffset v
              (or_byte kOutputFlag1Offset kOutputFlag1MicMuteLedControlEnable d)))"

section \<open>Audio routing\<close>

definition set_audio_out_stream_active :: "bool \<Rightarrow> bool \<Rightarrow> ds_output \<Rightarrow> ds_output" where
  "set_audio_out_stream_active active headset_plugged d =
     (let d = or_byte kOutputFlag0Offset kOutputFlag0AudioControlEnable d;
          d = put_byte kOutputHeadphoneVolumeOffset (headphones_volume d) d
      in if active then
           (if headset_plugged then
              (let d = or_byte kOutputFlag0Offset kOutputFlag0HeadphoneVolumeEnable d;
                   d = clear_byte kOutputFlag0Offset kOutputFlag0SpeakerVolumeEnable d;
                   d = clear_byte kOutputFlag1Offset kOutputFlag1AudioControl2Enable d;
                   d = put_byte kOutputSpeakerVolumeOffset 0 d;
                   d = put_byte kOutputAudioControl2Offset 0 d;
                   d = d\<lparr>audio_output_path := kOutputPathHeadphones\<rparr>
               in put_byte kOutputAudioControlOffset
                    (audio_control_with_output_path (audio_control d) (audio_output_path d)) d)
            else
              (let d = or_byte kOutputFlag0Offset kOutputFlag0SpeakerVolumeEnable d;
                   d = or_byte kOutputFlag1Offset kOutputFlag1AudioControl2Enable d;
                   d = put_byte kOutputSpeakerVolumeOffset (speaker_volume d) d;
                   d = put_byte kOutputAudioControl2Offset (audio_control2 d) d;
                   d = d\<lparr>audio_output_path := kOutputPathSpeaker\<rparr>
               in put_byte kOutputAudioControlOffset
                    (audio_control_with_output_path (audio_control d) (audio_output_path d)) d))
         else
           (let d = clear_byte kOutputFlag0Offset kOutputFlag0SpeakerVolumeEnable d;
                d = clear_byte kOutputFlag1Offset kOutputFlag1AudioControl2Enable d;
                d = put_byte kOutputSpeakerVolumeOffset 0 d;
                d = put_byte kOutputAudioControl2Offset 0 d;
                d = d\<lparr>audio_output_path := kOutputPathHeadphones\<rparr>
            in put_byte kOutputAudioControlOffset
                 (audio_control_with_output_path (audio_control d) (audio_output_path d)) d))"

definition set_headset_mic_plugged :: "bool \<Rightarrow> ds_output \<Rightarrow> ds_output" where
  "set_headset_mic_plugged plugged d =
     (let d = d\<lparr>headset_mic_plugged := plugged\<rparr>;
          d = or_byte kOutputFlag0Offset
            (kOutputFlag0MicVolumeEnable OR kOutputFlag0AudioControlEnable) d;
          d = put_byte kOutputMicVolumeOffset (mic_volume d) d
      in apply_mic_select d)"

section \<open>Bluetooth reports\<close>

text \<open>
  \<open>fill_output_report_checksum\<close> on an array whose size is fixed: it cannot throw, as
  \<open>sealed_eq\<close> below shows.
\<close>

definition sealed :: "bytes \<Rightarrow> bytes" where
  "sealed report = (case fill_output_report_checksum report of Inr r \<Rightarrow> r | Inl _ \<Rightarrow> report)"

definition next_report_sequence :: "ds_output \<Rightarrow> ds_output" where
  "next_report_sequence d = d\<lparr>report_sequence := (report_sequence d + 1) AND 0x0f\<rparr>"

definition state_report_of :: "u8 \<Rightarrow> bytes \<Rightarrow> bytes" where
  "state_report_of seq state =
     sealed (write_at kBtStateOffset (take kSetStateSize state)
       ((replicate kBtStateReportSize 0)[0 := VDS_BT_STATE_REPORT_ID, 1 := push_bit 4 seq, 2 := 0x10]))"

definition build_bt_state_report :: "ds_output \<Rightarrow> bytes \<times> ds_output" where
  "build_bt_state_report d =
     (state_report_of (report_sequence d) (state_bytes d), next_report_sequence d)"

definition build_bt_rumble_report :: "u8 \<Rightarrow> u8 \<Rightarrow> ds_output \<Rightarrow> bytes \<times> ds_output" where
  "build_bt_rumble_report right_motor left_motor d =
     (let rumble_state = (state_bytes d)
            [kOutputFlag0Offset := state_bytes d ! kOutputFlag0Offset OR kOutputRumbleCompatibilityEnable,
             kOutputRumbleRightOffset := right_motor,
             kOutputRumbleLeftOffset := left_motor]
      in (state_report_of (report_sequence d) rumble_state, next_report_sequence d))"

definition build_bt_init_report :: "ds_output \<Rightarrow> bytes" where
  "build_bt_init_report d =
     sealed (write_at 4 (state_bytes d)
       ((replicate kBtInitReportSize 0)[0 := 0x32, 1 := 0x10, 2 := 0x10 OR push_bit 7 1,
          3 := of_nat kDsStateSize]))"

definition mic_power_save_control :: "bool \<Rightarrow> bool \<Rightarrow> ds_output \<Rightarrow> u8" where
  "mic_power_save_control active muted d =
     (if active \<and> \<not> muted then power_save_control d AND NOT kOutputPowerSaveMicMute
      else power_save_control d OR kOutputPowerSaveMicMute)"

definition build_bt_mic_state_report :: "bool \<Rightarrow> bool \<Rightarrow> ds_output \<Rightarrow> bytes \<times> ds_output" where
  "build_bt_mic_state_report active muted d =
     (let power_save = mic_power_save_control active muted d;
          flag0 = kOutputFlag0MicVolumeEnable OR kOutputFlag0AudioControlEnable;
          flag1 = kOutputFlag1MicMuteLedControlEnable OR kOutputFlag1PowerSaveControlEnable
            OR kOutputFlag1AudioControl2Enable;
          d = or_byte kOutputFlag0Offset flag0 d;
          d = or_byte kOutputFlag1Offset flag1 d;
          control = audio_control_with_output_path (audio_control d) (audio_output_path d);
          volume = (if active \<and> \<not> muted then mic_volume d else 0);
          led = (if muted then 1 else 0);
          d = put_byte kOutputMicVolumeOffset volume d;
          d = put_byte kOutputAudioControlOffset control d;
          d = put_byte kOutputAudioControl2Offset (audio_control2 d) d;
          d = put_byte kOutputMuteLedOffset led d;
          d = put_byte kOutputPowerSaveControlOffset power_save d
      in (sealed ((replicate kBtStateReportSize 0)
            [0 := VDS_BT_STATE_REPORT_ID, 1 := push_bit 4 (report_sequence d), 2 := 0x10,
             kBtStateOffset + kOutputFlag0Offset := flag0,
             kBtStateOffset + kOutputFlag1Offset := flag1,
             kBtStateOffset + kOutputMicVolumeOffset := volume,
             kBtStateOffset + kOutputAudioControlOffset := control,
             kBtStateOffset + kOutputMuteLedOffset := led,
             kBtStateOffset + kOutputPowerSaveControlOffset := power_save,
             kBtStateOffset + kOutputAudioControl2Offset := audio_control2 d]),
          next_report_sequence d))"

definition build_bt_mic_report :: "bool \<Rightarrow> ds_output \<Rightarrow> bytes \<times> ds_output" where
  "build_bt_mic_report active d =
     (sealed ((replicate kBtInitReportSize 0)
        [0 := kBtMicReportId, 1 := push_bit 4 (mic_sequence d), 2 := 0x91, 3 := 0x07,
         4 := (if active then kBtMicOpen else kBtMicClose),
         5 := kBtAudioBufferLength, 6 := kBtAudioBufferLength, 7 := kBtAudioBufferLength,
         8 := kBtAudioBufferLength, 9 := kBtAudioBufferLength,
         10 := mic_sequence d, 11 := 0x92, 12 := 0x40]),
      d\<lparr>mic_sequence := (mic_sequence d + 1) AND 0x0f\<rparr>)"

section \<open>Runs of operations\<close>

text \<open>
  Any sequence of the calls the daemon makes on one \<open>DsOutputState\<close>, with the reports it gets.
\<close>

datatype ds_call =
    Usb_output bytes
  | Authored authored_effects
  | Stream_active bool bool
  | Headset_mic bool
  | Mic_state bool bool
  | Mic_stream bool
  | Init_report
  | State_report
  | Rumble u8 u8

fun ds_exec :: "ds_call \<Rightarrow> ds_output \<Rightarrow> bytes option \<times> ds_output" where
  "ds_exec (Usb_output r) d = (None, snd (apply_usb_output_report r d))"
| "ds_exec (Authored e) d = (None, apply_authored_effects e d)"
| "ds_exec (Stream_active a h) d = (None, set_audio_out_stream_active a h d)"
| "ds_exec (Headset_mic p) d = (None, set_headset_mic_plugged p d)"
| "ds_exec (Mic_state a m) d = (let (r, d') = build_bt_mic_state_report a m d in (Some r, d'))"
| "ds_exec (Mic_stream a) d = (let (r, d') = build_bt_mic_report a d in (Some r, d'))"
| "ds_exec Init_report d = (Some (build_bt_init_report d), d)"
| "ds_exec State_report d = (let (r, d') = build_bt_state_report d in (Some r, d'))"
| "ds_exec (Rumble x y) d = (let (r, d') = build_bt_rumble_report x y d in (Some r, d'))"

fun ds_run :: "ds_call list \<Rightarrow> ds_output \<Rightarrow> bytes list \<times> ds_output" where
  "ds_run [] d = ([], d)"
| "ds_run (c # cs) d =
     (let (out, d') = ds_exec c d; (rs, d'') = ds_run cs d'
      in ((case out of None \<Rightarrow> rs | Some r \<Rightarrow> r # rs), d''))"

section \<open>Bytes after an operation\<close>

named_theorems byte_simps \<open>which byte of the state an operation leaves\<close>

lemma put_byte_length [simp]: "length (state_bytes (put_byte i v d)) = length (state_bytes d)"
  by (simp add: put_byte_def)

lemma or_byte_length [simp]: "length (state_bytes (or_byte i v d)) = length (state_bytes d)"
  by (simp add: or_byte_def)

lemma clear_byte_length [simp]: "length (state_bytes (clear_byte i v d)) = length (state_bytes d)"
  by (simp add: clear_byte_def)

lemma copy_bytes_length [simp]:
  "off + len \<le> length (state_bytes d) \<Longrightarrow> length (state_bytes (copy_bytes u off len d)) = length (state_bytes d)"
  by (simp add: copy_bytes_def copy_state_bytes_def)

lemma copy_trigger_length [simp]:
  "off + length t \<le> length (state_bytes d) \<Longrightarrow> length (state_bytes (copy_trigger t off d)) = length (state_bytes d)"
  by (simp add: copy_trigger_def)

lemma put_byte_nth [byte_simps]:
  "j < length (state_bytes d) \<Longrightarrow>
    state_bytes (put_byte i v d) ! j = (if i = j then v else state_bytes d ! j)"
  by (simp add: put_byte_def)

lemma or_byte_nth [byte_simps]:
  "j < length (state_bytes d) \<Longrightarrow>
    state_bytes (or_byte i m d) ! j = (if i = j then state_bytes d ! j OR m else state_bytes d ! j)"
  by (simp add: or_byte_def put_byte_nth)

lemma clear_byte_nth [byte_simps]:
  "j < length (state_bytes d) \<Longrightarrow>
    state_bytes (clear_byte i m d) ! j = (if i = j then state_bytes d ! j AND NOT m else state_bytes d ! j)"
  by (simp add: clear_byte_def put_byte_nth)

lemma copy_bytes_nth [byte_simps]:
  assumes "off + len \<le> length u" and "off + len \<le> length (state_bytes d)"
  shows "state_bytes (copy_bytes u off len d) ! j =
    (if off \<le> j \<and> j < off + len then u ! j else state_bytes d ! j)"
  using assms by (auto simp: copy_bytes_def copy_state_bytes_def nth_write_at)

lemma copy_trigger_nth [byte_simps]:
  "off + length t \<le> length (state_bytes d) \<Longrightarrow>
    state_bytes (copy_trigger t off d) ! j =
    (if off \<le> j \<and> j < off + length t then t ! (j - off) else state_bytes d ! j)"
  by (simp add: copy_trigger_def nth_write_at)

lemma byte_ops_fields [simp]:
  "report_sequence (put_byte i v d) = report_sequence d"
  "report_sequence (or_byte i v d) = report_sequence d"
  "report_sequence (clear_byte i v d) = report_sequence d"
  "report_sequence (copy_bytes u i n d) = report_sequence d"
  "report_sequence (copy_trigger u i d) = report_sequence d"
  "mic_sequence (put_byte i v d) = mic_sequence d"
  "mic_sequence (or_byte i v d) = mic_sequence d"
  "mic_sequence (clear_byte i v d) = mic_sequence d"
  "mic_sequence (copy_bytes u i n d) = mic_sequence d"
  "mic_sequence (copy_trigger u i d) = mic_sequence d"
  "emulate_light_brightness (put_byte i v d) = emulate_light_brightness d"
  "emulate_light_brightness (or_byte i v d) = emulate_light_brightness d"
  "emulate_light_brightness (clear_byte i v d) = emulate_light_brightness d"
  "emulate_light_brightness (copy_bytes u i n d) = emulate_light_brightness d"
  "emulate_light_brightness (copy_trigger u i d) = emulate_light_brightness d"
  "mic_volume (put_byte i v d) = mic_volume d"
  "mic_volume (or_byte i v d) = mic_volume d"
  "mic_volume (clear_byte i v d) = mic_volume d"
  "mic_volume (copy_bytes u i n d) = mic_volume d"
  "audio_control2 (put_byte i v d) = audio_control2 d"
  "audio_control2 (or_byte i v d) = audio_control2 d"
  "audio_control2 (clear_byte i v d) = audio_control2 d"
  "audio_control2 (copy_bytes u i n d) = audio_control2 d"
  "power_save_control (put_byte i v d) = power_save_control d"
  "power_save_control (or_byte i v d) = power_save_control d"
  "power_save_control (clear_byte i v d) = power_save_control d"
  "power_save_control (copy_bytes u i n d) = power_save_control d"
  "light_color (put_byte i v d) = light_color d"
  "light_color (or_byte i v d) = light_color d"
  "light_color (copy_bytes u i n d) = light_color d"
  by (simp_all add: put_byte_def or_byte_def clear_byte_def copy_bytes_def copy_trigger_def)

text \<open>One rule per section of an output report.\<close>

lemma apply_mic_select_nth [byte_simps]:
  "j < length (state_bytes d) \<Longrightarrow> j \<notin> {0, 7} \<Longrightarrow> state_bytes (apply_mic_select d) ! j = state_bytes d ! j"
  by (simp add: apply_mic_select_def Let_def byte_simps)

lemma apply_mic_select_length [simp]: "length (state_bytes (apply_mic_select d)) = length (state_bytes d)"
  by (simp add: apply_mic_select_def Let_def)

lemma update_lengths [simp]:
  assumes "length (state_bytes d) = kDsStateSize"
  shows "length (state_bytes (update_rumble u d)) = kDsStateSize"
    "length (state_bytes (update_headphone_volume u d)) = kDsStateSize"
    "length (state_bytes (update_speaker_volume u d)) = kDsStateSize"
    "length (state_bytes (update_mic_volume u d)) = kDsStateSize"
    "length (state_bytes (update_audio_control u d)) = kDsStateSize"
    "length (state_bytes (update_audio_control2 u d)) = kDsStateSize"
    "length (state_bytes (update_audio_mute u d)) = kDsStateSize"
    "length (state_bytes (update_speaker_path u d)) = kDsStateSize"
    "length (state_bytes (update_brightness u d)) = kDsStateSize"
    "length (state_bytes (update_led_color u d)) = kDsStateSize"
    "length (state_bytes (update_emulated_light u d)) = kDsStateSize"
    "off + len \<le> kDsStateSize \<Longrightarrow> length (state_bytes (update_section a off len u d)) = kDsStateSize"
  using assms
  by (simp_all add: update_rumble_def update_headphone_volume_def update_speaker_volume_def
      update_mic_volume_def update_audio_control_def update_audio_control2_def update_audio_mute_def
      update_speaker_path_def update_brightness_def update_led_color_def update_emulated_light_def
      update_section_def put_scaled_light_def Let_def split: prod.splits)

lemma apply_update_length [simp]:
  "length (state_bytes d) = kDsStateSize \<Longrightarrow> length (state_bytes (apply_update u d)) = kDsStateSize"
  by (simp add: apply_update_def Let_def)

lemma update_rumble_nth [byte_simps]:
  assumes "length (state_bytes d) = kDsStateSize" "length u = kSetStateSize" "j < kDsStateSize" "j \<notin> {0, 38}"
  shows "state_bytes (update_rumble u d) ! j =
    (if (use_rumble_not_haptics u \<or> enable_rumble_emulation u) \<and> j \<in> {2, 3} then u ! j else state_bytes d ! j)"
  using assms by (auto simp: update_rumble_def Let_def byte_simps)

lemma update_headphone_volume_nth [byte_simps]:
  assumes "length (state_bytes d) = kDsStateSize" "length u = kSetStateSize" "j < kDsStateSize" "j \<noteq> 0"
  shows "state_bytes (update_headphone_volume u d) ! j =
    (if allow_headphone_volume u \<and> j = 4 then u ! j else state_bytes d ! j)"
  using assms by (auto simp: update_headphone_volume_def Let_def byte_simps)

lemma update_speaker_volume_nth [byte_simps]:
  assumes "length (state_bytes d) = kDsStateSize" "length u = kSetStateSize" "j < kDsStateSize" "j \<noteq> 0"
  shows "state_bytes (update_speaker_volume u d) ! j =
    (if allow_speaker_volume u \<and> j = 5 then u ! j else state_bytes d ! j)"
  using assms by (auto simp: update_speaker_volume_def Let_def byte_simps)

lemma update_mic_volume_nth [byte_simps]:
  assumes "length (state_bytes d) = kDsStateSize" "j < kDsStateSize" "j \<noteq> 0"
  shows "state_bytes (update_mic_volume u d) ! j =
    (if allow_mic_volume u \<and> j = 6 then u ! j else state_bytes d ! j)"
  using assms by (auto simp: update_mic_volume_def Let_def byte_simps)

lemma update_audio_control_nth [byte_simps]:
  assumes "length (state_bytes d) = kDsStateSize" "j < kDsStateSize" "j \<noteq> 0" "allow_audio_control u \<longrightarrow> j \<noteq> 7"
  shows "state_bytes (update_audio_control u d) ! j = state_bytes d ! j"
  using assms by (auto simp: update_audio_control_def Let_def byte_simps)

lemma update_audio_control2_nth [byte_simps]:
  assumes "length (state_bytes d) = kDsStateSize" "length u = kSetStateSize" "j < kDsStateSize"
    "allow_audio_control2 u \<longrightarrow> j \<noteq> 1"
  shows "state_bytes (update_audio_control2 u d) ! j =
    (if allow_audio_control2 u \<and> j = 37 then u ! j else state_bytes d ! j)"
  using assms by (auto simp: update_audio_control2_def Let_def byte_simps)

lemma update_audio_mute_nth [byte_simps]:
  assumes "length (state_bytes d) = kDsStateSize" "j < kDsStateSize" "allow_audio_mute u \<longrightarrow> j \<noteq> 1"
  shows "state_bytes (update_audio_mute u d) ! j =
    (if allow_audio_mute u \<and> j = 9 then u ! j else state_bytes d ! j)"
  using assms by (auto simp: update_audio_mute_def Let_def byte_simps)

lemma update_speaker_path_nth [byte_simps]:
  assumes "length (state_bytes d) = kDsStateSize" "j < kDsStateSize" "j \<noteq> 0"
    "allow_speaker_volume u \<and> u ! 5 \<noteq> 0 \<longrightarrow> j \<notin> {1, 7, 37}"
  shows "state_bytes (update_speaker_path u d) ! j = state_bytes d ! j"
  using assms by (auto simp: update_speaker_path_def Let_def byte_simps)

lemma update_section_nth [byte_simps]:
  assumes "length (state_bytes d) = kDsStateSize" "length u = kSetStateSize" "off + len \<le> kSetStateSize"
  shows "state_bytes (update_section a off len u d) ! j =
    (if a \<and> off \<le> j \<and> j < off + len then u ! j else state_bytes d ! j)"
  using assms by (simp add: update_section_def byte_simps)

lemma update_brightness_nth [byte_simps]:
  assumes "length (state_bytes d) = kDsStateSize" "length u = kSetStateSize" "j < kDsStateSize"
  shows "state_bytes (update_brightness u d) ! j =
    (if allow_light_brightness_change u \<and> j = 42 then u ! j else state_bytes d ! j)"
  using assms by (auto simp: update_brightness_def byte_simps)

lemma update_led_color_nth [byte_simps]:
  assumes "length (state_bytes d) = kDsStateSize" "length u = kSetStateSize" "j < kDsStateSize"
  shows "state_bytes (update_led_color u d) ! j =
    (if allow_led_color u \<and> 44 \<le> j \<and> j < 47 then u ! j else state_bytes d ! j)"
  using assms by (auto simp: update_led_color_def byte_simps)

lemma update_emulated_light_nth [byte_simps]:
  assumes "length (state_bytes d) = kDsStateSize" "j < kDsStateSize"
    "allow_light_brightness_change u \<or> allow_led_color u \<longrightarrow> j \<notin> {44, 45, 46}"
  shows "state_bytes (update_emulated_light u d) ! j = state_bytes d ! j"
  using assms by (auto simp: update_emulated_light_def put_scaled_light_def byte_simps split: prod.splits)

lemmas update_nths = update_rumble_nth update_headphone_volume_nth update_speaker_volume_nth
  update_mic_volume_nth update_audio_control_nth update_audio_control2_nth update_audio_mute_nth
  update_speaker_path_nth update_section_nth update_brightness_nth update_led_color_nth
  update_emulated_light_nth

section \<open>Sections of a report are isolated from each other\<close>

text \<open>The bytes a report may change, by the bits it raises.\<close>

definition may_write :: "bytes \<Rightarrow> nat \<Rightarrow> bool" where
  "may_write u i \<longleftrightarrow>
     i \<in> {0, 38}
   \<or> i = 1 \<and> (allow_audio_control2 u \<or> allow_audio_mute u \<or> allow_speaker_volume u \<and> u ! 5 \<noteq> 0)
   \<or> i \<in> {2, 3} \<and> (use_rumble_not_haptics u \<or> enable_rumble_emulation u)
   \<or> i = 4 \<and> allow_headphone_volume u
   \<or> i = 5 \<and> allow_speaker_volume u
   \<or> i = 6 \<and> allow_mic_volume u
   \<or> i = 7 \<and> (allow_audio_control u \<or> allow_speaker_volume u \<and> u ! 5 \<noteq> 0)
   \<or> i = 8 \<and> allow_mute_light u
   \<or> i = 9 \<and> allow_audio_mute u
   \<or> 10 \<le> i \<and> i < 21 \<and> allow_right_trigger_ffb u
   \<or> 21 \<le> i \<and> i < 32 \<and> allow_left_trigger_ffb u
   \<or> i = 37 \<and> (allow_audio_control2 u \<or> allow_speaker_volume u \<and> u ! 5 \<noteq> 0)
   \<or> i = 41 \<and> allow_color_light_fade_animation u
   \<or> i = 42 \<and> allow_light_brightness_change u
   \<or> i = 43 \<and> allow_player_indicators u
   \<or> i \<in> {44, 45, 46} \<and> (allow_led_color u \<or> allow_light_brightness_change u)"

lemma frame_if: "x = (if c then v else y) \<Longrightarrow> (c \<Longrightarrow> w) \<Longrightarrow> \<not> w \<Longrightarrow> x = y"
  by auto

lemma update_frames:
  assumes "length (state_bytes d) = kDsStateSize" "length u = kSetStateSize" "i < kDsStateSize"
    and "\<not> may_write u i"
  shows "state_bytes (update_rumble u d) ! i = state_bytes d ! i"
    "state_bytes (update_headphone_volume u d) ! i = state_bytes d ! i"
    "state_bytes (update_speaker_volume u d) ! i = state_bytes d ! i"
    "state_bytes (update_mic_volume u d) ! i = state_bytes d ! i"
    "state_bytes (update_audio_control u d) ! i = state_bytes d ! i"
    "state_bytes (update_audio_control2 u d) ! i = state_bytes d ! i"
    "state_bytes (update_audio_mute u d) ! i = state_bytes d ! i"
    "state_bytes (update_speaker_path u d) ! i = state_bytes d ! i"
    "state_bytes (update_section (allow_mute_light u) 8 1 u d) ! i = state_bytes d ! i"
    "state_bytes (update_section (allow_right_trigger_ffb u) 10 11 u d) ! i = state_bytes d ! i"
    "state_bytes (update_section (allow_left_trigger_ffb u) 21 11 u d) ! i = state_bytes d ! i"
    "state_bytes (update_section (allow_color_light_fade_animation u) 41 1 u d) ! i = state_bytes d ! i"
    "state_bytes (update_brightness u d) ! i = state_bytes d ! i"
    "state_bytes (update_section (allow_player_indicators u) 43 1 u d) ! i = state_bytes d ! i"
    "state_bytes (update_led_color u d) ! i = state_bytes d ! i"
    "state_bytes (update_emulated_light u d) ! i = state_bytes d ! i"
proof -
  note sizes = assms(1-3)
  have i: "i \<notin> {0, 38}" "i \<noteq> 0"
    and 1: "i = 1 \<Longrightarrow> \<not> allow_audio_control2 u \<and> \<not> allow_audio_mute u \<and> \<not> (allow_speaker_volume u \<and> u ! 5 \<noteq> 0)"
    and 7: "i = 7 \<Longrightarrow> \<not> allow_audio_control u \<and> \<not> (allow_speaker_volume u \<and> u ! 5 \<noteq> 0)"
    and 37: "i = 37 \<Longrightarrow> \<not> (allow_speaker_volume u \<and> u ! 5 \<noteq> 0)"
    and led: "i \<in> {44, 45, 46} \<Longrightarrow> \<not> (allow_light_brightness_change u \<or> allow_led_color u)"
    using assms(4) by (simp_all add: may_write_def)
  show "state_bytes (update_rumble u d) ! i = state_bytes d ! i"
    by (rule frame_if [OF update_rumble_nth [OF sizes i(1)] _ assms(4)]) (simp add: may_write_def)
  show "state_bytes (update_headphone_volume u d) ! i = state_bytes d ! i"
    by (rule frame_if [OF update_headphone_volume_nth [OF sizes i(2)] _ assms(4)]) (simp add: may_write_def)
  show "state_bytes (update_speaker_volume u d) ! i = state_bytes d ! i"
    by (rule frame_if [OF update_speaker_volume_nth [OF sizes i(2)] _ assms(4)]) (simp add: may_write_def)
  show "state_bytes (update_mic_volume u d) ! i = state_bytes d ! i"
    by (rule frame_if [OF update_mic_volume_nth [OF sizes(1,3) i(2)] _ assms(4)]) (simp add: may_write_def)
  show "state_bytes (update_audio_control u d) ! i = state_bytes d ! i"
    using 7 by (intro update_audio_control_nth sizes i) blast
  show "state_bytes (update_audio_control2 u d) ! i = state_bytes d ! i"
    by (rule frame_if [OF update_audio_control2_nth [OF sizes] _ assms(4)])
      (use 1 in \<open>blast, simp add: may_write_def\<close>)
  show "state_bytes (update_audio_mute u d) ! i = state_bytes d ! i"
    by (rule frame_if [OF update_audio_mute_nth [OF sizes(1,3)] _ assms(4)])
      (use 1 in \<open>blast, simp add: may_write_def\<close>)
  show "state_bytes (update_speaker_path u d) ! i = state_bytes d ! i"
    using 1 7 37 by (intro update_speaker_path_nth sizes i) blast
  show "state_bytes (update_brightness u d) ! i = state_bytes d ! i"
    by (rule frame_if [OF update_brightness_nth [OF sizes] _ assms(4)]) (simp add: may_write_def)
  show "state_bytes (update_led_color u d) ! i = state_bytes d ! i"
    by (rule frame_if [OF update_led_color_nth [OF sizes] _ assms(4)]) (auto simp: may_write_def)
  show "state_bytes (update_emulated_light u d) ! i = state_bytes d ! i"
    using led by (intro update_emulated_light_nth sizes) blast
  note isolated = frame_if [OF update_section_nth [OF sizes(1,2)] _ assms(4)]
  show "state_bytes (update_section (allow_mute_light u) 8 1 u d) ! i = state_bytes d ! i"
    by (rule isolated) (auto simp: may_write_def)
  show "state_bytes (update_section (allow_right_trigger_ffb u) 10 11 u d) ! i = state_bytes d ! i"
    by (rule isolated) (auto simp: may_write_def)
  show "state_bytes (update_section (allow_left_trigger_ffb u) 21 11 u d) ! i = state_bytes d ! i"
    by (rule isolated) (auto simp: may_write_def)
  show "state_bytes (update_section (allow_color_light_fade_animation u) 41 1 u d) ! i = state_bytes d ! i"
    by (rule isolated) (auto simp: may_write_def)
  show "state_bytes (update_section (allow_player_indicators u) 43 1 u d) ! i = state_bytes d ! i"
    by (rule isolated) (auto simp: may_write_def)
qed

lemma apply_update_frame:
  assumes "length (state_bytes d) = kDsStateSize" "length u = kSetStateSize" "i < kDsStateSize"
    and "\<not> may_write u i"
  shows "state_bytes (apply_update u d) ! i = state_bytes d ! i"
  using assms by (simp add: apply_update_def Let_def update_frames del: One_nat_def)

text \<open>The sections that the report replaces as a whole: offset, length and the bits that allow it.\<close>

definition plain_sections :: "bytes \<Rightarrow> (nat \<times> nat \<times> bool) list" where
  "plain_sections u =
     [(2, 2, use_rumble_not_haptics u \<or> enable_rumble_emulation u),
      (4, 1, allow_headphone_volume u), (5, 1, allow_speaker_volume u), (6, 1, allow_mic_volume u),
      (8, 1, allow_mute_light u), (9, 1, allow_audio_mute u),
      (10, 11, allow_right_trigger_ffb u), (21, 11, allow_left_trigger_ffb u),
      (41, 1, allow_color_light_fade_animation u), (42, 1, allow_light_brightness_change u),
      (43, 1, allow_player_indicators u)]"

lemma plain_sections_disjoint:
  assumes "(off, len, a) \<in> set (plain_sections u)" "off \<le> i" "i < off + len"
  shows "i \<notin> {0, 1, 7, 37, 38, 44, 45, 46}" and "i < kSetStateSize" and "\<not> a \<Longrightarrow> \<not> may_write u i"
  using assms unfolding plain_sections_def list.set insert_iff empty_iff
  by (elim disjE; auto simp: may_write_def; fail)+

lemma apply_update_section:
  assumes "length (state_bytes d) = kDsStateSize" "length u = kSetStateSize"
    and sec: "(off, len, a) \<in> set (plain_sections u)" "off \<le> i" "i < off + len"
  shows "state_bytes (apply_update u d) ! i = (if a then u ! i else state_bytes d ! i)"
proof -
  note i = plain_sections_disjoint [OF sec]
  then have i': "i \<notin> {0, 38}" "i \<notin> {1, 7, 37}" "i \<notin> {44, 45, 46}" "i \<noteq> 0" "i \<noteq> 1" "i \<noteq> 7"
    "i < kDsStateSize" by auto
  have "a \<Longrightarrow> state_bytes (apply_update u d) ! i = u ! i"
    using sec i' assms(1,2) unfolding plain_sections_def list.set insert_iff empty_iff
    by (elim disjE FalseE; simp add: apply_update_def Let_def update_nths split del: if_split; auto)
  moreover have "\<not> a \<Longrightarrow> state_bytes (apply_update u d) ! i = state_bytes d ! i"
    using apply_update_frame [OF assms(1,2) i'(7)] i(3) by blast
  ultimately show ?thesis by simp
qed

section \<open>Enable bits are only ever raised by a report\<close>

definition keeps_flags :: "ds_output \<Rightarrow> ds_output \<Rightarrow> bool" where
  "keeps_flags d d' \<longleftrightarrow>
     (\<forall>k\<ge>2. bit (state_bytes d ! 0) k \<longrightarrow> bit (state_bytes d' ! 0) k)
   \<and> (\<forall>k. bit (state_bytes d ! 1) k \<longrightarrow> bit (state_bytes d' ! 1) k)"

lemma keeps_flags_refl [simp]: "keeps_flags d d"
  by (simp add: keeps_flags_def)

lemma keeps_flags_trans: "keeps_flags d d' \<Longrightarrow> keeps_flags d' d'' \<Longrightarrow> keeps_flags d d''"
  by (simp add: keeps_flags_def)

lemma keeps_flags_state:
  "state_bytes d = state_bytes e \<Longrightarrow> state_bytes d' = state_bytes e' \<Longrightarrow> keeps_flags d d' = keeps_flags e e'"
  by (simp add: keeps_flags_def)

lemma keeps_flags_put: "2 \<le> i \<Longrightarrow> keeps_flags d (put_byte i v d)"
  by (simp add: keeps_flags_def put_byte_def)

lemma keeps_flags_or: "length (state_bytes d) = kDsStateSize \<Longrightarrow> keeps_flags d (or_byte i m d)"
  by (auto simp: keeps_flags_def byte_simps bit_or_iff)

lemma keeps_flags_copy:
  "2 \<le> off \<Longrightarrow> off + len \<le> length u \<Longrightarrow> off + len \<le> length (state_bytes d) \<Longrightarrow>
    keeps_flags d (copy_bytes u off len d)"
  by (simp add: keeps_flags_def byte_simps)

lemma set_state_bit_other: "k \<noteq> b \<Longrightarrow> bit (set_state_bit byte b v) k = bit byte k"
  using bit_imp_le_length [of byte k]
  by (auto simp: set_state_bit_def Let_def bit_or_iff bit_and_iff bit_not_iff bit_exp_iff)

lemma flags_of_report:
  assumes "length (state_bytes d) = kDsStateSize" "length u = kSetStateSize"
  shows "keeps_flags d (update_rumble u d)" "keeps_flags d (update_headphone_volume u d)"
    "keeps_flags d (update_speaker_volume u d)" "keeps_flags d (update_mic_volume u d)"
    "keeps_flags d (update_audio_control u d)" "keeps_flags d (update_audio_control2 u d)"
    "keeps_flags d (update_audio_mute u d)" "keeps_flags d (update_speaker_path u d)"
    "keeps_flags d (update_brightness u d)" "keeps_flags d (update_led_color u d)"
    "keeps_flags d (update_emulated_light u d)"
    "2 \<le> off \<Longrightarrow> off + len \<le> kSetStateSize \<Longrightarrow> keeps_flags d (update_section a off len u d)"
  subgoal using assms by (auto simp: keeps_flags_def update_rumble_def Let_def byte_simps set_state_bit_other)
  subgoal using assms by (auto simp: keeps_flags_def update_headphone_volume_def Let_def byte_simps bit_or_iff)
  subgoal using assms by (auto simp: keeps_flags_def update_speaker_volume_def Let_def byte_simps bit_or_iff)
  subgoal using assms by (auto simp: keeps_flags_def update_mic_volume_def Let_def byte_simps bit_or_iff)
  subgoal using assms
    by (auto simp: keeps_flags_def update_audio_control_def apply_mic_select_def Let_def byte_simps bit_or_iff)
  subgoal using assms by (auto simp: keeps_flags_def update_audio_control2_def Let_def byte_simps bit_or_iff)
  subgoal using assms by (auto simp: keeps_flags_def update_audio_mute_def Let_def byte_simps bit_or_iff)
  subgoal using assms by (auto simp: keeps_flags_def update_speaker_path_def Let_def byte_simps bit_or_iff)
  subgoal using assms by (auto simp: keeps_flags_def update_brightness_def Let_def byte_simps)
  subgoal using assms by (auto simp: keeps_flags_def update_led_color_def Let_def byte_simps)
  subgoal using assms
    by (auto simp: keeps_flags_def update_emulated_light_def put_scaled_light_def byte_simps split: prod.splits)
  subgoal using assms by (auto simp: keeps_flags_def update_section_def byte_simps)
  done

lemma apply_update_flags:
  assumes "length (state_bytes d) = kDsStateSize" "length u = kSetStateSize"
  shows "keeps_flags d (apply_update u d)"
  unfolding apply_update_def Let_def
  by (intro keeps_flags_trans [OF _ flags_of_report(11)] keeps_flags_trans [OF _ flags_of_report(10)]
      keeps_flags_trans [OF _ flags_of_report(12)] keeps_flags_trans [OF _ flags_of_report(9)]
      keeps_flags_trans [OF _ flags_of_report(8)] keeps_flags_trans [OF _ flags_of_report(7)]
      keeps_flags_trans [OF _ flags_of_report(6)] keeps_flags_trans [OF _ flags_of_report(5)]
      keeps_flags_trans [OF _ flags_of_report(4)] keeps_flags_trans [OF _ flags_of_report(3)]
      keeps_flags_trans [OF _ flags_of_report(2)] flags_of_report(1))
    (use assms in simp_all)

section \<open>Well-formed states and reports\<close>

definition wf_effects :: "authored_effects \<Rightarrow> bool" where
  "wf_effects e \<longleftrightarrow> pred_option (\<lambda>t. length t = kTriggerFfbSize) (left_trigger e)
     \<and> pred_option (\<lambda>t. length t = kTriggerFfbSize) (right_trigger e)"

definition valid_report :: "bytes \<Rightarrow> bool" where
  "valid_report r \<longleftrightarrow> 4 \<le> length r \<and> le32 (drop (length r - 4) r) = crc32_spec (0xa2 # take (length r - 4) r)"

definition is_state_report :: "bytes \<Rightarrow> bool" where
  "is_state_report r \<longleftrightarrow> r ! 0 = VDS_BT_STATE_REPORT_ID"

definition wf_report :: "bytes \<Rightarrow> bool" where
  "wf_report r \<longleftrightarrow> valid_report r \<and> length r = (if is_state_report r then kBtStateReportSize else kBtInitReportSize)
     \<and> (is_state_report r \<or> r ! 0 = 0x32)"

lemma sealed_eq:
  assumes "4 \<le> length r"
  shows "sealed r = take (length r - 4) r @ crc_bytes (output_crc32 (take (length r - 4) r))"
proof -
  have "fill_output_report_checksum r
      = Inr (take (length r - 4) r @ crc_bytes (output_crc32 (take (length r - 4) r)))"
    using assms by (simp only: fill_output_Inr simp_thms)
  then show ?thesis by (simp only: sealed_def sum.case)
qed

lemma sealed_length [simp]: "4 \<le> length r \<Longrightarrow> length (sealed r) = length r"
  by (simp add: sealed_eq)

lemma sealed_nth:
  assumes "i + 4 < length r"
  shows "sealed r ! i = r ! i"
proof -
  have "i < length r - 4" using assms by simp
  with assms show ?thesis by (simp add: sealed_eq nth_append)
qed

lemma sealed_valid [simp]: "4 \<le> length r \<Longrightarrow> valid_report (sealed r)"
  by (simp add: valid_report_def sealed_eq output_crc32_spec)

lemma state_report_of:
  assumes "kSetStateSize \<le> length state"
  shows "length (state_report_of seq state) = kBtStateReportSize"
    and "valid_report (state_report_of seq state)"
    and "state_report_of seq state ! 0 = VDS_BT_STATE_REPORT_ID"
    and "state_report_of seq state ! 1 = push_bit 4 seq"
    and "take kSetStateSize (drop kBtStateOffset (state_report_of seq state)) = take kSetStateSize state"
proof -
  let ?r = "write_at kBtStateOffset (take kSetStateSize state)
    ((replicate kBtStateReportSize 0)[0 := VDS_BT_STATE_REPORT_ID, 1 := push_bit 4 seq, 2 := 0x10])"
  have len: "length ?r = kBtStateReportSize" using assms by simp
  show "length (state_report_of seq state) = kBtStateReportSize"
    "valid_report (state_report_of seq state)"
    using len by (simp_all add: state_report_of_def)
  show "state_report_of seq state ! 0 = VDS_BT_STATE_REPORT_ID"
    "state_report_of seq state ! 1 = push_bit 4 seq"
    using assms len by (simp_all add: state_report_of_def sealed_nth nth_write_at)
  show "take kSetStateSize (drop kBtStateOffset (state_report_of seq state)) = take kSetStateSize state"
    by (rule nth_equalityI)
      (use assms len in \<open>simp_all add: state_report_of_def sealed_nth nth_write_at\<close>)
qed

text \<open>
  A state after \<open>m\<close> state reports and \<open>n\<close> microphone reports: its size, and both sequence
  counters, which count modulo 16.
\<close>

definition wf_output :: "nat \<Rightarrow> nat \<Rightarrow> ds_output \<Rightarrow> bool" where
  "wf_output m n d \<longleftrightarrow> length (state_bytes d) = kDsStateSize
     \<and> report_sequence d = of_nat (m mod 16) \<and> mic_sequence d = of_nat (n mod 16)"

lemma next_sequence: "(of_nat (m mod 16) + 1) AND 0x0f = (of_nat (Suc m mod 16) :: u8)"
proof -
  have a: "x AND 0x0f = take_bit 4 x" for x :: u8
    by (simp add: take_bit_eq_mask mask_eq_exp_minus_1)
  have "(of_nat (m mod 16) + 1 :: u8) = of_nat (m mod 16 + 1)" by simp
  then have "(of_nat (m mod 16) + 1 :: u8) AND 0x0f = of_nat (take_bit 4 (m mod 16 + 1))"
    by (simp only: a take_bit_of_nat)
  also have "take_bit 4 (m mod 16 + 1) = Suc m mod 16"
    by (simp add: take_bit_eq_mod mod_Suc_eq)
  finally show ?thesis .
qed

lemma mic_select_sequences [simp]:
  "report_sequence (apply_mic_select d) = report_sequence d"
  "mic_sequence (apply_mic_select d) = mic_sequence d"
  by (simp_all add: apply_mic_select_def Let_def)

lemma update_sequences [simp]:
  "report_sequence (update_rumble u d) = report_sequence d"
  "mic_sequence (update_rumble u d) = mic_sequence d"
  "report_sequence (update_headphone_volume u d) = report_sequence d"
  "mic_sequence (update_headphone_volume u d) = mic_sequence d"
  "report_sequence (update_speaker_volume u d) = report_sequence d"
  "mic_sequence (update_speaker_volume u d) = mic_sequence d"
  "report_sequence (update_mic_volume u d) = report_sequence d"
  "mic_sequence (update_mic_volume u d) = mic_sequence d"
  "report_sequence (update_audio_control u d) = report_sequence d"
  "mic_sequence (update_audio_control u d) = mic_sequence d"
  "report_sequence (update_audio_control2 u d) = report_sequence d"
  "mic_sequence (update_audio_control2 u d) = mic_sequence d"
  "report_sequence (update_audio_mute u d) = report_sequence d"
  "mic_sequence (update_audio_mute u d) = mic_sequence d"
  "report_sequence (update_speaker_path u d) = report_sequence d"
  "mic_sequence (update_speaker_path u d) = mic_sequence d"
  "report_sequence (update_brightness u d) = report_sequence d"
  "mic_sequence (update_brightness u d) = mic_sequence d"
  "report_sequence (update_led_color u d) = report_sequence d"
  "mic_sequence (update_led_color u d) = mic_sequence d"
  "report_sequence (update_emulated_light u d) = report_sequence d"
  "mic_sequence (update_emulated_light u d) = mic_sequence d"
  "report_sequence (update_section a off len u d) = report_sequence d"
  "mic_sequence (update_section a off len u d) = mic_sequence d"
  by (simp_all add: update_rumble_def update_headphone_volume_def update_speaker_volume_def
      update_mic_volume_def update_audio_control_def update_audio_control2_def
      update_audio_mute_def update_speaker_path_def update_brightness_def
      update_led_color_def update_emulated_light_def update_section_def put_scaled_light_def Let_def
      split: prod.splits)

lemma apply_update_sequences [simp]:
  "report_sequence (apply_update u d) = report_sequence d"
  "mic_sequence (apply_update u d) = mic_sequence d"
  by (simp_all add: apply_update_def Let_def)

lemma initial_wf: "wf_output 0 0 initial_output"
  by (simp add: wf_output_def initial_output_def kInitialDsState_def kInitialSetStateData_def)

lemma usb_output_update_length: "usb_output_update r = Some u \<Longrightarrow> length u = kSetStateSize"
  by (auto simp: usb_output_update_def split: if_splits)

lemma authored_wf: "wf_output m n d \<Longrightarrow> wf_effects e \<Longrightarrow> wf_output m n (apply_authored_effects e d)"
  by (auto simp: wf_output_def wf_effects_def apply_authored_effects_def Let_def split: option.splits prod.splits)

lemma stream_wf: "wf_output m n d \<Longrightarrow> wf_output m n (set_audio_out_stream_active a h d)"
  by (simp add: wf_output_def set_audio_out_stream_active_def Let_def)

lemma headset_wf: "wf_output m n d \<Longrightarrow> wf_output m n (set_headset_mic_plugged p d)"
  by (simp add: wf_output_def set_headset_mic_plugged_def apply_mic_select_def Let_def)

lemma usb_wf: "wf_output m n d \<Longrightarrow> wf_output m n (snd (apply_usb_output_report r d))"
  by (auto simp: wf_output_def apply_usb_output_report_def split: option.splits)

lemma state_report_wf:
  assumes "wf_output m n d" "build_bt_state_report d = (r, d')"
  shows "wf_report r \<and> is_state_report r \<and> r ! 1 = push_bit 4 (of_nat (m mod 16)) \<and> wf_output (Suc m) n d'"
  using assms next_sequence [of m]
  by (auto simp: build_bt_state_report_def wf_output_def wf_report_def is_state_report_def
      state_report_of state_report_of(4) [unfolded One_nat_def] next_report_sequence_def)

lemma rumble_report_wf:
  assumes "wf_output m n d" "build_bt_rumble_report x y d = (r, d')"
  shows "wf_report r \<and> is_state_report r \<and> r ! 1 = push_bit 4 (of_nat (m mod 16)) \<and> wf_output (Suc m) n d'"
  using assms next_sequence [of m]
  by (auto simp: build_bt_rumble_report_def wf_output_def wf_report_def is_state_report_def
      state_report_of state_report_of(4) [unfolded One_nat_def] next_report_sequence_def Let_def)

lemma mic_state_report_wf:
  assumes "wf_output m n d" "build_bt_mic_state_report a q d = (r, d')"
  shows "wf_report r \<and> is_state_report r \<and> r ! 1 = push_bit 4 (of_nat (m mod 16)) \<and> wf_output (Suc m) n d'"
  using assms next_sequence [of m]
  by (auto simp: build_bt_mic_state_report_def wf_output_def wf_report_def is_state_report_def
      sealed_nth next_report_sequence_def Let_def)

lemma mic_report_wf:
  assumes "wf_output m n d" "build_bt_mic_report a d = (r, d')"
  shows "wf_report r \<and> \<not> is_state_report r \<and> wf_output m (Suc n) d'"
  using assms next_sequence [of n]
  by (auto simp: build_bt_mic_report_def wf_output_def wf_report_def is_state_report_def sealed_nth)

lemma init_report_wf:
  assumes "wf_output m n d"
  shows "wf_report (build_bt_init_report d) \<and> \<not> is_state_report (build_bt_init_report d)"
  using assms
  by (simp add: build_bt_init_report_def wf_output_def wf_report_def is_state_report_def sealed_nth nth_write_at)

definition wf_call :: "ds_call \<Rightarrow> bool" where
  "wf_call c \<longleftrightarrow> (case c of Authored e \<Rightarrow> wf_effects e | _ \<Rightarrow> True)"

lemma exec_wf:
  assumes "wf_output m n d" "wf_call c" "ds_exec c d = (out, d')"
  obtains (quiet) "out = None" "wf_output m n d'"
    | (state) r where "out = Some r" "wf_report r" "is_state_report r"
        "r ! 1 = push_bit 4 (of_nat (m mod 16))" "wf_output (Suc m) n d'"
    | (other) r n' where "out = Some r" "wf_report r" "\<not> is_state_report r" "wf_output m n' d'"
proof (cases c)
  case (Usb_output r)
  with assms usb_wf quiet show thesis by auto
next
  case (Authored e)
  with assms authored_wf quiet show thesis by (auto simp: wf_call_def)
next
  case (Stream_active a h)
  with assms stream_wf quiet show thesis by auto
next
  case (Headset_mic p)
  with assms headset_wf quiet show thesis by auto
next
  case (Mic_state a q)
  with assms(3) obtain r where "out = Some r" "build_bt_mic_state_report a q d = (r, d')"
    by (auto split: prod.splits)
  with mic_state_report_wf [OF assms(1)] state show thesis by blast
next
  case (Mic_stream a)
  with assms(3) obtain r where "out = Some r" "build_bt_mic_report a d = (r, d')"
    by (auto split: prod.splits)
  with mic_report_wf [OF assms(1)] other show thesis by blast
next
  case Init_report
  with assms init_report_wf [OF assms(1)] other show thesis by auto
next
  case State_report
  with assms(3) obtain r where "out = Some r" "build_bt_state_report d = (r, d')"
    by (auto split: prod.splits)
  with state_report_wf [OF assms(1)] state show thesis by blast
next
  case (Rumble x y)
  with assms(3) obtain r where "out = Some r" "build_bt_rumble_report x y d = (r, d')"
    by (auto split: prod.splits)
  with rumble_report_wf [OF assms(1)] state show thesis by blast
qed

lemma run_reports:
  assumes "wf_output m n d" "list_all wf_call cs" "ds_run cs d = (rs, d')"
  shows "list_all wf_report rs \<and>
    map (\<lambda>r. r ! 1) (filter is_state_report rs)
      = map (\<lambda>k. push_bit 4 (of_nat (k mod 16))) [m..<m + length (filter is_state_report rs)]
    \<and> (\<exists>n'. wf_output (m + length (filter is_state_report rs)) n' d')"
  using assms
proof (induction cs arbitrary: m n d rs)
  case (Cons c cs)
  obtain out e where step: "ds_exec c d = (out, e)" by (metis surj_pair)
  obtain rs' where rest: "ds_run cs e = (rs', d')" and rs: "rs = (case out of None \<Rightarrow> rs' | Some r \<Rightarrow> r # rs')"
    using Cons.prems(3) step by (auto split: prod.splits)
  from Cons.prems(2) have c: "wf_call c" and cs: "list_all wf_call cs" by simp_all
  from Cons.prems(1) c step show ?case
  proof (cases rule: exec_wf)
    case quiet
    with Cons.IH [OF quiet(2) cs rest] rs show ?thesis by simp
  next
    case (state r)
    have "[m..<Suc (m + length (filter is_state_report rs'))]
        = m # [Suc m..<Suc m + length (filter is_state_report rs')]"
      by (subst upt_conv_Cons) simp_all
    with Cons.IH [OF state(5) cs rest] state rs show ?thesis by simp
  next
    case (other r n')
    with Cons.IH [OF other(4) cs rest] rs show ?thesis by simp
  qed
qed auto

section \<open>Authored effects\<close>

lemma authored_lengths:
  "length (state_bytes d) = kDsStateSize \<Longrightarrow> wf_effects e \<Longrightarrow>
    length (state_bytes (apply_authored_effects e d)) = kDsStateSize"
  by (auto simp: wf_effects_def apply_authored_effects_def Let_def split: option.splits prod.splits)

lemma authored_right_trigger:
  assumes "length (state_bytes d) = kDsStateSize" "wf_effects e" "right_trigger e = Some t"
  shows "bit (state_bytes (apply_authored_effects e d) ! 0) 2"
    and "j < kTriggerFfbSize \<Longrightarrow> state_bytes (apply_authored_effects e d) ! (10 + j) = t ! j"
  using assms
  by (auto simp: wf_effects_def apply_authored_effects_def Let_def byte_simps bit_or_iff bit_numeral_rec
      split: option.splits prod.splits)

lemma authored_left_trigger:
  assumes "length (state_bytes d) = kDsStateSize" "wf_effects e" "left_trigger e = Some t"
  shows "bit (state_bytes (apply_authored_effects e d) ! 0) 3"
    and "j < kTriggerFfbSize \<Longrightarrow> state_bytes (apply_authored_effects e d) ! (21 + j) = t ! j"
  using assms
  by (auto simp: wf_effects_def apply_authored_effects_def Let_def byte_simps bit_or_iff bit_numeral_rec
      split: option.splits prod.splits)

lemma take_drop_nth_eq:
  "length t = n \<Longrightarrow> off + n \<le> length xs \<Longrightarrow> (\<And>j. j < n \<Longrightarrow> xs ! (off + j) = t ! j) \<Longrightarrow>
    take n (drop off xs) = t"
  by (rule nth_equalityI) simp_all

text \<open>A report that does not raise a trigger's bit leaves the trigger as it was.\<close>

lemma report_keeps_bytes:
  assumes "length (state_bytes d) = kDsStateSize" "usb_output_update r = Some u" "i < kDsStateSize" "\<not> may_write u i"
  shows "state_bytes (snd (apply_usb_output_report r d)) ! i = state_bytes d ! i"
  using assms usb_output_update_length [OF assms(2)]
  by (simp add: apply_usb_output_report_def apply_update_frame)

lemma report_keeps_flags:
  assumes "length (state_bytes d) = kDsStateSize" "usb_output_update r = Some u"
  shows "keeps_flags d (snd (apply_usb_output_report r d))"
  using assms usb_output_update_length [OF assms(2)]
  by (simp add: apply_usb_output_report_def apply_update_flags)

section \<open>Properties\<close>

text \<open>
  C30. Whatever sequence of calls the daemon makes on a fresh output state, every Bluetooth report
  it gets has the size of its kind and a valid checksum, and the state reports carry the sequence
  numbers 0, 1, 2, and so on modulo 16 without a gap, whichever function built them.
\<close>

theorem output_reports_wellformed:
  assumes "list_all wf_call calls" and "ds_run calls initial_output = (rs, d)"
  shows "list_all wf_report rs \<and>
    map (\<lambda>r. r ! 1) (filter is_state_report rs)
      = map (\<lambda>k. push_bit 4 (of_nat (k mod 16))) [0..<length (filter is_state_report rs)]"
  using run_reports [OF initial_wf assms] by simp

theorem output_reports_wellformed_witness:
  "list_all wf_report (fst (ds_run [State_report, Mic_stream True, Rumble 1 2] initial_output)) \<and>
    map (\<lambda>r. r ! 1) (filter is_state_report (fst (ds_run [State_report, Mic_stream True, Rumble 1 2] initial_output)))
      = map (\<lambda>k. push_bit 4 (of_nat (k mod 16)))
          [0..<length (filter is_state_report (fst (ds_run [State_report, Mic_stream True, Rumble 1 2] initial_output)))]"
  by (rule output_reports_wellformed [OF _ prod.collapse [symmetric]]) (simp add: wf_call_def)

text \<open>
  The sections of an output report are isolated: a byte of the controller state changes only
  when the report raises a bit that allows this byte, and each section that is copied as a whole
  is the report's when its bit is raised and the previous one otherwise.
\<close>

theorem usb_report_sections:
  assumes "length (state_bytes d) = kDsStateSize" and "usb_output_update report = Some u" and "i < kDsStateSize"
  shows "(\<not> may_write u i \<longrightarrow> state_bytes (snd (apply_usb_output_report report d)) ! i = state_bytes d ! i)
    \<and> (\<forall>off len a. (off, len, a) \<in> set (plain_sections u) \<and> off \<le> i \<and> i < off + len \<longrightarrow>
         state_bytes (snd (apply_usb_output_report report d)) ! i = (if a then u ! i else state_bytes d ! i))"
  using assms usb_output_update_length [OF assms(2)]
  by (auto simp: apply_usb_output_report_def apply_update_frame apply_update_section)

definition example_report :: bytes where
  "example_report = VDS_USB_OUTPUT_REPORT_ID # (replicate kSetStateSize 0)[0 := 0x08, 21 := 0x25]"

theorem usb_report_sections_witness:
  "state_bytes (snd (apply_usb_output_report example_report initial_output)) ! 21 = 0x25
    \<and> state_bytes (snd (apply_usb_output_report example_report initial_output)) ! 10 = 0"
proof -
  let ?u = "(replicate kSetStateSize 0)[0 := 0x08, 21 := 0x25] :: bytes"
  have u: "usb_output_update example_report = Some ?u"
    by (simp add: usb_output_update_def example_report_def)
  have len: "length (state_bytes initial_output) = kDsStateSize"
    using initial_wf by (simp add: wf_output_def)
  have "(21, 11, True) \<in> set (plain_sections ?u)" and "\<not> may_write ?u 10"
    by (simp_all add: plain_sections_def may_write_def bit_numeral_rec)
  moreover have "state_bytes initial_output ! 10 = 0"
    by (simp add: initial_output_def kInitialDsState_def kInitialSetStateData_def nth_append)
  ultimately show ?thesis
    using usb_report_sections [OF len u, of 21] usb_report_sections [OF len u, of 10] by fastforce
qed

text \<open>
  C39. Trigger effects the daemon authored survive the game: after a report that does not raise the
  bit of a trigger, the state still holds the authored effect of this trigger and still has its
  enable bit set.
\<close>

theorem authored_triggers_survive:
  assumes len: "length (state_bytes d) = kDsStateSize" and e: "wf_effects e"
    and u: "usb_output_update report = Some u"
  shows "(\<forall>t. right_trigger e = Some t \<and> \<not> allow_right_trigger_ffb u \<longrightarrow>
      take kTriggerFfbSize (drop kOutputRightTriggerFfbOffset
        (state_bytes (snd (apply_usb_output_report report (apply_authored_effects e d))))) = t
      \<and> bit (state_bytes (snd (apply_usb_output_report report (apply_authored_effects e d))) ! 0) 2)
    \<and> (\<forall>t. left_trigger e = Some t \<and> \<not> allow_left_trigger_ffb u \<longrightarrow>
      take kTriggerFfbSize (drop kOutputLeftTriggerFfbOffset
        (state_bytes (snd (apply_usb_output_report report (apply_authored_effects e d))))) = t
      \<and> bit (state_bytes (snd (apply_usb_output_report report (apply_authored_effects e d))) ! 0) 3)"
proof -
  let ?a = "apply_authored_effects e d"
  let ?d = "snd (apply_usb_output_report report ?a)"
  have la: "length (state_bytes ?a) = kDsStateSize" using len e by (rule authored_lengths)
  have ld: "length (state_bytes ?d) = kDsStateSize"
    using la u by (simp add: apply_usb_output_report_def)
  have flags: "bit (state_bytes ?a ! 0) k \<Longrightarrow> 2 \<le> k \<Longrightarrow> bit (state_bytes ?d ! 0) k" for k
    using report_keeps_flags [OF la u] by (simp add: keeps_flags_def)
  have kept: "\<not> may_write u i \<Longrightarrow> i < kDsStateSize \<Longrightarrow> state_bytes ?d ! i = state_bytes ?a ! i" for i
    using report_keeps_bytes [OF la u] by blast
  have right: "take kTriggerFfbSize (drop kOutputRightTriggerFfbOffset (state_bytes ?d)) = t
      \<and> bit (state_bytes ?d ! 0) 2"
    if t: "right_trigger e = Some t" and no: "\<not> allow_right_trigger_ffb u" for t
  proof
    have lt: "length t = kTriggerFfbSize" using e t by (simp add: wf_effects_def)
    have w: "\<not> may_write u (10 + j)" if "j < kTriggerFfbSize" for j
      using that no by (simp add: may_write_def)
    show "take kTriggerFfbSize (drop kOutputRightTriggerFfbOffset (state_bytes ?d)) = t"
      by (rule take_drop_nth_eq [OF lt]) (use ld kept [OF w] authored_right_trigger(2) [OF len e t] in simp_all)
    show "bit (state_bytes ?d ! 0) 2" using authored_right_trigger(1) [OF len e t] flags by simp
  qed
  have left: "take kTriggerFfbSize (drop kOutputLeftTriggerFfbOffset (state_bytes ?d)) = t
      \<and> bit (state_bytes ?d ! 0) 3"
    if t: "left_trigger e = Some t" and no: "\<not> allow_left_trigger_ffb u" for t
  proof
    have lt: "length t = kTriggerFfbSize" using e t by (simp add: wf_effects_def)
    have w: "\<not> may_write u (21 + j)" if "j < kTriggerFfbSize" for j
      using that no by (simp add: may_write_def)
    show "take kTriggerFfbSize (drop kOutputLeftTriggerFfbOffset (state_bytes ?d)) = t"
      by (rule take_drop_nth_eq [OF lt]) (use ld kept [OF w] authored_left_trigger(2) [OF len e t] in simp_all)
    show "bit (state_bytes ?d ! 0) 3" using authored_left_trigger(1) [OF len e t] flags by simp
  qed
  from right left show ?thesis by blast
qed

definition example_effects :: authored_effects where
  "example_effects = \<lparr>left_trigger = Some (0x21 # replicate 10 7), right_trigger = Some (0x25 # replicate 10 1),
     led_color = None, player_lights = None, mute_light = None, effects_force = False\<rparr>"

theorem authored_triggers_survive_witness:
  "take kTriggerFfbSize (drop kOutputRightTriggerFfbOffset (state_bytes (snd
     (apply_usb_output_report example_report (apply_authored_effects example_effects initial_output)))))
   = 0x25 # replicate 10 1"
proof -
  have u: "usb_output_update example_report = Some ((replicate kSetStateSize 0)[0 := 0x08, 21 := 0x25])"
    by (simp add: usb_output_update_def example_report_def)
  have len: "length (state_bytes initial_output) = kDsStateSize"
    using initial_wf by (simp add: wf_output_def)
  have e: "wf_effects example_effects" by (simp add: wf_effects_def example_effects_def)
  from authored_triggers_survive [OF len e u] show ?thesis
    by (simp add: example_effects_def bit_numeral_rec)
qed

text \<open>
  The microphone report and the kept state agree, and mute means mute: the report carries for
  each of its sections the byte the state holds afterwards, and unless the microphone is active
  and not muted, the volume is 0 and the microphone's power save bit is set.
\<close>

theorem mic_state_report_consistent:
  assumes "length (state_bytes d) = kDsStateSize" and "build_bt_mic_state_report active muted d = (r, d')"
  shows "list_all (\<lambda>i. r ! (kBtStateOffset + i) = state_bytes d' ! i) [6, 7, 8, 9, 37]
    \<and> (if active \<and> \<not> muted then r ! (kBtStateOffset + 6) = mic_volume d \<and> \<not> bit (r ! (kBtStateOffset + 9)) 4
        else r ! (kBtStateOffset + 6) = 0 \<and> bit (r ! (kBtStateOffset + 9)) 4)
    \<and> r ! (kBtStateOffset + 8) = (if muted then 1 else 0)"
  using assms
  by (auto simp: build_bt_mic_state_report_def Let_def sealed_nth next_report_sequence_def byte_simps
      mic_power_save_control_def bit_or_iff bit_and_iff bit_not_iff bit_numeral_rec)

theorem mic_state_report_consistent_witness:
  "fst (build_bt_mic_state_report True True initial_output) ! (kBtStateOffset + 8) = 1"
proof -
  have len: "length (state_bytes initial_output) = kDsStateSize"
    using initial_wf by (simp add: wf_output_def)
  from mic_state_report_consistent [OF len prod.collapse [symmetric], of True True,
      THEN conjunct2, THEN conjunct2]
  show ?thesis by (simp only: if_True)
qed

end
