(* ===== verification/Packets.thy ===== *)
theory Packets
  imports OutputState
begin

text \<open>
  The packets of \<open>src/src/vds_protocol.cc\<close> around the reports: the audio packet of
  \<open>HapticsPacketBuilder\<close>, the HIDP control packets, the classification of what the controller
  sends, and the frames exchanged with the kernel driver. Samples are bytes here, signed ones in
  two's complement.
\<close>

section \<open>The audio packet\<close>

abbreviation (input) kBtHapticsReportSize :: nat where "kBtHapticsReportSize \<equiv> 398"
abbreviation (input) VDS_BT_HAPTICS_REPORT_ID :: u8 where "VDS_BT_HAPTICS_REPORT_ID \<equiv> 0x36"
abbreviation (input) kHapticsSampleSize :: nat where "kHapticsSampleSize \<equiv> 64"
abbreviation (input) kSpeakerOpusSize :: nat where "kSpeakerOpusSize \<equiv> 200"
abbreviation (input) kSpeakerBlockOffset :: nat where "kSpeakerBlockOffset \<equiv> 142"
abbreviation (input) kSpeakerDataOffset :: nat where "kSpeakerDataOffset \<equiv> 144"
abbreviation (input) kSpeakerBlockControllerSpeaker :: u8 where "kSpeakerBlockControllerSpeaker \<equiv> 0x13"
abbreviation (input) kSpeakerBlockHeadphones :: u8 where "kSpeakerBlockHeadphones \<equiv> 0x16"
abbreviation (input) kBtAudioSectionsEnable :: u8 where "kBtAudioSectionsEnable \<equiv> 0xff"
abbreviation (input) kBtAudioSectionsDisableMic :: u8 where "kBtAudioSectionsDisableMic \<equiv> 0xfe"

record haptics_builder =
  hb_report_sequence :: u8
  hb_packet_sequence :: u8

definition fresh_builder :: haptics_builder where
  "fresh_builder = \<lparr>hb_report_sequence = 0, hb_packet_sequence = 0\<rparr>"

definition build_packet ::
    "bytes \<Rightarrow> bytes \<Rightarrow> bytes \<Rightarrow> bool \<Rightarrow> bool \<Rightarrow> haptics_builder \<Rightarrow> bytes \<times> haptics_builder" where
  "build_packet haptics speaker state audio_sections_enabled headset_plugged hb =
     (let packet = (replicate kBtHapticsReportSize 0)
            [0 := VDS_BT_HAPTICS_REPORT_ID, 1 := push_bit 4 (hb_report_sequence hb),
             2 := 0x11 OR push_bit 7 1, 3 := 7,
             4 := (if audio_sections_enabled then kBtAudioSectionsEnable else kBtAudioSectionsDisableMic),
             5 := kBtAudioBufferLength, 6 := kBtAudioBufferLength, 7 := kBtAudioBufferLength,
             8 := kBtAudioBufferLength, 9 := kBtAudioBufferLength,
             10 := hb_packet_sequence hb,
             11 := 0x10 OR push_bit 7 1, 12 := of_nat kDsStateSize];
          packet = write_at 13 state packet;
          packet = packet[76 := 0x12 OR push_bit 7 1, 77 := of_nat kHapticsSampleSize];
          packet = write_at 78 haptics packet;
          packet = packet
            [kSpeakerBlockOffset :=
               (if headset_plugged then kSpeakerBlockHeadphones else kSpeakerBlockControllerSpeaker)
               OR push_bit 7 1,
             kSpeakerBlockOffset + 1 := of_nat kSpeakerOpusSize];
          packet = write_at kSpeakerDataOffset speaker packet
      in (sealed packet,
          \<lparr>hb_report_sequence = (hb_report_sequence hb + 1) AND 0x0f,
           hb_packet_sequence = hb_packet_sequence hb + 1\<rparr>))"

section \<open>HIDP packets\<close>

abbreviation (input) kBtHidpInputPrefix :: u8 where "kBtHidpInputPrefix \<equiv> 0xa1"
abbreviation (input) kBtHidpOutputPrefix :: u8 where "kBtHidpOutputPrefix \<equiv> 0xa2"
abbreviation (input) kBtHidpFeaturePrefix :: u8 where "kBtHidpFeaturePrefix \<equiv> 0xa3"
abbreviation (input) kBtHidpGetFeaturePrefix :: u8 where "kBtHidpGetFeaturePrefix \<equiv> 0x43"
abbreviation (input) kBtHidpSetFeaturePrefix :: u8 where "kBtHidpSetFeaturePrefix \<equiv> 0x53"
abbreviation (input) kBtInputReportIdOffset :: nat where "kBtInputReportIdOffset \<equiv> 1"
abbreviation (input) kBtInputHeaderOffset :: nat where "kBtInputHeaderOffset \<equiv> 2"
abbreviation (input) kBtInputUsbPayloadOffset :: nat where "kBtInputUsbPayloadOffset \<equiv> 3"
abbreviation (input) VDS_USB_INPUT_PAYLOAD_SIZE :: nat where "VDS_USB_INPUT_PAYLOAD_SIZE \<equiv> 63"
abbreviation (input) VDS_USB_INPUT_REPORT_ID :: u8 where "VDS_USB_INPUT_REPORT_ID \<equiv> 0x01"
abbreviation (input) kBtInputMinimumSize :: nat where
  "kBtInputMinimumSize \<equiv> kBtInputUsbPayloadOffset + VDS_USB_INPUT_PAYLOAD_SIZE"
abbreviation (input) kBtMicOpusOffset :: nat where "kBtMicOpusOffset \<equiv> 4"
abbreviation (input) kMicOpusSize :: nat where "kMicOpusSize \<equiv> 71"
abbreviation (input) kBtInputPayloadTypeMask :: u8 where "kBtInputPayloadTypeMask \<equiv> 0x0f"
abbreviation (input) kBtInputPayloadTypeControl :: u8 where "kBtInputPayloadTypeControl \<equiv> 0x01"
abbreviation (input) kBtInputPayloadTypeAudio :: u8 where "kBtInputPayloadTypeAudio \<equiv> 0x02"

definition hidp_output_packet :: "bytes \<Rightarrow> bytes" where
  "hidp_output_packet report = kBtHidpOutputPrefix # report"

definition feature_get_packet :: "u8 \<Rightarrow> bytes" where
  "feature_get_packet report_id = [kBtHidpGetFeaturePrefix, report_id]"

text \<open>A report too short for a checksum is sent as it is.\<close>

definition feature_set_packet :: "bytes \<Rightarrow> bytes result" where
  "feature_set_packet report =
     (if report = [] then Inr []
      else bind_result (if length report \<ge> 4 then fill_feature_report_checksum report else Inr report)
        (\<lambda>checked. Inr (kBtHidpSetFeaturePrefix # checked)))"

datatype bt_input_payload_type = Unknown_payload | Control_payload | Audio_payload

definition payload_type_of :: "bytes \<Rightarrow> bt_input_payload_type" where
  "payload_type_of packet =
     (if length packet \<le> kBtInputHeaderOffset \<or> packet ! 0 \<noteq> kBtHidpInputPrefix
         \<or> packet ! kBtInputReportIdOffset \<noteq> VDS_BT_STATE_REPORT_ID
      then Unknown_payload
      else if packet ! kBtInputHeaderOffset AND kBtInputPayloadTypeMask = kBtInputPayloadTypeControl
      then Control_payload
      else if packet ! kBtInputHeaderOffset AND kBtInputPayloadTypeMask = kBtInputPayloadTypeAudio
      then Audio_payload
      else Unknown_payload)"

definition bt_input_to_usb_input :: "bytes \<Rightarrow> bytes option" where
  "bt_input_to_usb_input packet =
     (if length packet < kBtInputMinimumSize \<or> packet ! 0 \<noteq> kBtHidpInputPrefix
         \<or> packet ! kBtInputReportIdOffset \<noteq> VDS_BT_STATE_REPORT_ID
         \<or> payload_type_of packet \<noteq> Control_payload
      then None
      else Some (VDS_USB_INPUT_REPORT_ID
             # take (kBtInputMinimumSize - kBtInputUsbPayloadOffset) (drop kBtInputUsbPayloadOffset packet)))"

definition bt_mic_opus_payload :: "bytes \<Rightarrow> bytes option" where
  "bt_mic_opus_payload packet =
     (if payload_type_of packet \<noteq> Audio_payload \<or> length packet < kBtMicOpusOffset + kMicOpusSize
      then None else Some (take kMicOpusSize (drop kBtMicOpusOffset packet)))"

definition bt_feature_to_usb_feature_reply :: "bytes \<Rightarrow> bytes option" where
  "bt_feature_to_usb_feature_reply packet =
     (if length packet < 2 \<or> packet ! 0 \<noteq> kBtHidpFeaturePrefix then None else Some (drop 1 packet))"

section \<open>Frames of the driver\<close>

abbreviation (input) VDS_FRAME_MAX_PAYLOAD :: nat where "VDS_FRAME_MAX_PAYLOAD \<equiv> 4096"

text \<open>
  \<open>struct vds_frame_header\<close>: a 16-bit type, 16-bit flags, a 32-bit length and a 64-bit sequence
  number, in little-endian order without padding.
\<close>

record frame_header =
  fh_type :: u16
  fh_flags :: u16
  fh_length :: u32
  fh_sequence :: "64 word"

definition le_bytes :: "nat \<Rightarrow> 'a :: len word \<Rightarrow> bytes" where
  "le_bytes n w = map (\<lambda>i. ucast (drop_bit (8 * i) w)) [0..<n]"

definition le_value :: "bytes \<Rightarrow> 'a :: len word" where
  "le_value bs = foldr (\<lambda>b acc. ucast b OR push_bit 8 acc) bs 0"

definition header_bytes :: "frame_header \<Rightarrow> bytes" where
  "header_bytes h = le_bytes 2 (fh_type h) @ le_bytes 2 (fh_flags h) @ le_bytes 4 (fh_length h)
     @ le_bytes 8 (fh_sequence h)"

definition frame_bytes :: "u16 \<Rightarrow> bytes \<Rightarrow> bytes result" where
  "frame_bytes type payload =
     (if length payload > VDS_FRAME_MAX_PAYLOAD
      then Inl (Invalid_argument ''frame payload exceeds VDS_FRAME_MAX_PAYLOAD'')
      else (let header = \<lparr>fh_type = type, fh_flags = 0, fh_length = of_nat (length payload), fh_sequence = 0\<rparr>
            in Inr (header_bytes header @ payload)))"

definition frame_type_name :: "u16 \<Rightarrow> string" where
  "frame_type_name type =
     (if type = 0 then ''STATUS'' else if type = 1 then ''USB_HID_OUT''
      else if type = 2 then ''USB_FEATURE_GET'' else if type = 3 then ''USB_FEATURE_SET''
      else if type = 4 then ''USB_AUDIO_OUT'' else if type = 10 then ''USB_AUDIO_IN''
      else if type = 5 then ''USB_HID_IN'' else if type = 6 then ''USB_FEATURE_REPLY''
      else if type = 7 then ''USB_INTERFACE'' else if type = 8 then ''BT_CONTROL_PACKET''
      else if type = 9 then ''BT_INTERRUPT_PACKET'' else ''UNKNOWN'')"

section \<open>Reading the frame header\<close>

definition read_header :: "bytes \<Rightarrow> frame_header option" where
  "read_header bs =
     (if length bs < 16 then None
      else Some \<lparr>fh_type = le_value (take 2 bs), fh_flags = le_value (take 2 (drop 2 bs)),
        fh_length = le_value (take 4 (drop 4 bs)), fh_sequence = le_value (take 8 (drop 8 bs))\<rparr>)"

lemma length_le_bytes [simp]: "length (le_bytes n w) = n"
  by (simp add: le_bytes_def)

lemma le_bytes_Suc: "le_bytes (Suc n) w = ucast w # le_bytes n (drop_bit 8 w)"
  by (simp add: le_bytes_def map_upt_Suc algebra_simps del: upt_Suc)

lemma le_value_bits:
  assumes "m < LENGTH('a)"
  shows "bit (le_value (le_bytes n w) :: 'a :: len word) m \<longleftrightarrow> m < 8 * n \<and> bit (w :: 'a word) m"
  using assms
proof (induction n arbitrary: w m)
  case 0
  then show ?case by (simp add: le_value_def le_bytes_def)
next
  case (Suc n)
  have step: "(le_value (le_bytes (Suc n) w) :: 'a word)
      = ucast (ucast w :: u8) OR push_bit 8 (le_value (le_bytes n (drop_bit 8 w)))"
    by (simp add: le_bytes_Suc le_value_def)
  show ?case
  proof (cases "m < 8")
    case True
    with Suc.prems show ?thesis by (simp add: step bit_or_iff bit_push_bit_iff bit_ucast_iff)
  next
    case False
    then have m: "8 + (m - 8) = m" by simp
    have "m - 8 < LENGTH('a)" using Suc.prems by simp
    from Suc.IH [OF this, of "drop_bit 8 w"] False Suc.prems m show ?thesis
      by (auto simp: step bit_or_iff bit_push_bit_iff bit_ucast_iff bit_drop_bit_eq)
  qed
qed

lemma le_value_le_bytes:
  "LENGTH('a) \<le> 8 * n \<Longrightarrow> le_value (le_bytes n w) = (w :: 'a :: len word)"
  by (rule bit_eqI) (use le_value_bits [of _ n w] in \<open>auto dest: bit_imp_le_length\<close>)

lemma read_header_bytes: "read_header (header_bytes h @ rest) = Some h"
  by (simp add: read_header_def header_bytes_def le_value_le_bytes)

section \<open>Reading the audio packet\<close>

lemma take_drop_write_at:
  "off + length xs \<le> length buf \<Longrightarrow> take (length xs) (drop off (write_at off xs buf)) = xs"
  by (simp add: write_at_def)

lemma build_packet_parts:
  assumes "length haptics = kHapticsSampleSize" "length speaker = kSpeakerOpusSize" "length state = kDsStateSize"
    and "build_packet haptics speaker state a h hb = (r, hb')"
  shows "length r = kBtHapticsReportSize" "valid_report r" "r ! 0 = VDS_BT_HAPTICS_REPORT_ID"
    "r ! 1 = push_bit 4 (hb_report_sequence hb)" "r ! 10 = hb_packet_sequence hb"
    "take kDsStateSize (drop 13 r) = state" "take kHapticsSampleSize (drop 78 r) = haptics"
    "take kSpeakerOpusSize (drop kSpeakerDataOffset r) = speaker"
    "r ! 12 = 63" "r ! 77 = 64" "r ! 143 = 200"
    "r ! 142 = (if h then 0x96 else 0x93)"
  using assms(4)
  by (auto simp: build_packet_def Let_def assms(1-3) sealed_nth nth_write_at nth_list_update
      intro!: nth_equalityI)

text \<open>A builder that is used for one packet after the other.\<close>

record audio_block =
  ab_haptics :: bytes
  ab_speaker :: bytes
  ab_state :: bytes
  ab_sections :: bool
  ab_headset :: bool

definition wf_block :: "audio_block \<Rightarrow> bool" where
  "wf_block b \<longleftrightarrow> length (ab_haptics b) = kHapticsSampleSize \<and> length (ab_speaker b) = kSpeakerOpusSize
     \<and> length (ab_state b) = kDsStateSize"

fun build_packets :: "audio_block list \<Rightarrow> haptics_builder \<Rightarrow> bytes list" where
  "build_packets [] hb = []"
| "build_packets (b # bs) hb =
     (let (r, hb') = build_packet (ab_haptics b) (ab_speaker b) (ab_state b) (ab_sections b) (ab_headset b) hb
      in r # build_packets bs hb')"

lemma build_packet_builder:
  "snd (build_packet haptics speaker state a h \<lparr>hb_report_sequence = of_nat (m mod 16), hb_packet_sequence = of_nat m\<rparr>)
    = \<lparr>hb_report_sequence = of_nat (Suc m mod 16), hb_packet_sequence = of_nat (Suc m)\<rparr>"
  using next_sequence [of m] by (simp add: build_packet_def Let_def add.commute)

lemma build_packets_nth:
  assumes "list_all wf_block bs" "i < length bs"
  shows "build_packets bs \<lparr>hb_report_sequence = of_nat (m mod 16), hb_packet_sequence = of_nat m\<rparr> ! i
    = fst (build_packet (ab_haptics (bs ! i)) (ab_speaker (bs ! i)) (ab_state (bs ! i)) (ab_sections (bs ! i))
        (ab_headset (bs ! i)) \<lparr>hb_report_sequence = of_nat ((m + i) mod 16), hb_packet_sequence = of_nat (m + i)\<rparr>)"
  using assms
proof (induction bs arbitrary: m i)
  case (Cons b bs)
  let ?hb = "\<lparr>hb_report_sequence = of_nat (m mod 16), hb_packet_sequence = of_nat m\<rparr> :: haptics_builder"
  have "build_packets (b # bs) ?hb
      = fst (build_packet (ab_haptics b) (ab_speaker b) (ab_state b) (ab_sections b) (ab_headset b) ?hb)
        # build_packets bs \<lparr>hb_report_sequence = of_nat (Suc m mod 16), hb_packet_sequence = of_nat (Suc m)\<rparr>"
    using build_packet_builder [of "ab_haptics b" "ab_speaker b" "ab_state b" "ab_sections b" "ab_headset b" m]
    by (auto simp: Let_def split: prod.splits)
  then show ?case
  proof (cases i)
    case (Suc j)
    with Cons.prems have "list_all wf_block bs" "j < length bs" by simp_all
    from Cons.IH [OF this, of "Suc m"] Suc \<open>build_packets (b # bs) ?hb = _\<close> show ?thesis by simp
  qed simp
qed simp

section \<open>Properties\<close>

text \<open>
  The audio packets of one stream: every packet is a report of the right size with a valid
  checksum that carries its haptics, speaker and state blocks unchanged at the offsets of their
  headers, and the two sequence fields of the packets count from 0 modulo 16 and modulo 256.
\<close>

theorem audio_packet_stream:
  assumes "list_all wf_block blocks" and "i < length blocks"
  shows "let r = build_packets blocks fresh_builder ! i in
    length r = kBtHapticsReportSize \<and> valid_report r
    \<and> take kDsStateSize (drop 13 r) = ab_state (blocks ! i)
    \<and> take kHapticsSampleSize (drop 78 r) = ab_haptics (blocks ! i)
    \<and> take kSpeakerOpusSize (drop kSpeakerDataOffset r) = ab_speaker (blocks ! i)
    \<and> r ! 12 = 63 \<and> r ! 77 = 64 \<and> r ! 143 = 200
    \<and> r ! 142 = (if ab_headset (blocks ! i) then 0x96 else 0x93)
    \<and> r ! 1 = push_bit 4 (of_nat (i mod 16)) \<and> r ! 10 = of_nat i"
proof -
  let ?hb = "\<lparr>hb_report_sequence = of_nat (i mod 16), hb_packet_sequence = of_nat i\<rparr> :: haptics_builder"
  let ?b = "blocks ! i"
  have r: "build_packets blocks fresh_builder ! i
      = fst (build_packet (ab_haptics ?b) (ab_speaker ?b) (ab_state ?b) (ab_sections ?b) (ab_headset ?b) ?hb)"
    using build_packets_nth [OF assms, of 0] by (simp add: fresh_builder_def)
  have "wf_block ?b" using assms by (simp add: list_all_length)
  then have len: "length (ab_haptics ?b) = kHapticsSampleSize" "length (ab_speaker ?b) = kSpeakerOpusSize"
    "length (ab_state ?b) = kDsStateSize"
    by (simp_all add: wf_block_def)
  note parts = build_packet_parts [OF len, of "ab_sections ?b" "ab_headset ?b" ?hb _ _,
      OF prod.collapse [symmetric]]
  show ?thesis unfolding Let_def r using parts by simp
qed

definition example_block :: audio_block where
  "example_block = \<lparr>ab_haptics = replicate 64 1, ab_speaker = replicate 200 2, ab_state = replicate 63 3,
     ab_sections = True, ab_headset = False\<rparr>"

theorem audio_packet_stream_witness:
  "let r = build_packets [example_block, example_block] fresh_builder ! 1 in
    take kHapticsSampleSize (drop 78 r) = replicate 64 1 \<and> r ! 10 = of_nat 1"
proof -
  have "list_all wf_block [example_block, example_block]" by (simp add: wf_block_def example_block_def)
  from audio_packet_stream [OF this, of 1] show ?thesis by (simp add: Let_def example_block_def)
qed

text \<open>
  Input of the controller is classified and forwarded exactly: a control packet with a full
  payload becomes the USB report with id 1 and this payload, an audio packet yields its encoded
  block and no input, and no packet is both.
\<close>

theorem bt_input_dispatch:
  assumes "length payload = VDS_USB_INPUT_PAYLOAD_SIZE" and "length opus = kMicOpusSize"
  shows "bt_input_to_usb_input ([kBtHidpInputPrefix, 0x31, push_bit 4 n OR kBtInputPayloadTypeControl] @ payload @ rest)
      = Some (VDS_USB_INPUT_REPORT_ID # payload)
    \<and> bt_mic_opus_payload ([kBtHidpInputPrefix, 0x31, push_bit 4 n OR kBtInputPayloadTypeAudio, x] @ opus @ rest)
      = Some opus
    \<and> (bt_input_to_usb_input packet = None \<or> bt_mic_opus_payload packet = None)"
proof -
  have m: "(push_bit 4 n OR t) AND 0x0f = t" if "t = 1 \<or> t = (2 :: u8)" for t
  proof -
    have f: "(0x0f :: u8) = mask 4" by (simp add: mask_eq_exp_minus_1)
    have "bit t k \<Longrightarrow> k < 4" for k using that by (auto simp: bit_2_iff bit_1_iff)
    then show ?thesis unfolding f
      by (intro bit_eqI) (auto simp: bit_and_iff bit_or_iff bit_push_bit_iff bit_mask_iff)
  qed
  show ?thesis
    using assms
    by (simp add: bt_input_to_usb_input_def bt_mic_opus_payload_def payload_type_of_def m)
qed

theorem bt_input_dispatch_witness:
  "bt_input_to_usb_input ([kBtHidpInputPrefix, 0x31, push_bit 4 5 OR kBtInputPayloadTypeControl] @ replicate 63 9 @ [0])
     = Some (VDS_USB_INPUT_REPORT_ID # replicate 63 9)"
  by (rule bt_input_dispatch [of _ "replicate 71 0", THEN conjunct1]) simp_all

text \<open>
  A frame for the driver is read back: the header of \<open>frame_bytes\<close> holds the type and the
  length of the payload, the payload follows it, and a payload above the limit is refused.
\<close>

theorem frame_bytes_roundtrip:
  "case frame_bytes type payload of
     Inl _ \<Rightarrow> length payload > VDS_FRAME_MAX_PAYLOAD
   | Inr bs \<Rightarrow> length payload \<le> VDS_FRAME_MAX_PAYLOAD \<and> drop 16 bs = payload
       \<and> (\<exists>h. read_header bs = Some h \<and> fh_type h = type \<and> unat (fh_length h) = length payload)"
proof (cases "length payload > VDS_FRAME_MAX_PAYLOAD")
  case False
  then have "take_bit 32 (length payload) = length payload" by (simp add: take_bit_eq_mod)
  with False show ?thesis
    by (simp add: frame_bytes_def Let_def read_header_bytes unat_of_nat take_bit_eq_mod)
      (simp add: header_bytes_def)
qed (simp add: frame_bytes_def)

text \<open>
  A feature report that is set carries a checksum over its HIDP header: the packet is the
  header byte, the report's bytes, and as last four bytes the CRC-32 of everything before them.
\<close>

theorem feature_set_checksum:
  assumes "4 \<le> length report"
  shows "\<exists>p. feature_set_packet report = Inr p \<and> length p = Suc (length report) \<and> hd p = kBtHidpSetFeaturePrefix
    \<and> take (length report - 4) (tl p) = take (length report - 4) report
    \<and> le32 (drop (length p - 4) p) = crc32_spec (take (length p - 4) p)"
proof -
  let ?n = "length report - 4"
  have fill: "fill_feature_report_checksum report
      = Inr (take ?n report @ crc_bytes (feature_crc32 (take ?n report)))"
    using assms by (simp only: fill_feature_Inr simp_thms)
  then have p: "feature_set_packet report
      = Inr (0x53 # take ?n report @ crc_bytes (feature_crc32 (take ?n report)))"
    using assms by (auto simp: feature_set_packet_def)
  moreover have "length report - 3 = Suc ?n" using assms by simp
  ultimately show ?thesis using assms by (simp add: feature_crc32_spec Suc_diff_le)
qed

theorem feature_set_checksum_witness:
  "\<exists>p. feature_set_packet [0x80, 1, 0, 0, 0, 0] = Inr p \<and> length p = Suc (length [0x80, 1, 0, 0, 0, 0 :: u8])
    \<and> hd p = kBtHidpSetFeaturePrefix
    \<and> take (length [0x80, 1, 0, 0, 0, 0 :: u8] - 4) (tl p) = take (length [0x80, 1, 0, 0, 0, 0 :: u8] - 4) [0x80, 1, 0, 0, 0, 0]
    \<and> le32 (drop (length p - 4) p) = crc32_spec (take (length p - 4) p)"
  by (rule feature_set_checksum) simp

end
