(* ===== verification/Trigger.thy ===== *)
theory Trigger
  imports OutputState Config
begin

text \<open>
  The adaptive trigger effects of \<open>src/src/vds_protocol.cc\<close>: the builders with their parameter
  ranges, and the text syntax \<open>parse_trigger_effect_spec\<close> reads. An effect is the 11 bytes the
  firmware takes; \<open>effect\<close> below fills the rest of the array with zeros.
\<close>

section \<open>Builders\<close>

definition effect :: "bytes \<Rightarrow> bytes" where
  "effect bs = bs @ replicate (kTriggerFfbSize - length bs) 0"

definition require_effect_range :: "bool \<Rightarrow> string \<Rightarrow> unit result" where
  "require_effect_range valid msg =
     require_that valid (Invalid_argument (''trigger effect parameter out of range: '' @ msg))"

definition trigger_effect_off :: bytes where
  "trigger_effect_off = effect [0x05]"

definition low_byte :: "u32 \<Rightarrow> u8" where
  "low_byte x = ucast (x AND 0xff)"

text \<open>The loop of the feedback and vibration effects over the zones from \<open>position\<close> on.\<close>

fun zones_loop :: "u32 \<Rightarrow> nat list \<Rightarrow> u32 \<Rightarrow> u16 \<Rightarrow> u32 \<times> u16" where
  "zones_loop force [] force_zones active_zones = (force_zones, active_zones)"
| "zones_loop force (zone # zs) force_zones active_zones =
     zones_loop force zs (force_zones OR push_bit (3 * zone) force)
       (active_zones OR push_bit zone 1)"

definition zone_effect :: "u8 \<Rightarrow> nat \<Rightarrow> nat \<Rightarrow> bytes" where
  "zone_effect mode position strength =
     (let force = of_nat (strength - 1) AND 0x07;
          (force_zones, active_zones) = zones_loop force [position..<10] 0 0
      in [mode, ucast (active_zones AND 0xff), ucast (drop_bit 8 active_zones AND 0xff),
          low_byte force_zones, low_byte (drop_bit 8 force_zones),
          low_byte (drop_bit 16 force_zones), low_byte (drop_bit 24 force_zones)])"

definition trigger_effect_feedback :: "nat \<Rightarrow> nat \<Rightarrow> bytes result" where
  "trigger_effect_feedback position strength =
     bind_result (require_effect_range (position \<le> 9) ''feedback position 0-9'') (\<lambda>_.
     bind_result (require_effect_range (strength \<ge> 1 \<and> strength \<le> 8) ''feedback strength 1-8'') (\<lambda>_.
       Inr (effect (zone_effect 0x21 position strength))))"

text \<open>The two zones of the other effects, as a 16-bit set.\<close>

definition zone_pair :: "nat \<Rightarrow> nat \<Rightarrow> u16" where
  "zone_pair start stop = push_bit start 1 OR push_bit stop 1"

definition zone_pair_bytes :: "nat \<Rightarrow> nat \<Rightarrow> bytes" where
  "zone_pair_bytes start stop =
     [ucast (zone_pair start stop AND 0xff), ucast (drop_bit 8 (zone_pair start stop) AND 0xff)]"

definition trigger_effect_weapon :: "nat \<Rightarrow> nat \<Rightarrow> nat \<Rightarrow> bytes result" where
  "trigger_effect_weapon start stop strength =
     bind_result (require_effect_range (start \<ge> 2 \<and> start \<le> 7) ''weapon start 2-7'') (\<lambda>_.
     bind_result (require_effect_range (stop > start \<and> stop \<le> 8) ''weapon end start+1-8'') (\<lambda>_.
     bind_result (require_effect_range (strength \<ge> 1 \<and> strength \<le> 8) ''weapon strength 1-8'') (\<lambda>_.
       Inr (effect (0x25 # zone_pair_bytes start stop @ [of_nat (strength - 1)])))))"

definition trigger_effect_vibration :: "nat \<Rightarrow> nat \<Rightarrow> nat \<Rightarrow> bytes result" where
  "trigger_effect_vibration position amplitude frequency =
     bind_result (require_effect_range (position \<le> 9) ''vibration position 0-9'') (\<lambda>_.
     bind_result (require_effect_range (amplitude \<ge> 1 \<and> amplitude \<le> 8) ''vibration amplitude 1-8'') (\<lambda>_.
     bind_result (require_effect_range (frequency \<ge> 1 \<and> frequency \<le> 255) ''vibration frequency 1-255'') (\<lambda>_.
       Inr (effect (zone_effect 0x26 position amplitude @ [0, 0, of_nat frequency])))))"

definition trigger_effect_bow :: "nat \<Rightarrow> nat \<Rightarrow> nat \<Rightarrow> nat \<Rightarrow> bytes result" where
  "trigger_effect_bow start stop strength snap_force =
     bind_result (require_effect_range (start \<le> 8) ''bow start 0-8'') (\<lambda>_.
     bind_result (require_effect_range (stop > start \<and> stop \<le> 8) ''bow end start+1-8'') (\<lambda>_.
     bind_result (require_effect_range (strength \<ge> 1 \<and> strength \<le> 8) ''bow strength 1-8'') (\<lambda>_.
     bind_result (require_effect_range (snap_force \<ge> 1 \<and> snap_force \<le> 8) ''bow snap force 1-8'') (\<lambda>_.
       (let force_pair = (of_nat (strength - 1) AND 0x07) OR push_bit 3 (of_nat (snap_force - 1) AND 0x07)
        in Inr (effect (0x22 # zone_pair_bytes start stop
             @ [low_byte force_pair, low_byte (drop_bit 8 force_pair)])))))))"

definition trigger_effect_galloping :: "nat \<Rightarrow> nat \<Rightarrow> nat \<Rightarrow> nat \<Rightarrow> nat \<Rightarrow> bytes result" where
  "trigger_effect_galloping start stop first_foot second_foot frequency =
     bind_result (require_effect_range (start \<le> 8) ''galloping start 0-8'') (\<lambda>_.
     bind_result (require_effect_range (stop > start \<and> stop \<le> 9) ''galloping end start+1-9'') (\<lambda>_.
     bind_result (require_effect_range (first_foot \<le> 6) ''galloping first foot 0-6'') (\<lambda>_.
     bind_result (require_effect_range (second_foot > first_foot \<and> second_foot \<le> 7)
       ''galloping second foot first+1-7'') (\<lambda>_.
     bind_result (require_effect_range (frequency \<ge> 1 \<and> frequency \<le> 255) ''galloping frequency 1-255'') (\<lambda>_.
       (let ratio = (of_nat second_foot AND 0x07) OR push_bit 3 (of_nat first_foot AND 0x07)
        in Inr (effect (0x23 # zone_pair_bytes start stop @ [ratio, of_nat frequency]))))))))"

definition trigger_effect_machine ::
    "nat \<Rightarrow> nat \<Rightarrow> nat \<Rightarrow> nat \<Rightarrow> nat \<Rightarrow> nat \<Rightarrow> bytes result" where
  "trigger_effect_machine start stop strength_a strength_b frequency period =
     bind_result (require_effect_range (start \<le> 8) ''machine start 0-8'') (\<lambda>_.
     bind_result (require_effect_range (stop > start \<and> stop \<le> 9) ''machine end start+1-9'') (\<lambda>_.
     bind_result (require_effect_range (strength_a \<le> 7) ''machine strength A 0-7'') (\<lambda>_.
     bind_result (require_effect_range (strength_b \<le> 7) ''machine strength B 0-7'') (\<lambda>_.
     bind_result (require_effect_range (frequency \<ge> 1 \<and> frequency \<le> 255) ''machine frequency 1-255'') (\<lambda>_.
     bind_result (require_effect_range (period \<le> 255) ''machine period 0-255'') (\<lambda>_.
       (let strength_pair = (of_nat strength_a AND 0x07) OR push_bit 3 (of_nat strength_b AND 0x07)
        in Inr (effect (0x27 # zone_pair_bytes start stop
             @ [strength_pair, of_nat frequency, of_nat period])))))))))"

section \<open>The text syntax\<close>

text \<open>
  \<open>parse_effect_number\<close> stops reading at 100000: a longer number is already out of every range.
\<close>

fun parse_effect_digits :: "string \<Rightarrow> nat \<Rightarrow> string \<Rightarrow> nat result" where
  "parse_effect_digits spec v [] = Inr v"
| "parse_effect_digits spec v (c # cs) =
     (if \<not> isdigit c then Inl (Invalid_argument (''invalid trigger effect number in spec: '' @ spec))
      else (let v' = v * 10 + (code_of c - 48)
            in if v' > 100000 then Inr v' else parse_effect_digits spec v' cs))"

definition parse_effect_number :: "string \<Rightarrow> string \<Rightarrow> nat result" where
  "parse_effect_number s spec =
     (if s = [] then Inl (Invalid_argument (''empty trigger effect number in spec: '' @ spec))
      else parse_effect_digits spec 0 s)"

function parse_effect_params :: "string \<Rightarrow> string \<Rightarrow> nat list result" where
  "parse_effect_params params spec =
     (if params = [] then Inr []
      else (case split_first (CHR '','') params of
        (number, rest) \<Rightarrow>
          bind_result (parse_effect_number number spec) (\<lambda>v.
            case rest of None \<Rightarrow> Inr [v]
            | Some r \<Rightarrow> bind_result (parse_effect_params r spec) (\<lambda>vs. Inr (v # vs)))))"
  by pat_completeness auto
termination
  by (relation "measure (\<lambda>(p, _). length p)") (auto dest: split_first_length [OF sym])

declare parse_effect_params.simps [simp del]

fun raw_nibble :: "char \<Rightarrow> u8 result" where
  "raw_nibble c =
     (if isdigit c then Inr (of_nat (code_of c - 48))
      else if 97 \<le> code_of c \<and> code_of c \<le> 102 then Inr (of_nat (code_of c - 97 + 10))
      else if 65 \<le> code_of c \<and> code_of c \<le> 70 then Inr (of_nat (code_of c - 65 + 10))
      else Inl (Invalid_argument ''invalid hex digit in raw trigger effect''))"

text \<open>The loop over the 11 pairs; the two operands of \<open>|\<close> throw the same exception, so their order does not matter.\<close>

fun parse_raw_bytes :: "string \<Rightarrow> bytes result" where
  "parse_raw_bytes (h # l # cs) =
     bind_result (raw_nibble h) (\<lambda>x. bind_result (raw_nibble l) (\<lambda>y.
     bind_result (parse_raw_bytes cs) (\<lambda>bs. Inr ((push_bit 4 x OR y) # bs))))"
| "parse_raw_bytes _ = Inr []"

definition require_count :: "string \<Rightarrow> nat list \<Rightarrow> nat \<Rightarrow> unit result" where
  "require_count name params n =
     require_that (length params = n)
       (Invalid_argument (''trigger effect '' @ [CHR 0x27] @ name @ [CHR 0x27] @ '' expects '' @ to_string n @ '' parameters''))"

definition build_named_effect :: "string \<Rightarrow> nat list \<Rightarrow> string \<Rightarrow> bytes result" where
  "build_named_effect name p spec =
     (if name = ''feedback'' then
        bind_result (require_count name p 2) (\<lambda>_. trigger_effect_feedback (p ! 0) (p ! 1))
      else if name = ''weapon'' then
        bind_result (require_count name p 3) (\<lambda>_. trigger_effect_weapon (p ! 0) (p ! 1) (p ! 2))
      else if name = ''vibration'' then
        bind_result (require_count name p 3) (\<lambda>_. trigger_effect_vibration (p ! 0) (p ! 1) (p ! 2))
      else if name = ''bow'' then
        bind_result (require_count name p 4) (\<lambda>_. trigger_effect_bow (p ! 0) (p ! 1) (p ! 2) (p ! 3))
      else if name = ''galloping'' then
        bind_result (require_count name p 5) (\<lambda>_.
          trigger_effect_galloping (p ! 0) (p ! 1) (p ! 2) (p ! 3) (p ! 4))
      else if name = ''machine'' then
        bind_result (require_count name p 6) (\<lambda>_.
          trigger_effect_machine (p ! 0) (p ! 1) (p ! 2) (p ! 3) (p ! 4) (p ! 5))
      else Inl (Invalid_argument (''unknown trigger effect: '' @ spec)))"

definition parse_trigger_effect_spec :: "string \<Rightarrow> bytes result" where
  "parse_trigger_effect_spec spec =
     (case split_first (CHR '':'') spec of
       (name, rest) \<Rightarrow>
         (let params_text = (case rest of None \<Rightarrow> [] | Some r \<Rightarrow> r) in
          if name = ''off'' then Inr trigger_effect_off
          else if name = ''raw'' then
            (if length params_text \<noteq> kTriggerFfbSize * 2
             then Inl (Invalid_argument ''raw trigger effect must be exactly 22 hex digits'')
             else parse_raw_bytes params_text)
          else bind_result (parse_effect_params params_text spec) (\<lambda>p. build_named_effect name p spec)))"

section \<open>Zones\<close>

lemma zones_loop_bits:
  assumes "zones_loop force zs fz az = (fz', az')" and "\<forall>n\<ge>3. \<not> bit force n" and "\<forall>z\<in>set zs. z < 10"
  shows "n < 16 \<Longrightarrow> bit az' n \<longleftrightarrow> bit az n \<or> n \<in> set zs"
    and "n < 32 \<Longrightarrow> bit fz' n \<longleftrightarrow> bit fz n \<or> n div 3 \<in> set zs \<and> bit force (n mod 3)"
  using assms
proof (induction zs arbitrary: fz az)
  case (Cons z zs)
  {
    case 1
    with Cons.IH(1) [of "fz OR push_bit (3 * z) force" "az OR push_bit z 1"] show ?case
      by (auto simp: bit_or_iff bit_exp_iff)
  next
    case 2
    have "bit (push_bit (3 * z) force) n \<longleftrightarrow> n div 3 = z \<and> bit force (n mod 3)"
    proof (cases "3 * z \<le> n")
      case True
      show ?thesis
      proof (cases "n - 3 * z < 3")
        case True
        with \<open>3 * z \<le> n\<close> have "n div 3 = z" and "n mod 3 = n - 3 * z"
          by (simp_all add: div_nat_eqI) (metis True \<open>3 * z \<le> n\<close> add_diff_inverse_nat mod_less mod_mult_self2 not_less add.commute)
        with \<open>3 * z \<le> n\<close> 2 show ?thesis by (simp add: bit_push_bit_iff)
      next
        case False
        with \<open>3 * z \<le> n\<close> 2 have "n div 3 \<noteq> z" and "\<not> bit force (n - 3 * z)" by auto
        then show ?thesis by (simp add: bit_push_bit_iff)
      qed
    next
      case False
      then have "n div 3 \<noteq> z" by auto
      with False show ?thesis by (simp add: bit_push_bit_iff)
    qed
    with 2 Cons.IH(2) [of "fz OR push_bit (3 * z) force" "az OR push_bit z 1"] show ?case
      by (auto simp: bit_or_iff)
  }
qed auto

text \<open>
  What the firmware reads from a zone effect: whether a zone is active, and its 3-bit force.
\<close>

definition zone_active :: "bytes \<Rightarrow> nat \<Rightarrow> bool" where
  "zone_active e z = bit (le32 (take 2 (drop 1 e))) z"

definition zone_force :: "bytes \<Rightarrow> nat \<Rightarrow> nat" where
  "zone_force e z = unat (take_bit 3 (drop_bit (3 * z) (le32 (take 4 (drop 3 e)))))"

lemma low_bytes_crc: "[low_byte x, low_byte (drop_bit 8 x), low_byte (drop_bit 16 x), low_byte (drop_bit 24 x)] = crc_bytes x"
  by (simp add: low_byte_def crc_bytes_def)

lemma bit_and_ff_16: "bit ((x :: u16) AND 0xff) n \<longleftrightarrow> n < 8 \<and> bit x n"
proof -
  have m: "x AND 0xff = take_bit 8 x" by (simp add: take_bit_eq_mask mask_eq_exp_minus_1)
  show ?thesis unfolding m by (simp add: bit_take_bit_iff)
qed

lemma le32_two:
  assumes "n < 16"
  shows "bit (le32 [ucast (a AND 0xff), ucast (drop_bit 8 a AND 0xff)]) n \<longleftrightarrow> bit (a :: u16) n"
proof -
  consider "n < 8" | "8 \<le> n" "n - 8 < 8" using assms by linarith
  then show ?thesis
    by cases (auto simp: bit_xor_iff bit_push_bit_iff bit_ucast_iff bit_and_ff_16 bit_drop_bit_eq)
qed

lemma and_7: "x AND 0x07 = take_bit 3 (x :: u32)"
  by (simp add: take_bit_eq_mask mask_eq_exp_minus_1)

lemma small_force:
  assumes "s \<ge> 1" "s \<le> 8"
  shows "unat (take_bit 3 (of_nat (s - 1) :: u32)) = s - 1"
proof -
  have "s - 1 < 8" using assms by simp
  then have "take_bit 3 (s - 1) = s - 1" by (simp add: take_bit_eq_mod)
  moreover have "unat (of_nat (s - 1) :: u32) = s - 1"
    using \<open>s - 1 < 8\<close> by (simp add: unat_of_nat)
  ultimately show ?thesis by (simp only: unsigned_take_bit_eq)
qed

lemma zone_effect_zones:
  assumes p: "position \<le> 9" and s: "strength \<ge> 1" "strength \<le> 8"
    and e: "e = effect (zone_effect mode position strength @ rest)" and len: "length rest \<le> 4"
  shows "length e = kTriggerFfbSize" and "e ! 0 = mode"
    and "z < 10 \<Longrightarrow> zone_active e z \<longleftrightarrow> position \<le> z"
    and "z < 10 \<Longrightarrow> zone_force e z = (if position \<le> z then strength - 1 else 0)"
proof -
  define force :: u32 where "force = of_nat (strength - 1) AND 0x07"
  obtain fz az where loop: "zones_loop force [position..<10] 0 0 = (fz, az)" by (metis surj_pair)
  have f: "force = take_bit 3 (of_nat (strength - 1))" by (simp only: force_def and_7)
  have "\<forall>n\<ge>3. \<not> bit force n" by (simp add: f bit_take_bit_iff)
  note bits = zones_loop_bits [OF loop this]
  have ze: "zone_effect mode position strength
      = [mode, ucast (az AND 0xff), ucast (drop_bit 8 az AND 0xff)] @ crc_bytes fz"
    using loop unfolding force_def by (simp add: zone_effect_def Let_def low_bytes_crc)
  show "length e = kTriggerFfbSize" and "e ! 0 = mode"
    using len by (simp_all add: e ze effect_def)
  have a: "take 2 (drop 1 e) = [ucast (az AND 0xff), ucast (drop_bit 8 az AND 0xff)]"
    and b: "take 4 (drop 3 e) = crc_bytes fz"
    by (simp_all add: e ze effect_def)
  show "zone_active e z \<longleftrightarrow> position \<le> z" if "z < 10"
    using that bits(1) [of z] by (simp only: zone_active_def a le32_two) simp
  have "take_bit 3 (drop_bit (3 * z) fz) = (if position \<le> z then force else 0)" if z: "z < 10"
  proof (rule bit_eqI)
    fix n
    have "bit (take_bit 3 (drop_bit (3 * z) fz)) n \<longleftrightarrow> n < 3 \<and> bit fz (3 * z + n)"
      by (simp add: bit_take_bit_iff bit_drop_bit_eq add.commute)
    also have "\<dots> \<longleftrightarrow> n < 3 \<and> position \<le> z \<and> bit force n"
    proof (cases "n < 3")
      case True
      then have "(3 * z + n) div 3 = z" and "(3 * z + n) mod 3 = n" and "3 * z + n < 32"
        using z by simp_all
      with bits(2) [of "3 * z + n"] True z show ?thesis by simp
    qed simp
    also have "\<dots> \<longleftrightarrow> bit (if position \<le> z then force else 0) n"
      by (simp add: f bit_take_bit_iff)
    finally show "bit (take_bit 3 (drop_bit (3 * z) fz)) n = bit (if position \<le> z then force else 0) n" .
  qed
  then show "zone_force e z = (if position \<le> z then strength - 1 else 0)" if "z < 10"
    using that small_force [OF s] by (simp add: zone_force_def b f)
qed

section \<open>Ranges\<close>

lemma require_effect_range_Inr [simp]: "require_effect_range ok m = Inr u \<longleftrightarrow> ok"
  by (simp add: require_effect_range_def require_that_def)

lemma zone_effect_length: "length (zone_effect mode p s) = 7"
  by (simp add: zone_effect_def Let_def split: prod.splits)

lemma zone_pair_bytes_length [simp]: "length (zone_pair_bytes a b) = 2"
  by (simp add: zone_pair_bytes_def)

lemma length_effect [simp]: "length bs \<le> kTriggerFfbSize \<Longrightarrow> length (effect bs) = kTriggerFfbSize"
  by (simp add: effect_def)

lemmas trigger_builders = trigger_effect_feedback_def trigger_effect_weapon_def
  trigger_effect_vibration_def trigger_effect_bow_def trigger_effect_galloping_def
  trigger_effect_machine_def

lemma trigger_lengths:
  "trigger_effect_feedback a b = Inr e \<Longrightarrow> length e = kTriggerFfbSize"
  "trigger_effect_weapon a b c = Inr e \<Longrightarrow> length e = kTriggerFfbSize"
  "trigger_effect_vibration a b c = Inr e \<Longrightarrow> length e = kTriggerFfbSize"
  "trigger_effect_bow a b c d = Inr e \<Longrightarrow> length e = kTriggerFfbSize"
  "trigger_effect_galloping a b c d g = Inr e \<Longrightarrow> length e = kTriggerFfbSize"
  "trigger_effect_machine a b c d g h = Inr e \<Longrightarrow> length e = kTriggerFfbSize"
  by (auto simp: trigger_builders bind_result_Inr zone_effect_length Let_def)

lemma parse_raw_length:
  "parse_raw_bytes cs = Inr bs \<Longrightarrow> length bs = length cs div 2"
  by (induction cs arbitrary: bs rule: parse_raw_bytes.induct) (auto simp: result_simps simp del: raw_nibble.simps)

lemma build_named_length: "build_named_effect name p spec = Inr e \<Longrightarrow> length e = kTriggerFfbSize"
  by (auto simp: build_named_effect_def result_simps trigger_lengths split: if_splits)

lemma parse_spec_length: "parse_trigger_effect_spec spec = Inr e \<Longrightarrow> length e = kTriggerFfbSize"
  by (auto simp: parse_trigger_effect_spec_def result_simps Let_def trigger_effect_off_def
      parse_raw_length build_named_length split: if_splits prod.splits)

section \<open>Reading specifications back\<close>

lemma parse_effect_digits_ok:
  "list_all isdigit s \<Longrightarrow> dec_value v s \<le> 100000 \<Longrightarrow> parse_effect_digits spec v s = Inr (dec_value v s)"
proof (induction s arbitrary: v)
  case (Cons c cs)
  have "v * 10 + (code_of c - 48) \<le> dec_value (v * 10 + (code_of c - 48)) cs" by (rule dec_value_ge)
  with Cons show ?case by (simp add: Let_def)
qed simp

lemma parse_effect_number_to_string:
  "n \<le> 100000 \<Longrightarrow> parse_effect_number (to_string n) spec = Inr n"
  using to_string_digits [of _ n]
  by (simp add: parse_effect_number_def parse_effect_digits_ok list_all_iff)

lemma parse_effect_params_join:
  "\<forall>x\<in>set xs. x \<le> 100000 \<Longrightarrow> parse_effect_params (join_unsigned xs) spec = Inr xs"
proof (induction xs rule: join_unsigned.induct)
  case 1
  then show ?case by (simp add: parse_effect_params.simps)
next
  case (2 x)
  then show ?case
    by (simp add: parse_effect_params.simps [of "to_string x"] split_first_None comma_not_digit
        parse_effect_number_to_string)
next
  case (3 x y xs)
  then show ?case
    by (subst parse_effect_params.simps) (simp add: split_first_Some comma_not_digit parse_effect_number_to_string)
qed

lemma hex_digit_nibble: "n < 16 \<Longrightarrow> raw_nibble (kHexDigits ! n) = Inr (of_nat n)"
proof -
  assume "n < 16"
  then have "n \<in> set [0..<16]" by simp
  moreover have "\<forall>n\<in>set [0..<16]. raw_nibble (kHexDigits ! n) = Inr (of_nat n)" by code_simp
  ultimately show ?thesis by blast
qed

lemma byte_of_nibbles: "push_bit 4 (drop_bit 4 b) AND 240 OR b AND 15 = (b :: u8)"
proof (rule bit_eqI)
  fix n
  have m: "b AND 15 = take_bit 4 b" by (simp add: take_bit_eq_mask mask_eq_exp_minus_1)
  have k: "(240 :: u8) = push_bit 4 (mask 4)" by (simp add: mask_eq_exp_minus_1)
  show "bit (push_bit 4 (drop_bit 4 b) AND 240 OR b AND 15) n = bit b n"
    using bit_imp_le_length [of b n]
    unfolding m k
    by (auto simp: bit_or_iff bit_and_iff bit_mask_iff bit_push_bit_iff bit_take_bit_iff bit_drop_bit_eq)
qed

lemma parse_raw_hex:
  "parse_raw_bytes (hex_bytes_loop (CHR 0x00) k bs acc)
    = bind_result (parse_raw_bytes acc) (\<lambda>xs. Inr (xs @ bs))" if "even (length acc)"
  using that
proof (induction bs arbitrary: k acc)
  case (Cons b bs)
  have app: "parse_raw_bytes (acc @ [h, l]) = bind_result (parse_raw_bytes acc) (\<lambda>xs.
      bind_result (raw_nibble h) (\<lambda>x. bind_result (raw_nibble l) (\<lambda>y. Inr (xs @ [push_bit 4 x OR y]))))"
    if "even (length acc)" for acc h l
    using that
    by (induction acc rule: parse_raw_bytes.induct)
      (auto simp: bind_result_def split: sum.splits simp del: raw_nibble.simps)
  have "even (length (append_byte_hex_digits acc b))" using Cons.prems by (simp add: append_byte_hex_digits_def)
  from Cons.IH [OF this] app [OF Cons.prems] show ?case
    by (simp add: append_byte_hex_digits_def hex_digit_nibble byte_of_nibbles bind_result_assoc
        del: raw_nibble.simps)
qed simp

lemma hex_bytes_raw: "length bs \<le> n \<Longrightarrow> parse_raw_bytes (hex_bytes bs n (CHR 0x00) False) = Inr bs"
  using parse_raw_hex [of "[]" 0 bs] by (simp add: hex_bytes_def Let_def)

lemma hex_bytes_loop_length: "length (hex_bytes_loop (CHR 0x00) k bs acc) = length acc + 2 * length bs"
  by (induction bs arbitrary: k acc) (simp_all add: append_byte_hex_digits_def)

section \<open>Properties\<close>

text \<open>
  Feedback and vibration effects say what was asked for: of the ten zones of the trigger
  exactly those from the position on are active, each of them has the 3-bit force of the strength,
  and the other zones have none.
\<close>

theorem zone_effects_encode:
  assumes "trigger_effect_feedback position strength = Inr e
      \<or> (\<exists>frequency. trigger_effect_vibration position strength frequency = Inr e)" and "z < 10"
  shows "length e = kTriggerFfbSize \<and> (zone_active e z \<longleftrightarrow> position \<le> z)
    \<and> zone_force e z = (if position \<le> z then strength - 1 else 0)"
proof -
  from assms(1) obtain mode rest where e: "e = effect (zone_effect mode position strength @ rest)"
    and r: "length rest \<le> 4" "position \<le> 9" "strength \<ge> 1" "strength \<le> 8"
    by (fastforce simp: trigger_builders bind_result_Inr intro: that [of _ "[]"])
  from zone_effect_zones [OF r(2-4) e r(1)] assms(2) show ?thesis by simp
qed

theorem zone_effects_encode_witness:
  "\<exists>e. trigger_effect_feedback 4 6 = Inr e \<and> \<not> zone_active e 3 \<and> zone_force e 4 = 5"
proof -
  obtain e where e: "trigger_effect_feedback 4 6 = Inr e"
    by (simp add: trigger_effect_feedback_def require_effect_range_def)
  with zone_effects_encode [of 4 6 e 3] zone_effects_encode [of 4 6 e 4] show ?thesis by auto
qed


text \<open>
  Every specification the parser accepts gives an effect of the firmware's size, so that it
  can be stored in a trigger section of the output state.
\<close>

theorem parsed_trigger_fits:
  assumes "parse_trigger_effect_spec spec = Inr e"
  shows "wf_effects \<lparr>left_trigger = Some e, right_trigger = Some e, led_color = None,
    player_lights = None, mute_light = None, effects_force = False\<rparr>"
  using parse_spec_length [OF assms] by (simp add: wf_effects_def)

theorem parsed_trigger_fits_witness:
  "wf_effects \<lparr>left_trigger = Some trigger_effect_off, right_trigger = Some trigger_effect_off,
    led_color = None, player_lights = None, mute_light = None, effects_force = False\<rparr>"
  by (rule parsed_trigger_fits [of "''off''"]) (simp add: parse_trigger_effect_spec_def)

text \<open>
  Specifications are read back: the hexadecimal form of any 11 bytes gives these bytes, and
  a name followed by numbers gives the effect of this name with exactly these numbers.
\<close>

theorem trigger_spec_roundtrip:
  assumes "length bs = kTriggerFfbSize" and "list_all (\<lambda>x. x \<le> 100000) xs"
    and "name \<notin> {''off'', ''raw''}" and "CHR '':'' \<notin> set name"
  shows "parse_trigger_effect_spec (''raw:'' @ hex_bytes bs kTriggerFfbSize (CHR 0x00) False) = Inr bs
    \<and> parse_trigger_effect_spec (name @ CHR '':'' # join_unsigned xs)
        = build_named_effect name xs (name @ CHR '':'' # join_unsigned xs)"
proof
  let ?hex = "hex_bytes bs kTriggerFfbSize (CHR 0x00) False"
  have "length ?hex = kTriggerFfbSize * 2"
    using assms(1) by (simp add: hex_bytes_def Let_def hex_bytes_loop_length)
  moreover have "split_first (CHR '':'') (''raw'' @ CHR '':'' # ?hex) = (''raw'', Some ?hex)"
    by (rule split_first_Some) simp
  ultimately show "parse_trigger_effect_spec (''raw:'' @ ?hex) = Inr bs"
    using hex_bytes_raw [of bs kTriggerFfbSize] assms(1) by (simp add: parse_trigger_effect_spec_def)
  show "parse_trigger_effect_spec (name @ CHR '':'' # join_unsigned xs)
        = build_named_effect name xs (name @ CHR '':'' # join_unsigned xs)"
    using assms(2-4)
    by (simp add: parse_trigger_effect_spec_def split_first_Some parse_effect_params_join list_all_iff)
qed

theorem trigger_spec_roundtrip_witness:
  "parse_trigger_effect_spec (''bow'' @ CHR '':'' # join_unsigned [1, 6, 4, 6])
     = build_named_effect ''bow'' [1, 6, 4, 6] (''bow'' @ CHR '':'' # join_unsigned [1, 6, 4, 6])"
  by (rule trigger_spec_roundtrip [of "replicate 11 0", THEN conjunct2]) simp_all

end
