(* ===== verification/Audio.thy ===== *)
theory Audio
  imports Packets "HOL-Library.Signed_Division"
begin

text \<open>
  The audio path of \<open>src/src/vds_protocol.cc\<close>: samples, the two resamplers, the speaker encoder
  around Opus, the microphone decoder, and \<open>PcmAudioExtractor\<close>, which cuts the four-channel USB
  audio into windows. Opus is not part of the repository: its encoder and decoder are arguments,
  functions of their state and their input, and what they fail with is an error text.
  C++ divides towards zero, which is \<open>sdiv\<close> here.
\<close>

type_synonym s16 = "16 word"

section \<open>Samples\<close>

abbreviation (input) kPcmChannels :: nat where "kPcmChannels \<equiv> 4"
abbreviation (input) kPcmFrameSize :: nat where "kPcmFrameSize \<equiv> 8"
abbreviation (input) kSpeakerChannels :: nat where "kSpeakerChannels \<equiv> 2"
abbreviation (input) kSpeakerOpusFrames :: nat where "kSpeakerOpusFrames \<equiv> 480"
abbreviation (input) kPcmWindowFrames :: nat where "kPcmWindowFrames \<equiv> 512"
abbreviation (input) kHapticsDecimation :: nat where "kHapticsDecimation \<equiv> 16"
abbreviation (input) kMicOpusFrames :: nat where "kMicOpusFrames \<equiv> 480"

definition clamp :: "int \<Rightarrow> int \<Rightarrow> int \<Rightarrow> int" where
  "clamp v lo hi = (if v < lo then lo else if hi < v then hi else v)"

definition s16_to_s8_haptic :: "s16 \<Rightarrow> u8" where
  "s16_to_s8_haptic sample = word_of_int (clamp (sint sample sdiv 256) (- 128) 127)"

definition read_le_s16 :: "bytes \<Rightarrow> s16" where
  "read_le_s16 data = ucast (data ! 0) OR push_bit 8 (ucast (data ! 1))"

definition lerp_i16 :: "s16 \<Rightarrow> s16 \<Rightarrow> nat \<Rightarrow> nat \<Rightarrow> s16" where
  "lerp_i16 left right numerator denominator =
     (let left_part = sint left * int (denominator - numerator);
          right_part = sint right * int numerator;
          mixed = (left_part + right_part) sdiv int denominator
      in word_of_int (clamp mixed (- 32768) 32767))"

section \<open>Resampling\<close>

definition resample_speaker_sample :: "s16 list \<Rightarrow> nat \<Rightarrow> nat \<Rightarrow> nat \<Rightarrow> s16" where
  "resample_speaker_sample pcm pcm_frames frame channel =
     (let source_numerator = frame * pcm_frames;
          source_frame = source_numerator div kSpeakerOpusFrames;
          fraction = source_numerator mod kSpeakerOpusFrames;
          next_frame = min (source_frame + 1) (pcm_frames - 1)
      in lerp_i16 (pcm ! (source_frame * kSpeakerChannels + channel))
           (pcm ! (next_frame * kSpeakerChannels + channel)) fraction kSpeakerOpusFrames)"

definition resample_speaker_pcm :: "s16 list \<Rightarrow> nat \<Rightarrow> s16 list" where
  "resample_speaker_pcm pcm pcm_frames =
     concat (map (\<lambda>frame. map (resample_speaker_sample pcm pcm_frames frame) [0..<kSpeakerChannels])
       [0..<kSpeakerOpusFrames])"

text \<open>The average of one channel over the frames from \<open>start\<close> to \<open>stop\<close>.\<close>

definition haptics_average :: "s16 list \<Rightarrow> nat \<Rightarrow> nat \<Rightarrow> nat \<Rightarrow> s16" where
  "haptics_average pcm start stop channel =
     (let count = max 1 (stop - start);
          total = sum_list (map (\<lambda>i. sint (pcm ! (i * kSpeakerChannels + channel))) [start..<stop])
      in word_of_int (total sdiv int count))"

definition resample_haptics_pcm :: "s16 list \<Rightarrow> nat \<Rightarrow> bytes" where
  "resample_haptics_pcm pcm pcm_frames =
     (let haptics_frames = kHapticsSampleSize div kSpeakerChannels
      in concat (map (\<lambda>frame.
           (let start = frame * pcm_frames div haptics_frames;
                stop = (frame + 1) * pcm_frames div haptics_frames
            in [s16_to_s8_haptic (haptics_average pcm start stop 0),
                s16_to_s8_haptic (haptics_average pcm start stop 1)])) [0..<haptics_frames]))"

section \<open>Opus around the resamplers\<close>

text \<open>
  \<open>SpeakerEncoder::encode\<close>: what Opus returns is the new encoder state and either an error or the
  bytes it wrote; the rest of the block is filled with zeros.
\<close>

type_synonym 's opus_encoder = "'s \<Rightarrow> s16 list \<Rightarrow> 's \<times> (string + bytes)"
type_synonym 's opus_decoder = "'s \<Rightarrow> bytes \<Rightarrow> 's \<times> (string + s16 list)"

definition encode_speaker :: "'s opus_encoder \<Rightarrow> s16 list \<Rightarrow> nat \<Rightarrow> 's \<Rightarrow> 's \<times> bytes result" where
  "encode_speaker opus pcm pcm_frames s =
     (case opus s (resample_speaker_pcm pcm pcm_frames) of
        (s', Inl e) \<Rightarrow> (s', Inl (Runtime_error (''opus_encode failed: '' @ e)))
      | (s', Inr written) \<Rightarrow> (s', Inr (written @ replicate (kSpeakerOpusSize - length written) 0)))"

text \<open>\<open>MicAudioDecoder::decode\<close>: the mono samples become the right channel of stereo frames.\<close>

definition mic_frame :: "s16 \<Rightarrow> bytes" where
  "mic_frame sample = [0, 0, ucast (sample AND 0xff), ucast (drop_bit 8 sample AND 0xff)]"

definition decode_mic :: "'s opus_decoder \<Rightarrow> bytes \<Rightarrow> 's \<Rightarrow> 's \<times> bytes result" where
  "decode_mic opus payload s =
     (case opus s payload of
        (s', Inl e) \<Rightarrow> (s', Inl (Runtime_error (''opus_decode failed: '' @ e)))
      | (s', Inr samples) \<Rightarrow> (s', Inr (concat (map mic_frame samples))))"

section \<open>The extractor\<close>

text \<open>
  \<open>pending_frame_\<close> and \<open>pending_frame_pos_\<close> are one list here: the bytes of the frame that have
  arrived so far.
\<close>

record 's extractor =
  ex_encoder :: 's
  ex_pending :: bytes
  ex_speaker_pcm :: "s16 list"
  ex_haptics_pcm :: "s16 list"
  ex_window_frames :: nat
  ex_window_pos :: nat
  ex_has_signal :: bool
  ex_has_haptics_signal :: bool

record audio_chunk =
  ac_haptics :: bytes
  ac_speaker :: bytes
  ac_has_signal :: bool
  ac_has_haptics_signal :: bool

definition new_extractor :: "'s result \<Rightarrow> nat \<Rightarrow> 's extractor result" where
  "new_extractor encoder pcm_window_frames =
     bind_result encoder (\<lambda>s.
       if pcm_window_frames = 0 \<or> pcm_window_frames > kPcmWindowFrames
          \<or> pcm_window_frames mod kHapticsDecimation \<noteq> 0
       then Inl (Invalid_argument ''unsupported PCM frame window'')
       else Inr \<lparr>ex_encoder = s, ex_pending = [],
         ex_speaker_pcm = replicate (kPcmWindowFrames * kSpeakerChannels) 0,
         ex_haptics_pcm = replicate (kPcmWindowFrames * kSpeakerChannels) 0,
         ex_window_frames = pcm_window_frames, ex_window_pos = 0,
         ex_has_signal = False, ex_has_haptics_signal = False\<rparr>)"

definition frame_samples :: "bytes \<Rightarrow> s16 list" where
  "frame_samples base = map (\<lambda>channel. read_le_s16 (drop (channel * 2) base)) [0..<kPcmChannels]"

definition store_frame :: "s16 list \<Rightarrow> 's extractor \<Rightarrow> 's extractor" where
  "store_frame samples ex =
     (let pos = ex_window_pos ex * kSpeakerChannels
      in ex\<lparr>ex_has_signal := ex_has_signal ex \<or> list_ex (\<lambda>v. v \<noteq> 0) samples,
            ex_speaker_pcm := (ex_speaker_pcm ex)[pos := samples ! 0, pos + 1 := samples ! 1],
            ex_haptics_pcm := (ex_haptics_pcm ex)[pos := samples ! 2, pos + 1 := samples ! 3],
            ex_has_haptics_signal := ex_has_haptics_signal ex \<or> samples ! 2 \<noteq> 0 \<or> samples ! 3 \<noteq> 0,
            ex_window_pos := ex_window_pos ex + 1\<rparr>)"

text \<open>
  \<open>consume_frame\<close>: a full window becomes a chunk. When the encoder throws, the window position has
  been reset already and the signal flags have not.
\<close>

definition consume_frame :: "'s opus_encoder \<Rightarrow> bytes \<Rightarrow> 's extractor \<Rightarrow> 's extractor \<times> audio_chunk list result" where
  "consume_frame opus base ex =
     (let ex = store_frame (frame_samples base) ex;
          window = ex_window_frames ex
      in if ex_window_pos ex \<noteq> window then (ex, Inr [])
         else
           (let ex = ex\<lparr>ex_window_pos := 0\<rparr>;
                haptics = resample_haptics_pcm (take (window * kSpeakerChannels) (ex_haptics_pcm ex)) window;
                (s', speaker) = encode_speaker opus (take (window * kSpeakerChannels) (ex_speaker_pcm ex))
                  window (ex_encoder ex);
                ex = ex\<lparr>ex_encoder := s'\<rparr>
            in (case speaker of
                  Inl e \<Rightarrow> (ex, Inl e)
                | Inr block \<Rightarrow>
                    (ex\<lparr>ex_has_signal := False, ex_has_haptics_signal := False\<rparr>,
                     Inr [\<lparr>ac_haptics = haptics, ac_speaker = block, ac_has_signal = ex_has_signal ex,
                       ac_has_haptics_signal = ex_has_haptics_signal ex\<rparr>]))))"

text \<open>The loop over the whole frames of the buffer.\<close>

fun consume_frames :: "'s opus_encoder \<Rightarrow> nat \<Rightarrow> bytes \<Rightarrow> 's extractor \<Rightarrow> 's extractor \<times> audio_chunk list result" where
  "consume_frames opus 0 pcm ex = (ex, Inr [])"
| "consume_frames opus (Suc n) pcm ex =
     (case consume_frame opus (take kPcmFrameSize pcm) ex of
        (ex', Inl e) \<Rightarrow> (ex', Inl e)
      | (ex', Inr cs) \<Rightarrow>
          (case consume_frames opus n (drop kPcmFrameSize pcm) ex' of
             (ex'', r) \<Rightarrow> (ex'', bind_result r (\<lambda>ds. Inr (cs @ ds)))))"

text \<open>
  \<open>push_usb_audio\<close>: whole frames straight from the buffer when no frame is pending, otherwise the
  pending frame is completed first. An exception drops the chunks of this call.
\<close>

function push_usb_audio :: "'s opus_encoder \<Rightarrow> bytes \<Rightarrow> 's extractor \<Rightarrow> 's extractor \<times> audio_chunk list result" where
  "push_usb_audio opus pcm ex =
     (if pcm = [] then (ex, Inr [])
      else if ex_pending ex = [] \<and> length pcm \<ge> kPcmFrameSize then
        (let frames = length pcm div kPcmFrameSize in
         case consume_frames opus frames pcm ex of
           (ex', Inl e) \<Rightarrow> (ex', Inl e)
         | (ex', Inr cs) \<Rightarrow>
             (case push_usb_audio opus (drop (frames * kPcmFrameSize) pcm) ex' of
                (ex'', r) \<Rightarrow> (ex'', bind_result r (\<lambda>ds. Inr (cs @ ds)))))
      else
        (let copy_size = min (length pcm) (kPcmFrameSize - length (ex_pending ex));
             ex = ex\<lparr>ex_pending := ex_pending ex @ take copy_size pcm\<rparr>;
             rest = drop copy_size pcm
         in if length (ex_pending ex) \<ge> kPcmFrameSize then
              (case consume_frame opus (ex_pending ex) ex of
                 (ex', Inl e) \<Rightarrow> (ex', Inl e)
               | (ex', Inr cs) \<Rightarrow>
                   (case push_usb_audio opus rest (ex'\<lparr>ex_pending := []\<rparr>) of
                      (ex'', r) \<Rightarrow> (ex'', bind_result r (\<lambda>ds. Inr (cs @ ds)))))
            else push_usb_audio opus rest ex))"
  by pat_completeness auto
termination
  by (relation "measure (\<lambda>(opus, pcm, ex). 2 * length pcm + (if length (ex_pending ex) \<ge> kPcmFrameSize then 1 else 0))")
    (auto simp: Let_def min_def not_le)

declare push_usb_audio.simps [simp del]

section \<open>Sample arithmetic stays in range\<close>

lemma sdiv_between:
  fixes a d m n :: int
  assumes "0 < d" "m * d \<le> a" "a \<le> n * d"
  shows "m \<le> a sdiv d" and "a sdiv d \<le> n"
proof -
  have pos: "a sdiv d = (if 0 \<le> a then a div d else - (- a div d))"
    using assms(1) by (auto simp: signed_divide_int_def sgn_if abs_if not_le)
  show "m \<le> a sdiv d"
  proof (cases "0 \<le> a")
    case True
    have "m * d div d \<le> a div d" using assms by (intro zdiv_mono1) simp_all
    with True assms(1) show ?thesis by (simp add: pos)
  next
    case False
    have "- a div d \<le> (- m) * d div d" using assms by (intro zdiv_mono1) simp_all
    moreover have "(- m) * d div d = - m" using assms(1) by (intro nonzero_mult_div_cancel_right) simp
    ultimately show ?thesis using False by (simp add: pos)
  qed
  show "a sdiv d \<le> n"
  proof (cases "0 \<le> a")
    case True
    have "a div d \<le> n * d div d" using assms by (intro zdiv_mono1) simp_all
    with True assms(1) show ?thesis by (simp add: pos)
  next
    case False
    have "(- n) * d div d \<le> - a div d" using assms by (intro zdiv_mono1) simp_all
    moreover have "(- n) * d div d = - n" using assms(1) by (intro nonzero_mult_div_cancel_right) simp
    ultimately show ?thesis using False by (simp add: pos)
  qed
qed

lemma sint_s16_range: "- 32768 \<le> sint (x :: s16)" "sint (x :: s16) \<le> 32767"
  using sint_greater_eq [of x] sint_less [of x] by simp_all

lemma sint_word_of_int_s16: "- 32768 \<le> k \<Longrightarrow> k \<le> 32767 \<Longrightarrow> sint (word_of_int k :: s16) = k"
  by (simp add: sint_sbintrunc' signed_take_bit_int_eq_self)

lemma sint_word_of_int_s8: "- 128 \<le> k \<Longrightarrow> k \<le> 127 \<Longrightarrow> sint (word_of_int k :: u8) = k"
  by (simp add: sint_sbintrunc' signed_take_bit_int_eq_self)

lemma clamp_id: "lo \<le> v \<Longrightarrow> v \<le> hi \<Longrightarrow> clamp v lo hi = v"
  by (simp add: clamp_def)

lemma s16_to_s8_value: "sint (s16_to_s8_haptic x) = sint x sdiv 256"
proof -
  have "- 128 \<le> sint x sdiv 256"
    using sdiv_between(1) [of 256 "- 128" "sint x" 128] sint_s16_range [of x] by simp
  moreover have "sint x sdiv 256 \<le> 127"
    using sint_s16_range [of x] by (auto simp: signed_divide_int_def sgn_if abs_if)
  ultimately show ?thesis by (simp only: s16_to_s8_haptic_def clamp_id sint_word_of_int_s8)
qed

lemma lerp_between:
  assumes "num \<le> den" "0 < den"
  shows "min (sint l) (sint r) \<le> sint (lerp_i16 l r num den)" "sint (lerp_i16 l r num den) \<le> max (sint l) (sint r)"
proof -
  let ?m = "min (sint l) (sint r)" and ?M = "max (sint l) (sint r)"
  let ?a = "sint l * int (den - num) + sint r * int num"
  have d: "int (den - num) + int num = int den" using assms(1) by simp
  have "?m * int (den - num) \<le> sint l * int (den - num)" "?m * int num \<le> sint r * int num"
    by (intro mult_right_mono; simp)+
  moreover have "?m * int den = ?m * int (den - num) + ?m * int num"
    by (simp only: d [symmetric] distrib_left)
  ultimately have lo: "?m * int den \<le> ?a" by linarith
  have "sint l * int (den - num) \<le> ?M * int (den - num)" "sint r * int num \<le> ?M * int num"
    by (intro mult_right_mono; simp)+
  moreover have "?M * int den = ?M * int (den - num) + ?M * int num"
    by (simp only: d [symmetric] distrib_left)
  ultimately have hi: "?a \<le> ?M * int den" by linarith
  have den: "0 < int den" using assms(2) by simp
  note b = sdiv_between [OF den lo hi]
  have "- 32768 \<le> ?m" "?M \<le> 32767" using sint_s16_range [of l] sint_s16_range [of r] by auto
  with b have q: "- 32768 \<le> ?a sdiv int den" "?a sdiv int den \<le> 32767" by linarith+
  have "sint (lerp_i16 l r num den) = ?a sdiv int den"
    by (simp only: lerp_i16_def Let_def clamp_id [OF q] sint_word_of_int_s16 [OF q])
  with b show "?m \<le> sint (lerp_i16 l r num den)" "sint (lerp_i16 l r num den) \<le> ?M" by simp_all
qed

lemma lerp_start:
  assumes "0 < den"
  shows "lerp_i16 l r 0 den = l"
proof -
  have "(sint l * int den) sdiv int den = sint l"
    using sdiv_between [of "int den" "sint l" "sint l * int den" "sint l"] assms by (intro antisym) simp_all
  then show ?thesis by (simp add: lerp_i16_def Let_def clamp_id sint_s16_range)
qed

lemma speaker_sample_between:
  assumes "0 < frames" "f < kSpeakerOpusFrames"
  obtains i j where "i < frames" "j < frames"
    "min (sint (pcm ! (i * 2 + c))) (sint (pcm ! (j * 2 + c))) \<le> sint (resample_speaker_sample pcm frames f c)"
    "sint (resample_speaker_sample pcm frames f c) \<le> max (sint (pcm ! (i * 2 + c))) (sint (pcm ! (j * 2 + c)))"
proof -
  let ?i = "f * frames div kSpeakerOpusFrames" and ?j = "min (f * frames div kSpeakerOpusFrames + 1) (frames - 1)"
  have "f * frames < kSpeakerOpusFrames * frames" using assms by simp
  then have i: "?i < frames" by (simp add: div_less_iff_less_mult mult.commute)
  have j: "?j < frames" using assms(1) by simp
  have num: "f * frames mod kSpeakerOpusFrames \<le> kSpeakerOpusFrames" and den: "0 < kSpeakerOpusFrames" by simp_all
  have speaker: "resample_speaker_sample pcm frames f c
      = lerp_i16 (pcm ! (?i * 2 + c)) (pcm ! (?j * 2 + c)) (f * frames mod kSpeakerOpusFrames) kSpeakerOpusFrames"
    by (simp add: resample_speaker_sample_def Let_def)
  show thesis
    by (rule that [OF i j]) (simp_all only: speaker lerp_between [OF num den])
qed

lemma average_between:
  assumes "start < stop" and "\<And>i. start \<le> i \<Longrightarrow> i < stop \<Longrightarrow> lo \<le> sint (pcm ! (i * 2 + c)) \<and> sint (pcm ! (i * 2 + c)) \<le> hi"
    and "- 32768 \<le> lo" "hi \<le> 32767"
  shows "lo \<le> sint (haptics_average pcm start stop c)" "sint (haptics_average pcm start stop c) \<le> hi"
proof -
  let ?xs = "map (\<lambda>i. sint (pcm ! (i * 2 + c))) [start..<stop]"
  have len: "length ?xs = stop - start" by simp
  have all: "\<forall>x\<in>set ?xs. lo \<le> x \<and> x \<le> hi" using assms(2) by auto
  have "lo * int (length xs) \<le> sum_list xs \<and> sum_list xs \<le> hi * int (length xs)"
    if "\<forall>x\<in>set xs. lo \<le> x \<and> x \<le> hi" for xs
    using that by (induction xs) (auto simp: algebra_simps)
  from this [OF all] have b: "lo * int (stop - start) \<le> sum_list ?xs" "sum_list ?xs \<le> hi * int (stop - start)"
    by (simp_all only: len)
  have "0 < int (stop - start)" using assms(1) by simp
  note div = sdiv_between [OF this b]
  with assms have "sint (haptics_average pcm start stop c) = sum_list ?xs sdiv int (stop - start)"
    by (simp add: haptics_average_def Let_def sint_word_of_int_s16 max_def)
  with div show "lo \<le> sint (haptics_average pcm start stop c)" "sint (haptics_average pcm start stop c) \<le> hi"
    by simp_all
qed

section \<open>Streams that arrive in pieces\<close>

text \<open>
  What a processor of a byte stream promises its callers: the cuts between the calls do not matter.
  An operation takes the next piece and returns what it completes.
\<close>

fun push_all :: "('b list \<Rightarrow> 's \<Rightarrow> 's \<times> 'c list result) \<Rightarrow> 'b list list \<Rightarrow> 's \<Rightarrow> 's \<times> 'c list result" where
  "push_all push [] s = (s, Inr [])"
| "push_all push (xs # xss) s =
     (case push xs s of
        (s', Inl e) \<Rightarrow> (s', Inl e)
      | (s', Inr cs) \<Rightarrow> (case push_all push xss s' of (s'', r) \<Rightarrow> (s'', bind_result r (\<lambda>ds. Inr (cs @ ds)))))"

locale stream_processor =
  fixes push :: "'b list \<Rightarrow> 's \<Rightarrow> 's \<times> 'c list result"
    and inv :: "'s \<Rightarrow> bool"
  assumes push_Nil: "inv s \<Longrightarrow> push [] s = (s, Inr [])"
    and push_inv: "inv s \<Longrightarrow> push xs s = (s', Inr cs) \<Longrightarrow> inv s'"
    and push_split: "inv s \<Longrightarrow> push xs s = (s', Inr cs) \<Longrightarrow> push ys s' = (s'', Inr ds) \<Longrightarrow>
      push (xs @ ys) s = (s'', Inr (cs @ ds))"
begin

lemma push_all_concat:
  "inv s \<Longrightarrow> push_all push xss s = (s', Inr cs) \<Longrightarrow> push (concat xss) s = (s', Inr cs)"
proof (induction xss arbitrary: s cs)
  case Nil
  then show ?case by (simp add: push_Nil)
next
  case (Cons xs xss)
  then obtain s1 c1 c2 where 1: "push xs s = (s1, Inr c1)" and 2: "push_all push xss s1 = (s', Inr c2)"
    and cs: "cs = c1 @ c2"
    by (auto split: prod.splits sum.splits simp: bind_result_Inr)
  have "push (concat xss) s1 = (s', Inr c2)"
    using Cons.IH [OF push_inv [OF Cons.prems(1) 1] 2] .
  from push_split [OF Cons.prems(1) 1 this] cs show ?case by simp
qed

lemma cuts_do_not_matter:
  assumes "inv s" "push_all push xss s = (s', Inr cs)" "push_all push yss s = (s'', Inr ds)" "concat xss = concat yss"
  shows "cs = ds \<and> s' = s''"
  using push_all_concat [OF assms(1,2)] push_all_concat [OF assms(1,3)] assms(4) by simp

end

section \<open>The extractor as a stream processor\<close>

lemma store_frame_pending [simp]:
  "store_frame sm (ex\<lparr>ex_pending := p\<rparr>) = (store_frame sm ex)\<lparr>ex_pending := p\<rparr>"
  by (simp add: store_frame_def Let_def)

lemma consume_frame_pending:
  "consume_frame opus b (ex\<lparr>ex_pending := p\<rparr>)
    = (case consume_frame opus b ex of (ex', r) \<Rightarrow> (ex'\<lparr>ex_pending := p\<rparr>, r))"
  by (auto simp: consume_frame_def Let_def split: prod.splits sum.splits)

lemma consume_frame_keeps_pending:
  "consume_frame opus b ex = (ex', r) \<Longrightarrow> ex_pending ex' = ex_pending ex"
  by (auto simp: consume_frame_def store_frame_def Let_def split: prod.splits sum.splits if_splits)

lemma consume_frames_pending:
  "consume_frames opus n pcm (ex\<lparr>ex_pending := p\<rparr>)
    = (case consume_frames opus n pcm ex of (ex', r) \<Rightarrow> (ex'\<lparr>ex_pending := p\<rparr>, r))"
  by (induction opus n pcm ex arbitrary: p rule: consume_frames.induct)
    (auto simp: consume_frame_pending split: prod.splits sum.splits)

lemma consume_frames_keeps_pending:
  "consume_frames opus n pcm ex = (ex', r) \<Longrightarrow> ex_pending ex' = ex_pending ex"
  by (induction opus n pcm ex arbitrary: ex' r rule: consume_frames.induct)
    (auto dest: consume_frame_keeps_pending split: prod.splits sum.splits)

lemma consume_frames_take:
  "kPcmFrameSize * n \<le> length pcm \<Longrightarrow> consume_frames opus n (take (kPcmFrameSize * n) pcm @ rest) ex = consume_frames opus n pcm ex"
proof (induction n arbitrary: pcm ex)
  case (Suc n)
  have a: "take kPcmFrameSize (take (kPcmFrameSize * Suc n) pcm @ rest) = take kPcmFrameSize pcm"
    using Suc.prems by (simp add: min_def)
  have b: "drop kPcmFrameSize (take (kPcmFrameSize * Suc n) pcm @ rest)
      = take (kPcmFrameSize * n) (drop kPcmFrameSize pcm) @ rest"
    using Suc.prems by (simp add: take_drop algebra_simps)
  have "kPcmFrameSize * n \<le> length (drop kPcmFrameSize pcm)" using Suc.prems by simp
  from Suc.IH [OF this] show ?case unfolding consume_frames.simps a b by simp
qed simp

lemma consume_frames_cong:
  "kPcmFrameSize * n \<le> length xs \<Longrightarrow> take (kPcmFrameSize * n) xs = take (kPcmFrameSize * n) ys \<Longrightarrow> kPcmFrameSize * n \<le> length ys \<Longrightarrow>
    consume_frames opus n xs ex = consume_frames opus n ys ex"
  using consume_frames_take [of n xs opus "[]" ex] consume_frames_take [of n ys opus "[]" ex] by simp

lemma consume_frames_add:
  "consume_frames opus (m + n) pcm ex =
    (case consume_frames opus m pcm ex of
       (ex', Inl e) \<Rightarrow> (ex', Inl e)
     | (ex', Inr cs) \<Rightarrow> (case consume_frames opus n (drop (kPcmFrameSize * m) pcm) ex' of
         (ex'', r) \<Rightarrow> (ex'', bind_result r (\<lambda>ds. Inr (cs @ ds)))))"
proof (induction m arbitrary: pcm ex)
  case 0
  then show ?case by (auto split: prod.splits)
next
  case (Suc m)
  show ?case
    by (auto simp: Suc.IH algebra_simps bind_result_assoc split: prod.splits sum.splits)
qed

text \<open>
  Where the calls do not fail, \<open>push_usb_audio\<close> is the loop over the whole frames of what is
  pending followed by the new bytes.
\<close>

definition whole_frames :: "bytes \<Rightarrow> nat" where
  "whole_frames bs = length bs div kPcmFrameSize"

lemma whole_frames_le: "kPcmFrameSize * whole_frames bs \<le> length bs"
  by (simp add: whole_frames_def)

definition frames_result :: "'s opus_encoder \<Rightarrow> bytes \<Rightarrow> 's extractor \<Rightarrow> 's extractor \<times> audio_chunk list result" where
  "frames_result opus full ex =
     (case consume_frames opus (whole_frames full) full ex of
        (ex', r) \<Rightarrow> (ex'\<lparr>ex_pending := drop (kPcmFrameSize * whole_frames full) full\<rparr>, r))"

lemma frames_result_short:
  "length full < kPcmFrameSize \<Longrightarrow> frames_result opus full ex = (ex\<lparr>ex_pending := full\<rparr>, Inr [])"
  by (simp add: frames_result_def whole_frames_def)

lemma frames_result_pending:
  "frames_result opus full (ex\<lparr>ex_pending := p\<rparr>) = frames_result opus full ex"
  by (auto simp: frames_result_def consume_frames_pending split: prod.splits)

lemma frames_result_step:
  assumes "kPcmFrameSize \<le> length full"
  shows "frames_result opus full ex =
    (case consume_frame opus (take kPcmFrameSize full) ex of
       (ex', Inl e) \<Rightarrow> (ex'\<lparr>ex_pending := drop (kPcmFrameSize * whole_frames full) full\<rparr>, Inl e)
     | (ex', Inr cs) \<Rightarrow> (case frames_result opus (drop kPcmFrameSize full) ex' of
         (ex'', r) \<Rightarrow> (ex'', bind_result r (\<lambda>ds. Inr (cs @ ds)))))"
proof -
  have "whole_frames full = Suc (whole_frames (drop kPcmFrameSize full))"
    using assms by (simp add: whole_frames_def le_div_geq)
  then show ?thesis
    by (auto simp: frames_result_def algebra_simps split: prod.splits sum.splits)
qed

lemma push_short:
  assumes "length (ex_pending ex) < kPcmFrameSize" "length (ex_pending ex @ pcm) < kPcmFrameSize"
  shows "push_usb_audio opus pcm ex = (ex\<lparr>ex_pending := ex_pending ex @ pcm\<rparr>, Inr [])"
proof (cases "pcm = []")
  case True
  then show ?thesis by (simp add: push_usb_audio.simps [of opus "[]"])
next
  case False
  have nil: "push_usb_audio opus [] ex' = (ex', Inr [])" for ex' :: "'a extractor"
    by (simp add: push_usb_audio.simps [of opus "[]"])
  from False assms show ?thesis
    by (subst push_usb_audio.simps) (simp add: Let_def nil)
qed

lemma push_aligned:
  assumes "ex_pending ex = []"
  shows "case frames_result opus pcm ex of
      (ex', Inr cs) \<Rightarrow> push_usb_audio opus pcm ex = (ex', Inr cs)
    | (_, Inl e) \<Rightarrow> \<exists>ex''. push_usb_audio opus pcm ex = (ex'', Inl e)"
proof (cases "length pcm < kPcmFrameSize")
  case True
  then show ?thesis using push_short [of ex pcm opus] assms by (simp add: frames_result_short)
next
  case long: False
  let ?n = "length pcm div kPcmFrameSize"
  have unf: "push_usb_audio opus pcm ex =
    (case consume_frames opus ?n pcm ex of
         (ex', Inl e) \<Rightarrow> (ex', Inl e)
       | (ex', Inr cs) \<Rightarrow>
           (case push_usb_audio opus (drop (?n * kPcmFrameSize) pcm) ex' of
              (ex'', r) \<Rightarrow> (ex'', bind_result r (\<lambda>ds. Inr (cs @ ds)))))"
    using assms long by (subst push_usb_audio.simps) (auto simp: Let_def)
  show ?thesis
  proof (cases "consume_frames opus ?n pcm ex")
    case (Pair ex' r)
    then have p: "ex_pending ex' = []" using consume_frames_keeps_pending assms by metis
    have l: "length (drop (?n * kPcmFrameSize) pcm) < kPcmFrameSize"
      by (simp add: minus_div_mult_eq_mod)
    have "push_usb_audio opus (drop (?n * kPcmFrameSize) pcm) ex'
        = (ex'\<lparr>ex_pending := drop (?n * kPcmFrameSize) pcm\<rparr>, Inr [])"
      using push_short [of ex' "drop (?n * kPcmFrameSize) pcm"] p l by simp
    with Pair unf show ?thesis
      by (cases r) (simp_all add: frames_result_def whole_frames_def mult.commute)
  qed
qed

lemma push_pending_unfold:
  assumes "ex_pending ex \<noteq> []" "length (ex_pending ex) < kPcmFrameSize" "kPcmFrameSize \<le> length (ex_pending ex @ pcm)"
  shows "push_usb_audio opus pcm ex =
      (case consume_frame opus (take kPcmFrameSize (ex_pending ex @ pcm))
          (ex\<lparr>ex_pending := take kPcmFrameSize (ex_pending ex @ pcm)\<rparr>) of
           (ex', Inl e) \<Rightarrow> (ex', Inl e)
         | (ex', Inr cs) \<Rightarrow>
             (case push_usb_audio opus (drop kPcmFrameSize (ex_pending ex @ pcm)) (ex'\<lparr>ex_pending := []\<rparr>) of
                (ex'', r) \<Rightarrow> (ex'', bind_result r (\<lambda>ds. Inr (cs @ ds)))))"
proof -
  let ?k = "kPcmFrameSize - length (ex_pending ex)"
  have pcm: "pcm \<noteq> []" and k: "min (length pcm) ?k = ?k" using assms by auto
  have full: "take kPcmFrameSize (ex_pending ex @ pcm) = ex_pending ex @ take ?k pcm"
    "drop kPcmFrameSize (ex_pending ex @ pcm) = drop ?k pcm"
    using assms by simp_all
  have len: "length (ex_pending ex @ take ?k pcm) = kPcmFrameSize" using assms by simp
  show ?thesis
    unfolding full using assms(1) pcm len
    by (subst push_usb_audio.simps) (simp add: Let_def k)
qed

lemma push_by_frames:
  assumes "length (ex_pending ex) < kPcmFrameSize"
  shows "case frames_result opus (ex_pending ex @ pcm) ex of
      (ex', Inr cs) \<Rightarrow> push_usb_audio opus pcm ex = (ex', Inr cs)
    | (_, Inl e) \<Rightarrow> \<exists>ex''. push_usb_audio opus pcm ex = (ex'', Inl e)"
proof -
  let ?full = "ex_pending ex @ pcm"
  consider (short) "length ?full < kPcmFrameSize" | (aligned) "ex_pending ex = []"
    | (pending) "ex_pending ex \<noteq> []" "kPcmFrameSize \<le> length ?full" by linarith
  then show ?thesis
  proof cases
    case short
    then show ?thesis by (simp add: frames_result_short push_short assms)
  next
    case aligned
    then show ?thesis using push_aligned [of ex opus pcm] by simp
  next
    case pending
    obtain ex1 r where c: "consume_frame opus (take kPcmFrameSize ?full) ex = (ex1, r)" by (metis surj_pair)
    note unf = push_pending_unfold [OF pending(1) assms pending(2), of opus]
    show ?thesis
    proof (cases r)
      case (Inl e)
      with c unf show ?thesis
        by (simp add: frames_result_step [OF pending(2)] consume_frame_pending)
    next
      case (Inr cs)
      have *: "frames_result opus (drop kPcmFrameSize ?full) (ex1\<lparr>ex_pending := []\<rparr>)
          = frames_result opus (drop kPcmFrameSize ?full) ex1"
        by (rule frames_result_pending)
      have "ex_pending (ex1\<lparr>ex_pending := []\<rparr>) = []" by simp
      note rest = push_aligned [OF this, of opus "drop kPcmFrameSize ?full", unfolded *]
      obtain ex2 r2 where f: "frames_result opus (drop kPcmFrameSize ?full) ex1 = (ex2, r2)" by (metis surj_pair)
      show ?thesis
      proof (cases r2)
        case (Inl e)
        with rest f obtain ex3 where "push_usb_audio opus (drop kPcmFrameSize ?full) (ex1\<lparr>ex_pending := []\<rparr>) = (ex3, Inl e)"
          by auto
        with c f unf \<open>r = Inr cs\<close> Inl show ?thesis
          by (simp add: frames_result_step [OF pending(2)] consume_frame_pending)
      next
        case (Inr ds)
        with rest f have "push_usb_audio opus (drop kPcmFrameSize ?full) (ex1\<lparr>ex_pending := []\<rparr>) = (ex2, Inr ds)"
          by simp
        with c f unf \<open>r = Inr cs\<close> Inr show ?thesis
          by (simp add: frames_result_step [OF pending(2)] consume_frame_pending)
      qed
    qed
  qed
qed

lemma push_Inr:
  assumes "length (ex_pending ex) < kPcmFrameSize"
  shows "push_usb_audio opus pcm ex = (ex', Inr cs) \<longleftrightarrow> frames_result opus (ex_pending ex @ pcm) ex = (ex', Inr cs)"
  using push_by_frames [OF assms, of opus pcm]
  by (cases "frames_result opus (ex_pending ex @ pcm) ex"; cases "snd (frames_result opus (ex_pending ex @ pcm) ex)") auto

definition ex_aligned :: "'s extractor \<Rightarrow> bool" where
  "ex_aligned ex \<longleftrightarrow> length (ex_pending ex) < kPcmFrameSize"

lemma frames_result_aligned: "frames_result opus full ex = (ex', r) \<Longrightarrow> length (ex_pending ex') < kPcmFrameSize"
  by (auto simp: frames_result_def whole_frames_def minus_mult_div_eq_mod split: prod.splits)

lemma frames_result_append:
  assumes "frames_result opus xs ex = (ex', Inr cs)" "frames_result opus (ex_pending ex' @ ys) ex' = (ex'', Inr ds)"
  shows "frames_result opus (xs @ ys) ex = (ex'', Inr (cs @ ds))"
proof -
  let ?m = "whole_frames xs" and ?n = "whole_frames (ex_pending ex' @ ys)"
  obtain e1 where c1: "consume_frames opus ?m xs ex = (e1, Inr cs)" and ex': "ex' = e1\<lparr>ex_pending := drop (kPcmFrameSize * ?m) xs\<rparr>"
    using assms(1) by (auto simp: frames_result_def split: prod.splits)
  have m: "kPcmFrameSize * ?m \<le> length xs" by (rule whole_frames_le)
  have rest: "drop (kPcmFrameSize * ?m) (xs @ ys) = ex_pending ex' @ ys" using m ex' by simp
  have "length (xs @ ys) = kPcmFrameSize * ?m + length (ex_pending ex' @ ys)" using m ex' by simp
  then have n: "whole_frames (xs @ ys) = ?m + ?n" by (simp add: whole_frames_def)
  obtain e2 where c2: "consume_frames opus ?n (ex_pending ex' @ ys) e1 = (e2, Inr ds)"
      and ex'': "ex'' = e2\<lparr>ex_pending := drop (kPcmFrameSize * ?n) (ex_pending ex' @ ys)\<rparr>"
    using assms(2) unfolding frames_result_def ex' consume_frames_pending
    by (auto split: prod.splits)
  have "consume_frames opus ?m (xs @ ys) ex = (e1, Inr cs)"
    using c1 m consume_frames_cong [of ?m "xs @ ys" xs opus ex] by simp
  then have "consume_frames opus (whole_frames (xs @ ys)) (xs @ ys) ex = (e2, Inr (cs @ ds))"
    unfolding n consume_frames_add rest using c2 by simp
  moreover have "drop (kPcmFrameSize * whole_frames (xs @ ys)) (xs @ ys) = drop (kPcmFrameSize * ?n) (ex_pending ex' @ ys)"
    by (simp only: n rest [symmetric] drop_drop distrib_left add.commute)
  ultimately show ?thesis by (simp add: frames_result_def ex'')
qed

interpretation usb_audio: stream_processor "push_usb_audio opus" ex_aligned
proof
  fix s :: "'a extractor" assume "ex_aligned s"
  show "push_usb_audio opus [] s = (s, Inr [])" by (simp add: push_usb_audio.simps [of opus "[]"])
next
  fix s s' :: "'a extractor" and xs cs
  assume "ex_aligned s" "push_usb_audio opus xs s = (s', Inr cs)"
  then show "ex_aligned s'" by (auto simp: ex_aligned_def push_Inr intro: frames_result_aligned)
next
  fix s s' s'' :: "'a extractor" and xs ys cs ds
  assume a: "ex_aligned s" and 1: "push_usb_audio opus xs s = (s', Inr cs)"
    and 2: "push_usb_audio opus ys s' = (s'', Inr ds)"
  from a 1 have f: "frames_result opus (ex_pending s @ xs) s = (s', Inr cs)" by (simp add: ex_aligned_def push_Inr)
  then have "length (ex_pending s') < kPcmFrameSize" by (rule frames_result_aligned)
  with 2 have g: "frames_result opus (ex_pending s' @ ys) s' = (s'', Inr ds)" by (simp add: push_Inr)
  from frames_result_append [OF f g] a show "push_usb_audio opus (xs @ ys) s = (s'', Inr (cs @ ds))"
    by (simp add: ex_aligned_def push_Inr)
qed

section \<open>Windows\<close>

function groups :: "nat \<Rightarrow> 'a list \<Rightarrow> 'a list list" where
  "groups n xs = (if n = 0 \<or> length xs < n then [] else take n xs # groups n (drop n xs))"
  by pat_completeness auto
termination by (relation "measure (\<lambda>(n, xs). length xs)") auto

declare groups.simps [simp del]

lemma groups_short: "length xs < n \<Longrightarrow> groups n xs = []"
  by (simp add: groups.simps)

lemma groups_head: "0 < n \<Longrightarrow> length xs = n \<Longrightarrow> groups n (xs @ ys) = xs # groups n ys"
  by (subst groups.simps) simp

lemma length_groups: "0 < n \<Longrightarrow> length (groups n xs) = length xs div n"
proof (induction n xs rule: groups.induct)
  case (1 n xs)
  show ?case
  proof (cases "length xs < n")
    case False
    with 1 show ?thesis by (subst groups.simps) (simp add: le_div_geq)
  qed (simp add: groups_short)
qed

text \<open>What one window of frames becomes.\<close>

definition window_pcm :: "nat \<Rightarrow> s16 list list \<Rightarrow> s16 list" where
  "window_pcm c window = concat (map (\<lambda>f. [f ! c, f ! (c + 1)]) window)"

lemma window_pcm_nth:
  "i < length window \<Longrightarrow> window_pcm c window ! (2 * i) = window ! i ! c"
  "i < length window \<Longrightarrow> window_pcm c window ! (2 * i + 1) = window ! i ! (c + 1)"
  by (induction window arbitrary: i) (auto simp: window_pcm_def nth_Cons split: nat.splits)

lemma length_window_pcm [simp]: "length (window_pcm c window) = 2 * length window"
  by (induction window) (simp_all add: window_pcm_def)

lemma window_pcm_snoc: "window_pcm c (ws @ [f]) = window_pcm c ws @ [f ! c, f ! (c + 1)]"
  by (simp add: window_pcm_def)

text \<open>
  The extractor in the middle of a window: \<open>hist\<close> are the frames that have arrived since the last
  chunk.
\<close>

definition in_window :: "'s extractor \<Rightarrow> s16 list list \<Rightarrow> bool" where
  "in_window ex hist \<longleftrightarrow> length hist < ex_window_frames ex \<and> ex_window_frames ex \<le> kPcmWindowFrames
     \<and> ex_window_pos ex = length hist
     \<and> length (ex_speaker_pcm ex) = kPcmWindowFrames * kSpeakerChannels
     \<and> length (ex_haptics_pcm ex) = kPcmWindowFrames * kSpeakerChannels
     \<and> take (2 * length hist) (ex_speaker_pcm ex) = window_pcm 0 hist
     \<and> take (2 * length hist) (ex_haptics_pcm ex) = window_pcm 2 hist
     \<and> ex_has_signal ex = list_ex (list_ex (\<lambda>v. v \<noteq> 0)) hist
     \<and> ex_has_haptics_signal ex = list_ex (\<lambda>f. f ! 2 \<noteq> 0 \<or> f ! 3 \<noteq> 0) hist"

lemma take_two_updates:
  "k + 1 < length xs \<Longrightarrow> take (k + 2) (xs[k := a, k + 1 := b]) = take k xs @ [a, b]"
  by (simp add: take_Suc_conv_app_nth nth_list_update)

lemma new_extractor_window:
  "new_extractor enc n = Inr ex \<Longrightarrow> in_window ex [] \<and> ex_window_frames ex = n \<and> ex_pending ex = [] \<and> 0 < n"
  by (auto simp: new_extractor_def in_window_def window_pcm_def bind_result_Inr split: if_splits)

lemma consume_frame_window:
  assumes "in_window ex hist" "consume_frame opus base ex = (ex', Inr cs)"
  defines "hist' \<equiv> hist @ [frame_samples base]" and "n \<equiv> ex_window_frames ex"
  shows "ex_window_frames ex' = n \<and>
    (if length hist' = n then in_window ex' [] \<and>
       (\<exists>block. cs = [\<lparr>ac_haptics = resample_haptics_pcm (window_pcm 2 hist') n, ac_speaker = block,
          ac_has_signal = list_ex (list_ex (\<lambda>v. v \<noteq> 0)) hist',
          ac_has_haptics_signal = list_ex (\<lambda>f. f ! 2 \<noteq> 0 \<or> f ! 3 \<noteq> 0) hist'\<rparr>])
     else in_window ex' hist' \<and> cs = [])"
proof -
  let ?sm = "frame_samples base" and ?k = "length hist * 2"
  have inv: "length hist < n" "n \<le> kPcmWindowFrames" "ex_window_pos ex = length hist"
    "length (ex_speaker_pcm ex) = 1024" "length (ex_haptics_pcm ex) = 1024"
    "take ?k (ex_speaker_pcm ex) = window_pcm 0 hist" "take ?k (ex_haptics_pcm ex) = window_pcm 2 hist"
    "ex_has_signal ex = list_ex (list_ex (\<lambda>v. v \<noteq> 0)) hist"
    "ex_has_haptics_signal ex = list_ex (\<lambda>f. f ! 2 \<noteq> 0 \<or> f ! 3 \<noteq> 0) hist"
    using assms(1) by (simp_all add: in_window_def n_def mult.commute)
  define st where "st = store_frame ?sm ex"
  have sp: "take (?k + 2) (ex_speaker_pcm st) = window_pcm 0 hist'"
    using inv take_two_updates [of ?k "ex_speaker_pcm ex" "?sm ! 0" "?sm ! 1"]
    by (simp add: st_def store_frame_def Let_def hist'_def window_pcm_snoc)
  have hp: "take (?k + 2) (ex_haptics_pcm st) = window_pcm 2 hist'"
    using inv take_two_updates [of ?k "ex_haptics_pcm ex" "?sm ! 2" "?sm ! 3"]
    by (simp add: st_def store_frame_def Let_def hist'_def window_pcm_snoc)
  have st: "ex_window_pos st = length hist'" "ex_window_frames st = n"
    "length (ex_speaker_pcm st) = 1024" "length (ex_haptics_pcm st) = 1024"
    "ex_has_signal st = list_ex (list_ex (\<lambda>v. v \<noteq> 0)) hist'"
    "ex_has_haptics_signal st = list_ex (\<lambda>f. f ! 2 \<noteq> 0 \<or> f ! 3 \<noteq> 0) hist'"
    using inv by (auto simp: st_def store_frame_def Let_def hist'_def n_def)
  have k: "?k + 2 = 2 * length hist'" by (simp add: hist'_def)
  show ?thesis
  proof (cases "length hist' = n")
    case False
    then have "ex' = st" "cs = []"
      using assms(2) st by (simp_all add: consume_frame_def Let_def st_def [symmetric])
    moreover have "length hist' < n" using False inv(1) by (simp add: hist'_def)
    ultimately show ?thesis using False st sp hp k inv(2) by (simp add: in_window_def)
  next
    case True
    have hp': "take (n * 2) (ex_haptics_pcm st) = window_pcm 2 hist'"
      using hp k True by (simp add: mult.commute)
    from assms(2) True st hp' obtain block s' where
      cs: "cs = [\<lparr>ac_haptics = resample_haptics_pcm (window_pcm 2 hist') n, ac_speaker = block,
          ac_has_signal = ex_has_signal st, ac_has_haptics_signal = ex_has_haptics_signal st\<rparr>]"
      and ex': "ex' = st\<lparr>ex_window_pos := 0, ex_encoder := s', ex_has_signal := False, ex_has_haptics_signal := False\<rparr>"
      by (auto simp: consume_frame_def Let_def st_def [symmetric] split: prod.splits sum.splits)
    have "0 < n" using inv(1) by simp
    then have "in_window ex' []" using ex' st inv(2) by (simp add: in_window_def window_pcm_def)
    with True cs st ex' show ?thesis by simp
  qed
qed

lemma consume_frames_windows:
  assumes "in_window ex hist" "consume_frames opus k pcm ex = (ex', Inr cs)" "kPcmFrameSize * k \<le> length pcm"
    and n: "n = ex_window_frames ex"
  shows "map ac_haptics cs = map (\<lambda>w. resample_haptics_pcm (window_pcm 2 w) n)
        (groups n (hist @ map frame_samples (groups kPcmFrameSize (take (kPcmFrameSize * k) pcm))))
    \<and> map ac_has_signal cs = map (list_ex (list_ex (\<lambda>v. v \<noteq> 0)))
        (groups n (hist @ map frame_samples (groups kPcmFrameSize (take (kPcmFrameSize * k) pcm))))"
  using assms
proof (induction k arbitrary: ex hist pcm cs)
  case 0
  then show ?case by (simp add: groups_short in_window_def)
next
  case (Suc k)
  obtain ex1 c1 c2 where 1: "consume_frame opus (take kPcmFrameSize pcm) ex = (ex1, Inr c1)"
    and 2: "consume_frames opus k (drop kPcmFrameSize pcm) ex1 = (ex', Inr c2)" and cs: "cs = c1 @ c2"
    using Suc.prems(2) by (auto split: prod.splits sum.splits simp: bind_result_Inr)
  let ?f = "frame_samples (take kPcmFrameSize pcm)"
  have len: "kPcmFrameSize * k \<le> length (drop kPcmFrameSize pcm)" and l8: "length (take kPcmFrameSize pcm) = kPcmFrameSize"
    using Suc.prems(3) by auto
  have "take (kPcmFrameSize * Suc k) pcm = take kPcmFrameSize pcm @ take (kPcmFrameSize * k) (drop kPcmFrameSize pcm)"
    using take_add [of kPcmFrameSize "kPcmFrameSize * k" pcm] by simp
  with l8 have g: "groups kPcmFrameSize (take (kPcmFrameSize * Suc k) pcm)
      = take kPcmFrameSize pcm # groups kPcmFrameSize (take (kPcmFrameSize * k) (drop kPcmFrameSize pcm))"
    by (simp only: groups_head)
  let ?rest = "map frame_samples (groups kPcmFrameSize (take (kPcmFrameSize * k) (drop kPcmFrameSize pcm)))"
  note w = consume_frame_window [OF Suc.prems(1) 1]
  have n1: "n = ex_window_frames ex1" using w Suc.prems(4) by simp
  have pos: "0 < n" using Suc.prems(1,4) by (simp add: in_window_def)
  show ?case
  proof (cases "length (hist @ [?f]) = n")
    case True
    with w Suc.prems(4) have w1: "in_window ex1 []" and c1: "map ac_haptics c1 = [resample_haptics_pcm (window_pcm 2 (hist @ [?f])) n]"
      "map ac_has_signal c1 = [list_ex (list_ex (\<lambda>v. v \<noteq> 0)) (hist @ [?f])]" by auto
    have gr: "groups n (hist @ ?f # ?rest) = (hist @ [?f]) # groups n ?rest"
      using groups_head [OF pos True, of ?rest] by simp
    from Suc.IH [OF w1 2 len n1] show ?thesis
      unfolding g list.map gr cs map_append c1 by simp
  next
    case False
    with w Suc.prems(4) have w1: "in_window ex1 (hist @ [?f])" and "c1 = []" by auto
    with Suc.IH [OF w1 2 len n1] cs show ?thesis unfolding g by simp
  qed
qed

section \<open>Properties\<close>

text \<open>
  Cutting the USB audio stream into calls does not matter: as long as the encoder does not
  fail, two ways to cut the same bytes give the same chunks and leave the same extractor.
\<close>

theorem audio_cuts_do_not_matter:
  assumes "new_extractor encoder n = Inr ex"
    and "push_all (push_usb_audio opus) xss ex = (ex', Inr cs)"
    and "push_all (push_usb_audio opus) yss ex = (ex'', Inr ds)" and "concat xss = concat yss"
  shows "cs = ds \<and> ex' = ex''"
proof -
  have "ex_aligned ex" using new_extractor_window [OF assms(1)] by (simp add: ex_aligned_def)
  from usb_audio.cuts_do_not_matter [OF this assms(2-4)] show ?thesis .
qed

definition silent_opus :: "unit opus_encoder" where
  "silent_opus s pcm = (s, Inr [])"

lemma example_extractor:
  obtains ex :: "unit extractor" where "new_extractor (Inr ()) 16 = Inr ex"
    "push_all (push_usb_audio silent_opus) [[1, 0], [2, 0, 3]] ex = (ex\<lparr>ex_pending := [1, 0, 2, 0, 3]\<rparr>, Inr [])"
    "push_all (push_usb_audio silent_opus) [[1, 0, 2, 0, 3]] ex = (ex\<lparr>ex_pending := [1, 0, 2, 0, 3]\<rparr>, Inr [])"
proof -
  obtain ex :: "unit extractor" where ex: "new_extractor (Inr ()) 16 = Inr ex"
    by (simp add: new_extractor_def)
  then have "ex_pending ex = []" using new_extractor_window by blast
  with that ex show thesis by (simp add: push_short)
qed

theorem audio_cuts_do_not_matter_witness:
  "\<exists>ex ex' cs. new_extractor (Inr ()) 16 = Inr ex
     \<and> push_all (push_usb_audio silent_opus) [[1, 0], [2, 0, 3]] ex = (ex', Inr cs)
     \<and> push_all (push_usb_audio silent_opus) [[1, 0, 2, 0, 3]] ex = (ex', Inr cs)"
proof -
  obtain ex :: "unit extractor" where ex: "new_extractor (Inr ()) 16 = Inr ex"
    and 1: "push_all (push_usb_audio silent_opus) [[1, 0], [2, 0, 3]] ex = (ex\<lparr>ex_pending := [1, 0, 2, 0, 3]\<rparr>, Inr [])"
    and 2: "push_all (push_usb_audio silent_opus) [[1, 0, 2, 0, 3]] ex = (ex\<lparr>ex_pending := [1, 0, 2, 0, 3]\<rparr>, Inr [])"
    by (rule example_extractor)
  from audio_cuts_do_not_matter [OF ex 1 2] ex 1 2 show ?thesis by auto
qed

text \<open>
  The chunks are the windows of the stream: a fresh extractor turns the frames of a call into
  one chunk for each full window, whose haptics block is the resampled third and fourth channel
  of this window and whose signal flag says whether any of its samples is not zero.
\<close>

theorem chunks_are_windows:
  assumes "new_extractor encoder n = Inr ex" and "push_usb_audio opus pcm ex = (ex', Inr cs)"
  shows "map ac_haptics cs = map (\<lambda>w. resample_haptics_pcm (window_pcm 2 w) n)
        (groups n (map frame_samples (groups kPcmFrameSize (take (kPcmFrameSize * whole_frames pcm) pcm))))
    \<and> map ac_has_signal cs = map (list_ex (list_ex (\<lambda>v. v \<noteq> 0)))
        (groups n (map frame_samples (groups kPcmFrameSize (take (kPcmFrameSize * whole_frames pcm) pcm))))
    \<and> length cs = length pcm div kPcmFrameSize div n"
proof -
  note ex = new_extractor_window [OF assms(1)]
  have "frames_result opus (ex_pending ex @ pcm) ex = (ex', Inr cs)"
    using assms(2) ex by (simp add: push_Inr)
  then obtain ex1 where "consume_frames opus (whole_frames pcm) pcm ex = (ex1, Inr cs)"
    using ex by (auto simp: frames_result_def split: prod.splits)
  note w = consume_frames_windows [OF conjunct1 [OF ex] this whole_frames_le, of n]
  have "length cs = length (map ac_haptics cs)" by simp
  also have "\<dots> = length pcm div kPcmFrameSize div n"
    using w ex whole_frames_le [of pcm] by (simp add: length_groups whole_frames_def)
  finally show ?thesis using w ex by simp
qed

theorem chunks_are_windows_witness:
  "\<exists>ex ex' cs. new_extractor (Inr ()) 16 = Inr ex \<and> push_usb_audio silent_opus (replicate 128 1) ex = (ex', Inr cs)
     \<and> length cs = 1"
proof -
  obtain ex :: "unit extractor" where ex: "new_extractor (Inr ()) 16 = Inr ex"
    by (simp add: new_extractor_def)
  obtain ex' r where run: "push_usb_audio silent_opus (replicate 128 1) ex = (ex', r)" by (metis surj_pair)
  have no_error: "\<exists>ex' cs. consume_frame silent_opus b e = (ex', Inr cs)" for b e
    by (auto simp: consume_frame_def encode_speaker_def silent_opus_def Let_def split: prod.splits)
  have no_errors: "\<exists>ex' cs. consume_frames silent_opus k b e = (ex', Inr cs)" for k b e
  proof (induction k arbitrary: b e)
    case (Suc k)
    obtain e1 cs where 1: "consume_frame silent_opus (take kPcmFrameSize b) e = (e1, Inr cs)" using no_error by blast
    obtain e2 ds where "consume_frames silent_opus k (drop kPcmFrameSize b) e1 = (e2, Inr ds)" using Suc by blast
    with 1 show ?case by simp
  qed simp
  have "ex_pending ex = []" using new_extractor_window [OF ex] by simp
  then obtain cs where "r = Inr cs"
    using no_errors [of "whole_frames (replicate 128 1)" "replicate 128 1" ex]
      push_by_frames [of ex silent_opus "replicate 128 1"] run
    by (auto simp: frames_result_def)
  with chunks_are_windows [OF ex, of silent_opus "replicate 128 1"] run ex show ?thesis by auto
qed

text \<open>
  Resampling neither overshoots nor wraps: every speaker sample lies between two samples of
  its channel in the window, every haptics sample is the 8-bit value of an average that lies
  between the bounds of the samples it averages.
\<close>

theorem resampling_in_bounds:
  assumes "0 < frames" and "f < kSpeakerOpusFrames" and "start < stop"
    and "\<And>i. start \<le> i \<Longrightarrow> i < stop \<Longrightarrow> lo \<le> sint (pcm ! (i * 2 + c)) \<and> sint (pcm ! (i * 2 + c)) \<le> hi"
  shows "(\<exists>i j. i < frames \<and> j < frames
      \<and> min (sint (pcm ! (i * 2 + c))) (sint (pcm ! (j * 2 + c))) \<le> sint (resample_speaker_sample pcm frames f c)
      \<and> sint (resample_speaker_sample pcm frames f c) \<le> max (sint (pcm ! (i * 2 + c))) (sint (pcm ! (j * 2 + c))))
    \<and> max lo (- 32768) \<le> sint (haptics_average pcm start stop c)
    \<and> sint (haptics_average pcm start stop c) \<le> min hi 32767
    \<and> sint (s16_to_s8_haptic (haptics_average pcm start stop c)) = sint (haptics_average pcm start stop c) sdiv 256"
proof (intro conjI)
  obtain i j where ij: "i < frames" "j < frames"
      "min (sint (pcm ! (i * 2 + c))) (sint (pcm ! (j * 2 + c))) \<le> sint (resample_speaker_sample pcm frames f c)"
      "sint (resample_speaker_sample pcm frames f c) \<le> max (sint (pcm ! (i * 2 + c))) (sint (pcm ! (j * 2 + c)))"
    by (rule speaker_sample_between [OF assms(1,2)])
  then show "\<exists>i j. i < frames \<and> j < frames
      \<and> min (sint (pcm ! (i * 2 + c))) (sint (pcm ! (j * 2 + c))) \<le> sint (resample_speaker_sample pcm frames f c)
      \<and> sint (resample_speaker_sample pcm frames f c) \<le> max (sint (pcm ! (i * 2 + c))) (sint (pcm ! (j * 2 + c)))"
    by (intro exI conjI)
  have all: "max lo (- 32768) \<le> sint (pcm ! (i * 2 + c)) \<and> sint (pcm ! (i * 2 + c)) \<le> min hi 32767"
    if "start \<le> i" "i < stop" for i
    using assms(4) [OF that] sint_s16_range [of "pcm ! (i * 2 + c)"] by linarith
  show "max lo (- 32768) \<le> sint (haptics_average pcm start stop c)"
    by (rule average_between(1) [OF assms(3) all]) simp_all
  show "sint (haptics_average pcm start stop c) \<le> min hi 32767"
    by (rule average_between(2) [OF assms(3) all]) simp_all
qed (rule s16_to_s8_value)

theorem resampling_in_bounds_witness:
  "\<exists>i j. i < 2 \<and> j < 2
      \<and> min (sint ([0, 0, 100, 100 :: s16] ! (i * 2 + 0))) (sint ([0, 0, 100, 100 :: s16] ! (j * 2 + 0)))
          \<le> sint (resample_speaker_sample [0, 0, 100, 100] 2 120 0)
      \<and> sint (resample_speaker_sample [0, 0, 100, 100] 2 120 0)
          \<le> max (sint ([0, 0, 100, 100 :: s16] ! (i * 2 + 0))) (sint ([0, 0, 100, 100 :: s16] ! (j * 2 + 0)))"
  by (rule resampling_in_bounds [of 2 120 0 1 "- 32768" _ 0 32767, THEN conjunct1])
    (simp_all add: sint_s16_range)

end
