(* ===== verification/DaemonCore.thy ===== *)
theory DaemonCore
  imports Config
begin

text \<open>
  \<open>src/src/vdsd_common.cc\<close>, first half: what both daemons (\<open>platform/linux/vdsd.cc\<close> and
  \<open>platform/win32/vdsd.cc\<close>) share apart from the control commands. Options, trace scopes, the
  warnings already given, the port table shown to clients, the decision to launch a worker for a
  controller, when a running worker is stale, and the backoff after a worker failed.
\<close>

section \<open>Options\<close>

record vdsd_common_options =
  vo_db_path :: string
  vo_log_path :: string
  vo_help_requested :: bool

text \<open>
  \<open>std::filesystem::path::operator/\<close> on Windows with a relative right-hand side: a separator is
  put in between unless there is one, or the left-hand side is a bare drive.
\<close>

definition windows_path_append :: "string \<Rightarrow> string \<Rightarrow> string" where
  "windows_path_append base name =
     (if base = [] \<or> last base = backslash \<or> last base = CHR ''/''
         \<or> (length base = 2 \<and> last base = CHR '':'') then base @ name
      else base @ [backslash] @ name)"

text \<open>The environment variable \<open>ProgramData\<close>; \<open>None\<close> when it is absent or empty.\<close>

definition windows_program_data_file :: "string option \<Rightarrow> string \<Rightarrow> string result" where
  "windows_program_data_file program_data filename =
     (case program_data of
        None \<Rightarrow> Inl (Runtime_error ''ProgramData is not available'')
      | Some base \<Rightarrow> Inr (windows_path_append (windows_path_append base ''vDS'') filename))"

fun default_vdsd_common_options :: "platform \<Rightarrow> string option \<Rightarrow> vdsd_common_options result" where
  "default_vdsd_common_options Windows program_data =
     bind_result (windows_program_data_file program_data ''vdsd.db'') (\<lambda>db.
     bind_result (windows_program_data_file program_data ''vdsd.log'') (\<lambda>log.
       Inr \<lparr>vo_db_path = db, vo_log_path = log, vo_help_requested = False\<rparr>))"
| "default_vdsd_common_options Linux program_data =
     Inr \<lparr>vo_db_path = ''/var/lib/vds/vdsd.db'', vo_log_path = ''/var/log/vdsd.log'',
          vo_help_requested = False\<rparr>"

definition vdsd_usage :: "platform \<Rightarrow> string option \<Rightarrow> string \<Rightarrow> string \<Rightarrow> string \<Rightarrow> string result" where
  "vdsd_usage platform program_data version build_year platform_options =
     bind_result (default_vdsd_common_options platform program_data) (\<lambda>defaults.
       Inr (''vdsd ('' @ version @ ''): vDS daemon - Copyright (C) '' @ build_year @ '' Jihong Min''
         @ [CHR 0x0A] @ ''usage:'' @ [CHR 0x0A] @ ''  vdsd [--db-path '' @ vo_db_path defaults
         @ ''] [--log '' @ vo_log_path defaults @ '']''
         @ (if platform_options = [] then [] else '' '' @ platform_options) @ [CHR 0x0A]))"

text \<open>Whether the argument at the index was one of these, the index of its last word, the options.\<close>

definition parse_vdsd_common_option ::
    "string list \<Rightarrow> nat \<Rightarrow> vdsd_common_options \<Rightarrow> (bool \<times> nat \<times> vdsd_common_options) result" where
  "parse_vdsd_common_option argv index options =
     (let arg = argv ! index in
      if arg = ''--db-path'' then
        (if index + 1 \<ge> length argv then Inl (Runtime_error ''--db-path requires a path'')
         else Inr (True, index + 1, options\<lparr>vo_db_path := argv ! (index + 1)\<rparr>))
      else if arg = ''--log'' then
        (if index + 1 \<ge> length argv then Inl (Runtime_error ''--log requires a path'')
         else Inr (True, index + 1, options\<lparr>vo_log_path := argv ! (index + 1)\<rparr>))
      else if arg = ''--help'' \<or> arg = ''-h'' then
        Inr (True, index, options\<lparr>vo_help_requested := True\<rparr>)
      else Inr (False, index, options))"

definition is_command_padding :: "char \<Rightarrow> bool" where
  "is_command_padding c \<longleftrightarrow> c = CHR 0x0A \<or> c = CHR 0x0D \<or> c = CHR '' '' \<or> c = CHR 0x09"

definition trim_command :: "string \<Rightarrow> string" where
  "trim_command command = rev (dropWhile is_command_padding (rev command))"

section \<open>Trace scopes\<close>

definition kTraceInputAudio :: u32 where "kTraceInputAudio = 1"
definition kTraceInputControl :: u32 where "kTraceInputControl = push_bit 1 1"
definition kTraceInput :: u32 where "kTraceInput = kTraceInputAudio OR kTraceInputControl"
definition kTraceOutput :: u32 where "kTraceOutput = push_bit 2 1"
definition kTraceAll :: u32 where "kTraceAll = kTraceInput OR kTraceOutput"

definition trace_scope_error :: exn where
  "trace_scope_error = Runtime_error (''trace scope must be all, input, input-audio, input-control, output, ''
     @ ''or comma-separated scopes'')"

definition trace_item_flags :: "string \<Rightarrow> u32 result" where
  "trace_item_flags item =
     (if item = ''input'' \<or> item = ''all'' then
        Inr (kTraceInput OR (if item = ''all'' then kTraceOutput else 0))
      else if item = ''input-audio'' then Inr kTraceInputAudio
      else if item = ''input-control'' then Inr kTraceInputControl
      else if item = ''output'' then Inr kTraceOutput
      else Inl trace_scope_error)"

function parse_trace_scope_from :: "u32 \<Rightarrow> string \<Rightarrow> u32 result" where
  "parse_trace_scope_from flags scope =
     (case split_first (CHR '','') scope of
        (item, after) \<Rightarrow>
          (case trace_item_flags item of
             Inl e \<Rightarrow> Inl e
           | Inr f \<Rightarrow>
               (case after of
                  None \<Rightarrow> Inr (flags OR f)
                | Some rest \<Rightarrow> parse_trace_scope_from (flags OR f) rest)))"
  by pat_completeness auto
termination
  by (relation "measure (\<lambda>(flags, scope). length scope)") (auto dest: split_first_length sym)

declare parse_trace_scope_from.simps [simp del]

definition parse_trace_scope :: "string \<Rightarrow> u32 result" where
  "parse_trace_scope scope = parse_trace_scope_from 0 scope"

definition trace_enabled :: "u32 \<Rightarrow> u32 \<Rightarrow> bool" where
  "trace_enabled trace_flags target \<longleftrightarrow> trace_flags AND target \<noteq> 0"

definition trace_scope_name :: "u32 \<Rightarrow> string" where
  "trace_scope_name scope =
     (if scope = kTraceAll then ''all''
      else if scope = kTraceInput then ''input''
      else if scope = kTraceInputAudio then ''input-audio''
      else if scope = kTraceInputControl then ''input-control''
      else if scope = kTraceOutput then ''output''
      else
        (let n1 = (if trace_enabled scope kTraceInputAudio then ''input-audio'' else []);
             n2 = (if trace_enabled scope kTraceInputControl
                   then (if n1 \<noteq> [] then n1 @ '','' else n1) @ ''input-control'' else n1);
             n3 = (if trace_enabled scope kTraceOutput
                   then (if n2 \<noteq> [] then n2 @ '','' else n2) @ ''output'' else n2)
         in if n3 = [] then ''none'' else n3))"

definition active_trace_name :: "u32 \<Rightarrow> string" where
  "active_trace_name trace_flags =
     (let flags = trace_flags AND kTraceAll in
      if flags = 0 then ''none'' else trace_scope_name flags)"

definition format_controller_config :: "controller_config \<Rightarrow> string" where
  "format_controller_config config =
     cc_address config @ '' profile='' @ [CHR 0x22] @ controller_profile_name (cc_profile config)
     @ [CHR 0x22] @ '' ports=''
     @ (if cc_ports config = [] then ''[]'' else ''['' @ format_ports (cc_ports config) @ '']'')"

section \<open>Warnings already given\<close>

definition remember_vdsd_warning :: "string list \<Rightarrow> string \<Rightarrow> bool \<times> string list" where
  "remember_vdsd_warning warnings key =
     (if key \<in> set warnings then (False, warnings) else (True, warnings @ [key]))"

definition forget_vdsd_warning :: "string list \<Rightarrow> string \<Rightarrow> string list" where
  "forget_vdsd_warning warnings key = filter (\<lambda>item. item \<noteq> key) warnings"

definition warning_prefix :: "string \<Rightarrow> string" where
  "warning_prefix key = key @ [CHR 0x0A]"

definition forget_vdsd_warning_state :: "string list \<Rightarrow> string \<Rightarrow> string list" where
  "forget_vdsd_warning_state warnings key =
     filter (\<lambda>existing. \<not> prefix (warning_prefix key) existing) warnings"

definition remember_vdsd_warning_state :: "string list \<Rightarrow> string \<Rightarrow> string \<Rightarrow> bool \<times> string list" where
  "remember_vdsd_warning_state warnings key state =
     (let entry = warning_prefix key @ state in
      if entry \<in> set warnings then (False, warnings)
      else (True, filter (\<lambda>existing. \<not> prefix (warning_prefix key) existing) warnings @ [entry]))"

section \<open>The port table of the clients\<close>

record vdsd_control_controller_status =
  vc_address :: string
  vc_connected :: bool
  vc_path :: string

record vdsd_control_port_status =
  vp_port :: nat
  vp_path :: string
  vp_occupied :: bool
  vp_address :: string
  vp_device_address :: string

record vdsd_control_port_candidate =
  vk_port :: nat
  vk_path :: string

record vdsd_control_port_binding =
  vb_port :: nat
  vb_address :: string
  vb_device_address :: string

definition build_vdsd_control_port_statuses ::
    "vdsd_control_port_candidate list \<Rightarrow> vdsd_control_port_binding list \<Rightarrow> vdsd_control_port_status list" where
  "build_vdsd_control_port_statuses candidates bindings =
     map (\<lambda>candidate.
       let binding = find_entry vb_port bindings (vk_port candidate) in
       \<lparr>vp_port = vk_port candidate, vp_path = vk_path candidate, vp_occupied = (binding \<noteq> None),
        vp_address = (case binding of None \<Rightarrow> [] | Some b \<Rightarrow> vb_address b),
        vp_device_address = (case binding of None \<Rightarrow> [] | Some b \<Rightarrow> vb_device_address b)\<rparr>) candidates"

section \<open>Launching a worker\<close>

datatype vdsd_worker_launch_status =
  Ready | VirtualPortProviderUnavailable | DeviceAddressReserved | NoAvailablePort

record vdsd_worker_launch_decision =
  ld_status :: vdsd_worker_launch_status
  ld_config :: controller_config
  ld_port :: nat
  ld_device_address :: string

definition select_vdsd_worker_launch_decision ::
    "controller_config \<Rightarrow> nat list \<Rightarrow> nat list \<Rightarrow> string \<Rightarrow> bool \<Rightarrow> string list
      \<Rightarrow> vdsd_worker_launch_decision" where
  "select_vdsd_worker_launch_decision config available reserved device_address provider_available
       reserved_addresses =
     (if \<not> provider_available then
        \<lparr>ld_status = VirtualPortProviderUnavailable, ld_config = config, ld_port = 0,
         ld_device_address = device_address\<rparr>
      else if device_address \<in> set reserved_addresses then
        \<lparr>ld_status = DeviceAddressReserved, ld_config = config, ld_port = 0,
         ld_device_address = device_address\<rparr>
      else
        (case select_controller_config_port config available reserved of
           None \<Rightarrow> \<lparr>ld_status = NoAvailablePort, ld_config = config, ld_port = 0,
                    ld_device_address = device_address\<rparr>
         | Some port \<Rightarrow> \<lparr>ld_status = Ready, ld_config = config\<lparr>cc_ports := [port]\<rparr>, ld_port = port,
                    ld_device_address = device_address\<rparr>))"

definition vdsd_worker_config_is_stale ::
    "config_db \<Rightarrow> string \<Rightarrow> controller_profile \<Rightarrow> nat \<Rightarrow> bool \<Rightarrow> bool" where
  "vdsd_worker_config_is_stale db address profile port port_enabled =
     (case find_controller_config_by_address db address of
        None \<Rightarrow> True
      | Some config \<Rightarrow> cc_profile config \<noteq> profile
          \<or> \<not> controller_config_allows_port config port \<or> \<not> port_enabled)"

section \<open>Backoff after a failure\<close>

text \<open>Points of the steady clock are integers of its own tick.\<close>

record vdsd_worker_failure_backoff =
  bo_address :: string
  bo_retry_after :: int

definition record_vdsd_worker_failure ::
    "vdsd_worker_failure_backoff list \<Rightarrow> string \<Rightarrow> int \<Rightarrow> vdsd_worker_failure_backoff list" where
  "record_vdsd_worker_failure backoffs address retry_after =
     replace_or_append bo_address \<lparr>bo_address = address, bo_retry_after = retry_after\<rparr> backoffs"

text \<open>\<open>erase(existing)\<close>: the first entry with the address goes, later ones stay.\<close>

fun erase_entry :: "('v \<Rightarrow> 'k) \<Rightarrow> 'k \<Rightarrow> 'v list \<Rightarrow> 'v list" where
  "erase_entry key k [] = []"
| "erase_entry key k (x # xs) = (if key x = k then xs else x # erase_entry key k xs)"

definition consume_vdsd_worker_retry ::
    "vdsd_worker_failure_backoff list \<Rightarrow> string \<Rightarrow> int \<Rightarrow> bool \<times> vdsd_worker_failure_backoff list" where
  "consume_vdsd_worker_retry backoffs address now =
     (case find_entry bo_address backoffs address of
        None \<Rightarrow> (True, backoffs)
      | Some entry \<Rightarrow>
          if now < bo_retry_after entry then (False, backoffs)
          else (True, erase_entry bo_address address backoffs))"

section \<open>Backoffs as a map from addresses to points in time\<close>

lemma find_entry_erase:
  "distinct_keys key xs \<Longrightarrow> find_entry key (erase_entry key k xs) k' = (if k' = k then None else find_entry key xs k')"
proof (induction xs)
  case (Cons x xs)
  then show ?case by (auto simp: distinct_keys_def find_entry_None_iff)
qed simp

lemma erase_entry_filter:
  "distinct_keys key xs \<Longrightarrow> erase_entry key k xs = filter (\<lambda>x. key x \<noteq> k) xs"
proof (induction xs)
  case (Cons x xs)
  have "filter (\<lambda>y. key y \<noteq> key x) xs = xs"
    using Cons.prems by (intro filter_True) (auto simp: distinct_keys_def image_iff dest: sym)
  with Cons show ?case by (auto simp: distinct_keys_def)
qed simp

lemma distinct_erase_entry: "distinct_keys key xs \<Longrightarrow> distinct_keys key (erase_entry key k xs)"
  by (simp add: erase_entry_filter distinct_keys_filter)

interpretation backoff_store: keyed_store bo_address "find_entry bo_address"
  "replace_or_append bo_address" "erase_entry bo_address" "distinct_keys bo_address"
  by unfold_locales
    (simp_all add: find_entry_replace find_entry_erase distinct_replace_or_append distinct_erase_entry)

text \<open>
  What the supervisor of a daemon does with its backoffs: a worker failed, or a launch asks
  whether it may try again. The outputs are the answers to the launches.
\<close>

datatype backoff_op = Worker_failed string int | Try_launch string int

fun run_backoffs :: "backoff_op list \<Rightarrow> vdsd_worker_failure_backoff list \<Rightarrow> bool list" where
  "run_backoffs [] backoffs = []"
| "run_backoffs (Worker_failed a t # ops) backoffs =
     run_backoffs ops (record_vdsd_worker_failure backoffs a t)"
| "run_backoffs (Try_launch a now # ops) backoffs =
     (case consume_vdsd_worker_retry backoffs a now of
        (answer, backoffs') \<Rightarrow> answer # run_backoffs ops backoffs')"

text \<open>
  What is promised: each address has at most one pending point in time, the last one recorded; a
  launch before it is refused and leaves it, a launch from it on is granted and clears it.
\<close>

fun backoff_spec :: "backoff_op list \<Rightarrow> (string \<rightharpoonup> int) \<Rightarrow> bool list" where
  "backoff_spec [] pending = []"
| "backoff_spec (Worker_failed a t # ops) pending = backoff_spec ops (pending(a \<mapsto> t))"
| "backoff_spec (Try_launch a now # ops) pending =
     (case pending a of
        Some t \<Rightarrow>
          if now < t then False # backoff_spec ops pending
          else True # backoff_spec ops (pending(a := None))
      | None \<Rightarrow> True # backoff_spec ops pending)"

definition pending_of :: "vdsd_worker_failure_backoff list \<Rightarrow> string \<rightharpoonup> int" where
  "pending_of backoffs = (\<lambda>a. map_option bo_retry_after (find_entry bo_address backoffs a))"

lemma pending_of_record:
  "distinct_keys bo_address bs \<Longrightarrow> pending_of (record_vdsd_worker_failure bs a t) = (pending_of bs)(a \<mapsto> t)"
  by (auto simp: pending_of_def record_vdsd_worker_failure_def fun_eq_iff backoff_store.look_upd)

lemma pending_of_erase:
  "distinct_keys bo_address bs \<Longrightarrow> pending_of (erase_entry bo_address a bs) = (pending_of bs)(a := None)"
  by (auto simp: pending_of_def fun_eq_iff backoff_store.look_del)

lemma run_backoffs_refines:
  "distinct_keys bo_address bs \<Longrightarrow> run_backoffs ops bs = backoff_spec ops (pending_of bs)"
proof (induction ops bs rule: run_backoffs.induct)
  case (2 a t ops bs)
  have "distinct_keys bo_address (record_vdsd_worker_failure bs a t)"
    using 2(2) unfolding record_vdsd_worker_failure_def by (rule backoff_store.inv_upd)
  with 2 show ?case by (simp add: pending_of_record del: fun_upd_apply)
next
  case (3 a now ops bs)
  have "distinct_keys bo_address (erase_entry bo_address a bs)"
    using 3(2) by (rule backoff_store.inv_del)
  note erased = 3(1) [OF _ this] pending_of_erase [OF 3(2)]
  show ?case
  proof (cases "find_entry bo_address bs a")
    case None
    then have "pending_of bs a = None" by (simp add: pending_of_def)
    with None 3 show ?thesis by (simp add: consume_vdsd_worker_retry_def)
  next
    case (Some e)
    then have "pending_of bs a = Some (bo_retry_after e)" by (simp add: pending_of_def)
    with Some 3 erased show ?thesis
      by (cases "now < bo_retry_after e")
        (auto simp: consume_vdsd_worker_retry_def simp del: fun_upd_apply)
  qed
qed simp

section \<open>Warning states as a map from keys\<close>

definition has_newline :: "string \<Rightarrow> bool" where
  "has_newline s \<longleftrightarrow> CHR 0x0A \<in> set s"

definition warning_key :: "string \<Rightarrow> string" where
  "warning_key entry = fst (split_first (CHR 0x0A) entry)"

lemma prefix_warning_key:
  assumes "\<not> has_newline k"
  shows "prefix (warning_prefix k) e \<longleftrightarrow> has_newline e \<and> warning_key e = k"
proof
  assume "prefix (warning_prefix k) e"
  then obtain r where "e = k @ CHR 0x0A # r" by (auto simp: warning_prefix_def prefix_def)
  with assms show "has_newline e \<and> warning_key e = k"
    by (simp add: has_newline_def warning_key_def split_first_Some)
next
  assume e: "has_newline e \<and> warning_key e = k"
  then obtain u r where "e = u @ CHR 0x0A # r" "CHR 0x0A \<notin> set u"
    unfolding has_newline_def by (meson split_list_first)
  with e show "prefix (warning_prefix k) e"
    by (auto simp: warning_key_def split_first_Some warning_prefix_def)
qed

text \<open>The state remembered for a key.\<close>

definition warned_state :: "string list \<Rightarrow> string \<rightharpoonup> string" where
  "warned_state ws k =
     map_option (drop (length (warning_prefix k))) (find (prefix (warning_prefix k)) ws)"

definition one_state_per_key :: "string list \<Rightarrow> bool" where
  "one_state_per_key ws \<longleftrightarrow> distinct_keys warning_key (filter has_newline ws)"

lemma find_prefix_entry:
  "\<not> has_newline k \<Longrightarrow> find (prefix (warning_prefix k)) ws = find_entry warning_key (filter has_newline ws) k"
  by (induction ws) (auto simp: prefix_warning_key)

lemma warned_state_remember_entry:
  assumes "\<not> has_newline k" and "one_state_per_key ws"
  shows "warning_prefix k @ st \<in> set ws \<longleftrightarrow> warned_state ws k = Some st"
proof
  let ?e = "warning_prefix k @ st"
  have e: "has_newline ?e" "warning_key ?e = k"
    using prefix_warning_key [OF assms(1), of ?e] by simp_all
  assume "?e \<in> set ws"
  with e have "find_entry warning_key (filter has_newline ws) (warning_key ?e) = Some ?e"
    using assms(2) by (intro distinct_keys_find) (simp_all add: one_state_per_key_def)
  with e show "warned_state ws k = Some st"
    by (simp add: warned_state_def find_prefix_entry [OF assms(1)])
next
  assume "warned_state ws k = Some st"
  then obtain e where e: "find (prefix (warning_prefix k)) ws = Some e"
    and st: "st = drop (length (warning_prefix k)) e" by (auto simp: warned_state_def)
  from e have "e \<in> set ws" "prefix (warning_prefix k) e" by (auto simp: find_Some_iff)
  then show "warning_prefix k @ st \<in> set ws" by (auto simp: st prefix_def)
qed

lemma filter_prefix_swap:
  assumes "\<not> has_newline k"
  shows "filter has_newline (filter (\<lambda>e. \<not> prefix (warning_prefix k) e) ws)
    = filter (\<lambda>e. warning_key e \<noteq> k) (filter has_newline ws)"
  by (induction ws) (auto simp: prefix_warning_key [OF assms])

lemma forget_state_map:
  assumes "\<not> has_newline k" and "\<not> has_newline k'"
  shows "warned_state (forget_vdsd_warning_state ws k) k' = ((warned_state ws)(k := None)) k'"
  by (simp add: warned_state_def find_prefix_entry [OF assms(2)] forget_vdsd_warning_state_def
      filter_prefix_swap [OF assms(1)] find_entry_filter del: filter_filter)

lemma forget_state_inv:
  "\<not> has_newline k \<Longrightarrow> one_state_per_key ws \<Longrightarrow> one_state_per_key (forget_vdsd_warning_state ws k)"
  by (simp add: one_state_per_key_def forget_vdsd_warning_state_def filter_prefix_swap distinct_keys_filter
      del: filter_filter)

lemma find_entry_append:
  "find_entry key (xs @ ys) k = (case find_entry key xs k of Some x \<Rightarrow> Some x | None \<Rightarrow> find_entry key ys k)"
  by (induction xs) auto

lemma append_state_map:
  assumes "\<not> has_newline k" and "\<not> has_newline k'" and "warned_state ws k = None"
  shows "warned_state (ws @ [warning_prefix k @ st]) k' = ((warned_state ws)(k \<mapsto> st)) k'"
proof -
  let ?e = "warning_prefix k @ st"
  have e: "has_newline ?e" "warning_key ?e = k"
    using prefix_warning_key [OF assms(1), of ?e] by simp_all
  with assms show ?thesis
    by (auto simp: warned_state_def find_prefix_entry find_entry_append split: option.splits)
qed

lemma append_state_inv:
  assumes "\<not> has_newline k" and "one_state_per_key ws" and "warned_state ws k = None"
  shows "one_state_per_key (ws @ [warning_prefix k @ st])"
proof -
  let ?e = "warning_prefix k @ st"
  have e: "has_newline ?e" "warning_key ?e = k"
    using prefix_warning_key [OF assms(1), of ?e] by simp_all
  with assms show ?thesis
    by (simp add: one_state_per_key_def distinct_keys_snoc warned_state_def find_prefix_entry)
qed

text \<open>One call, against the map: it warns exactly when the state of the key is a new one.\<close>

lemma remember_state_step:
  assumes "\<not> has_newline k" and "one_state_per_key ws"
    and "remember_vdsd_warning_state ws k st = (warn, ws')"
  shows "warn = (warned_state ws k \<noteq> Some st)" "one_state_per_key ws'"
    "\<not> has_newline k' \<Longrightarrow> warned_state ws' k' = ((warned_state ws)(k \<mapsto> st)) k'"
proof -
  have entry: "warning_prefix k @ st \<in> set ws \<longleftrightarrow> warned_state ws k = Some st"
    by (rule warned_state_remember_entry [OF assms(1,2)])
  let ?f = "forget_vdsd_warning_state ws k"
  have none: "warned_state ?f k = None" by (simp add: forget_state_map assms(1))
  have f: "one_state_per_key ?f" by (rule forget_state_inv [OF assms(1,2)])
  have "ws' = (if warned_state ws k = Some st then ws else ?f @ [warning_prefix k @ st])"
    and "warn = (warned_state ws k \<noteq> Some st)"
    using assms(3) entry
    by (auto simp: remember_vdsd_warning_state_def forget_vdsd_warning_state_def Let_def split: if_splits)
  then show "warn = (warned_state ws k \<noteq> Some st)" "one_state_per_key ws'"
    "\<not> has_newline k' \<Longrightarrow> warned_state ws' k' = ((warned_state ws)(k \<mapsto> st)) k'"
    using append_state_inv [OF assms(1) f none] assms(2)
      append_state_map [OF assms(1) _ none] forget_state_map [OF assms(1)] by auto
qed

datatype warning_op = Warn_state string string | Clear_state string

fun warning_op_key :: "warning_op \<Rightarrow> string" where
  "warning_op_key (Warn_state k _) = k"
| "warning_op_key (Clear_state k) = k"

fun run_warnings :: "warning_op list \<Rightarrow> string list \<Rightarrow> bool list" where
  "run_warnings [] ws = []"
| "run_warnings (Warn_state k st # ops) ws =
     (case remember_vdsd_warning_state ws k st of (warn, ws') \<Rightarrow> warn # run_warnings ops ws')"
| "run_warnings (Clear_state k # ops) ws = run_warnings ops (forget_vdsd_warning_state ws k)"

text \<open>What is promised: a warning is given exactly when the state of its key changed.\<close>

fun warning_spec :: "warning_op list \<Rightarrow> (string \<rightharpoonup> string) \<Rightarrow> bool list" where
  "warning_spec [] m = []"
| "warning_spec (Warn_state k st # ops) m = (m k \<noteq> Some st) # warning_spec ops (m(k \<mapsto> st))"
| "warning_spec (Clear_state k # ops) m = warning_spec ops (m(k := None))"

lemma run_warnings_refines:
  assumes "list_all (\<lambda>op. \<not> has_newline (warning_op_key op)) ops" and "one_state_per_key ws"
    and "\<And>k. \<not> has_newline k \<Longrightarrow> warned_state ws k = m k"
  shows "run_warnings ops ws = warning_spec ops m"
  using assms
proof (induction ops ws arbitrary: m rule: run_warnings.induct)
  case (2 k st ops ws)
  obtain warn ws' where r: "remember_vdsd_warning_state ws k st = (warn, ws')" by force
  have k: "\<not> has_newline k" using "2.prems"(1) by simp
  note step = remember_state_step [OF k "2.prems"(2) r]
  have m: "warned_state ws' k' = (m(k \<mapsto> st)) k'" if "\<not> has_newline k'" for k'
    using step(3) [OF that] "2.prems"(3) [OF that] by simp
  have "run_warnings ops ws' = warning_spec ops (m(k \<mapsto> st))"
    using "2.IH" [OF r [symmetric] _ step(2) m] "2.prems"(1) by (simp del: fun_upd_apply)
  with step(1) "2.prems"(3) [OF k] r show ?case by (simp del: fun_upd_apply)
next
  case (3 k ops ws)
  have k: "\<not> has_newline k" using "3.prems"(1) by simp
  have "warned_state (forget_vdsd_warning_state ws k) k' = (m(k := None)) k'" if "\<not> has_newline k'" for k'
    using forget_state_map [OF k that, of ws] "3.prems"(3) [OF that] by simp
  with "3.IH" [OF _ forget_state_inv [OF k "3.prems"(2)], of "m(k := None)"] "3.prems"(1)
  show ?case by (simp del: fun_upd_apply)
qed simp

section \<open>Trace scopes and port selection\<close>

lemmas trace_defs = kTraceAll_def kTraceInput_def kTraceInputAudio_def kTraceInputControl_def kTraceOutput_def

definition trace_scopes :: "u32 set" where
  "trace_scopes = {1, 2, 3, 4, 5, 6, 7}"

lemma trace_item_flags_scope: "trace_item_flags item = Inr f \<Longrightarrow> f \<in> trace_scopes"
  by (auto simp: trace_item_flags_def trace_defs trace_scopes_def split: if_splits)

lemma or_trace_scopes:
  assumes "flags = 0 \<or> flags \<in> trace_scopes" and "f \<in> trace_scopes"
  shows "flags OR f \<in> trace_scopes"
proof -
  have "list_all (\<lambda>x. list_all (\<lambda>y. x OR y \<in> set [1, 2, 3, 4, 5, 6, 7 :: u32]) [1, 2, 3, 4, 5, 6, 7])
      [0, 1, 2, 3, 4, 5, 6, 7]" by code_simp
  moreover have "flags \<in> set [0, 1, 2, 3, 4, 5, 6, 7]" "f \<in> set [1, 2, 3, 4, 5, 6, 7]"
    using assms by (auto simp: trace_scopes_def)
  ultimately have "flags OR f \<in> set [1, 2, 3, 4, 5, 6, 7]" unfolding list_all_iff by blast
  then show ?thesis by (simp add: trace_scopes_def)
qed

lemma parse_trace_scope_from_scope:
  "parse_trace_scope_from flags s = Inr f \<Longrightarrow> flags = 0 \<or> flags \<in> trace_scopes \<Longrightarrow> f \<in> trace_scopes"
proof (induction flags s rule: parse_trace_scope_from.induct)
  case (1 flags s)
  obtain item after where sp: "split_first (CHR '','') s = (item, after)" by force
  with 1(2) obtain g where g: "trace_item_flags item = Inr g"
    by (subst (asm) parse_trace_scope_from.simps) (auto split: sum.splits)
  have next_flags: "flags OR g \<in> trace_scopes"
    using or_trace_scopes [OF 1(3) trace_item_flags_scope [OF g]] .
  show ?case
  proof (cases after)
    case None
    with 1(2) sp g next_flags show ?thesis
      by (subst (asm) parse_trace_scope_from.simps) simp
  next
    case (Some rest)
    with 1(2) sp g have "parse_trace_scope_from (flags OR g) rest = Inr f"
      by (subst (asm) parse_trace_scope_from.simps) simp
    with 1(1) [OF sp [symmetric] g Some] next_flags show ?thesis by blast
  qed
qed

lemma select_port_cases:
  assumes "select_controller_config_port config candidates occupied = Some p"
  shows "controller_config_allows_port config p" "p \<in> set candidates" "p \<notin> set occupied"
  using select_port_loop_Some [OF assms [unfolded select_controller_config_port_def]]
  by (auto simp: controller_config_allows_port_def controller_config_port_targets_def split: if_splits)

lemma select_port_None:
  assumes "valid_ports (cc_ports config)"
  shows "select_controller_config_port config candidates occupied = None \<longleftrightarrow>
    \<not> (\<exists>p < kMaxPortCount. controller_config_allows_port config p \<and> p \<in> set candidates \<and> p \<notin> set occupied)"
  using assms
  by (auto simp: select_controller_config_port_def select_port_loop_None controller_config_allows_port_def
      controller_config_port_targets_def valid_ports_def split: if_splits)

section \<open>Properties\<close>

text \<open>
  Launching: for a registered controller a worker is launched exactly when the port provider
  is there, its device address is not in use and some allowed port is available and not reserved.
  The worker then gets such a port, its configuration is pinned to this port, and it is not stale
  with respect to the database as long as its port stays enabled; any other outcome names the
  first reason that applies.
\<close>

theorem worker_launch_decision:
  assumes "wf_db db" and "config \<in> set (controllers db)"
    and d: "d = select_vdsd_worker_launch_decision config available reserved device provider used"
  shows "ld_status d =
      (if \<not> provider then VirtualPortProviderUnavailable
       else if device \<in> set used then DeviceAddressReserved
       else if \<exists>p < kMaxPortCount. controller_config_allows_port config p \<and> p \<in> set available \<and> p \<notin> set reserved
       then Ready else NoAvailablePort)
    \<and> ld_device_address d = device
    \<and> (ld_status d = Ready \<longrightarrow>
        ld_port d \<in> set available \<and> ld_port d \<notin> set reserved
        \<and> ld_config d = config\<lparr>cc_ports := [ld_port d]\<rparr>
        \<and> \<not> vdsd_worker_config_is_stale db (cc_address config) (cc_profile config) (ld_port d) True)"
proof -
  have wf: "canonical_address (cc_address config)" "valid_ports (cc_ports config)"
    using assms(1,2) by (auto simp: wf_db_def wf_config_def list_all_iff)
  have found: "find_controller_config_by_address db (cc_address config) = Some config"
    using assms(1,2) by (simp add: find_canonical [OF wf(1)] wf_db_def distinct_keys_find)
  show ?thesis
  proof (cases "select_controller_config_port config available reserved")
    case None
    with select_port_None [OF wf(2), of available reserved] show ?thesis
      by (auto simp: d select_vdsd_worker_launch_decision_def)
  next
    case (Some p)
    note p = select_port_cases [OF Some]
    have "\<exists>p < kMaxPortCount. controller_config_allows_port config p \<and> p \<in> set available \<and> p \<notin> set reserved"
      using select_port_None [OF wf(2), of available reserved] Some by auto
    with Some p found show ?thesis
      by (auto simp: d select_vdsd_worker_launch_decision_def vdsd_worker_config_is_stale_def)
  qed
qed

theorem worker_launch_decision_witness:
  "ld_status (select_vdsd_worker_launch_decision example_config [2, 3] [2] ''usb'' True []) = Ready
    \<and> \<not> vdsd_worker_config_is_stale example_db (cc_address example_config) (cc_profile example_config) 3 True"
proof -
  have mem: "example_config \<in> set (controllers example_db)" by (simp add: example_db_def)
  have "ld_port (select_vdsd_worker_launch_decision example_config [2, 3] [2] ''usb'' True []) = 3"
    "ld_status (select_vdsd_worker_launch_decision example_config [2, 3] [2] ''usb'' True []) = Ready"
    by (simp_all add: select_vdsd_worker_launch_decision_def select_controller_config_port_def
        controller_config_port_targets_def example_config_def kMaxPortCount_def upt_rec)
  with worker_launch_decision [OF example_wf(1) mem refl, of "[2, 3]" "[2]" "''usb''" True "[]"]
  show ?thesis by simp
qed

text \<open>
  The backoff list refines a map from addresses to points in time: for every sequence of
  worker failures and launch attempts the answers are those of the specification, where a failure
  sets the one pending time of its address, a launch before that time is refused, and the first
  launch at or after it is granted and clears it.
\<close>

theorem worker_backoff_refines_map:
  "run_backoffs ops [] = backoff_spec ops Map.empty"
  using run_backoffs_refines [of "[]" ops] by (simp add: distinct_keys_def pending_of_def)

text \<open>
  A warning with a state is given exactly when the state of its key changed: for every
  sequence of warnings and clearings whose keys hold no newline (a state may hold some), the
  answers are those of a map from keys to states, although the list mixes key and state in one text.
\<close>

theorem warning_states_refine_map:
  assumes "list_all (\<lambda>op. \<not> has_newline (warning_op_key op)) ops"
  shows "run_warnings ops [] = warning_spec ops Map.empty"
  using assms by (rule run_warnings_refines)
    (simp_all add: one_state_per_key_def distinct_keys_def warned_state_def)

theorem warning_states_refine_map_witness:
  "run_warnings [Warn_state ''a'' ''x'', Warn_state ''ab'' ''x'', Warn_state ''a'' ''x'', Warn_state ''a'' ''y''] []
    = [True, True, False, True]"
  by (subst warning_states_refine_map) (simp_all add: has_newline_def)

text \<open>
  Trace scopes: every accepted scope text stands for one of the seven non-empty combinations
  of the trace flags, and the name printed for this combination is accepted again with the same
  meaning.
\<close>

theorem trace_scope_roundtrip:
  assumes "parse_trace_scope s = Inr flags"
  shows "1 \<le> flags \<and> flags \<le> kTraceAll \<and> parse_trace_scope (trace_scope_name flags) = Inr flags
    \<and> active_trace_name flags = trace_scope_name flags"
proof -
  have "flags \<in> trace_scopes"
    using parse_trace_scope_from_scope assms unfolding parse_trace_scope_def by blast
  moreover have "list_all (\<lambda>f. 1 \<le> f \<and> f \<le> kTraceAll \<and> parse_trace_scope (trace_scope_name f) = Inr f
      \<and> active_trace_name f = trace_scope_name f) [1, 2, 3, 4, 5, 6, 7]"
    by code_simp
  ultimately show ?thesis by (auto simp: trace_scopes_def)
qed

theorem trace_scope_roundtrip_witness:
  "1 \<le> (5 :: u32) \<and> 5 \<le> kTraceAll \<and> parse_trace_scope (trace_scope_name 5) = Inr 5
    \<and> active_trace_name 5 = trace_scope_name 5"
proof -
  have "parse_trace_scope ''output,input-audio,output'' = Inr 5" by code_simp
  from trace_scope_roundtrip [OF this] show ?thesis .
qed

end
