(* ===== verification/ControlRequests.thy ===== *)
theory ControlRequests
  imports DaemonCore "HOL-Library.Char_ord" "HOL-Library.List_Lexorder"
begin

text \<open>
  \<open>src/src/vdsd_common.cc\<close>, second half: the control commands of the daemon. A request is one
  JSON object; \<open>handle_vdsd_control_command\<close> answers with one text and may change the database
  file, the trace flags and the reload flag, and write to the log. The state holds these four;
  what the command reads only (the connected controllers, the ports, the answer of the Bluetooth
  stack, the operating system's answers) is the environment. The commands attach and detach take
  the lock of the database twice, for a first look and for the update: what another process does to
  the files in between is the function \<open>ce_interference\<close> of the environment.
\<close>

section \<open>Replies\<close>

definition reply_end :: string where
  "reply_end = CHR ''}'' # [CHR 0x0A]"

definition runtime_status ::
    "vdsd_control_controller_status list \<Rightarrow> string \<Rightarrow> vdsd_control_controller_status option" where
  "runtime_status statuses address = find_entry vc_address statuses address"

definition format_control_list_line ::
    "vdsd_control_controller_status list \<Rightarrow> controller_config \<Rightarrow> string" where
  "format_control_list_line statuses controller =
     (let status = runtime_status statuses (cc_address controller);
          connected = (case status of None \<Rightarrow> False | Some s \<Rightarrow> vc_connected s) in
      ''{'' @ jsonl_string_field ''address'' (cc_address controller) @ '',''
      @ jsonl_bool_field ''connected'' connected @ '',''
      @ jsonl_string_field ''path''
          (case status of None \<Rightarrow> [] | Some s \<Rightarrow> if connected then vc_path s else []) @ '',''
      @ jsonl_string_field ''profile'' (controller_profile_name (cc_profile controller)) @ '',''
      @ jsonl_unsigned_array_field ''ports'' (cc_ports controller) @ reply_end)"

definition format_control_list_reply :: "config_db \<Rightarrow> vdsd_control_controller_status list \<Rightarrow> string" where
  "format_control_list_reply db statuses =
     concat (map (format_control_list_line statuses) (controllers db))"

definition find_controller_target_by_address ::
    "controller_target list \<Rightarrow> string \<Rightarrow> controller_target option" where
  "find_controller_target_by_address targets address = find_entry ct_address targets address"

definition format_control_target_jsonl :: "controller_target \<Rightarrow> bool \<Rightarrow> string" where
  "format_control_target_jsonl target registered =
     ''{'' @ jsonl_string_field ''address'' (ct_address target) @ '',''
     @ jsonl_string_field ''name'' (ct_name target) @ '',''
     @ jsonl_bool_field ''online'' (ct_online target) @ '',''
     @ jsonl_bool_field ''registered'' registered @ '',''
     @ jsonl_bool_field ''usb'' (ct_usb target) @ reply_end"

text \<open>
  \<open>std::sort\<close> by address. \<open>std::string\<close> compares bytes as unsigned, as the order on \<open>char\<close> does.
  Which of several targets with one address comes first is not fixed by the code; here their
  order is kept.
\<close>

definition format_control_list_targets_reply :: "config_db \<Rightarrow> controller_target list \<Rightarrow> string" where
  "format_control_list_targets_reply db targets =
     concat (map (\<lambda>target. format_control_target_jsonl target
        (find_controller_config_by_address db (ct_address target) \<noteq> None)) (sort_key ct_address targets))"

definition port_status_paths :: "vdsd_control_port_status list \<Rightarrow> string list" where
  "port_status_paths ports = map vp_path ports"

definition format_control_error_reply :: "string \<Rightarrow> string" where
  "format_control_error_reply error =
     ''{'' @ jsonl_bool_field ''OK'' False @ '','' @ jsonl_string_field ''error'' error @ reply_end"

definition format_control_attach_reply :: "bool \<Rightarrow> string \<Rightarrow> controller_config \<Rightarrow> string" where
  "format_control_attach_reply ok error config =
     ''{'' @ jsonl_bool_field ''OK'' ok @ '','' @ jsonl_string_field ''error'' error @ '',''
     @ jsonl_string_field ''address'' (cc_address config) @ '',''
     @ jsonl_unsigned_array_field ''ports'' (cc_ports config) @ '',''
     @ jsonl_string_field ''profile'' (controller_profile_name (cc_profile config)) @ reply_end"

definition format_control_detach_reply :: "bool \<Rightarrow> string \<Rightarrow> string \<Rightarrow> string" where
  "format_control_detach_reply ok error address =
     ''{'' @ jsonl_bool_field ''OK'' ok @ '','' @ jsonl_string_field ''error'' error @ '',''
     @ jsonl_string_field ''address'' address @ reply_end"

definition format_control_trace_reply :: "bool \<Rightarrow> string \<Rightarrow> u32 \<Rightarrow> string" where
  "format_control_trace_reply ok error trace_flags =
     (let s1 = (if trace_enabled trace_flags kTraceInputAudio then jsonl_string_value ''input-audio'' else []);
          w1 = trace_enabled trace_flags kTraceInputAudio;
          s2 = (if trace_enabled trace_flags kTraceInputControl
                then (if w1 then '','' else []) @ jsonl_string_value ''input-control'' else []);
          w2 = (w1 \<or> trace_enabled trace_flags kTraceInputControl);
          s3 = (if trace_enabled trace_flags kTraceOutput
                then (if w2 then '','' else []) @ jsonl_string_value ''output'' else []) in
      ''{'' @ jsonl_bool_field ''OK'' ok @ '','' @ jsonl_string_field ''error'' error @ '',''
      @ jsonl_bool_field ''trace'' (trace_flags AND kTraceAll \<noteq> 0)
      @ '','' @ [quote_char] @ ''scope'' @ [quote_char] @ '':['' @ s1 @ s2 @ s3 @ '']'' @ reply_end)"

section \<open>State and environment\<close>

type_synonym log_record = "log_scope \<times> log_level \<times> string"

record control_state =
  cs_files :: files
  cs_trace_flags :: u32
  cs_reload_requested :: bool
  cs_log :: "log_record list"

record control_env =
  ce_platform :: platform
  ce_db_path :: string
  ce_controllers :: "vdsd_control_controller_status list"
  ce_ports :: "vdsd_control_port_status list"
  ce_list_targets :: "controller_target list result"
  ce_os_load :: os
  ce_os_update :: os
  ce_interference :: "files \<Rightarrow> files"

definition control_context :: string where
  "control_context = ''control request''"

definition log_control :: "log_level \<Rightarrow> string \<Rightarrow> control_state \<Rightarrow> control_state" where
  "log_control level msg st = st\<lparr>cs_log := cs_log st @ [(Control, level, msg)]\<rparr>"

text \<open>A call inside a \<open>try\<close> block, with what its \<open>catch\<close> makes of an exception.\<close>

definition attempt :: "'a result \<Rightarrow> (exn \<Rightarrow> 'b) \<Rightarrow> ('a \<Rightarrow> 'b) \<Rightarrow> 'b" where
  "attempt r on_error k = (case r of Inl e \<Rightarrow> on_error e | Inr a \<Rightarrow> k a)"

lemma attempt_simps [simp]:
  "attempt (Inl e) f k = f e" "attempt (Inr a) f k = k a"
  by (simp_all add: attempt_def)

definition empty_config :: controller_config where
  "empty_config = \<lparr>cc_address = [], cc_profile = Unspecified, cc_ports = []\<rparr>"

section \<open>attach\<close>

definition usb_error :: string where
  "usb_error = ''USB controllers are already wired and cannot be bridged''"

definition target_error :: string where
  "target_error = ''address is not paired, not supported, or not attachable; run vdsctl list-targets''"

definition registered_error :: string where
  "registered_error = ''address is already registered''"

text \<open>
  The callback of the update: the configuration found under the address when it was registered in
  the meantime, else nothing and the database with the new controller, checked.
\<close>

definition attach_update ::
    "platform \<Rightarrow> string list \<Rightarrow> controller_config \<Rightarrow> config_db \<Rightarrow>
      (controller_config option \<times> config_db) result" where
  "attach_update platform devices config db =
     (case find_controller_config_by_address db (cc_address config) of
        Some registered \<Rightarrow> Inr (Some registered, db)
      | None \<Rightarrow>
          bind_result (upsert_controller_config db config) (\<lambda>db'.
          bind_result (validate_config_assignments platform db' devices) (\<lambda>_. Inr (None, db'))))"

text \<open>
  \<open>config\<close> as the \<open>catch\<close> block sees it when the update throws: the callback has already
  assigned to it when it found the address registered and only the writing failed.
\<close>

definition captured_config :: "os \<Rightarrow> string \<Rightarrow> files \<Rightarrow> controller_config \<Rightarrow> controller_config" where
  "captured_config os db_path fs config =
     (case load_config_db os db_path fs of
        Inl _ \<Rightarrow> config
      | Inr db \<Rightarrow> (case find_controller_config_by_address db (cc_address config) of
                     Some registered \<Rightarrow> registered
                   | None \<Rightarrow> config))"

definition commit_attach :: "control_env \<Rightarrow> controller_config \<Rightarrow> control_state \<Rightarrow> string \<times> control_state" where
  "commit_attach env config st =
     (case update_config_db (ce_os_update env) (ce_db_path env)
             (attach_update (ce_platform env) (port_status_paths (ce_ports env)) config)
             (ce_interference env (cs_files st)) of
        (fs, Inl e) \<Rightarrow>
          (format_control_attach_reply False (what e)
             (captured_config (ce_os_update env) (ce_db_path env) (ce_interference env (cs_files st)) config),
           st\<lparr>cs_files := fs\<rparr>)
      | (fs, Inr (Some registered, _)) \<Rightarrow>
          (format_control_attach_reply False registered_error registered,
           log_control Warn (''attach rejected '' @ registered_error @ '': '' @ cc_address registered)
             (st\<lparr>cs_files := fs\<rparr>))
      | (fs, Inr (None, _)) \<Rightarrow>
          (format_control_attach_reply True [] config,
           log_control Info (''attached controller config '' @ format_controller_config config)
             (st\<lparr>cs_files := fs, cs_reload_requested := True\<rparr>)))"

definition handle_attach_control_request ::
    "control_env \<Rightarrow> jsonl_field list \<Rightarrow> control_state \<Rightarrow> string \<times> control_state" where
  "handle_attach_control_request env fs st =
     (let failed = (\<lambda>config e. (format_control_attach_reply False (what e) config, st)) in
      attempt (require_jsonl_string fs ''address'' control_context) (failed empty_config) (\<lambda>raw_address.
      if backslash \<in> set raw_address \<or> CHR ''#'' \<in> set raw_address then
        (format_control_attach_reply False usb_error empty_config,
         log_control Warn (''attach rejected '' @ usb_error @ '': '' @ raw_address) st)
      else
      attempt (normalize_bluetooth_address raw_address) (failed empty_config) (\<lambda>address.
      attempt (load_config_db (ce_os_load env) (ce_db_path env) (cs_files st)) (failed empty_config) (\<lambda>db.
      let config = (case find_controller_config_by_address db address of
                      Some registered \<Rightarrow> registered | None \<Rightarrow> empty_config) in
      attempt (reject_unknown_jsonl_fields fs [''command'', ''address'', ''profile'', ''ports''] control_context)
        (failed config) (\<lambda>_.
      if cc_address config \<noteq> [] then
        (format_control_attach_reply False registered_error config,
         log_control Warn (''attach rejected '' @ registered_error @ '': '' @ cc_address config) st)
      else
      let config1 = config\<lparr>cc_address := address\<rparr> in
      attempt (bind_result (require_jsonl_string fs ''profile'' control_context) parse_controller_profile)
        (failed config1) (\<lambda>profile.
      let config2 = config1\<lparr>cc_profile := profile\<rparr> in
      attempt (require_jsonl_unsigned_array fs ''ports'' control_context) (failed config2) (\<lambda>ports.
      let config3 = config2\<lparr>cc_ports := ports\<rparr> in
      attempt (ce_list_targets env) (failed config3) (\<lambda>targets.
      if find_controller_target_by_address targets (cc_address config3) = None then
        (format_control_attach_reply False target_error empty_config,
         log_control Warn (''attach rejected '' @ target_error) st)
      else commit_attach env config3 st))))))))"

section \<open>detach\<close>

definition not_registered_error :: string where
  "not_registered_error = ''address is not registered''"

text \<open>The callback of the update: whether an entry was removed.\<close>

definition detach_update :: "string \<Rightarrow> config_db \<Rightarrow> (bool \<times> config_db) result" where
  "detach_update address db = remove_controller_config db address"

definition commit_detach :: "control_env \<Rightarrow> string \<Rightarrow> control_state \<Rightarrow> string \<times> control_state" where
  "commit_detach env address st =
     (case update_config_db (ce_os_update env) (ce_db_path env) (detach_update address)
             (ce_interference env (cs_files st)) of
        (fs, Inl e) \<Rightarrow> (format_control_detach_reply False (what e) address, st\<lparr>cs_files := fs\<rparr>)
      | (fs, Inr (removed, _)) \<Rightarrow>
          (let st' = log_control Info ((if removed then ''detached '' else ''detach ignored '') @ address)
                 (st\<lparr>cs_files := fs, cs_reload_requested := removed\<rparr>) in
           if \<not> removed then (format_control_detach_reply False not_registered_error [], st')
           else (format_control_detach_reply True [] address, st')))"

definition handle_detach_control_request ::
    "control_env \<Rightarrow> jsonl_field list \<Rightarrow> control_state \<Rightarrow> string \<times> control_state" where
  "handle_detach_control_request env fs st =
     (let failed = (\<lambda>address e. (format_control_detach_reply False (what e) address, st)) in
      attempt (bind_result (require_jsonl_string fs ''address'' control_context) normalize_bluetooth_address)
        (failed []) (\<lambda>normalized.
      attempt (load_config_db (ce_os_load env) (ce_db_path env) (cs_files st)) (failed normalized) (\<lambda>db.
      let address = (if find_controller_config_by_address db normalized = None then [] else normalized) in
      attempt (reject_unknown_jsonl_fields fs [''command'', ''address''] control_context) (failed address) (\<lambda>_.
      if address = [] then (format_control_detach_reply False not_registered_error address, st)
      else commit_detach env address st))))"

section \<open>list, list-targets and trace\<close>

definition handle_list_control_request ::
    "control_env \<Rightarrow> jsonl_field list \<Rightarrow> control_state \<Rightarrow> string result" where
  "handle_list_control_request env fs st =
     bind_result (reject_unknown_jsonl_fields fs [''command''] control_context) (\<lambda>_.
     bind_result (load_config_db (ce_os_load env) (ce_db_path env) (cs_files st)) (\<lambda>db.
       Inr (format_control_list_reply db (ce_controllers env))))"

definition handle_list_targets_control_request ::
    "control_env \<Rightarrow> jsonl_field list \<Rightarrow> control_state \<Rightarrow> string result" where
  "handle_list_targets_control_request env fs st =
     bind_result (reject_unknown_jsonl_fields fs [''command''] control_context) (\<lambda>_.
     bind_result (load_config_db (ce_os_load env) (ce_db_path env) (cs_files st)) (\<lambda>db.
     bind_result (ce_list_targets env) (\<lambda>targets.
       Inr (format_control_list_targets_reply db targets))))"

definition handle_trace_control_request :: "jsonl_field list \<Rightarrow> control_state \<Rightarrow> string \<times> control_state" where
  "handle_trace_control_request fs st =
     (let failed = (\<lambda>e. (format_control_trace_reply False (what e) (cs_trace_flags st), st));
          succeeded = (\<lambda>enabled scope flags.
            (format_control_trace_reply True [] flags,
             log_control Info (''trace '' @ trace_scope_name scope @ '' ''
                 @ (if enabled then ''enabled'' else ''disabled'') @ '' active='' @ active_trace_name flags)
               (st\<lparr>cs_trace_flags := flags\<rparr>))) in
      attempt (reject_unknown_jsonl_fields fs [''command'', ''mode'', ''scope''] control_context) failed (\<lambda>_.
      attempt (require_jsonl_string fs ''mode'' control_context) failed (\<lambda>mode.
      attempt (bind_result (require_jsonl_string fs ''scope'' control_context) parse_trace_scope) failed (\<lambda>scope.
      if mode = ''on'' then succeeded True scope (cs_trace_flags st OR scope)
      else if mode = ''off'' then succeeded False scope (cs_trace_flags st AND NOT scope)
      else failed (Runtime_error ''trace mode must be on or off'')))))"

section \<open>The dispatcher\<close>

definition handle_vdsd_control_command ::
    "control_env \<Rightarrow> string \<Rightarrow> control_state \<Rightarrow> string \<times> control_state" where
  "handle_vdsd_control_command env request st =
     (let failed = (\<lambda>e. (format_control_error_reply (what e), st)) in
      attempt (parse_jsonl_object request control_context) failed (\<lambda>fs.
      attempt (require_jsonl_string fs ''command'' control_context) failed (\<lambda>command.
      if command = ''attach'' then handle_attach_control_request env fs st
      else if command = ''detach'' then handle_detach_control_request env fs st
      else if command = ''list'' then
        attempt (handle_list_control_request env fs st) failed (\<lambda>reply. (reply, st))
      else if command = ''list-targets'' then
        attempt (handle_list_targets_control_request env fs st) failed (\<lambda>reply. (reply, st))
      else if command = ''trace'' then handle_trace_control_request fs st
      else (format_control_error_reply (''unknown command: '' @ command),
            log_control Warn (''unknown command: '' @ command) st))))"

section \<open>What a reply says\<close>

definition reply_ok :: "string \<Rightarrow> bool" where
  "reply_ok reply \<longleftrightarrow> prefix (''{'' @ jsonl_bool_field ''OK'' True) reply"

lemma reply_ok_simps [simp]:
  "reply_ok (format_control_attach_reply ok error config) = ok"
  "reply_ok (format_control_detach_reply ok error address) = ok"
  "reply_ok (format_control_trace_reply ok error flags) = ok"
  "\<not> reply_ok (format_control_error_reply error)"
  by (simp_all add: reply_ok_def format_control_attach_reply_def format_control_detach_reply_def
      format_control_trace_reply_def format_control_error_reply_def jsonl_bool_field_def Let_def)

lemma log_control_simps [simp]:
  "cs_files (log_control l m st) = cs_files st" "cs_trace_flags (log_control l m st) = cs_trace_flags st"
  "cs_reload_requested (log_control l m st) = cs_reload_requested st"
  by (simp_all add: log_control_def)

section \<open>attach and the database\<close>

lemma attach_update_wf: "keeps_wf (attach_update platform devices config)"
  by (auto simp: keeps_wf_def attach_update_def bind_result_Inr intro: upsert_wf split: option.splits)

lemma detach_update_wf: "keeps_wf (detach_update a)"
  by (auto simp: keeps_wf_def detach_update_def intro: remove_wf)

text \<open>The database after the controller was added, when the checks of the callback allow it.\<close>

definition attached_db :: "platform \<Rightarrow> string list \<Rightarrow> controller_config \<Rightarrow> config_db \<Rightarrow> config_db \<Rightarrow> bool" where
  "attached_db platform devices config db db' \<longleftrightarrow>
     find_controller_config_by_address db (cc_address config) = None
     \<and> upsert_controller_config db config = Inr db' \<and> validate_config_assignments platform db' devices = Inr ()"

lemma attach_update_new:
  "attach_update platform devices config db = Inr (None, db') \<longleftrightarrow> attached_db platform devices config db db'"
  by (auto simp: attach_update_def attached_db_def bind_result_Inr split: option.splits)

lemma attach_update_known:
  "attach_update platform devices config db = Inr (Some c, db') \<Longrightarrow> db' = db"
  by (auto simp: attach_update_def bind_result_Inr split: option.splits)

lemma commit_attach_cases:
  assumes "commit_attach env config st = (reply, st')"
    and "load_config_db os_ok (ce_db_path env) (ce_interference env (cs_files st)) = Inr db"
  obtains (rejected) error c where "reply = format_control_attach_reply False error c"
      "cs_reload_requested st' = cs_reload_requested st" "cs_trace_flags st' = cs_trace_flags st"
      "load_config_db os_ok (ce_db_path env) (cs_files st') = Inr db
        \<or> (\<exists>db'. attached_db (ce_platform env) (port_status_paths (ce_ports env)) config db db'
            \<and> load_config_db os_ok (ce_db_path env) (cs_files st') = Inr db')"
  | (accepted) db' where "reply = format_control_attach_reply True [] config"
      "cs_reload_requested st'" "cs_trace_flags st' = cs_trace_flags st"
      "attached_db (ce_platform env) (port_status_paths (ce_ports env)) config db db'"
      "load_config_db os_ok (ce_db_path env) (cs_files st') = Inr db'"
proof -
  let ?upd = "attach_update (ce_platform env) (port_status_paths (ce_ports env)) config"
  obtain fs r where run: "update_config_db (ce_os_update env) (ce_db_path env) ?upd
      (ce_interference env (cs_files st)) = (fs, r)"
    by force
  note states = update_config_db_states [OF run assms(2) attach_update_wf]
  have loads: "load_config_db os_ok (ce_db_path env) fs = Inr db
      \<or> (\<exists>db'. attached_db (ce_platform env) (port_status_paths (ce_ports env)) config db db'
          \<and> load_config_db os_ok (ce_db_path env) fs = Inr db')"
  proof -
    from states consider "load_config_db os_ok (ce_db_path env) fs = Inr db"
      | x db1 where "?upd db = Inr (x, db1)" "load_config_db os_ok (ce_db_path env) fs = Inr db1"
      by blast
    then show ?thesis
    proof cases
      case 2
      then show ?thesis using attach_update_new attach_update_known by (cases x) blast+
    qed simp
  qed
  show thesis
  proof (cases r)
    case (Inl e)
    with assms(1) run loads show thesis by (intro rejected) (auto simp: commit_attach_def)
  next
    case (Inr xdb)
    obtain x db1 where xdb: "xdb = (x, db1)" by (cases xdb)
    show thesis
    proof (cases x)
      case None
      with Inr xdb states have upd: "?upd db = Inr (None, db1)"
        and saved: "load_config_db os_ok (ce_db_path env) fs = Inr db1" by auto
      from upd have "attached_db (ce_platform env) (port_status_paths (ce_ports env)) config db db1"
        by (simp add: attach_update_new)
      with None Inr xdb assms(1) run saved show thesis by (intro accepted) (auto simp: commit_attach_def)
    next
      case (Some c)
      with Inr xdb assms(1) run loads show thesis by (intro rejected) (auto simp: commit_attach_def)
    qed
  qed
qed

text \<open>
  Every run of the attach handler: a refusal that leaves the database, or a run of the update with
  a normalised new address.
\<close>

lemma handle_attach_cases:
  assumes "handle_attach_control_request env fs st = (reply, st')"
  obtains (refused) error c where "reply = format_control_attach_reply False error c"
      "cs_files st' = cs_files st" "cs_reload_requested st' = cs_reload_requested st"
      "cs_trace_flags st' = cs_trace_flags st"
  | (committed) raw config where "canonical_address (cc_address config)"
      "commit_attach env config st = (reply, st')"
      "require_jsonl_string fs ''address'' control_context = Inr raw"
      "normalize_bluetooth_address raw = Inr (cc_address config)"
      "bind_result (require_jsonl_string fs ''profile'' control_context) parse_controller_profile
         = Inr (cc_profile config)"
      "require_jsonl_unsigned_array fs ''ports'' control_context = Inr (cc_ports config)"
proof -
  consider (no) error c where "reply = format_control_attach_reply False error c"
      "cs_files st' = cs_files st" "cs_reload_requested st' = cs_reload_requested st"
      "cs_trace_flags st' = cs_trace_flags st"
    | (yes) raw address c p ps where "require_jsonl_string fs ''address'' control_context = Inr raw"
      "normalize_bluetooth_address raw = Inr address"
      "bind_result (require_jsonl_string fs ''profile'' control_context) parse_controller_profile = Inr p"
      "require_jsonl_unsigned_array fs ''ports'' control_context = Inr ps"
      "commit_attach env (c\<lparr>cc_address := address, cc_profile := p, cc_ports := ps\<rparr>) st = (reply, st')"
    using assms
    by (auto simp: handle_attach_control_request_def attempt_def Let_def split: sum.splits if_splits)
  then show thesis
  proof cases
    case no
    then show thesis by (rule refused)
  next
    case yes
    from normalize_canonical [OF yes(2)] yes show thesis
      by (intro committed [of "c\<lparr>cc_address := address, cc_profile := p, cc_ports := ps\<rparr>" raw]) simp_all
  qed
qed

section \<open>detach and the database\<close>

definition detached_db :: "string \<Rightarrow> config_db \<Rightarrow> config_db" where
  "detached_db a db = db\<lparr>controllers := drop_controller a (controllers db)\<rparr>"

lemma detach_update_eq:
  "canonical_address a \<Longrightarrow>
    detach_update a db = Inr (find_controller_config_by_address db a \<noteq> None, detached_db a db)"
  by (simp add: detach_update_def remove_Inr removed_iff find_canonical detached_db_def)

lemma commit_detach_cases:
  assumes "commit_detach env a st = (reply, st')" and "canonical_address a"
    and "load_config_db os_ok (ce_db_path env) (ce_interference env (cs_files st)) = Inr db"
  obtains (failed) error b where "reply = format_control_detach_reply False error b"
      "cs_reload_requested st' = cs_reload_requested st" "cs_trace_flags st' = cs_trace_flags st"
      "load_config_db os_ok (ce_db_path env) (cs_files st') \<in> {Inr db, Inr (detached_db a db)}"
  | (finished) "load_config_db os_ok (ce_db_path env) (cs_files st') = Inr (detached_db a db)"
      "cs_reload_requested st' = (find_controller_config_by_address db a \<noteq> None)"
      "cs_trace_flags st' = cs_trace_flags st"
      "reply = (if find_controller_config_by_address db a \<noteq> None
        then format_control_detach_reply True [] a
        else format_control_detach_reply False not_registered_error [])"
proof -
  obtain fs r where run: "update_config_db (ce_os_update env) (ce_db_path env) (detach_update a)
      (ce_interference env (cs_files st)) = (fs, r)"
    by force
  note states = update_config_db_states [OF run assms(3) detach_update_wf]
  show thesis
  proof (cases r)
    case (Inl e)
    with assms(1) run states show thesis
      by (intro failed) (auto simp: commit_detach_def detach_update_eq [OF assms(2)])
  next
    case (Inr xdb)
    obtain removed db1 where xdb: "xdb = (removed, db1)" by (cases xdb)
    with Inr states have "detach_update a db = Inr (removed, db1)"
      "load_config_db os_ok (ce_db_path env) fs = Inr db1" by blast+
    with Inr xdb assms(1) run show thesis
      by (intro finished) (auto simp: commit_detach_def detach_update_eq [OF assms(2)] Let_def split: if_splits)
  qed
qed

lemma handle_detach_cases:
  assumes "handle_detach_control_request env fs st = (reply, st')"
  obtains (refused) error a where "reply = format_control_detach_reply False error a" "st' = st"
  | (committed) a where "canonical_address a" "a \<noteq> []" "commit_detach env a st = (reply, st')"
proof -
  have "(\<exists>error a. reply = format_control_detach_reply False error a \<and> st' = st)
    \<or> (\<exists>raw a. normalize_bluetooth_address raw = Inr a \<and> a \<noteq> [] \<and> commit_detach env a st = (reply, st'))"
    using assms
    by (auto simp: handle_detach_control_request_def attempt_def Let_def bind_result_Inr
        split: sum.splits if_splits)
  then show thesis using refused committed normalize_canonical by blast
qed

section \<open>The registry of the daemon\<close>

text \<open>What the daemon has registered, as a map from addresses.\<close>

definition registry :: "config_db \<Rightarrow> string \<rightharpoonup> controller_config" where
  "registry db = find_entry cc_address (controllers db)"

lemma registry_find: "canonical_address a \<Longrightarrow> find_controller_config_by_address db a = registry db a"
  by (simp add: registry_def find_canonical)

lemma registry_detached: "wf_db db \<Longrightarrow> registry (detached_db a db) = (registry db)(a := None)"
  by (auto simp: registry_def detached_db_def fun_eq_iff wf_db_def controllers_store.look_del)

lemma registry_attached:
  assumes "wf_db db" and "attached_db platform devices config db db'" and "canonical_address (cc_address config)"
  shows "registry db (cc_address config) = None"
    "registry db' = (registry db)(cc_address config \<mapsto> config\<lparr>cc_ports := sort (cc_ports config)\<rparr>)"
    "wf_db db'"
proof -
  let ?c = "config\<lparr>cc_ports := sort (cc_ports config)\<rparr>"
  from assms(2,3) have "upsert_controller_config db config = Inr db'"
    and none: "registry db (cc_address config) = None" by (simp_all add: attached_db_def registry_find)
  then show "wf_db db'" using upsert_wf assms(1) by blast
  have "db' = db\<lparr>controllers := put_controller ?c (controllers db)\<rparr>"
    using \<open>upsert_controller_config db config = Inr db'\<close> assms(3)
    unfolding upsert_Inr by (auto simp: validate_ports_Inr)
  then show "registry db' = (registry db)(cc_address config \<mapsto> ?c)"
    using assms(1) by (auto simp: registry_def fun_eq_iff wf_db_def controllers_store.look_upd)
  show "registry db (cc_address config) = None" by (rule none)
qed

text \<open>One command changes the registry at one address at most: it binds a free one or frees a bound one.\<close>

definition registry_step :: "config_db \<Rightarrow> config_db \<Rightarrow> bool" where
  "registry_step db db' \<longleftrightarrow> db' = db
     \<or> (\<exists>c. registry db (cc_address c) = None \<and> registry db' = (registry db)(cc_address c \<mapsto> c))
     \<or> (\<exists>a. registry db' = (registry db)(a := None))"

lemma registry_step_attach:
  assumes "wf_db db" and "attached_db platform devices config db db'" and "canonical_address (cc_address config)"
  shows "registry_step db db'"
proof -
  let ?c = "config\<lparr>cc_ports := sort (cc_ports config)\<rparr>"
  have "registry db (cc_address ?c) = None" "registry db' = (registry db)(cc_address ?c \<mapsto> ?c)"
    using registry_attached [OF assms] by simp_all
  then show ?thesis unfolding registry_step_def by blast
qed

lemma registry_step_detach: "wf_db db \<Longrightarrow> registry_step db (detached_db a db)"
  using registry_detached unfolding registry_step_def by blast

lemma registry_step_refl [simp]: "registry_step db db"
  by (simp add: registry_step_def)

text \<open>No other process touches the files between the two critical sections of a command.\<close>

definition quiet :: "control_env \<Rightarrow> bool" where
  "quiet env \<longleftrightarrow> (\<forall>fs. ce_interference env fs = fs)"

lemma quiet_simp: "quiet env \<Longrightarrow> ce_interference env fs = fs"
  by (simp add: quiet_def)

text \<open>
  What one command does to the database and to the reload flag: a flag that is raised tells of a
  registry that changed.
\<close>

definition step_ok :: "control_env \<Rightarrow> config_db \<Rightarrow> control_state \<Rightarrow> control_state \<Rightarrow> bool" where
  "step_ok env db st st' \<longleftrightarrow>
     (\<exists>db'. load_config_db os_ok (ce_db_path env) (cs_files st') = Inr db' \<and> registry_step db db'
        \<and> (cs_reload_requested st' \<longrightarrow> cs_reload_requested st \<or> registry db' \<noteq> registry db))"

lemma registry_bind_neq: "m a = None \<Longrightarrow> m(a \<mapsto> c) \<noteq> m"
  by (auto simp: fun_eq_iff)

lemma registry_unbind_neq: "m a \<noteq> None \<Longrightarrow> m(a := None) \<noteq> m"
  by (auto simp: fun_eq_iff)

lemma attach_step:
  assumes "handle_attach_control_request env fs st = (reply, st')" and "quiet env"
    and db: "load_config_db os_ok (ce_db_path env) (cs_files st) = Inr db"
  shows "step_ok env db st st'"
  using assms(1)
proof (cases rule: handle_attach_cases)
  case refused
  with db show ?thesis by (auto simp: step_ok_def)
next
  case (committed raw config)
  have wf: "wf_db db" by (rule load_wf [OF db])
  have db': "load_config_db os_ok (ce_db_path env) (ce_interference env (cs_files st)) = Inr db"
    using assms(2) db by (simp add: quiet_simp)
  from committed(2) db' show ?thesis
  proof (cases rule: commit_attach_cases)
    case rejected
    with registry_step_attach [OF wf _ committed(1)] show ?thesis by (auto simp: step_ok_def)
  next
    case (accepted d)
    from registry_attached [OF wf accepted(4) committed(1)] registry_bind_neq
    have "registry d \<noteq> registry db" by metis
    with accepted registry_step_attach [OF wf accepted(4) committed(1)] show ?thesis
      unfolding step_ok_def by blast
  qed
qed

lemma detach_step:
  assumes "handle_detach_control_request env fs st = (reply, st')" and "quiet env"
    and db: "load_config_db os_ok (ce_db_path env) (cs_files st) = Inr db"
  shows "step_ok env db st st'"
  using assms(1)
proof (cases rule: handle_detach_cases)
  case refused
  with db show ?thesis by (auto simp: step_ok_def)
next
  case (committed a)
  have wf: "wf_db db" by (rule load_wf [OF db])
  have db': "load_config_db os_ok (ce_db_path env) (ce_interference env (cs_files st)) = Inr db"
    using assms(2) db by (simp add: quiet_simp)
  from committed(3,1) db' show ?thesis
  proof (cases rule: commit_detach_cases)
    case failed
    with registry_step_detach [OF wf, of a] show ?thesis by (auto simp: step_ok_def)
  next
    case finished
    have "cs_reload_requested st' \<Longrightarrow> registry (detached_db a db) \<noteq> registry db"
      using finished(2) registry_unbind_neq [of "registry db" a]
      by (simp add: registry_detached [OF wf] registry_find [OF committed(1)])
    with finished(1) registry_step_detach [OF wf, of a] show ?thesis
      unfolding step_ok_def by blast
  qed
qed

lemma trace_step:
  "handle_trace_control_request fs st = (reply, st') \<Longrightarrow>
    cs_files st' = cs_files st \<and> cs_reload_requested st' = cs_reload_requested st"
  by (auto simp: handle_trace_control_request_def Let_def attempt_def split: sum.splits if_splits)

text \<open>The dispatcher runs one handler, or answers and leaves the files.\<close>

lemma handle_command_cases:
  assumes "handle_vdsd_control_command env request st = (reply, st')"
  obtains (attach) fs where "handle_attach_control_request env fs st = (reply, st')"
  | (detach) fs where "handle_detach_control_request env fs st = (reply, st')"
  | (other) "cs_files st' = cs_files st" "cs_reload_requested st' = cs_reload_requested st"
  using assms that trace_step
  by (fastforce simp: handle_vdsd_control_command_def Let_def attempt_def split: sum.splits if_splits)

lemma command_step:
  assumes "handle_vdsd_control_command env request st = (reply, st')" and "quiet env"
    and "load_config_db os_ok (ce_db_path env) (cs_files st) = Inr db"
  shows "step_ok env db st st'"
  using assms(1)
proof (cases rule: handle_command_cases)
  case other
  with assms(3) show ?thesis by (auto simp: step_ok_def)
qed (use attach_step detach_step assms(2,3) in blast)+

text \<open>A session: commands one after the other, with the states they lead to.\<close>

fun run_session :: "(control_env \<times> string) list \<Rightarrow> control_state \<Rightarrow> control_state list" where
  "run_session [] st = []"
| "run_session ((env, request) # reqs) st =
     (let st' = snd (handle_vdsd_control_command env request st) in st' # run_session reqs st')"

definition saved_db :: "string \<Rightarrow> control_state \<Rightarrow> config_db result" where
  "saved_db path st = load_config_db os_ok path (cs_files st)"

lemma run_session_steps:
  assumes "list_all (\<lambda>(env, request). ce_db_path env = path \<and> quiet env) reqs" and "saved_db path st = Inr db"
  shows "\<exists>dbs. map (saved_db path) (run_session reqs st) = map Inr dbs
    \<and> successively registry_step (db # dbs) \<and> list_all wf_db dbs"
  using assms
proof (induction reqs arbitrary: st db)
  case (Cons er reqs)
  obtain env request where er: "er = (env, request)" by force
  obtain reply st' where run: "handle_vdsd_control_command env request st = (reply, st')" by force
  from Cons.prems er have env: "ce_db_path env = path" "quiet env"
    and load: "load_config_db os_ok (ce_db_path env) (cs_files st) = Inr db"
    by (simp_all add: saved_db_def)
  from command_step [OF run env(2) load] env(1) obtain d where
    d: "saved_db path st' = Inr d" "registry_step db d" by (auto simp: step_ok_def saved_db_def)
  from Cons.IH [OF _ d(1)] Cons.prems(1) obtain dbs where
    "map (saved_db path) (run_session reqs st') = map Inr dbs" "successively registry_step (d # dbs)"
    "list_all wf_db dbs" by auto
  moreover have "wf_db d" using d(1) load_wf by (simp add: saved_db_def)
  ultimately have "map (saved_db path) (run_session (er # reqs) st) = map Inr (d # dbs)"
    "successively registry_step (db # d # dbs)" "list_all wf_db (d # dbs)"
    using run d er by simp_all
  then show ?case by blast
qed simp

section \<open>Requests by their fields\<close>

definition attach_fields :: "string \<Rightarrow> string \<Rightarrow> nat list \<Rightarrow> jsonl_field list" where
  "attach_fields raw profile ports =
     [string_field ''command'' ''attach'', string_field ''address'' raw, string_field ''profile'' profile,
      array_field ''ports'' ports]"

definition detach_fields :: "string \<Rightarrow> jsonl_field list" where
  "detach_fields raw = [string_field ''command'' ''detach'', string_field ''address'' raw]"

definition trace_fields :: "string \<Rightarrow> string \<Rightarrow> jsonl_field list" where
  "trace_fields mode scope =
     [string_field ''command'' ''trace'', string_field ''mode'' mode, string_field ''scope'' scope]"

lemma handle_attach_text:
  assumes "list_all isspace tail" and "list_all (\<lambda>p. p \<le> unsigned_max) ports"
  shows "handle_vdsd_control_command env (write_object (attach_fields raw profile ports) @ tail) st
    = handle_attach_control_request env (attach_fields raw profile ports) st"
proof -
  have "list_all wf_field (attach_fields raw profile ports)"
    using assms(2) by (simp add: attach_fields_def list_all_iff)
  from parse_write_object [OF this assms(1)] show ?thesis
    by (simp add: handle_vdsd_control_command_def) (simp add: attach_fields_def field_lookup)
qed

lemma handle_detach_text:
  assumes "list_all isspace tail"
  shows "handle_vdsd_control_command env (write_object (detach_fields raw) @ tail) st
    = handle_detach_control_request env (detach_fields raw) st"
proof -
  have "list_all wf_field (detach_fields raw)" by (simp add: detach_fields_def)
  from parse_write_object [OF this assms(1)] show ?thesis
    by (simp add: handle_vdsd_control_command_def) (simp add: detach_fields_def field_lookup)
qed

lemma handle_trace_text:
  assumes "list_all isspace tail"
  shows "handle_vdsd_control_command env (write_object (trace_fields mode scope) @ tail) st
    = handle_trace_control_request (trace_fields mode scope) st"
proof -
  have "list_all wf_field (trace_fields mode scope)" by (simp add: trace_fields_def)
  from parse_write_object [OF this assms(1)] show ?thesis
    by (simp add: handle_vdsd_control_command_def) (simp add: trace_fields_def field_lookup)
qed

lemma not_isxdigit_device_path:
  "address_shape s \<Longrightarrow> backslash \<notin> set s \<and> CHR ''#'' \<notin> set s"
proof -
  have "address_shape_from i s \<Longrightarrow> backslash \<notin> set s \<and> CHR ''#'' \<notin> set s" for i
    by (induction s arbitrary: i) (auto simp: isxdigit_def isdigit_def code_of_def split: if_splits)
  then show "address_shape s \<Longrightarrow> ?thesis" by (auto simp: address_shape_def)
qed

definition all_calls_succeed :: "control_env \<Rightarrow> bool" where
  "all_calls_succeed env \<longleftrightarrow> ce_os_load env = os_ok \<and> ce_os_update env = os_ok \<and> quiet env"

lemma commit_attach_ok:
  assumes "all_calls_succeed env" and "load_config_db os_ok (ce_db_path env) (cs_files st) = Inr db"
    and "registry db (cc_address config) = None" and "canonical_address (cc_address config)"
    and "commit_attach env config st = (reply, st')"
  shows "reply_ok reply \<longleftrightarrow>
    (\<exists>db'. attached_db (ce_platform env) (port_status_paths (ce_ports env)) config db db')"
proof -
  let ?upd = "attach_update (ce_platform env) (port_status_paths (ce_ports env)) config"
  obtain fs where run: "update_config_db os_ok (ce_db_path env) ?upd (cs_files st) = (fs, ?upd db)"
    using update_config_db_ok [OF assms(2)] by blast
  have not_known: "?upd db \<noteq> Inr (Some c, d)" for c d
    using assms(3,4) by (auto simp: attach_update_def registry_find bind_result_Inr)
  show ?thesis
  proof (cases "?upd db")
    case (Inl e)
    moreover have "\<not> (\<exists>db'. attached_db (ce_platform env) (port_status_paths (ce_ports env)) config db db')"
      using Inl by (simp add: attach_update_new [symmetric])
    ultimately show ?thesis
      using run assms(1,5) by (auto simp: commit_attach_def all_calls_succeed_def quiet_simp)
  next
    case (Inr xd)
    then obtain d where d: "?upd db = Inr (None, d)" using not_known by (metis option.exhaust surj_pair)
    moreover have "\<exists>db'. attached_db (ce_platform env) (port_status_paths (ce_ports env)) config db db'"
      using d attach_update_new by blast
    ultimately show ?thesis
      using run assms(1,5) by (auto simp: commit_attach_def all_calls_succeed_def quiet_simp)
  qed
qed

text \<open>What the attach handler does with a request that has the right fields.\<close>

definition requested_config :: "string \<Rightarrow> string \<Rightarrow> nat list \<Rightarrow> controller_config \<Rightarrow> bool" where
  "requested_config raw profile ports c \<longleftrightarrow> address_shape raw \<and> cc_address c = map tolower raw
     \<and> parse_controller_profile profile = Inr (cc_profile c) \<and> cc_ports c = ports"

lemma handle_attach_decision:
  assumes "all_calls_succeed env" and db: "load_config_db os_ok (ce_db_path env) (cs_files st) = Inr db"
    and run: "handle_attach_control_request env (attach_fields raw profile ports) st = (reply, st')"
  shows "reply_ok reply \<longleftrightarrow>
    (\<exists>c ts db'. requested_config raw profile ports c \<and> registry db (cc_address c) = None
       \<and> ce_list_targets env = Inr ts \<and> cc_address c \<in> ct_address ` set ts
       \<and> attached_db (ce_platform env) (port_status_paths (ce_ports env)) c db db')"
    (is "_ \<longleftrightarrow> ?accepted")
proof (cases "address_shape raw")
  case False
  then have no: "\<not> ?accepted" by (simp add: requested_config_def)
  from False have "normalize_bluetooth_address raw = Inl (invalid_address raw)" by (simp add: normalize_eq)
  with run have "\<not> reply_ok reply"
    by (auto simp: handle_attach_control_request_def attach_fields_def field_lookup Let_def split: if_splits)
  with no show ?thesis by blast
next
  case shape: True
  let ?a = "map tolower raw"
  have addr: "normalize_bluetooth_address raw = Inr ?a" "canonical_address ?a"
    using shape normalize_canonical [of raw] by (auto simp: normalize_eq)
  have plain: "backslash \<notin> set raw" "CHR ''#'' \<notin> set raw" using not_isxdigit_device_path [OF shape] by auto
  note start = handle_attach_control_request_def attach_fields_def field_lookup Let_def
  show ?thesis
  proof (cases "registry db ?a")
    case (Some c)
    then have "cc_address c = ?a" by (auto simp: registry_def dest: find_entry_Some)
    moreover have "?a \<noteq> []" using canonical_length [OF addr(2)] by auto
    ultimately have "\<not> reply_ok reply"
      using run plain addr db assms(1) Some
      by (auto simp: start all_calls_succeed_def registry_find)
    moreover have "\<not> ?accepted" using Some by (auto simp: requested_config_def)
    ultimately show ?thesis by blast
  next
    case new: None
    show ?thesis
    proof (cases "parse_controller_profile profile")
      case (Inl e)
      then have "\<not> ?accepted" by (simp add: requested_config_def)
      moreover have "\<not> reply_ok reply"
        using run plain addr db assms(1) new Inl
        by (auto simp: start all_calls_succeed_def registry_find empty_config_def)
      ultimately show ?thesis by blast
    next
      case (Inr prof)
      let ?c = "\<lparr>cc_address = ?a, cc_profile = prof, cc_ports = ports\<rparr>"
      have req: "requested_config raw profile ports c \<longleftrightarrow> c = ?c" for c
        using shape Inr by (cases c) (auto simp: requested_config_def)
      have rest: "(reply, st') = attempt (ce_list_targets env) (\<lambda>e. (format_control_attach_reply False (what e) ?c, st))
          (\<lambda>targets. if find_controller_target_by_address targets ?a = None then
             (format_control_attach_reply False target_error empty_config,
              log_control Warn (''attach rejected '' @ target_error) st)
           else commit_attach env ?c st)"
        using run plain addr db assms(1) new Inr
        by (simp add: start all_calls_succeed_def registry_find empty_config_def cong: if_cong)
      show ?thesis
      proof (cases "ce_list_targets env")
        case (Inl e)
        with rest show ?thesis by simp
      next
        case (Inr ts)
        show ?thesis
        proof (cases "?a \<in> ct_address ` set ts")
          case False
          with rest Inr show ?thesis
            by (simp add: find_controller_target_by_address_def find_entry_None_iff req)
        next
          case True
          with rest Inr have "commit_attach env ?c st = (reply, st')"
            by (simp add: find_controller_target_by_address_def find_entry_None_iff)
          from commit_attach_ok [OF assms(1) db _ _ this] new addr(2) True Inr show ?thesis
            by (simp add: req)
        qed
      qed
    qed
  qed
qed

lemma handle_attach_outcome:
  assumes "all_calls_succeed env" and db: "load_config_db os_ok (ce_db_path env) (cs_files st) = Inr db"
    and run: "handle_attach_control_request env (attach_fields raw profile ports) st = (reply, st')"
  shows "\<exists>db'. load_config_db os_ok (ce_db_path env) (cs_files st') = Inr db'
    \<and> (if reply_ok reply
       then cs_reload_requested st'
         \<and> (\<exists>c. requested_config raw profile ports c
             \<and> registry db' = (registry db)(cc_address c \<mapsto> c\<lparr>cc_ports := sort ports\<rparr>))
       else db' = db \<and> cs_reload_requested st' = cs_reload_requested st)"
  using run
proof (cases rule: handle_attach_cases)
  case refused
  with db show ?thesis by simp
next
  case (committed raw' config)
  have req: "requested_config raw profile ports config"
    using committed(3-6)
    by (auto simp: attach_fields_def field_lookup requested_config_def normalize_eq split: if_splits)
  have db': "load_config_db os_ok (ce_db_path env) (ce_interference env (cs_files st)) = Inr db"
    using assms(1) db by (simp add: all_calls_succeed_def quiet_simp)
  from committed(2) db' show ?thesis
  proof (cases rule: commit_attach_cases)
    case rejected
    have "\<not> attached_db (ce_platform env) (port_status_paths (ce_ports env)) config db d" for d
    proof
      assume d: "attached_db (ce_platform env) (port_status_paths (ce_ports env)) config db d"
      then have "registry db (cc_address config) = None"
        using committed(1) by (simp add: attached_db_def registry_find)
      with commit_attach_ok [OF assms(1) db _ committed(1,2)] d have "reply_ok reply" by blast
      with rejected(1) show False by simp
    qed
    with rejected show ?thesis by auto
  next
    case (accepted d)
    have "registry d = (registry db)(cc_address config \<mapsto> config\<lparr>cc_ports := sort ports\<rparr>)"
      using registry_attached(2) [OF load_wf [OF db] accepted(4) committed(1)] req
      by (simp add: requested_config_def)
    with accepted req show ?thesis by auto
  qed
qed

section \<open>Properties\<close>

text \<open>An environment for the witnesses: one paired controller, all ports present, nothing registered.\<close>

definition example_env :: control_env where
  "example_env = \<lparr>ce_platform = Linux, ce_db_path = ''vdsd.db'', ce_controllers = [],
     ce_ports = [\<lparr>vp_port = 1, vp_path = ''/dev/vds1'', vp_occupied = False, vp_address = [], vp_device_address = []\<rparr>],
     ce_list_targets = Inr [\<lparr>ct_address = ''aa:bb:cc:dd:ee:01'', ct_name = ''DualSense'', ct_profile = Ds5,
        ct_online = True, ct_usb = False\<rparr>],
     ce_os_load = os_ok, ce_os_update = os_ok, ce_interference = (\<lambda>fs. fs)\<rparr>"

definition example_state :: control_state where
  "example_state = \<lparr>cs_files = Map.empty, cs_trace_flags = 0, cs_reload_requested = False, cs_log = []\<rparr>"

lemma example_env_ok: "all_calls_succeed example_env" "quiet example_env"
  "load_config_db os_ok (ce_db_path example_env) (cs_files example_state) = Inr \<lparr>controllers = []\<rparr>"
  by (simp_all add: all_calls_succeed_def quiet_def example_env_def example_state_def load_ok
      parse_config_db_def getline_all.simps)

text \<open>
  C16. Sessions: whatever requests arrive, in whatever order, well formed or not, and whatever the
  operating system answers to each call, the database file stays loadable after every single
  command, and each command binds one free address, frees one address or changes nothing.
\<close>

theorem control_sessions_keep_database:
  assumes "list_all (\<lambda>(env, request). ce_db_path env = path \<and> quiet env) reqs" and "saved_db path st = Inr db"
  shows "\<exists>dbs. map (saved_db path) (run_session reqs st) = map Inr dbs
    \<and> successively registry_step (db # dbs) \<and> list_all wf_db dbs"
  using assms by (rule run_session_steps)

theorem control_sessions_keep_database_witness:
  "\<exists>dbs. map (saved_db ''vdsd.db'') (run_session [(example_env\<lparr>ce_os_update := os_ok\<lparr>os_writes := [Written 3, Write_failed ''ENOSPC'']\<rparr>\<rparr>,
       ''{}''), (example_env, ''not a request'')] example_state) = map Inr dbs
    \<and> successively registry_step (\<lparr>controllers = []\<rparr> # dbs) \<and> list_all wf_db dbs"
proof (rule control_sessions_keep_database)
  show "saved_db ''vdsd.db'' example_state = Inr \<lparr>controllers = []\<rparr>"
    using example_env_ok(3) by (simp add: saved_db_def example_env_def)
qed (simp add: example_env_def quiet_def)

text \<open>
  Attaching, end to end from the bytes of the request to the file, when every call of the
  operating system succeeds: the reply says OK exactly when the address has the right shape and is
  not registered, the profile is known, the Bluetooth stack lists the address as a target, the
  ports are distinct and in range, and every controller can be assigned a present port. Then the
  file holds the old registry with exactly this binding added, ports sorted, and a reload is
  requested. Otherwise neither the stored database nor the reload flag changes.
\<close>

theorem attach_request_decision:
  assumes "all_calls_succeed env" and "load_config_db os_ok (ce_db_path env) (cs_files st) = Inr db"
    and "list_all isspace tail" and "list_all (\<lambda>p. p \<le> unsigned_max) ports"
    and "handle_vdsd_control_command env (write_object (attach_fields raw profile ports) @ tail) st = (reply, st')"
  shows "(reply_ok reply \<longleftrightarrow>
      (\<exists>c ts db'. requested_config raw profile ports c \<and> registry db (cc_address c) = None
       \<and> ce_list_targets env = Inr ts \<and> cc_address c \<in> ct_address ` set ts
       \<and> attached_db (ce_platform env) (port_status_paths (ce_ports env)) c db db'))
    \<and> (\<exists>db'. load_config_db os_ok (ce_db_path env) (cs_files st') = Inr db'
        \<and> (if reply_ok reply
           then cs_reload_requested st'
             \<and> (\<exists>c. requested_config raw profile ports c
                 \<and> registry db' = (registry db)(cc_address c \<mapsto> c\<lparr>cc_ports := sort ports\<rparr>))
           else db' = db \<and> cs_reload_requested st' = cs_reload_requested st))"
  using handle_attach_decision [OF assms(1,2)] handle_attach_outcome [OF assms(1,2)] assms(5)
  unfolding handle_attach_text [OF assms(3,4)] by blast

theorem attach_request_decision_witness:
  "\<exists>reply st'. handle_vdsd_control_command example_env
       (write_object (attach_fields ''AA:BB:CC:DD:EE:01'' ''ds5'' [1]) @ [CHR 0x0A]) example_state = (reply, st')
     \<and> reply_ok reply \<and> cs_reload_requested st'"
proof -
  obtain reply st' where run: "handle_vdsd_control_command example_env
       (write_object (attach_fields ''AA:BB:CC:DD:EE:01'' ''ds5'' [1]) @ [CHR 0x0A]) example_state = (reply, st')"
    by force
  have "list_all isspace [CHR 0x0A]" "list_all (\<lambda>p. p \<le> unsigned_max) [1]"
    by (simp_all add: isspace_def code_of_def)
  note decision = attach_request_decision [OF example_env_ok(1,3) this run]
  let ?a = "''aa:bb:cc:dd:ee:01''"
  let ?c = "\<lparr>cc_address = ?a, cc_profile = Ds5, cc_ports = [1]\<rparr>"
  have low: "map tolower ''AA:BB:CC:DD:EE:01'' = ?a" and shape: "address_shape ''AA:BB:CC:DD:EE:01''"
    by code_simp+
  then have a: "canonical_address ?a"
    using normalize_canonical [of "''AA:BB:CC:DD:EE:01''"] by (simp add: normalize_eq)
  have req: "requested_config ''AA:BB:CC:DD:EE:01'' ''ds5'' [1] ?c"
    using low shape by (simp add: requested_config_def parse_controller_profile_def)
  have path: "port_index_from_path Linux ''/dev/vds1'' = Some 1"
    by code_simp
  have "attached_db Linux [''/dev/vds1''] ?c \<lparr>controllers = []\<rparr> \<lparr>controllers = [?c]\<rparr>"
    using a path
    by (simp add: attached_db_def find_canonical upsert_controller_config_def validate_ports_Inr
        validate_config_assignments_def List.map_filter_simps kMaxPortCount_def valid_ports_def)
  then have "\<exists>db'. attached_db (ce_platform example_env) (port_status_paths (ce_ports example_env)) ?c
      \<lparr>controllers = []\<rparr> db'" by (auto simp: example_env_def port_status_paths_def)
  moreover have "registry \<lparr>controllers = []\<rparr> (cc_address ?c) = None" by (simp add: registry_def)
  moreover have "\<exists>ts. ce_list_targets example_env = Inr ts \<and> cc_address ?c \<in> ct_address ` set ts"
    by (simp add: example_env_def)
  ultimately have ok: "reply_ok reply" using decision req by blast
  with decision have "cs_reload_requested st'" by auto
  with ok show ?thesis using run by blast
qed

text \<open>
  An attach reply can be trusted whatever the operating system answers and whatever another
  process wrote in between: after an OK the file on disk holds the new binding, which was free in
  the database the update read, and the reload is requested; without an OK no reload is requested
  by this command, and the file still holds either that database or the one with the binding.
\<close>

theorem attach_reply_truthful:
  assumes "handle_attach_control_request env fs st = (reply, st')"
    and "load_config_db os_ok (ce_db_path env) (ce_interference env (cs_files st)) = Inr db"
    and "load_config_db os_ok (ce_db_path env) (cs_files st) = Inr db0"
  shows "if reply_ok reply
    then cs_reload_requested st'
      \<and> (\<exists>c db'. registry db (cc_address c) = None
          \<and> load_config_db os_ok (ce_db_path env) (cs_files st') = Inr db'
          \<and> registry db' = (registry db)(cc_address c \<mapsto> c))
    else cs_reload_requested st' = cs_reload_requested st
      \<and> (\<exists>db'. load_config_db os_ok (ce_db_path env) (cs_files st') = Inr db'
          \<and> (db' = db0 \<or> registry_step db db'))"
  using assms(1)
proof (cases rule: handle_attach_cases)
  case refused
  with assms(3) show ?thesis by simp
next
  case (committed raw config)
  note wf = load_wf [OF assms(2)]
  from committed(2) assms(2) show ?thesis
  proof (cases rule: commit_attach_cases)
    case rejected
    with registry_step_attach [OF wf _ committed(1)] show ?thesis by auto
  next
    case (accepted d)
    let ?c = "config\<lparr>cc_ports := sort (cc_ports config)\<rparr>"
    have "registry db (cc_address ?c) = None" "registry d = (registry db)(cc_address ?c \<mapsto> ?c)"
      using registry_attached [OF wf accepted(4) committed(1)] by simp_all
    with accepted(5) have "\<exists>c db'. registry db (cc_address c) = None
        \<and> load_config_db os_ok (ce_db_path env) (cs_files st') = Inr db'
        \<and> registry db' = (registry db)(cc_address c \<mapsto> c)" by blast
    with accepted(1,2) show ?thesis by simp
  qed
qed

theorem attach_reply_truthful_witness:
  "cs_reload_requested (snd (handle_attach_control_request example_env [] example_state)) = False"
proof -
  obtain reply st' where run: "handle_attach_control_request example_env [] example_state = (reply, st')"
    by force
  have "\<not> reply_ok reply" using run
    by (auto simp: handle_attach_control_request_def require_jsonl_string_def)
  with attach_reply_truthful [OF run _ example_env_ok(3)] example_env_ok(3) run show ?thesis
    by (simp add: quiet_simp [OF example_env_ok(2)] example_state_def)
qed

lemma handle_detach_outcome:
  assumes "all_calls_succeed env" and db: "load_config_db os_ok (ce_db_path env) (cs_files st) = Inr db"
    and run: "handle_detach_control_request env (detach_fields raw) st = (reply, st')"
  shows "(reply_ok reply \<longleftrightarrow> address_shape raw \<and> registry db (map tolower raw) \<noteq> None)
    \<and> (\<exists>db'. load_config_db os_ok (ce_db_path env) (cs_files st') = Inr db'
        \<and> (if reply_ok reply then cs_reload_requested st' \<and> registry db' = (registry db)(map tolower raw := None)
           else db' = db \<and> cs_reload_requested st' = cs_reload_requested st))"
proof (cases "address_shape raw")
  case False
  then have "normalize_bluetooth_address raw = Inl (invalid_address raw)" by (simp add: normalize_eq)
  with run have "reply = format_control_detach_reply False (what (invalid_address raw)) []" "st' = st"
    by (simp_all add: handle_detach_control_request_def detach_fields_def field_lookup)
  with False db show ?thesis by simp
next
  case shape: True
  let ?a = "map tolower raw"
  have addr: "normalize_bluetooth_address raw = Inr ?a" "canonical_address ?a"
    using shape normalize_canonical [of raw] by (auto simp: normalize_eq)
  have ne: "?a \<noteq> []" using canonical_length [OF addr(2)] by auto
  note start = handle_detach_control_request_def detach_fields_def field_lookup Let_def
  show ?thesis
  proof (cases "registry db ?a")
    case None
    with run addr assms(1) db have "reply = format_control_detach_reply False not_registered_error []" "st' = st"
      by (simp_all add: start all_calls_succeed_def registry_find)
    with None db show ?thesis by simp
  next
    case (Some c)
    with run addr ne assms(1) db have commit: "commit_detach env ?a st = (reply, st')"
      by (simp add: start all_calls_succeed_def registry_find)
    obtain fs where upd: "update_config_db os_ok (ce_db_path env) (detach_update ?a) (cs_files st)
        = (fs, detach_update ?a db)"
      using update_config_db_ok [OF db] by blast
    have ok: "reply_ok reply"
      using commit upd assms(1) Some
      by (auto simp: commit_detach_def all_calls_succeed_def quiet_simp detach_update_eq [OF addr(2)]
          registry_find [OF addr(2)] Let_def)
    have db': "load_config_db os_ok (ce_db_path env) (ce_interference env (cs_files st)) = Inr db"
      using assms(1) db by (simp add: all_calls_succeed_def quiet_simp)
    from commit addr(2) db' show ?thesis
    proof (cases rule: commit_detach_cases)
      case failed
      with ok show ?thesis by simp
    next
      case finished
      with ok Some shape registry_detached [OF load_wf [OF db], of ?a] show ?thesis
        by (simp add: registry_find [OF addr(2)])
    qed
  qed
qed

text \<open>
  Detaching, end to end, when every call of the operating system succeeds: the reply says OK
  exactly when the address has the right shape and is registered; then the file holds the registry
  without this address and a reload is requested, otherwise database and reload flag are as before.
\<close>

theorem detach_request_decision:
  assumes "all_calls_succeed env" and "load_config_db os_ok (ce_db_path env) (cs_files st) = Inr db"
    and "list_all isspace tail"
    and "handle_vdsd_control_command env (write_object (detach_fields raw) @ tail) st = (reply, st')"
  shows "(reply_ok reply \<longleftrightarrow> address_shape raw \<and> registry db (map tolower raw) \<noteq> None)
    \<and> (\<exists>db'. load_config_db os_ok (ce_db_path env) (cs_files st') = Inr db'
        \<and> (if reply_ok reply then cs_reload_requested st' \<and> registry db' = (registry db)(map tolower raw := None)
           else db' = db \<and> cs_reload_requested st' = cs_reload_requested st))"
  using handle_detach_outcome [OF assms(1,2)] assms(4) unfolding handle_detach_text [OF assms(3)] by blast

definition registered_state :: control_state where
  "registered_state = example_state\<lparr>cs_files := [''vdsd.db'' \<mapsto> serialize_config_db example_db],
     cs_reload_requested := True\<rparr>"

lemma registered_state_db:
  "load_config_db os_ok (ce_db_path example_env) (cs_files registered_state) = Inr example_db"
  by (rule load_serialized [OF example_wf(1)]) (simp add: registered_state_def example_env_def)

theorem detach_request_decision_witness:
  "reply_ok (fst (handle_vdsd_control_command example_env
     (write_object (detach_fields ''AA:BB:CC:DD:EE:02'') @ [CHR 0x0A]) registered_state))"
proof -
  obtain reply st' where run: "handle_vdsd_control_command example_env
     (write_object (detach_fields ''AA:BB:CC:DD:EE:02'') @ [CHR 0x0A]) registered_state = (reply, st')" by force
  have "address_shape ''AA:BB:CC:DD:EE:02''" "registry example_db (map tolower ''AA:BB:CC:DD:EE:02'') \<noteq> None"
    by code_simp+
  with detach_request_decision [OF example_env_ok(1) registered_state_db _ run] run show ?thesis
    by (simp add: isspace_def code_of_def)
qed

text \<open>
  Trace commands: the reply says OK exactly for a mode of on or off with an acceptable scope;
  then exactly the flags of the scope are set or cleared, and otherwise the flags stay. The
  database and the reload flag are never touched.
\<close>

theorem trace_request_effect:
  assumes "list_all isspace tail"
    and "handle_vdsd_control_command env (write_object (trace_fields mode scope) @ tail) st = (reply, st')"
  shows "cs_files st' = cs_files st \<and> cs_reload_requested st' = cs_reload_requested st
    \<and> (reply_ok reply \<longleftrightarrow> (mode = ''on'' \<or> mode = ''off'') \<and> is_ok (parse_trace_scope scope))
    \<and> cs_trace_flags st' =
       (case parse_trace_scope scope of
          Inl _ \<Rightarrow> cs_trace_flags st
        | Inr flags \<Rightarrow>
            if mode = ''on'' then cs_trace_flags st OR flags
            else if mode = ''off'' then cs_trace_flags st AND NOT flags
            else cs_trace_flags st)"
proof -
  have run: "handle_trace_control_request (trace_fields mode scope) st = (reply, st')"
    using assms(2) by (simp add: handle_trace_text [OF assms(1)])
  show ?thesis
  proof (cases "parse_trace_scope scope")
    case (Inl e)
    with run trace_step [OF run] show ?thesis
      by (auto simp: handle_trace_control_request_def trace_fields_def field_lookup)
  next
    case (Inr flags)
    with run trace_step [OF run] show ?thesis
      by (auto simp: handle_trace_control_request_def trace_fields_def field_lookup Let_def split: if_splits)
  qed
qed

theorem trace_request_effect_witness:
  "cs_trace_flags (snd (handle_vdsd_control_command example_env
     (write_object (trace_fields ''on'' ''output,input-audio'') @ []) example_state)) = 5"
proof -
  obtain reply st' where run: "handle_vdsd_control_command example_env
     (write_object (trace_fields ''on'' ''output,input-audio'') @ []) example_state = (reply, st')" by force
  have "parse_trace_scope ''output,input-audio'' = Inr 5" by code_simp
  with trace_request_effect [OF _ run] run show ?thesis by (simp add: example_state_def)
qed

text \<open>
  The reload flag is assigned by detach, not accumulated: when another process removes the address
  between the two looks at the database, a reload that an earlier command of the same round
  requested is dropped.
\<close>

lemma detach_drops_pending_reload:
  "\<exists>env st. all_calls_succeed (env\<lparr>ce_interference := (\<lambda>fs. fs)\<rparr>) \<and> cs_reload_requested st
     \<and> \<not> cs_reload_requested (snd (handle_vdsd_control_command env
          (write_object (detach_fields ''aa:bb:cc:dd:ee:01'') @ []) st))"
proof -
  let ?env = "example_env\<lparr>ce_interference := (\<lambda>fs. Map.empty)\<rparr>"
  let ?a = "''aa:bb:cc:dd:ee:01''"
  have a: "canonical_address ?a"
    using example_wf(2) by (simp add: wf_config_def example_config_def)
  have first: "load_config_db os_ok ''vdsd.db'' (cs_files registered_state) = Inr example_db"
    using registered_state_db by (simp add: example_env_def)
  have found: "find_controller_config_by_address example_db ?a = Some example_config"
    by (simp add: find_canonical [OF a] example_db_def example_config_def)
  have "load_config_db os_ok ''vdsd.db'' Map.empty = Inr \<lparr>controllers = []\<rparr>"
    using example_env_ok(3) by (simp add: example_env_def example_state_def)
  from update_config_db_ok [OF this] obtain fs where
    upd: "update_config_db os_ok ''vdsd.db'' (detach_update ?a) Map.empty = (fs, detach_update ?a \<lparr>controllers = []\<rparr>)"
    by blast
  have "\<not> cs_reload_requested (snd (commit_detach ?env ?a registered_state))"
    using upd by (simp add: commit_detach_def example_env_def detach_update_eq [OF a] find_canonical [OF a] Let_def)
  moreover have "handle_detach_control_request ?env (detach_fields ?a) registered_state
      = commit_detach ?env ?a registered_state"
    using first found a
    by (simp add: handle_detach_control_request_def detach_fields_def field_lookup example_env_def Let_def)
  ultimately have "\<not> cs_reload_requested (snd (handle_vdsd_control_command ?env
      (write_object (detach_fields ?a) @ []) registered_state))"
    by (subst handle_detach_text) simp_all
  moreover have "all_calls_succeed (?env\<lparr>ce_interference := (\<lambda>fs. fs)\<rparr>)"
    by (simp add: all_calls_succeed_def quiet_def example_env_def)
  moreover have "cs_reload_requested registered_state" by (simp add: registered_state_def)
  ultimately show ?thesis by blast
qed

end
