(* ===== verification/Vdsctl.thy ===== *)
theory Vdsctl
  imports ControlRequests Trigger
begin

text \<open>
  \<open>src/src/vdsctl_common.cc\<close>: the command line client. Each command parses its arguments, builds
  one request line and hands it to \<open>request_control\<close>, the platform's transport (a Unix socket or a
  named pipe, a parameter here), whose answer it prints. \<open>argv\<close> is the list of the arguments, the
  program name first; \<open>argc\<close> is its length.
\<close>

section \<open>Requests\<close>

definition attach_request :: "controller_config \<Rightarrow> string" where
  "attach_request config =
     ''{'' @ jsonl_string_field ''command'' ''attach'' @ '',''
     @ jsonl_string_field ''address'' (cc_address config) @ '',''
     @ jsonl_string_field ''profile'' (controller_profile_name (cc_profile config)) @ '',''
     @ jsonl_unsigned_array_field ''ports'' (cc_ports config) @ ''}'' @ [CHR 0x0A]"

definition detach_request :: "string \<Rightarrow> string" where
  "detach_request address =
     ''{'' @ jsonl_string_field ''command'' ''detach'' @ '',''
     @ jsonl_string_field ''address'' address @ ''}'' @ [CHR 0x0A]"

text \<open>The three requests written as literals.\<close>

definition bare_request :: "string \<Rightarrow> string" where
  "bare_request command =
     ''{'' @ [quote_char] @ ''command'' @ [quote_char] @ '':'' @ [quote_char] @ command
     @ [quote_char] @ ''}'' @ [CHR 0x0A]"

definition list_request :: string where "list_request = bare_request ''list''"
definition list_targets_request :: string where "list_targets_request = bare_request ''list-targets''"
definition device_info_request :: string where "device_info_request = bare_request ''device-info''"

record vdsctl_trace_command =
  tc_enabled :: bool
  tc_scope :: string

record vdsctl_audio_buffer_command =
  ab_chunks :: "nat option"

definition trace_request :: "vdsctl_trace_command \<Rightarrow> string" where
  "trace_request trace =
     ''{'' @ jsonl_string_field ''command'' ''trace'' @ '',''
     @ jsonl_string_field ''mode'' (if tc_enabled trace then ''on'' else ''off'') @ '',''
     @ jsonl_string_field ''scope'' (tc_scope trace) @ ''}'' @ [CHR 0x0A]"

definition audio_buffer_request :: "vdsctl_audio_buffer_command \<Rightarrow> string" where
  "audio_buffer_request command =
     ''{'' @ jsonl_string_field ''command'' ''audio-buffer''
     @ (case ab_chunks command of
          None \<Rightarrow> []
        | Some n \<Rightarrow> '','' @ jsonl_string_field ''chunks'' (to_string n)) @ ''}'' @ [CHR 0x0A]"

section \<open>Arguments\<close>

datatype vdsctl_command = Attach | Detach | List | ListTargets | Device_Info | Trace | AudioBuffer | Effects

definition parse_vdsctl_command :: "string \<Rightarrow> vdsctl_command result" where
  "parse_vdsctl_command command =
     (if command = ''attach'' then Inr Attach
      else if command = ''detach'' then Inr Detach
      else if command = ''list'' then Inr List
      else if command = ''list-targets'' then Inr ListTargets
      else if command = ''info'' then Inr Device_Info
      else if command = ''trace'' then Inr Trace
      else if command = ''audio-buffer'' then Inr AudioBuffer
      else if command = ''effects'' then Inr Effects
      else Inl (Runtime_error (''unknown command: '' @ command)))"

definition require_vdsctl_arg_count :: "nat \<Rightarrow> nat \<Rightarrow> unit result" where
  "require_vdsctl_arg_count argc expected =
     require_that (argc = expected) (Runtime_error ''unexpected argument'')"

definition option_value :: "string list \<Rightarrow> string \<times> string list" where
  "option_value args =
     (case args of
        v # rest \<Rightarrow> if \<not> prefix ''--'' v then (v, rest) else ([], args)
      | [] \<Rightarrow> ([], []))"

lemma option_value_length: "length (snd (option_value args)) \<le> length args"
  by (cases args) (simp_all add: option_value_def)

text \<open>The loop over the options: an option without a value means the empty text.\<close>

function attach_options :: "controller_config \<Rightarrow> string list \<Rightarrow> controller_config result" where
  "attach_options config [] = Inr config"
| "attach_options config (arg # args) =
     (if arg = ''--profile'' then
        (case parse_controller_profile (fst (option_value args)) of
           Inl e \<Rightarrow> Inl e
         | Inr p \<Rightarrow> attach_options (config\<lparr>cc_profile := p\<rparr>) (snd (option_value args)))
      else if arg = ''--ports'' then
        (case parse_ports (fst (option_value args)) of
           Inl e \<Rightarrow> Inl e
         | Inr ps \<Rightarrow> attach_options (config\<lparr>cc_ports := ps\<rparr>) (snd (option_value args)))
      else Inl (Runtime_error (''unknown attach option: '' @ arg)))"
  by pat_completeness auto
termination
  by (relation "measure (\<lambda>(config, args). length args)") (auto simp: option_value_length less_Suc_eq_le)

definition parse_vdsctl_attach :: "string list \<Rightarrow> controller_config result" where
  "parse_vdsctl_attach argv =
     (if length argv < 3 then Inl (Runtime_error ''attach requires an address'')
      else bind_result (normalize_bluetooth_address (argv ! 2)) (\<lambda>address.
        attach_options \<lparr>cc_address = address, cc_profile = Unspecified, cc_ports = []\<rparr> (drop 3 argv)))"

definition parse_vdsctl_trace :: "string list \<Rightarrow> vdsctl_trace_command result" where
  "parse_vdsctl_trace argv =
     (if length argv \<noteq> 3 \<and> length argv \<noteq> 5 then
        Inl (Runtime_error ''trace requires on or off with optional --scope'')
      else if length argv = 5 \<and> argv ! 3 \<noteq> ''--scope'' then
        Inl (Runtime_error ''trace option must be --scope'')
      else
        (let scope = (if length argv = 5 then argv ! 4 else ''all'') in
         if argv ! 2 = ''on'' then Inr \<lparr>tc_enabled = True, tc_scope = scope\<rparr>
         else if argv ! 2 = ''off'' then Inr \<lparr>tc_enabled = False, tc_scope = scope\<rparr>
         else Inl (Runtime_error ''trace requires on or off'')))"

text \<open>
  \<open>std::stoul\<close> in base 10: leading white space, a sign and digits are taken, the rest is left and
  counted. The type \<open>unsigned long\<close> has 64 bits on Linux and 32 bits on Windows; a value that does
  not fit throws, a minus sign negates modulo the type. The text of the two exceptions is the
  library's.
\<close>

fun unsigned_long_max :: "platform \<Rightarrow> nat" where
  "unsigned_long_max Linux = 2 ^ 64 - 1"
| "unsigned_long_max Windows = 2 ^ 32 - 1"

definition stoul :: "platform \<Rightarrow> string \<Rightarrow> (nat \<times> nat) result" where
  "stoul platform value =
     (let unspaced = dropWhile isspace value;
          negative = (case unspaced of c # _ \<Rightarrow> c = CHR ''-'' | [] \<Rightarrow> False);
          signed = (case unspaced of c # _ \<Rightarrow> c = CHR ''-'' \<or> c = CHR ''+'' | [] \<Rightarrow> False);
          body = (if signed then tl unspaced else unspaced);
          digits = takeWhile isdigit body;
          v = dec_value 0 digits;
          modulus = unsigned_long_max platform + 1 in
      if digits = [] then Inl (Invalid_argument ''stoul'')
      else if v > unsigned_long_max platform then Inl (Out_of_range ''stoul'')
      else Inr (if negative then (modulus - v) mod modulus else v,
                length value - length (dropWhile isdigit body)))"

definition parse_vdsctl_audio_buffer :: "platform \<Rightarrow> string list \<Rightarrow> vdsctl_audio_buffer_command result" where
  "parse_vdsctl_audio_buffer platform argv =
     (if length argv \<noteq> 2 \<and> length argv \<noteq> 3 then
        Inl (Runtime_error ''audio-buffer accepts an optional chunk count'')
      else if length argv = 2 then Inr \<lparr>ab_chunks = None\<rparr>
      else
        (case stoul platform (argv ! 2) of
           Inl e \<Rightarrow> Inl e
         | Inr (parsed, consumed) \<Rightarrow>
             if consumed \<noteq> length (argv ! 2) \<or> parsed > unsigned_max then
               Inl (Runtime_error ''audio-buffer chunks must be an unsigned integer'')
             else Inr \<lparr>ab_chunks = Some parsed\<rparr>))"

section \<open>effects\<close>

fun effects_key :: "string \<Rightarrow> string option" where
  "effects_key arg =
     (if arg = ''--left-trigger'' then Some ''left_trigger''
      else if arg = ''--right-trigger'' then Some ''right_trigger''
      else if arg = ''--led'' then Some ''led''
      else if arg = ''--player'' then Some ''player''
      else if arg = ''--mute-led'' then Some ''mute_led''
      else if arg = ''--force'' then Some ''force''
      else None)"

text \<open>The first loop: the fields of the request, each with its leading comma.\<close>

fun effects_fields :: "string \<Rightarrow> string list \<Rightarrow> string result" where
  "effects_fields request [] = Inr request"
| "effects_fields request (arg # args) =
     (case effects_key arg of
        Some key \<Rightarrow>
          (case args of
             [] \<Rightarrow> Inl (Runtime_error (arg @ '' requires a value''))
           | value # rest \<Rightarrow> effects_fields (request @ '','' @ jsonl_string_field key value) rest)
      | None \<Rightarrow>
          if arg = ''--clear'' then effects_fields (request @ '','' @ jsonl_string_field ''clear'' ''all'') args
          else Inl (Runtime_error (''unknown effects argument: '' @ arg)))"

text \<open>The second loop looks at every argument, values included, and checks the trigger texts.\<close>

fun check_trigger_arguments :: "string list \<Rightarrow> unit result" where
  "check_trigger_arguments (arg # spec # args) =
     (if (arg = ''--left-trigger'' \<or> arg = ''--right-trigger'') \<and> spec \<noteq> ''none'' then
        bind_result (parse_trigger_effect_spec spec) (\<lambda>_. check_trigger_arguments (spec # args))
      else check_trigger_arguments (spec # args))"
| "check_trigger_arguments _ = Inr ()"

section \<open>Running a command\<close>

type_synonym transport = "string \<Rightarrow> string result"

definition run_vdsctl_attach :: "transport \<Rightarrow> string list \<Rightarrow> string result" where
  "run_vdsctl_attach request_control argv =
     bind_result (parse_vdsctl_attach argv) (\<lambda>config. request_control (attach_request config))"

definition run_vdsctl_detach :: "transport \<Rightarrow> string list \<Rightarrow> string result" where
  "run_vdsctl_detach request_control argv =
     bind_result (require_vdsctl_arg_count (length argv) 3) (\<lambda>_.
     bind_result (normalize_bluetooth_address (argv ! 2)) (\<lambda>address.
       request_control (detach_request address)))"

definition run_vdsctl_list :: "transport \<Rightarrow> string list \<Rightarrow> string result" where
  "run_vdsctl_list request_control argv =
     bind_result (require_vdsctl_arg_count (length argv) 2) (\<lambda>_. request_control list_request)"

definition run_vdsctl_list_targets :: "transport \<Rightarrow> string list \<Rightarrow> string result" where
  "run_vdsctl_list_targets request_control argv =
     bind_result (require_vdsctl_arg_count (length argv) 2) (\<lambda>_. request_control list_targets_request)"

definition run_vdsctl_info :: "transport \<Rightarrow> string list \<Rightarrow> string result" where
  "run_vdsctl_info request_control argv =
     bind_result (require_vdsctl_arg_count (length argv) 2) (\<lambda>_. request_control device_info_request)"

definition run_vdsctl_trace :: "transport \<Rightarrow> string list \<Rightarrow> string result" where
  "run_vdsctl_trace request_control argv =
     bind_result (parse_vdsctl_trace argv) (\<lambda>trace. request_control (trace_request trace))"

definition run_vdsctl_audio_buffer :: "platform \<Rightarrow> transport \<Rightarrow> string list \<Rightarrow> string result" where
  "run_vdsctl_audio_buffer platform request_control argv =
     bind_result (parse_vdsctl_audio_buffer platform argv) (\<lambda>command.
       request_control (audio_buffer_request command))"

definition run_vdsctl_effects :: "transport \<Rightarrow> string list \<Rightarrow> string result" where
  "run_vdsctl_effects request_control argv =
     bind_result (effects_fields (''{'' @ jsonl_string_field ''command'' ''effects'') (drop 2 argv)) (\<lambda>request.
     bind_result (check_trigger_arguments (drop 2 argv)) (\<lambda>_.
       request_control (request @ ''}'' @ [CHR 0x0A])))"

section \<open>The application\<close>

definition vdsctl_usage :: "string \<Rightarrow> string \<Rightarrow> string" where
  "vdsctl_usage version build_year =
     ''vdsctl ('' @ version @ ''): vDS management utility - Copyright (C) '' @ build_year
     @ concat (map (\<lambda>l. l @ [CHR 0x0A])
        ['' Jihong Min'',
         ''usage:'',
         ''  vdsctl attach <address> [--ports 0[,1...]|'' @ [quote_char, quote_char] @ ''] ''
           @ ''[--profile ds5|dse|'' @ [quote_char, quote_char] @ '']'',
         ''  vdsctl detach <address>'',
         ''  vdsctl list'',
         ''  vdsctl list-targets'',
         ''  vdsctl info'',
         ''  vdsctl audio-buffer [chunks]'',
         ''  vdsctl effects [--left-trigger SPEC|none] [--right-trigger SPEC|none]'',
         ''                 [--led R,G,B|none] [--player 0-63|none]'',
         ''                 [--mute-led off|on|breath|none] [--force on|off] [--clear]'',
         ''  vdsctl trace on|off [--scope <scope>[,<scope>...]]'',
         [],
         ''trigger SPEC:'',
         ''  off | feedback:pos,strength | weapon:start,end,strength |'',
         ''  vibration:pos,amplitude,freq | bow:start,end,strength,snap |'',
         ''  galloping:start,end,foot1,foot2,freq |'',
         ''  machine:start,end,strengthA,strengthB,freq,period | raw:<22 hex>'',
         [],
         ''trace scopes:'',
         ''  all, input, input-audio, input-control, output''])"

text \<open>The exit status, what goes to standard output and what goes to standard error.\<close>

record vdsctl_outcome =
  exit_status :: int
  standard_output :: string
  standard_error :: string

fun run_vdsctl_command :: "platform \<Rightarrow> transport \<Rightarrow> vdsctl_command \<Rightarrow> string list \<Rightarrow> string result" where
  "run_vdsctl_command platform rc Attach argv = run_vdsctl_attach rc argv"
| "run_vdsctl_command platform rc Detach argv = run_vdsctl_detach rc argv"
| "run_vdsctl_command platform rc List argv = run_vdsctl_list rc argv"
| "run_vdsctl_command platform rc ListTargets argv = run_vdsctl_list_targets rc argv"
| "run_vdsctl_command platform rc Device_Info argv = run_vdsctl_info rc argv"
| "run_vdsctl_command platform rc Trace argv = run_vdsctl_trace rc argv"
| "run_vdsctl_command platform rc AudioBuffer argv = run_vdsctl_audio_buffer platform rc argv"
| "run_vdsctl_command platform rc Effects argv = run_vdsctl_effects rc argv"

definition run_vdsctl_app ::
    "platform \<Rightarrow> transport \<Rightarrow> string \<Rightarrow> string \<Rightarrow> string list \<Rightarrow> vdsctl_outcome" where
  "run_vdsctl_app platform request_control version build_year argv =
     (if 2 \<le> length argv \<and> (argv ! 1 = ''-h'' \<or> argv ! 1 = ''--help'') then
        \<lparr>exit_status = 0, standard_output = [], standard_error = vdsctl_usage version build_year\<rparr>
      else
        (case bind_result (require_that (2 \<le> length argv) (Runtime_error ''command is required'')) (\<lambda>_.
                bind_result (parse_vdsctl_command (argv ! 1)) (\<lambda>command.
                  run_vdsctl_command platform request_control command argv)) of
           Inr reply \<Rightarrow> \<lparr>exit_status = 0, standard_output = reply, standard_error = []\<rparr>
         | Inl e \<Rightarrow> \<lparr>exit_status = 1, standard_output = [],
                     standard_error = ''vdsctl: '' @ what e @ [CHR 0x0A]\<rparr>))"

section \<open>Requests as objects\<close>

lemma trim_write_object: "trim_command (write_object fs @ [CHR 0x0A]) = write_object fs"
  by (simp add: trim_command_def write_object_def is_command_padding_def)

lemma attach_request_object:
  "attach_request c = write_object (attach_fields (cc_address c) (controller_profile_name (cc_profile c)) (cc_ports c))
     @ [CHR 0x0A]"
  by (simp add: attach_request_def write_object_def attach_fields_def)

lemma detach_request_object: "detach_request a = write_object (detach_fields a) @ [CHR 0x0A]"
  by (simp add: detach_request_def write_object_def detach_fields_def)

lemma trace_request_object:
  "trace_request t = write_object (trace_fields (if tc_enabled t then ''on'' else ''off'') (tc_scope t)) @ [CHR 0x0A]"
  by (simp add: trace_request_def write_object_def trace_fields_def)

lemma audio_buffer_request_object:
  "audio_buffer_request c = write_object (string_field ''command'' ''audio-buffer''
     # (case ab_chunks c of None \<Rightarrow> [] | Some n \<Rightarrow> [string_field ''chunks'' (to_string n)])) @ [CHR 0x0A]"
  by (simp add: audio_buffer_request_def write_object_def split: option.splits)

lemma bare_request_object:
  assumes "escape_jsonl_string command = command"
  shows "bare_request command = write_object [string_field ''command'' command] @ [CHR 0x0A]"
  using assms by (simp add: bare_request_def write_object_def jsonl_string_field_def jsonl_string_value_def)

text \<open>The fields an effects command line stands for.\<close>

fun effects_arguments :: "string list \<Rightarrow> jsonl_field list option" where
  "effects_arguments [] = Some []"
| "effects_arguments (arg # args) =
     (case effects_key arg of
        Some key \<Rightarrow>
          (case args of
             [] \<Rightarrow> None
           | value # rest \<Rightarrow> map_option ((#) (string_field key value)) (effects_arguments rest))
      | None \<Rightarrow>
          if arg = ''--clear'' then map_option ((#) (string_field ''clear'' ''all'')) (effects_arguments args)
          else None)"

fun comma_fields :: "jsonl_field list \<Rightarrow> string" where
  "comma_fields [] = []"
| "comma_fields (f # fs) = '','' @ write_field f @ comma_fields fs"

lemma write_fields_comma: "write_fields (f # fs) = write_field f @ comma_fields fs"
  by (induction fs arbitrary: f) simp_all

lemma effects_fields_eq:
  "effects_fields request args = Inr r \<longleftrightarrow> (\<exists>fs. effects_arguments args = Some fs \<and> r = request @ comma_fields fs)"
proof (induction request args arbitrary: r rule: effects_fields.induct)
  case (2 request arg args)
  show ?case
  proof (cases "effects_key arg")
    case None
    with 2(1) [OF None] show ?thesis by (auto simp del: effects_key.simps)
  next
    case (Some key)
    with 2(2) [OF Some] show ?thesis by (cases args) (auto simp del: effects_key.simps)
  qed
qed auto

lemma effects_arguments_wf: "effects_arguments args = Some fs \<Longrightarrow> list_all wf_field fs"
proof (induction args arbitrary: fs rule: effects_arguments.induct)
  case (2 arg args)
  have "effects_key arg = Some key \<Longrightarrow> plain_key key" for key
    by (auto simp: plain_key_def code_of_def split: if_splits)
  moreover have "plain_key ''clear''" by (simp add: plain_key_def code_of_def)
  ultimately show ?case using 2
    by (auto simp del: effects_key.simps split: option.splits list.splits if_splits)
qed simp

lemma effects_request_object:
  assumes "effects_fields (''{'' @ jsonl_string_field ''command'' ''effects'') args = Inr r"
  obtains fs where "effects_arguments args = Some fs"
    "r @ ''}'' @ [CHR 0x0A] = write_object (string_field ''command'' ''effects'' # fs) @ [CHR 0x0A]"
  using assms unfolding effects_fields_eq by (auto simp: write_object_def write_fields_comma)

lemma attach_options_wf:
  "attach_options c args = Inr c' \<Longrightarrow> wf_config c \<Longrightarrow> wf_config c'"
proof (induction c args rule: attach_options.induct)
  case (2 c arg args)
  then show ?case
    by (auto simp: wf_config_def dest: parse_ports_valid split: sum.splits if_splits)
qed simp

lemma parse_vdsctl_attach_wf: "parse_vdsctl_attach argv = Inr c \<Longrightarrow> wf_config c"
proof -
  assume "parse_vdsctl_attach argv = Inr c"
  then obtain a where a: "normalize_bluetooth_address (argv ! 2) = Inr a"
    and c: "attach_options \<lparr>cc_address = a, cc_profile = Unspecified, cc_ports = []\<rparr> (drop 3 argv) = Inr c"
    by (auto simp: parse_vdsctl_attach_def bind_result_Inr split: if_splits)
  from normalize_canonical [OF a] show "wf_config c"
    by (intro attach_options_wf [OF c]) (simp add: wf_config_def valid_ports_def)
qed

section \<open>Numbers\<close>

lemma stoul_unsigned:
  assumes "value = spaces @ digits" and "list_all isspace spaces" and "list_all isdigit digits" and "digits \<noteq> []"
  shows "stoul platform value =
    (if dec_value 0 digits > unsigned_long_max platform then Inl (Out_of_range ''stoul'')
     else Inr (dec_value 0 digits, length value))"
proof -
  obtain c cs where d: "digits = c # cs" using assms(4) by (cases digits) auto
  then have c: "isdigit c" "\<not> isspace c" using assms(3) isdigit_not_isspace by auto
  have no_sign: "c \<noteq> CHR ''-''" "c \<noteq> CHR ''+''" using c(1) by (auto simp: isdigit_def code_of_def)
  have "dropWhile isspace value = digits"
    using assms(1,2) c(2) d by (simp add: dropWhile_append list_all_iff)
  moreover have "takeWhile isdigit digits = digits" "dropWhile isdigit digits = []"
    using assms(3) by (simp_all add: list_all_iff)
  ultimately show ?thesis using d no_sign by (simp add: stoul_def Let_def)
qed

lemma unsigned_max_fits: "unsigned_max \<le> unsigned_long_max platform"
  by (cases platform) simp_all

text \<open>
  A minus sign is not refused: \<open>std::stoul\<close> negates modulo the type, so a negative text can pass
  the range check as a small number.
\<close>

lemma audio_buffer_accepts_negative:
  "parse_vdsctl_audio_buffer Windows [''vdsctl'', ''audio-buffer'', ''-4294967292''] = Inr \<lparr>ab_chunks = Some 4\<rparr>"
  "parse_vdsctl_audio_buffer Linux [''vdsctl'', ''audio-buffer'', ''-18446744073709551612''] = Inr \<lparr>ab_chunks = Some 4\<rparr>"
  by (simp_all add: parse_vdsctl_audio_buffer_def stoul_def Let_def isspace_def isdigit_def code_of_def)

lemma check_trigger_arguments_pairs:
  "check_trigger_arguments args = Inr u \<Longrightarrow> args = us @ arg # spec # vs \<Longrightarrow>
    arg = ''--left-trigger'' \<or> arg = ''--right-trigger'' \<Longrightarrow> spec \<noteq> ''none'' \<Longrightarrow>
    is_ok (parse_trigger_effect_spec spec)"
proof (induction us arbitrary: args)
  case Nil
  then show ?case by (auto simp: bind_result_Inr is_ok_iff)
next
  case (Cons x us)
  obtain y ys where tail: "us @ arg # spec # vs = y # ys" by (cases us) auto
  with Cons.prems(1,2) have "check_trigger_arguments (us @ arg # spec # vs) = Inr u"
    by (auto simp: bind_result_Inr split: if_splits)
  with Cons.IH [OF _ refl] Cons.prems(3,4) show ?case by blast
qed

section \<open>Properties\<close>

text \<open>
  An effects command line that is accepted sends one request which the daemon's reader decodes
  to exactly the given options in their order, whatever bytes the values hold, and every trigger
  text in it other than \<open>none\<close> is one the daemon's parser accepts.
\<close>

theorem effects_request_decodes:
  assumes "run_vdsctl_effects request_control argv = Inr reply"
  shows "\<exists>fs request. effects_arguments (drop 2 argv) = Some fs
    \<and> request_control request = Inr reply
    \<and> parse_jsonl_object (trim_command request) ctx = Inr (string_field ''command'' ''effects'' # fs)
    \<and> (\<forall>us arg spec vs. drop 2 argv = us @ arg # spec # vs \<longrightarrow>
        arg = ''--left-trigger'' \<or> arg = ''--right-trigger'' \<longrightarrow> spec \<noteq> ''none'' \<longrightarrow>
        is_ok (parse_trigger_effect_spec spec))"
proof -
  from assms obtain r where r: "effects_fields (''{'' @ jsonl_string_field ''command'' ''effects'') (drop 2 argv) = Inr r"
    and check: "check_trigger_arguments (drop 2 argv) = Inr ()"
    and sent: "request_control (r @ ''}'' @ [CHR 0x0A]) = Inr reply"
    by (auto simp: run_vdsctl_effects_def bind_result_Inr simp del: append.simps)
  from effects_request_object [OF r] obtain fs where fs: "effects_arguments (drop 2 argv) = Some fs"
    and text_eq: "r @ ''}'' @ [CHR 0x0A] = write_object (string_field ''command'' ''effects'' # fs) @ [CHR 0x0A]"
    by blast
  have "list_all wf_field (string_field ''command'' ''effects'' # fs)"
    using effects_arguments_wf [OF fs] by simp
  from parse_write_object [OF this, of "[]"] have
    "parse_jsonl_object (trim_command (r @ ''}'' @ [CHR 0x0A])) ctx = Inr (string_field ''command'' ''effects'' # fs)"
    unfolding text_eq trim_write_object by simp
  with fs sent check_trigger_arguments_pairs [OF check] show ?thesis by blast
qed

theorem effects_request_decodes_witness:
  "\<exists>fs request. effects_arguments [''--led'', ''1,2,3''] = Some fs
    \<and> Inr request = (Inr ([CHR ''{'', quote_char] @ ''command'' @ [quote_char, CHR '':'', quote_char] @ ''effects'' @ [quote_char, CHR '',''] @
         [quote_char] @ ''led'' @ [quote_char, CHR '':'', quote_char] @ ''1,2,3'' @ [quote_char, CHR ''}'', CHR 0x0A]) :: string result)
    \<and> parse_jsonl_object (trim_command request) [] = Inr (string_field ''command'' ''effects'' # fs)"
proof -
  let ?argv = "[''vdsctl'', ''effects'', ''--led'', ''1,2,3'']"
  have "run_vdsctl_effects Inr ?argv = Inr ([CHR ''{'', quote_char] @ ''command'' @ [quote_char, CHR '':'', quote_char] @ ''effects'' @ [quote_char, CHR '',''] @
         [quote_char] @ ''led'' @ [quote_char, CHR '':'', quote_char] @ ''1,2,3'' @ [quote_char, CHR ''}'', CHR 0x0A])"
    by code_simp
  from effects_request_decodes [OF this, of "[]"] show ?thesis by auto
qed

text \<open>
  The chunk count of \<open>audio-buffer\<close>: a number, white space before it allowed, is accepted
  exactly when it fits an unsigned int, on both platforms, and the request then carries this number
  in the decimal form that the daemon reads back.
\<close>

theorem audio_buffer_argument:
  assumes "list_all isspace spaces" and "list_all isdigit digits" and "digits \<noteq> []"
  shows "if dec_value 0 digits \<le> unsigned_max
    then parse_vdsctl_audio_buffer platform [program, command, spaces @ digits] = Inr \<lparr>ab_chunks = Some (dec_value 0 digits)\<rparr>
      \<and> parse_jsonl_object (trim_command (audio_buffer_request \<lparr>ab_chunks = Some (dec_value 0 digits)\<rparr>)) ctx
        = Inr [string_field ''command'' ''audio-buffer'', string_field ''chunks'' (to_string (dec_value 0 digits))]
    else \<not> is_ok (parse_vdsctl_audio_buffer platform [program, command, spaces @ digits])"
proof -
  let ?v = "dec_value 0 digits"
  note st = stoul_unsigned [OF refl assms(1) assms(2) assms(3), of platform]
  have "parse_jsonl_object (trim_command (audio_buffer_request \<lparr>ab_chunks = Some ?v\<rparr>)) ctx
        = Inr [string_field ''command'' ''audio-buffer'', string_field ''chunks'' (to_string ?v)]"
    using parse_write_object [of "[string_field ''command'' ''audio-buffer'', string_field ''chunks'' (to_string ?v)]" "[]"]
    by (simp add: audio_buffer_request_object trim_write_object)
  with st unsigned_max_fits [of platform] show ?thesis
    by (auto simp: parse_vdsctl_audio_buffer_def)
qed

theorem audio_buffer_argument_witness:
  "parse_vdsctl_audio_buffer Windows [''vdsctl'', ''audio-buffer'', '' 12''] = Inr \<lparr>ab_chunks = Some 12\<rparr>"
proof -
  have v: "dec_value 0 ''12'' = 12" by (simp add: code_of_def)
  have "list_all isspace '' ''" "list_all isdigit ''12''" by (simp_all add: isspace_def isdigit_def code_of_def)
  from audio_buffer_argument [OF this, of Windows "''vdsctl''" "''audio-buffer''" "[]"] show ?thesis
    unfolding v by simp
qed

end
