(* ===== verification/DeviceInfo.thy ===== *)
theory DeviceInfo
  imports Config
begin

text \<open>
  \<open>src/src/vds_device_info.cc\<close>: what the daemon tells about a controller, read from the raw bytes
  of its feature reports (serial, versions, board, build time, colour, MAC address, stick modules).
  The names of colours and the states of a stick module are Chinese texts; here they are the bytes
  of their UTF-8 form, as the compiler puts them into the program.
\<close>

section \<open>Text helpers\<close>

definition kHexDigitsUpper :: string where
  "kHexDigitsUpper = ''0123456789ABCDEF''"

definition uppercase :: "string \<Rightarrow> string" where
  "uppercase s = map toupper s"

text \<open>Bytes of a report read as characters.\<close>

definition as_text :: "bytes \<Rightarrow> string" where
  "as_text bs = map (\<lambda>b. char_of (unat b)) bs"

definition trim_ascii :: "string \<Rightarrow> string" where
  "trim_ascii s = rev (dropWhile isspace (rev (takeWhile (\<lambda>c. c \<noteq> CHR 0x00) s)))"

text \<open>The arithmetic is that of a 32-bit \<open>unsigned\<close>; \<open>None\<close> is the answer \<open>false\<close>.\<close>

fun parse_unsigned_loop :: "nat \<Rightarrow> string \<Rightarrow> nat option" where
  "parse_unsigned_loop v [] = Some v"
| "parse_unsigned_loop v (c # cs) =
     (if \<not> isdigit c then None
      else parse_unsigned_loop ((v * 10 + (code_of c - 48)) mod 2 ^ 32) cs)"

definition parse_unsigned :: "string \<Rightarrow> nat option" where
  "parse_unsigned s = (if s = [] then None else parse_unsigned_loop 0 s)"

definition upper_nibble_char :: "'a :: len word \<Rightarrow> char" where
  "upper_nibble_char v = kHexDigitsUpper ! unat (v AND 15)"

definition format_u16_hex :: "u16 \<Rightarrow> string" where
  "format_u16_hex v =
     [upper_nibble_char (drop_bit 12 v), upper_nibble_char (drop_bit 8 v),
      upper_nibble_char (drop_bit 4 v), upper_nibble_char v]"

definition format_u32_hex :: "u32 \<Rightarrow> string" where
  "format_u32_hex v = map (\<lambda>index. upper_nibble_char (drop_bit (28 - index * 4) v)) [0..<8]"

definition read_u32_le :: "bytes \<Rightarrow> nat \<Rightarrow> u32" where
  "read_u32_le report offset =
     (if offset + 4 > length report then 0
      else ucast (report ! offset) OR push_bit 8 (ucast (report ! (offset + 1)))
        OR push_bit 16 (ucast (report ! (offset + 2))) OR push_bit 24 (ucast (report ! (offset + 3))))"

definition read_u16_le :: "bytes \<Rightarrow> nat \<Rightarrow> u16" where
  "read_u16_le report offset =
     (if offset + 2 > length report then 0
      else ucast (report ! offset) OR push_bit 8 (ucast (report ! (offset + 1))))"

section \<open>Names of boards and versions\<close>

definition vds_hardware_model_name :: "u32 \<Rightarrow> bool \<Rightarrow> string" where
  "vds_hardware_model_name hw_version edge =
     (let board = drop_bit 8 hw_version AND 0xff in
      if edge then (if board = 2 then ''HDM-010'' else [])
      else if board = 2 then ''HMB-010''
      else if board = 3 then ''BDM-010''
      else if board = 4 then ''BDM-020''
      else if board = 5 then ''BDM-030''
      else if board = 6 then ''BDM-040''
      else if board = 7 \<or> board = 8 then ''BDM-050''
      else if board = 17 then ''BDM-060M''
      else if board = 19 then ''BDM-060X''
      else [])"

definition vds_ds4_board_model :: "u16 \<Rightarrow> string" where
  "vds_ds4_board_model hw_version_minor =
     (let board = drop_bit 8 hw_version_minor in
      if board = 0x31 then ''JDM-001''
      else if board = 0x43 then ''JDM-011''
      else if board = 0x54 then ''JDM-030''
      else if board \<ge> 0x64 \<and> board \<le> 0x74 then ''JDM-040''
      else if (board > 0x80 \<and> board < 0x84) \<or> board = 0x93 then ''JDM-020''
      else if board = 0x90 \<or> board = 0xa0 \<or> board = 0xa4 then ''JDM-050''
      else if board = 0xb0 then ''JDM-055 (Scuf?)''
      else if board = 0xb4 then ''JDM-055''
      else [])"

definition vds_format_update_version :: "u16 \<Rightarrow> string" where
  "vds_format_update_version v = ''A-'' @ format_u16_hex v"

definition vds_format_firmware_version :: "u32 \<Rightarrow> string" where
  "vds_format_firmware_version v = ''0x'' @ format_u32_hex v"

definition vds_controller_color_code :: "string \<Rightarrow> string" where
  "vds_controller_color_code serial =
     (if length serial < 6 then [] else uppercase (take 2 (drop 4 serial)))"

definition kColors :: "(string \<times> string) list" where
  "kColors = [
     (''00'', [CHR 0xE6, CHR 0x98, CHR 0x9F, CHR 0xE5, CHR 0xB0, CHR 0x98, CHR 0xE7, CHR 0x99, CHR 0xBD]),
     (''01'', [CHR 0xE5, CHR 0x8D, CHR 0x88, CHR 0xE5, CHR 0xA4, CHR 0x9C, CHR 0xE9, CHR 0xBB, CHR 0x91]),
     (''02'', [CHR 0xE5, CHR 0xAE, CHR 0x87, CHR 0xE5, CHR 0xAE, CHR 0x99, CHR 0xE7, CHR 0xBA, CHR 0xA2]),
     (''03'', [CHR 0xE6, CHR 0x98, CHR 0x9F, CHR 0xE5, CHR 0xB9, CHR 0xBB, CHR 0xE7, CHR 0xB2, CHR 0x89]),
     (''04'', [CHR 0xE9, CHR 0x93, CHR 0xB6, CHR 0xE6, CHR 0xB2, CHR 0xB3, CHR 0xE7, CHR 0xB4, CHR 0xAB]),
     (''05'', [CHR 0xE6, CHR 0x98, CHR 0x9F, CHR 0xE5, CHR 0x85, CHR 0x89, CHR 0xE8, CHR 0x93, CHR 0x9D]),
     (''06'', [CHR 0xE7, CHR 0x81, CHR 0xB0, CHR 0xE8, CHR 0x89, CHR 0xB2, CHR 0xE8, CHR 0xBF, CHR 0xB7,
        CHR 0xE5, CHR 0xBD, CHR 0xA9]),
     (''07'', [CHR 0xE7, CHR 0x81, CHR 0xAB, CHR 0xE5, CHR 0xB1, CHR 0xB1, CHR 0xE7, CHR 0xBA, CHR 0xA2]),
     (''08'', [CHR 0xE7, CHR 0xBA, CHR 0xAF, CHR 0xE9, CHR 0x93, CHR 0xB6]),
     (''09'', [CHR 0xE9, CHR 0x92, CHR 0xB4, CHR 0xE8, CHR 0x93, CHR 0x9D]),
     (''10'', [CHR 0xE6, CHR 0x99, CHR 0xB6, CHR 0xE5, CHR 0xBD, CHR 0xA9, CHR 0xE9, CHR 0x9D, CHR 0x92]),
     (''11'', [CHR 0xE6, CHR 0x99, CHR 0xB6, CHR 0xE5, CHR 0xBD, CHR 0xA9, CHR 0xE9, CHR 0x9D, CHR 0x9B]),
     (''12'', [CHR 0xE6, CHR 0x99, CHR 0xB6, CHR 0xE5, CHR 0xBD, CHR 0xA9, CHR 0xE7, CHR 0x8F, CHR 0x8D,
        CHR 0xE7, CHR 0x8F, CHR 0xA0]),
     (''30'', ''30'' @ [CHR 0xE5, CHR 0x91, CHR 0xA8, CHR 0xE5, CHR 0xB9, CHR 0xB4, CHR 0xE7, CHR 0xBA,
        CHR 0xAA, CHR 0xE5, CHR 0xBF, CHR 0xB5]),
     (''Z1'', [CHR 0xE6, CHR 0x88, CHR 0x98, CHR 0xE7, CHR 0xA5, CHR 0x9E, CHR 0xEF, CHR 0xBC, CHR 0x9A,
        CHR 0xE8, CHR 0xAF, CHR 0xB8, CHR 0xE7, CHR 0xA5, CHR 0x9E, CHR 0xE9, CHR 0xBB, CHR 0x84,
        CHR 0xE6, CHR 0x98, CHR 0x8F]),
     (''Z2'', [CHR 0xE6, CHR 0xBC, CHR 0xAB, CHR 0xE5, CHR 0xA8, CHR 0x81, CHR 0xE8, CHR 0x9C, CHR 0x98,
        CHR 0xE8, CHR 0x9B, CHR 0x9B, CHR 0xE4, CHR 0xBE, CHR 0xA0] @ ''2''),
     (''Z3'', [CHR 0xE5, CHR 0xAE, CHR 0x87, CHR 0xE5, CHR 0xAE, CHR 0x99, CHR 0xE6, CHR 0x9C, CHR 0xBA,
        CHR 0xE5, CHR 0x99, CHR 0xA8, CHR 0xE4, CHR 0xBA, CHR 0xBA]),
     (''Z4'', [CHR 0xE5, CHR 0xA0, CHR 0xA1, CHR 0xE5, CHR 0x9E, CHR 0x92, CHR 0xE4, CHR 0xB9, CHR 0x8B,
        CHR 0xE5, CHR 0xA4, CHR 0x9C]),
     (''Z5'', [CHR 0xE6, CHR 0x80, CHR 0xAA, CHR 0xE7, CHR 0x89, CHR 0xA9, CHR 0xE7, CHR 0x8C, CHR 0x8E,
        CHR 0xE4, CHR 0xBA, CHR 0xBA, CHR 0xEF, CHR 0xBC, CHR 0x9A, CHR 0xE8, CHR 0x8D, CHR 0x92,
        CHR 0xE9, CHR 0x87, CHR 0x8E]),
     (''Z6'', [CHR 0xE6, CHR 0x9C, CHR 0x80, CHR 0xE5, CHR 0x90, CHR 0x8E, CHR 0xE7, CHR 0x94, CHR 0x9F,
        CHR 0xE8, CHR 0xBF, CHR 0x98, CHR 0xE8, CHR 0x80, CHR 0x85]),
     (''Z7'', [CHR 0xE7, CHR 0xBE, CHR 0x8A, CHR 0xE8, CHR 0xB9, CHR 0x84, CHR 0xE5, CHR 0xB1, CHR 0xB1,
        CHR 0xE5, CHR 0xB9, CHR 0xBD, CHR 0xE7, CHR 0x81, CHR 0xB5, CHR 0xEF, CHR 0xBC, CHR 0x88,
        CHR 0xE9, CHR 0x87, CHR 0x91, CHR 0xEF, CHR 0xBC, CHR 0x89]),
     (''Z8'', [CHR 0xE7, CHR 0xBE, CHR 0x8A, CHR 0xE8, CHR 0xB9, CHR 0x84, CHR 0xE5, CHR 0xB1, CHR 0xB1,
        CHR 0xE5, CHR 0xB9, CHR 0xBD, CHR 0xE7, CHR 0x81, CHR 0xB5, CHR 0xEF, CHR 0xBC, CHR 0x88,
        CHR 0xE9, CHR 0xBB, CHR 0x91, CHR 0xEF, CHR 0xBC, CHR 0x89]),
     (''ZA'', [CHR 0xE6, CHR 0x88, CHR 0x98, CHR 0xE7, CHR 0xA5, CHR 0x9E] @ ''20'' @ [CHR 0xE5,
        CHR 0x91, CHR 0xA8, CHR 0xE5, CHR 0xB9, CHR 0xB4]),
     (''ZB'', [CHR 0xE5, CHR 0x86, CHR 0xB0, CHR 0xE6, CHR 0x99, CHR 0xB6, CHR 0xE8, CHR 0x93, CHR 0x9D]),
     (''ZC'', [CHR 0xE5, CHR 0xAE, CHR 0x87, CHR 0xE5, CHR 0xAE, CHR 0x99, CHR 0xE6, CHR 0x9C, CHR 0xBA,
        CHR 0xE5, CHR 0x99, CHR 0xA8, CHR 0xE4, CHR 0xBA, CHR 0xBA, CHR 0xE6, CHR 0xAC, CHR 0xA2,
        CHR 0xE6, CHR 0x82, CHR 0xA6])]"

definition vds_controller_color_name :: "string \<Rightarrow> string" where
  "vds_controller_color_name serial =
     (let code = vds_controller_color_code serial in
      if code = [] then []
      else (case map_of kColors code of Some name \<Rightarrow> name | None \<Rightarrow> []))"

definition vds_module_status :: "u8 \<Rightarrow> string" where
  "vds_module_status v =
     (if v = 0x84 then [CHR 0xE5, CHR 0xB7, CHR 0xB2, CHR 0xE8, CHR 0xA7, CHR 0xA3, CHR 0xE9, CHR 0x94,
        CHR 0x81]
      else if v = 0x8c then [CHR 0xE6, CHR 0x9C, CHR 0xAA, CHR 0xE8, CHR 0xA7, CHR 0xA3, CHR 0xE9,
        CHR 0x94, CHR 0x81]
      else [CHR 0xE6, CHR 0x9C, CHR 0xAA, CHR 0xE7, CHR 0x9F, CHR 0xA5, CHR 0xE7, CHR 0x8A, CHR 0xB6,
        CHR 0xE6, CHR 0x80, CHR 0x81])"

section \<open>Build times\<close>

definition kMonths :: "string list" where
  "kMonths = [''Jan'', ''Feb'', ''Mar'', ''Apr'', ''May'', ''Jun'', ''Jul'', ''Aug'', ''Sep'', ''Oct'',
     ''Nov'', ''Dec'']"

definition parse_component :: "string \<Rightarrow> nat \<Rightarrow> nat \<Rightarrow> nat option" where
  "parse_component s offset len =
     (if offset + len > length s then None else parse_unsigned (take len (drop offset s)))"

text \<open>Three numbers at fixed places, as in \<open>2026/02/04\<close> and \<open>12:34:56\<close>.\<close>

definition parse_numeric_date :: "string \<Rightarrow> (nat \<times> nat \<times> nat) option" where
  "parse_numeric_date date =
     (if length date < 10 then None
      else (case (parse_component date 0 4, parse_component date 5 2, parse_component date 8 2) of
              (Some year, Some month, Some day) \<Rightarrow> Some (year, month, day)
            | _ \<Rightarrow> None))"

definition parse_clock :: "string \<Rightarrow> (nat \<times> nat \<times> nat) option" where
  "parse_clock time =
     (if length time < 8 then None
      else (case (parse_component time 0 2, parse_component time 3 2, parse_component time 6 2) of
              (Some hour, Some minute, Some second) \<Rightarrow> Some (hour, minute, second)
            | _ \<Rightarrow> None))"

fun month_index_from :: "nat \<Rightarrow> string list \<Rightarrow> string \<Rightarrow> nat option" where
  "month_index_from i [] m = None"
| "month_index_from i (x # xs) m = (if m = x then Some i else month_index_from (Suc i) xs m)"

text \<open>The form of the C preprocessor's date: \<open>Feb  4 2026\<close>. Year, number of the month, day.\<close>

definition parse_month_date :: "string \<Rightarrow> (nat \<times> nat \<times> nat) option" where
  "parse_month_date date =
     (if length date < 10 then None
      else
        (case month_index_from 0 kMonths (take 3 date) of
           None \<Rightarrow> None
         | Some month_index \<Rightarrow>
             (let after_month = dropWhile isspace (drop 3 date);
                  day_text = takeWhile isdigit after_month;
                  after_day = dropWhile isspace (dropWhile isdigit after_month);
                  year_text = takeWhile isdigit after_day in
              if day_text = [] \<or> length day_text > 2 \<or> length year_text \<noteq> 4 then None
              else
                (case (parse_unsigned day_text, parse_unsigned year_text) of
                   (Some day, Some year) \<Rightarrow>
                     if 1 \<le> day \<and> day \<le> 31 then Some (year, month_index + 1, day) else None
                 | _ \<Rightarrow> None))))"

definition join_three :: "char \<Rightarrow> nat \<times> nat \<times> nat \<Rightarrow> string" where
  "join_three sep t = (case t of (a, b, c) \<Rightarrow> to_string a @ sep # to_string b @ sep # to_string c)"

definition vds_format_build_time :: "string \<Rightarrow> string \<Rightarrow> string" where
  "vds_format_build_time date time =
     (let numeric = parse_numeric_date date;
          month_date = (if numeric = None then parse_month_date date else None);
          clock = parse_clock time in
      if numeric = None \<and> month_date = None \<and> clock = None then
        trim_ascii date @ (if date = [] then [] else '' '') @ trim_ascii time
      else
        (let date_text =
               (case numeric of
                  Some d \<Rightarrow> join_three (CHR ''/'') d
                | None \<Rightarrow> (case month_date of Some d \<Rightarrow> join_three (CHR ''/'') d | None \<Rightarrow> [])) in
         case clock of
           None \<Rightarrow> date_text
         | Some t \<Rightarrow> (if date_text \<noteq> [] then date_text @ '' '' else []) @ join_three (CHR '':'') t))"

section \<open>The report parsers\<close>

definition kDsVendorGetReport :: u8 where "kDsVendorGetReport = 0x81"
definition kDs4FeatureReportInfo :: u8 where "kDs4FeatureReportInfo = 0xa3"

definition report_text :: "bytes \<Rightarrow> nat \<Rightarrow> nat \<Rightarrow> string" where
  "report_text report offset len = trim_ascii (as_text (take len (drop offset report)))"

definition vds_serial_from_info_report :: "bytes \<Rightarrow> string" where
  "vds_serial_from_info_report report =
     (if length report < 21 then []
      else
        (let first = report_text report 1 11; second = report_text report 12 8 in
         if first = [] \<and> second = [] then []
         else if first = [] then second
         else if second = [] then first
         else first @ '' '' @ second))"

definition vds_build_time_from_info_report :: "bytes \<Rightarrow> string" where
  "vds_build_time_from_info_report report =
     (if length report < 21 then []
      else vds_format_build_time (report_text report 1 11) (report_text report 12 8))"

definition vds_serial_from_vendor_report :: "bytes \<Rightarrow> string" where
  "vds_serial_from_vendor_report report =
     (if length report < 21 \<or> report ! 0 \<noteq> kDsVendorGetReport \<or> report ! 1 \<noteq> 0x01
         \<or> report ! 2 \<noteq> 0x13 \<or> report ! 3 \<noteq> 0x02 then []
      else report_text report 4 17)"

text \<open>The loop runs the index from 6 down to 1.\<close>

fun mac_loop :: "bytes \<Rightarrow> nat \<Rightarrow> string \<Rightarrow> string" where
  "mac_loop report 0 mac = mac"
| "mac_loop report (Suc n) mac =
     mac_loop report n ((if mac \<noteq> [] then mac @ '':'' else mac)
       @ [upper_nibble_char (drop_bit 4 (report ! Suc n)), upper_nibble_char (report ! Suc n)])"

definition vds_mac_from_pairing_report :: "bytes \<Rightarrow> string" where
  "vds_mac_from_pairing_report report = (if length report < 7 then [] else mac_loop report 6 [])"

definition vds_hw_version_from_info_report :: "bytes \<Rightarrow> u32" where
  "vds_hw_version_from_info_report report = read_u32_le report 24"

definition vds_fw_version_from_info_report :: "bytes \<Rightarrow> u32" where
  "vds_fw_version_from_info_report report = read_u32_le report 28"

definition vds_update_version_from_info_report :: "bytes \<Rightarrow> u16" where
  "vds_update_version_from_info_report report =
     (if length report < 46 then 0
      else ucast (report ! 44) OR push_bit 8 (ucast (report ! 45)))"

definition vds_build_time_from_ds4_report :: "bytes \<Rightarrow> string" where
  "vds_build_time_from_ds4_report report =
     (if length report < 32 \<or> report ! 0 \<noteq> kDs4FeatureReportInfo then []
      else vds_format_build_time (report_text report 1 15) (report_text report 17 8))"

definition vds_ds4_hw_major_from_report :: "bytes \<Rightarrow> u16" where
  "vds_ds4_hw_major_from_report report = read_u16_le report 33"

definition vds_ds4_hw_minor_from_report :: "bytes \<Rightarrow> u16" where
  "vds_ds4_hw_minor_from_report report = read_u16_le report 35"

definition vds_ds4_sw_major_from_report :: "bytes \<Rightarrow> u32" where
  "vds_ds4_sw_major_from_report report = read_u32_le report 37"

definition vds_module_status_from_vendor_report :: "bytes \<Rightarrow> u8" where
  "vds_module_status_from_vendor_report report =
     (if length report < 6 \<or> report ! 0 \<noteq> kDsVendorGetReport then 0xff else report ! 5)"

section \<open>The reply of the command device-info\<close>

record vds_controller_info =
  ci_model :: string
  ci_connection :: string
  ci_serial :: string
  ci_firmware :: string
  ci_firmware_version :: string
  ci_hardware_version :: string
  ci_hardware_model :: string
  ci_build_time :: string
  ci_color_code :: string
  ci_color_name :: string
  ci_mac_address :: string
  ci_left_module :: string
  ci_right_module :: string
  ci_info_read :: bool
  ci_is_clone :: bool
  ci_error :: string

definition vds_controller_info_object :: "vds_controller_info \<Rightarrow> string" where
  "vds_controller_info_object info =
     ''{'' @ jsonl_string_field ''model'' (ci_model info) @ '',''
     @ jsonl_string_field ''connection'' (ci_connection info) @ '',''
     @ jsonl_string_field ''serial'' (ci_serial info) @ '',''
     @ jsonl_string_field ''firmware'' (ci_firmware info) @ '',''
     @ jsonl_string_field ''firmware_version'' (ci_firmware_version info) @ '',''
     @ jsonl_string_field ''hardware_version'' (ci_hardware_version info) @ '',''
     @ jsonl_string_field ''hardware_model'' (ci_hardware_model info) @ '',''
     @ jsonl_string_field ''build_time'' (ci_build_time info) @ '',''
     @ jsonl_string_field ''color_code'' (ci_color_code info) @ '',''
     @ jsonl_string_field ''color_name'' (ci_color_name info) @ '',''
     @ jsonl_string_field ''mac_address'' (ci_mac_address info) @ '',''
     @ jsonl_string_field ''left_module'' (ci_left_module info) @ '',''
     @ jsonl_string_field ''right_module'' (ci_right_module info) @ '',''
     @ jsonl_bool_field ''info_read'' (ci_info_read info) @ '',''
     @ jsonl_bool_field ''is_clone'' (ci_is_clone info) @ '',''
     @ jsonl_string_field ''error'' (ci_error info) @ ''}''"

definition vds_controller_info_json :: "vds_controller_info \<Rightarrow> string" where
  "vds_controller_info_json info =
     ''{'' @ jsonl_bool_field ''OK'' True @ '','' @ vds_controller_info_object info @ ''}''"

section \<open>The MAC address\<close>

lemma upper_nibble_char_cases:
  "upper_nibble_char (v :: u8) \<in> set kHexDigitsUpper"
proof -
  have "length kHexDigitsUpper = 16" by code_simp
  then have "unat (v AND 15) < length kHexDigitsUpper" by simp
  then show ?thesis unfolding upper_nibble_char_def by (rule nth_mem)
qed

lemma isxdigit_upper_nibble [simp]: "isxdigit (upper_nibble_char (v :: u8))"
proof -
  have "list_all isxdigit kHexDigitsUpper" by code_simp
  with upper_nibble_char_cases [of v] show ?thesis by (auto simp: list_all_iff)
qed

lemma hex_nibble_upper: "n < 16 \<Longrightarrow> hex_nibble (kHexDigitsUpper ! n) = Some n"
proof -
  have "list_all (\<lambda>n. hex_nibble (kHexDigitsUpper ! n) = Some n) [0..<16]" by code_simp
  then show "n < 16 \<Longrightarrow> ?thesis" by (simp add: list_all_iff)
qed

lemma hex_nibble_upper_nibble [simp]: "hex_nibble (upper_nibble_char (v :: u8)) = Some (unat (v AND 15))"
  unfolding upper_nibble_char_def by (rule hex_nibble_upper) simp

definition mac_pair :: "u8 \<Rightarrow> string" where
  "mac_pair b = [upper_nibble_char (drop_bit 4 b), upper_nibble_char b]"

lemma mac_text:
  assumes "7 \<le> length report"
  shows "vds_mac_from_pairing_report report =
    mac_pair (report ! 6) @ '':'' @ mac_pair (report ! 5) @ '':'' @ mac_pair (report ! 4) @ '':'' @
    mac_pair (report ! 3) @ '':'' @ mac_pair (report ! 2) @ '':'' @ mac_pair (report ! 1)"
  using assms by (simp add: vds_mac_from_pairing_report_def mac_pair_def numeral_eq_Suc)

text \<open>The two digits of a byte, read back.\<close>

definition byte_of_pair :: "string \<Rightarrow> nat option" where
  "byte_of_pair s =
     (case (hex_nibble (s ! 0), hex_nibble (s ! 1)) of
        (Some h, Some l) \<Rightarrow> Some (h * 16 + l) | _ \<Rightarrow> None)"

lemma unat_nibbles: "unat (drop_bit 4 b AND 15) * 16 + unat (b AND 15) = unat (b :: u8)"
proof -
  have low: "unat (v AND 15) = unat v mod 16" for v :: u8
  proof -
    have "v AND 15 = take_bit 4 v" by (simp add: take_bit_eq_mask mask_eq_exp_minus_1)
    then have "unat (v AND 15) = take_bit 4 (unat v)" by (simp only: unsigned_take_bit_eq)
    then show ?thesis by (simp add: take_bit_eq_mod)
  qed
  have "unat (drop_bit 4 b) = unat b div 16"
    unfolding unsigned_drop_bit_eq using unsigned_less [where ?'a = nat, of b] by (simp add: drop_bit_eq_div take_bit_eq_mod)
  moreover have "unat b div 16 < 16" by (rule less_mult_imp_div_less) (use unsigned_less [of b] in simp)
  ultimately show ?thesis unfolding low by simp
qed

lemma byte_of_mac_pair: "byte_of_pair (mac_pair b) = Some (unat b)"
  by (simp add: byte_of_pair_def mac_pair_def unat_nibbles)

section \<open>Numbers and dates\<close>

lemma parse_unsigned_loop_digits:
  "list_all isdigit s \<Longrightarrow> dec_value v s < 2 ^ 32 \<Longrightarrow> parse_unsigned_loop v s = Some (dec_value v s)"
proof (induction s arbitrary: v)
  case (Cons c s)
  let ?v = "v * 10 + (code_of c - 48)"
  have "?v \<le> dec_value ?v s" by (rule dec_value_ge)
  with Cons show ?case by simp
qed simp

lemma parse_unsigned_to_string: "n < 2 ^ 32 \<Longrightarrow> parse_unsigned (to_string n) = Some n"
  using parse_unsigned_loop_digits [of "to_string n" 0] to_string_digits [of _ n]
  by (auto simp: parse_unsigned_def list_all_iff)

lemma not_isspace_to_string: "dropWhile isspace (to_string n @ s) = to_string n @ s"
  by (rule to_string_hd_digit [of n]) (simp add: isdigit_not_isspace)

lemma takeWhile_to_string_append:
  "s = [] \<or> \<not> isdigit (hd s) \<Longrightarrow> takeWhile isdigit (to_string n @ s) = to_string n
    \<and> dropWhile isdigit (to_string n @ s) = s"
  using to_string_digits [of _ n] by (cases s) (auto simp: takeWhile_append2 dropWhile_append2)

lemma length_to_string_year: "1000 \<le> y \<Longrightarrow> y \<le> 9999 \<Longrightarrow> length (to_string y) = 4"
proof -
  assume "1000 \<le> y" "y \<le> 9999"
  then have "\<not> y < 10" "\<not> y div 10 < 10" "\<not> y div 10 div 10 < 10" "y div 10 div 10 div 10 < 10"
    by linarith+
  then show ?thesis
    by (simp add: to_string.simps [of y] to_string.simps [of "y div 10"] to_string.simps [of "y div 10 div 10"]
        to_string.simps [of "y div 10 div 10 div 10"] del: div_mult2_eq div_mult2_numeral_eq)
qed

lemma length_to_string_day: "d \<le> 31 \<Longrightarrow> length (to_string d) \<le> 2 \<and> to_string d \<noteq> []"
proof -
  assume "d \<le> 31"
  then have "d div 10 < 10" by linarith
  then show ?thesis by (simp add: to_string.simps [of d] to_string.simps [of "d div 10"])
qed

lemma month_index: "m < 12 \<Longrightarrow> month_index_from 0 kMonths (kMonths ! m) = Some m"
proof -
  have "list_all (\<lambda>m. month_index_from 0 kMonths (kMonths ! m) = Some m) [0..<12]" by code_simp
  then show "m < 12 \<Longrightarrow> ?thesis" by (simp add: list_all_iff)
qed

lemma month_shape: "m < 12 \<Longrightarrow> length (kMonths ! m) = 3 \<and> \<not> isdigit (hd (kMonths ! m))"
proof -
  have "list_all (\<lambda>m. length (kMonths ! m) = 3 \<and> \<not> isdigit (hd (kMonths ! m))) [0..<12]" by code_simp
  then show "m < 12 \<Longrightarrow> ?thesis" by (simp add: list_all_iff)
qed

lemma parse_month_date_text:
  assumes "m < 12" and "1 \<le> d" "d \<le> 31" and "1000 \<le> y" "y \<le> 9999"
    and "list_all isspace gap1" "list_all isspace gap2" and "gap2 \<noteq> []"
    and "10 \<le> 3 + length gap1 + length (to_string d) + length gap2 + 4"
  shows "parse_month_date (kMonths ! m @ gap1 @ to_string d @ gap2 @ to_string y) = Some (y, m + 1, d)"
proof -
  let ?date = "kMonths ! m @ gap1 @ to_string d @ gap2 @ to_string y"
  have len: "length (kMonths ! m) = 3" using month_shape [OF assms(1)] by simp
  have year: "length (to_string y) = 4" by (rule length_to_string_year [OF assms(4,5)])
  obtain g gs where gap2: "gap2 = g # gs" using assms(8) by (cases gap2) auto
  have g: "\<not> isdigit g" using assms(7) gap2 isdigit_not_isspace by auto
  have after_month: "dropWhile isspace (drop 3 ?date) = to_string d @ gap2 @ to_string y"
    using len assms(6) by (simp add: dropWhile_append2 list_all_iff not_isspace_to_string)
  have day: "takeWhile isdigit (to_string d @ gap2 @ to_string y) = to_string d"
    "dropWhile isdigit (to_string d @ gap2 @ to_string y) = gap2 @ to_string y"
    using takeWhile_to_string_append [of "gap2 @ to_string y" d] g gap2 by auto
  have after_day: "dropWhile isspace (gap2 @ to_string y) = to_string y"
    using assms(7) not_isspace_to_string [of y "[]"] by (simp add: dropWhile_append2 list_all_iff)
  have year_digits: "takeWhile isdigit (to_string y) = to_string y"
    using takeWhile_to_string_append [of "[]" y] by simp
  have "\<not> length ?date < 10" using assms(9) len year by simp
  moreover have "parse_unsigned (to_string d) = Some d" "parse_unsigned (to_string y) = Some y"
    using assms by (simp_all add: parse_unsigned_to_string)
  moreover have "take 3 ?date = kMonths ! m" using len by simp
  moreover have "month_index_from 0 kMonths (kMonths ! m) = Some m" by (rule month_index [OF assms(1)])
  moreover have "length (to_string d) \<le> 2" using length_to_string_day [OF assms(3)] by simp
  ultimately show ?thesis
    using assms(2,3) year unfolding parse_month_date_def Let_def after_month day after_day year_digits by simp
qed

lemma parse_numeric_date_letter: "s = c # cs \<Longrightarrow> \<not> isdigit c \<Longrightarrow> parse_numeric_date s = None"
  by (simp add: parse_numeric_date_def parse_component_def parse_unsigned_def numeral_eq_Suc)

text \<open>Two digits, as a clock shows them.\<close>

definition two_digits :: "nat \<Rightarrow> string" where
  "two_digits n = [digit_char (n div 10), digit_char (n mod 10)]"

lemma parse_two_digits: "n < 100 \<Longrightarrow> parse_unsigned (two_digits n) = Some n"
proof -
  assume n: "n < 100"
  then have d: "n div 10 < 10" "n mod 10 < 10" by auto
  then have "list_all isdigit (two_digits n)" by (simp add: two_digits_def)
  moreover have "dec_value 0 (two_digits n) = n" using d by (simp add: two_digits_def)
  ultimately show ?thesis
    using parse_unsigned_loop_digits [of "two_digits n" 0] n by (simp add: parse_unsigned_def two_digits_def)
qed

lemma parse_clock_text:
  assumes "h < 100" "mi < 100" "sec < 100"
  shows "parse_clock (two_digits h @ '':'' @ two_digits mi @ '':'' @ two_digits sec) = Some (h, mi, sec)"
proof -
  let ?t = "two_digits h @ '':'' @ two_digits mi @ '':'' @ two_digits sec"
  have len: "length (two_digits n) = 2" for n by (simp add: two_digits_def)
  have "parse_component ?t 0 2 = parse_unsigned (two_digits h)"
    "parse_component ?t 3 2 = parse_unsigned (two_digits mi)"
    "parse_component ?t 6 2 = parse_unsigned (two_digits sec)"
    by (simp_all add: parse_component_def len)
  then show ?thesis
    using assms by (simp add: parse_clock_def parse_two_digits len)
qed

text \<open>The reply with \<open>OK\<close> in front puts an object without a key into an object.\<close>

lemma info_json_nests_without_key:
  "prefix (''{'' @ jsonl_bool_field ''OK'' True @ '',{'') (vds_controller_info_json info)"
  by (simp add: vds_controller_info_json_def vds_controller_info_object_def)

section \<open>Properties\<close>

text \<open>
  The address read from a pairing report is always a Bluetooth address the daemon's own
  normalisation accepts, and its six pairs are bytes 6 down to 1 of the report: two controllers
  with different addresses never get the same text.
\<close>

theorem pairing_mac_is_address:
  assumes "7 \<le> length report"
  shows "normalize_bluetooth_address (vds_mac_from_pairing_report report)
      = Inr (map tolower (vds_mac_from_pairing_report report))
    \<and> map (\<lambda>i. byte_of_pair (take 2 (drop (3 * i) (vds_mac_from_pairing_report report)))) [0..<6]
      = map (\<lambda>i. Some (unat (report ! (6 - i)))) [0..<6]"
proof
  show "normalize_bluetooth_address (vds_mac_from_pairing_report report)
      = Inr (map tolower (vds_mac_from_pairing_report report))"
    by (simp add: normalize_eq address_shape_def mac_text [OF assms] mac_pair_def is_separator_index_def)
next
  have upt: "[0..<6] = [0, 1, 2, 3, 4, 5]" by (simp add: upt_rec)
  have pair: "byte_of_pair [upper_nibble_char (drop_bit 4 b), upper_nibble_char b] = Some (unat b)" for b :: u8
    using byte_of_mac_pair [of b] by (simp add: mac_pair_def)
  show "map (\<lambda>i. byte_of_pair (take 2 (drop (3 * i) (vds_mac_from_pairing_report report)))) [0..<6]
      = map (\<lambda>i. Some (unat (report ! (6 - i)))) [0..<6]"
    unfolding upt by (simp add: mac_text [OF assms] mac_pair_def pair)
qed

theorem pairing_mac_is_address_witness:
  "normalize_bluetooth_address (vds_mac_from_pairing_report [9, 1, 2, 3, 4, 5, 0xAB])
    = Inr (map tolower (vds_mac_from_pairing_report [9, 1, 2, 3, 4, 5, 0xAB]))"
  using pairing_mac_is_address [of "[9, 1, 2, 3, 4, 5, 0xAB]"] by simp

text \<open>
  A build date in the form of the C preprocessor and a clock time are understood whatever the
  spacing, and are shown as year, month number and day with the time behind it.
\<close>

theorem build_time_understood:
  assumes "m < 12" and "1 \<le> d \<and> d \<le> 31" and "1000 \<le> y \<and> y \<le> 9999"
    and "list_all isspace gap1" and "list_all isspace gap2" and "gap2 \<noteq> []"
    and "10 \<le> length gap1 + length (to_string d) + length gap2 + 7"
    and "h < 100" and "mi < 100" and "sec < 100"
  shows "vds_format_build_time (kMonths ! m @ gap1 @ to_string d @ gap2 @ to_string y)
      (two_digits h @ '':'' @ two_digits mi @ '':'' @ two_digits sec)
    = to_string y @ ''/'' @ to_string (m + 1) @ ''/'' @ to_string d @ '' ''
      @ to_string h @ '':'' @ to_string mi @ '':'' @ to_string sec"
proof -
  let ?date = "kMonths ! m @ gap1 @ to_string d @ gap2 @ to_string y"
  obtain c cs where c: "kMonths ! m = c # cs" "\<not> isdigit c"
    using month_shape [OF assms(1)] by (cases "kMonths ! m") auto
  then have "parse_numeric_date ?date = None"
    by (intro parse_numeric_date_letter [of _ c "cs @ gap1 @ to_string d @ gap2 @ to_string y"]) simp_all
  moreover have "parse_month_date ?date = Some (y, m + 1, d)"
    using assms by (intro parse_month_date_text) simp_all
  moreover have "parse_clock (two_digits h @ '':'' @ two_digits mi @ '':'' @ two_digits sec) = Some (h, mi, sec)"
    by (rule parse_clock_text [OF assms(8-10)])
  ultimately show ?thesis by (simp add: vds_format_build_time_def join_three_def)
qed

theorem build_time_understood_witness:
  "vds_format_build_time ''Feb  4 2026'' ''12:34:56'' = ''2026/2/4 12:34:56''"
proof -
  have "vds_format_build_time (kMonths ! 1 @ ''  '' @ to_string 4 @ '' '' @ to_string 2026)
      (two_digits 12 @ '':'' @ two_digits 34 @ '':'' @ two_digits 56)
    = to_string 2026 @ ''/'' @ to_string (1 + 1) @ ''/'' @ to_string 4 @ '' ''
      @ to_string 12 @ '':'' @ to_string 34 @ '':'' @ to_string 56"
    by (rule build_time_understood) (simp_all add: isspace_def code_of_def to_string.simps)
  then show ?thesis
    by (simp add: kMonths_def two_digits_def to_string.simps digit_char_values flip: numeral_2_eq_2)
qed

end
