(* ===== verification/HandleIo.thy ===== *)
theory HandleIo
  imports Packets
begin

text \<open>
  Moving bytes: \<open>write_full\<close> of \<open>src/src/platform/linux/vds_io.cc\<close>, the overlapped reads and writes
  and the frames of \<open>src/src/platform/win32/vds_io.cc\<close>, and \<open>recv_exact\<close> and \<open>send_exact\<close> of
  \<open>src/src/platform/win32/vds_usbip.cc\<close>. What the operating system answers to each call is a list,
  one answer per call; when it runs out, the next call has not returned yet and the result is
  \<open>None\<close>. What one side writes is a list of bytes that the other side reads.
\<close>

section \<open>Linux: write_full\<close>

datatype poll_answer = Poll_writable | Poll_timeout | Poll_interrupted | Poll_socket_error | Poll_failed string

datatype write_answer = Wrote nat | Wr_interrupted | Wr_would_block poll_answer | Wr_error string

text \<open>The bytes written so far and how the call ended.\<close>

fun write_full :: "string \<Rightarrow> int \<Rightarrow> write_answer list \<Rightarrow> bytes \<Rightarrow> bytes \<Rightarrow> (bytes \<times> unit result) option" where
  "write_full label poll_timeout_ms answers [] out = Some (out, Inr ())"
| "write_full label poll_timeout_ms [] (b # bs) out = None"
| "write_full label poll_timeout_ms (a # answers) (b # bs) out =
     (case a of
        Wr_interrupted \<Rightarrow> write_full label poll_timeout_ms answers (b # bs) out
      | Wr_would_block p \<Rightarrow>
          if poll_timeout_ms \<ge> 0 then
            (case p of
               Poll_writable \<Rightarrow> write_full label poll_timeout_ms answers (b # bs) out
             | Poll_timeout \<Rightarrow> Some (out, Inl (Runtime_error (label @ '' write timed out'')))
             | Poll_interrupted \<Rightarrow> write_full label poll_timeout_ms answers (b # bs) out
             | Poll_socket_error \<Rightarrow> Some (out, Inl (Runtime_error (label @ '' write poll reported socket error'')))
             | Poll_failed e \<Rightarrow> Some (out, Inl (Runtime_error (label @ '' write poll failed: '' @ e))))
          else Some (out, Inl (Runtime_error (label @ '' write failed: Resource temporarily unavailable'')))
      | Wr_error e \<Rightarrow> Some (out, Inl (Runtime_error (label @ '' write failed: '' @ e)))
      | Wrote n \<Rightarrow>
          if n = 0 then Some (out, Inl (Runtime_error (label @ '' write returned zero bytes'')))
          else write_full label poll_timeout_ms answers (drop n (b # bs)) (out @ take n (b # bs)))"

section \<open>Windows: overlapped calls\<close>

definition ERROR_OPERATION_ABORTED :: nat where "ERROR_OPERATION_ABORTED = 995"
definition ERROR_IO_INCOMPLETE :: nat where "ERROR_IO_INCOMPLETE = 996"
definition ERROR_IO_PENDING :: nat where "ERROR_IO_PENDING = 997"

text \<open>The flag a canceller sets is read when an aborted call is looked at; \<open>None\<close> is a null pointer.\<close>

record handle_io_cancellation =
  hc_operation_aborted_is_stop :: bool
  hc_stop_requested :: "bool option"

definition is_stop_requested :: "handle_io_cancellation \<Rightarrow> bool" where
  "is_stop_requested c \<longleftrightarrow> hc_operation_aborted_is_stop c \<or> hc_stop_requested c = Some True"

definition stopped_message :: "string \<Rightarrow> string \<Rightarrow> string" where
  "stopped_message label operation = label @ '' '' @ operation @ '' stopped''"

definition failed_message :: "string \<Rightarrow> string \<Rightarrow> string \<Rightarrow> string" where
  "failed_message label operation error_text = label @ '' '' @ operation @ '' failed: '' @ error_text"

text \<open>\<open>GetOverlappedResult\<close>: the bytes moved, or an error code with its text.\<close>

datatype overlapped_answer = Transferred nat | Overlapped_error nat string

datatype wait_answer = Io_signalled | Stop_signalled | Wait_failed string

text \<open>
  The answers one call of \<open>read_overlapped\<close> or \<open>write_overlapped\<close> gets: creating the event,
  starting the operation (an error other than "pending"), the first result, the wait, the second
  result.
\<close>

record io_call =
  io_event_error :: "string option"
  io_start_error :: "(nat \<times> string) option"
  io_first :: overlapped_answer
  io_wait :: wait_answer
  io_second :: overlapped_answer

definition finish_overlapped_io ::
    "io_call \<Rightarrow> string \<Rightarrow> string \<Rightarrow> handle_io_cancellation \<Rightarrow> nat result" where
  "finish_overlapped_io call label operation cancellation =
     (case io_first call of
        Transferred n \<Rightarrow> Inr n
      | Overlapped_error code e \<Rightarrow>
          if code \<noteq> ERROR_IO_INCOMPLETE then
            (if code = ERROR_OPERATION_ABORTED \<and> is_stop_requested cancellation
             then Inl (Runtime_error (stopped_message label operation))
             else Inl (Runtime_error (failed_message label operation e)))
          else
            (case io_wait call of
               Stop_signalled \<Rightarrow> Inl (Runtime_error (stopped_message label operation))
             | Wait_failed w \<Rightarrow> Inl (Runtime_error (label @ '' '' @ operation @ '' wait failed: '' @ w))
             | Io_signalled \<Rightarrow>
                 (case io_second call of
                    Transferred n \<Rightarrow> Inr n
                  | Overlapped_error code2 e2 \<Rightarrow>
                      if code2 = ERROR_OPERATION_ABORTED \<and> is_stop_requested cancellation
                      then Inl (Runtime_error (stopped_message label operation))
                      else Inl (Runtime_error (failed_message label operation e2)))))"

definition start_overlapped ::
    "string \<Rightarrow> io_call \<Rightarrow> string \<Rightarrow> handle_io_cancellation \<Rightarrow> nat result" where
  "start_overlapped operation call label cancellation =
     (case io_event_error call of
        Some e \<Rightarrow> Inl (Runtime_error (label @ '' '' @ operation @ '' event failed: '' @ e))
      | None \<Rightarrow>
          (case io_start_error call of
             Some (code, e) \<Rightarrow>
               if code \<noteq> ERROR_IO_PENDING then
                 Inl (Runtime_error (label @ '' '' @ operation @ '' failed: '' @ e))
               else finish_overlapped_io call label operation cancellation
           | None \<Rightarrow> finish_overlapped_io call label operation cancellation))"

definition read_overlapped :: "io_call \<Rightarrow> string \<Rightarrow> handle_io_cancellation \<Rightarrow> nat result" where
  "read_overlapped = start_overlapped ''read''"

definition write_overlapped :: "io_call \<Rightarrow> string \<Rightarrow> handle_io_cancellation \<Rightarrow> nat result" where
  "write_overlapped = start_overlapped ''write''"

section \<open>Windows: exact reads and writes\<close>

abbreviation (input) MAXDWORD :: nat where "MAXDWORD \<equiv> 4294967295"

text \<open>
  A call moves at most the size it was asked for, which is what \<open>min\<close> says; the bytes come from
  the front of what the other side has written.
\<close>

fun read_handle_exact ::
    "string \<Rightarrow> handle_io_cancellation \<Rightarrow> io_call list \<Rightarrow> bytes \<Rightarrow> nat \<Rightarrow> bytes
      \<Rightarrow> (bytes result \<times> io_call list \<times> bytes) option" where
  "read_handle_exact label canc calls input 0 buffer = Some (Inr buffer, calls, input)"
| "read_handle_exact label canc [] input (Suc r) buffer = None"
| "read_handle_exact label canc (c # calls) input (Suc r) buffer =
     (case read_overlapped c label canc of
        Inl e \<Rightarrow> Some (Inl e, calls, input)
      | Inr n \<Rightarrow>
          (let got = min n (min (Suc r) MAXDWORD) in
           if got = 0 then Some (Inl (Runtime_error (label @ '' closed'')), calls, input)
           else read_handle_exact label canc calls (drop got input) (Suc r - got) (buffer @ take got input)))"

abbreviation (input) write_chunk_size :: nat where "write_chunk_size \<equiv> 65536"

fun write_handle_exact ::
    "string \<Rightarrow> handle_io_cancellation \<Rightarrow> io_call list \<Rightarrow> bytes \<Rightarrow> bytes
      \<Rightarrow> (unit result \<times> io_call list \<times> bytes) option" where
  "write_handle_exact label canc calls [] out = Some (Inr (), calls, out)"
| "write_handle_exact label canc [] (b # bs) out = None"
| "write_handle_exact label canc (c # calls) (b # bs) out =
     (case write_overlapped c label canc of
        Inl e \<Rightarrow> Some (Inl e, calls, out)
      | Inr n \<Rightarrow>
          (let written = min n (min (length (b # bs)) write_chunk_size) in
           if written = 0 then Some (Inl (Runtime_error (label @ '' write returned zero bytes'')), calls, out)
           else write_handle_exact label canc calls (drop written (b # bs)) (out @ take written (b # bs))))"

section \<open>Frames on a handle\<close>

record frame =
  fr_type :: u16
  fr_payload :: bytes

definition read_handle_frame ::
    "string \<Rightarrow> handle_io_cancellation \<Rightarrow> io_call list \<Rightarrow> bytes
      \<Rightarrow> (frame result \<times> io_call list \<times> bytes) option" where
  "read_handle_frame label canc calls input =
     (case read_handle_exact label canc calls input 16 [] of
        None \<Rightarrow> None
      | Some (Inl e, calls', input') \<Rightarrow> Some (Inl e, calls', input')
      | Some (Inr header, calls', input') \<Rightarrow>
          (let h = the (read_header header); len = unat (fh_length h) in
           if len > VDS_FRAME_MAX_PAYLOAD then
             Some (Inl (Runtime_error (label @ '' oversized frame length='' @ to_string len)), calls', input')
           else
             (case read_handle_exact label canc calls' input' len [] of
                None \<Rightarrow> None
              | Some (Inl e, calls'', input'') \<Rightarrow> Some (Inl e, calls'', input'')
              | Some (Inr payload, calls'', input'') \<Rightarrow>
                  Some (Inr \<lparr>fr_type = fh_type h, fr_payload = payload\<rparr>, calls'', input''))))"

definition write_handle_frame ::
    "string \<Rightarrow> handle_io_cancellation \<Rightarrow> io_call list \<Rightarrow> u16 \<Rightarrow> bytes \<Rightarrow> bytes
      \<Rightarrow> (unit result \<times> io_call list \<times> bytes) option" where
  "write_handle_frame label canc calls type payload out =
     (case frame_bytes type payload of
        Inl e \<Rightarrow> Some (Inl e, calls, out)
      | Inr bs \<Rightarrow> write_handle_exact label canc calls bs out)"

section \<open>Sockets: recv_exact and send_exact\<close>

text \<open>\<open>recv\<close> and \<open>send\<close> return the bytes moved, 0 at the end of the stream, or a negative error.\<close>

fun recv_exact :: "int list \<Rightarrow> bytes \<Rightarrow> nat \<Rightarrow> bytes \<Rightarrow> (bytes option \<times> int list \<times> bytes) option" where
  "recv_exact answers input 0 buffer = Some (Some buffer, answers, input)"
| "recv_exact [] input (Suc r) buffer = None"
| "recv_exact (a # answers) input (Suc r) buffer =
     (if a \<le> 0 then Some (None, answers, input)
      else (let got = min (nat a) (Suc r) in
            recv_exact answers (drop got input) (Suc r - got) (buffer @ take got input)))"

fun send_exact :: "int list \<Rightarrow> bytes \<Rightarrow> bytes \<Rightarrow> (bool \<times> int list \<times> bytes) option" where
  "send_exact answers [] out = Some (True, answers, out)"
| "send_exact [] (b # bs) out = None"
| "send_exact (a # answers) (b # bs) out =
     (if a \<le> 0 then Some (False, answers, out)
      else send_exact answers (drop (nat a) (b # bs)) (out @ take (nat a) (b # bs)))"

section \<open>Calls that move something\<close>

text \<open>Whether a call moves at least one byte does not depend on the label it reports errors with.\<close>

definition call_moves :: "io_call \<Rightarrow> bool" where
  "call_moves c \<longleftrightarrow>
     (case start_overlapped [] c [] \<lparr>hc_operation_aborted_is_stop = False, hc_stop_requested = None\<rparr> of
        Inr n \<Rightarrow> 0 < n | Inl _ \<Rightarrow> False)"

lemma start_overlapped_label:
  "start_overlapped op1 c l1 c1 = Inr n \<Longrightarrow> start_overlapped op2 c l2 c2 = Inr n"
  by (auto simp: start_overlapped_def finish_overlapped_io_def split: option.splits overlapped_answer.splits
      wait_answer.splits if_splits)

lemma call_moves_start:
  assumes "call_moves c"
  obtains n where "0 < n" "\<And>op label canc. start_overlapped op c label canc = Inr n"
proof -
  from assms obtain n where n: "0 < n"
    and start: "start_overlapped [] c [] \<lparr>hc_operation_aborted_is_stop = False, hc_stop_requested = None\<rparr> = Inr n"
    by (simp add: call_moves_def split: sum.splits)
  from n start_overlapped_label [OF start] show thesis by (rule that)
qed

lemma call_moves_read:
  assumes "call_moves c"
  obtains n where "read_overlapped c label canc = Inr n" "0 < n"
  using call_moves_start [OF assms] unfolding read_overlapped_def by metis

lemma call_moves_write:
  assumes "call_moves c"
  obtains n where "write_overlapped c label canc = Inr n" "0 < n"
  using call_moves_start [OF assms] unfolding write_overlapped_def by metis

text \<open>Enough moving calls: one per byte.\<close>

definition enough_calls :: "nat \<Rightarrow> io_call list \<Rightarrow> bool" where
  "enough_calls n calls \<longleftrightarrow> list_all call_moves calls \<and> n \<le> length calls"

lemma enough_calls_Cons: "enough_calls (Suc n) (c # calls) \<longleftrightarrow> call_moves c \<and> enough_calls n calls"
  by (auto simp: enough_calls_def)

lemma enough_calls_less: "enough_calls n calls \<Longrightarrow> m \<le> n \<Longrightarrow> enough_calls m calls"
  by (simp add: enough_calls_def)

lemma read_handle_exact_ok:
  assumes "enough_calls (r + k) calls" and "r \<le> length input"
  shows "\<exists>calls'. read_handle_exact label canc calls input r buffer
      = Some (Inr (buffer @ take r input), calls', drop r input) \<and> enough_calls k calls'"
  using assms
proof (induction label canc calls input r buffer rule: read_handle_exact.induct)
  case (3 label canc c calls input r buffer)
  from "3.prems"(1) have c: "call_moves c" and rest: "enough_calls (r + k) calls"
    by (simp_all add: enough_calls_Cons)
  obtain n where n: "read_overlapped c label canc = Inr n" "0 < n" using c by (rule call_moves_read)
  define got where "got = min n (min (Suc r) MAXDWORD)"
  have got: "0 < got" "got \<le> Suc r" using n(2) by (auto simp: got_def)
  have "enough_calls (Suc r - got + k) calls" using rest got by (auto intro: enough_calls_less)
  moreover have "Suc r - got \<le> length (drop got input)" using "3.prems"(2) by simp
  moreover have "take got input @ take (Suc r - got) (drop got input) = take (Suc r) input"
    using got(2) by (metis le_add_diff_inverse take_add)
  moreover have "drop (Suc r - got) (drop got input) = drop (Suc r) input" using got(2) by simp
  moreover have "read_handle_exact label canc (c # calls) input (Suc r) buffer
      = read_handle_exact label canc calls (drop got input) (Suc r - got) (buffer @ take got input)"
    unfolding read_handle_exact.simps n(1) sum.case Let_def got_def [symmetric] using got(1) by simp
  ultimately show ?case using "3.IH" [OF n(1) got_def] got(1) by simp
qed (auto simp: enough_calls_def)

lemma write_handle_exact_ok:
  assumes "enough_calls (length bs + k) calls"
  shows "\<exists>calls'. write_handle_exact label canc calls bs out = Some (Inr (), calls', out @ bs)
    \<and> enough_calls k calls'"
  using assms
proof (induction label canc calls bs out rule: write_handle_exact.induct)
  case (3 label canc c calls b bs out)
  from "3.prems" have c: "call_moves c" and rest: "enough_calls (length bs + k) calls"
    by (simp_all add: enough_calls_Cons)
  obtain n where n: "write_overlapped c label canc = Inr n" "0 < n" using c by (rule call_moves_write)
  define written where "written = min n (min (length (b # bs)) write_chunk_size)"
  have written: "0 < written" using n(2) by (auto simp: written_def)
  have "enough_calls (length (drop written (b # bs)) + k) calls"
    using rest written by (auto intro: enough_calls_less)
  moreover have "(out @ take written (b # bs)) @ drop written (b # bs) = out @ b # bs"
    by (metis append.assoc append_take_drop_id)
  moreover have "write_handle_exact label canc (c # calls) (b # bs) out
      = write_handle_exact label canc calls (drop written (b # bs)) (out @ take written (b # bs))"
    unfolding write_handle_exact.simps n(1) sum.case Let_def written_def [symmetric] using written by simp
  ultimately show ?case using "3.IH" [OF n(1) written_def] written by simp
qed (auto simp: enough_calls_def)

section \<open>A stream of frames\<close>

definition frame_size :: "frame \<Rightarrow> nat" where
  "frame_size f = 16 + length (fr_payload f)"

definition wf_frame :: "frame \<Rightarrow> bool" where
  "wf_frame f \<longleftrightarrow> length (fr_payload f) \<le> VDS_FRAME_MAX_PAYLOAD"

definition header_of :: "frame \<Rightarrow> frame_header" where
  "header_of f = \<lparr>fh_type = fr_type f, fh_flags = 0, fh_length = of_nat (length (fr_payload f)), fh_sequence = 0\<rparr>"

definition encode_frame :: "frame \<Rightarrow> bytes" where
  "encode_frame f = header_bytes (header_of f) @ fr_payload f"

lemma length_header_bytes [simp]: "length (header_bytes h) = 16"
  by (simp add: header_bytes_def)

lemma length_encode_frame: "length (encode_frame f) = frame_size f"
  by (simp add: encode_frame_def frame_size_def)

lemma frame_bytes_wf: "wf_frame f \<Longrightarrow> frame_bytes (fr_type f) (fr_payload f) = Inr (encode_frame f)"
  by (simp add: frame_bytes_def wf_frame_def encode_frame_def header_of_def Let_def)

lemma header_length: "wf_frame f \<Longrightarrow> unat (fh_length (header_of f)) = length (fr_payload f)"
  by (simp add: header_of_def wf_frame_def unat_of_nat take_bit_eq_mod)

lemma write_frame_ok:
  assumes "wf_frame f" and "enough_calls (frame_size f + k) calls"
  shows "\<exists>calls'. write_handle_frame label canc calls (fr_type f) (fr_payload f) out
      = Some (Inr (), calls', out @ encode_frame f) \<and> enough_calls k calls'"
  using write_handle_exact_ok [of "encode_frame f" k calls label canc out] assms
  by (simp add: write_handle_frame_def frame_bytes_wf length_encode_frame)

lemma read_frame_ok:
  assumes "wf_frame f" and "enough_calls (frame_size f + k) calls"
  shows "\<exists>calls'. read_handle_frame label canc calls (encode_frame f @ rest) = Some (Inr f, calls', rest)
    \<and> enough_calls k calls'"
proof -
  let ?h = "header_of f"
  let ?p = "fr_payload f"
  have "enough_calls (16 + (length ?p + k)) calls" using assms(2) by (simp add: frame_size_def add.assoc)
  from read_handle_exact_ok [OF this, of "encode_frame f @ rest" label canc "[]"] obtain calls1 where
    c1: "read_handle_exact label canc calls (encode_frame f @ rest) 16 [] = Some (Inr (header_bytes ?h), calls1, ?p @ rest)"
      "enough_calls (length ?p + k) calls1"
    by (auto simp: encode_frame_def)
  from read_handle_exact_ok [OF c1(2), of "?p @ rest" label canc "[]"] obtain calls2 where
    c2: "read_handle_exact label canc calls1 (?p @ rest) (length ?p) [] = Some (Inr ?p, calls2, rest)"
      "enough_calls k calls2"
    by auto
  have "read_header (header_bytes ?h) = Some ?h" using read_header_bytes [of ?h "[]"] by simp
  moreover have "\<lparr>fr_type = fh_type ?h, fr_payload = ?p\<rparr> = f" by (simp add: header_of_def)
  moreover have "\<not> VDS_FRAME_MAX_PAYLOAD < length ?p" using assms(1) by (simp add: wf_frame_def)
  ultimately show ?thesis
    using c1 c2 header_length [OF assms(1)] by (simp add: read_handle_frame_def Let_def)
qed

fun write_frames ::
    "string \<Rightarrow> handle_io_cancellation \<Rightarrow> io_call list \<Rightarrow> frame list \<Rightarrow> bytes
      \<Rightarrow> (unit result \<times> io_call list \<times> bytes) option" where
  "write_frames label canc calls [] out = Some (Inr (), calls, out)"
| "write_frames label canc calls (f # fs) out =
     (case write_handle_frame label canc calls (fr_type f) (fr_payload f) out of
        Some (Inr _, calls', out') \<Rightarrow> write_frames label canc calls' fs out'
      | failure \<Rightarrow> failure)"

fun read_frames ::
    "string \<Rightarrow> handle_io_cancellation \<Rightarrow> io_call list \<Rightarrow> bytes \<Rightarrow> nat \<Rightarrow> (frame list \<times> bytes) option" where
  "read_frames label canc calls input 0 = Some ([], input)"
| "read_frames label canc calls input (Suc n) =
     (case read_handle_frame label canc calls input of
        Some (Inr f, calls', input') \<Rightarrow> map_option (apfst ((#) f)) (read_frames label canc calls' input' n)
      | _ \<Rightarrow> None)"

definition frames_size :: "frame list \<Rightarrow> nat" where
  "frames_size fs = sum_list (map frame_size fs)"

lemma write_frames_ok:
  assumes "list_all wf_frame fs" and "enough_calls (frames_size fs) calls"
  shows "\<exists>calls'. write_frames label canc calls fs out = Some (Inr (), calls', out @ concat (map encode_frame fs))"
  using assms
proof (induction fs arbitrary: calls out)
  case (Cons f fs)
  then have f: "wf_frame f" and fs: "list_all wf_frame fs"
    and enough: "enough_calls (frame_size f + frames_size fs) calls"
    by (simp_all add: frames_size_def)
  from write_frame_ok [OF f enough] obtain calls1 where
    one: "write_handle_frame label canc calls (fr_type f) (fr_payload f) out = Some (Inr (), calls1, out @ encode_frame f)"
      "enough_calls (frames_size fs) calls1" by blast
  from Cons.IH [OF fs one(2), of "out @ encode_frame f"] one(1) show ?case by simp
qed simp

lemma read_frames_ok:
  assumes "list_all wf_frame fs" and "enough_calls (frames_size fs) calls"
  shows "read_frames label canc calls (concat (map encode_frame fs) @ rest) (length fs) = Some (fs, rest)"
  using assms
proof (induction fs arbitrary: calls)
  case (Cons f fs)
  then have f: "wf_frame f" and fs: "list_all wf_frame fs"
    and enough: "enough_calls (frame_size f + frames_size fs) calls"
    by (simp_all add: frames_size_def)
  from read_frame_ok [OF f enough, of label canc "concat (map encode_frame fs) @ rest"] obtain calls1 where
    one: "read_handle_frame label canc calls (encode_frame f @ concat (map encode_frame fs) @ rest)
        = Some (Inr f, calls1, concat (map encode_frame fs) @ rest)" "enough_calls (frames_size fs) calls1"
    by blast
  from Cons.IH [OF fs one(2)] one(1) show ?case by simp
qed simp

section \<open>write_full keeps order and loses nothing\<close>

lemma write_full_prefix:
  "write_full label t answers bs out = Some (out', r) \<Longrightarrow>
    \<exists>k \<le> length bs. out' = out @ take k bs \<and> (r = Inr () \<longrightarrow> k = length bs)"
proof (induction label t answers bs out rule: write_full.induct)
  case (3 label t a answers b bs out)
  show ?case
  proof (cases a)
    case (Wrote n)
    show ?thesis
    proof (cases "n = 0")
      case False
      with 3 Wrote obtain k where k: "k \<le> length (drop n (b # bs))"
        "out' = (out @ take n (b # bs)) @ take k (drop n (b # bs))" "r = Inr () \<longrightarrow> k = length (drop n (b # bs))"
        by auto
      have "min n (length (b # bs)) + k \<le> length (b # bs)" using k(1) by auto
      moreover have "out' = out @ take (min n (length (b # bs)) + k) (b # bs)"
        using k(2) by (cases "n \<le> length (b # bs)") (auto simp: take_add min_def)
      ultimately show ?thesis using k(3) by (intro exI [of _ "min n (length (b # bs)) + k"]) auto
    qed (use 3 Wrote in auto)
  next
    case (Wr_would_block p)
    with 3 show ?thesis by (cases p) (auto split: if_splits)
  qed (use 3 in auto)
qed auto

section \<open>Properties\<close>

text \<open>
  Frames cross the pipe between the USB/IP bridge and the daemon unchanged: however the
  operating system splits the writes and the reads into calls, as long as every call moves at
  least one byte, writing a list of frames ends and reading as many frames ends and gives exactly
  these frames, leaving what follows them untouched.
\<close>

theorem frames_cross_pipe:
  assumes "list_all wf_frame fs" and "enough_calls (frames_size fs) wcalls" and "enough_calls (frames_size fs) rcalls"
  shows "\<exists>wcalls' stream. write_frames wlabel wcanc wcalls fs [] = Some (Inr (), wcalls', stream)
    \<and> read_frames rlabel rcanc rcalls (stream @ rest) (length fs) = Some (fs, rest)"
  using write_frames_ok [OF assms(1,2), of wlabel wcanc "[]"] read_frames_ok [OF assms(1,3)] by auto

definition one_byte_call :: io_call where
  "one_byte_call = \<lparr>io_event_error = None, io_start_error = Some (997, []), io_first = Overlapped_error 996 [],
     io_wait = Io_signalled, io_second = Transferred 1\<rparr>"

theorem frames_cross_pipe_witness:
  "\<exists>wcalls' stream. write_frames ''w'' \<lparr>hc_operation_aborted_is_stop = False, hc_stop_requested = None\<rparr>
       (replicate 18 one_byte_call) [\<lparr>fr_type = 5, fr_payload = [1, 2]\<rparr>] [] = Some (Inr (), wcalls', stream)
    \<and> read_frames ''r'' \<lparr>hc_operation_aborted_is_stop = True, hc_stop_requested = Some False\<rparr>
       (replicate 18 one_byte_call) (stream @ [7]) 1 = Some ([\<lparr>fr_type = 5, fr_payload = [1, 2]\<rparr>], [7])"
proof -
  have "call_moves one_byte_call" by code_simp
  then have "enough_calls (frames_size [\<lparr>fr_type = 5, fr_payload = [1, 2]\<rparr>]) (replicate 18 one_byte_call)"
    by (simp add: enough_calls_def frames_size_def frame_size_def list_all_length)
  from frames_cross_pipe [OF _ this this, of "''w''" _ "''r''" _ "[7]"] show ?thesis
    by (simp add: wf_frame_def)
qed

text \<open>
  Whatever \<open>write\<close> and \<open>poll\<close> answer, \<open>write_full\<close> has sent a prefix of the bytes in their
  order when it ends, and all of them exactly when it does not throw.
\<close>

theorem write_full_sends_prefix:
  assumes "write_full label timeout answers bs [] = Some (sent, r)"
  shows "prefix sent bs \<and> (r = Inr () \<longrightarrow> sent = bs)"
  using write_full_prefix [OF assms] by (auto simp: take_is_prefix)

theorem write_full_sends_prefix_witness:
  "prefix [1, 2] [1, 2, 3 :: u8] \<and> ((Inl (Runtime_error ''bt write timed out'') :: unit result) = Inr () \<longrightarrow> [1, 2] = [1, 2, 3 :: u8])"
proof -
  have "write_full ''bt'' 5 [Wr_interrupted, Wrote 2, Wr_would_block Poll_timeout] [1, 2, 3] []
      = Some ([1, 2], Inl (Runtime_error ''bt write timed out''))"
    by simp
  from write_full_sends_prefix [OF this] show ?thesis .
qed

end
