(* ===== verification/UsbDescriptors.thy ===== *)
theory UsbDescriptors
  imports Packets
begin

text \<open>
  \<open>include/vds/ds5_usb.h\<close>: the USB descriptors of the DualSense and the DualSense Edge that the
  virtual device presents, in the Linux kernel module and in the USB/IP server alike, with two
  readers for them: the chain of descriptors of a configuration, and the items of a HID report
  descriptor with the report sizes they declare.
\<close>

section \<open>Constants\<close>

definition VDS_USB_DEVICE_BCD :: u16 where "VDS_USB_DEVICE_BCD = 0x0100"
definition VDS_USB_NUM_CONFIGURATIONS :: u8 where "VDS_USB_NUM_CONFIGURATIONS = 1"
definition VDS_USB_CONFIGURATION_VALUE :: u8 where "VDS_USB_CONFIGURATION_VALUE = 1"
definition VDS_USB_AUDIO_OUT_INTERFACE :: u16 where "VDS_USB_AUDIO_OUT_INTERFACE = 1"
definition VDS_USB_AUDIO_IN_INTERFACE :: u16 where "VDS_USB_AUDIO_IN_INTERFACE = 2"
definition VDS_USB_AUDIO_OUT_ENDPOINT :: u8 where "VDS_USB_AUDIO_OUT_ENDPOINT = 0x01"
definition VDS_USB_AUDIO_IN_ENDPOINT :: u8 where "VDS_USB_AUDIO_IN_ENDPOINT = 0x82"
definition VDS_USB_HID_IN_ENDPOINT :: u8 where "VDS_USB_HID_IN_ENDPOINT = 0x84"
definition VDS_USB_HID_OUT_ENDPOINT :: u8 where "VDS_USB_HID_OUT_ENDPOINT = 0x03"

definition VDS_USB_MANUFACTURER_STRING :: string where
  "VDS_USB_MANUFACTURER_STRING = ''Sony Interactive Entertainment''"

definition VDS_DS5_USB_PRODUCT_STRING :: string where
  "VDS_DS5_USB_PRODUCT_STRING = ''DualSense Wireless Controller''"

definition VDS_DSE_USB_PRODUCT_STRING :: string where
  "VDS_DSE_USB_PRODUCT_STRING = ''DualSense Edge Wireless Controller''"

section \<open>The tables\<close>

definition vds_usb_language_descriptor :: bytes where
  "vds_usb_language_descriptor = [
     0x04, 0x03, 0x09, 0x04]"

definition vds_ds5_usb_device_descriptor :: bytes where
  "vds_ds5_usb_device_descriptor = [
     0x12, 0x01, 0x00, 0x02, 0x00, 0x00, 0x00, 0x40, 0x4c, 0x05, 0xe6, 0x0c, 0x00, 0x01, 0x01, 0x02,
     0x00, 0x01]"

definition vds_dse_usb_device_descriptor :: bytes where
  "vds_dse_usb_device_descriptor = [
     0x12, 0x01, 0x00, 0x02, 0x00, 0x00, 0x00, 0x40, 0x4c, 0x05, 0xf2, 0x0d, 0x00, 0x01, 0x01, 0x02,
     0x00, 0x01]"

definition vds_ds5_usb_configuration_descriptor :: bytes where
  "vds_ds5_usb_configuration_descriptor = [
     0x09, 0x02, 0xe3, 0x00, 0x04, 0x01, 0x00, 0xc0, 0xfa, 0x09, 0x04, 0x00, 0x00, 0x00, 0x01, 0x01,
     0x00, 0x00, 0x0a, 0x24, 0x01, 0x00, 0x01, 0x49, 0x00, 0x02, 0x01, 0x02, 0x0c, 0x24, 0x02, 0x01,
     0x01, 0x01, 0x06, 0x04, 0x33, 0x00, 0x00, 0x00, 0x0c, 0x24, 0x06, 0x02, 0x01, 0x01, 0x03, 0x00,
     0x00, 0x00, 0x00, 0x00, 0x09, 0x24, 0x03, 0x03, 0x01, 0x03, 0x04, 0x02, 0x00, 0x0c, 0x24, 0x02,
     0x04, 0x02, 0x04, 0x03, 0x02, 0x03, 0x00, 0x00, 0x00, 0x09, 0x24, 0x06, 0x05, 0x04, 0x01, 0x03,
     0x00, 0x00, 0x09, 0x24, 0x03, 0x06, 0x01, 0x01, 0x01, 0x05, 0x00, 0x09, 0x04, 0x01, 0x00, 0x00,
     0x01, 0x02, 0x00, 0x00, 0x09, 0x04, 0x01, 0x01, 0x01, 0x01, 0x02, 0x00, 0x00, 0x07, 0x24, 0x01,
     0x01, 0x01, 0x01, 0x00, 0x0b, 0x24, 0x02, 0x01, 0x04, 0x02, 0x10, 0x01, 0x80, 0xbb, 0x00, 0x09,
     0x05, 0x01, 0x09, 0x88, 0x01, 0x04, 0x00, 0x00, 0x07, 0x25, 0x01, 0x00, 0x00, 0x00, 0x00, 0x09,
     0x04, 0x02, 0x00, 0x00, 0x01, 0x02, 0x00, 0x00, 0x09, 0x04, 0x02, 0x01, 0x01, 0x01, 0x02, 0x00,
     0x00, 0x07, 0x24, 0x01, 0x06, 0x01, 0x01, 0x00, 0x0b, 0x24, 0x02, 0x01, 0x02, 0x02, 0x10, 0x01,
     0x80, 0xbb, 0x00, 0x09, 0x05, 0x82, 0x05, 0xc4, 0x00, 0x04, 0x00, 0x00, 0x07, 0x25, 0x01, 0x00,
     0x00, 0x00, 0x00, 0x09, 0x04, 0x03, 0x00, 0x02, 0x03, 0x00, 0x00, 0x00, 0x09, 0x21, 0x11, 0x01,
     0x00, 0x01, 0x22, 0x21, 0x01, 0x07, 0x05, 0x84, 0x03, 0x40, 0x00, 0x04, 0x07, 0x05, 0x03, 0x03,
     0x40, 0x00, 0x06]"

definition vds_ds5_usb_hid_descriptor :: bytes where
  "vds_ds5_usb_hid_descriptor = [
     0x09, 0x21, 0x11, 0x01, 0x00, 0x01, 0x22, 0x21, 0x01]"

definition vds_ds5_usb_hid_report_descriptor :: bytes where
  "vds_ds5_usb_hid_report_descriptor = [
     0x05, 0x01, 0x09, 0x05, 0xa1, 0x01, 0x85, 0x01, 0x09, 0x30, 0x09, 0x31, 0x09, 0x32, 0x09, 0x35,
     0x09, 0x33, 0x09, 0x34, 0x15, 0x00, 0x26, 0xff, 0x00, 0x75, 0x08, 0x95, 0x06, 0x81, 0x02, 0x06,
     0x00, 0xff, 0x09, 0x20, 0x95, 0x01, 0x81, 0x02, 0x05, 0x01, 0x09, 0x39, 0x15, 0x00, 0x25, 0x07,
     0x35, 0x00, 0x46, 0x3b, 0x01, 0x65, 0x14, 0x75, 0x04, 0x95, 0x01, 0x81, 0x42, 0x65, 0x00, 0x05,
     0x09, 0x19, 0x01, 0x29, 0x0f, 0x15, 0x00, 0x25, 0x01, 0x75, 0x01, 0x95, 0x0f, 0x81, 0x02, 0x06,
     0x00, 0xff, 0x09, 0x21, 0x95, 0x0d, 0x81, 0x02, 0x06, 0x00, 0xff, 0x09, 0x22, 0x15, 0x00, 0x26,
     0xff, 0x00, 0x75, 0x08, 0x95, 0x34, 0x81, 0x02, 0x85, 0x02, 0x09, 0x23, 0x95, 0x2f, 0x91, 0x02,
     0x85, 0x05, 0x09, 0x33, 0x95, 0x28, 0xb1, 0x02, 0x85, 0x08, 0x09, 0x34, 0x95, 0x2f, 0xb1, 0x02,
     0x85, 0x09, 0x09, 0x24, 0x95, 0x13, 0xb1, 0x02, 0x85, 0x0a, 0x09, 0x25, 0x95, 0x1a, 0xb1, 0x02,
     0x85, 0x0b, 0x09, 0x41, 0x95, 0x29, 0xb1, 0x02, 0x85, 0x0c, 0x09, 0x42, 0x95, 0x29, 0xb1, 0x02,
     0x85, 0x20, 0x09, 0x26, 0x95, 0x3f, 0xb1, 0x02, 0x85, 0x21, 0x09, 0x27, 0x95, 0x04, 0xb1, 0x02,
     0x85, 0x22, 0x09, 0x40, 0x95, 0x3f, 0xb1, 0x02, 0x85, 0x80, 0x09, 0x28, 0x95, 0x3f, 0xb1, 0x02,
     0x85, 0x81, 0x09, 0x29, 0x95, 0x3f, 0xb1, 0x02, 0x85, 0x82, 0x09, 0x2a, 0x95, 0x09, 0xb1, 0x02,
     0x85, 0x83, 0x09, 0x2b, 0x95, 0x3f, 0xb1, 0x02, 0x85, 0x84, 0x09, 0x2c, 0x95, 0x3f, 0xb1, 0x02,
     0x85, 0x85, 0x09, 0x2d, 0x95, 0x02, 0xb1, 0x02, 0x85, 0xa0, 0x09, 0x2e, 0x95, 0x01, 0xb1, 0x02,
     0x85, 0xe0, 0x09, 0x2f, 0x95, 0x3f, 0xb1, 0x02, 0x85, 0xf0, 0x09, 0x30, 0x95, 0x3f, 0xb1, 0x02,
     0x85, 0xf1, 0x09, 0x31, 0x95, 0x3f, 0xb1, 0x02, 0x85, 0xf2, 0x09, 0x32, 0x95, 0x0f, 0xb1, 0x02,
     0x85, 0xf4, 0x09, 0x35, 0x95, 0x3f, 0xb1, 0x02, 0x85, 0xf5, 0x09, 0x36, 0x95, 0x03, 0xb1, 0x02,
     0xc0]"

definition vds_dse_usb_configuration_descriptor :: bytes where
  "vds_dse_usb_configuration_descriptor = [
     0x09, 0x02, 0xe3, 0x00, 0x04, 0x01, 0x00, 0xc0, 0xfa, 0x09, 0x04, 0x00, 0x00, 0x00, 0x01, 0x01,
     0x00, 0x00, 0x0a, 0x24, 0x01, 0x00, 0x01, 0x49, 0x00, 0x02, 0x01, 0x02, 0x0c, 0x24, 0x02, 0x01,
     0x01, 0x01, 0x06, 0x04, 0x33, 0x00, 0x00, 0x00, 0x0c, 0x24, 0x06, 0x02, 0x01, 0x01, 0x03, 0x00,
     0x00, 0x00, 0x00, 0x00, 0x09, 0x24, 0x03, 0x03, 0x01, 0x03, 0x04, 0x02, 0x00, 0x0c, 0x24, 0x02,
     0x04, 0x02, 0x04, 0x03, 0x02, 0x03, 0x00, 0x00, 0x00, 0x09, 0x24, 0x06, 0x05, 0x04, 0x01, 0x03,
     0x00, 0x00, 0x09, 0x24, 0x03, 0x06, 0x01, 0x01, 0x01, 0x05, 0x00, 0x09, 0x04, 0x01, 0x00, 0x00,
     0x01, 0x02, 0x00, 0x00, 0x09, 0x04, 0x01, 0x01, 0x01, 0x01, 0x02, 0x00, 0x00, 0x07, 0x24, 0x01,
     0x01, 0x01, 0x01, 0x00, 0x0b, 0x24, 0x02, 0x01, 0x04, 0x02, 0x10, 0x01, 0x80, 0xbb, 0x00, 0x09,
     0x05, 0x01, 0x09, 0x88, 0x01, 0x04, 0x00, 0x00, 0x07, 0x25, 0x01, 0x00, 0x00, 0x00, 0x00, 0x09,
     0x04, 0x02, 0x00, 0x00, 0x01, 0x02, 0x00, 0x00, 0x09, 0x04, 0x02, 0x01, 0x01, 0x01, 0x02, 0x00,
     0x00, 0x07, 0x24, 0x01, 0x06, 0x01, 0x01, 0x00, 0x0b, 0x24, 0x02, 0x01, 0x02, 0x02, 0x10, 0x01,
     0x80, 0xbb, 0x00, 0x09, 0x05, 0x82, 0x05, 0xc4, 0x00, 0x04, 0x00, 0x00, 0x07, 0x25, 0x01, 0x00,
     0x00, 0x00, 0x00, 0x09, 0x04, 0x03, 0x00, 0x02, 0x03, 0x00, 0x00, 0x00, 0x09, 0x21, 0x11, 0x01,
     0x00, 0x01, 0x22, 0x95, 0x01, 0x07, 0x05, 0x84, 0x03, 0x40, 0x00, 0x04, 0x07, 0x05, 0x03, 0x03,
     0x40, 0x00, 0x06]"

definition vds_dse_usb_hid_descriptor :: bytes where
  "vds_dse_usb_hid_descriptor = [
     0x09, 0x21, 0x11, 0x01, 0x00, 0x01, 0x22, 0x95, 0x01]"

definition vds_dse_usb_hid_report_descriptor :: bytes where
  "vds_dse_usb_hid_report_descriptor = [
     0x05, 0x01, 0x09, 0x05, 0xa1, 0x01, 0x85, 0x01, 0x09, 0x30, 0x09, 0x31, 0x09, 0x32, 0x09, 0x35,
     0x09, 0x33, 0x09, 0x34, 0x15, 0x00, 0x26, 0xff, 0x00, 0x75, 0x08, 0x95, 0x06, 0x81, 0x02, 0x06,
     0x00, 0xff, 0x09, 0x20, 0x95, 0x01, 0x81, 0x02, 0x05, 0x01, 0x09, 0x39, 0x15, 0x00, 0x25, 0x07,
     0x35, 0x00, 0x46, 0x3b, 0x01, 0x65, 0x14, 0x75, 0x04, 0x95, 0x01, 0x81, 0x42, 0x65, 0x00, 0x05,
     0x09, 0x19, 0x01, 0x29, 0x0f, 0x15, 0x00, 0x25, 0x01, 0x75, 0x01, 0x95, 0x0f, 0x81, 0x02, 0x06,
     0x00, 0xff, 0x09, 0x21, 0x95, 0x0d, 0x81, 0x02, 0x06, 0x00, 0xff, 0x09, 0x22, 0x15, 0x00, 0x26,
     0xff, 0x00, 0x75, 0x08, 0x95, 0x34, 0x81, 0x02, 0x85, 0x02, 0x09, 0x23, 0x95, 0x3f, 0x91, 0x02,
     0x85, 0x05, 0x09, 0x33, 0x95, 0x28, 0xb1, 0x02, 0x85, 0x08, 0x09, 0x34, 0x95, 0x2f, 0xb1, 0x02,
     0x85, 0x09, 0x09, 0x24, 0x95, 0x13, 0xb1, 0x02, 0x85, 0x0a, 0x09, 0x25, 0x95, 0x1a, 0xb1, 0x02,
     0x85, 0x0b, 0x09, 0x41, 0x95, 0x29, 0xb1, 0x02, 0x85, 0x0c, 0x09, 0x42, 0x95, 0x29, 0xb1, 0x02,
     0x85, 0x20, 0x09, 0x26, 0x95, 0x3f, 0xb1, 0x02, 0x85, 0x21, 0x09, 0x27, 0x95, 0x04, 0xb1, 0x02,
     0x85, 0x22, 0x09, 0x40, 0x95, 0x3f, 0xb1, 0x02, 0x85, 0x80, 0x09, 0x28, 0x95, 0x3f, 0xb1, 0x02,
     0x85, 0x81, 0x09, 0x29, 0x95, 0x3f, 0xb1, 0x02, 0x85, 0x82, 0x09, 0x2a, 0x95, 0x09, 0xb1, 0x02,
     0x85, 0x83, 0x09, 0x2b, 0x95, 0x3f, 0xb1, 0x02, 0x85, 0x84, 0x09, 0x2c, 0x95, 0x3f, 0xb1, 0x02,
     0x85, 0x85, 0x09, 0x2d, 0x95, 0x02, 0xb1, 0x02, 0x85, 0xa0, 0x09, 0x2e, 0x95, 0x01, 0xb1, 0x02,
     0x85, 0xe0, 0x09, 0x2f, 0x95, 0x3f, 0xb1, 0x02, 0x85, 0xf0, 0x09, 0x30, 0x95, 0x3f, 0xb1, 0x02,
     0x85, 0xf1, 0x09, 0x31, 0x95, 0x3f, 0xb1, 0x02, 0x85, 0xf2, 0x09, 0x32, 0x95, 0x34, 0xb1, 0x02,
     0x85, 0xf4, 0x09, 0x35, 0x95, 0x3f, 0xb1, 0x02, 0x85, 0xf5, 0x09, 0x36, 0x95, 0x03, 0xb1, 0x02,
     0x85, 0x60, 0x09, 0x41, 0x95, 0x3f, 0xb1, 0x02, 0x85, 0x61, 0x09, 0x42, 0xb1, 0x02, 0x85, 0x62,
     0x09, 0x43, 0xb1, 0x02, 0x85, 0x63, 0x09, 0x44, 0xb1, 0x02, 0x85, 0x64, 0x09, 0x45, 0xb1, 0x02,
     0x85, 0x65, 0x09, 0x46, 0xb1, 0x02, 0x85, 0x68, 0x09, 0x47, 0xb1, 0x02, 0x85, 0x70, 0x09, 0x48,
     0xb1, 0x02, 0x85, 0x71, 0x09, 0x49, 0xb1, 0x02, 0x85, 0x72, 0x09, 0x4a, 0xb1, 0x02, 0x85, 0x73,
     0x09, 0x4b, 0xb1, 0x02, 0x85, 0x74, 0x09, 0x4c, 0xb1, 0x02, 0x85, 0x75, 0x09, 0x4d, 0xb1, 0x02,
     0x85, 0x76, 0x09, 0x4e, 0xb1, 0x02, 0x85, 0x77, 0x09, 0x4f, 0xb1, 0x02, 0x85, 0x78, 0x09, 0x50,
     0xb1, 0x02, 0x85, 0x79, 0x09, 0x51, 0xb1, 0x02, 0x85, 0x7a, 0x09, 0x52, 0xb1, 0x02, 0x85, 0x7b,
     0x09, 0x53, 0xb1, 0x02, 0xc0]"

section \<open>Reading a configuration\<close>

text \<open>A descriptor is its length byte, its type byte and its contents; a configuration is a chain of them.\<close>

function descriptor_chain :: "bytes \<Rightarrow> bytes list option" where
  "descriptor_chain bs =
     (if bs = [] then Some []
      else (let n = unat (hd bs) in
            if n < 2 \<or> length bs < n then None
            else map_option ((#) (take n bs)) (descriptor_chain (drop n bs))))"
  by pat_completeness auto
termination by (relation "measure length") auto

declare descriptor_chain.simps [simp del]

definition descriptors_of_type :: "u8 \<Rightarrow> bytes list \<Rightarrow> bytes list" where
  "descriptors_of_type t ds = filter (\<lambda>d. d ! 1 = t) ds"

definition le16_at :: "bytes \<Rightarrow> nat \<Rightarrow> nat" where
  "le16_at bs i = unat (bs ! i) + 256 * unat (bs ! (i + 1))"

section \<open>Reading a HID report descriptor\<close>

datatype report_kind = Input_report | Output_report | Feature_report

text \<open>
  Short items: a prefix byte with the size of its data in the two low bits (3 means 4), then the
  data, least byte first. The globals report size, report count and report id are kept; input,
  output and feature items add size times count bits to the report of the current id.
\<close>

fun hid_items :: "nat list \<Rightarrow> (nat \<times> nat) list option" where
  "hid_items [] = Some []"
| "hid_items (p # bs) =
     (if p mod 4 = 0 then map_option (Cons (p, 0)) (hid_items bs)
      else if p mod 4 = 1 then
        (case bs of
           a # rest \<Rightarrow> map_option (Cons (p - 1, a)) (hid_items rest)
         | _ \<Rightarrow> None)
      else if p mod 4 = 2 then
        (case bs of
           a # b # rest \<Rightarrow> map_option (Cons (p - 2, a + 256 * b)) (hid_items rest)
         | _ \<Rightarrow> None)
      else
        (case bs of
           a # b # c # d # rest \<Rightarrow>
             map_option (Cons (p - 3, a + 256 * (b + 256 * (c + 256 * d)))) (hid_items rest)
         | _ \<Rightarrow> None))"

fun add_bits :: "report_kind \<times> nat \<Rightarrow> nat \<Rightarrow> ((report_kind \<times> nat) \<times> nat) list \<Rightarrow> ((report_kind \<times> nat) \<times> nat) list" where
  "add_bits key n [] = [(key, n)]"
| "add_bits key n ((key', old) # rest) =
     (if key = key' then (key, old + n) # rest else (key', old) # add_bits key n rest)"

fun report_bits :: "nat \<Rightarrow> nat \<Rightarrow> nat \<Rightarrow> (nat \<times> nat) list \<Rightarrow> ((report_kind \<times> nat) \<times> nat) list" where
  "report_bits sz cnt ident [] = []"
| "report_bits sz cnt ident ((tag, v) # items) =
     (if tag = 0x74 then report_bits v cnt ident items
      else if tag = 0x94 then report_bits sz v ident items
      else if tag = 0x84 then report_bits sz cnt v items
      else if tag = 0x80 then add_bits (Input_report, ident) (sz * cnt) (report_bits sz cnt ident items)
      else if tag = 0x90 then add_bits (Output_report, ident) (sz * cnt) (report_bits sz cnt ident items)
      else if tag = 0xb0 then add_bits (Feature_report, ident) (sz * cnt) (report_bits sz cnt ident items)
      else report_bits sz cnt ident items)"

text \<open>The bits of every report a descriptor declares.\<close>

definition report_table :: "bytes \<Rightarrow> ((report_kind \<times> nat) \<times> nat) list option" where
  "report_table descriptor = map_option (report_bits 0 0 0) (hid_items (map unat descriptor))"

section \<open>Properties\<close>

text \<open>
  The descriptor tables are consistent: each configuration is a chain of whole descriptors, as
  long as it says, with four interfaces and exactly the four endpoints the programs use, and the
  HID descriptor inside it is the one given out on its own and announces the true length of the
  report descriptor.
\<close>

theorem usb_configurations_consistent:
  "list_all (\<lambda>(config, hid, hid_report).
     (case descriptor_chain config of
        None \<Rightarrow> False
      | Some ds \<Rightarrow>
          le16_at config 2 = length config
          \<and> sorted (map (\<lambda>d. unat (d ! 2)) (descriptors_of_type 4 ds))
          \<and> set (map (\<lambda>d. d ! 2) (descriptors_of_type 4 ds)) = {0, 1, 2, 3} \<and> config ! 4 = 4
          \<and> map (\<lambda>d. d ! 2) (descriptors_of_type 5 ds)
              = [VDS_USB_AUDIO_OUT_ENDPOINT, VDS_USB_AUDIO_IN_ENDPOINT, VDS_USB_HID_IN_ENDPOINT, VDS_USB_HID_OUT_ENDPOINT]
          \<and> descriptors_of_type 0x21 ds = [hid] \<and> le16_at hid 7 = length hid_report))
   [(vds_ds5_usb_configuration_descriptor, vds_ds5_usb_hid_descriptor, vds_ds5_usb_hid_report_descriptor),
    (vds_dse_usb_configuration_descriptor, vds_dse_usb_hid_descriptor, vds_dse_usb_hid_report_descriptor)]"
  by code_simp

text \<open>
  The report descriptors declare the sizes the programs work with: all reports are whole bytes
  and fit the 64-byte endpoint together with their id, the input report has 63 bytes after its id,
  the output report 47 for the DualSense and 63 for the Edge, the pairing report 19 and the
  information report 63.
\<close>

theorem hid_report_sizes:
  "list_all (\<lambda>(descriptor, output_bytes).
     case report_table descriptor of
       None \<Rightarrow> False
     | Some reports \<Rightarrow>
         list_all (\<lambda>(_, bits). bits mod 8 = 0 \<and> bits div 8 + 1 \<le> 64) reports
         \<and> map_of reports (Input_report, 1) = Some (8 * 63)
         \<and> map_of reports (Output_report, 2) = Some (8 * output_bytes)
         \<and> map_of reports (Feature_report, 9) = Some (8 * 19)
         \<and> map_of reports (Feature_report, 0x20) = Some (8 * 63))
   [(vds_ds5_usb_hid_report_descriptor, 47), (vds_dse_usb_hid_report_descriptor, 63)]"
  by (simp add: report_table_def vds_ds5_usb_hid_report_descriptor_def vds_dse_usb_hid_report_descriptor_def)

end
