(* ===== verification/Pacing.thy ===== *)
theory Pacing
  imports Prelude "HOL-Library.Multiset"
begin

text \<open>
  Replies that are due at a time: the contract of the multimap \<open>paced_replies\<close> of
  \<open>src/src/platform/win32/vds_usbip.cc\<close>, with what the pacer loop guarantees over it, and the list
  that models the multimap.
\<close>

section \<open>The interface\<close>

text \<open>The pacer sees insertions by other threads and its own rounds, each with a reading of the clock.\<close>

datatype 'a pacer_event = Submit nat 'a | Round nat

locale timed_queue =
  fixes items :: "'q \<Rightarrow> (nat \<times> 'a) list"
    and emplace :: "nat \<Rightarrow> 'a \<Rightarrow> 'q \<Rightarrow> 'q"
    and earliest :: "'q \<Rightarrow> ((nat \<times> 'a) \<times> 'q) option"
  assumes items_emplace: "\<exists>early late. items q = early @ late \<and> items (emplace t a q) = early @ (t, a) # late
      \<and> (\<forall>e \<in> set early. fst e \<le> t) \<and> (sorted (map fst (items q)) \<longrightarrow> (\<forall>e \<in> set late. t < fst e))"
    and earliest_None: "earliest q = None \<longleftrightarrow> items q = []"
    and earliest_Some: "earliest q = Some (e, q') \<Longrightarrow> items q = e # items q'"
begin

text \<open>One round of the pacer: the earliest reply, when it is due.\<close>

definition round_at :: "nat \<Rightarrow> 'q \<Rightarrow> (nat \<times> 'a) option \<times> 'q" where
  "round_at now q =
     (case earliest q of
        None \<Rightarrow> (None, q)
      | Some (e, q') \<Rightarrow> if now < fst e then (None, q) else (Some e, q'))"

fun pace :: "'a pacer_event list \<Rightarrow> 'q \<Rightarrow> (nat \<times> nat \<times> 'a) list \<times> 'q" where
  "pace [] q = ([], q)"
| "pace (Submit t a # events) q = pace events (emplace t a q)"
| "pace (Round now # events) q =
     (case round_at now q of
        (None, q') \<Rightarrow> pace events q'
      | (Some e, q') \<Rightarrow> (let (sent, q'') = pace events q' in ((now, e) # sent, q'')))"

lemma round_at_cases:
  obtains (Waits) "round_at now q = (None, q)" "items q \<noteq> [] \<Longrightarrow> now < fst (hd (items q))"
  | (Sends) e q' where "round_at now q = (Some e, q')" "items q = e # items q'" "fst e \<le> now"
proof (cases "earliest q")
  case None
  then have "items q = []" by (simp flip: earliest_None)
  with None show thesis by (intro Waits) (simp_all add: round_at_def)
next
  case (Some eq)
  obtain e q' where eq: "eq = (e, q')" by (rule prod.exhaust)
  with Some have items: "items q = e # items q'" by (simp add: earliest_Some)
  show thesis
  proof (cases "now < fst e")
    case True
    with Some eq items show thesis by (intro Waits) (simp_all add: round_at_def)
  next
    case False
    with Some eq items show thesis by (intro Sends) (simp_all add: round_at_def not_less)
  qed
qed

lemma mset_emplace: "mset (items (emplace t a q)) = add_mset (t, a) (mset (items q))"
  using items_emplace [of q t a] by auto

lemma sorted_emplace:
  assumes "sorted (map fst (items q))"
  shows "sorted (map fst (items (emplace t a q)))"
proof -
  obtain early late where items: "items q = early @ late" "items (emplace t a q) = early @ (t, a) # late"
    and early: "\<forall>e \<in> set early. fst e \<le> t" and late: "\<forall>e \<in> set late. t < fst e"
    using items_emplace [of q t a] assms by blast
  from assms items early late show ?thesis by (auto simp: sorted_append intro: less_imp_le)
qed

lemma sorted_round: "sorted (map fst (items q)) \<Longrightarrow> sorted (map fst (items (snd (round_at now q))))"
  by (rule round_at_cases [of now q]) auto

lemma sorted_pace: "sorted (map fst (items q)) \<Longrightarrow> sorted (map fst (items (snd (pace events q))))"
proof (induction events q rule: pace.induct)
  case (3 now events q)
  then show ?case
    by (cases rule: round_at_cases [of now q]) (auto split: prod.splits)
qed (simp_all add: sorted_emplace)

text \<open>Nothing is sent before it is due.\<close>

lemma pace_not_early: "(now, due, a) \<in> set (fst (pace events q)) \<Longrightarrow> due \<le> now"
proof (induction events q rule: pace.induct)
  case (3 now' events q)
  then show ?case
    by (cases rule: round_at_cases [of now' q]) (auto split: prod.splits)
qed simp_all

text \<open>Nothing is lost and nothing is sent twice.\<close>

definition submitted :: "'a pacer_event list \<Rightarrow> (nat \<times> 'a) multiset" where
  "submitted events = mset (List.map_filter (\<lambda>e. case e of Submit t a \<Rightarrow> Some (t, a) | Round _ \<Rightarrow> None) events)"

lemma submitted_simps [simp]:
  "submitted [] = {#}" "submitted (Submit t a # events) = add_mset (t, a) (submitted events)"
  "submitted (Round now # events) = submitted events"
  by (simp_all add: submitted_def List.map_filter_simps)

lemma pace_conserves:
  "mset (map snd (fst (pace events q))) + mset (items (snd (pace events q))) = mset (items q) + submitted events"
proof (induction events q rule: pace.induct)
  case (3 now events q)
  then show ?case
    by (cases rule: round_at_cases [of now q]) (auto split: prod.splits)
qed (simp_all add: mset_emplace)

text \<open>Rounds that come when everything is due empty the queue, in order of the due times.\<close>

lemma pace_drains:
  assumes "\<forall>e \<in> set (items q). \<forall>now \<in> set nows. fst e \<le> now" and "length (items q) \<le> length nows"
  shows "map snd (fst (pace (map Round nows) q)) = items q \<and> items (snd (pace (map Round nows) q)) = []"
  using assms
proof (induction nows arbitrary: q)
  case (Cons now nows)
  show ?case
  proof (cases rule: round_at_cases [of now q])
    case Waits
    from Cons.prems(1) have "items q \<noteq> [] \<Longrightarrow> fst (hd (items q)) \<le> now" by (simp add: hd_in_set)
    with Waits(2) have "items q = []" by (meson leD)
    with Waits(1) Cons.IH [of q] show ?thesis by simp
  next
    case (Sends e q')
    with Cons.IH [of q'] Cons.prems show ?thesis by (auto split: prod.splits)
  qed
qed simp

text \<open>
  Progress: with rounds at times when the whole queue is due, however many, that many replies are
  sent first, even when replies due later are submitted in between.
\<close>

lemma pace_progress:
  "length (fst (pace (map Round nows) q)) = min (length nows) (length (items q))"
  if "\<forall>e \<in> set (items q). \<forall>now \<in> set nows. fst e \<le> now"
  using that
proof (induction nows arbitrary: q)
  case (Cons now nows)
  show ?case
  proof (cases rule: round_at_cases [of now q])
    case Waits
    from Cons.prems have "items q \<noteq> [] \<Longrightarrow> fst (hd (items q)) \<le> now" by (simp add: hd_in_set)
    with Waits(2) have "items q = []" by (meson leD)
    with Waits(1) Cons.IH [of q] show ?thesis by simp
  next
    case (Sends e q')
    with Cons.IH [of q'] Cons.prems show ?thesis by (auto split: prod.splits)
  qed
qed simp

end

section \<open>The multimap\<close>

text \<open>
  \<open>std::multimap\<close> keyed by the due time: a new entry goes behind all entries with the same or an
  earlier key; \<open>begin()\<close> is the first entry.
\<close>

type_synonym 'a multimap = "(nat \<times> 'a) list"

definition multimap_emplace :: "nat \<Rightarrow> 'a \<Rightarrow> 'a multimap \<Rightarrow> 'a multimap" where
  "multimap_emplace t a q = takeWhile (\<lambda>e. fst e \<le> t) q @ (t, a) # dropWhile (\<lambda>e. fst e \<le> t) q"

definition multimap_begin :: "'a multimap \<Rightarrow> ((nat \<times> 'a) \<times> 'a multimap) option" where
  "multimap_begin q = (case q of [] \<Rightarrow> None | e # q' \<Rightarrow> Some (e, q'))"

lemma dropWhile_late:
  "sorted (map fst q) \<Longrightarrow> \<forall>e \<in> set (dropWhile (\<lambda>e. fst e \<le> t) q). t < fst e"
  by (induction q) auto

interpretation mm: timed_queue "\<lambda>q. q" multimap_emplace multimap_begin
proof
  fix q :: "(nat \<times> 'a) list" and t :: nat and a :: 'a
  show "\<exists>early late. q = early @ late \<and> multimap_emplace t a q = early @ (t, a) # late
      \<and> (\<forall>e \<in> set early. fst e \<le> t) \<and> (sorted (map fst q) \<longrightarrow> (\<forall>e \<in> set late. t < fst e))"
    by (intro exI [of _ "takeWhile (\<lambda>e. fst e \<le> t) q"] exI [of _ "dropWhile (\<lambda>e. fst e \<le> t) q"])
      (auto simp: multimap_emplace_def dropWhile_late dest: set_takeWhileD)
qed (auto simp: multimap_begin_def split: list.splits)

end
