(* ===== verification/UsbIpWire.thy ===== *)
theory UsbIpWire
  imports HandleIo UsbDescriptors Common
begin

text \<open>
  The USB/IP wire formats of \<open>src/src/platform/win32/vds_usbip.cc\<close>: the packed structures, all in
  network byte order, with what the client side reads from a reply; the descriptors of a profile
  and the string descriptors built from text.
\<close>

section \<open>Constants\<close>

definition kProtocolVersion :: u16 where "kProtocolVersion = 0x0111"
definition kDefaultPort :: nat where "kDefaultPort = 3240"
definition kOpReqDevlist :: u16 where "kOpReqDevlist = 0x8005"
definition kOpRepDevlist :: u16 where "kOpRepDevlist = 0x0005"
definition kOpReqImport :: u16 where "kOpReqImport = 0x8003"
definition kOpRepImport :: u16 where "kOpRepImport = 0x0003"
definition kCmdSubmit :: u32 where "kCmdSubmit = 1"
definition kRetSubmit :: u32 where "kRetSubmit = 3"
definition kCmdUnlink :: u32 where "kCmdUnlink = 2"
definition kRetUnlink :: u32 where "kRetUnlink = 4"
definition kDirOut :: u32 where "kDirOut = 0"
definition kDirIn :: u32 where "kDirIn = 1"

definition kMaxTransferBufferBytes :: nat where "kMaxTransferBufferBytes = 1024 * 1024"
definition kMaxIsoPackets :: int where "kMaxIsoPackets = 1024"

definition kEpAudioOut :: u32 where "kEpAudioOut = ucast (VDS_USB_AUDIO_OUT_ENDPOINT AND 0x0f)"
definition kEpAudioIn :: u32 where "kEpAudioIn = ucast (VDS_USB_AUDIO_IN_ENDPOINT AND 0x0f)"
definition kEpHidIn :: u32 where "kEpHidIn = ucast (VDS_USB_HID_IN_ENDPOINT AND 0x0f)"
definition kEpHidOut :: u32 where "kEpHidOut = ucast (VDS_USB_HID_OUT_ENDPOINT AND 0x0f)"

lemma endpoint_numbers [simp]: "kEpAudioOut = 1" "kEpAudioIn = 2" "kEpHidIn = 4" "kEpHidOut = 3"
  by (simp_all add: kEpAudioOut_def kEpAudioIn_def kEpHidIn_def kEpHidOut_def VDS_USB_AUDIO_OUT_ENDPOINT_def
      VDS_USB_AUDIO_IN_ENDPOINT_def VDS_USB_HID_IN_ENDPOINT_def VDS_USB_HID_OUT_ENDPOINT_def)

section \<open>Network byte order\<close>

text \<open>\<open>hton16\<close>, \<open>hton32\<close> with \<open>n\<close> = 2 and 4, and \<open>ntoh16\<close>, \<open>ntoh32\<close> of the bytes at an offset.\<close>

definition be_bytes :: "nat \<Rightarrow> 'a :: len word \<Rightarrow> bytes" where
  "be_bytes n w = rev (le_bytes n w)"

definition be_value :: "bytes \<Rightarrow> 'a :: len word" where
  "be_value bs = le_value (rev bs)"

definition be_at :: "nat \<Rightarrow> nat \<Rightarrow> bytes \<Rightarrow> 'a :: len word" where
  "be_at n off bs = be_value (take n (drop off bs))"

lemma length_be_bytes [simp]: "length (be_bytes n w) = n"
  by (simp add: be_bytes_def)

lemma be_value_be_bytes [simp]:
  "LENGTH('a) \<le> 8 * n \<Longrightarrow> be_value (be_bytes n w) = (w :: 'a :: len word)"
  by (simp add: be_value_def be_bytes_def le_value_le_bytes)

section \<open>The structures\<close>

text \<open>\<open>OpCommonHeader\<close>: version, code and status, 8 bytes.\<close>

record op_header =
  oh_version :: u16
  oh_code :: u16
  oh_status :: u32

definition op_header_bytes :: "op_header \<Rightarrow> bytes" where
  "op_header_bytes h = be_bytes 2 (oh_version h) @ be_bytes 2 (oh_code h) @ be_bytes 4 (oh_status h)"

definition read_op_header :: "bytes \<Rightarrow> op_header" where
  "read_op_header bs = \<lparr>oh_version = be_at 2 0 bs, oh_code = be_at 2 2 bs, oh_status = be_at 4 4 bs\<rparr>"

text \<open>
  \<open>UsbipCmdSubmit\<close>, 48 bytes: the fields the server converts and uses; \<open>start_frame\<close> and
  \<open>interval\<close> are read and not used. The signed fields keep their bits.
\<close>

record cmd_submit =
  uc_command :: u32
  uc_seqnum :: u32
  uc_devid :: u32
  uc_direction :: u32
  uc_ep :: u32
  uc_transfer_flags :: u32
  uc_length :: u32
  uc_packets :: u32
  uc_setup :: bytes

definition read_cmd :: "bytes \<Rightarrow> cmd_submit" where
  "read_cmd bs =
     \<lparr>uc_command = be_at 4 0 bs, uc_seqnum = be_at 4 4 bs, uc_devid = be_at 4 8 bs,
      uc_direction = be_at 4 12 bs, uc_ep = be_at 4 16 bs, uc_transfer_flags = be_at 4 20 bs,
      uc_length = be_at 4 24 bs, uc_packets = be_at 4 32 bs, uc_setup = take 8 (drop 40 bs)\<rparr>"

text \<open>What a client sends for such a command, with zero start frame and interval.\<close>

definition cmd_bytes :: "cmd_submit \<Rightarrow> bytes" where
  "cmd_bytes c =
     be_bytes 4 (uc_command c) @ be_bytes 4 (uc_seqnum c) @ be_bytes 4 (uc_devid c)
     @ be_bytes 4 (uc_direction c) @ be_bytes 4 (uc_ep c) @ be_bytes 4 (uc_transfer_flags c)
     @ be_bytes 4 (uc_length c) @ be_bytes 4 (0 :: u32) @ be_bytes 4 (uc_packets c)
     @ be_bytes 4 (0 :: u32) @ uc_setup c"

text \<open>\<open>UsbipRetSubmit\<close>, 48 bytes.\<close>

record ret_submit =
  ur_seqnum :: u32
  ur_status :: u32
  ur_actual_length :: u32
  ur_packets :: u32

definition ret_bytes :: "ret_submit \<Rightarrow> bytes" where
  "ret_bytes r =
     be_bytes 4 kRetSubmit @ be_bytes 4 (ur_seqnum r) @ be_bytes 4 (0 :: u32) @ be_bytes 4 (0 :: u32)
     @ be_bytes 4 (0 :: u32) @ be_bytes 4 (ur_status r) @ be_bytes 4 (ur_actual_length r)
     @ be_bytes 4 (0 :: u32) @ be_bytes 4 (ur_packets r) @ be_bytes 4 (0 :: u32) @ replicate 8 0"

text \<open>\<open>UsbipRetUnlink\<close>, 48 bytes, always with status 0.\<close>

definition unlink_reply_bytes :: "u32 \<Rightarrow> bytes" where
  "unlink_reply_bytes seqnum =
     be_bytes 4 kRetUnlink @ be_bytes 4 seqnum @ be_bytes 4 (0 :: u32) @ be_bytes 4 (0 :: u32)
     @ be_bytes 4 (0 :: u32) @ be_bytes 4 (0 :: u32) @ replicate 24 0"

text \<open>\<open>UsbipIsoPacketDescriptor\<close>, 16 bytes.\<close>

record iso_packet =
  ip_offset :: u32
  ip_length :: u32
  ip_actual_length :: u32
  ip_status :: u32

definition iso_bytes :: "iso_packet \<Rightarrow> bytes" where
  "iso_bytes p = be_bytes 4 (ip_offset p) @ be_bytes 4 (ip_length p) @ be_bytes 4 (ip_actual_length p)
     @ be_bytes 4 (ip_status p)"

definition read_iso :: "bytes \<Rightarrow> iso_packet" where
  "read_iso bs = \<lparr>ip_offset = be_at 4 0 bs, ip_length = be_at 4 4 bs, ip_actual_length = be_at 4 8 bs,
     ip_status = be_at 4 12 bs\<rparr>"

primrec read_isos :: "nat \<Rightarrow> bytes \<Rightarrow> iso_packet list" where
  "read_isos 0 bs = []"
| "read_isos (Suc n) bs = read_iso (take 16 bs) # read_isos n (drop 16 bs)"

section \<open>Ports and their names\<close>

abbreviation (input) VDS_MAX_PORT_COUNT :: nat where "VDS_MAX_PORT_COUNT \<equiv> 4"

definition busid_for_port :: "nat \<Rightarrow> string result" where
  "busid_for_port port_index =
     (if port_index \<ge> VDS_MAX_PORT_COUNT
      then Inl (Runtime_error (''USB/IP port must be in range 0..'' @ to_string (VDS_MAX_PORT_COUNT - 1)))
      else Inr (''1-'' @ to_string (port_index + 1)))"

definition endpoint_for_busid :: "string \<Rightarrow> string" where
  "endpoint_for_busid busid = ''usbip://127.0.0.1:'' @ to_string kDefaultPort @ ''/'' @ busid"

definition endpoint_for_port :: "nat \<Rightarrow> string result" where
  "endpoint_for_port port_index = bind_result (busid_for_port port_index) (\<lambda>b. Inr (endpoint_for_busid b))"

definition kPathPrefix :: string where "kPathPrefix = ''/vds/virtual/dualsense''"

definition device_path :: "nat \<Rightarrow> string" where
  "device_path port_index = kPathPrefix @ to_string port_index"

definition pipe_path :: "nat \<Rightarrow> string" where
  "pipe_path port_index =
     [CHR 0x5C, CHR 0x5C, CHR ''.'', CHR 0x5C] @ ''pipe'' @ [CHR 0x5C] @ ''vds_usbip_port'' @ to_string port_index"

section \<open>Descriptors of a profile\<close>

record profile_descriptors =
  pd_device :: bytes
  pd_config :: bytes
  pd_hid :: bytes
  pd_hid_report :: bytes
  pd_vendor :: u16
  pd_product :: u16

definition descriptors_for_profile :: "nat \<Rightarrow> profile_descriptors" where
  "descriptors_for_profile profile =
     (if profile = VDS_PROFILE_DSE then
        \<lparr>pd_device = vds_dse_usb_device_descriptor, pd_config = vds_dse_usb_configuration_descriptor,
         pd_hid = vds_dse_usb_hid_descriptor, pd_hid_report = vds_dse_usb_hid_report_descriptor,
         pd_vendor = 0x054c, pd_product = 0x0df2\<rparr>
      else
        \<lparr>pd_device = vds_ds5_usb_device_descriptor, pd_config = vds_ds5_usb_configuration_descriptor,
         pd_hid = vds_ds5_usb_hid_descriptor, pd_hid_report = vds_ds5_usb_hid_report_descriptor,
         pd_vendor = 0x054c, pd_product = 0x0ce6\<rparr>)"

definition build_string_descriptor :: "string \<Rightarrow> bytes" where
  "build_string_descriptor s =
     (let bs = [0, 0x03] @ concat (map (\<lambda>c. [of_nat (code_of c), 0]) s) in bs[0 := of_nat (length bs)])"

definition build_langid_descriptor :: bytes where
  "build_langid_descriptor = [0x04, 0x03, 0x09, 0x04]"

text \<open>\<open>strncpy(field, text, sizeof(field) - 1)\<close> into a zeroed field of \<open>n\<close> bytes.\<close>

definition char_field :: "nat \<Rightarrow> string \<Rightarrow> bytes" where
  "char_field n s =
     (let bs = map (\<lambda>c. of_nat (code_of c)) (take (n - 1) (takeWhile (\<lambda>c. code_of c \<noteq> 0) s)) in
      bs @ replicate (n - length bs) 0)"

definition wire_device :: "nat \<Rightarrow> nat \<Rightarrow> string \<Rightarrow> bytes" where
  "wire_device profile port_index busid =
     (let d = descriptors_for_profile profile in
      char_field 256 (device_path port_index) @ char_field 32 busid
      @ be_bytes 4 (1 :: u32) @ be_bytes 4 (of_nat (port_index + 1) :: u32) @ be_bytes 4 (3 :: u32)
      @ be_bytes 2 (pd_vendor d) @ be_bytes 2 (pd_product d) @ be_bytes 2 VDS_USB_DEVICE_BCD
      @ [pd_device d ! 4, pd_device d ! 5, pd_device d ! 6,
         VDS_USB_CONFIGURATION_VALUE, VDS_USB_NUM_CONFIGURATIONS, 4])"

definition wire_interfaces :: bytes where
  "wire_interfaces = [0x01, 0x01, 0x00, 0, 0x01, 0x02, 0x00, 0, 0x01, 0x02, 0x00, 0, 0x03, 0x00, 0x00, 0]"

section \<open>Sizes and readers\<close>

named_theorems wire_sizes \<open>lengths of the structures on the wire\<close>

lemma wire_lengths [simp, wire_sizes]:
  "length (op_header_bytes h) = 8" "length (ret_bytes r) = 48" "length (unlink_reply_bytes n) = 48"
  "length (iso_bytes p) = 16" "length (cmd_bytes c) = 40 + length (uc_setup c)" "length wire_interfaces = 16"
  by (simp_all add: op_header_bytes_def ret_bytes_def unlink_reply_bytes_def iso_bytes_def cmd_bytes_def
      wire_interfaces_def)

lemma length_char_field [simp, wire_sizes]: "0 < n \<Longrightarrow> length (char_field n s) = n"
  by (simp add: char_field_def Let_def)

lemma length_wire_device [simp, wire_sizes]: "length (wire_device profile i b) = 312"
  by (simp add: wire_device_def Let_def)

lemma length_isos [simp, wire_sizes]: "length (concat (map iso_bytes ps)) = 16 * length ps"
  by (induction ps) simp_all

lemma be_at_0 [simp]:
  "LENGTH('a) \<le> 8 * n \<Longrightarrow> be_at n 0 (be_bytes n w @ rest) = (w :: 'a :: len word)"
  by (simp add: be_at_def)

lemma be_at_skip [simp]:
  "m \<le> off \<Longrightarrow> be_at n off (be_bytes m w @ rest) = be_at n (off - m) rest"
  by (simp add: be_at_def)

lemma be_at_last [simp]: "LENGTH('a) \<le> 8 * n \<Longrightarrow> be_at n 0 (be_bytes n w) = (w :: 'a :: len word)"
  using be_at_0 [of n w "[]"] by simp

lemma drop_be_bytes [simp]: "m \<le> off \<Longrightarrow> drop off (be_bytes m w @ rest) = drop (off - m) rest"
  by simp

lemma read_op_header_bytes [simp]: "read_op_header (op_header_bytes h @ rest) = h"
  by (simp add: read_op_header_def op_header_bytes_def)

lemma read_cmd_bytes [simp]: "length (uc_setup c) = 8 \<Longrightarrow> read_cmd (cmd_bytes c @ rest) = c"
  by (simp add: read_cmd_def cmd_bytes_def)

lemma read_iso_bytes [simp]: "read_iso (iso_bytes p) = p"
  by (simp add: read_iso_def iso_bytes_def)

lemma read_isos_bytes [simp]: "read_isos (length ps) (concat (map iso_bytes ps) @ rest) = ps"
  by (induction ps) simp_all

lemma length_read_isos [simp]: "length (read_isos n bs) = n"
  by (induction n arbitrary: bs) simp_all

section \<open>What a client reads from a reply\<close>

text \<open>
  The client knows the direction of the transfer a reply belongs to: after the header come, for an
  IN transfer, as many bytes as the header's actual length says, and then one descriptor per
  isochronous packet the header counts.
\<close>

record client_reply =
  cr_seqnum :: u32
  cr_status :: u32
  cr_actual_length :: u32
  cr_data :: bytes
  cr_isos :: "iso_packet list"

definition client_read :: "bool \<Rightarrow> bytes \<Rightarrow> (client_reply \<times> bytes) option" where
  "client_read is_in bs =
     (if length bs < 48 \<or> be_at 4 0 bs \<noteq> kRetSubmit then None
      else
        (let data_len = (if is_in then unat (be_at 4 24 bs :: u32) else 0);
             packets = sint (be_at 4 32 bs :: u32);
             n = (if packets > 0 then nat packets else 0);
             body = drop 48 bs in
         if length body < data_len + 16 * n then None
         else Some (\<lparr>cr_seqnum = be_at 4 4 bs, cr_status = be_at 4 20 bs, cr_actual_length = be_at 4 24 bs,
                     cr_data = take data_len body,
                     cr_isos = read_isos n (drop data_len body)\<rparr>, drop (data_len + 16 * n) body)))"

text \<open>The bytes of a reply as the server puts them together.\<close>

definition reply_bytes :: "ret_submit \<Rightarrow> bytes \<Rightarrow> iso_packet list \<Rightarrow> bytes" where
  "reply_bytes r data isos = ret_bytes r @ data @ concat (map iso_bytes isos)"

lemma client_reads_reply:
  assumes data: "length data = (if is_in then unat (ur_actual_length r) else 0)"
    and isos: "length isos = (if sint (ur_packets r) > 0 then nat (sint (ur_packets r)) else 0)"
  shows "client_read is_in (reply_bytes r data isos @ rest)
    = Some (\<lparr>cr_seqnum = ur_seqnum r, cr_status = ur_status r, cr_actual_length = ur_actual_length r,
             cr_data = data, cr_isos = isos\<rparr>, rest)"
proof -
  have fields: "be_at 4 0 (ret_bytes r @ x) = kRetSubmit" "be_at 4 4 (ret_bytes r @ x) = ur_seqnum r"
    "be_at 4 20 (ret_bytes r @ x) = ur_status r" "be_at 4 24 (ret_bytes r @ x) = ur_actual_length r"
    "be_at 4 32 (ret_bytes r @ x) = ur_packets r" for x
    by (simp_all add: ret_bytes_def)
  show ?thesis
    using data isos
    by (simp add: client_read_def reply_bytes_def fields Let_def read_isos_bytes [of isos rest]
        del: read_isos_bytes flip: isos)
qed

section \<open>Names of ports\<close>

lemma busid_for_port_inject: "busid_for_port i = Inr b \<Longrightarrow> busid_for_port j = Inr b \<Longrightarrow> i = j"
  by (auto simp: busid_for_port_def split: if_splits)

lemma busid_fits: "busid_for_port i = Inr b \<Longrightarrow> length b = 3 \<and> list_all (\<lambda>c. code_of c \<noteq> 0) b"
proof -
  assume b: "busid_for_port i = Inr b"
  then have "i = 0 \<or> i = 1 \<or> i = 2 \<or> i = 3" by (auto simp: busid_for_port_def split: if_splits)
  with b show ?thesis
    by (elim disjE) (auto simp: busid_for_port_def to_string.simps code_of_def digit_char_values simp flip: One_nat_def)
qed

end
