(* ===== verification/UsbIpPort.thy ===== *)
theory UsbIpPort
  imports Complex_Main UsbIpWire Pacing
begin

text \<open>
  The state of a virtual port (\<open>VirtualPort::Impl\<close> of \<open>src/src/platform/win32/vds_usbip.cc\<close>) and
  the operations its threads share: the queues the pipe reader fills, the microphone's jitter
  buffer, the speaker gain, and the due times of isochronous replies. Times are nanoseconds of the
  steady clock; 0 is the empty time point.
\<close>

section \<open>State\<close>

definition kMicBytesPerMs :: nat where "kMicBytesPerMs = 192"
definition kMicPrimeBytes :: nat where "kMicPrimeBytes = 40 * kMicBytesPerMs"
definition kMicMaxBufferBytes :: nat where "kMicMaxBufferBytes = 120 * kMicBytesPerMs"

abbreviation (input) milliseconds :: "nat \<Rightarrow> nat" where "milliseconds n \<equiv> n * 1000000"

text \<open>The pipe reader thread: not started, in its loop, or returned (and still joinable).\<close>

datatype reader_state = Reader_not_started | Reader_running | Reader_exited

text \<open>A reply handed to the pacer: the socket of its client and the bytes.\<close>

type_synonym paced_reply = "nat \<times> bytes"

record vport =
  vp_profile :: nat
  vp_port_index :: nat
  vp_stop_requested :: bool
  vp_attached :: bool
  vp_registered :: bool
  vp_session_active :: bool
  vp_client_socket :: "nat option"
  vp_reader :: reader_state
  vp_hid_in_queue :: "frame list"
  vp_feature_reply_queue :: "frame list"
  vp_mic_ring_buffer :: bytes
  vp_mic_primed :: bool
  vp_paced_replies :: "paced_reply multimap"
  vp_iso_out_next_due :: nat
  vp_iso_in_next_due :: nat
  vp_speaker_gain_q15 :: int
  vp_fu_volume_db256 :: "16 word"
  vp_fu_muted :: bool

definition new_port :: "nat \<Rightarrow> nat \<Rightarrow> vport" where
  "new_port profile port_index =
     \<lparr>vp_profile = profile, vp_port_index = port_index, vp_stop_requested = False, vp_attached = False,
      vp_registered = False, vp_session_active = False, vp_client_socket = None,
      vp_reader = Reader_not_started, vp_hid_in_queue = [], vp_feature_reply_queue = [],
      vp_mic_ring_buffer = [], vp_mic_primed = False, vp_paced_replies = [],
      vp_iso_out_next_due = 0, vp_iso_in_next_due = 0, vp_speaker_gain_q15 = 32768,
      vp_fu_volume_db256 = 0, vp_fu_muted = False\<rparr>"

section \<open>The pipe reader\<close>

definition VDS_FRAME_USB_HID_OUT :: u16 where "VDS_FRAME_USB_HID_OUT = 1"
definition VDS_FRAME_USB_FEATURE_GET :: u16 where "VDS_FRAME_USB_FEATURE_GET = 2"
definition VDS_FRAME_USB_FEATURE_SET :: u16 where "VDS_FRAME_USB_FEATURE_SET = 3"
definition VDS_FRAME_USB_AUDIO_OUT :: u16 where "VDS_FRAME_USB_AUDIO_OUT = 4"
definition VDS_FRAME_USB_HID_IN :: u16 where "VDS_FRAME_USB_HID_IN = 5"
definition VDS_FRAME_USB_FEATURE_REPLY :: u16 where "VDS_FRAME_USB_FEATURE_REPLY = 6"
definition VDS_FRAME_USB_INTERFACE :: u16 where "VDS_FRAME_USB_INTERFACE = 7"
definition VDS_FRAME_USB_AUDIO_IN :: u16 where "VDS_FRAME_USB_AUDIO_IN = 10"

lemmas frame_types = VDS_FRAME_USB_HID_OUT_def VDS_FRAME_USB_FEATURE_GET_def VDS_FRAME_USB_FEATURE_SET_def
  VDS_FRAME_USB_AUDIO_OUT_def VDS_FRAME_USB_HID_IN_def VDS_FRAME_USB_FEATURE_REPLY_def
  VDS_FRAME_USB_INTERFACE_def VDS_FRAME_USB_AUDIO_IN_def

text \<open>The newest bytes up to the limit of the microphone's buffer.\<close>

definition keep_newest :: "nat \<Rightarrow> bytes \<Rightarrow> bytes" where
  "keep_newest n bs = (if length bs > n then drop (length bs - n) bs else bs)"

lemma length_keep_newest: "length (keep_newest n bs) \<le> n"
  by (simp add: keep_newest_def)

definition reader_frame :: "frame \<Rightarrow> vport \<Rightarrow> vport" where
  "reader_frame f p =
     (if fr_type f = VDS_FRAME_USB_HID_IN then p\<lparr>vp_hid_in_queue := [f]\<rparr>
      else if fr_type f = VDS_FRAME_USB_FEATURE_REPLY then
        p\<lparr>vp_feature_reply_queue := vp_feature_reply_queue p @ [f]\<rparr>
      else if fr_type f = VDS_FRAME_USB_AUDIO_IN then
        p\<lparr>vp_mic_ring_buffer := keep_newest kMicMaxBufferBytes (vp_mic_ring_buffer p @ fr_payload f)\<rparr>
      else p)"

text \<open>
  One round of \<open>pipe_reader_loop\<close>: the frame that was read, or \<open>None\<close> when the read failed. A
  round of a reader that is not running does nothing.
\<close>

definition pipe_reader_round :: "frame option \<Rightarrow> vport \<Rightarrow> vport" where
  "pipe_reader_round read p =
     (if vp_reader p \<noteq> Reader_running then p
      else
        (case read of
           None \<Rightarrow> p\<lparr>vp_reader := Reader_exited\<rparr>
         | Some f \<Rightarrow> if vp_stop_requested p then p\<lparr>vp_reader := Reader_exited\<rparr> else reader_frame f p))"

section \<open>Waiting for a frame\<close>

text \<open>
  The waiting thread sleeps on a condition variable while the reader works; \<open>arrivals\<close> is what the
  reader's rounds read until the waiting thread holds the lock again. When the queue is empty then,
  the wait has timed out or the port is stopping.
\<close>

definition during_wait :: "frame option list \<Rightarrow> vport \<Rightarrow> vport" where
  "during_wait arrivals p = fold pipe_reader_round arrivals p"

definition wait_for_hid_in_frame :: "frame option list \<Rightarrow> vport \<Rightarrow> frame option \<times> vport" where
  "wait_for_hid_in_frame arrivals p =
     (let p' = during_wait arrivals p in
      case vp_hid_in_queue p' of
        [] \<Rightarrow> (None, p')
      | f # rest \<Rightarrow> (Some f, p'\<lparr>vp_hid_in_queue := rest\<rparr>))"

definition wait_for_feature_reply :: "frame option list \<Rightarrow> vport \<Rightarrow> frame option \<times> vport" where
  "wait_for_feature_reply arrivals p =
     (let p' = during_wait arrivals p in
      case vp_feature_reply_queue p' of
        [] \<Rightarrow> (None, p')
      | f # rest \<Rightarrow> (Some f, p'\<lparr>vp_feature_reply_queue := rest\<rparr>))"

section \<open>The microphone's jitter buffer\<close>

definition flush_mic :: "vport \<Rightarrow> vport" where
  "flush_mic p = p\<lparr>vp_mic_ring_buffer := [], vp_mic_primed := False\<rparr>"

definition take_mic_bytes :: "nat \<Rightarrow> vport \<Rightarrow> bytes \<times> vport" where
  "take_mic_bytes n p =
     (let ring = vp_mic_ring_buffer p in
      if \<not> vp_mic_primed p \<and> length ring < kMicPrimeBytes then (replicate n 0, p)
      else
        (let p' = p\<lparr>vp_mic_primed := True\<rparr> in
         if length ring \<ge> n then (take n ring, p'\<lparr>vp_mic_ring_buffer := drop n ring\<rparr>)
         else (ring @ replicate (n - length ring) 0,
               p'\<lparr>vp_mic_ring_buffer := [], vp_mic_primed := False\<rparr>)))"

section \<open>The speaker gain\<close>

text \<open>
  \<open>pow_gain v\<close> stands for the double \<open>std::pow(10.0, v / 256.0 / 20.0)\<close>, a rational number; the
  conversion to \<open>int\<close> of a number that is not negative is its floor.
\<close>

definition update_speaker_gain :: "(int \<Rightarrow> rat) \<Rightarrow> vport \<Rightarrow> vport" where
  "update_speaker_gain pow_gain p =
     (if vp_fu_muted p then p\<lparr>vp_speaker_gain_q15 := 0\<rparr>
      else
        (let l = pow_gain (sint (vp_fu_volume_db256 p)); l = (if l > 1 then 1 else l); l = (if l < 0 then 0 else l) in
         p\<lparr>vp_speaker_gain_q15 := \<lfloor>l * 32768 + 1 / 2\<rfloor>\<rparr>))"

text \<open>One sample of two bytes, little-endian, scaled by the gain and clamped.\<close>

definition scaled_value :: "int \<Rightarrow> int \<Rightarrow> int" where
  "scaled_value gain s =
     (let scaled = s * gain div 32768 in
      if scaled > 32767 then 32767 else if scaled < -32768 then -32768 else scaled)"

definition scale_sample :: "int \<Rightarrow> u8 \<Rightarrow> u8 \<Rightarrow> bytes" where
  "scale_sample gain lo hi =
     (let clamped = word_of_int (scaled_value gain (sint (le_value [lo, hi] :: 16 word))) :: 16 word in
      le_bytes 2 clamped)"

text \<open>Frames of four 16-bit channels; an incomplete frame at the end is left as it is.\<close>

fun gain_loop :: "int \<Rightarrow> bytes \<Rightarrow> bytes" where
  "gain_loop g (a # b # c # d # h1 # h2 # h3 # h4 # rest) =
     scale_sample g a b @ scale_sample g c d @ [h1, h2, h3, h4] @ gain_loop g rest"
| "gain_loop g bs = bs"

definition apply_speaker_gain :: "int \<Rightarrow> bytes \<Rightarrow> bytes" where
  "apply_speaker_gain g pcm = (if g \<noteq> 32768 then gain_loop g pcm else pcm)"

section \<open>Due times of isochronous replies\<close>

definition next_due :: "nat \<Rightarrow> nat \<Rightarrow> nat" where
  "next_due anchor now = (if anchor = 0 \<or> anchor + milliseconds 250 < now then now else anchor)"

definition iso_anchor :: "bool \<Rightarrow> vport \<Rightarrow> nat" where
  "iso_anchor out p = (if out then vp_iso_out_next_due p else vp_iso_in_next_due p)"

definition set_iso_anchor :: "bool \<Rightarrow> nat \<Rightarrow> vport \<Rightarrow> vport" where
  "set_iso_anchor out t p = (if out then p\<lparr>vp_iso_out_next_due := t\<rparr> else p\<lparr>vp_iso_in_next_due := t\<rparr>)"

text \<open>Hand a reply for \<open>packets\<close> packets to the pacer, for the direction \<open>out\<close> or in.\<close>

definition enqueue_paced :: "bool \<Rightarrow> nat \<Rightarrow> nat \<Rightarrow> paced_reply \<Rightarrow> vport \<Rightarrow> vport" where
  "enqueue_paced out packets now reply p =
     (let due = next_due (iso_anchor out p) now; p' = set_iso_anchor out (due + milliseconds packets) p in
      p'\<lparr>vp_paced_replies := multimap_emplace due reply (vp_paced_replies p')\<rparr>)"

definition iso_pacer_round :: "nat \<Rightarrow> vport \<Rightarrow> paced_reply option \<times> vport" where
  "iso_pacer_round now p =
     (if vp_stop_requested p then (None, p)
      else
        (case mm.round_at now (vp_paced_replies p) of
           (None, _) \<Rightarrow> (None, p)
         | (Some (_, reply), q) \<Rightarrow> (Some reply, p\<lparr>vp_paced_replies := q\<rparr>)))"

section \<open>Sessions\<close>

definition begin_import_session :: "nat \<Rightarrow> vport \<Rightarrow> bool \<times> vport" where
  "begin_import_session client p =
     (if vp_session_active p \<or> vp_stop_requested p then (False, p)
      else (True, p\<lparr>vp_session_active := True, vp_client_socket := Some client\<rparr>))"

definition finish_import_session :: "vport \<Rightarrow> vport" where
  "finish_import_session p = p\<lparr>vp_client_socket := None, vp_session_active := False\<rparr>"

text \<open>
  \<open>cleanup_connection\<close>: the paced replies are dropped and the pipe is disconnected, which makes the
  pending read of the reader fail.
\<close>

definition cleanup_connection :: "vport \<Rightarrow> vport" where
  "cleanup_connection p =
     (let p' = p\<lparr>vp_attached := False, vp_paced_replies := [], vp_iso_out_next_due := 0, vp_iso_in_next_due := 0\<rparr> in
      pipe_reader_round None p')"

text \<open>The reader is started when its thread object is not joinable, which is before the first start.\<close>

definition start_reader :: "vport \<Rightarrow> vport" where
  "start_reader p = (if vp_reader p = Reader_not_started then p\<lparr>vp_reader := Reader_running\<rparr> else p)"

definition stop_port :: "vport \<Rightarrow> vport" where
  "stop_port p =
     (if vp_stop_requested p then p
      else p\<lparr>vp_stop_requested := True, vp_registered := False, vp_client_socket := None\<rparr>)"

section \<open>The newest input report\<close>

definition hid_frames :: "frame option list \<Rightarrow> frame list" where
  "hid_frames reads = filter (\<lambda>f. fr_type f = VDS_FRAME_USB_HID_IN) (List.map_filter (\<lambda>r. r) reads)"

definition reply_frames :: "frame option list \<Rightarrow> frame list" where
  "reply_frames reads = filter (\<lambda>f. fr_type f = VDS_FRAME_USB_FEATURE_REPLY) (List.map_filter (\<lambda>r. r) reads)"

definition reader_works :: "vport \<Rightarrow> bool" where
  "reader_works p \<longleftrightarrow> vp_reader p = Reader_running \<and> \<not> vp_stop_requested p"

lemma during_wait_queues:
  assumes "reader_works p" "None \<notin> set reads"
  shows "vp_hid_in_queue (during_wait reads p) = (if hid_frames reads = [] then vp_hid_in_queue p else [last (hid_frames reads)])
    \<and> vp_feature_reply_queue (during_wait reads p) = vp_feature_reply_queue p @ reply_frames reads"
  using assms
proof (induction reads arbitrary: p)
  case (Cons r reads)
  then obtain f where r: "r = Some f" by (cases r) auto
  have works: "reader_works (pipe_reader_round r p)"
    using Cons.prems by (simp add: reader_works_def pipe_reader_round_def reader_frame_def r)
  have distinct_types: "VDS_FRAME_USB_HID_IN \<noteq> VDS_FRAME_USB_FEATURE_REPLY" by (simp add: frame_types)
  have "during_wait (r # reads) p = during_wait reads (pipe_reader_round r p)" by (simp add: during_wait_def)
  with Cons.IH [OF works] Cons.prems distinct_types show ?case
    by (simp add: r hid_frames_def reply_frames_def pipe_reader_round_def reader_frame_def
        reader_works_def)
qed (simp add: during_wait_def hid_frames_def reply_frames_def)

text \<open>
  An input transfer returns the newest report: the last one that arrived while it waited, or
  else the one that was kept; it is removed, nothing older is left behind, and the transfer is
  empty only when there is no report. Feature replies, in contrast, are returned in the order they
  arrived.
\<close>

theorem newest_report_first:
  assumes "reader_works p" "None \<notin> set reads" "length (vp_hid_in_queue p) \<le> 1"
  shows "(let known = vp_hid_in_queue p @ hid_frames reads; (r, q) = wait_for_hid_in_frame reads p in
      r = (if known = [] then None else Some (last known)) \<and> vp_hid_in_queue q = [])
    \<and> (let known = vp_feature_reply_queue p @ reply_frames reads; (r, q) = wait_for_feature_reply reads p in
      r = (if known = [] then None else Some (hd known)) \<and> vp_feature_reply_queue q = tl known)"
proof -
  note queues = during_wait_queues [OF assms(1,2)]
  from assms(3) consider "vp_hid_in_queue p = []" | f where "vp_hid_in_queue p = [f]"
    by (cases "vp_hid_in_queue p") auto
  then have "let known = vp_hid_in_queue p @ hid_frames reads; (r, q) = wait_for_hid_in_frame reads p in
      r = (if known = [] then None else Some (last known)) \<and> vp_hid_in_queue q = []"
    by cases (use queues in \<open>simp_all add: wait_for_hid_in_frame_def Let_def\<close>)
  moreover have "let known = vp_feature_reply_queue p @ reply_frames reads; (r, q) = wait_for_feature_reply reads p in
      r = (if known = [] then None else Some (hd known)) \<and> vp_feature_reply_queue q = tl known"
    using queues by (auto simp: wait_for_feature_reply_def Let_def split: list.splits)
  ultimately show ?thesis ..
qed

theorem newest_report_first_witness:
  "fst (wait_for_hid_in_frame [Some \<lparr>fr_type = 5, fr_payload = [2]\<rparr>, Some \<lparr>fr_type = 5, fr_payload = [3]\<rparr>]
      ((new_port 0 0)\<lparr>vp_reader := Reader_running\<rparr>)) = Some \<lparr>fr_type = 5, fr_payload = [3]\<rparr>"
proof -
  let ?p = "(new_port 0 0)\<lparr>vp_reader := Reader_running\<rparr>"
  let ?reads = "[Some \<lparr>fr_type = 5, fr_payload = [2]\<rparr>, Some \<lparr>fr_type = 5, fr_payload = [3 :: u8]\<rparr>]"
  have known: "vp_hid_in_queue ?p @ hid_frames ?reads = [\<lparr>fr_type = 5, fr_payload = [2]\<rparr>, \<lparr>fr_type = 5, fr_payload = [3]\<rparr>]"
    by (simp add: new_port_def hid_frames_def frame_types)
  have "reader_works ?p" "None \<notin> set ?reads" "length (vp_hid_in_queue ?p) \<le> 1"
    by (simp_all add: reader_works_def new_port_def)
  from newest_report_first [OF this] show ?thesis
    unfolding Let_def known by (simp split: prod.splits)
qed

section \<open>The microphone's stream\<close>

text \<open>What happens to the buffer: bytes from the daemon, transfers of the host, flushes.\<close>

datatype mic_event = Mic_frame bytes | Mic_transfer nat

fun mic_run :: "mic_event list \<Rightarrow> vport \<Rightarrow> bytes \<times> vport" where
  "mic_run [] p = ([], p)"
| "mic_run (Mic_frame bs # events) p =
     mic_run events (reader_frame \<lparr>fr_type = VDS_FRAME_USB_AUDIO_IN, fr_payload = bs\<rparr> p)"
| "mic_run (Mic_transfer n # events) p =
     (let (bs, q) = take_mic_bytes n p; (rest, r) = mic_run events q in (bs @ rest, r))"

definition mic_input :: "mic_event list \<Rightarrow> bytes" where
  "mic_input events = concat (map (\<lambda>e. case e of Mic_frame bs \<Rightarrow> bs | Mic_transfer _ \<Rightarrow> []) events)"

text \<open>The fill level, as long as it neither overflows nor runs dry.\<close>

fun mic_steady :: "mic_event list \<Rightarrow> nat \<Rightarrow> bool" where
  "mic_steady [] level \<longleftrightarrow> True"
| "mic_steady (Mic_frame bs # events) level \<longleftrightarrow>
     level + length bs \<le> kMicMaxBufferBytes \<and> mic_steady events (level + length bs)"
| "mic_steady (Mic_transfer n # events) level \<longleftrightarrow> n \<le> level \<and> mic_steady events (level - n)"

lemma mic_steady_stream:
  assumes "vp_mic_primed p" "mic_steady events (length (vp_mic_ring_buffer p))"
  shows "fst (mic_run events p) @ vp_mic_ring_buffer (snd (mic_run events p)) = vp_mic_ring_buffer p @ mic_input events
    \<and> vp_mic_primed (snd (mic_run events p))"
  using assms
proof (induction events p rule: mic_run.induct)
  case (2 bs events p)
  let ?q = "reader_frame \<lparr>fr_type = VDS_FRAME_USB_AUDIO_IN, fr_payload = bs\<rparr> p"
  have q: "vp_mic_ring_buffer ?q = vp_mic_ring_buffer p @ bs" "vp_mic_primed ?q"
    using "2.prems" by (simp_all add: reader_frame_def keep_newest_def frame_types)
  with "2.IH" "2.prems" show ?case by (simp add: mic_input_def)
next
  case (3 n events p)
  let ?q = "p\<lparr>vp_mic_primed := True, vp_mic_ring_buffer := drop n (vp_mic_ring_buffer p)\<rparr>"
  have step: "take_mic_bytes n p = (take n (vp_mic_ring_buffer p), ?q)"
    using "3.prems" by (simp add: take_mic_bytes_def Let_def)
  have ring: "vp_mic_ring_buffer ?q = drop n (vp_mic_ring_buffer p)" by simp
  obtain out r where r: "mic_run events ?q = (out, r)" by (rule prod.exhaust)
  have "fst (mic_run events ?q) @ vp_mic_ring_buffer (snd (mic_run events ?q)) = vp_mic_ring_buffer ?q @ mic_input events
      \<and> vp_mic_primed (snd (mic_run events ?q))"
    using "3.prems" by (intro "3.IH" [OF step [symmetric] refl]) simp_all
  then have IH: "out @ vp_mic_ring_buffer r = drop n (vp_mic_ring_buffer p) @ mic_input events" "vp_mic_primed r"
    by (simp_all only: r ring fst_conv snd_conv)
  have run: "mic_run (Mic_transfer n # events) p = (take n (vp_mic_ring_buffer p) @ out, r)"
    by (simp only: mic_run.simps step r Let_def prod.case)
  have "mic_input (Mic_transfer n # events) = mic_input events" by (simp add: mic_input_def)
  moreover have "take n (vp_mic_ring_buffer p) @ drop n (vp_mic_ring_buffer p) @ xs = vp_mic_ring_buffer p @ xs" for xs
    by (metis append_assoc append_take_drop_id)
  ultimately show ?case unfolding run by (simp add: IH)
qed (simp add: mic_input_def)

lemma mic_frame_ring:
  "vp_mic_ring_buffer (reader_frame \<lparr>fr_type = VDS_FRAME_USB_AUDIO_IN, fr_payload = bs\<rparr> p)
    = keep_newest kMicMaxBufferBytes (vp_mic_ring_buffer p @ bs)"
  by (simp add: reader_frame_def frame_types)

lemma mic_run_bounded:
  "length (vp_mic_ring_buffer p) \<le> kMicMaxBufferBytes \<Longrightarrow>
    length (vp_mic_ring_buffer (snd (mic_run events p))) \<le> kMicMaxBufferBytes"
proof (induction events p rule: mic_run.induct)
  case (2 bs events p)
  then show ?case by (simp add: mic_frame_ring length_keep_newest)
next
  case (3 n events p)
  obtain bs q where q: "take_mic_bytes n p = (bs, q)" by (rule prod.exhaust)
  then have "length (vp_mic_ring_buffer q) \<le> kMicMaxBufferBytes"
    using "3.prems" by (auto simp: take_mic_bytes_def Let_def split: if_splits)
  with "3.IH" [OF q [symmetric] refl] q show ?case by (auto split: prod.splits)
qed simp

text \<open>
  The microphone's buffer is a delay line: once it has been primed with 40 ms, and as long as
  it neither overflows nor runs dry, the host gets exactly the bytes that arrived, in order and
  without gaps; before that, and after running dry, it gets silence, always as many bytes as it
  asked for, and never more than 120 ms are kept.
\<close>

theorem mic_buffer_delays:
  "(vp_mic_primed p \<and> mic_steady events (length (vp_mic_ring_buffer p)) \<longrightarrow>
      fst (mic_run events p) @ vp_mic_ring_buffer (snd (mic_run events p)) = vp_mic_ring_buffer p @ mic_input events)
   \<and> (\<not> vp_mic_primed p \<and> length (vp_mic_ring_buffer p) < kMicPrimeBytes \<longrightarrow>
        take_mic_bytes n p = (replicate n 0, p))
   \<and> length (fst (take_mic_bytes n p)) = n
   \<and> (length (vp_mic_ring_buffer p) < n \<longrightarrow> \<not> vp_mic_primed (snd (take_mic_bytes n p)))
   \<and> length (vp_mic_ring_buffer (snd (mic_run (Mic_frame bs # events) p))) \<le> kMicMaxBufferBytes"
proof -
  have "length (vp_mic_ring_buffer (snd (mic_run (Mic_frame bs # events) p))) \<le> kMicMaxBufferBytes"
    by (simp, rule mic_run_bounded) (simp add: mic_frame_ring length_keep_newest)
  moreover have "\<not> vp_mic_primed (snd (take_mic_bytes n p))" if "length (vp_mic_ring_buffer p) < n"
    using that by (simp add: take_mic_bytes_def Let_def)
  moreover have "length (fst (take_mic_bytes n p)) = n"
    by (simp add: take_mic_bytes_def Let_def)
  moreover have "take_mic_bytes n p = (replicate n 0, p)"
    if "\<not> vp_mic_primed p" "length (vp_mic_ring_buffer p) < kMicPrimeBytes"
    using that by (simp add: take_mic_bytes_def Let_def)
  ultimately show ?thesis using mic_steady_stream by blast
qed

theorem mic_buffer_delays_witness:
  "fst (mic_run [Mic_frame [7, 8], Mic_transfer 2] ((new_port 0 0)\<lparr>vp_mic_primed := True, vp_mic_ring_buffer := [1, 2]\<rparr>))
     = [1, 2]
   \<and> take_mic_bytes 3 (new_port 0 0) = (replicate 3 0, new_port 0 0)"
proof
  let ?p = "(new_port 0 0)\<lparr>vp_mic_primed := True, vp_mic_ring_buffer := [1, 2]\<rparr>"
  let ?events = "[Mic_frame [7, 8], Mic_transfer 2]"
  let ?run = "mic_run ?events ?p"
  have "mic_steady ?events (length (vp_mic_ring_buffer ?p))"
    by (simp add: kMicMaxBufferBytes_def kMicBytesPerMs_def)
  then have stream: "fst ?run @ vp_mic_ring_buffer (snd ?run) = [1, 2, 7, 8]"
    using mic_buffer_delays [of ?p ?events 0 "[]"] by (simp add: mic_input_def)
  have "length (fst ?run) = 2" by (simp add: take_mic_bytes_def Let_def split: prod.splits)
  with stream show "fst ?run = [1, 2]" by (auto simp: append_eq_Cons_conv)
  show "take_mic_bytes 3 (new_port 0 0) = (replicate 3 0, new_port 0 0)"
    using mic_buffer_delays [of "new_port 0 0" "[]" 3 "[]"]
    by (simp add: new_port_def kMicPrimeBytes_def kMicBytesPerMs_def)
qed

section \<open>The pace of isochronous transfers\<close>

text \<open>The replies of one direction, as they are handed to the pacer: packets, time and reply.\<close>

fun enqueue_all :: "bool \<Rightarrow> (nat \<times> nat \<times> paced_reply) list \<Rightarrow> vport \<Rightarrow> nat list \<times> vport" where
  "enqueue_all out [] p = ([], p)"
| "enqueue_all out ((packets, now, reply) # rest) p =
     (let (dues, q) = enqueue_all out rest (enqueue_paced out packets now reply p) in
      (next_due (iso_anchor out p) now # dues, q))"

lemma enqueue_all_Cons:
  "fst (enqueue_all out ((packets, now, reply) # rest) p)
    = next_due (iso_anchor out p) now # fst (enqueue_all out rest (enqueue_paced out packets now reply p))"
  "snd (enqueue_all out ((packets, now, reply) # rest) p)
    = snd (enqueue_all out rest (enqueue_paced out packets now reply p))"
  by (simp_all split: prod.splits)

declare enqueue_all.simps(2) [simp del]

lemma next_due_anchor: "anchor \<le> next_due anchor now" "now \<le> next_due anchor now + milliseconds 250"
  by (auto simp: next_due_def)

lemma enqueue_paced_anchor:
  "iso_anchor out (enqueue_paced out n now r p) = next_due (iso_anchor out p) now + milliseconds n"
  by (simp add: enqueue_paced_def Let_def iso_anchor_def set_iso_anchor_def)

lemma enqueue_paced_replies:
  "vp_paced_replies (enqueue_paced out n now r p)
    = multimap_emplace (next_due (iso_anchor out p) now) r (vp_paced_replies p)"
  by (simp add: enqueue_paced_def Let_def set_iso_anchor_def)

lemma length_enqueue_all: "length (fst (enqueue_all out xs p)) = length xs"
  by (induction out xs p rule: enqueue_all.induct) (simp_all add: enqueue_all_Cons)

lemma enqueue_all_anchor:
  "j < length xs \<Longrightarrow>
    iso_anchor out p + milliseconds (sum_list (map fst (take j xs))) \<le> fst (enqueue_all out xs p) ! j"
proof (induction out xs p arbitrary: j rule: enqueue_all.induct)
  case (2 out packets now reply rest p)
  note due = next_due_anchor(1) [of "iso_anchor out p" now]
  show ?case
  proof (cases j)
    case (Suc i)
    with "2.prems" "2.IH" [of i] due show ?thesis
      by (simp add: enqueue_all_Cons enqueue_paced_anchor algebra_simps)
  qed (simp add: due enqueue_all_Cons)
qed simp

lemma enqueue_all_rate:
  assumes "i < j" "j < length xs"
  shows "fst (enqueue_all out xs p) ! i + milliseconds (sum_list (map fst (take (j - i) (drop i xs))))
    \<le> fst (enqueue_all out xs p) ! j"
  using assms
proof (induction out xs p arbitrary: i j rule: enqueue_all.induct)
  case (2 out packets now reply rest p)
  from "2.prems" obtain k where j: "j = Suc k" by (cases j) simp_all
  show ?case
  proof (cases i)
    case 0
    have "iso_anchor out (enqueue_paced out packets now reply p) + milliseconds (sum_list (map fst (take k rest)))
        \<le> fst (enqueue_all out rest (enqueue_paced out packets now reply p)) ! k"
      using "2.prems" j by (intro enqueue_all_anchor) simp
    with 0 j show ?thesis by (simp add: enqueue_all_Cons enqueue_paced_anchor algebra_simps)
  next
    case (Suc i')
    with "2.IH" [of i' k] "2.prems" j show ?thesis by (simp add: enqueue_all_Cons)
  qed
qed simp

lemma enqueue_all_recent:
  "j < length xs \<Longrightarrow> fst (snd (xs ! j)) \<le> fst (enqueue_all out xs p) ! j + milliseconds 250"
proof (induction out xs p arbitrary: j rule: enqueue_all.induct)
  case (2 out packets now reply rest p)
  then show ?case
    using next_due_anchor(2) [where anchor = "iso_anchor out p" and now = now]
    by (cases j) (simp_all add: enqueue_all_Cons)
qed simp

lemma mset_enqueue_all:
  "mset (vp_paced_replies (snd (enqueue_all out xs p)))
    = mset (vp_paced_replies p) + mset (zip (fst (enqueue_all out xs p)) (map (snd \<circ> snd) xs))"
  by (induction out xs p rule: enqueue_all.induct)
    (simp_all add: enqueue_all_Cons enqueue_paced_replies mm.mset_emplace)

text \<open>
  Isochronous transfers complete in real time: between the due times of two replies of the
  same direction there is at least a millisecond for every packet of the transfers between them,
  however fast the host submits, and a due time lies at most 250 ms before the submission, so a
  paused stream does not catch up more than that. The pacer's queue holds each reply at its due
  time.
\<close>

theorem transfers_paced_in_real_time:
  assumes "i < j" "j < length xs"
  shows "let (dues, q) = enqueue_all out xs p in
    dues ! i + milliseconds (sum_list (map fst (take (j - i) (drop i xs)))) \<le> dues ! j
    \<and> fst (snd (xs ! j)) \<le> dues ! j + milliseconds 250
    \<and> mset (vp_paced_replies q) = mset (vp_paced_replies p) + mset (zip dues (map (snd \<circ> snd) xs))"
proof -
  obtain dues q where all: "enqueue_all out xs p = (dues, q)" by (rule prod.exhaust)
  from enqueue_all_rate [OF assms, of out p] enqueue_all_recent [OF assms(2), of out p] mset_enqueue_all [of out xs p]
  show ?thesis by (simp add: all)
qed

theorem transfers_paced_in_real_time_witness:
  "fst (enqueue_all True [(10, 5000, (1, [])), (10, 5001, (1, [])), (10, 5002, (1, []))] (new_port 0 0)) ! 0
      + milliseconds 20
     \<le> fst (enqueue_all True [(10, 5000, (1, [])), (10, 5001, (1, [])), (10, 5002, (1, []))] (new_port 0 0)) ! 2"
  using transfers_paced_in_real_time [of 0 2 "[(10, 5000, (1, [])), (10, 5001, (1, [])), (10, 5002, (1, []))]"
      True "new_port 0 0"]
  by (simp add: numeral_2_eq_2 split: prod.splits)

end
