(* ===== verification/UsbIpSubmit.thy ===== *)
theory UsbIpSubmit
  imports UsbIpPort
begin

text \<open>
  \<open>handle_cmd_submit\<close> of \<open>src/src/platform/win32/vds_usbip.cc\<close>: the control requests of endpoint 0,
  the HID and audio endpoints, the reply and how it is sent or paced.
\<close>

section \<open>The environment of a call\<close>

text \<open>
  What one call meets: the reading of the clock, the rounds of the pipe reader while the call
  waits, whether a write to the daemon's pipe succeeds, how many of its \<open>send_exact\<close> calls
  succeed, and the double that \<open>std::pow\<close> gives for a volume.
\<close>

record submit_env =
  se_now :: nat
  se_arrivals :: "frame option list"
  se_pipe_ok :: bool
  se_sends :: nat
  se_pow_gain :: "int \<Rightarrow> rat"

text \<open>
  What an endpoint answers: the status (0 or \<open>-EPIPE\<close>), the data, the number of packets put into
  the reply, and the frames written to the daemon.
\<close>

record answer =
  an_status :: u32
  an_data :: bytes
  an_packets :: u32
  an_frames :: "frame list"

abbreviation (input) EPIPE_status :: u32 where "EPIPE_status \<equiv> - 32"

definition answer_data :: "bytes \<Rightarrow> answer" where
  "answer_data bs = \<lparr>an_status = 0, an_data = bs, an_packets = 0, an_frames = []\<rparr>"

definition answer_stall :: answer where
  "answer_stall = \<lparr>an_status = EPIPE_status, an_data = [], an_packets = 0, an_frames = []\<rparr>"

text \<open>An exception leaves the state as it is when it is thrown.\<close>

type_synonym endpoint_result = "answer result \<times> vport"

definition write_daemon_frame :: "submit_env \<Rightarrow> u16 \<Rightarrow> bytes \<Rightarrow> frame list result" where
  "write_daemon_frame env type payload =
     (case frame_bytes type payload of
        Inl e \<Rightarrow> Inl e
      | Inr _ \<Rightarrow>
          if se_pipe_ok env then Inr [\<lparr>fr_type = type, fr_payload = payload\<rparr>]
          else Inl (Runtime_error ''usbip-bridge write failed''))"

definition forward_frame :: "submit_env \<Rightarrow> u16 \<Rightarrow> bytes \<Rightarrow> u32 \<Rightarrow> vport \<Rightarrow> endpoint_result" where
  "forward_frame env type payload packets p =
     (bind_result (write_daemon_frame env type payload)
        (\<lambda>frames. Inr \<lparr>an_status = 0, an_data = [], an_packets = packets, an_frames = frames\<rparr>), p)"

section \<open>Control requests\<close>

record setup_packet =
  su_request_type :: u8
  su_request :: u8
  su_value :: u16
  su_index :: u16
  su_length :: u16

definition read_setup :: "bytes \<Rightarrow> setup_packet" where
  "read_setup s =
     \<lparr>su_request_type = s ! 0, su_request = s ! 1, su_value = le_value [s ! 2, s ! 3],
      su_index = le_value [s ! 4, s ! 5], su_length = le_value [s ! 6, s ! 7]\<rparr>"

definition device_to_host :: "setup_packet \<Rightarrow> bool" where
  "device_to_host su \<longleftrightarrow> su_request_type su AND 0x80 \<noteq> 0"

definition request_kind :: "setup_packet \<Rightarrow> u8" where
  "request_kind su = su_request_type su AND 0x60"

definition value_high :: "setup_packet \<Rightarrow> u8" where
  "value_high su = ucast (drop_bit 8 (su_value su))"

definition value_low :: "setup_packet \<Rightarrow> u8" where
  "value_low su = ucast (su_value su)"

text \<open>GET_DESCRIPTOR; an unknown type or string index is answered with no data.\<close>

definition string_descriptor :: "nat \<Rightarrow> u8 \<Rightarrow> bytes" where
  "string_descriptor profile i =
     (if i = 0 then build_langid_descriptor
      else if i = 1 then build_string_descriptor VDS_USB_MANUFACTURER_STRING
      else if i = 2 then
        build_string_descriptor (if profile = VDS_PROFILE_DSE then VDS_DSE_USB_PRODUCT_STRING
                                 else VDS_DS5_USB_PRODUCT_STRING)
      else [])"

definition get_descriptor :: "nat \<Rightarrow> setup_packet \<Rightarrow> bytes" where
  "get_descriptor profile su =
     (let d = descriptors_for_profile profile; t = value_high su in
      take (unat (su_length su))
        (if t = 0x01 then pd_device d
         else if t = 0x02 then pd_config d
         else if t = 0x21 then pd_hid d
         else if t = 0x22 then pd_hid_report d
         else if t = 0x03 then string_descriptor profile (value_low su)
         else []))"

text \<open>
  SET_INTERFACE: the event frame for the daemon; the microphone's buffer is flushed before it is
  written.
\<close>

definition interface_event :: "setup_packet \<Rightarrow> bytes" where
  "interface_event su =
     [ucast (su_index su), ucast (su_value su),
      (if su_index su = VDS_USB_AUDIO_OUT_INTERFACE then 1
       else if su_index su = VDS_USB_AUDIO_IN_INTERFACE then 2 else 0), 0]"

definition set_interface :: "submit_env \<Rightarrow> setup_packet \<Rightarrow> vport \<Rightarrow> endpoint_result" where
  "set_interface env su p =
     forward_frame env VDS_FRAME_USB_INTERFACE (interface_event su) 0
       (if su_index su = VDS_USB_AUDIO_IN_INTERFACE then flush_mic p else p)"

text \<open>HID GET_REPORT: ask the daemon and wait for its reply, at most 500 ms.\<close>

definition get_report :: "submit_env \<Rightarrow> setup_packet \<Rightarrow> vport \<Rightarrow> endpoint_result" where
  "get_report env su p =
     (case write_daemon_frame env VDS_FRAME_USB_FEATURE_GET [value_low su] of
        Inl e \<Rightarrow> (Inl e, p)
      | Inr frames \<Rightarrow>
          (let (reply, p') = wait_for_feature_reply (se_arrivals env) p;
               data = (case reply of
                         Some f \<Rightarrow> if fr_type f = VDS_FRAME_USB_FEATURE_REPLY
                                  then take (unat (su_length su)) (fr_payload f) else []
                       | None \<Rightarrow> []) in
           (Inr \<lparr>an_status = 0, an_data = data, an_packets = 0, an_frames = frames\<rparr>, p')))"

text \<open>The audio class's feature unit: mute and volume.\<close>

definition feature_unit_get :: "setup_packet \<Rightarrow> vport \<Rightarrow> bytes" where
  "feature_unit_get su p =
     take (unat (su_length su))
       (if value_high su = 0x01 then (if vp_fu_muted p then [0x01] else [0x00])
        else if su_request su = 0x82 then [0x01, 0xda]
        else if su_request su = 0x83 then [0x00, 0x00]
        else if su_request su = 0x84 then [0x01, 0x00]
        else le_bytes 2 (vp_fu_volume_db256 p))"

definition feature_unit_set :: "submit_env \<Rightarrow> setup_packet \<Rightarrow> bytes \<Rightarrow> vport \<Rightarrow> vport" where
  "feature_unit_set env su out_data p =
     (if value_high su = 0x01 \<and> out_data \<noteq> [] then
        update_speaker_gain (se_pow_gain env) (p\<lparr>vp_fu_muted := out_data ! 0 \<noteq> 0\<rparr>)
      else if value_high su = 0x02 \<and> length out_data \<ge> 2 then
        update_speaker_gain (se_pow_gain env) (p\<lparr>vp_fu_volume_db256 := le_value (take 2 out_data)\<rparr>)
      else p)"

definition feature_unit_request :: "submit_env \<Rightarrow> setup_packet \<Rightarrow> bytes \<Rightarrow> vport \<Rightarrow> endpoint_result" where
  "feature_unit_request env su out_data p =
     (if device_to_host su \<and> (value_high su = 0x01 \<or> value_high su = 0x02) then
        (Inr (answer_data (feature_unit_get su p)), p)
      else if \<not> device_to_host su \<and> su_request su = 0x01 then
        (Inr (answer_data []), feature_unit_set env su out_data p)
      else (Inr (answer_data []), p))"

definition clamp_control :: "setup_packet \<Rightarrow> answer \<Rightarrow> answer" where
  "clamp_control su a =
     (if device_to_host su then a\<lparr>an_data := take (unat (su_length su)) (an_data a)\<rparr> else a)"

definition control_request :: "submit_env \<Rightarrow> setup_packet \<Rightarrow> bytes \<Rightarrow> vport \<Rightarrow> endpoint_result" where
  "control_request env su out_data p =
     (if request_kind su = 0x00 \<and> su_request su = 0x06 \<and> device_to_host su then
        (Inr (answer_data (get_descriptor (vp_profile p) su)), p)
      else if request_kind su = 0x00 \<and> su_request su = 0x09 then (Inr (answer_data []), p)
      else if su_request_type su = 0x01 \<and> su_request su = 0x0b then set_interface env su p
      else if request_kind su = 0x20 \<and> su_request su = 0x01 \<and> device_to_host su then get_report env su p
      else if request_kind su = 0x20 \<and> su_request su = 0x09 then
        forward_frame env VDS_FRAME_USB_FEATURE_SET out_data 0 p
      else if request_kind su = 0x20 \<and> su_request_type su AND 0x1f = 0x01
          \<and> su_request su \<in> {0x81, 0x82, 0x83, 0x84, 0x01} then feature_unit_request env su out_data p
      else (Inr answer_stall, p))"

section \<open>The endpoints\<close>

definition hid_in_request :: "submit_env \<Rightarrow> vport \<Rightarrow> endpoint_result" where
  "hid_in_request env p =
     (let (frame, p') = wait_for_hid_in_frame (se_arrivals env) p in
      (Inr (answer_data (case frame of Some f \<Rightarrow> fr_payload f | None \<Rightarrow> [])), p'))"

definition audio_out_request :: "submit_env \<Rightarrow> cmd_submit \<Rightarrow> bytes \<Rightarrow> vport \<Rightarrow> endpoint_result" where
  "audio_out_request env cmd out_data p =
     forward_frame env VDS_FRAME_USB_AUDIO_OUT (apply_speaker_gain (vp_speaker_gain_q15 p) out_data)
       (uc_packets cmd) p"

definition audio_in_request :: "cmd_submit \<Rightarrow> vport \<Rightarrow> endpoint_result" where
  "audio_in_request cmd p =
     (let (bs, p') = take_mic_bytes (unat (uc_length cmd)) p in
      (Inr \<lparr>an_status = 0, an_data = bs, an_packets = uc_packets cmd, an_frames = []\<rparr>, p'))"

definition endpoint_request :: "submit_env \<Rightarrow> cmd_submit \<Rightarrow> bytes \<Rightarrow> vport \<Rightarrow> endpoint_result" where
  "endpoint_request env cmd out_data p =
     (if uc_ep cmd = 0 then
        (let su = read_setup (uc_setup cmd); (r, p') = control_request env su out_data p in
         (bind_result r (\<lambda>a. Inr (clamp_control su a)), p'))
      else if uc_ep cmd = kEpHidIn \<and> uc_direction cmd = kDirIn then hid_in_request env p
      else if uc_ep cmd = kEpHidOut \<and> uc_direction cmd = kDirOut then
        forward_frame env VDS_FRAME_USB_HID_OUT out_data 0 p
      else if uc_ep cmd = kEpAudioOut \<and> uc_direction cmd = kDirOut then audio_out_request env cmd out_data p
      else if uc_ep cmd = kEpAudioIn \<and> uc_direction cmd = kDirIn then audio_in_request cmd p
      else (Inr answer_stall, p))"

section \<open>The reply\<close>

definition reply_iso :: "bool \<Rightarrow> bytes \<Rightarrow> iso_packet \<Rightarrow> iso_packet" where
  "reply_iso is_in data d =
     \<lparr>ip_offset = ip_offset d, ip_length = ip_length d,
      ip_actual_length =
        (if is_in then
           (if unat (ip_offset d) \<ge> length data then 0
            else of_nat (min (unat (ip_length d)) (length data - unat (ip_offset d))))
         else ip_length d),
      ip_status = 0\<rparr>"

definition reply_isos :: "cmd_submit \<Rightarrow> bytes \<Rightarrow> iso_packet list \<Rightarrow> iso_packet list" where
  "reply_isos cmd data isos =
     (if sint (uc_packets cmd) > 0 then map (reply_iso (uc_direction cmd = kDirIn) data) isos else [])"

definition actual_length :: "cmd_submit \<Rightarrow> bytes \<Rightarrow> bytes \<Rightarrow> iso_packet list \<Rightarrow> u32" where
  "actual_length cmd out_data data isos =
     (if sint (uc_packets cmd) > 0 then sum_list (map ip_actual_length (reply_isos cmd data isos))
      else of_nat (if uc_direction cmd = kDirOut then length out_data else length data))"

definition ret_for :: "cmd_submit \<Rightarrow> bytes \<Rightarrow> iso_packet list \<Rightarrow> answer \<Rightarrow> ret_submit" where
  "ret_for cmd out_data isos a =
     \<lparr>ur_seqnum = uc_seqnum cmd, ur_status = an_status a,
      ur_actual_length = (if an_status a = 0 then actual_length cmd out_data (an_data a) isos else 0),
      ur_packets = an_packets a\<rparr>"

definition pace_out :: "cmd_submit \<Rightarrow> bool" where
  "pace_out cmd \<longleftrightarrow> uc_ep cmd = kEpAudioOut \<and> uc_direction cmd = kDirOut \<and> sint (uc_packets cmd) > 0"

definition pace_in :: "cmd_submit \<Rightarrow> bool" where
  "pace_in cmd \<longleftrightarrow> uc_ep cmd = kEpAudioIn \<and> uc_direction cmd = kDirIn \<and> sint (uc_packets cmd) > 0"

definition paced_bytes :: "cmd_submit \<Rightarrow> bytes \<Rightarrow> iso_packet list \<Rightarrow> answer \<Rightarrow> bytes" where
  "paced_bytes cmd out_data isos a =
     reply_bytes (ret_for cmd out_data isos a) (if pace_in cmd then an_data a else [])
       (reply_isos cmd (an_data a) isos)"

text \<open>The parts that are sent at once, each by one \<open>send_exact\<close>; the first failure ends the session.\<close>

definition send_parts :: "cmd_submit \<Rightarrow> bytes \<Rightarrow> iso_packet list \<Rightarrow> answer \<Rightarrow> bytes list" where
  "send_parts cmd out_data isos a =
     [ret_bytes (ret_for cmd out_data isos a)]
     @ (if an_data a \<noteq> [] then [an_data a] else [])
     @ (if reply_isos cmd (an_data a) isos \<noteq> [] then [concat (map iso_bytes (reply_isos cmd (an_data a) isos))] else [])"

text \<open>
  How the call ends: whether the session goes on, the frames written to the daemon and the bytes
  sent to the client, where a send that failed is not counted.
\<close>

record submit_outcome =
  so_continue :: bool
  so_frames :: "frame list"
  so_sent :: bytes

definition handle_cmd_submit ::
    "submit_env \<Rightarrow> nat \<Rightarrow> cmd_submit \<Rightarrow> bytes \<Rightarrow> iso_packet list \<Rightarrow> vport \<Rightarrow> submit_outcome \<times> vport" where
  "handle_cmd_submit env client cmd out_data isos p =
     (case endpoint_request env cmd out_data p of
        (Inl _, p') \<Rightarrow> (\<lparr>so_continue = False, so_frames = [], so_sent = []\<rparr>, p')
      | (Inr a, p') \<Rightarrow>
          if pace_out cmd \<or> pace_in cmd then
            (\<lparr>so_continue = True, so_frames = an_frames a, so_sent = []\<rparr>,
             enqueue_paced (pace_out cmd) (nat (sint (uc_packets cmd))) (se_now env)
               (client, paced_bytes cmd out_data isos a) p')
          else
            (let parts = send_parts cmd out_data isos a in
             (\<lparr>so_continue = (length parts \<le> se_sends env), so_frames = an_frames a,
               so_sent = concat (take (se_sends env) parts)\<rparr>, p')))"

section \<open>Commands the session loop lets through\<close>

definition iso_in_bounds :: "nat \<Rightarrow> iso_packet \<Rightarrow> bool" where
  "iso_in_bounds size_limit d \<longleftrightarrow>
     unat (ip_offset d) \<le> size_limit \<and> unat (ip_length d) \<le> size_limit - unat (ip_offset d)"

definition packet_count :: "cmd_submit \<Rightarrow> nat" where
  "packet_count cmd = (if sint (uc_packets cmd) > 0 then nat (sint (uc_packets cmd)) else 0)"

definition valid_command :: "cmd_submit \<Rightarrow> bytes \<Rightarrow> iso_packet list \<Rightarrow> bool" where
  "valid_command cmd out_data isos \<longleftrightarrow>
     (uc_direction cmd = kDirOut \<or> uc_direction cmd = kDirIn)
     \<and> sint (uc_length cmd) \<ge> 0 \<and> unat (uc_length cmd) \<le> kMaxTransferBufferBytes
     \<and> -1 \<le> sint (uc_packets cmd) \<and> sint (uc_packets cmd) \<le> kMaxIsoPackets
     \<and> length out_data = (if uc_direction cmd = kDirOut then unat (uc_length cmd) else 0)
     \<and> length isos = packet_count cmd
     \<and> (packet_count cmd > 0 \<longrightarrow>
          list_all (iso_in_bounds (unat (uc_length cmd))) isos
          \<and> sum_list (map (\<lambda>d. unat (ip_length d)) isos) = unat (uc_length cmd))"

text \<open>
  Commands as a USB host makes them: isochronous packets on the audio endpoints only, and control
  reads with the direction IN.
\<close>

definition well_directed :: "cmd_submit \<Rightarrow> bool" where
  "well_directed cmd \<longleftrightarrow>
     (sint (uc_packets cmd) > 0 \<longrightarrow> pace_out cmd \<or> pace_in cmd)
     \<and> (uc_ep cmd = 0 \<and> device_to_host (read_setup (uc_setup cmd)) \<longrightarrow> uc_direction cmd = kDirIn)"

text \<open>Frames come from the pipe with at most the maximal payload.\<close>

definition small_frame :: "frame \<Rightarrow> bool" where
  "small_frame f \<longleftrightarrow> length (fr_payload f) \<le> VDS_FRAME_MAX_PAYLOAD"

definition small_reads :: "frame option list \<Rightarrow> bool" where
  "small_reads reads \<longleftrightarrow> list_all (\<lambda>r. case r of Some f \<Rightarrow> small_frame f | None \<Rightarrow> True) reads"

definition queues_ok :: "vport \<Rightarrow> bool" where
  "queues_ok p \<longleftrightarrow> length (vp_hid_in_queue p) \<le> 1
     \<and> list_all (\<lambda>f. small_frame f \<and> fr_type f = VDS_FRAME_USB_HID_IN) (vp_hid_in_queue p)
     \<and> list_all (\<lambda>f. small_frame f \<and> fr_type f = VDS_FRAME_USB_FEATURE_REPLY) (vp_feature_reply_queue p)
     \<and> length (vp_mic_ring_buffer p) \<le> kMicMaxBufferBytes"

lemma reader_frame_ok: "queues_ok p \<Longrightarrow> small_frame f \<Longrightarrow> queues_ok (reader_frame f p)"
  by (auto simp: queues_ok_def reader_frame_def length_keep_newest)

lemma queues_ok_reader_state [simp]: "queues_ok (p\<lparr>vp_reader := r\<rparr>) = queues_ok p"
  by (simp add: queues_ok_def)

lemma pipe_reader_round_ok:
  "queues_ok p \<Longrightarrow> (\<And>f. r = Some f \<Longrightarrow> small_frame f) \<Longrightarrow> queues_ok (pipe_reader_round r p)"
  by (auto simp: pipe_reader_round_def reader_frame_ok split: option.splits)

lemma during_wait_ok: "queues_ok p \<Longrightarrow> small_reads reads \<Longrightarrow> queues_ok (during_wait reads p)"
proof (induction reads arbitrary: p)
  case (Cons r reads)
  have "queues_ok (pipe_reader_round r p)"
    using Cons.prems by (intro pipe_reader_round_ok) (auto simp: small_reads_def)
  moreover have "small_reads reads" using Cons.prems by (simp add: small_reads_def)
  ultimately show ?case using Cons.IH by (simp add: during_wait_def)
qed (simp add: during_wait_def)

lemma wait_for_hid_in_frame_ok:
  assumes "queues_ok p" "small_reads reads" "wait_for_hid_in_frame reads p = (r, p')"
  shows "queues_ok p' \<and> (\<forall>f. r = Some f \<longrightarrow> small_frame f \<and> fr_type f = VDS_FRAME_USB_HID_IN)"
  using during_wait_ok [OF assms(1,2)] assms(3)
  by (auto simp: wait_for_hid_in_frame_def Let_def queues_ok_def split: list.splits)

lemma wait_for_feature_reply_ok:
  assumes "queues_ok p" "small_reads reads" "wait_for_feature_reply reads p = (r, p')"
  shows "queues_ok p' \<and> (\<forall>f. r = Some f \<longrightarrow> small_frame f \<and> fr_type f = VDS_FRAME_USB_FEATURE_REPLY)"
  using during_wait_ok [OF assms(1,2)] assms(3)
  by (auto simp: wait_for_feature_reply_def Let_def queues_ok_def split: list.splits)

lemma take_mic_bytes_ok:
  "take_mic_bytes n p = (bs, p') \<Longrightarrow> queues_ok p \<Longrightarrow> queues_ok p' \<and> length bs = n"
  by (auto simp: take_mic_bytes_def Let_def queues_ok_def split: if_splits)

lemma update_speaker_gain_queues [simp]: "queues_ok (update_speaker_gain g p) = queues_ok p"
  by (simp add: update_speaker_gain_def queues_ok_def Let_def)

section \<open>What the endpoints answer\<close>

text \<open>Facts of an answer that is not an exception.\<close>

definition answer_ok :: "cmd_submit \<Rightarrow> answer \<Rightarrow> bool" where
  "answer_ok cmd a \<longleftrightarrow>
     length (an_data a) \<le> kMaxTransferBufferBytes
     \<and> (an_status a = 0 \<or> an_status a = EPIPE_status \<and> an_data a = [])
     \<and> (an_data a \<noteq> [] \<longrightarrow> uc_direction cmd = kDirIn
          \<or> uc_ep cmd = 0 \<and> device_to_host (read_setup (uc_setup cmd)))
     \<and> an_packets a = (if an_status a = 0 \<and> (uc_ep cmd = kEpAudioOut \<or> uc_ep cmd = kEpAudioIn)
                       then uc_packets cmd else 0)"

lemma dir_distinct [simp]: "kDirOut \<noteq> kDirIn" "kDirIn \<noteq> kDirOut"
  by (simp_all add: kDirOut_def kDirIn_def)

lemma forward_frame_Inr:
  "forward_frame env t bs n p = (Inr a, p') \<Longrightarrow>
    p' = p \<and> a = \<lparr>an_status = 0, an_data = [], an_packets = n, an_frames = [\<lparr>fr_type = t, fr_payload = bs\<rparr>]\<rparr>
    \<and> se_pipe_ok env \<and> length bs \<le> VDS_FRAME_MAX_PAYLOAD"
  by (auto simp: forward_frame_def write_daemon_frame_def frame_bytes_def Let_def bind_result_def
      split: sum.splits if_splits)

lemma su_length_bound: "unat (su_length su) < 65536"
  using unsigned_less [of "su_length su"] by simp

text \<open>The answers of a control request: an exception, data for the host, or nothing.\<close>

lemma control_request_cases:
  obtains (Data) bs where "control_request env su out_data p = (Inr (answer_data bs), p)" "device_to_host su"
  | (Quiet) p' where "control_request env su out_data p = (Inr (answer_data []), p')"
      "p' = p \<or> p' = feature_unit_set env su out_data p"
  | (Forward) t bs p' where "control_request env su out_data p = forward_frame env t bs 0 p'"
      "p' = p \<or> p' = flush_mic p"
  | (Report) "control_request env su out_data p = get_report env su p" "device_to_host su"
  | (Stall) "control_request env su out_data p = (Inr answer_stall, p)"
proof -
  let ?c1 = "request_kind su = 0x00 \<and> su_request su = 0x06 \<and> device_to_host su"
  let ?c2 = "request_kind su = 0x00 \<and> su_request su = 0x09"
  let ?c3 = "su_request_type su = 0x01 \<and> su_request su = 0x0b"
  let ?c4 = "request_kind su = 0x20 \<and> su_request su = 0x01 \<and> device_to_host su"
  let ?c5 = "request_kind su = 0x20 \<and> su_request su = 0x09"
  let ?c6 = "request_kind su = 0x20 \<and> su_request_type su AND 0x1f = 0x01
    \<and> su_request su \<in> {0x81, 0x82, 0x83, 0x84, 0x01}"
  note unfold = control_request_def
  consider "?c1" | "\<not> ?c1" "?c2" | "\<not> ?c1" "\<not> ?c2" "?c3" | "\<not> ?c1" "\<not> ?c2" "\<not> ?c3" "?c4"
    | "\<not> ?c1" "\<not> ?c2" "\<not> ?c3" "\<not> ?c4" "?c5" | "\<not> ?c1" "\<not> ?c2" "\<not> ?c3" "\<not> ?c4" "\<not> ?c5" "?c6"
    | "\<not> ?c1" "\<not> ?c2" "\<not> ?c3" "\<not> ?c4" "\<not> ?c5" "\<not> ?c6"
    by blast
  then show thesis
  proof cases
    case 1
    then have "control_request env su out_data p = (Inr (answer_data (get_descriptor (vp_profile p) su)), p)"
      by (simp add: unfold)
    then show thesis using conjunct2 [OF conjunct2 [OF 1]] by (rule Data)
  next
    case 2
    then have "control_request env su out_data p = (Inr (answer_data []), p)" by (simp add: unfold)
    then show thesis by (rule Quiet) simp
  next
    case 3
    then have "control_request env su out_data p = set_interface env su p" by (simp only: unfold if_True if_False simp_thms)
    then show thesis by (rule Forward [OF trans [OF _ set_interface_def]]) simp
  next
    case 4
    then have "control_request env su out_data p = get_report env su p" by (simp only: unfold if_True if_False simp_thms)
    then show thesis using conjunct2 [OF conjunct2 [OF 4(4)]] by (rule Report)
  next
    case 5
    then have "control_request env su out_data p = forward_frame env VDS_FRAME_USB_FEATURE_SET out_data 0 p"
      by (simp add: unfold)
    then show thesis by (rule Forward) simp
  next
    case 6
    then have eq: "control_request env su out_data p = feature_unit_request env su out_data p"
      by (simp only: unfold if_True if_False simp_thms)
    show thesis
    proof (cases "device_to_host su \<and> (value_high su = 0x01 \<or> value_high su = 0x02)")
      case True
      then show thesis
        by (intro Data [of "feature_unit_get su p"]) (simp_all only: eq feature_unit_request_def if_True simp_thms)
    next
      case False
      then have "control_request env su out_data p = (Inr (answer_data []),
          if \<not> device_to_host su \<and> su_request su = 0x01 then feature_unit_set env su out_data p else p)"
        by (simp only: eq feature_unit_request_def if_False split: if_split) simp
      then show thesis by (rule Quiet) simp
    qed
  next
    case 7
    then have "control_request env su out_data p = (Inr answer_stall, p)" by (simp only: unfold if_False)
    then show thesis by (rule Stall)
  qed
qed

lemma get_report_Inr:
  assumes "get_report env su p = (Inr a, p')"
  shows "\<exists>r. wait_for_feature_reply (se_arrivals env) p = (r, p') \<and> an_status a = 0 \<and> an_packets a = 0
    \<and> an_data a = (case r of Some f \<Rightarrow> if fr_type f = VDS_FRAME_USB_FEATURE_REPLY
                                     then take (unat (su_length su)) (fr_payload f) else [] | None \<Rightarrow> [])"
  using assms by (auto simp: get_report_def Let_def split: sum.splits prod.splits)

lemma control_request_Inr:
  assumes "control_request env su out_data p = (Inr a, p')"
  shows "an_packets a = 0 \<and> (an_status a = 0 \<or> an_status a = EPIPE_status \<and> an_data a = [])
    \<and> (an_data a \<noteq> [] \<longrightarrow> device_to_host su)"
proof (cases rule: control_request_cases [of env su out_data p])
  case (Report)
  with assms get_report_Inr [of env su p a p'] show ?thesis by auto
next
  case (Forward t bs q)
  with assms forward_frame_Inr [of env t bs 0 q a p'] show ?thesis by simp
qed (use assms in \<open>auto simp: answer_data_def answer_stall_def\<close>)

lemma queues_ok_feature_unit [simp]: "queues_ok (feature_unit_set env su out_data p) = queues_ok p"
proof -
  have "queues_ok (p\<lparr>vp_fu_muted := m\<rparr>) = queues_ok p" "queues_ok (p\<lparr>vp_fu_volume_db256 := v\<rparr>) = queues_ok p" for m v
    by (simp_all add: queues_ok_def)
  then show ?thesis by (simp add: feature_unit_set_def)
qed

lemma control_request_bounds:
  assumes "control_request env su out_data p = (Inr a, p')" "queues_ok p" "small_reads (se_arrivals env)"
  shows "queues_ok p' \<and> length (an_data (clamp_control su a)) \<le> 65535"
proof (cases rule: control_request_cases [of env su out_data p])
  case (Report)
  then obtain r where wait: "wait_for_feature_reply (se_arrivals env) p = (r, p')"
    using assms(1) get_report_Inr [of env su p a p'] by auto
  from wait_for_feature_reply_ok [OF assms(2,3) wait] Report(2) su_length_bound [of su] show ?thesis
    by (simp add: clamp_control_def)
next
  case (Forward t bs q)
  then have "queues_ok q" using assms(2) by (auto simp: queues_ok_def flush_mic_def)
  with Forward assms(1) forward_frame_Inr [of env t bs 0 q a p'] show ?thesis by (simp add: clamp_control_def)
next
  case (Quiet q)
  with assms show ?thesis by (auto simp: clamp_control_def answer_data_def)
next
  case (Data bs)
  with assms su_length_bound [of su] show ?thesis by (auto simp: clamp_control_def answer_data_def)
next
  case Stall
  with assms show ?thesis by (auto simp: clamp_control_def answer_stall_def)
qed

lemma endpoint_request_cases:
  obtains (Control) "uc_ep cmd = 0" "endpoint_request env cmd out_data p =
      (let su = read_setup (uc_setup cmd); (r, p') = control_request env su out_data p in
         (bind_result r (\<lambda>a. Inr (clamp_control su a)), p'))"
  | (Hid_in) "uc_ep cmd = kEpHidIn" "uc_direction cmd = kDirIn"
      "endpoint_request env cmd out_data p = hid_in_request env p"
  | (Hid_out) "uc_ep cmd = kEpHidOut" "uc_direction cmd = kDirOut"
      "endpoint_request env cmd out_data p = forward_frame env VDS_FRAME_USB_HID_OUT out_data 0 p"
  | (Audio_out) "uc_ep cmd = kEpAudioOut" "uc_direction cmd = kDirOut"
      "endpoint_request env cmd out_data p = audio_out_request env cmd out_data p"
  | (Audio_in) "uc_ep cmd = kEpAudioIn" "uc_direction cmd = kDirIn"
      "endpoint_request env cmd out_data p = audio_in_request cmd p"
  | (No_endpoint) "endpoint_request env cmd out_data p = (Inr answer_stall, p)"
      "\<not> pace_out cmd" "\<not> pace_in cmd"
proof -
  consider "uc_ep cmd = 0" | "uc_ep cmd = kEpHidIn" "uc_direction cmd = kDirIn"
    | "uc_ep cmd = kEpHidOut" "uc_direction cmd = kDirOut"
    | "uc_ep cmd = kEpAudioOut" "uc_direction cmd = kDirOut"
    | "uc_ep cmd = kEpAudioIn" "uc_direction cmd = kDirIn"
    | "uc_ep cmd \<noteq> 0" "\<not> (uc_ep cmd = kEpHidIn \<and> uc_direction cmd = kDirIn)"
      "\<not> (uc_ep cmd = kEpHidOut \<and> uc_direction cmd = kDirOut)"
      "\<not> (uc_ep cmd = kEpAudioOut \<and> uc_direction cmd = kDirOut)"
      "\<not> (uc_ep cmd = kEpAudioIn \<and> uc_direction cmd = kDirIn)"
    by blast
  then show thesis
  proof cases
    case 1
    then show thesis by (intro Control) (simp_all add: endpoint_request_def)
  next
    case 2
    then show thesis by (intro Hid_in) (simp_all add: endpoint_request_def)
  next
    case 3
    then show thesis by (intro Hid_out) (simp_all add: endpoint_request_def)
  next
    case 4
    then show thesis by (intro Audio_out) (simp_all add: endpoint_request_def)
  next
    case 5
    then show thesis by (intro Audio_in) (simp_all add: endpoint_request_def)
  next
    case 6
    then have "endpoint_request env cmd out_data p = (Inr answer_stall, p)"
      by (simp only: endpoint_request_def if_False)
    moreover have "\<not> pace_out cmd" "\<not> pace_in cmd" using 6 unfolding pace_out_def pace_in_def by blast+
    ultimately show thesis by (rule No_endpoint)
  qed
qed

lemma endpoint_request_ok:
  assumes req: "endpoint_request env cmd out_data p = (Inr a, p')" and valid: "valid_command cmd out_data isos"
    and q: "queues_ok p" "small_reads (se_arrivals env)"
  shows "queues_ok p' \<and> length (an_data a) \<le> kMaxTransferBufferBytes
    \<and> (an_status a = 0 \<or> an_status a = EPIPE_status \<and> an_data a = [])"
proof (cases rule: endpoint_request_cases [of cmd env out_data p])
  case Control
  let ?su = "read_setup (uc_setup cmd)"
  from Control(2) req obtain b where b: "control_request env ?su out_data p = (Inr b, p')" "a = clamp_control ?su b"
    by (auto simp: Let_def bind_result_def split: prod.splits sum.splits)
  with control_request_Inr [OF b(1)] control_request_bounds [OF b(1) q] show ?thesis
    by (auto simp: clamp_control_def kMaxTransferBufferBytes_def)
next
  case Hid_in
  from Hid_in(3) req obtain r where "wait_for_hid_in_frame (se_arrivals env) p = (r, p')"
    "a = answer_data (case r of Some f \<Rightarrow> fr_payload f | None \<Rightarrow> [])"
    by (auto simp: hid_in_request_def split: prod.splits)
  with wait_for_hid_in_frame_ok [OF q, of r p'] show ?thesis
    by (auto simp: answer_data_def small_frame_def kMaxTransferBufferBytes_def split: option.splits)
next
  case Hid_out
  with req forward_frame_Inr [of env VDS_FRAME_USB_HID_OUT out_data 0 p a p'] q show ?thesis by simp
next
  case Audio_out
  with req q show ?thesis by (auto simp: audio_out_request_def dest!: forward_frame_Inr)
next
  case Audio_in
  from Audio_in(3) req obtain bs where "take_mic_bytes (unat (uc_length cmd)) p = (bs, p')" "an_data a = bs"
    "an_status a = 0"
    by (auto simp: audio_in_request_def split: prod.splits)
  with take_mic_bytes_ok [of _ p bs p'] q valid show ?thesis by (simp add: valid_command_def)
next
  case No_endpoint
  with req q show ?thesis by (auto simp: answer_stall_def)
qed

lemma queues_ok_waits:
  assumes "queues_ok p" "small_reads reads"
  shows "queues_ok (snd (wait_for_hid_in_frame reads p))" "queues_ok (snd (wait_for_feature_reply reads p))"
  using wait_for_hid_in_frame_ok [OF assms prod.collapse [symmetric]]
    wait_for_feature_reply_ok [OF assms prod.collapse [symmetric]] by simp_all

lemma queues_ok_control:
  assumes "queues_ok p" "small_reads (se_arrivals env)"
  shows "queues_ok (snd (control_request env su out_data p))"
proof (cases rule: control_request_cases [of env su out_data p])
  case Report
  with assms queues_ok_waits(2) [OF assms] show ?thesis
    by (auto simp: get_report_def Let_def split: sum.splits prod.splits)
next
  case (Forward t bs q)
  with assms show ?thesis by (auto simp: forward_frame_def flush_mic_def queues_ok_def)
qed (use assms in auto)

lemma queues_ok_endpoint:
  assumes "queues_ok p" "small_reads (se_arrivals env)"
  shows "queues_ok (snd (endpoint_request env cmd out_data p))"
proof (cases rule: endpoint_request_cases [of cmd env out_data p])
  case Control
  with queues_ok_control [OF assms, of "read_setup (uc_setup cmd)" out_data] show ?thesis
    by (auto simp: Let_def split: prod.splits)
next
  case Hid_in
  with queues_ok_waits(1) [OF assms] show ?thesis by (auto simp: hid_in_request_def split: prod.splits)
next
  case Audio_in
  with take_mic_bytes_ok [of "unat (uc_length cmd)" p] assms show ?thesis
    by (auto simp: audio_in_request_def split: prod.splits)
qed (use assms in \<open>auto simp: forward_frame_def audio_out_request_def\<close>)

section \<open>What goes out for a command\<close>

text \<open>A host's transfer: what the data and the packet count of its reply are.\<close>

lemma kDirIn_not_Out: "valid_command cmd out_data isos \<Longrightarrow> uc_direction cmd \<noteq> kDirIn \<longleftrightarrow> uc_direction cmd = kDirOut"
  by (auto simp: valid_command_def)

lemma endpoint_answer_shape:
  assumes req: "endpoint_request env cmd out_data p = (Inr a, p')"
    and valid: "valid_command cmd out_data isos" and directed: "well_directed cmd"
  shows "(uc_direction cmd = kDirOut \<longrightarrow> an_data a = [])
    \<and> (if sint (uc_packets cmd) > 0
       then an_status a = 0 \<and> an_packets a = uc_packets cmd
         \<and> (uc_direction cmd = kDirIn \<longrightarrow> length (an_data a) = unat (uc_length cmd))
       else sint (an_packets a) \<le> 0)"
proof (cases rule: endpoint_request_cases [of cmd env out_data p])
  case Control
  let ?su = "read_setup (uc_setup cmd)"
  from Control(2) req obtain b where b: "control_request env ?su out_data p = (Inr b, p')" "a = clamp_control ?su b"
    by (auto simp: Let_def bind_result_def split: prod.splits sum.splits)
  have "\<not> sint (uc_packets cmd) > 0" using directed Control(1) by (auto simp: well_directed_def pace_out_def pace_in_def)
  moreover have "uc_direction cmd = kDirOut \<Longrightarrow> \<not> device_to_host ?su" using directed Control(1) by (auto simp: well_directed_def)
  ultimately show ?thesis using control_request_Inr [OF b(1)] b(2) by (auto simp: clamp_control_def)
next
  case Hid_in
  then have "\<not> sint (uc_packets cmd) > 0" using directed by (auto simp: well_directed_def pace_out_def pace_in_def)
  with Hid_in req show ?thesis by (auto simp: hid_in_request_def answer_data_def split: prod.splits)
next
  case Hid_out
  then have "\<not> sint (uc_packets cmd) > 0" using directed by (auto simp: well_directed_def pace_out_def pace_in_def)
  with Hid_out req forward_frame_Inr [of env VDS_FRAME_USB_HID_OUT out_data 0 p a p'] show ?thesis by simp
next
  case Audio_out
  with req show ?thesis by (auto simp: audio_out_request_def dest!: forward_frame_Inr)
next
  case Audio_in
  from Audio_in(3) req obtain bs where bs: "take_mic_bytes (unat (uc_length cmd)) p = (bs, p')" "an_data a = bs"
    "an_status a = 0" "an_packets a = uc_packets cmd"
    by (auto simp: audio_in_request_def split: prod.splits)
  have "length bs = unat (uc_length cmd)"
    using bs(1) by (auto simp: take_mic_bytes_def Let_def split: if_splits)
  with bs Audio_in show ?thesis by auto
next
  case No_endpoint
  then have "\<not> sint (uc_packets cmd) > 0" using directed by (auto simp: well_directed_def)
  with No_endpoint req show ?thesis by (auto simp: answer_stall_def)
qed

text \<open>The sum of the actual lengths of the packets does not wrap.\<close>

lemma sum_list_of_nat_word: "sum_list (map of_nat ns) = (of_nat (sum_list ns) :: 'a :: len word)"
  by (induction ns) simp_all

lemma iso_actual_whole:
  assumes "iso_in_bounds (length data) d" "length data < 2 ^ 32"
  shows "ip_actual_length (reply_iso True data d) = ip_length d"
proof (cases "length data \<le> unat (ip_offset d)")
  case True
  with assms have "unat (ip_length d) = 0" by (simp add: iso_in_bounds_def)
  then have "ip_length d = 0" by (metis word_unat_eq_iff unsigned_0)
  with True show ?thesis by (simp add: reply_iso_def)
next
  case False
  with assms have "min (unat (ip_length d)) (length data - unat (ip_offset d)) = unat (ip_length d)"
    by (simp add: iso_in_bounds_def)
  with False show ?thesis by (simp add: reply_iso_def)
qed

lemma iso_actual_sum:
  assumes "list_all (iso_in_bounds n) isos" "sum_list (map (\<lambda>d. unat (ip_length d)) isos) = n" "n < 2 ^ 32"
    and "is_in \<Longrightarrow> length data = n"
  shows "sum_list (map ip_actual_length (map (reply_iso is_in data) isos)) = of_nat n"
proof -
  have "map ip_actual_length (map (reply_iso is_in data) isos) = map of_nat (map (\<lambda>d. unat (ip_length d)) isos)"
  proof (cases is_in)
    case True
    with assms have "ip_actual_length (reply_iso True data d) = ip_length d" if "d \<in> set isos" for d
      using that by (intro iso_actual_whole) (simp_all add: list_all_iff)
    with True show ?thesis by simp
  qed (simp add: reply_iso_def)
  with assms(2) show ?thesis by (simp only: sum_list_of_nat_word)
qed

text \<open>The whole reply of a command, sent at once or handed to the pacer.\<close>

definition reply_of :: "cmd_submit \<Rightarrow> bytes \<Rightarrow> iso_packet list \<Rightarrow> answer \<Rightarrow> bytes" where
  "reply_of cmd out_data isos a =
     reply_bytes (ret_for cmd out_data isos a) (an_data a) (reply_isos cmd (an_data a) isos)"

lemma concat_send_parts: "concat (send_parts cmd out_data isos a) = reply_of cmd out_data isos a"
  by (simp add: send_parts_def reply_of_def reply_bytes_def)

lemma client_reads_reply_of:
  assumes req: "endpoint_request env cmd out_data p = (Inr a, p')"
    and valid: "valid_command cmd out_data isos" and directed: "well_directed cmd"
    and q: "queues_ok p" "small_reads (se_arrivals env)"
  shows "client_read (uc_direction cmd = kDirIn) (reply_of cmd out_data isos a @ rest)
    = Some (\<lparr>cr_seqnum = uc_seqnum cmd, cr_status = an_status a,
             cr_actual_length = ur_actual_length (ret_for cmd out_data isos a), cr_data = an_data a,
             cr_isos = reply_isos cmd (an_data a) isos\<rparr>, rest)"
proof -
  note shape = endpoint_answer_shape [OF req valid directed]
  note ok = endpoint_request_ok [OF req valid q]
  let ?r = "ret_for cmd out_data isos a"
  have small: "length (an_data a) < 2 ^ 32" using ok by (simp add: kMaxTransferBufferBytes_def)
  have actual: "uc_direction cmd = kDirIn \<Longrightarrow> unat (ur_actual_length ?r) = length (an_data a)"
  proof (cases "sint (uc_packets cmd) > 0")
    case True
    assume dir: "uc_direction cmd = kDirIn"
    with True shape have len: "length (an_data a) = unat (uc_length cmd)" "an_status a = 0" by auto
    have "packet_count cmd > 0" using True by (simp add: packet_count_def)
    with valid have isos: "list_all (iso_in_bounds (unat (uc_length cmd))) isos"
      "sum_list (map (\<lambda>d. unat (ip_length d)) isos) = unat (uc_length cmd)"
      by (simp_all add: valid_command_def)
    have "unat (uc_length cmd) < 2 ^ 32" using unsigned_less [of "uc_length cmd"] by simp
    from iso_actual_sum [OF isos this, of True "an_data a"] len True dir show ?thesis
      by (simp add: ret_for_def actual_length_def reply_isos_def del: map_map)
  next
    case False
    assume "uc_direction cmd = kDirIn"
    with False ok small show ?thesis by (auto simp: ret_for_def actual_length_def unat_of_nat take_bit_eq_mod)
  qed
  show ?thesis
    unfolding reply_of_def
  proof (subst client_reads_reply)
    show "length (an_data a) = (if uc_direction cmd = kDirIn then unat (ur_actual_length ?r) else 0)"
      using actual shape kDirIn_not_Out [OF valid] by auto
    show "length (reply_isos cmd (an_data a) isos)
        = (if 0 < sint (ur_packets ?r) then nat (sint (ur_packets ?r)) else 0)"
      using shape valid by (auto simp: ret_for_def reply_isos_def valid_command_def packet_count_def split: if_splits)
  qed (simp add: ret_for_def)
qed

section \<open>What an endpoint leaves alone\<close>

text \<open>The session, the pacer's queue and its due times are not touched by an endpoint.\<close>

definition session_part :: "vport \<Rightarrow>
    (nat \<times> nat \<times> bool \<times> bool \<times> bool) \<times> (bool \<times> nat option) \<times> paced_reply multimap \<times> nat \<times> nat" where
  "session_part p =
     ((vp_profile p, vp_port_index p, vp_stop_requested p, vp_attached p, vp_registered p),
      (vp_session_active p, vp_client_socket p), vp_paced_replies p, vp_iso_out_next_due p, vp_iso_in_next_due p)"

lemma session_part_updates [simp]:
  "session_part (p\<lparr>vp_hid_in_queue := a\<rparr>) = session_part p"
  "session_part (p\<lparr>vp_feature_reply_queue := a\<rparr>) = session_part p"
  "session_part (p\<lparr>vp_mic_ring_buffer := b\<rparr>) = session_part p"
  "session_part (p\<lparr>vp_mic_primed := c\<rparr>) = session_part p"
  "session_part (p\<lparr>vp_reader := d\<rparr>) = session_part p"
  "session_part (p\<lparr>vp_fu_muted := c\<rparr>) = session_part p"
  "session_part (p\<lparr>vp_fu_volume_db256 := w\<rparr>) = session_part p"
  "session_part (p\<lparr>vp_speaker_gain_q15 := g\<rparr>) = session_part p"
  by (simp_all add: session_part_def)

lemma session_part_reader [simp]: "session_part (pipe_reader_round r p) = session_part p"
  by (simp add: pipe_reader_round_def reader_frame_def split: option.splits)

lemma session_part_wait [simp]: "session_part (during_wait reads p) = session_part p"
  by (induction reads arbitrary: p) (simp_all add: during_wait_def)

lemma session_part_waits:
  "session_part (snd (wait_for_hid_in_frame reads p)) = session_part p"
  "session_part (snd (wait_for_feature_reply reads p)) = session_part p"
  by (simp_all add: wait_for_hid_in_frame_def wait_for_feature_reply_def Let_def split: list.splits)

lemma session_part_mic: "session_part (snd (take_mic_bytes n p)) = session_part p"
  by (simp add: take_mic_bytes_def Let_def)

lemma session_part_gain [simp]: "session_part (update_speaker_gain g p) = session_part p"
  by (simp add: update_speaker_gain_def Let_def)

lemma session_part_control: "session_part (snd (control_request env su out_data p)) = session_part p"
proof (cases rule: control_request_cases [of env su out_data p])
  case Report
  then show ?thesis
    using session_part_waits(2) [of "se_arrivals env" p]
    by (auto simp: get_report_def Let_def split: sum.splits prod.splits)
next
  case (Forward t bs q)
  then show ?thesis by (auto simp: forward_frame_def flush_mic_def)
qed (auto simp: feature_unit_set_def)

lemma session_part_endpoint: "session_part (snd (endpoint_request env cmd out_data p)) = session_part p"
proof (cases rule: endpoint_request_cases [of cmd env out_data p])
  case Control
  then show ?thesis
    using session_part_control [of env "read_setup (uc_setup cmd)" out_data p]
    by (auto simp: Let_def split: prod.splits)
next
  case Hid_in
  then show ?thesis
    using session_part_waits(1) [of "se_arrivals env" p] by (auto simp: hid_in_request_def split: prod.splits)
next
  case Audio_in
  then show ?thesis
    using session_part_mic [of "unat (uc_length cmd)" p] by (auto simp: audio_in_request_def split: prod.splits)
qed (auto simp: forward_frame_def audio_out_request_def)

lemma session_part_paced: "session_part p' = session_part p \<Longrightarrow> vp_paced_replies p' = vp_paced_replies p"
  by (simp add: session_part_def)

lemma handle_cmd_submit_cases:
  assumes "handle_cmd_submit env client cmd out_data isos p = (out, p')"
  obtains (Throws) e where "endpoint_request env cmd out_data p = (Inl e, p')" "\<not> so_continue out"
      "so_sent out = []" "so_frames out = []"
  | (Paced) a q where "endpoint_request env cmd out_data p = (Inr a, q)" "pace_out cmd \<or> pace_in cmd"
      "so_continue out" "so_sent out = []" "so_frames out = an_frames a"
      "p' = enqueue_paced (pace_out cmd) (packet_count cmd) (se_now env) (client, paced_bytes cmd out_data isos a) q"
  | (Sent) a where "endpoint_request env cmd out_data p = (Inr a, p')" "\<not> (pace_out cmd \<or> pace_in cmd)"
      "so_continue out \<longleftrightarrow> length (send_parts cmd out_data isos a) \<le> se_sends env"
      "so_sent out = concat (take (se_sends env) (send_parts cmd out_data isos a))" "so_frames out = an_frames a"
proof (cases "endpoint_request env cmd out_data p")
  case (Pair r q)
  show thesis
  proof (cases r)
    case (Inl e)
    with Pair assms show thesis by (intro Throws [of e]) (auto simp: handle_cmd_submit_def)
  next
    case (Inr a)
    show thesis
    proof (cases "pace_out cmd \<or> pace_in cmd")
      case True
      then have "packet_count cmd = nat (sint (uc_packets cmd))"
        by (auto simp: packet_count_def pace_out_def pace_in_def)
      with Pair Inr True assms show thesis by (intro Paced [of a q]) (auto simp: handle_cmd_submit_def)
    next
      case False
      with Pair Inr assms show thesis by (intro Sent [of a]) (auto simp: handle_cmd_submit_def Let_def)
    qed
  qed
qed

lemma paced_bytes_reply:
  assumes req: "endpoint_request env cmd out_data p = (Inr a, q)"
    and valid: "valid_command cmd out_data isos" and paced: "pace_out cmd \<or> pace_in cmd"
  shows "paced_bytes cmd out_data isos a = reply_of cmd out_data isos a"
proof -
  have "well_directed cmd" using paced by (auto simp: well_directed_def pace_out_def pace_in_def)
  with endpoint_answer_shape [OF req valid] have "uc_direction cmd = kDirOut \<Longrightarrow> an_data a = []" by simp
  with paced show ?thesis by (auto simp: paced_bytes_def reply_of_def pace_out_def pace_in_def)
qed

lemma control_clamped:
  assumes "endpoint_request env cmd out_data p = (Inr a, p')" "uc_ep cmd = 0"
    and "device_to_host (read_setup (uc_setup cmd))"
  shows "length (an_data a) \<le> unat (su_length (read_setup (uc_setup cmd)))"
  using assms by (auto simp: endpoint_request_def Let_def clamp_control_def bind_result_def
      split: prod.splits sum.splits)

lemma mic_packets_whole:
  assumes req: "endpoint_request env cmd out_data p = (Inr a, q)"
    and valid: "valid_command cmd out_data isos" and inp: "pace_in cmd"
  shows "length (an_data a) = unat (uc_length cmd)
    \<and> map ip_actual_length (reply_isos cmd (an_data a) isos) = map ip_length isos"
proof -
  have cmd: "sint (uc_packets cmd) > 0" "uc_direction cmd = kDirIn" and "well_directed cmd"
    using inp by (auto simp: pace_in_def well_directed_def)
  with endpoint_answer_shape [OF req valid] have len: "length (an_data a) = unat (uc_length cmd)" by simp
  from valid cmd have "list_all (iso_in_bounds (length (an_data a))) isos"
    by (simp add: valid_command_def packet_count_def len)
  moreover have "length (an_data a) < 2 ^ 32" using unsigned_less [of "uc_length cmd"] by (simp add: len)
  ultimately have "ip_actual_length (reply_iso True (an_data a) d) = ip_length d" if "d \<in> set isos" for d
    using that by (intro iso_actual_whole) (simp_all add: list_all_iff)
  with len cmd show ?thesis by (simp add: reply_isos_def)
qed

text \<open>An OUT transfer that succeeds is acknowledged with its length.\<close>

lemma out_actual_length:
  assumes valid: "valid_command cmd out_data isos" and dir: "uc_direction cmd = kDirOut" and status: "an_status a = 0"
  shows "unat (ur_actual_length (ret_for cmd out_data isos a)) = length out_data"
proof -
  have out: "length out_data = unat (uc_length cmd)" using valid dir by (simp add: valid_command_def)
  have limit: "unat (uc_length cmd) < 2 ^ 32" using unsigned_less [of "uc_length cmd"] by simp
  have "actual_length cmd out_data (an_data a) isos = of_nat (unat (uc_length cmd))"
  proof (cases "sint (uc_packets cmd) > 0")
    case True
    then have "packet_count cmd > 0" by (simp add: packet_count_def)
    with valid have "list_all (iso_in_bounds (unat (uc_length cmd))) isos"
      "sum_list (map (\<lambda>d. unat (ip_length d)) isos) = unat (uc_length cmd)"
      by (simp_all add: valid_command_def)
    from iso_actual_sum [OF this limit, of False "an_data a"] True dir show ?thesis
      by (simp add: actual_length_def reply_isos_def del: map_map)
  next
    case False
    with dir out show ?thesis by (simp add: actual_length_def)
  qed
  with status out show ?thesis by (simp add: ret_for_def)
qed

lemma length_reply_isos: "valid_command cmd out_data isos \<Longrightarrow> length (reply_isos cmd data isos) = packet_count cmd"
  by (auto simp: reply_isos_def valid_command_def packet_count_def split: if_splits)

section \<open>The gain loop\<close>

definition sample_at :: "bytes \<Rightarrow> nat \<Rightarrow> int" where
  "sample_at bs k = sint (le_value [bs ! k, bs ! Suc k] :: 16 word)"

lemma le_bytes_2: "\<exists>x y. le_bytes 2 w = [x, y]"
  by (simp add: numeral_2_eq_2 le_bytes_Suc le_bytes_def)

lemma length_gain_loop [simp]: "length (gain_loop g bs) = length bs"
  by (induction g bs rule: gain_loop.induct) (simp_all add: scale_sample_def Let_def)

text \<open>A gain between 0 and 1 keeps a sample within 16 bits, so the clamping does nothing.\<close>

lemma scaled_in_range:
  assumes "0 \<le> g" "g \<le> 32768" "-32768 \<le> s" "s \<le> 32767"
  shows "scaled_value g s = s * g div 32768" "-32768 \<le> s * g div 32768" "s * g div 32768 \<le> 32767"
proof -
  have "s * g \<le> 32767 * 32768" "-32768 * 32768 \<le> s * g"
  proof -
    have "s * g \<le> 32767 * g" using assms by (intro mult_right_mono) simp_all
    also have "\<dots> \<le> 32767 * 32768" using assms by simp
    finally show "s * g \<le> 32767 * 32768" .
    have "-32768 * 32768 \<le> -32768 * g" using assms by simp
    also have "\<dots> \<le> s * g" using assms by (intro mult_right_mono) simp_all
    finally show "-32768 * 32768 \<le> s * g" .
  qed
  then show b: "-32768 \<le> s * g div 32768" "s * g div 32768 \<le> 32767" by linarith+
  then show "scaled_value g s = s * g div 32768" by (simp add: scaled_value_def Let_def)
qed

lemma sint_16_range: "-32768 \<le> sint (w :: 16 word)" "sint (w :: 16 word) \<le> 32767"
  using sint_ge [of w] sint_lt [of w] by simp_all

lemma sint_16_of_int: "-32768 \<le> k \<Longrightarrow> k \<le> 32767 \<Longrightarrow> sint (word_of_int k :: 16 word) = k"
  by (simp add: sint_sbintrunc' signed_take_bit_int_eq_self)

lemma scale_sample_pair:
  assumes "0 \<le> g" "g \<le> 32768"
  shows "\<exists>x y. scale_sample g a b = [x, y]
    \<and> sint (le_value [x, y] :: 16 word) = sint (le_value [a, b] :: 16 word) * g div 32768"
proof -
  let ?s = "sint (le_value [a, b] :: 16 word)"
  let ?w = "word_of_int (scaled_value g ?s) :: 16 word"
  obtain x y where xy: "le_bytes 2 ?w = [x, y]" using le_bytes_2 by blast
  note range = scaled_in_range [OF assms sint_16_range [of "le_value [a, b]"]]
  have "le_value [x, y] = ?w" using le_value_le_bytes [of 2 ?w] xy by simp
  moreover have "sint ?w = scaled_value g ?s"
    using range by (simp add: sint_16_of_int)
  ultimately show ?thesis
    using xy range by (simp add: scale_sample_def Let_def)
qed

lemma gain_loop_samples:
  assumes "0 \<le> g" "g \<le> 32768" "f < length bs div 8" "c < 2"
  shows "sample_at (gain_loop g bs) (8 * f + 2 * c) = sample_at bs (8 * f + 2 * c) * g div 32768"
  using assms
proof (induction g bs arbitrary: f rule: gain_loop.induct)
  case (1 g a b c' d h1 h2 h3 h4 rest)
  obtain x y where xy: "scale_sample g a b = [x, y]"
    "sint (le_value [x, y] :: 16 word) = sint (le_value [a, b] :: 16 word) * g div 32768"
    using scale_sample_pair [OF "1.prems"(1,2)] by blast
  obtain z w where zw: "scale_sample g c' d = [z, w]"
    "sint (le_value [z, w] :: 16 word) = sint (le_value [c', d] :: 16 word) * g div 32768"
    using scale_sample_pair [OF "1.prems"(1,2)] by blast
  show ?case
  proof (cases f)
    case 0
    with "1.prems"(4) xy zw show ?thesis by (auto simp: sample_at_def less_2_cases_iff)
  next
    case (Suc f')
    with "1.IH" [of f'] "1.prems" xy zw show ?thesis by (simp add: sample_at_def)
  qed
qed simp_all

lemma gain_loop_others:
  assumes "i < length bs" "i mod 8 \<ge> 4 \<or> i \<ge> 8 * (length bs div 8)"
  shows "gain_loop g bs ! i = bs ! i"
  using assms
proof (induction g bs arbitrary: i rule: gain_loop.induct)
  case (1 g a b c d h1 h2 h3 h4 rest)
  have len: "length (scale_sample g v w) = 2" for v w by (simp add: scale_sample_def Let_def)
  obtain x y where xy: "scale_sample g a b = [x, y]" using len [of a b] by (auto simp: numeral_2_eq_2 length_Suc_conv)
  obtain z w where zw: "scale_sample g c d = [z, w]" using len [of c d] by (auto simp: numeral_2_eq_2 length_Suc_conv)
  show ?case
  proof (cases "i < 8")
    case True
    with "1.prems" have "i = 4 \<or> i = 5 \<or> i = 6 \<or> i = 7" by auto
    with xy zw show ?thesis by (auto simp: eval_nat_numeral)
  next
    case False
    then obtain j where j: "i = 8 + j" by (metis le_iff_add not_less)
    with "1.IH" [of j] "1.prems" xy zw show ?thesis by simp
  qed
qed simp_all

section \<open>The mixer\<close>

lemma le_bytes_2_value: "le_bytes 2 (le_value [lo, hi] :: u16) = [lo, hi]"
proof -
  have "(ucast (le_value [lo, hi] :: u16) :: u8) = lo"
    by (rule bit_eqI) (simp add: le_value_def bit_ucast_iff bit_or_iff bit_push_bit_iff)
  moreover have "(ucast (drop_bit 8 (le_value [lo, hi] :: u16)) :: u8) = hi"
    by (rule bit_eqI) (auto simp: le_value_def bit_ucast_iff bit_or_iff bit_push_bit_iff bit_drop_bit_eq
        dest: bit_imp_le_length)
  ultimately show ?thesis by (simp add: numeral_2_eq_2 le_bytes_Suc le_bytes_def)
qed

lemma gain_bounds: "0 \<le> vp_speaker_gain_q15 (update_speaker_gain g p) \<and> vp_speaker_gain_q15 (update_speaker_gain g p) \<le> 32768"
proof -
  have "0 \<le> \<lfloor>l * 32768 + 1 / 2\<rfloor> \<and> \<lfloor>l * 32768 + 1 / 2\<rfloor> \<le> 32768" if "0 \<le> l" "l \<le> 1" for l :: rat
    using that by (simp add: floor_le_iff)
  then show ?thesis by (simp add: update_speaker_gain_def Let_def)
qed

lemma gain_value:
  "vp_speaker_gain_q15 (update_speaker_gain g p) =
    (if vp_fu_muted p then 0
     else max 0 (min 32768 \<lfloor>g (sint (vp_fu_volume_db256 p)) * 32768 + 1 / 2\<rfloor>))"
proof -
  have "\<lfloor>(if (if l > 1 then 1 else l) < 0 then 0 else if l > 1 then 1 else l) * 32768 + 1 / 2\<rfloor>
      = max 0 (min 32768 \<lfloor>l * 32768 + 1 / 2\<rfloor>)" for l :: rat
  proof -
    consider "l > 1" | "l < 0" | "0 \<le> l" "l \<le> 1" by linarith
    then show ?thesis
    proof cases
      case 1
      then have "32768 \<le> \<lfloor>l * 32768 + 1 / 2\<rfloor>" by (simp add: le_floor_iff)
      moreover have "\<lfloor>65537 / 2 :: rat\<rfloor> = 32768" by (simp add: floor_eq_iff)
      ultimately show ?thesis using 1 by simp
    next
      case 2
      then have "\<lfloor>l * 32768 + 1 / 2\<rfloor> \<le> 0" by (simp add: floor_le_iff)
      moreover have "\<lfloor>1 / 2 :: rat\<rfloor> = 0" by (simp add: floor_eq_iff)
      ultimately show ?thesis using 2 by simp
    next
      case 3
      then have "0 \<le> \<lfloor>l * 32768 + 1 / 2\<rfloor>" "\<lfloor>l * 32768 + 1 / 2\<rfloor> \<le> 32768" by (simp_all add: floor_le_iff)
      with 3 show ?thesis by simp
    qed
  qed
  then show ?thesis by (simp add: update_speaker_gain_def Let_def)
qed

section \<open>Properties of the replies\<close>

text \<open>
  C13. For a command as a USB host makes it, the bytes that go out are one whole reply as the
  client reads it, sent at once or handed to the pacer: it carries the command's sequence number,
  as much data as the header announces, one descriptor per packet; a control read never gets more
  than it asked for, and a microphone transfer is filled completely.
\<close>

theorem submit_reply_readable:
  assumes valid: "valid_command cmd out_data isos" and directed: "well_directed cmd"
    and q: "queues_ok p" "small_reads (se_arrivals env)"
    and run: "handle_cmd_submit env client cmd out_data isos p = (out, p')" and continues: "so_continue out"
  shows "\<exists>bs reply. client_read (uc_direction cmd = kDirIn) bs = Some (reply, [])
    \<and> (if pace_out cmd \<or> pace_in cmd
       then so_sent out = [] \<and> (\<exists>due. vp_paced_replies p' = multimap_emplace due (client, bs) (vp_paced_replies p))
       else so_sent out = bs \<and> vp_paced_replies p' = vp_paced_replies p)
    \<and> cr_seqnum reply = uc_seqnum cmd \<and> length (cr_isos reply) = packet_count cmd
    \<and> (uc_ep cmd = 0 \<and> device_to_host (read_setup (uc_setup cmd)) \<longrightarrow>
         length (cr_data reply) \<le> unat (su_length (read_setup (uc_setup cmd))))
    \<and> (pace_in cmd \<longrightarrow> length (cr_data reply) = unat (uc_length cmd)
         \<and> map ip_actual_length (cr_isos reply) = map ip_length isos)
    \<and> (uc_direction cmd = kDirOut \<and> cr_status reply = 0 \<longrightarrow> unat (cr_actual_length reply) = length out_data)"
proof -
  have facts: "client_read (uc_direction cmd = kDirIn) (reply_of cmd out_data isos a) = Some
        (\<lparr>cr_seqnum = uc_seqnum cmd, cr_status = an_status a,
             cr_actual_length = ur_actual_length (ret_for cmd out_data isos a), cr_data = an_data a,
          cr_isos = reply_isos cmd (an_data a) isos\<rparr>, [])"
    "uc_ep cmd = 0 \<and> device_to_host (read_setup (uc_setup cmd)) \<longrightarrow>
       length (an_data a) \<le> unat (su_length (read_setup (uc_setup cmd)))"
    "pace_in cmd \<longrightarrow> length (an_data a) = unat (uc_length cmd)
       \<and> map ip_actual_length (reply_isos cmd (an_data a) isos) = map ip_length isos"
    "uc_direction cmd = kDirOut \<and> an_status a = 0 \<longrightarrow>
       unat (ur_actual_length (ret_for cmd out_data isos a)) = length out_data"
    if "endpoint_request env cmd out_data p = (Inr a, r)" for a r
    using client_reads_reply_of [OF that valid directed q, of "[]"] control_clamped [OF that]
      mic_packets_whole [OF that valid] out_actual_length [OF valid, of a] by simp_all
  have kept: "vp_paced_replies r = vp_paced_replies p" if "endpoint_request env cmd out_data p = (x, r)" for x r
    using session_part_endpoint [of env cmd out_data p] that by (auto dest: session_part_paced)
  from run show ?thesis
  proof (cases rule: handle_cmd_submit_cases)
    case (Throws e)
    with continues show ?thesis by simp
  next
    case (Paced a r)
    from facts [OF Paced(1)] Paced kept [OF Paced(1)] show ?thesis
      by (intro exI conjI) (auto simp: length_reply_isos [OF valid] enqueue_paced_replies
          paced_bytes_reply [OF Paced(1) valid Paced(2)])
  next
    case (Sent a)
    then have "so_sent out = reply_of cmd out_data isos a"
      using continues by (simp flip: concat_send_parts)
    with facts [OF Sent(1)] Sent kept [OF Sent(1)] show ?thesis
      by (intro exI conjI) (auto simp: length_reply_isos [OF valid])
  qed
qed

definition example_mic_command :: cmd_submit where
  "example_mic_command =
     \<lparr>uc_command = kCmdSubmit, uc_seqnum = 7, uc_devid = 0x10001, uc_direction = kDirIn, uc_ep = kEpAudioIn,
      uc_transfer_flags = 0, uc_length = 8, uc_packets = 2, uc_setup = replicate 8 0\<rparr>"

definition example_isos :: "iso_packet list" where
  "example_isos = [\<lparr>ip_offset = 0, ip_length = 4, ip_actual_length = 0, ip_status = 0\<rparr>,
     \<lparr>ip_offset = 4, ip_length = 4, ip_actual_length = 0, ip_status = 0\<rparr>]"

definition example_submit_env :: submit_env where
  "example_submit_env =
     \<lparr>se_now = 5000, se_arrivals = [], se_pipe_ok = True, se_sends = 3, se_pow_gain = (\<lambda>v. if v < 0 then 1 / 2 else 1)\<rparr>"

theorem submit_reply_readable_witness:
  "\<exists>bs reply. client_read True bs = Some (reply, []) \<and> cr_seqnum reply = 7 \<and> length (cr_isos reply) = 2
    \<and> length (cr_data reply) = 8"
proof -
  let ?run = "handle_cmd_submit example_submit_env 1 example_mic_command [] example_isos (new_port 0 0)"
  have paced: "pace_in example_mic_command"
    by (simp add: pace_in_def example_mic_command_def)
  have count: "packet_count example_mic_command = 2"
    by (simp add: packet_count_def example_mic_command_def)
  have valid: "valid_command example_mic_command [] example_isos"
    by (simp add: valid_command_def packet_count_def example_mic_command_def example_isos_def iso_in_bounds_def
        kMaxTransferBufferBytes_def kMaxIsoPackets_def)
  have "well_directed example_mic_command" using paced by (auto simp: well_directed_def pace_in_def)
  moreover have "queues_ok (new_port 0 0)" by (simp add: queues_ok_def new_port_def)
  moreover have "small_reads (se_arrivals example_submit_env)" by (simp add: small_reads_def example_submit_env_def)
  moreover have "so_continue (fst ?run)"
    using paced by (simp add: handle_cmd_submit_def endpoint_request_def audio_in_request_def example_mic_command_def
        split: prod.splits)
  ultimately have "\<exists>bs reply. client_read (uc_direction example_mic_command = kDirIn) bs = Some (reply, [])
      \<and> cr_seqnum reply = uc_seqnum example_mic_command \<and> length (cr_isos reply) = packet_count example_mic_command
      \<and> (pace_in example_mic_command \<longrightarrow> length (cr_data reply) = unat (uc_length example_mic_command))"
    using submit_reply_readable [where env = example_submit_env and p = "new_port 0 0" and client = 1,
        OF valid _ _ _ prod.collapse [symmetric]] by blast
  with paced count show ?thesis by (simp add: example_mic_command_def)
qed

text \<open>
  The speaker volume is applied to the speaker's channels only: of every frame of four 16-bit
  samples the two speaker samples become their product with the gain, rounded down, which never
  leaves the 16 bits, and every other byte is forwarded as it came.
\<close>

theorem speaker_gain_scope:
  assumes "0 \<le> g" "g \<le> 32768"
  shows "length (apply_speaker_gain g pcm) = length pcm
    \<and> (\<forall>i < length pcm. i mod 8 \<ge> 4 \<or> i \<ge> 8 * (length pcm div 8) \<longrightarrow> apply_speaker_gain g pcm ! i = pcm ! i)
    \<and> (\<forall>f < length pcm div 8. \<forall>c < 2. sample_at (apply_speaker_gain g pcm) (8 * f + 2 * c)
          = sample_at pcm (8 * f + 2 * c) * g div 32768)"
  using assms by (simp add: apply_speaker_gain_def gain_loop_samples gain_loop_others)

theorem speaker_gain_scope_witness:
  "apply_speaker_gain 16384 [0, 16, 0, 240, 1, 2, 3, 4, 9] ! 5 = 2
    \<and> sample_at (apply_speaker_gain 16384 [0, 16, 0, 240, 1, 2, 3, 4, 9]) 2
      = sample_at [0, 16, 0, 240, 1, 2, 3, 4, 9] 2 * 16384 div 32768"
proof -
  have g: "0 \<le> (16384 :: int)" "16384 \<le> (32768 :: int)" by simp_all
  let ?pcm = "[0, 16, 0, 240, 1, 2, 3, 4, 9] :: bytes"
  note scope = speaker_gain_scope [OF g, of ?pcm]
  note others = scope [THEN conjunct2, THEN conjunct1] and samples = scope [THEN conjunct2, THEN conjunct2]
  have "apply_speaker_gain 16384 ?pcm ! 5 = 2" using others [rule_format, of 5] by simp
  moreover have "sample_at (apply_speaker_gain 16384 ?pcm) 2 = sample_at ?pcm 2 * 16384 div 32768"
    using samples [rule_format, of 0 1] by (simp add: numeral_2_eq_2)
  ultimately show ?thesis ..
qed

text \<open>
  The mixer keeps what the host sets: after SET_CUR of the volume or of mute, GET_CUR returns
  the same bytes, and the gain of the speaker is the rounded amplitude of the volume, limited to
  full scale, or 0 while muted.
\<close>

theorem mixer_set_then_get:
  assumes set: "su_request_type s = 0x21" "su_request s = 0x01"
    and get: "su_request_type t = 0xa1" "su_request t = 0x81" "value_high t = value_high s" "su_length t = 2"
  shows "(value_high s = 0x02 \<longrightarrow>
      (\<exists>q. control_request env s [lo, hi] p = (Inr (answer_data []), q)
        \<and> control_request env t [] q = (Inr (answer_data [lo, hi]), q)
        \<and> vp_speaker_gain_q15 q = (if vp_fu_muted p then 0
            else max 0 (min 32768 \<lfloor>se_pow_gain env (sint (le_value [lo, hi] :: 16 word)) * 32768 + 1 / 2\<rfloor>))))
    \<and> (value_high s = 0x01 \<longrightarrow>
      (\<exists>q. control_request env s [lo] p = (Inr (answer_data []), q)
        \<and> control_request env t [] q = (Inr (answer_data [if lo = 0 then 0 else 1]), q)
        \<and> (lo \<noteq> 0 \<longrightarrow> vp_speaker_gain_q15 q = 0)))"
    (is "(_ \<longrightarrow> ?volume) \<and> (_ \<longrightarrow> ?mute)")
proof -
  have kinds: "request_kind s = 0x20" "\<not> device_to_host s" "su_request_type s AND 0x1f = 0x01"
    "request_kind t = 0x20" "device_to_host t" "su_request_type t AND 0x1f = 0x01"
    using set get by (simp_all add: request_kind_def device_to_host_def)
  have req: "control_request env s out q = feature_unit_request env s out q"
    "control_request env t out q = feature_unit_request env t out q" for out q
    using kinds set get by (simp_all add: control_request_def)
  have f: "vp_fu_muted (update_speaker_gain g q) = vp_fu_muted q"
    "vp_fu_volume_db256 (update_speaker_gain g q) = vp_fu_volume_db256 q" for g q
    by (simp_all add: update_speaker_gain_def Let_def)
  have "value_high s = 0x02 \<longrightarrow> ?volume"
    using kinds set get by (simp add: req feature_unit_request_def feature_unit_set_def feature_unit_get_def f
        gain_value le_bytes_2_value)
  moreover have "value_high s = 0x01 \<longrightarrow> ?mute"
    using kinds set get by (simp add: req feature_unit_request_def feature_unit_set_def feature_unit_get_def f gain_value)
  ultimately show ?thesis ..
qed

definition example_setup :: "u8 \<Rightarrow> u8 \<Rightarrow> u16 \<Rightarrow> u16 \<Rightarrow> setup_packet" where
  "example_setup t r v n = \<lparr>su_request_type = t, su_request = r, su_value = v, su_index = 0x0200, su_length = n\<rparr>"

theorem mixer_set_then_get_witness:
  "\<exists>q. control_request example_submit_env (example_setup 0x21 0x01 0x0200 2) [0x00, 0xf6] (new_port 0 0)
         = (Inr (answer_data []), q)
     \<and> control_request example_submit_env (example_setup 0xa1 0x81 0x0200 2) [] q
         = (Inr (answer_data [0x00, 0xf6]), q)"
proof -
  have high: "value_high (example_setup t r 0x0200 n) = 0x02" for t r n
    by (simp add: value_high_def example_setup_def)
  have "value_high (example_setup 0x21 0x01 0x0200 2) = 0x02 \<longrightarrow>
      (\<exists>q. control_request example_submit_env (example_setup 0x21 0x01 0x0200 2) [0x00, 0xf6] (new_port 0 0)
          = (Inr (answer_data []), q)
        \<and> control_request example_submit_env (example_setup 0xa1 0x81 0x0200 2) [] q
          = (Inr (answer_data [0x00, 0xf6]), q)
        \<and> vp_speaker_gain_q15 q = (if vp_fu_muted (new_port 0 0) then 0 else max 0 (min 32768
            \<lfloor>se_pow_gain example_submit_env (sint (le_value [0x00, 0xf6] :: 16 word)) * 32768 + 1 / 2\<rfloor>)))"
    by (rule mixer_set_then_get [THEN conjunct1]) (simp_all add: high, simp_all add: example_setup_def)
  with high show ?thesis by blast
qed

text \<open>
  A host finds the device it expects: the first nine bytes of the configuration tell the
  length with which the second read returns the whole table, for both controllers, and every other
  descriptor, the texts included, is returned whole when the host asks for 255 bytes or more, in
  which a text is spelled out in 16-bit units after its length byte.
\<close>

theorem descriptors_served:
  "list_all (\<lambda>profile.
     let d = descriptors_for_profile profile;
         get = (\<lambda>t i n. get_descriptor profile \<lparr>su_request_type = 0x80, su_request = 6,
                  su_value = ucast i OR push_bit 8 (ucast (t :: u8)), su_index = 0, su_length = n\<rparr>) in
     get 2 (0 :: u8) (of_nat (le16_at (get 2 0 9) 2)) = pd_config d \<and> get 1 0 255 = pd_device d
     \<and> get 0x21 0 255 = pd_hid d \<and> get 0x22 0 1024 = pd_hid_report d
     \<and> list_all (\<lambda>(i, s). get 3 i 255 = of_nat (2 + 2 * length s) # 3 # concat (map (\<lambda>c. [of_nat (code_of c), 0]) s))
         [(1, VDS_USB_MANUFACTURER_STRING),
          (2, if profile = VDS_PROFILE_DSE then VDS_DSE_USB_PRODUCT_STRING else VDS_DS5_USB_PRODUCT_STRING)])
   [VDS_PROFILE_DS5, VDS_PROFILE_DSE]"
  by (simp add: get_descriptor_def value_high_def value_low_def Let_def descriptors_for_profile_def le16_at_def
      string_descriptor_def build_string_descriptor_def VDS_PROFILE_DS5_def VDS_PROFILE_DSE_def
      vds_ds5_usb_configuration_descriptor_def vds_dse_usb_configuration_descriptor_def
      vds_ds5_usb_device_descriptor_def vds_dse_usb_device_descriptor_def vds_ds5_usb_hid_descriptor_def
      vds_dse_usb_hid_descriptor_def vds_ds5_usb_hid_report_descriptor_def vds_dse_usb_hid_report_descriptor_def
      VDS_USB_MANUFACTURER_STRING_def VDS_DS5_USB_PRODUCT_STRING_def VDS_DSE_USB_PRODUCT_STRING_def code_of_def)

end
