(* ===== verification/UsbIpSession.thy ===== *)
theory UsbIpSession
  imports UsbIpSubmit
begin

text \<open>
  \<open>handle_import_session\<close> of \<open>src/src/platform/win32/vds_usbip.cc\<close>: the loop over the client's
  commands, and the threads of a port (session, pipe reader, pacer, the owner that stops it) as a
  step relation whose steps interleave.
\<close>

section \<open>One round of the command loop\<close>

text \<open>What the next bytes of the client are; a receive that fails ends the session.\<close>

datatype session_input =
    End_of_session
  | Throws exn
  | Unlink u32 bytes
  | Submission cmd_submit bytes "iso_packet list" bytes

definition limits_ok :: "cmd_submit \<Rightarrow> bool" where
  "limits_ok cmd \<longleftrightarrow>
     (uc_direction cmd = kDirOut \<or> uc_direction cmd = kDirIn) \<and> \<not> sint (uc_length cmd) < 0
     \<and> \<not> unat (uc_length cmd) > kMaxTransferBufferBytes
     \<and> \<not> sint (uc_packets cmd) < -1 \<and> \<not> sint (uc_packets cmd) > kMaxIsoPackets"

definition next_input :: "bytes \<Rightarrow> session_input" where
  "next_input bs =
     (if length bs < 48 then End_of_session
      else
        (let cmd = read_cmd bs; rest = drop 48 bs in
         if uc_command cmd = kCmdUnlink then Unlink (uc_seqnum cmd) rest
         else if uc_command cmd \<noteq> kCmdSubmit then End_of_session
         else if \<not> limits_ok cmd then End_of_session
         else
           (let n = (if uc_direction cmd = kDirOut \<and> sint (uc_length cmd) > 0 then unat (uc_length cmd) else 0);
                k = packet_count cmd; after = drop n rest; isos = read_isos k after in
            if length rest < n then End_of_session
            else if length after < 16 * k then End_of_session
            else if k > 0 \<and> \<not> list_all (iso_in_bounds (unat (uc_length cmd))) isos then
              Throws (Runtime_error ''invalid USB/IP isochronous packet bounds'')
            else if k > 0 \<and> sum_list (map (\<lambda>d. unat (ip_length d)) isos) \<noteq> unat (uc_length cmd) then
              Throws (Runtime_error ''invalid USB/IP isochronous transfer length'')
            else Submission cmd (take n rest) isos (drop (16 * k) after))))"

text \<open>What a round did: the bytes left for the next round, or \<open>None\<close> when the loop is left.\<close>

record round_outcome =
  ro_rest :: "bytes option"
  ro_frames :: "frame list"
  ro_sent :: bytes

definition loop_left :: round_outcome where
  "loop_left = \<lparr>ro_rest = None, ro_frames = [], ro_sent = []\<rparr>"

definition session_round :: "submit_env \<Rightarrow> nat \<Rightarrow> bytes \<Rightarrow> vport \<Rightarrow> round_outcome \<times> vport" where
  "session_round env client bs p =
     (if vp_stop_requested p then (loop_left, p)
      else
        (case next_input bs of
           End_of_session \<Rightarrow> (loop_left, p)
         | Throws e \<Rightarrow> (loop_left, p)
         | Unlink seqnum rest \<Rightarrow>
             (\<lparr>ro_rest = Some rest, ro_frames = [],
               ro_sent = (if se_sends env > 0 then unlink_reply_bytes seqnum else [])\<rparr>, p)
         | Submission cmd out_data isos rest \<Rightarrow>
             (let (out, q) = handle_cmd_submit env client cmd out_data isos p in
              (\<lparr>ro_rest = (if so_continue out then Some rest else None), ro_frames = so_frames out,
                ro_sent = so_sent out\<rparr>, q))))"

lemma next_input_shorter:
  "next_input bs = Unlink n rest \<Longrightarrow> length rest < length bs"
  "next_input bs = Submission cmd out_data isos rest \<Longrightarrow> length rest < length bs"
  by (auto simp: next_input_def Let_def split: if_splits)

lemma session_round_shorter: "session_round env c bs p = (out, q) \<Longrightarrow> ro_rest out = Some rest \<Longrightarrow> length rest < length bs"
  by (auto simp: session_round_def loop_left_def dest: next_input_shorter split: if_splits session_input.splits prod.splits)

text \<open>The loop: one environment per round. It ends because every round takes bytes of the client.\<close>

function session_loop ::
    "(nat \<Rightarrow> submit_env) \<Rightarrow> nat \<Rightarrow> nat \<Rightarrow> bytes \<Rightarrow> vport \<Rightarrow> frame list \<times> bytes \<times> vport" where
  "session_loop env client k bs p =
     (case session_round (env k) client bs p of
        (out, q) \<Rightarrow>
          (case ro_rest out of
             None \<Rightarrow> (ro_frames out, ro_sent out, q)
           | Some rest \<Rightarrow>
               (case session_loop env client (Suc k) rest q of
                  (frames, sent, r) \<Rightarrow> (ro_frames out @ frames, ro_sent out @ sent, r))))"
  by pat_completeness auto
termination
  by (relation "measure (\<lambda>(_, _, _, bs, _). length bs)") (auto intro: session_round_shorter [OF sym])

declare session_loop.simps [simp del]

lemma submission_valid: "next_input bs = Submission cmd out_data isos rest \<Longrightarrow> valid_command cmd out_data isos"
proof -
  assume inp: "next_input bs = Submission cmd out_data isos rest"
  have pos: "unat (uc_length cmd) = 0" if "sint (uc_length cmd) = 0"
    using that by (simp add: signed_eq_0_iff)
  from inp pos show ?thesis
    by (auto simp: next_input_def Let_def valid_command_def limits_ok_def split: if_splits)
qed

section \<open>Opening and closing a session\<close>

text \<open>
  The part of \<open>handle_import_session\<close> before the loop: the reply, the device, the connection of the
  daemon's end of the pipe and the start of the reader. The result says whether the loop is
  entered; the connection is cleaned up only once the device has been sent.
\<close>

definition import_reply :: "u32 \<Rightarrow> bytes" where
  "import_reply status = op_header_bytes \<lparr>oh_version = kProtocolVersion, oh_code = kOpRepImport, oh_status = status\<rparr>"

definition open_session :: "nat \<Rightarrow> bool \<Rightarrow> string \<Rightarrow> vport \<Rightarrow> bool \<times> bytes \<times> vport" where
  "open_session sends pipe_connected busid p =
     (if sends < 1 then (False, [], p)
      else if sends < 2 then (False, import_reply 0, p)
      else
        (let sent = import_reply 0 @ wire_device (vp_profile p) (vp_port_index p) busid; q = p\<lparr>vp_attached := True\<rparr> in
         if pipe_connected then (True, sent, start_reader q) else (False, sent, cleanup_connection q)))"

definition close_session :: "vport \<Rightarrow> vport" where
  "close_session p = finish_import_session (cleanup_connection p)"

section \<open>The threads of a port\<close>

text \<open>
  The port, the session that is open with its client and the client's bytes that were not read
  yet, what was sent to the clients and what was written to the daemon.
\<close>

record usbip_system =
  us_port :: vport
  us_session :: "(nat \<times> bytes) option"
  us_sent :: "(nat \<times> bytes) list"
  us_frames :: "frame list"

inductive usbip_step :: "string \<Rightarrow> usbip_system \<Rightarrow> usbip_system \<Rightarrow> bool" for busid where
  Import: "usbip_step busid s (s\<lparr>us_port := r, us_session := Some (client, input), us_sent := us_sent s @ [(client, sent)]\<rparr>)"
    if "begin_import_session client (us_port s) = (True, q)" "open_session sends pipe_connected busid q = (True, sent, r)"
| Import_fails: "usbip_step busid s (s\<lparr>us_port := finish_import_session r, us_sent := us_sent s @ [(client, sent)]\<rparr>)"
    if "begin_import_session client (us_port s) = (True, q)" "open_session sends pipe_connected busid q = (False, sent, r)"
| Command: "usbip_step busid s (s\<lparr>us_port := q, us_session := Some (client, rest),
      us_sent := us_sent s @ [(client, ro_sent out)], us_frames := us_frames s @ ro_frames out\<rparr>)"
    if "us_session s = Some (client, input)" "small_reads (se_arrivals env)"
      "session_round env client input (us_port s) = (out, q)" "ro_rest out = Some rest"
| Session_ends: "usbip_step busid s (s\<lparr>us_port := close_session q, us_session := None,
      us_sent := us_sent s @ [(client, ro_sent out)], us_frames := us_frames s @ ro_frames out\<rparr>)"
    if "us_session s = Some (client, input)" "small_reads (se_arrivals env)"
      "session_round env client input (us_port s) = (out, q)" "ro_rest out = None"
| Reader: "usbip_step busid s (s\<lparr>us_port := pipe_reader_round read (us_port s)\<rparr>)"
    if "small_reads [read]"
| Pacer: "usbip_step busid s (s\<lparr>us_port := q, us_sent := us_sent s @ [(client, bs)]\<rparr>)"
    if "iso_pacer_round now (us_port s) = (Some (client, bs), q)"
| Stop: "usbip_step busid s (s\<lparr>us_port := stop_port (us_port s)\<rparr>)"

inductive_cases usbip_stepE: "usbip_step busid s t"

definition new_system :: "nat \<Rightarrow> nat \<Rightarrow> usbip_system" where
  "new_system profile port_index =
     \<lparr>us_port = (new_port profile port_index)\<lparr>vp_registered := True\<rparr>, us_session = None, us_sent = [], us_frames = []\<rparr>"

definition usbip_reachable :: "string \<Rightarrow> nat \<Rightarrow> nat \<Rightarrow> usbip_system \<Rightarrow> bool" where
  "usbip_reachable busid profile port_index s \<longleftrightarrow> (usbip_step busid)\<^sup>*\<^sup>* (new_system profile port_index) s"

section \<open>The invariant\<close>

definition gain_ok :: "vport \<Rightarrow> bool" where
  "gain_ok p \<longleftrightarrow> 0 \<le> vp_speaker_gain_q15 p \<and> vp_speaker_gain_q15 p \<le> 32768"

definition port_ok :: "vport \<Rightarrow> bool" where
  "port_ok p \<longleftrightarrow> queues_ok p \<and> gain_ok p \<and> sorted (map fst (vp_paced_replies p))"

definition session_ok :: "usbip_system \<Rightarrow> bool" where
  "session_ok s \<longleftrightarrow>
     vp_session_active (us_port s) = (us_session s \<noteq> None) \<and> vp_attached (us_port s) = (us_session s \<noteq> None)
     \<and> (case us_session s of
          None \<Rightarrow> vp_paced_replies (us_port s) = [] \<and> vp_client_socket (us_port s) = None
            \<and> vp_iso_out_next_due (us_port s) = 0 \<and> vp_iso_in_next_due (us_port s) = 0
        | Some (client, _) \<Rightarrow>
            (\<forall>e \<in> set (vp_paced_replies (us_port s)). fst (snd e) = client)
            \<and> vp_client_socket (us_port s) = (if vp_stop_requested (us_port s) then None else Some client)
            \<and> vp_reader (us_port s) \<noteq> Reader_not_started)"

lemma gain_ok_reader [simp]: "gain_ok (pipe_reader_round r p) = gain_ok p"
  by (simp add: pipe_reader_round_def reader_frame_def gain_ok_def split: option.splits)

lemma gain_ok_wait [simp]: "gain_ok (during_wait reads p) = gain_ok p"
  by (induction reads arbitrary: p) (simp_all add: during_wait_def)

lemma gain_ok_updates [simp]:
  "gain_ok (p\<lparr>vp_hid_in_queue := a\<rparr>) = gain_ok p" "gain_ok (p\<lparr>vp_feature_reply_queue := a\<rparr>) = gain_ok p"
  "gain_ok (p\<lparr>vp_mic_ring_buffer := b\<rparr>) = gain_ok p" "gain_ok (p\<lparr>vp_mic_primed := c\<rparr>) = gain_ok p"
  "gain_ok (p\<lparr>vp_paced_replies := d\<rparr>) = gain_ok p" "gain_ok (p\<lparr>vp_attached := c\<rparr>) = gain_ok p"
  "gain_ok (p\<lparr>vp_iso_out_next_due := n\<rparr>) = gain_ok p" "gain_ok (p\<lparr>vp_iso_in_next_due := n\<rparr>) = gain_ok p"
  by (simp_all add: gain_ok_def)

lemma gain_ok_update_gain [simp]: "gain_ok (update_speaker_gain g p)"
  using gain_bounds [of g p] by (simp add: gain_ok_def)

lemma gain_ok_control:
  assumes "gain_ok p"
  shows "gain_ok (snd (control_request env su out_data p))"
proof (cases rule: control_request_cases [of env su out_data p])
  case Report
  with assms show ?thesis
    by (auto simp: get_report_def wait_for_feature_reply_def Let_def split: sum.splits prod.splits list.splits)
next
  case (Forward t bs q)
  with assms show ?thesis by (auto simp: forward_frame_def flush_mic_def)
qed (use assms in \<open>auto simp: feature_unit_set_def\<close>)

lemma gain_ok_endpoint: "gain_ok p \<Longrightarrow> gain_ok (snd (endpoint_request env cmd out_data p))"
proof (cases rule: endpoint_request_cases [of cmd env out_data p])
  case Control
  assume "gain_ok p"
  with Control gain_ok_control [of p env "read_setup (uc_setup cmd)" out_data] show ?thesis
    by (auto simp: Let_def split: prod.splits)
qed (auto simp: forward_frame_def audio_out_request_def hid_in_request_def audio_in_request_def
      wait_for_hid_in_frame_def take_mic_bytes_def Let_def split: prod.splits list.splits if_splits)

section \<open>How the reader evolves\<close>

text \<open>
  Outside the start of a session the reader can only exit, and once it has exited the queue of
  input reports only shrinks.
\<close>

definition reader_evolves :: "vport \<Rightarrow> vport \<Rightarrow> bool" where
  "reader_evolves p q \<longleftrightarrow>
     (vp_reader q = vp_reader p \<or> vp_reader p = Reader_running \<and> vp_reader q = Reader_exited)
     \<and> (vp_reader p = Reader_exited \<longrightarrow> (\<exists>n. vp_hid_in_queue q = drop n (vp_hid_in_queue p)))"

lemma reader_evolves_refl:
  "vp_reader q = vp_reader p \<Longrightarrow> vp_hid_in_queue q = vp_hid_in_queue p \<Longrightarrow> reader_evolves p q"
  unfolding reader_evolves_def by (metis drop_0)

lemma reader_evolves_trans: "reader_evolves p q \<Longrightarrow> reader_evolves q r \<Longrightarrow> reader_evolves p r"
  unfolding reader_evolves_def by (metis drop_drop reader_state.distinct(5))

lemma reader_evolves_round: "reader_evolves p (pipe_reader_round r p)"
proof (cases "vp_reader p = Reader_running")
  case True
  then show ?thesis
    by (simp add: pipe_reader_round_def reader_frame_def reader_evolves_def split: option.splits)
next
  case False
  then show ?thesis by (simp add: pipe_reader_round_def reader_evolves_refl)
qed

lemma reader_evolves_wait: "reader_evolves p (during_wait reads p)"
proof (induction reads arbitrary: p)
  case (Cons r reads)
  have "during_wait (r # reads) p = during_wait reads (pipe_reader_round r p)" by (simp add: during_wait_def)
  with Cons.IH [of "pipe_reader_round r p"] reader_evolves_round [of p r] show ?case
    by (auto intro: reader_evolves_trans)
qed (simp add: during_wait_def reader_evolves_refl)

lemma reader_evolves_pop: "vp_hid_in_queue p = f # fs \<Longrightarrow> reader_evolves p (p\<lparr>vp_hid_in_queue := fs\<rparr>)"
  unfolding reader_evolves_def by (auto intro: exI [of _ 1])

lemma reader_evolves_waits:
  "reader_evolves p (snd (wait_for_hid_in_frame reads p))" "reader_evolves p (snd (wait_for_feature_reply reads p))"
proof -
  have "reader_evolves (during_wait reads p) (snd (wait_for_hid_in_frame reads p))"
    by (auto simp: wait_for_hid_in_frame_def Let_def reader_evolves_refl reader_evolves_pop split: list.splits)
  with reader_evolves_wait [of p reads] show "reader_evolves p (snd (wait_for_hid_in_frame reads p))"
    by (rule reader_evolves_trans)
  have "reader_evolves (during_wait reads p) (snd (wait_for_feature_reply reads p))"
    by (auto simp: wait_for_feature_reply_def Let_def reader_evolves_refl split: list.splits)
  with reader_evolves_wait [of p reads] show "reader_evolves p (snd (wait_for_feature_reply reads p))"
    by (rule reader_evolves_trans)
qed

lemma reader_evolves_control: "reader_evolves p (snd (control_request env su out_data p))"
proof (cases rule: control_request_cases [of env su out_data p])
  case Report
  with reader_evolves_waits(2) [of p "se_arrivals env"] show ?thesis
    by (auto simp: get_report_def Let_def reader_evolves_refl split: sum.splits prod.splits)
next
  case (Forward t bs q)
  then show ?thesis by (auto simp: forward_frame_def flush_mic_def reader_evolves_refl)
qed (auto simp: feature_unit_set_def update_speaker_gain_def Let_def reader_evolves_refl)

lemma reader_evolves_endpoint: "reader_evolves p (snd (endpoint_request env cmd out_data p))"
proof (cases rule: endpoint_request_cases [of cmd env out_data p])
  case Control
  with reader_evolves_control [of p env "read_setup (uc_setup cmd)" out_data] show ?thesis
    by (auto simp: Let_def split: prod.splits)
next
  case Hid_in
  with reader_evolves_waits(1) [of p "se_arrivals env"] show ?thesis
    by (auto simp: hid_in_request_def split: prod.splits)
next
  case Audio_in
  then show ?thesis by (auto simp: audio_in_request_def take_mic_bytes_def Let_def reader_evolves_refl)
qed (auto simp: forward_frame_def audio_out_request_def reader_evolves_refl)

section \<open>What a round of the session does to the port\<close>

definition owner_part :: "vport \<Rightarrow> bool \<times> bool \<times> bool \<times> bool \<times> nat option" where
  "owner_part p =
     (vp_stop_requested p, vp_attached p, vp_registered p, vp_session_active p, vp_client_socket p)"

lemma owner_part_session: "session_part q = session_part p \<Longrightarrow> owner_part q = owner_part p"
  by (simp add: session_part_def owner_part_def)

lemma enqueue_paced_parts [simp]:
  "queues_ok (enqueue_paced d n now r p) = queues_ok p" "gain_ok (enqueue_paced d n now r p) = gain_ok p"
  "owner_part (enqueue_paced d n now r p) = owner_part p" "vp_reader (enqueue_paced d n now r p) = vp_reader p"
  "vp_hid_in_queue (enqueue_paced d n now r p) = vp_hid_in_queue p"
  by (simp_all add: enqueue_paced_def Let_def set_iso_anchor_def queues_ok_def gain_ok_def owner_part_def)

definition round_effect :: "nat \<Rightarrow> vport \<Rightarrow> vport \<Rightarrow> bool" where
  "round_effect client p q \<longleftrightarrow> port_ok q \<and> owner_part q = owner_part p \<and> reader_evolves p q
    \<and> (\<forall>e \<in> set (vp_paced_replies q). e \<in> set (vp_paced_replies p) \<or> fst (snd e) = client)"

lemma endpoint_effect:
  assumes ok: "port_ok p" "small_reads (se_arrivals env)" and run: "endpoint_request env cmd out_data p = (x, q)"
  shows "port_ok q \<and> owner_part q = owner_part p \<and> reader_evolves p q \<and> vp_paced_replies q = vp_paced_replies p"
proof -
  have q: "q = snd (endpoint_request env cmd out_data p)" by (simp add: run)
  note kept = session_part_endpoint [of env cmd out_data p, folded q]
  have "queues_ok q" "gain_ok q"
    unfolding q using ok queues_ok_endpoint gain_ok_endpoint by (simp_all add: port_ok_def)
  moreover have "reader_evolves p q" unfolding q by (rule reader_evolves_endpoint)
  ultimately show ?thesis
    using ok session_part_paced [OF kept] owner_part_session [OF kept] by (simp add: port_ok_def)
qed

lemma length_emplace: "length (multimap_emplace t a q) = Suc (length q)"
  using arg_cong [OF mm.mset_emplace [of t a q], of size] by simp

lemma set_emplace: "set (multimap_emplace t a q) = insert (t, a) (set q)"
  using arg_cong [OF mm.mset_emplace [of t a q], of set_mset] by simp

lemma submit_effect:
  assumes ok: "port_ok p" "small_reads (se_arrivals env)"
    and run: "handle_cmd_submit env client cmd out_data isos p = (out, q)"
  shows "round_effect client p q"
  using run
proof (cases rule: handle_cmd_submit_cases)
  case (Throws e)
  with endpoint_effect [OF ok Throws(1)] show ?thesis by (simp add: round_effect_def)
next
  case (Paced a r)
  note eff = endpoint_effect [OF ok Paced(1)]
  have "reader_evolves r q" unfolding Paced(6) by (rule reader_evolves_refl) simp_all
  with eff have "reader_evolves p q" by (blast intro: reader_evolves_trans)
  moreover have "port_ok q"
    using eff mm.sorted_emplace [of "vp_paced_replies p"] unfolding Paced(6) port_ok_def
    by (auto simp: enqueue_paced_replies)
  moreover have "owner_part q = owner_part p" using eff unfolding Paced(6) by simp
  moreover have "e \<in> set (vp_paced_replies p) \<or> fst (snd e) = client" if "e \<in> set (vp_paced_replies q)" for e
    using that eff unfolding Paced(6) by (auto simp: enqueue_paced_replies set_emplace)
  ultimately show ?thesis by (simp add: round_effect_def)
next
  case (Sent a)
  with endpoint_effect [OF ok Sent(1)] show ?thesis by (simp add: round_effect_def)
qed

lemma session_round_effect:
  assumes round: "session_round env client bs p = (out, q)" and ok: "port_ok p" "small_reads (se_arrivals env)"
  shows "round_effect client p q"
proof -
  have same: "round_effect client p p" using ok by (simp add: round_effect_def reader_evolves_refl)
  show ?thesis
  proof (cases "vp_stop_requested p")
    case True
    with round have "q = p" by (simp add: session_round_def)
    with same show ?thesis by (simp only:)
  next
    case False
    show ?thesis
    proof (cases "next_input bs")
      case (Submission cmd out_data isos rest)
      obtain o' r where run: "handle_cmd_submit env client cmd out_data isos p = (o', r)" by (rule prod.exhaust)
      with round False Submission have "q = r" by (simp add: session_round_def Let_def)
      with submit_effect [OF ok run] show ?thesis by simp
    next
      case (Unlink n rest)
      with round False have "q = p" by (simp add: session_round_def)
      with same show ?thesis by (simp only:)
    next
      case (Throws e)
      with round False have "q = p" by (simp add: session_round_def)
      with same show ?thesis by (simp only:)
    next
      case End_of_session
      with round False have "q = p" by (simp add: session_round_def)
      with same show ?thesis by (simp only:)
    qed
  qed
qed

section \<open>The invariant holds\<close>

lemma port_ok_reader: "port_ok p \<Longrightarrow> small_reads [r] \<Longrightarrow> port_ok (pipe_reader_round r p)"
  using session_part_paced [OF session_part_reader [of r p]]
  by (auto simp: port_ok_def small_reads_def intro!: pipe_reader_round_ok split: option.splits)

lemma owner_part_reader [simp]: "owner_part (pipe_reader_round r p) = owner_part p"
  by (rule owner_part_session) simp

lemma paced_reader [simp]: "vp_paced_replies (pipe_reader_round r p) = vp_paced_replies p"
  by (rule session_part_paced) simp

lemma anchors_reader [simp]:
  "vp_iso_out_next_due (pipe_reader_round r p) = vp_iso_out_next_due p"
  "vp_iso_in_next_due (pipe_reader_round r p) = vp_iso_in_next_due p"
  using session_part_reader [of r p] by (simp_all add: session_part_def)

lemma close_session_effect:
  assumes "port_ok p"
  shows "port_ok (close_session p) \<and> vp_paced_replies (close_session p) = []
    \<and> vp_iso_out_next_due (close_session p) = 0 \<and> vp_iso_in_next_due (close_session p) = 0
    \<and> owner_part (close_session p) = (vp_stop_requested p, False, vp_registered p, False, None)
    \<and> (vp_reader p \<noteq> Reader_not_started \<longrightarrow> vp_reader (close_session p) = Reader_exited)
    \<and> vp_hid_in_queue (close_session p) = vp_hid_in_queue p"
  using assms
  by (auto simp: close_session_def finish_import_session_def cleanup_connection_def pipe_reader_round_def Let_def
      port_ok_def queues_ok_def gain_ok_def owner_part_def intro: reader_state.exhaust)

lemma iso_pacer_round_Some:
  assumes "iso_pacer_round now p = (Some (client, bs), q)"
  shows "\<exists>due rest. vp_paced_replies p = (due, client, bs) # rest \<and> due \<le> now \<and> q = p\<lparr>vp_paced_replies := rest\<rparr>
    \<and> \<not> vp_stop_requested p"
  using assms
  by (auto simp: iso_pacer_round_def mm.round_at_def multimap_begin_def split: if_splits list.splits)

lemma iso_pacer_round_None: "iso_pacer_round now p = (None, q) \<Longrightarrow> q = p"
  by (auto simp: iso_pacer_round_def split: if_splits prod.splits option.splits)

text \<open>The pieces of \<open>session_ok\<close>, for a session that is open and for none.\<close>

definition open_for :: "nat \<Rightarrow> vport \<Rightarrow> bool" where
  "open_for client p \<longleftrightarrow> vp_session_active p \<and> vp_attached p
     \<and> (\<forall>e \<in> set (vp_paced_replies p). fst (snd e) = client)
     \<and> vp_client_socket p = (if vp_stop_requested p then None else Some client)
     \<and> vp_reader p \<noteq> Reader_not_started"

definition closed_port :: "vport \<Rightarrow> bool" where
  "closed_port p \<longleftrightarrow> \<not> vp_session_active p \<and> \<not> vp_attached p \<and> vp_paced_replies p = []
     \<and> vp_client_socket p = None \<and> vp_iso_out_next_due p = 0 \<and> vp_iso_in_next_due p = 0"

lemma session_ok_iff:
  "session_ok s \<longleftrightarrow> (case us_session s of None \<Rightarrow> closed_port (us_port s) | Some (c, _) \<Rightarrow> open_for c (us_port s))"
  by (auto simp: session_ok_def open_for_def closed_port_def split: option.splits)

lemma open_for_round:
  assumes "round_effect client p q" "open_for client p"
  shows "open_for client q"
  using assms by (auto simp: round_effect_def open_for_def owner_part_def reader_evolves_def)

lemma open_for_reader: "open_for c p \<Longrightarrow> open_for c (pipe_reader_round r p)"
  using owner_part_reader [of r p] reader_evolves_round [of p r]
  by (auto simp: open_for_def owner_part_def reader_evolves_def)

lemma closed_reader: "closed_port p \<Longrightarrow> closed_port (pipe_reader_round r p)"
  using owner_part_reader [of r p] by (auto simp: closed_port_def owner_part_def)

lemma closed_close: "port_ok p \<Longrightarrow> closed_port (close_session p)"
  using close_session_effect [of p] by (auto simp: closed_port_def owner_part_def)

lemma begin_import_session_True:
  assumes "begin_import_session c p = (True, q)"
  shows "\<not> vp_session_active p \<and> \<not> vp_stop_requested p \<and> q = p\<lparr>vp_session_active := True, vp_client_socket := Some c\<rparr>"
  using assms by (auto simp: begin_import_session_def split: if_splits)

lemma port_ok_session_fields [simp]:
  "port_ok (p\<lparr>vp_session_active := b\<rparr>) = port_ok p" "port_ok (p\<lparr>vp_client_socket := c\<rparr>) = port_ok p"
  "port_ok (p\<lparr>vp_attached := b\<rparr>) = port_ok p" "port_ok (p\<lparr>vp_stop_requested := b\<rparr>) = port_ok p"
  "port_ok (p\<lparr>vp_registered := b\<rparr>) = port_ok p" "port_ok (p\<lparr>vp_reader := r\<rparr>) = port_ok p"
  by (simp_all add: port_ok_def queues_ok_def gain_ok_def)

lemma step_keeps_invariant:
  assumes "usbip_step busid s t" "port_ok (us_port s)" "session_ok s"
  shows "port_ok (us_port t) \<and> session_ok t"
  using assms(1)
proof cases
  case (Import client q sends ok sent r input)
  note q = begin_import_session_True [OF Import(2)]
  with assms(3) have "closed_port (us_port s)" by (auto simp: session_ok_iff open_for_def split: option.splits)
  moreover have "r = start_reader (q\<lparr>vp_attached := True\<rparr>)"
    using Import(3) by (auto simp: open_session_def Let_def split: if_splits)
  ultimately show ?thesis
    using Import(1) q assms(2) by (auto simp: session_ok_iff closed_port_def open_for_def start_reader_def)
next
  case (Import_fails client q sends ok sent r)
  note q = begin_import_session_True [OF Import_fails(2)]
  with assms(3) have closed: "closed_port (us_port s)" and "us_session s = None"
    by (auto simp: session_ok_iff open_for_def split: option.splits)
  moreover have "r = q \<or> r = cleanup_connection (q\<lparr>vp_attached := True\<rparr>)"
    using Import_fails(3) by (auto simp: open_session_def Let_def split: if_splits)
  then have "closed_port (finish_import_session r) \<and> port_ok (finish_import_session r)"
  proof
    assume "r = q"
    with closed q assms(2) show ?thesis by (simp add: finish_import_session_def closed_port_def)
  next
    assume r: "r = cleanup_connection (q\<lparr>vp_attached := True\<rparr>)"
    have "port_ok (q\<lparr>vp_attached := True\<rparr>)" using q assms(2) by simp
    from close_session_effect [OF this] closed_close [OF this] show ?thesis
      by (simp only: r close_session_def simp_thms)
  qed
  ultimately show ?thesis using Import_fails(1) by (simp add: session_ok_iff)
next
  case (Command client input env out q rest)
  note eff = session_round_effect [OF Command(4) assms(2) Command(3)]
  with open_for_round [OF eff] assms(3) Command show ?thesis
    by (simp add: session_ok_iff round_effect_def)
next
  case (Session_ends client input env out q)
  have "port_ok q" using session_round_effect [OF Session_ends(4) assms(2) Session_ends(3)] by (simp add: round_effect_def)
  from close_session_effect [OF this] closed_close [OF this] Session_ends(1) show ?thesis
    by (simp add: session_ok_iff)
next
  case (Reader read)
  with assms port_ok_reader open_for_reader closed_reader show ?thesis
    by (auto simp: session_ok_iff split: option.splits)
next
  case (Pacer now client bs q)
  from iso_pacer_round_Some [OF Pacer(2)] obtain due rest where
    paced: "vp_paced_replies (us_port s) = (due, client, bs) # rest" and q: "q = (us_port s)\<lparr>vp_paced_replies := rest\<rparr>"
    by blast
  have "port_ok q" using assms(2) paced unfolding q by (simp add: port_ok_def queues_ok_def)
  moreover have "closed_port (us_port s) \<Longrightarrow> False" using paced by (simp add: closed_port_def)
  moreover have "open_for c (us_port s) \<Longrightarrow> open_for c q" for c using paced unfolding q by (simp add: open_for_def)
  ultimately show ?thesis using assms(3) Pacer(1) by (auto simp: session_ok_iff split: option.splits)
next
  case Stop
  with assms show ?thesis
    by (auto simp: session_ok_iff stop_port_def closed_port_def open_for_def split: option.splits)
qed

lemma reachable_invariant:
  assumes "usbip_reachable busid profile port_index s"
  shows "port_ok (us_port s) \<and> session_ok s"
  using assms unfolding usbip_reachable_def
proof (induction rule: rtranclp_induct)
  case base
  show ?case
    by (simp add: new_system_def port_ok_def queues_ok_def gain_ok_def session_ok_def new_port_def)
next
  case (step s t)
  with step_keeps_invariant show ?case by blast
qed

section \<open>The pacer at work\<close>

fun pacer_rounds :: "nat list \<Rightarrow> vport \<Rightarrow> paced_reply list \<times> vport" where
  "pacer_rounds [] p = ([], p)"
| "pacer_rounds (now # nows) p =
     (let (sent, q) = iso_pacer_round now p; (rest, r) = pacer_rounds nows q in
      (case sent of None \<Rightarrow> rest | Some reply \<Rightarrow> reply # rest, r))"

lemma pacer_rounds_pace:
  assumes "\<not> vp_stop_requested p"
  shows "pacer_rounds nows p =
    (map (snd \<circ> snd) (fst (mm.pace (map Round nows) (vp_paced_replies p))),
     p\<lparr>vp_paced_replies := snd (mm.pace (map Round nows) (vp_paced_replies p))\<rparr>)"
  using assms
proof (induction nows arbitrary: p)
  case (Cons now nows)
  let ?q = "vp_paced_replies p"
  show ?case
  proof (cases rule: mm.round_at_cases [of now ?q])
    case Waits
    then have "iso_pacer_round now p = (None, p)" using Cons.prems by (simp add: iso_pacer_round_def)
    with Waits Cons.IH [OF Cons.prems] show ?thesis by simp
  next
    case (Sends e q')
    obtain due reply where e: "e = (due, reply)" by (rule prod.exhaust)
    from Sends(1) have "iso_pacer_round now p = (Some reply, p\<lparr>vp_paced_replies := q'\<rparr>)"
      using Cons.prems by (simp add: iso_pacer_round_def e)
    with Sends(1) Cons.IH [of "p\<lparr>vp_paced_replies := q'\<rparr>"] Cons.prems show ?thesis
      by (simp add: e split: prod.splits)
  qed
qed simp


section \<open>The reader is started once\<close>

lemma exited_step:
  assumes "usbip_step busid s t" "port_ok (us_port s)" "vp_reader (us_port s) = Reader_exited"
  shows "vp_reader (us_port t) = Reader_exited
    \<and> (\<exists>n. vp_hid_in_queue (us_port t) = drop n (vp_hid_in_queue (us_port s)))"
proof -
  have evolves: ?thesis if "reader_evolves (us_port s) (us_port t)"
    using that assms(3) by (simp add: reader_evolves_def)
  have same: ?thesis
    if "vp_reader (us_port t) = Reader_exited" "vp_hid_in_queue (us_port t) = vp_hid_in_queue (us_port s)"
    using that by (metis drop_0)
  from assms(1) show ?thesis
  proof cases
    case (Import client q sends ok sent r input)
    note q = begin_import_session_True [OF Import(2)]
    have "r = start_reader (q\<lparr>vp_attached := True\<rparr>)"
      using Import(3) by (auto simp: open_session_def Let_def split: if_splits)
    with q Import(1) assms(3) show ?thesis by (intro same) (simp_all add: start_reader_def)
  next
    case (Import_fails client q sends ok sent r)
    note q = begin_import_session_True [OF Import_fails(2)]
    have "r = q \<or> r = cleanup_connection (q\<lparr>vp_attached := True\<rparr>)"
      using Import_fails(3) by (auto simp: open_session_def Let_def split: if_splits)
    with q Import_fails(1) assms(3) show ?thesis
      by (intro same) (auto simp: finish_import_session_def cleanup_connection_def pipe_reader_round_def Let_def)
  next
    case (Command client input env out q rest)
    with session_round_effect [OF Command(4) assms(2) Command(3)] show ?thesis
      by (intro evolves) (simp add: round_effect_def)
  next
    case (Session_ends client input env out q)
    note eff = session_round_effect [OF Session_ends(4) assms(2) Session_ends(3)]
    then have "port_ok q" "reader_evolves (us_port s) q" by (simp_all add: round_effect_def)
    with close_session_effect [of q] Session_ends(1) assms(3) show ?thesis by (simp add: reader_evolves_def)
  next
    case (Reader read)
    then show ?thesis by (intro evolves) (simp add: reader_evolves_round)
  next
    case (Pacer now client bs q)
    with iso_pacer_round_Some [OF Pacer(2)] assms(3) show ?thesis by (intro same) auto
  next
    case Stop
    then show ?thesis using assms(3) by (intro same) (simp_all add: stop_port_def)
  qed
qed

lemma exited_steps:
  assumes "(usbip_step busid)\<^sup>*\<^sup>* s t" "port_ok (us_port s)" "session_ok s" "vp_reader (us_port s) = Reader_exited"
  shows "port_ok (us_port t) \<and> session_ok t \<and> vp_reader (us_port t) = Reader_exited
    \<and> (\<exists>n. vp_hid_in_queue (us_port t) = drop n (vp_hid_in_queue (us_port s)))"
  using assms(1)
proof (induction rule: rtranclp_induct)
  case base
  show ?case using assms(2-4) by (metis drop_0)
next
  case (step t u)
  with step_keeps_invariant [OF step(2)] exited_step [OF step(2)] show ?case by (metis drop_drop)
qed

lemma during_wait_exited: "vp_reader p = Reader_exited \<Longrightarrow> during_wait reads p = p"
  by (induction reads) (simp_all add: during_wait_def pipe_reader_round_def)

lemma session_end_exits:
  assumes "usbip_reachable busid profile port_index s" "us_session s = Some x" "usbip_step busid s t" "us_session t = None"
  shows "vp_reader (us_port t) = Reader_exited"
proof -
  note inv = reachable_invariant [OF assms(1)]
  from assms(3) show ?thesis
  proof cases
    case (Session_ends client input env out q)
    from inv have "port_ok (us_port s)" by simp
    from session_round_effect [OF Session_ends(4) this Session_ends(3)]
    have eff: "round_effect client (us_port s) q" .
    have "open_for client (us_port s)" using inv Session_ends(2) by (simp add: session_ok_iff)
    from open_for_round [OF eff this] eff have "vp_reader q \<noteq> Reader_not_started" "port_ok q"
      by (simp_all add: open_for_def round_effect_def)
    with close_session_effect [of q] Session_ends(1) show ?thesis by simp
  qed (use assms(2,4) in simp_all)
qed

text \<open>
  The pipe reader of a port runs once: after the first session has ended, whatever the threads
  do, a later session included, no further input report is ever queued, so that once the report
  left over is gone every input transfer is answered with no data. (A new port is needed to get
  input again.)
\<close>

theorem reader_runs_once:
  assumes "usbip_reachable busid profile port_index s" and "us_session s = Some x"
    and "usbip_step busid s t" and "us_session t = None" and "(usbip_step busid)\<^sup>*\<^sup>* t u"
  shows "vp_reader (us_port u) = Reader_exited
    \<and> (\<exists>n. vp_hid_in_queue (us_port u) = drop n (vp_hid_in_queue (us_port t)))
    \<and> (vp_hid_in_queue (us_port u) = [] \<longrightarrow>
         hid_in_request env (us_port u) = (Inr (answer_data []), us_port u))"
proof -
  note inv = step_keeps_invariant [OF assms(3)] reachable_invariant [OF assms(1)]
  from exited_steps [OF assms(5)] inv session_end_exits [OF assms(1-4)] show ?thesis
    by (auto simp: hid_in_request_def wait_for_hid_in_frame_def during_wait_exited Let_def)
qed


section \<open>A session of a well behaved host\<close>

type_synonym host_command = "cmd_submit \<times> bytes \<times> iso_packet list"

fun host_bytes :: "host_command \<Rightarrow> bytes" where
  "host_bytes (cmd, out_data, isos) = cmd_bytes cmd @ out_data @ concat (map iso_bytes isos)"

fun host_command_ok :: "host_command \<Rightarrow> bool" where
  "host_command_ok (cmd, out_data, isos) \<longleftrightarrow>
     uc_command cmd = kCmdSubmit \<and> length (uc_setup cmd) = 8 \<and> valid_command cmd out_data isos
     \<and> well_directed cmd \<and> length out_data \<le> VDS_FRAME_MAX_PAYLOAD"

definition is_paced :: "host_command \<Rightarrow> bool" where
  "is_paced h \<longleftrightarrow> pace_out (fst h) \<or> pace_in (fst h)"

definition env_ok :: "submit_env \<Rightarrow> bool" where
  "env_ok env \<longleftrightarrow> se_pipe_ok env \<and> se_sends env \<ge> 3 \<and> small_reads (se_arrivals env)"

lemma next_input_host:
  assumes "host_command_ok (cmd, out_data, isos)"
  shows "next_input (host_bytes (cmd, out_data, isos) @ rest) = Submission cmd out_data isos rest"
proof -
  have ok: "uc_command cmd = kCmdSubmit" "length (uc_setup cmd) = 8" "valid_command cmd out_data isos"
    using assms by simp_all
  then have limits: "limits_ok cmd" by (auto simp: valid_command_def limits_ok_def)
  have dir: "(if uc_direction cmd = kDirOut \<and> sint (uc_length cmd) > 0 then unat (uc_length cmd) else 0) = length out_data"
  proof -
    have "unat (uc_length cmd) = 0" if "\<not> sint (uc_length cmd) > 0"
      using that ok(3) by (simp add: valid_command_def signed_eq_0_iff order.antisym)
    with ok(3) show ?thesis by (auto simp: valid_command_def)
  qed
  have count: "packet_count cmd = length isos" using ok(3) by (simp add: valid_command_def)
  have cmds: "kCmdSubmit \<noteq> kCmdUnlink" by (simp add: kCmdSubmit_def kCmdUnlink_def)
  have bounds: "length isos > 0 \<Longrightarrow> list_all (iso_in_bounds (unat (uc_length cmd))) isos
      \<and> sum_list (map (\<lambda>d. unat (ip_length d)) isos) = unat (uc_length cmd)"
    using ok(3) by (simp add: valid_command_def count)
  define iso_part where "iso_part = concat (map iso_bytes isos) @ rest"
  define body where "body = out_data @ iso_part"
  have parts: "drop (length out_data) body = iso_part" "take (length out_data) body = out_data"
    "length out_data \<le> length body" "16 * length isos \<le> length iso_part" "drop (16 * length isos) iso_part = rest"
    "read_isos (length isos) iso_part = isos" "isos = [] \<Longrightarrow> iso_part = rest" "\<not> length body < length out_data" "\<not> length iso_part < 16 * length isos"
    by (simp_all add: iso_part_def body_def)
  have "next_input (cmd_bytes cmd @ body) = Submission cmd out_data isos rest"
    using ok cmds limits bounds
    by (cases "isos = []") (simp_all add: next_input_def Let_def dir count parts)
  then show ?thesis by (simp add: body_def iso_part_def)
qed

lemma length_apply_speaker_gain [simp]: "length (apply_speaker_gain g pcm) = length pcm"
  by (simp add: apply_speaker_gain_def)

lemma forward_frame_works:
  "se_pipe_ok env \<Longrightarrow> length bs \<le> VDS_FRAME_MAX_PAYLOAD \<Longrightarrow> \<exists>a. forward_frame env t bs n p = (Inr a, p)"
  by (simp add: forward_frame_def write_daemon_frame_def frame_bytes_def Let_def)

lemma endpoint_request_works:
  assumes "se_pipe_ok env" "length out_data \<le> VDS_FRAME_MAX_PAYLOAD"
  shows "\<exists>a q. endpoint_request env cmd out_data p = (Inr a, q)"
proof (cases rule: endpoint_request_cases [of cmd env out_data p])
  case Control
  let ?su = "read_setup (uc_setup cmd)"
  have "\<exists>a q. control_request env ?su out_data p = (Inr a, q)"
  proof -
    have event: "length (interface_event ?su) \<le> VDS_FRAME_MAX_PAYLOAD" by (simp add: interface_event_def)
    have report: "\<exists>a q. get_report env ?su p = (Inr a, q)"
      using assms(1) by (simp add: get_report_def write_daemon_frame_def frame_bytes_def Let_def split: prod.splits)
    have "\<exists>a q. set_interface env ?su p = (Inr a, q)"
      unfolding set_interface_def using forward_frame_works [OF assms(1) event] by blast
    moreover have "\<exists>a q. feature_unit_request env ?su out_data p = (Inr a, q)"
      by (simp add: feature_unit_request_def)
    ultimately show ?thesis
      using report forward_frame_works [OF assms] by (simp add: control_request_def) blast
  qed
  with Control show ?thesis by (auto simp: Let_def)
next
  case Audio_out
  from forward_frame_works [OF assms(1), of "apply_speaker_gain (vp_speaker_gain_q15 p) out_data"] assms(2)
  show ?thesis unfolding Audio_out(3) audio_out_request_def by (metis length_apply_speaker_gain)
next
  case Hid_out
  then show ?thesis using forward_frame_works [OF assms, of VDS_FRAME_USB_HID_OUT 0 p] by auto
qed (auto simp: hid_in_request_def audio_in_request_def split: prod.splits)

lemma length_send_parts: "length (send_parts cmd out_data isos a) \<le> 3"
  by (simp add: send_parts_def)

text \<open>One command of the host: the session goes on, and its reply is sent or queued.\<close>

lemma host_round:
  assumes h: "host_command_ok (cmd, out_data, isos)" and env: "env_ok env" and p: "port_ok p" "\<not> vp_stop_requested p"
  obtains out q bs reply where
    "session_round env client (host_bytes (cmd, out_data, isos) @ rest) p = (out, q)" "ro_rest out = Some rest"
    "port_ok q" "\<not> vp_stop_requested q" "cr_seqnum reply = uc_seqnum cmd"
    "\<And>more. client_read (uc_direction cmd = kDirIn) (bs @ more) = Some (reply, more)"
    "if is_paced (cmd, out_data, isos)
     then ro_sent out = [] \<and> (\<exists>due. vp_paced_replies q = multimap_emplace due (client, bs) (vp_paced_replies p))
     else ro_sent out = bs \<and> vp_paced_replies q = vp_paced_replies p"
proof -
  have ok: "valid_command cmd out_data isos" "well_directed cmd" using h by simp_all
  have small: "small_reads (se_arrivals env)" and queues: "queues_ok p" using env p by (simp_all add: env_ok_def port_ok_def)
  obtain out q where run: "handle_cmd_submit env client cmd out_data isos p = (out, q)" by (rule prod.exhaust)
  obtain a r where req: "endpoint_request env cmd out_data p = (Inr a, r)"
    using endpoint_request_works [of env out_data cmd p] h env by (auto simp: env_ok_def)
  have round: "session_round env client (host_bytes (cmd, out_data, isos) @ rest) p
      = (\<lparr>ro_rest = (if so_continue out then Some rest else None), ro_frames = so_frames out, ro_sent = so_sent out\<rparr>, q)"
    using p(2) by (simp add: session_round_def next_input_host [OF h] run del: host_bytes.simps)
  have eff: "round_effect client p q" by (rule submit_effect [OF p(1) small run])
  have kept: "vp_paced_replies r = vp_paced_replies p" using endpoint_effect [OF p(1) small req] by simp
  have outcome: "so_continue out \<and> (if is_paced (cmd, out_data, isos)
      then so_sent out = [] \<and> (\<exists>due. vp_paced_replies q = multimap_emplace due (client, reply_of cmd out_data isos a) (vp_paced_replies p))
      else so_sent out = reply_of cmd out_data isos a \<and> vp_paced_replies q = vp_paced_replies p)"
    using run
  proof (cases rule: handle_cmd_submit_cases)
    case (Paced a' r')
    then have "a' = a" "r' = r" using req by simp_all
    with Paced kept paced_bytes_reply [OF req ok(1) Paced(2)] show ?thesis
      by (auto simp: is_paced_def enqueue_paced_replies)
  next
    case (Sent a')
    then have "a' = a" "q = r" using req by simp_all
    moreover have "length (send_parts cmd out_data isos a) \<le> se_sends env"
      using length_send_parts [of cmd out_data isos a] env by (simp add: env_ok_def)
    ultimately show ?thesis using Sent kept by (simp add: is_paced_def concat_send_parts)
  qed (use req in simp)
  show thesis
  proof (rule that [OF round])
    show "port_ok q" "\<not> vp_stop_requested q" using eff p(2) by (simp_all add: round_effect_def owner_part_def)
    show "client_read (uc_direction cmd = kDirIn) (reply_of cmd out_data isos a @ more)
        = Some (\<lparr>cr_seqnum = uc_seqnum cmd, cr_status = an_status a,
             cr_actual_length = ur_actual_length (ret_for cmd out_data isos a), cr_data = an_data a,
             cr_isos = reply_isos cmd (an_data a) isos\<rparr>, more)" for more
      by (rule client_reads_reply_of [OF req ok queues small])
  qed (use outcome in simp_all)
qed

text \<open>The client reads replies one after the other, knowing the direction of each.\<close>

fun client_read_all :: "bool list \<Rightarrow> bytes \<Rightarrow> client_reply list option" where
  "client_read_all [] bs = (if bs = [] then Some [] else None)"
| "client_read_all (d # ds) bs =
     (case client_read d bs of
        None \<Rightarrow> None
      | Some (r, rest) \<Rightarrow> map_option (Cons r) (client_read_all ds rest))"

definition answered_at_once :: "host_command list \<Rightarrow> cmd_submit list" where
  "answered_at_once hs = map fst (filter (\<lambda>h. \<not> is_paced h) hs)"

lemma answered_at_once_Cons:
  "answered_at_once ((cmd, out_data, isos) # hs) =
    (if is_paced (cmd, out_data, isos) then answered_at_once hs else cmd # answered_at_once hs)"
  by (simp add: answered_at_once_def)

lemma session_loop_answers:
  assumes "list_all host_command_ok hs" "\<And>i. env_ok (env i)" "port_ok p" "\<not> vp_stop_requested p"
  shows "\<exists>frames sent q replies. session_loop env client k (concat (map host_bytes hs)) p = (frames, sent, q)
    \<and> client_read_all (map (\<lambda>c. uc_direction c = kDirIn) (answered_at_once hs)) sent = Some replies
    \<and> map cr_seqnum replies = map uc_seqnum (answered_at_once hs)
    \<and> length (vp_paced_replies q) = length (vp_paced_replies p) + length (filter is_paced hs)"
  using assms
proof (induction hs arbitrary: k p)
  case Nil
  have "next_input [] = End_of_session" by (simp add: next_input_def)
  then have "session_loop env client k [] p = ([], [], p)"
    using Nil.prems by (simp add: session_loop.simps [of _ _ _ "[]"] session_round_def loop_left_def)
  then show ?case by (simp add: answered_at_once_def)
next
  case (Cons h hs)
  obtain cmd out_data isos where h: "h = (cmd, out_data, isos)" by (rule prod_cases3)
  let ?rest = "concat (map host_bytes hs)"
  have "host_command_ok (cmd, out_data, isos)" "env_ok (env k)" using Cons.prems by (simp_all add: h)
  then obtain out q bs reply where round:
    "session_round (env k) client (host_bytes (cmd, out_data, isos) @ ?rest) p = (out, q)" "ro_rest out = Some ?rest"
    "port_ok q" "\<not> vp_stop_requested q" "cr_seqnum reply = uc_seqnum cmd"
    "\<And>more. client_read (uc_direction cmd = kDirIn) (bs @ more) = Some (reply, more)"
    and effect: "if is_paced (cmd, out_data, isos)
      then ro_sent out = [] \<and> (\<exists>due. vp_paced_replies q = multimap_emplace due (client, bs) (vp_paced_replies p))
      else ro_sent out = bs \<and> vp_paced_replies q = vp_paced_replies p"
    using Cons.prems(3,4) by (rule host_round) (rule that)
  obtain frames sent r replies where IH: "session_loop env client (Suc k) ?rest q = (frames, sent, r)"
    "client_read_all (map (\<lambda>c. uc_direction c = kDirIn) (answered_at_once hs)) sent = Some replies"
    "map cr_seqnum replies = map uc_seqnum (answered_at_once hs)"
    "length (vp_paced_replies r) = length (vp_paced_replies q) + length (filter is_paced hs)"
    using Cons.IH [of q "Suc k"] Cons.prems round(3,4) by auto
  have loop: "session_loop env client k (concat (map host_bytes (h # hs))) p
      = (ro_frames out @ frames, ro_sent out @ sent, r)"
    using round(1,2) IH(1) by (simp add: h session_loop.simps [of _ _ k] del: host_bytes.simps)
  show ?case
  proof (cases "is_paced (cmd, out_data, isos)")
    case True
    with effect have queue: "ro_sent out = []" "length (vp_paced_replies q) = Suc (length (vp_paced_replies p))"
      by (auto simp: length_emplace)
    with IH loop True show ?thesis by (simp add: h answered_at_once_Cons)
  next
    case False
    with effect IH loop round(5,6) show ?thesis by (simp add: h answered_at_once_Cons)
  qed
qed


definition example_descriptor_command :: cmd_submit where
  "example_descriptor_command =
     \<lparr>uc_command = kCmdSubmit, uc_seqnum = 3, uc_devid = 0x10001, uc_direction = kDirIn, uc_ep = 0,
      uc_transfer_flags = 0, uc_length = 18, uc_packets = 0, uc_setup = [0x80, 6, 0, 1, 0, 0, 18, 0]\<rparr>"


section \<open>Cancelled transfers\<close>

text \<open>
  An UNLINK is acknowledged and changes nothing: a reply that waits in the pacer's queue is sent
  later all the same.
\<close>

lemma unlinked_reply_still_sent:
  assumes "next_input bs = Unlink seqnum rest" "session_round env client bs p = (out, q)" "\<not> vp_stop_requested p"
  shows "vp_paced_replies q = vp_paced_replies p"
  using assms by (simp add: session_round_def)

section \<open>Witnesses over the threads\<close>

definition example_open :: usbip_system where
  "example_open =
     (let p = start_reader ((new_port 0 0)\<lparr>vp_registered := True, vp_session_active := True,
                vp_client_socket := Some 1, vp_attached := True\<rparr>) in
      \<lparr>us_port = p, us_session = Some (1, []),
       us_sent = [(1, import_reply 0 @ wire_device 0 0 ''1-1'')], us_frames = []\<rparr>)"

lemma example_open_reachable: "usbip_reachable ''1-1'' 0 0 example_open"
proof -
  let ?p = "(new_port 0 0)\<lparr>vp_registered := True\<rparr>"
  let ?q = "?p\<lparr>vp_session_active := True, vp_client_socket := Some 1\<rparr>"
  have "begin_import_session 1 (us_port (new_system 0 0)) = (True, ?q)"
    by (simp add: begin_import_session_def new_system_def new_port_def)
  moreover have "open_session 2 True ''1-1'' ?q
      = (True, import_reply 0 @ wire_device 0 0 ''1-1'', start_reader (?q\<lparr>vp_attached := True\<rparr>))"
    by (simp add: open_session_def Let_def new_port_def)
  ultimately have "usbip_step ''1-1'' (new_system 0 0)
      ((new_system 0 0)\<lparr>us_port := start_reader (?q\<lparr>vp_attached := True\<rparr>), us_session := Some (1, []),
        us_sent := us_sent (new_system 0 0) @ [(1, import_reply 0 @ wire_device 0 0 ''1-1'')]\<rparr>)"
    by (rule usbip_step.Import)
  then show ?thesis
    by (simp add: usbip_reachable_def example_open_def new_system_def Let_def r_into_rtranclp)
qed



theorem reader_runs_once_witness:
  "let t = example_open\<lparr>us_port := close_session (us_port example_open), us_session := None,
       us_sent := us_sent example_open @ [(1, [])], us_frames := us_frames example_open @ []\<rparr> in
   vp_reader (us_port t) = Reader_exited
   \<and> hid_in_request example_submit_env (us_port t) = (Inr (answer_data []), us_port t)"
proof -
  let ?t = "example_open\<lparr>us_port := close_session (us_port example_open), us_session := None,
       us_sent := us_sent example_open @ [(1, ro_sent loop_left)], us_frames := us_frames example_open @ ro_frames loop_left\<rparr>"
  have input: "us_session example_open = Some (1, [])" by (simp add: example_open_def Let_def)
  have "session_round example_submit_env 1 [] (us_port example_open) = (loop_left, us_port example_open)"
    by (simp add: session_round_def next_input_def)
  then have "usbip_step ''1-1'' example_open ?t"
    by (intro usbip_step.Session_ends [OF input]) (simp_all add: small_reads_def example_submit_env_def loop_left_def)
  from reader_runs_once [OF example_open_reachable input this, of ?t example_submit_env]
  show ?thesis
    by (simp add: Let_def loop_left_def close_session_def finish_import_session_def cleanup_connection_def
        pipe_reader_round_def example_open_def start_reader_def new_port_def)
qed

end
