(* ===== verification/UsbIpServer.thy ===== *)
theory UsbIpServer
  imports UsbIpSession Store
begin

text \<open>
  \<open>VirtualPort::Impl::Server\<close> of \<open>src/src/platform/win32/vds_usbip.cc\<close>: the registered ports, the
  list of devices and the import requests of clients. A port is an object with an identity; the
  server keeps weak references, so an object that is no longer alive is found expired.
\<close>

section \<open>The map of ports\<close>

text \<open>\<open>std::map<unsigned, weak_ptr>\<close>: entries ordered by port index.\<close>

type_synonym port_map = "(nat \<times> nat) list"

fun map_assign :: "nat \<times> nat \<Rightarrow> port_map \<Rightarrow> port_map" where
  "map_assign e [] = [e]"
| "map_assign e (x # xs) =
     (if fst e = fst x then e # xs else if fst e < fst x then e # x # xs else x # map_assign e xs)"

definition map_erase :: "nat \<Rightarrow> port_map \<Rightarrow> port_map" where
  "map_erase k xs = filter (\<lambda>x. fst x \<noteq> k) xs"

definition map_ordered :: "port_map \<Rightarrow> bool" where
  "map_ordered xs \<longleftrightarrow> sorted_wrt (\<lambda>a b. fst a < fst b) xs"

lemma set_map_assign: "set (map_assign e xs) \<subseteq> insert e (set xs)"
  by (induction xs) auto

lemma ordered_map_assign: "map_ordered xs \<Longrightarrow> map_ordered (map_assign e xs)"
proof (induction xs)
  case (Cons x xs)
  have "fst x < fst y" if "y \<in> set (map_assign e xs)" "fst x < fst e" for y
    using that set_map_assign [of e xs] Cons.prems by (auto simp: map_ordered_def)
  with Cons show ?case by (auto simp: map_ordered_def)
qed (simp add: map_ordered_def)

lemma find_map_assign:
  "map_ordered xs \<Longrightarrow> find_entry fst (map_assign e xs) k = (if k = fst e then Some e else find_entry fst xs k)"
proof (induction xs)
  case (Cons x xs)
  have "find_entry fst xs (fst e) = None" if "fst e < fst x"
    using that Cons.prems by (auto simp: find_entry_None_iff map_ordered_def)
  with Cons show ?case by (auto simp: map_ordered_def)
qed simp

interpretation port_table: keyed_store fst "find_entry fst" map_assign map_erase map_ordered
proof
  show "map_ordered s \<Longrightarrow> map_ordered (map_erase k s)" for s k
    by (simp add: map_ordered_def map_erase_def sorted_wrt_filter)
qed (simp_all add: find_map_assign ordered_map_assign map_erase_def find_entry_filter)

section \<open>The server\<close>

record usbip_server =
  sv_ports :: port_map
  sv_alive :: "nat \<rightharpoonup> vport"

definition new_server :: usbip_server where
  "new_server = \<lparr>sv_ports = [], sv_alive = Map.empty\<rparr>"

definition register_port :: "nat \<Rightarrow> vport \<Rightarrow> usbip_server \<Rightarrow> usbip_server result" where
  "register_port obj p sv =
     (let existing = find_entry fst (sv_ports sv) (vp_port_index p) in
      if (case existing of Some (_, other) \<Rightarrow> sv_alive sv other \<noteq> None | None \<Rightarrow> False)
      then Inl (Runtime_error ''USB/IP virtual port is already active'')
      else Inr (sv\<lparr>sv_ports := map_assign (vp_port_index p, obj) (sv_ports sv)\<rparr>))"

definition unregister_port :: "nat \<Rightarrow> usbip_server \<Rightarrow> usbip_server" where
  "unregister_port port_index sv = sv\<lparr>sv_ports := map_erase port_index (sv_ports sv)\<rparr>"

text \<open>The ports that are alive, in the order of their index; expired entries are erased.\<close>

definition active_ports :: "usbip_server \<Rightarrow> (nat \<times> vport) list \<times> usbip_server" where
  "active_ports sv =
     (let kept = filter (\<lambda>(_, obj). sv_alive sv obj \<noteq> None) (sv_ports sv) in
      (map (\<lambda>(_, obj). (obj, the (sv_alive sv obj))) kept, sv\<lparr>sv_ports := kept\<rparr>))"

definition port_busid :: "vport \<Rightarrow> string" where
  "port_busid p = (case busid_for_port (vp_port_index p) of Inr b \<Rightarrow> b | Inl _ \<Rightarrow> [])"

definition text_bytes :: "string \<Rightarrow> bytes" where
  "text_bytes s = map (\<lambda>c. of_nat (code_of c)) s"

definition find_port :: "bytes \<Rightarrow> usbip_server \<Rightarrow> (nat \<times> vport) option \<times> usbip_server" where
  "find_port busid sv =
     (let (snapshot, sv') = active_ports sv in
      (find (\<lambda>(_, p). text_bytes (port_busid p) = busid \<and> \<not> vp_stop_requested p) snapshot, sv'))"

section \<open>Requests of clients\<close>

text \<open>The parts of the device list, each sent by one \<open>send_exact\<close>.\<close>

definition device_list_parts :: "(nat \<times> vport) list \<Rightarrow> bytes list" where
  "device_list_parts snapshot =
     [op_header_bytes \<lparr>oh_version = kProtocolVersion, oh_code = kOpRepDevlist, oh_status = 0\<rparr>,
      be_bytes 4 (of_nat (length snapshot) :: u32)]
     @ concat (map (\<lambda>(_, p). [wire_device (vp_profile p) (vp_port_index p) (port_busid p), wire_interfaces]) snapshot)"

definition send_device_list :: "nat \<Rightarrow> usbip_server \<Rightarrow> bytes \<times> usbip_server" where
  "send_device_list sends sv =
     (let (snapshot, sv') = active_ports sv in (concat (take sends (device_list_parts snapshot)), sv'))"

text \<open>
  What a connection leads to: it is closed after the bytes that were sent, or a session of the
  port with this identity takes it over, with the bytes the client has sent after its request.
\<close>

datatype client_outcome = Closed_after bytes | Session_for nat bytes

definition handle_client :: "nat \<Rightarrow> bytes \<Rightarrow> nat \<Rightarrow> usbip_server \<Rightarrow> client_outcome \<times> usbip_server" where
  "handle_client client input sends sv =
     (let header = read_op_header input in
      if length input < 8 then (Closed_after [], sv)
      else if oh_version header \<noteq> kProtocolVersion \<or> oh_status header \<noteq> 0 then (Closed_after [], sv)
      else if oh_code header = kOpReqDevlist then
        (let (sent, sv') = send_device_list sends sv in (Closed_after sent, sv'))
      else if oh_code header \<noteq> kOpReqImport then (Closed_after [], sv)
      else if length input < 40 then (Closed_after [], sv)
      else
        (let busid = takeWhile (\<lambda>b. b \<noteq> 0) (take 32 (drop 8 input));
             refusal = Closed_after (if sends > 0 then import_reply 1 else []);
             (port, sv') = find_port busid sv in
         case port of
           None \<Rightarrow> (refusal, sv')
         | Some (obj, p) \<Rightarrow>
             (case begin_import_session client p of
                (False, _) \<Rightarrow> (refusal, sv')
              | (True, q) \<Rightarrow> (Session_for obj (drop 40 input), sv'\<lparr>sv_alive := (sv_alive sv')(obj \<mapsto> q)\<rparr>))))"

text \<open>What a client sends to import a device.\<close>

definition import_request :: "string \<Rightarrow> bytes" where
  "import_request busid =
     op_header_bytes \<lparr>oh_version = kProtocolVersion, oh_code = kOpReqImport, oh_status = 0\<rparr> @ char_field 32 busid"

definition devlist_request :: bytes where
  "devlist_request = op_header_bytes \<lparr>oh_version = kProtocolVersion, oh_code = kOpReqDevlist, oh_status = 0\<rparr>"

section \<open>The invariant of the server\<close>

text \<open>
  Objects keep the index they were created with, one of the four, and an entry names the index of
  its object.
\<close>

definition server_ok :: "usbip_server \<Rightarrow> bool" where
  "server_ok sv \<longleftrightarrow> map_ordered (sv_ports sv)
     \<and> (\<forall>k obj p. (k, obj) \<in> set (sv_ports sv) \<longrightarrow> sv_alive sv obj = Some p \<longrightarrow> vp_port_index p = k \<and> k < VDS_MAX_PORT_COUNT)"

lemma register_port_Inr:
  assumes "register_port obj p sv = Inr sv'"
  shows "sv' = sv\<lparr>sv_ports := map_assign (vp_port_index p, obj) (sv_ports sv)\<rparr>"
  using assms by (simp add: register_port_def Let_def split: if_splits)

lemma register_keeps:
  assumes "server_ok sv" "register_port obj p sv = Inr sv'" "sv_alive sv obj = Some p" "vp_port_index p < VDS_MAX_PORT_COUNT"
  shows "server_ok sv'"
  using assms register_port_Inr [OF assms(2)] set_map_assign [of "(vp_port_index p, obj)" "sv_ports sv"]
  by (auto simp: server_ok_def ordered_map_assign)

lemma unregister_keeps: "server_ok sv \<Longrightarrow> server_ok (unregister_port k sv)"
  by (auto simp: server_ok_def unregister_port_def port_table.inv_del) (auto simp: map_erase_def)

lemma active_ports_keeps: "server_ok sv \<Longrightarrow> server_ok (snd (active_ports sv))"
  by (auto simp: server_ok_def active_ports_def Let_def map_ordered_def sorted_wrt_filter)

section \<open>Finding a port\<close>

lemma ordered_unique:
  "map_ordered xs \<Longrightarrow> (k, a) \<in> set xs \<Longrightarrow> (k, b) \<in> set xs \<Longrightarrow> a = b"
  by (induction xs) (auto simp: map_ordered_def)

lemma find_entry_ordered:
  "map_ordered xs \<Longrightarrow> (k, a) \<in> set xs \<longleftrightarrow> find_entry fst xs k = Some (k, a)"
proof (induction xs)
  case (Cons x xs)
  then show ?case by (cases x) (auto simp: map_ordered_def)
qed simp

lemma text_bytes_inject: "text_bytes s = text_bytes t \<longleftrightarrow> s = t"
proof
  assume eq: "text_bytes s = text_bytes t"
  have "map unat (text_bytes u) = map code_of u" for u
    by (simp add: text_bytes_def unat_of_nat code_of_def take_bit_eq_mod)
  with eq have "map code_of s = map code_of t" by metis
  then show "s = t" by (rule map_injective) (simp add: inj_def)
qed simp

lemma busid_of_index: "vp_port_index p < VDS_MAX_PORT_COUNT \<Longrightarrow> busid_for_port (vp_port_index p) = Inr (port_busid p)"
  by (simp add: port_busid_def busid_for_port_def)

lemma busid_field: "busid_for_port k = Inr b \<Longrightarrow> takeWhile (\<lambda>b. b \<noteq> 0) (char_field 32 b) = text_bytes b"
proof -
  assume "busid_for_port k = Inr b"
  from busid_fits [OF this] have b: "length b = 3" "\<forall>c \<in> set b. code_of c \<noteq> 0" by (simp_all add: list_all_iff)
  then have "takeWhile (\<lambda>c. 0 < code_of c) b = b" by (simp add: takeWhile_eq_all_conv)
  with b(1) have "char_field 32 b = text_bytes b @ replicate 29 0" by (simp add: char_field_def text_bytes_def Let_def del: takeWhile_eq_all_conv)
  moreover have "x \<noteq> 0" if "x \<in> set (text_bytes b)" for x
  proof -
    from that obtain c where c: "c \<in> set b" "x = of_nat (code_of c)" by (auto simp: text_bytes_def)
    have "unat (of_nat (code_of c) :: u8) = code_of c" by (simp add: unat_of_nat code_of_def take_bit_eq_mod)
    with b(2) c show "x \<noteq> 0" by (metis unsigned_0)
  qed
  ultimately show ?thesis by (simp add: takeWhile_append)
qed

lemma find_port_of_index:
  assumes ok: "server_ok sv" and k: "busid_for_port k = Inr b"
  shows "fst (find_port (text_bytes b) sv) =
    (case find_entry fst (sv_ports sv) k of
       None \<Rightarrow> None
     | Some (_, obj) \<Rightarrow>
         (case sv_alive sv obj of
            None \<Rightarrow> None
          | Some p \<Rightarrow> if vp_stop_requested p then None else Some (obj, p)))"
proof -
  let ?P = "\<lambda>(_ :: nat, p). text_bytes (port_busid p) = text_bytes b \<and> \<not> vp_stop_requested p"
  have "find ?P (map (\<lambda>(_, obj). (obj, the (sv_alive sv obj))) (filter (\<lambda>(_, obj). sv_alive sv obj \<noteq> None) xs))
      = (case find_entry fst xs k of
           None \<Rightarrow> None
         | Some (_, obj) \<Rightarrow>
             (case sv_alive sv obj of
                None \<Rightarrow> None
              | Some p \<Rightarrow> if vp_stop_requested p then None else Some (obj, p)))"
    if "map_ordered xs" "set xs \<subseteq> set (sv_ports sv)" for xs
    using that
  proof (induction xs)
    case (Cons x xs)
    obtain j obj where x: "x = (j, obj)" by (rule prod.exhaust)
    have rest: "map_ordered xs" "set xs \<subseteq> set (sv_ports sv)" using Cons.prems by (simp_all add: map_ordered_def)
    have none: "find_entry fst xs k = None" if "j = k"
      using Cons.prems(1) that by (auto simp: find_entry_None_iff map_ordered_def x)
    show ?case
    proof (cases "sv_alive sv obj")
      case None
      with Cons.IH [OF rest] none show ?thesis by (auto simp: x)
    next
      case (Some p)
      then have index: "vp_port_index p = j" "j < VDS_MAX_PORT_COUNT"
        using ok Cons.prems(2) by (auto simp: server_ok_def x)
      then have "text_bytes (port_busid p) = text_bytes b \<longleftrightarrow> j = k"
        using k busid_of_index [of p] busid_for_port_inject by (auto simp: text_bytes_inject)
      with Some Cons.IH [OF rest] none show ?thesis by (auto simp: x)
    qed
  qed simp
  from this [of "sv_ports sv"] ok show ?thesis
    by (simp add: find_port_def active_ports_def Let_def server_ok_def)
qed

section \<open>Properties of the server\<close>

text \<open>
  An import request is granted exactly when the port with this bus id is registered, alive, not
  stopping and has no session; it then gets the session, and no other port changes. Otherwise the
  client is refused and no port changes.
\<close>

theorem import_request_decision:
  assumes "server_ok sv" and "busid_for_port k = Inr b"
    and "handle_client client (import_request b @ rest) sends sv = (outcome, sv')"
  shows "if \<exists>obj p. find_entry fst (sv_ports sv) k = Some (k, obj) \<and> sv_alive sv obj = Some p
            \<and> \<not> vp_stop_requested p \<and> \<not> vp_session_active p
    then (\<exists>obj p. find_entry fst (sv_ports sv) k = Some (k, obj) \<and> sv_alive sv obj = Some p
            \<and> outcome = Session_for obj rest
            \<and> sv_alive sv' = (sv_alive sv)(obj \<mapsto> p\<lparr>vp_session_active := True, vp_client_socket := Some client\<rparr>))
    else outcome = Closed_after (if sends > 0 then import_reply 1 else []) \<and> sv_alive sv' = sv_alive sv"
proof -
  define inp where "inp = import_request b @ rest"
  have header: "read_op_header inp = \<lparr>oh_version = kProtocolVersion, oh_code = kOpReqImport, oh_status = 0\<rparr>"
    "length inp = 40 + length rest" "take 32 (drop 8 inp) = char_field 32 b" "drop 40 inp = rest"
    by (simp_all add: inp_def import_request_def)
  have codes: "kOpReqImport \<noteq> kOpReqDevlist" by (simp add: kOpReqImport_def kOpReqDevlist_def)
  obtain port sv1 where find: "find_port (text_bytes b) sv = (port, sv1)" by (rule prod.exhaust)
  have alive: "sv_alive sv1 = sv_alive sv" using find by (auto simp: find_port_def active_ports_def Let_def)
  have run: "handle_client client inp sends sv =
      (case port of
         None \<Rightarrow> (Closed_after (if sends > 0 then import_reply 1 else []), sv1)
       | Some (obj, p) \<Rightarrow>
           (case begin_import_session client p of
              (False, _) \<Rightarrow> (Closed_after (if sends > 0 then import_reply 1 else []), sv1)
            | (True, q) \<Rightarrow> (Session_for obj (drop 40 inp), sv1\<lparr>sv_alive := (sv_alive sv1)(obj \<mapsto> q)\<rparr>)))"
    using codes by (simp add: handle_client_def Let_def header busid_field [OF assms(2)] find)
  have key: "find_entry fst (sv_ports sv) k = Some e \<Longrightarrow> fst e = k" for e by (rule find_entry_Some [THEN conjunct2])
  have port: "port = (case find_entry fst (sv_ports sv) k of None \<Rightarrow> None
     | Some (_, obj) \<Rightarrow> (case sv_alive sv obj of None \<Rightarrow> None
          | Some p \<Rightarrow> if vp_stop_requested p then None else Some (obj, p)))"
    using find_port_of_index [OF assms(1,2)] by (simp add: find)
  note request = assms(3) [folded inp_def, unfolded run header(4)]
  let ?free = "\<exists>obj p. find_entry fst (sv_ports sv) k = Some (k, obj) \<and> sv_alive sv obj = Some p
            \<and> \<not> vp_stop_requested p \<and> \<not> vp_session_active p"
  show ?thesis
  proof (cases port)
    case None
    then have "\<not> ?free" using port by (auto split: if_splits)
    moreover have "outcome = Closed_after (if sends > 0 then import_reply 1 else [])" "sv' = sv1"
      using request by (simp_all add: None)
    ultimately show ?thesis using alive by (simp only: if_False simp_thms)
  next
    case (Some op)
    obtain obj p where op: "op = (obj, p)" by (rule prod.exhaust)
    obtain j where e: "find_entry fst (sv_ports sv) k = Some (j, obj)" and p: "sv_alive sv obj = Some p"
      and running: "\<not> vp_stop_requested p"
      using port by (simp add: Some op split: option.splits prod.splits if_splits)
    from key [OF e] have "j = k" by simp
    with e p running have found: "find_entry fst (sv_ports sv) k = Some (k, obj)" "sv_alive sv obj = Some p"
      "\<not> vp_stop_requested p" by simp_all
    show ?thesis
    proof (cases "vp_session_active p")
      case True
      then have "\<not> ?free" using found by auto
      moreover have "outcome = Closed_after (if sends > 0 then import_reply 1 else [])" "sv' = sv1"
        using request True by (simp_all add: Some op begin_import_session_def)
      ultimately show ?thesis using alive by (simp only: if_False simp_thms)
    next
      case False
      then have ?free using found by blast
      moreover have "outcome = Session_for obj rest"
        "sv_alive sv' = (sv_alive sv)(obj \<mapsto> p\<lparr>vp_session_active := True, vp_client_socket := Some client\<rparr>)"
        using request False found alive by (auto simp: Some op begin_import_session_def)
      ultimately show ?thesis using found by (simp only: if_True) blast
    qed
  qed
qed

definition example_server :: usbip_server where
  "example_server = \<lparr>sv_ports = [(1, 7)], sv_alive = [7 \<mapsto> new_port VDS_PROFILE_DSE 1]\<rparr>"

theorem import_request_decision_witness:
  "fst (handle_client 5 (import_request ''1-2'' @ [9]) 1 example_server) = Session_for 7 [9]
   \<and> fst (handle_client 5 (import_request ''1-3'') 1 example_server) = Closed_after (import_reply 1)"
proof
  have ok: "server_ok example_server"
    by (auto simp: server_ok_def example_server_def map_ordered_def new_port_def split: if_splits)
  have busids: "busid_for_port 1 = Inr ''1-2''" "busid_for_port 2 = Inr ''1-3''" by code_simp+
  have "find_entry fst (sv_ports example_server) 1 = Some (1, 7)"
    "sv_alive example_server 7 = Some (new_port VDS_PROFILE_DSE 1)" "find_entry fst (sv_ports example_server) 2 = None"
    by (simp_all add: example_server_def)
  moreover have "\<not> vp_stop_requested (new_port VDS_PROFILE_DSE 1)" "\<not> vp_session_active (new_port VDS_PROFILE_DSE 1)"
    by (simp_all add: new_port_def)
  ultimately show "fst (handle_client 5 (import_request ''1-2'' @ [9]) 1 example_server) = Session_for 7 [9]"
    and "fst (handle_client 5 (import_request ''1-3'') 1 example_server) = Closed_after (import_reply 1)"
    using import_request_decision [OF ok busids(1) prod.collapse [symmetric], of 5 "[9]" 1]
      import_request_decision [OF ok busids(2) prod.collapse [symmetric], of 5 "[]" 1]
    by simp_all
qed

section \<open>The device list\<close>

lemma length_device_records:
  "length (concat (concat (map (\<lambda>(_, p). [wire_device (vp_profile p) (vp_port_index p) (port_busid p), wire_interfaces]) ps)))
    = 328 * length ps"
  by (induction ps) (auto simp: wire_sizes)

lemma device_record_at:
  "i < length ps \<Longrightarrow>
    take 312 (drop (328 * i) (concat (concat (map (\<lambda>(_, p). [wire_device (vp_profile p) (vp_port_index p) (port_busid p),
        wire_interfaces]) ps))))
    = wire_device (vp_profile (snd (ps ! i))) (vp_port_index (snd (ps ! i))) (port_busid (snd (ps ! i)))"
proof (induction ps arbitrary: i)
  case (Cons op ps)
  obtain obj p where op: "op = (obj, p)" by (rule prod.exhaust)
  show ?case
  proof (cases i)
    case (Suc j)
    have "drop (328 * i) (wire_device a b c @ wire_interfaces @ xs) = drop (328 * j) xs" for a b c xs
      by (simp add: Suc)
    with Cons Suc op show ?thesis by simp
  qed (simp add: op)
qed simp

text \<open>
  The device list is complete: its count is the number of registered ports that are alive, and
  after the 12 bytes of its head there is a record of 328 bytes for each, in the order of their
  indices, which holds the bus id that an import request can name.
\<close>

theorem device_list_complete:
  assumes "server_ok sv" and "2 + 2 * length (sv_ports sv) \<le> sends"
    and "send_device_list sends sv = (sent, sv')" and "length (sv_ports sv) < 2 ^ 32"
  shows "let kept = filter (\<lambda>(_, obj). sv_alive sv obj \<noteq> None) (sv_ports sv) in
    length sent = 12 + 328 * length kept \<and> (be_at 4 8 sent :: u32) = of_nat (length kept)
    \<and> (\<forall>i < length kept. \<forall>p. sv_alive sv (snd (kept ! i)) = Some p \<longrightarrow>
         busid_for_port (fst (kept ! i)) = Inr (port_busid p)
         \<and> take 312 (drop (12 + 328 * i) sent) = wire_device (vp_profile p) (fst (kept ! i)) (port_busid p))"
proof -
  define kept where "kept = filter (\<lambda>(_, obj). sv_alive sv obj \<noteq> None) (sv_ports sv)"
  define snapshot where "snapshot = map (\<lambda>(_ :: nat, obj). (obj, the (sv_alive sv obj))) kept"
  let ?records = "concat (concat (map (\<lambda>(_ :: nat, p). [wire_device (vp_profile p) (vp_port_index p) (port_busid p),
      wire_interfaces]) snapshot))"
  have two: "length (concat (map (\<lambda>(_ :: nat, p). [wire_device (vp_profile p) (vp_port_index p) (port_busid p),
      wire_interfaces]) ps)) = 2 * length ps" for ps
    by (induction ps) auto
  have "length snapshot \<le> length (sv_ports sv)" by (simp add: snapshot_def kept_def)
  then have "length (device_list_parts snapshot) \<le> sends"
    using assms(2) by (simp add: device_list_parts_def two)
  moreover have "active_ports sv = (snapshot, sv\<lparr>sv_ports := kept\<rparr>)"
    by (simp add: active_ports_def snapshot_def kept_def Let_def)
  ultimately have "sent = concat (device_list_parts snapshot)" using assms(3) by (simp add: send_device_list_def)
  then have sent: "sent = op_header_bytes \<lparr>oh_version = kProtocolVersion, oh_code = kOpRepDevlist, oh_status = 0\<rparr>
      @ be_bytes 4 (of_nat (length kept) :: u32) @ ?records"
    by (simp add: device_list_parts_def snapshot_def)
  have "busid_for_port (fst (kept ! i)) = Inr (port_busid p)
      \<and> take 312 (drop (12 + 328 * i) sent) = wire_device (vp_profile p) (fst (kept ! i)) (port_busid p)"
    if i: "i < length kept" and p: "sv_alive sv (snd (kept ! i)) = Some p" for i p
  proof -
    have "kept ! i \<in> set (sv_ports sv)" using nth_mem [OF i] by (simp add: kept_def)
    then have index: "vp_port_index p = fst (kept ! i)" "fst (kept ! i) < VDS_MAX_PORT_COUNT"
      using assms(1) p by (metis server_ok_def prod.collapse)+
    then have "busid_for_port (fst (kept ! i)) = Inr (port_busid p)" using busid_of_index [of p] by simp
    moreover have "snd (snapshot ! i) = p" using i p by (simp add: snapshot_def case_prod_beta)
    moreover have "take 312 (drop (12 + 328 * i) sent) = take 312 (drop (328 * i) ?records)" by (simp add: sent)
    ultimately show ?thesis using device_record_at [of i snapshot] i index by (simp add: snapshot_def)
  qed
  moreover have "length sent = 12 + 328 * length kept"
    using length_device_records [of snapshot] by (simp add: sent) (simp add: snapshot_def)
  moreover have "(be_at 4 8 sent :: u32) = of_nat (length kept)" by (simp add: sent be_at_def)
  ultimately show ?thesis by (simp add: kept_def Let_def)
qed

theorem device_list_complete_witness:
  "length (fst (send_device_list 4 example_server)) = 12 + 328 * 1"
proof -
  have ok: "server_ok example_server"
    by (auto simp: server_ok_def example_server_def map_ordered_def new_port_def split: if_splits)
  have "2 + 2 * length (sv_ports example_server) \<le> 4" "length (sv_ports example_server) < 2 ^ 32"
    by (simp_all add: example_server_def)
  from device_list_complete [OF ok this(1) prod.collapse [symmetric] this(2)] show ?thesis
    by (simp add: Let_def example_server_def)
qed

end
