(* ===== verification/UsbIpClient.thy ===== *)
theory UsbIpClient
  imports UsbIpWire
begin

text \<open>
  How the daemon drives the \<open>usbip.exe\<close> client (\<open>src/src/platform/win32/vds_usbip.cc\<close>): where the
  program is, how its command line is quoted, what its output tells, and how an attachment is
  waited for. UTF-16 text is a \<open>string\<close>; what the operating system answers is an argument.
\<close>

section \<open>The path of the client\<close>

text \<open>The environment: \<open>None\<close> for a variable that is not set or cannot be read.\<close>

definition environment_value :: "(string \<Rightarrow> string option) \<Rightarrow> string \<Rightarrow> string" where
  "environment_value env name = (case env name of None \<Rightarrow> [] | Some v \<Rightarrow> v)"

definition backslash :: char where "backslash = CHR 0x5C"
definition quote_char :: char where "quote_char = CHR 0x22"

definition kUsbipClientRelativePath :: string where
  "kUsbipClientRelativePath = ''USBip'' @ [backslash] @ ''usbip.exe''"

definition resolve_client_path :: "(string \<Rightarrow> string option) \<Rightarrow> string" where
  "resolve_client_path env =
     (let path = environment_value env ''VDS_USBIP_EXE'' in
      if path \<noteq> [] then path
      else
        (let path = environment_value env ''ProgramW6432'';
             path = (if path = [] then environment_value env ''ProgramFiles'' else path) in
         if path = [] then []
         else (if last path \<noteq> backslash then path @ [backslash] else path) @ kUsbipClientRelativePath))"

definition client_available :: "(string \<Rightarrow> string option) \<Rightarrow> (string \<Rightarrow> bool) \<Rightarrow> bool" where
  "client_available env regular_file_exists \<longleftrightarrow>
     (let path = resolve_client_path env in path \<noteq> [] \<and> regular_file_exists path)"

definition client_path :: "(string \<Rightarrow> string option) \<Rightarrow> string" where
  "client_path env = resolve_client_path env"

section \<open>The command line\<close>

text \<open>The loop of \<open>quote_argument\<close>, with the backslashes that are not written yet.\<close>

fun quote_loop :: "nat \<Rightarrow> string \<Rightarrow> string" where
  "quote_loop n [] = replicate (n * 2) backslash @ [quote_char]"
| "quote_loop n (c # cs) =
     (if c = backslash then quote_loop (Suc n) cs
      else if c = quote_char then replicate (n * 2 + 1) backslash @ quote_char # quote_loop 0 cs
      else replicate n backslash @ c # quote_loop 0 cs)"

definition quote_argument :: "string \<Rightarrow> string" where
  "quote_argument argument = quote_char # quote_loop 0 argument"

definition client_command_line :: "(string \<Rightarrow> string option) \<Rightarrow> string list \<Rightarrow> string" where
  "client_command_line env arguments =
     quote_argument (resolve_client_path env) @ concat (map (\<lambda>a. CHR '' '' # quote_argument a) arguments)"

text \<open>
  How Windows programs split a command line into arguments (\<open>CommandLineToArgvW\<close>, after the first
  argument): blanks outside quotes separate; \<open>2n\<close> backslashes before a quote are \<open>n\<close> backslashes
  and the quote opens or closes; \<open>2n + 1\<close> are \<open>n\<close> backslashes and a literal quote; other backslashes
  are literal.
\<close>

fun split_arguments :: "bool \<Rightarrow> nat \<Rightarrow> string \<Rightarrow> bool \<Rightarrow> string \<Rightarrow> string list" where
  "split_arguments quoted n cur begun [] = (if begun then [cur @ replicate n backslash] else [])"
| "split_arguments quoted n cur begun (c # cs) =
     (if c = backslash then split_arguments quoted (Suc n) cur True cs
      else if c = quote_char then
        (if even n then split_arguments (\<not> quoted) 0 (cur @ replicate (n div 2) backslash) True cs
         else split_arguments quoted 0 (cur @ replicate (n div 2) backslash @ [quote_char]) True cs)
      else if \<not> quoted \<and> c = CHR '' '' then
        (if begun then (cur @ replicate n backslash) # split_arguments False 0 [] False cs
         else split_arguments False 0 [] False cs)
      else split_arguments quoted 0 (cur @ replicate n backslash @ [c]) True cs)"

section \<open>Running the client\<close>

text \<open>
  What the operating system answers while \<open>run_client_process\<close> runs: the creation of the pipe, its
  configuration, whether the program exists, its start, the start of the thread that reads its
  output, the wait, the exit code, and what the program prints.
\<close>

datatype process_wait = Process_done | Process_timeout | Process_wait_failed string

record process_answers =
  pa_pipe_error :: "string option"
  pa_inherit_error :: "string option"
  pa_exists :: bool
  pa_start_error :: "string option"
  pa_thread_error :: "exn option"
  pa_wait :: process_wait
  pa_exit_code :: "u32 + string"
  pa_output :: string

record client_process_result =
  cp_exit_code :: u32
  cp_output :: string

definition fail_if :: "string option \<Rightarrow> string \<Rightarrow> unit result" where
  "fail_if e message = (case e of None \<Rightarrow> Inr () | Some t \<Rightarrow> Inl (Runtime_error (message @ t)))"

definition run_client_process :: "process_answers \<Rightarrow> client_process_result result" where
  "run_client_process a =
     bind_result (fail_if (pa_pipe_error a) ''failed to create usbip.exe output pipe: '') (\<lambda>_.
     bind_result (fail_if (pa_inherit_error a) ''failed to configure usbip.exe output pipe: '') (\<lambda>_.
     bind_result (require_that (pa_exists a) (Runtime_error ''usbip.exe is unavailable'')) (\<lambda>_.
     bind_result (fail_if (pa_start_error a) ''failed to start usbip.exe: '') (\<lambda>_.
     case pa_thread_error a of
       Some e \<Rightarrow> Inl e
     | None \<Rightarrow>
         (case pa_wait a of
            Process_timeout \<Rightarrow> Inl (Runtime_error ''usbip.exe timed out'')
          | Process_wait_failed e \<Rightarrow> Inl (Runtime_error (''usbip.exe wait failed: '' @ e))
          | Process_done \<Rightarrow>
              (case pa_exit_code a of
                 Inr e \<Rightarrow> Inl (Runtime_error (''failed to read usbip.exe exit code: '' @ e))
               | Inl code \<Rightarrow> Inr \<lparr>cp_exit_code = code, cp_output = pa_output a\<rparr>))))))"

section \<open>The port of an attached client\<close>

text \<open>The number after \<open>Port \<close>, if there are digits; an \<open>unsigned\<close> that wraps.\<close>

fun digits_value :: "string \<Rightarrow> nat \<Rightarrow> nat" where
  "digits_value [] v = v"
| "digits_value (c # cs) v =
     (if isdigit c then digits_value cs ((v * 10 + (code_of c - 48)) mod 2 ^ 32) else v)"

definition port_of_line :: "string \<Rightarrow> nat option" where
  "port_of_line line =
     (let number = drop 5 line in
      if number \<noteq> [] \<and> isdigit (hd number) then Some (digits_value number 0) else None)"

text \<open>The loop over the lines, with the port of the last heading.\<close>

function find_attached_port :: "string \<Rightarrow> nat option \<Rightarrow> string \<Rightarrow> nat option" where
  "find_attached_port endpoint current [] = None"
| "find_attached_port endpoint current (c # cs) =
     (let (line, rest) = split_first (CHR 0x0A) (c # cs);
          current' = (if prefix ''Port '' line then port_of_line line else current) in
      if current' \<noteq> None \<and> contains_text endpoint line then current'
      else (case rest of None \<Rightarrow> None | Some r \<Rightarrow> find_attached_port endpoint current' r))"
  by pat_completeness auto
termination
  by (relation "measure (\<lambda>(_, _, s). length s)") (auto dest: split_first_length [OF sym] simp del: split_first.simps)

definition attached_client_port :: "process_answers \<Rightarrow> string \<Rightarrow> nat option result" where
  "attached_client_port answers busid =
     bind_result (run_client_process answers) (\<lambda>r.
       if cp_exit_code r \<noteq> 0 then Inr None
       else Inr (find_attached_port (endpoint_for_busid busid) None (cp_output r)))"

text \<open>The arguments \<open>detach_client\<close> runs the client with, if there is a port to detach.\<close>

definition detach_client ::
    "process_answers \<Rightarrow> (string list \<Rightarrow> process_answers) \<Rightarrow> string \<Rightarrow> string list option result" where
  "detach_client port_answers detach_answers busid =
     bind_result (attached_client_port port_answers busid) (\<lambda>port.
       case port of
         None \<Rightarrow> Inr None
       | Some n \<Rightarrow>
           (let arguments = [''detach'', ''-p'', to_string n] in
            bind_result (run_client_process (detach_answers arguments)) (\<lambda>r.
              if cp_exit_code r \<noteq> 0 then
                Inl (Runtime_error (''usbip.exe detach failed with exit code '' @ to_string (unat (cp_exit_code r))))
              else Inr (Some arguments))))"

section \<open>Waiting for the attachment\<close>

definition kClientAttachTimeoutMs :: nat where "kClientAttachTimeoutMs = 10000"
definition kClientAttachPollMs :: nat where "kClientAttachPollMs = 25"

text \<open>
  What one round of the loop in \<open>VirtualPort\<close>'s constructor sees: whether the client has attached,
  the state of its process (259 is \<open>STILL_ACTIVE\<close>) and the time since the start.
\<close>

record attach_poll =
  at_attached :: bool
  at_exit_code :: "u32 + string"
  at_elapsed :: nat

abbreviation (input) STILL_ACTIVE :: u32 where "STILL_ACTIVE \<equiv> 259"

fun attach_wait :: "string \<Rightarrow> attach_poll list \<Rightarrow> unit result option" where
  "attach_wait busid [] = None"
| "attach_wait busid (p # polls) =
     (if at_attached p then Some (Inr ())
      else
        (case at_exit_code p of
           Inr e \<Rightarrow> Some (Inl (Runtime_error (''failed to read usbip.exe attach state: '' @ e)))
         | Inl code \<Rightarrow>
             if code \<noteq> STILL_ACTIVE \<and> code \<noteq> 0 then
               Some (Inl (Runtime_error (''usbip.exe attach failed with exit code '' @ to_string (unat code))))
             else if at_elapsed p \<ge> kClientAttachTimeoutMs then
               Some (Inl (Runtime_error (''usbip.exe attach timed out for busid='' @ busid)))
             else attach_wait busid polls))"

definition attach_arguments :: "string \<Rightarrow> string list" where
  "attach_arguments busid = [''attach'', ''-r'', ''127.0.0.1'', ''-b'', busid, ''--once'']"

section \<open>Quoting is undone by splitting\<close>

lemma split_backslashes:
  "0 < k \<Longrightarrow> split_arguments quoted n cur begun (replicate k backslash @ rest) = split_arguments quoted (n + k) cur True rest"
proof (induction k arbitrary: n begun)
  case (Suc k)
  then show ?case by (cases k) simp_all
qed simp

lemma split_backslashes_begun:
  "split_arguments quoted n cur True (replicate k backslash @ rest) = split_arguments quoted (n + k) cur True rest"
  by (cases k) (simp_all only: split_backslashes [of "Suc _"] replicate_0 append_Nil add_0_right zero_less_Suc)

lemma backslash_not_quote [simp]: "backslash \<noteq> quote_char" "quote_char \<noteq> backslash" "backslash \<noteq> CHR '' ''" "quote_char \<noteq> CHR '' ''"
  by (simp_all add: backslash_def quote_char_def)

lemma split_quoted:
  "split_arguments True 0 cur True (quote_loop n s @ rest) = split_arguments False 0 (cur @ replicate n backslash @ s) True rest"
proof (induction n s arbitrary: cur rule: quote_loop.induct)
  case (1 n)
  show ?case by (simp add: split_backslashes_begun)
next
  case (2 n c cs)
  consider "c = backslash" | "c = quote_char" | "c \<noteq> backslash" "c \<noteq> quote_char" by blast
  then show ?case
  proof cases
    case 1
    with "2.IH"(1) show ?thesis by (simp add: replicate_app_Cons_same)
  next
    case 2
    with "2.IH"(2) show ?thesis
      using split_backslashes_begun [of True 0 cur "n * 2 + 1"] by (simp add: mult.commute)
  next
    case 3
    with "2.IH"(3) show ?thesis by (simp add: split_backslashes_begun)
  qed
qed

lemma split_quote_argument:
  "split_arguments False 0 [] False (quote_argument a @ rest) = split_arguments False 0 a True rest"
  using split_quoted [of "[]" 0 a rest] by (simp add: quote_argument_def)

lemma split_command_line:
  "split_arguments False 0 cur True (concat (map (\<lambda>a. CHR '' '' # quote_argument a) arguments)) = cur # arguments"
proof (induction arguments arbitrary: cur)
  case (Cons a arguments)
  have "CHR '' '' \<noteq> backslash" "CHR '' '' \<noteq> quote_char" by (simp_all add: backslash_def quote_char_def)
  with Cons show ?case by (simp add: split_quote_argument)
qed simp

text \<open>
  The command line the client is started with means what it should: splitting it as Windows
  programs do gives back the path and every argument, whatever quotes, blanks and backslashes they
  contain.
\<close>

theorem command_line_roundtrip:
  "split_arguments False 0 [] False (client_command_line env arguments) = resolve_client_path env # arguments"
  by (simp add: client_command_line_def split_quote_argument split_command_line)

section \<open>The port is found\<close>

text \<open>What \<open>usbip port\<close> prints of one port: a heading with its number, then lines that describe it.\<close>

definition newline :: char where "newline = CHR 0x0A"

fun block_text :: "nat \<times> string list \<Rightarrow> string" where
  "block_text (n, details) =
     ''Port '' @ to_string n @ '': in use'' @ [newline] @ concat (map (\<lambda>l. l @ [newline]) details)"

fun block_ok :: "nat \<times> string list \<Rightarrow> bool" where
  "block_ok (n, details) \<longleftrightarrow> n < 2 ^ 32
     \<and> list_all (\<lambda>l. newline \<notin> set l \<and> \<not> prefix ''Port '' l) details"

fun block_mentions :: "string \<Rightarrow> nat \<times> string list \<Rightarrow> bool" where
  "block_mentions endpoint (n, details) \<longleftrightarrow> list_ex (contains_text endpoint) details"

lemma digits_value_run:
  "list_all isdigit ds \<Longrightarrow> dec_value v ds < 2 ^ 32 \<Longrightarrow> (rest = [] \<or> \<not> isdigit (hd rest)) \<Longrightarrow>
    digits_value (ds @ rest) v = dec_value v ds"
proof (induction ds arbitrary: v)
  case Nil
  then show ?case by (cases rest) simp_all
next
  case (Cons d ds)
  have "v * 10 + (code_of d - 48) \<le> dec_value (v * 10 + (code_of d - 48)) ds" by (rule dec_value_ge)
  with Cons show ?case by simp
qed

lemma port_of_heading:
  assumes "n < 2 ^ 32"
  shows "port_of_line (''Port '' @ to_string n @ '': in use'') = Some n"
proof -
  have digits: "list_all isdigit (to_string n)" using to_string_digits by (auto simp: list_all_iff)
  then have "isdigit (hd (to_string n))" by (cases "to_string n") simp_all
  moreover have "digits_value (to_string n @ '': in use'') 0 = n"
    using digits_value_run [OF digits, of 0 "'': in use''"] assms by (simp add: isdigit_def code_of_def)
  ultimately show ?thesis by (simp add: port_of_line_def Let_def)
qed

lemma find_line:
  assumes "newline \<notin> set line"
  shows "find_attached_port endpoint current (line @ newline # rest) =
    (let current' = (if prefix ''Port '' line then port_of_line line else current) in
     if current' \<noteq> None \<and> contains_text endpoint line then current'
     else find_attached_port endpoint current' rest)"
proof -
  obtain c cs where c: "line @ newline # rest = c # cs" by (cases "line @ newline # rest") simp_all
  have "split_first newline (c # cs) = (line, Some rest)"
    using split_first_Some [OF assms, of rest] by (simp only: c)
  then show ?thesis unfolding c by (simp add: newline_def Let_def)
qed

text \<open>The lines of one block leave the loop with the port of the block, or find it there.\<close>

lemma find_details:
  assumes "list_all (\<lambda>l. newline \<notin> set l \<and> \<not> prefix ''Port '' l) details"
  shows "find_attached_port endpoint (Some n) (concat (map (\<lambda>l. l @ [newline]) details) @ rest) =
    (if list_ex (contains_text endpoint) details then Some n else find_attached_port endpoint (Some n) rest)"
  using assms
proof (induction details)
  case (Cons l details)
  with find_line [where line = l and rest = "concat (map (\<lambda>l. l @ [newline]) details) @ rest"
      and endpoint = endpoint and current = "Some n"] show ?case
    by (auto simp: Let_def)
qed simp

lemma find_block:
  assumes "block_ok (n, details)" and quiet: "\<not> contains_text endpoint (''Port '' @ to_string n @ '': in use'')"
  shows "find_attached_port endpoint current (block_text (n, details) @ rest) =
    (if block_mentions endpoint (n, details) then Some n else find_attached_port endpoint (Some n) rest)"
proof -
  let ?line = "''Port '' @ to_string n @ '': in use''"
  have "newline \<notin> set ?line"
    using to_string_digits [of newline n] by (auto simp: newline_def isdigit_def code_of_def)
  moreover have "prefix ''Port '' ?line" by simp
  ultimately have "find_attached_port endpoint current (?line @ newline # concat (map (\<lambda>l. l @ [newline]) details) @ rest)
      = find_attached_port endpoint (Some n) (concat (map (\<lambda>l. l @ [newline]) details) @ rest)"
    using find_line [where line = ?line and rest = "concat (map (\<lambda>l. l @ [newline]) details) @ rest"
        and endpoint = endpoint and current = current]
      port_of_heading [of n] quiet assms(1) by (simp only: Let_def) simp
  with find_details [of details endpoint n rest] assms(1) show ?thesis by simp
qed

text \<open>
  The port that is detached is the one the client's list gives for this device: among the
  blocks that \<open>usbip port\<close> prints, the number in the heading of the first block that mentions the
  device's endpoint, and none when no block does.
\<close>

theorem attached_port_found:
  assumes "list_all block_ok blocks"
    and "list_all (\<lambda>(n, _). \<not> contains_text (endpoint_for_busid busid) (''Port '' @ to_string n @ '': in use'')) blocks"
    and "run_client_process answers = Inr \<lparr>cp_exit_code = 0, cp_output = concat (map block_text blocks)\<rparr>"
  shows "attached_client_port answers busid
    = Inr (map_option fst (find (block_mentions (endpoint_for_busid busid)) blocks))"
proof -
  have "find_attached_port (endpoint_for_busid busid) current (concat (map block_text blocks))
      = map_option fst (find (block_mentions (endpoint_for_busid busid)) blocks)" for current
    using assms(1,2)
  proof (induction blocks arbitrary: current)
    case (Cons b blocks)
    obtain n details where b: "b = (n, details)" by (rule prod.exhaust)
    with Cons.prems have "block_ok (n, details)"
      "\<not> contains_text (endpoint_for_busid busid) (''Port '' @ to_string n @ '': in use'')" by simp_all
    from find_block [OF this, of current "concat (map block_text blocks)"] Cons b show ?case
      by (simp del: block_text.simps block_mentions.simps)
  qed simp
  with assms(3) show ?thesis by (simp add: attached_client_port_def)
qed

definition example_answers :: "string \<Rightarrow> process_answers" where
  "example_answers text =
     \<lparr>pa_pipe_error = None, pa_inherit_error = None, pa_exists = True, pa_start_error = None, pa_thread_error = None,
      pa_wait = Process_done, pa_exit_code = Inl 0, pa_output = text\<rparr>"

theorem attached_port_found_witness:
  "attached_client_port (example_answers (concat (map block_text
       [(0, [''  usbip://10.0.0.2:3240/1-2'']), (1, [''  usbip://127.0.0.1:3240/1-2''])]))) ''1-2'' = Inr (Some 1)"
proof -
  let ?blocks = "[(0, [''  usbip://10.0.0.2:3240/1-2'']), (1, [''  usbip://127.0.0.1:3240/1-2''])] :: (nat \<times> string list) list"
  have endpoint: "endpoint_for_busid ''1-2'' = ''usbip://127.0.0.1:3240/1-2''"
    by (simp add: endpoint_for_busid_def kDefaultPort_def to_string.simps digit_char_values)
  have numbers: "to_string 0 = ''0''" "to_string (Suc 0) = ''1''" by code_simp+
  have ok: "list_all block_ok ?blocks" by (simp add: newline_def)
  have quiet: "list_all (\<lambda>(n, _). \<not> contains_text (endpoint_for_busid ''1-2'') (''Port '' @ to_string n @ '': in use'')) ?blocks"
    unfolding endpoint by (simp add: numbers)
  have "run_client_process (example_answers (concat (map block_text ?blocks)))
      = Inr \<lparr>cp_exit_code = 0, cp_output = concat (map block_text ?blocks)\<rparr>"
    by (simp add: run_client_process_def example_answers_def fail_if_def)
  from attached_port_found [OF ok quiet this] show ?thesis unfolding endpoint by simp
qed

definition still_waiting :: "attach_poll \<Rightarrow> bool" where
  "still_waiting p \<longleftrightarrow> \<not> at_attached p \<and> at_exit_code p \<in> {Inl STILL_ACTIVE, Inl 0}
     \<and> at_elapsed p < kClientAttachTimeoutMs"

lemma attach_wait_waiting: "still_waiting p \<Longrightarrow> attach_wait busid (p # polls) = attach_wait busid polls"
  by (auto simp: still_waiting_def)

lemma attach_wait_decided:
  "\<not> still_waiting p \<Longrightarrow> \<exists>r. attach_wait busid (p # polls) = Some r \<and> (is_ok r \<longleftrightarrow> at_attached p)"
  by (auto simp: still_waiting_def split: sum.splits)

text \<open>
  Waiting for the attachment ends: once a round sees the client attached or ten seconds have
  passed, the wait has returned, and it returns normally exactly when the first round that does
  not go on waiting (because the client is attached, its process failed, or the time is over) sees
  the client attached.
\<close>

theorem attach_wait_ends:
  assumes "poll \<in> set polls" "at_attached poll \<or> kClientAttachTimeoutMs \<le> at_elapsed poll"
  shows "\<exists>r. attach_wait busid polls = Some r \<and> (is_ok r \<longleftrightarrow> at_attached (hd (dropWhile still_waiting polls)))"
  using assms
proof (induction polls)
  case (Cons p polls)
  show ?case
  proof (cases "still_waiting p")
    case True
    with Cons.prems have "poll \<in> set polls" by (auto simp: still_waiting_def)
    from Cons.IH [OF this Cons.prems(2)] True show ?thesis
      by (simp only: attach_wait_waiting dropWhile.simps if_True)
  next
    case False
    with attach_wait_decided [OF False] show ?thesis by (simp del: attach_wait.simps)
  qed
qed simp

theorem attach_wait_ends_witness:
  "\<exists>r. attach_wait ''1-1'' [\<lparr>at_attached = False, at_exit_code = Inl 259, at_elapsed = 0\<rparr>,
       \<lparr>at_attached = True, at_exit_code = Inl 0, at_elapsed = 25\<rparr>] = Some r \<and> is_ok r"
  using attach_wait_ends [of "\<lparr>at_attached = True, at_exit_code = Inl 0, at_elapsed = 25\<rparr>"
      "[\<lparr>at_attached = False, at_exit_code = Inl 259, at_elapsed = 0\<rparr>,
       \<lparr>at_attached = True, at_exit_code = Inl 0, at_elapsed = 25\<rparr>]" "''1-1''"]
  by (simp add: still_waiting_def kClientAttachTimeoutMs_def)

end
