(* ===== verification/Actions.thy ===== *)
theory Actions
  imports Prelude
begin

text \<open>
  Operations of the daemons as state transformers: an action takes a state, returns a value or
  throws, and leaves a state either way, since what a C++ function did before it threw stays done.
  The lemmas compute the weakest precondition of an action, with one postcondition for a return and
  one for an exception, and what every action keeps.
\<close>

type_synonym ('w, 'a) act = "'w \<Rightarrow> 'a result \<times> 'w"

definition ret :: "'a \<Rightarrow> ('w, 'a) act" where
  "ret x w = (Inr x, w)"

definition throw :: "exn \<Rightarrow> ('w, 'a) act" where
  "throw e w = (Inl e, w)"

definition bind_act :: "('w, 'a) act \<Rightarrow> ('a \<Rightarrow> ('w, 'b) act) \<Rightarrow> ('w, 'b) act" where
  "bind_act m k w = (case m w of (Inl e, w') \<Rightarrow> (Inl e, w') | (Inr x, w') \<Rightarrow> k x w')"

definition seq_act :: "('w, 'a) act \<Rightarrow> ('w, 'b) act \<Rightarrow> ('w, 'b) act" where
  "seq_act m k = bind_act m (\<lambda>_. k)"

definition upd :: "('w \<Rightarrow> 'w) \<Rightarrow> ('w, unit) act" where
  "upd f w = (Inr (), f w)"

definition with_state :: "('w \<Rightarrow> ('w, 'a) act) \<Rightarrow> ('w, 'a) act" where
  "with_state k w = k w w"

text \<open>\<open>try { m } catch (const std::exception &e) { h(e) }\<close>.\<close>

definition catch_act :: "('w, 'a) act \<Rightarrow> (exn \<Rightarrow> ('w, 'a) act) \<Rightarrow> ('w, 'a) act" where
  "catch_act m h w = (case m w of (Inl e, w') \<Rightarrow> h e w' | r \<Rightarrow> r)"

text \<open>A computation without effect whose exception is thrown on.\<close>

definition lift_result :: "'a result \<Rightarrow> ('w, 'a) act" where
  "lift_result r w = (r, w)"

fun for_each :: "('a \<Rightarrow> ('w, unit) act) \<Rightarrow> 'a list \<Rightarrow> ('w, unit) act" where
  "for_each f [] = ret ()"
| "for_each f (x # xs) = seq_act (f x) (for_each f xs)"

section \<open>Weakest preconditions\<close>

named_theorems wp_simps \<open>equations that compute the weakest precondition of an action\<close>
named_theorems keeps_intros \<open>rules that show that an action keeps a predicate\<close>
named_theorems no_throw_intros \<open>rules that show that an action does not throw\<close>

definition wp :: "('w, 'a) act \<Rightarrow> ('a \<Rightarrow> 'w \<Rightarrow> bool) \<Rightarrow> (exn \<Rightarrow> 'w \<Rightarrow> bool) \<Rightarrow> 'w \<Rightarrow> bool" where
  "wp m Q E w = (case m w of (Inl e, w') \<Rightarrow> E e w' | (Inr x, w') \<Rightarrow> Q x w')"

lemma wp_ret [wp_simps]: "wp (ret x) Q E = Q x"
  by (simp add: fun_eq_iff wp_def ret_def)

lemma wp_throw [wp_simps]: "wp (throw e) Q E = E e"
  by (simp add: fun_eq_iff wp_def throw_def)

lemma wp_upd [wp_simps]: "wp (upd f) Q E w = Q () (f w)"
  by (simp add: wp_def upd_def)

lemma wp_with_state [wp_simps]: "wp (with_state k) Q E w = wp (k w) Q E w"
  by (simp add: wp_def with_state_def)

lemma wp_bind [wp_simps]: "wp (bind_act m h) Q E = wp m (\<lambda>x. wp (h x) Q E) E"
  by (auto simp: fun_eq_iff wp_def bind_act_def split: prod.splits sum.splits)

lemma wp_seq [wp_simps]: "wp (seq_act m n) Q E = wp m (\<lambda>_. wp n Q E) E"
  by (simp add: seq_act_def wp_simps)

lemma wp_catch [wp_simps]: "wp (catch_act m c) Q E = wp m Q (\<lambda>e. wp (c e) Q E)"
  by (auto simp: fun_eq_iff wp_def catch_act_def split: prod.splits sum.splits)

lemma wp_lift [wp_simps]:
  "wp (lift_result r) Q E w = (case r of Inl e \<Rightarrow> E e w | Inr x \<Rightarrow> Q x w)"
  by (simp add: wp_def lift_result_def)

lemma wp_if [wp_simps]: "wp (if b then m else n) Q E w = (if b then wp m Q E w else wp n Q E w)"
  by simp

lemma wp_option [wp_simps]:
  "wp (case opt of None \<Rightarrow> m | Some x \<Rightarrow> h x) Q E w = (case opt of None \<Rightarrow> wp m Q E w | Some x \<Rightarrow> wp (h x) Q E w)"
  by (simp split: option.splits)

lemma wp_pair [wp_simps]:
  "wp (case p of (a, b) \<Rightarrow> g a b) Q E w = (case p of (a, b) \<Rightarrow> wp (g a b) Q E w)"
  by (simp split: prod.splits)

lemma wp_let [wp_simps]: "wp (let x = y in k x) Q E w = (let x = y in wp (k x) Q E w)"
  by simp

lemma wp_result [wp_simps]:
  "wp (case r of Inl e \<Rightarrow> f e | Inr x \<Rightarrow> h x) Q E w = (case r of Inl e \<Rightarrow> wp (f e) Q E w | Inr x \<Rightarrow> wp (h x) Q E w)"
  by (simp split: sum.splits)

lemma wp_mono:
  assumes "wp m Q E w" and "\<And>x w'. Q x w' \<Longrightarrow> Q' x w'" and "\<And>e w'. E e w' \<Longrightarrow> E' e w'"
  shows "wp m Q' E' w"
  using assms by (auto simp: wp_def split: prod.splits sum.splits)

lemma wp_conj: "wp m Q E w \<Longrightarrow> wp m Q' E' w \<Longrightarrow> wp m (\<lambda>x w. Q x w \<and> Q' x w) (\<lambda>e w. E e w \<and> E' e w) w"
  by (auto simp: wp_def split: prod.splits sum.splits)

lemma wp_trivial [simp]: "wp m (\<lambda>_ _. True) (\<lambda>_ _. True) w"
  by (simp add: wp_def split: prod.splits sum.splits)

lemma wp_returns: "m w = (Inr x, w') \<Longrightarrow> wp m Q E w \<Longrightarrow> Q x w'"
  by (simp add: wp_def)

lemma wp_throws: "m w = (Inl e, w') \<Longrightarrow> wp m Q E w \<Longrightarrow> E e w'"
  by (simp add: wp_def)

section \<open>What an action keeps\<close>

definition keeps :: "('w \<Rightarrow> bool) \<Rightarrow> ('w, 'a) act \<Rightarrow> bool" where
  "keeps I m \<longleftrightarrow> (\<forall>w. I w \<longrightarrow> wp m (\<lambda>_. I) (\<lambda>_. I) w)"

lemma keepsI: "(\<And>w. I w \<Longrightarrow> wp m (\<lambda>_. I) (\<lambda>_. I) w) \<Longrightarrow> keeps I m"
  by (simp add: keeps_def)

lemma keeps_state: "keeps I m \<longleftrightarrow> (\<forall>w. I w \<longrightarrow> I (snd (m w)))"
  unfolding keeps_def wp_def by (metis (mono_tags, lifting) case_prod_unfold old.sum.simps(5,6) sumE)

lemma keeps_ret [keeps_intros]: "keeps I (ret x)"
  by (simp add: keeps_def wp_simps)

lemma keeps_throw [keeps_intros]: "keeps I (throw e)"
  by (simp add: keeps_def wp_simps)

lemma keeps_lift [keeps_intros]: "keeps I (lift_result r)"
  by (simp add: keeps_def wp_simps split: sum.split)

lemma keeps_upd [keeps_intros]: "(\<And>w. I w \<Longrightarrow> I (f w)) \<Longrightarrow> keeps I (upd f)"
  by (simp add: keeps_def wp_simps)

lemma keeps_with_state [keeps_intros]: "(\<And>w. keeps I (k w)) \<Longrightarrow> keeps I (with_state k)"
  by (simp add: keeps_def wp_simps)

lemma keeps_bind [keeps_intros]: "keeps I m \<Longrightarrow> (\<And>x. keeps I (h x)) \<Longrightarrow> keeps I (bind_act m h)"
  by (auto simp: keeps_def wp_simps intro: wp_mono)

lemma keeps_seq [keeps_intros]: "keeps I m \<Longrightarrow> keeps I n \<Longrightarrow> keeps I (seq_act m n)"
  by (simp add: seq_act_def keeps_bind)

lemma keeps_catch [keeps_intros]: "keeps I m \<Longrightarrow> (\<And>e. keeps I (c e)) \<Longrightarrow> keeps I (catch_act m c)"
  by (auto simp: keeps_def wp_simps intro: wp_mono)

lemma keeps_if [keeps_intros]:
  "(b \<Longrightarrow> keeps I m) \<Longrightarrow> (\<not> b \<Longrightarrow> keeps I n) \<Longrightarrow> keeps I (if b then m else n)"
  by simp

lemma keeps_option [keeps_intros]:
  "(opt = None \<Longrightarrow> keeps I m) \<Longrightarrow> (\<And>x. opt = Some x \<Longrightarrow> keeps I (h x))
    \<Longrightarrow> keeps I (case opt of None \<Rightarrow> m | Some x \<Rightarrow> h x)"
  by (simp split: option.splits)

lemma keeps_sum [keeps_intros]:
  "(\<And>e. r = Inl e \<Longrightarrow> keeps I (f e)) \<Longrightarrow> (\<And>x. r = Inr x \<Longrightarrow> keeps I (h x))
    \<Longrightarrow> keeps I (case r of Inl e \<Rightarrow> f e | Inr x \<Rightarrow> h x)"
  by (simp split: sum.splits)

lemma keeps_pair [keeps_intros]:
  "(\<And>a b. p = (a, b) \<Longrightarrow> keeps I (g a b)) \<Longrightarrow> keeps I (case p of (a, b) \<Rightarrow> g a b)"
  by (simp split: prod.splits)

lemma keeps_for_each [keeps_intros]: "(\<And>x. keeps I (f x)) \<Longrightarrow> keeps I (for_each f xs)"
  by (induction xs) (auto intro: keeps_intros)

lemma keeps_conj: "keeps I m \<Longrightarrow> keeps J m \<Longrightarrow> keeps (\<lambda>w. I w \<and> J w) m"
  by (simp add: keeps_state)

lemma keeps_wp: "keeps I m \<Longrightarrow> I w \<Longrightarrow> wp m (\<lambda>_. I) (\<lambda>_. I) w"
  by (simp add: keeps_def)

section \<open>What holds when an action returns\<close>

definition returns_with :: "('w \<Rightarrow> bool) \<Rightarrow> ('w, 'a) act \<Rightarrow> ('w \<Rightarrow> bool) \<Rightarrow> bool" where
  "returns_with P m Q \<longleftrightarrow> (\<forall>w. P w \<longrightarrow> wp m (\<lambda>_. Q) (\<lambda>_ _. True) w)"

lemma returns_withI: "(\<And>w. P w \<Longrightarrow> wp m (\<lambda>_. Q) (\<lambda>_ _. True) w) \<Longrightarrow> returns_with P m Q"
  by (simp add: returns_with_def)

lemma returns_with_result: "returns_with P m Q \<Longrightarrow> P w \<Longrightarrow> m w = (Inr x, w') \<Longrightarrow> Q w'"
  by (auto simp: returns_with_def wp_def)

lemma keeps_returns: "keeps I m \<Longrightarrow> returns_with I m I"
  by (auto simp: keeps_def returns_with_def intro: wp_mono)

lemma returns_weaken:
  "returns_with P m Q \<Longrightarrow> (\<And>w. P' w \<Longrightarrow> P w) \<Longrightarrow> (\<And>w. Q w \<Longrightarrow> Q' w) \<Longrightarrow> returns_with P' m Q'"
  by (auto simp: returns_with_def intro: wp_mono)

lemma returns_conj: "returns_with P m Q \<Longrightarrow> returns_with P m R \<Longrightarrow> returns_with P m (\<lambda>w. Q w \<and> R w)"
  using wp_conj unfolding returns_with_def by fastforce

lemma returns_seq: "returns_with P m Q \<Longrightarrow> returns_with Q n R \<Longrightarrow> returns_with P (seq_act m n) R"
  by (auto simp: returns_with_def wp_simps intro: wp_mono)

lemma returns_bind: "returns_with P m Q \<Longrightarrow> (\<And>x. returns_with Q (h x) R) \<Longrightarrow> returns_with P (bind_act m h) R"
  by (auto simp: returns_with_def wp_simps intro: wp_mono)

lemma returns_bind_lift:
  "(\<And>x. r = Inr x \<Longrightarrow> returns_with P (h x) R) \<Longrightarrow> returns_with P (bind_act (lift_result r) h) R"
  by (auto simp: returns_with_def wp_simps split: sum.split)

lemma returns_if:
  "(b \<Longrightarrow> returns_with P m Q) \<Longrightarrow> (\<not> b \<Longrightarrow> returns_with P n Q) \<Longrightarrow> returns_with P (if b then m else n) Q"
  by simp

lemma returns_upd: "(\<And>w. P w \<Longrightarrow> Q (f w)) \<Longrightarrow> returns_with P (upd f) Q"
  by (simp add: returns_with_def wp_simps)

section \<open>Actions that do not throw\<close>

definition no_throw :: "('w, 'a) act \<Rightarrow> bool" where
  "no_throw m \<longleftrightarrow> (\<forall>w. wp m (\<lambda>_ _. True) (\<lambda>_ _. False) w)"

lemma no_throwI: "(\<And>w. wp m (\<lambda>_ _. True) (\<lambda>_ _. False) w) \<Longrightarrow> no_throw m"
  by (simp add: no_throw_def)

lemma no_throw_returns: "no_throw m \<Longrightarrow> \<exists>x w'. m w = (Inr x, w')"
  by (cases "m w") (auto simp: no_throw_def wp_def dest!: spec [of _ w] split: sum.splits)

lemma no_throw_ret [no_throw_intros]: "no_throw (ret x)"
  by (simp add: no_throw_def wp_simps)

lemma no_throw_upd [no_throw_intros]: "no_throw (upd f)"
  by (simp add: no_throw_def wp_simps)

lemma no_throw_with_state [no_throw_intros]: "(\<And>w. no_throw (k w)) \<Longrightarrow> no_throw (with_state k)"
  by (simp add: no_throw_def wp_simps)

lemma no_throw_bind [no_throw_intros]: "no_throw m \<Longrightarrow> (\<And>x. no_throw (h x)) \<Longrightarrow> no_throw (bind_act m h)"
  by (auto simp: no_throw_def wp_simps intro: wp_mono)

lemma no_throw_seq [no_throw_intros]: "no_throw m \<Longrightarrow> no_throw n \<Longrightarrow> no_throw (seq_act m n)"
  by (simp add: seq_act_def no_throw_bind)

lemma no_throw_catch [no_throw_intros]: "(\<And>e. no_throw (c e)) \<Longrightarrow> no_throw (catch_act m c)"
  by (auto simp: no_throw_def wp_simps intro: wp_mono [OF wp_trivial])

lemma no_throw_if [no_throw_intros]:
  "(b \<Longrightarrow> no_throw m) \<Longrightarrow> (\<not> b \<Longrightarrow> no_throw n) \<Longrightarrow> no_throw (if b then m else n)"
  by simp

lemma no_throw_option [no_throw_intros]:
  "(opt = None \<Longrightarrow> no_throw m) \<Longrightarrow> (\<And>x. opt = Some x \<Longrightarrow> no_throw (h x))
    \<Longrightarrow> no_throw (case opt of None \<Rightarrow> m | Some x \<Rightarrow> h x)"
  by (simp split: option.splits)

lemma no_throw_pair [no_throw_intros]:
  "(\<And>a b. p = (a, b) \<Longrightarrow> no_throw (g a b)) \<Longrightarrow> no_throw (case p of (a, b) \<Rightarrow> g a b)"
  by (simp split: prod.splits)

lemma no_throw_for_each [no_throw_intros]: "(\<And>x. no_throw (f x)) \<Longrightarrow> no_throw (for_each f xs)"
  by (induction xs) (auto intro: no_throw_intros)

end
