(* ===== verification/LinuxBt.thy ===== *)
theory LinuxBt
  imports Actions Common HandleIo Audio
begin

text \<open>
  The Bluetooth channels of \<open>src/src/platform/linux/vds_bt.cc\<close> and the surroundings of the Linux
  daemon: what the operating system, the clock and Opus answer, and the log of what the daemon has
  done to the channels and the virtual ports. An answer may depend on everything done before, so it
  is a function of the log. A list of answers that ends stands for a call whose next answer is the
  time-out of its poll (\<open>write_full\<close>) or a full queue (\<open>send\<close>, \<open>write\<close>).
\<close>

section \<open>The log\<close>

datatype bt_channel = Control_channel | Interrupt_channel

datatype ioctl_request = Ioc_disconnect | Ioc_connect | Ioc_set_profile nat

datatype event =
  Bt_sent bt_channel string bytes
| Bt_refused string bytes
| Bt_broken bt_channel string bytes
| Frame_written string bytes
| Frame_refused string bytes
| Frame_broken string bytes
| Port_ioctl_done string ioctl_request
| Port_ioctl_failed string ioctl_request
| Owner_disconnected string
| Client_reply string

text \<open>Whom an event is about: a controller or a virtual port.\<close>

fun event_place :: "event \<Rightarrow> string + string" where
  "event_place (Bt_sent channel address packet) = Inl address"
| "event_place (Bt_refused address packet) = Inl address"
| "event_place (Bt_broken channel address packet) = Inl address"
| "event_place (Frame_written path bs) = Inr path"
| "event_place (Frame_refused path bs) = Inr path"
| "event_place (Frame_broken path bs) = Inr path"
| "event_place (Port_ioctl_done path request) = Inr path"
| "event_place (Port_ioctl_failed path request) = Inr path"
| "event_place (Owner_disconnected address) = Inl address"
| "event_place (Client_reply reply) = Inr []"

type_synonym log = "event list"

datatype send_answer = Sent nat | Send_interrupted | Send_would_block | Send_error string

text \<open>What the daemon depends on: one answer, or list of answers, per call.\<close>

record ('s, 'd) os_env =
  os_send :: "log \<Rightarrow> send_answer list"
  os_write_full :: "log \<Rightarrow> write_answer list"
  os_write_frame :: "log \<Rightarrow> send_answer list"
  os_ioctl :: "log \<Rightarrow> string option"
  os_clock :: "log \<Rightarrow> int"
  os_encode :: "'s opus_encoder"
  os_decode :: "'d opus_decoder"
  os_new_encoder :: "'s result"
  os_new_decoder :: "'d result"
  os_waveout_sample :: "nat \<Rightarrow> s16"

section \<open>Addresses and messages\<close>

abbreviation (input) kHidControlPsm :: u16 where "kHidControlPsm \<equiv> 0x0011"
abbreviation (input) kHidInterruptPsm :: u16 where "kHidInterruptPsm \<equiv> 0x0013"
abbreviation (input) kBtReadBufferSize :: nat where "kBtReadBufferSize \<equiv> 1024"
abbreviation (input) kBtWritePollTimeoutMs :: int where "kBtWritePollTimeoutMs \<equiv> 1000"

definition psm_name :: "u16 \<Rightarrow> string" where
  "psm_name psm = hex_u16 psm"

definition psm_error :: "u16 \<Rightarrow> string \<Rightarrow> string" where
  "psm_error psm e = ''Bluetooth L2CAP PSM '' @ psm_name psm @ '': '' @ e"

definition bluetooth_address_string :: "(bytes \<Rightarrow> string) \<Rightarrow> bytes \<Rightarrow> string" where
  "bluetooth_address_string ba2str address = map tolower (ba2str address)"

text \<open>
  \<open>accept_l2cap_psm\<close>: the peer is accepted only with a whole socket address. \<open>ba2str\<close> is a function
  of the BlueZ library.
\<close>

datatype accept_answer =
  Accept_none
| Accept_error string
| Accept_short_address
| Accepted bytes nat "string option"

record bt_accepted_channel =
  ba_address :: string
  ba_fd :: int

definition accept_l2cap_psm :: "(bytes \<Rightarrow> string) \<Rightarrow> u16 \<Rightarrow> accept_answer \<Rightarrow> bt_accepted_channel option result" where
  "accept_l2cap_psm ba2str psm answer =
     (case answer of
        Accept_none \<Rightarrow> Inr None
      | Accept_error e \<Rightarrow> Inl (Runtime_error (''failed to accept incoming '' @ psm_error psm e))
      | Accept_short_address \<Rightarrow> Inr None
      | Accepted address fd fcntl_error \<Rightarrow>
          (case fcntl_error of
             Some e \<Rightarrow> Inl (Runtime_error (''failed to set accepted '' @ psm_name psm @ '' close-on-exec: '' @ e))
           | None \<Rightarrow> Inr (Some \<lparr>ba_address = bluetooth_address_string ba2str address, ba_fd = int fd\<rparr>)))"

section \<open>Sending\<close>

text \<open>\<open>try_write_packet\<close>: whether the packet was taken.\<close>

fun try_write_packet :: "send_answer list \<Rightarrow> bytes \<Rightarrow> bool result" where
  "try_write_packet [] bs = Inr False"
| "try_write_packet (Sent n # answers) bs =
     (if n = length bs then Inr True else Inl (Runtime_error ''Bluetooth L2CAP short packet write''))"
| "try_write_packet (Send_interrupted # answers) bs = try_write_packet answers bs"
| "try_write_packet (Send_would_block # answers) bs = Inr False"
| "try_write_packet (Send_error e # answers) bs = Inl (Runtime_error (''Bluetooth L2CAP write failed: '' @ e))"

record bt_backend =
  bb_address :: string
  bb_control_fd :: int
  bb_interrupt_fd :: int

text \<open>The part of the daemon's state an operation of the backend touches is the log.\<close>

definition log_event :: "event \<Rightarrow> (log, unit) act" where
  "log_event e = upd (\<lambda>l. l @ [e])"

definition try_send_output_report :: "('s, 'd) os_env \<Rightarrow> bt_backend \<Rightarrow> bytes \<Rightarrow> (log, bool) act" where
  "try_send_output_report env b report =
     (if bb_interrupt_fd b < 0 then ret False
      else (let packet = hidp_output_packet report in
        with_state (\<lambda>l.
          case try_write_packet (os_send env l) packet of
            Inl e \<Rightarrow> seq_act (log_event (Bt_broken Interrupt_channel (bb_address b) packet)) (throw e)
          | Inr True \<Rightarrow> seq_act (log_event (Bt_sent Interrupt_channel (bb_address b) packet)) (ret True)
          | Inr False \<Rightarrow> seq_act (log_event (Bt_refused (bb_address b) packet)) (ret False))))"

definition write_packet :: "('s, 'd) os_env \<Rightarrow> bt_channel \<Rightarrow> string \<Rightarrow> bytes \<Rightarrow> (log, unit) act" where
  "write_packet env channel address packet =
     with_state (\<lambda>l.
       case the (write_full ''Bluetooth L2CAP'' kBtWritePollTimeoutMs
              (os_write_full env l @ [Wr_would_block Poll_timeout]) packet []) of
         (sent, Inr _) \<Rightarrow> log_event (Bt_sent channel address packet)
       | (sent, Inl e) \<Rightarrow> seq_act (log_event (Bt_broken channel address sent)) (throw e))"

definition send_output_report :: "('s, 'd) os_env \<Rightarrow> bt_backend \<Rightarrow> bytes \<Rightarrow> (log, unit) act" where
  "send_output_report env b report =
     (if bb_interrupt_fd b < 0 then ret ()
      else write_packet env Interrupt_channel (bb_address b) (hidp_output_packet report))"

definition send_feature_get :: "('s, 'd) os_env \<Rightarrow> bt_backend \<Rightarrow> u8 \<Rightarrow> (log, unit) act" where
  "send_feature_get env b report_id =
     (if bb_control_fd b < 0 then ret ()
      else write_packet env Control_channel (bb_address b) (feature_get_packet report_id))"

definition send_feature_set :: "('s, 'd) os_env \<Rightarrow> bt_backend \<Rightarrow> bytes \<Rightarrow> (log, unit) act" where
  "send_feature_set env b report =
     (if bb_control_fd b < 0 then ret ()
      else bind_act (lift_result (feature_set_packet report)) (\<lambda>packet.
        if packet \<noteq> [] then write_packet env Control_channel (bb_address b) packet else ret ()))"

section \<open>Receiving\<close>

text \<open>One \<open>read\<close>; a packet longer than the buffer is cut by the socket.\<close>

datatype read_answer = Read_bytes bytes | Read_would_block | Read_error string

definition read_feature_report :: "read_answer \<Rightarrow> bytes option result" where
  "read_feature_report answer =
     (case answer of
        Read_would_block \<Rightarrow> Inr None
      | Read_error e \<Rightarrow> Inl (Runtime_error (''Bluetooth L2CAP control read failed: '' @ e))
      | Read_bytes bs \<Rightarrow>
          (let got = take kBtReadBufferSize bs
           in if got = [] then Inl (Runtime_error ''Bluetooth L2CAP control channel closed'')
              else Inr (bt_feature_to_usb_feature_reply got)))"

definition read_interrupt_packet :: "read_answer \<Rightarrow> bytes option result" where
  "read_interrupt_packet answer =
     (case answer of
        Read_would_block \<Rightarrow> Inr None
      | Read_error e \<Rightarrow> Inl (Runtime_error (''Bluetooth L2CAP read failed: '' @ e))
      | Read_bytes bs \<Rightarrow>
          (let got = take kBtReadBufferSize bs
           in if got = [] then Inl (Runtime_error ''Bluetooth L2CAP interrupt channel closed'')
              else Inr (Some got)))"

section \<open>Which errors are Bluetooth errors\<close>

definition is_bluetooth_error :: "exn \<Rightarrow> bool" where
  "is_bluetooth_error e \<longleftrightarrow>
     prefix ''Bluetooth L2CAP'' (what e) \<or> prefix ''failed to connect Bluetooth'' (what e)"

lemma bluetooth_message [simp]: "is_bluetooth_error (Runtime_error (''Bluetooth L2CAP'' @ s))"
  by (simp add: is_bluetooth_error_def)

lemma bluetooth_errors [simp]:
  "is_bluetooth_error (Runtime_error (CHR ''B'' # CHR ''l'' # CHR ''u'' # CHR ''e'' # CHR ''t'' # CHR ''o'' # CHR ''o''
    # CHR ''t'' # CHR ''h'' # CHR '' '' # CHR ''L'' # CHR ''2'' # CHR ''C'' # CHR ''A'' # CHR ''P'' # s))"
  using bluetooth_message [of s] by simp

lemma try_write_packet_error: "try_write_packet answers bs = Inl e \<Longrightarrow> is_bluetooth_error e"
  by (induction answers bs rule: try_write_packet.induct) (auto split: if_splits)

lemma Cons_eq_replicate:
  "a # xs = replicate k b @ ys \<longleftrightarrow> k = 0 \<and> ys = a # xs \<or> (\<exists>j. k = Suc j \<and> a = b \<and> xs = replicate j b @ ys)"
  by (cases k) auto

text \<open>A packet is taken whole or not at all, and the first answer that is not an interruption decides.\<close>

lemma try_write_packet_taken:
  "try_write_packet answers bs = Inr True \<longleftrightarrow>
    (\<exists>k rest. answers = replicate k Send_interrupted @ Sent (length bs) # rest)" (is "_ \<longleftrightarrow> ?taken answers bs")
  by (induction answers bs rule: try_write_packet.induct) (auto simp: Cons_eq_replicate)

text \<open>The poll ends \<open>write_full\<close>: with the time-out as its last answer it always returns.\<close>

lemma write_full_ends:
  "\<exists>sent r. write_full label t (answers @ [Wr_would_block Poll_timeout]) bs out = Some (sent, r)
     \<and> (\<forall>e. r = Inl e \<longrightarrow> prefix label (what e))"
proof (induction answers arbitrary: bs out)
  case Nil
  show ?case by (cases bs) auto
next
  case (Cons a answers)
  show ?case
  proof (cases bs)
    case (Cons b rest)
    with Cons.IH show ?thesis by (auto split: write_answer.split poll_answer.split)
  qed auto
qed

end
