(* ===== verification/LinuxPort.thy ===== *)
theory LinuxPort
  imports LinuxBt
begin

text \<open>
  A virtual port of the Linux daemon, \<open>struct VirtualPort\<close> of \<open>src/src/platform/linux/vdsd.cc\<close>:
  frames from the kernel module on its device node, packets from the controller on the two channels
  of its backend, and the output that waits for room in the Bluetooth queue. Log lines and the
  figures that only they show (latencies, input gaps, peaks, the last report) are left out; the
  counters of dropped, deferred and forwarded items are kept. A time is a number of nanoseconds, and
  0 is \<open>Clock::time_point{}\<close>.
\<close>

section \<open>State\<close>

abbreviation (input) kMaxPendingAudioChunks :: nat where "kMaxPendingAudioChunks \<equiv> 8"
abbreviation (input) kFreshPendingAudioChunks :: nat where "kFreshPendingAudioChunks \<equiv> 4"
abbreviation (input) kAudioOutputInterval :: int where "kAudioOutputInterval \<equiv> 10000000"
abbreviation (input) kHapticsOutputBlockedRetry :: int where "kHapticsOutputBlockedRetry \<equiv> 2000000"
abbreviation (input) kUsbInputMuteButtonOffset :: nat where "kUsbInputMuteButtonOffset \<equiv> 10"
abbreviation (input) kUsbInputHeadsetOffset :: nat where "kUsbInputHeadsetOffset \<equiv> 54"
abbreviation (input) kUsbInputHeadphonesPluggedMask :: u8 where "kUsbInputHeadphonesPluggedMask \<equiv> 0x01"
abbreviation (input) kUsbInputMicPluggedMask :: u8 where "kUsbInputMicPluggedMask \<equiv> 0x02"
abbreviation (input) kUsbInputMuteButtonMask :: u8 where "kUsbInputMuteButtonMask \<equiv> 0x04"
abbreviation (input) kTestCommandReportId :: u8 where "kTestCommandReportId \<equiv> 0x80"
abbreviation (input) kTestCommandResultReportId :: u8 where "kTestCommandResultReportId \<equiv> 0x81"
abbreviation (input) kTestCommandCompleteStatus :: u8 where "kTestCommandCompleteStatus \<equiv> 0x02"
abbreviation (input) kTestCommandAudioDevice :: u8 where "kTestCommandAudioDevice \<equiv> 0x06"
abbreviation (input) kTestCommandWaveoutPrepare :: u8 where "kTestCommandWaveoutPrepare \<equiv> 0x04"
abbreviation (input) kTestCommandWaveoutControl :: u8 where "kTestCommandWaveoutControl \<equiv> 0x02"
abbreviation (input) kTestCommandSpeakerParam :: u8 where "kTestCommandSpeakerParam \<equiv> 0x08"
abbreviation (input) kSpeakerWaveoutPeriodFrames :: nat where "kSpeakerWaveoutPeriodFrames \<equiv> 48"
abbreviation (input) kUsbInputReportSize :: nat where "kUsbInputReportSize \<equiv> 64"
definition kInitialFeatureReportIds :: "u8 list" where "kInitialFeatureReportIds = [0x09, 0x20, 0x05]"

type_synonym u64 = "64 word"

record trace_counts =
  dropped_usb_frame_count :: u64
  dropped_audio_haptics_count :: u64
  queue_dropped_audio_haptics_count :: u64
  stale_audio_haptics_count :: u64
  blocked_audio_haptics_count :: u64
  deferred_bt_state_count :: u64
  coalesced_bt_state_count :: u64
  blocked_bt_state_count :: u64
  bt_mic_packet_count :: u64
  bt_mic_drop_count :: u64
  bt_mic_decode_fail_count :: u64
  audio_in_forward_count :: u64

definition no_counts :: trace_counts where
  "no_counts = \<lparr>dropped_usb_frame_count = 0, dropped_audio_haptics_count = 0,
     queue_dropped_audio_haptics_count = 0, stale_audio_haptics_count = 0,
     blocked_audio_haptics_count = 0, deferred_bt_state_count = 0, coalesced_bt_state_count = 0,
     blocked_bt_state_count = 0, bt_mic_packet_count = 0, bt_mic_drop_count = 0,
     bt_mic_decode_fail_count = 0, audio_in_forward_count = 0\<rparr>"

record ('s, 'd) linux_port =
  lp_path :: string
  lp_extractor :: "'s extractor"
  lp_waveout_extractor :: "'s extractor"
  lp_mic_decoder :: 'd
  lp_haptics_builder :: haptics_builder
  lp_output_state :: ds_output
  pending_audio_chunks :: "audio_chunk list"
  last_sent_bt_state :: "bytes option"
  pending_bt_state :: "bytes option"
  pending_bt_state_report :: "bytes option"
  next_haptics_send_time :: int
  audio_out_stream_active :: bool
  audio_in_stream_active :: bool
  mic_muted :: bool
  mute_button_down :: bool
  headset_plugged :: bool
  lp_headset_mic_plugged :: bool
  speaker_waveout_selected :: bool
  speaker_waveout_active :: bool
  speaker_waveout_phase :: u32
  feature_cache :: "u8 \<Rightarrow> bytes"
  feature_cached :: "u8 \<Rightarrow> bool"
  pending_feature_reports :: "u8 list"
  trace_state :: trace_counts

text \<open>What an operation on a port works on: the port and the log of the daemon.\<close>

record ('s, 'd) link =
  lk_port :: "('s, 'd) linux_port"
  lk_log :: log

type_synonym ('s, 'd, 'a) port_act = "(('s, 'd) link, 'a) act"

definition upd_port :: "(('s, 'd) linux_port \<Rightarrow> ('s, 'd) linux_port) \<Rightarrow> ('s, 'd, unit) port_act" where
  "upd_port f = upd (\<lambda>w. w\<lparr>lk_port := f (lk_port w)\<rparr>)"

definition with_port :: "(('s, 'd) linux_port \<Rightarrow> ('s, 'd, 'a) port_act) \<Rightarrow> ('s, 'd, 'a) port_act" where
  "with_port k = with_state (\<lambda>w. k (lk_port w))"

definition on_log :: "(log, 'a) act \<Rightarrow> ('s, 'd, 'a) port_act" where
  "on_log m w = (case m (lk_log w) of (r, l) \<Rightarrow> (r, w\<lparr>lk_log := l\<rparr>))"

definition tally :: "(trace_counts \<Rightarrow> trace_counts) \<Rightarrow> ('s, 'd, unit) port_act" where
  "tally f = upd_port (\<lambda>p. p\<lparr>trace_state := f (trace_state p)\<rparr>)"

definition read_clock :: "('s, 'd) os_env \<Rightarrow> (int \<Rightarrow> ('s, 'd, 'a) port_act) \<Rightarrow> ('s, 'd, 'a) port_act" where
  "read_clock env k = with_state (\<lambda>w. k (os_clock env (lk_log w)))"

section \<open>Frames to the kernel module\<close>

text \<open>\<open>write_vds_frame\<close>: whether the frame was taken; a full queue drops it.\<close>

fun write_frame_loop :: "string \<Rightarrow> send_answer list \<Rightarrow> bytes \<Rightarrow> bool result" where
  "write_frame_loop path [] bs = Inr False"
| "write_frame_loop path (Sent n # answers) bs =
     (if n = length bs then Inr True else Inl (Runtime_error (''short '' @ path @ '' frame write'')))"
| "write_frame_loop path (Send_interrupted # answers) bs = write_frame_loop path answers bs"
| "write_frame_loop path (Send_would_block # answers) bs = Inr False"
| "write_frame_loop path (Send_error e # answers) bs = Inl (Runtime_error (''write failed: '' @ e))"

definition write_vds_frame :: "('s, 'd) os_env \<Rightarrow> bytes \<Rightarrow> ('s, 'd, bool) port_act" where
  "write_vds_frame env bs =
     with_state (\<lambda>w.
       let path = lp_path (lk_port w) in
       case write_frame_loop path (os_write_frame env (lk_log w)) bs of
         Inl e \<Rightarrow> seq_act (on_log (log_event (Frame_broken path bs))) (throw e)
       | Inr True \<Rightarrow> seq_act (on_log (log_event (Frame_written path bs))) (ret True)
       | Inr False \<Rightarrow>
           seq_act (tally (\<lambda>c. c\<lparr>dropped_usb_frame_count := dropped_usb_frame_count c + 1\<rparr>))
             (seq_act (on_log (log_event (Frame_refused path bs))) (ret False)))"

definition send_frame :: "('s, 'd) os_env \<Rightarrow> u16 \<Rightarrow> bytes \<Rightarrow> ('s, 'd, bool) port_act" where
  "send_frame env type payload = bind_act (lift_result (frame_bytes type payload)) (write_vds_frame env)"

abbreviation (input) FRAME_USB_HID_OUT :: u16 where "FRAME_USB_HID_OUT \<equiv> 1"
abbreviation (input) FRAME_USB_FEATURE_GET :: u16 where "FRAME_USB_FEATURE_GET \<equiv> 2"
abbreviation (input) FRAME_USB_FEATURE_SET :: u16 where "FRAME_USB_FEATURE_SET \<equiv> 3"
abbreviation (input) FRAME_USB_AUDIO_OUT :: u16 where "FRAME_USB_AUDIO_OUT \<equiv> 4"
abbreviation (input) FRAME_USB_HID_IN :: u16 where "FRAME_USB_HID_IN \<equiv> 5"
abbreviation (input) FRAME_USB_FEATURE_REPLY :: u16 where "FRAME_USB_FEATURE_REPLY \<equiv> 6"
abbreviation (input) FRAME_USB_INTERFACE :: u16 where "FRAME_USB_INTERFACE \<equiv> 7"
abbreviation (input) FRAME_USB_AUDIO_IN :: u16 where "FRAME_USB_AUDIO_IN \<equiv> 10"

text \<open>\<open>cache_feature_report\<close> stores a report and passes it on to USB.\<close>

definition store_feature :: "bytes \<Rightarrow> ('s, 'd) linux_port \<Rightarrow> ('s, 'd) linux_port" where
  "store_feature report p =
     p\<lparr>feature_cache := (feature_cache p)(report ! 0 := report),
       feature_cached := (feature_cached p)(report ! 0 := True)\<rparr>"

definition cache_feature_report :: "('s, 'd) os_env \<Rightarrow> bytes \<Rightarrow> ('s, 'd, unit) port_act" where
  "cache_feature_report env report =
     (if report = [] then ret ()
      else seq_act (upd_port (store_feature report))
        (with_port (\<lambda>p. seq_act (send_frame env FRAME_USB_FEATURE_REPLY (feature_cache p (report ! 0))) (ret ()))))"

section \<open>The state report that waits\<close>

definition clear_pending :: "('s, 'd) linux_port \<Rightarrow> ('s, 'd) linux_port" where
  "clear_pending p = p\<lparr>pending_bt_state := None, pending_bt_state_report := None\<rparr>"

definition flush_pending_bt_state_report :: "('s, 'd) os_env \<Rightarrow> bt_backend \<Rightarrow> ('s, 'd, bool) port_act" where
  "flush_pending_bt_state_report env b =
     with_port (\<lambda>p.
       case (pending_bt_state_report p, pending_bt_state p) of
         (Some report, Some state) \<Rightarrow>
           bind_act (on_log (try_send_output_report env b report)) (\<lambda>taken.
             if taken then seq_act (upd_port (\<lambda>p. clear_pending (p\<lparr>last_sent_bt_state := Some state\<rparr>))) (ret True)
             else seq_act (tally (\<lambda>c. c\<lparr>blocked_bt_state_count := blocked_bt_state_count c + 1\<rparr>)) (ret False))
       | _ \<Rightarrow> ret True)"

definition coalesced :: "trace_counts \<Rightarrow> trace_counts" where
  "coalesced c = c\<lparr>coalesced_bt_state_count := coalesced_bt_state_count c + 1\<rparr>"

definition send_new_state :: "('s, 'd) os_env \<Rightarrow> bt_backend \<Rightarrow> ('s, 'd, unit) port_act" where
  "send_new_state env b =
     with_port (\<lambda>p.
       let state = state_bytes (lp_output_state p);
           (packet, output) = build_bt_state_report (lp_output_state p) in
       seq_act (upd_port (\<lambda>p. p\<lparr>lp_output_state := output\<rparr>))
         (bind_act (on_log (try_send_output_report env b packet)) (\<lambda>taken.
            if taken then upd_port (\<lambda>p. clear_pending (p\<lparr>last_sent_bt_state := Some state\<rparr>))
            else
              seq_act (if pending_bt_state p \<noteq> None then tally coalesced else ret ())
                (seq_act (tally (\<lambda>c. c\<lparr>deferred_bt_state_count := deferred_bt_state_count c + 1\<rparr>))
                  (upd_port (\<lambda>p. p\<lparr>pending_bt_state := Some state, pending_bt_state_report := Some packet\<rparr>))))))"

definition forward_bt_state_if_changed :: "('s, 'd) os_env \<Rightarrow> bt_backend \<Rightarrow> ('s, 'd, unit) port_act" where
  "forward_bt_state_if_changed env b =
     seq_act (flush_pending_bt_state_report env b)
       (with_port (\<lambda>p.
          let state = state_bytes (lp_output_state p) in
          if last_sent_bt_state p = Some state then
            (if pending_bt_state p \<noteq> None then seq_act (upd_port clear_pending) (tally coalesced) else ret ())
          else if pending_bt_state p = Some state then ret ()
          else send_new_state env b))"

section \<open>Connecting and disconnecting the virtual device\<close>

definition port_ioctl :: "('s, 'd) os_env \<Rightarrow> ioctl_request \<Rightarrow> string \<Rightarrow> ('s, 'd, unit) port_act" where
  "port_ioctl env request name =
     with_state (\<lambda>w.
       let path = lp_path (lk_port w) in
       case os_ioctl env (lk_log w) of
         None \<Rightarrow> on_log (log_event (Port_ioctl_done path request))
       | Some e \<Rightarrow> seq_act (on_log (log_event (Port_ioctl_failed path request)))
                    (throw (Runtime_error (name @ '' failed: '' @ e))))"

definition fresh_extractor :: "('s, 'd) os_env \<Rightarrow> 's extractor result" where
  "fresh_extractor env = new_extractor (os_new_encoder env) kPcmWindowFrames"

text \<open>\<open>reset_virtual_port\<close>: the objects are replaced one after the other; a constructor may throw.\<close>

definition reset_virtual_port :: "('s, 'd) os_env \<Rightarrow> ('s, 'd, unit) port_act" where
  "reset_virtual_port env =
     bind_act (lift_result (fresh_extractor env)) (\<lambda>ex.
     seq_act (upd_port (\<lambda>p. p\<lparr>lp_extractor := ex\<rparr>))
       (bind_act (lift_result (fresh_extractor env)) (\<lambda>ex.
        seq_act (upd_port (\<lambda>p. p\<lparr>lp_waveout_extractor := ex\<rparr>))
          (bind_act (lift_result (os_new_decoder env)) (\<lambda>dec.
           upd_port (\<lambda>p. p\<lparr>lp_mic_decoder := dec, lp_haptics_builder := fresh_builder,
             lp_output_state := initial_output, pending_audio_chunks := [], last_sent_bt_state := None,
             pending_bt_state := None, pending_bt_state_report := None, next_haptics_send_time := 0,
             audio_out_stream_active := False, audio_in_stream_active := False, mic_muted := False,
             mute_button_down := False, headset_plugged := False, lp_headset_mic_plugged := False,
             speaker_waveout_selected := True, speaker_waveout_active := False,
             speaker_waveout_phase := 0, feature_cache := (\<lambda>_. []), feature_cached := (\<lambda>_. False),
             pending_feature_reports := [], trace_state := no_counts\<rparr>))))))"

definition disconnect_virtual_port :: "('s, 'd) os_env \<Rightarrow> ('s, 'd, unit) port_act" where
  "disconnect_virtual_port env =
     seq_act (upd_port (\<lambda>p. p\<lparr>pending_audio_chunks := [], next_haptics_send_time := 0,
         audio_out_stream_active := False, audio_in_stream_active := False, mic_muted := False,
         mute_button_down := False, speaker_waveout_active := False, speaker_waveout_phase := 0\<rparr>))
       (catch_act (port_ioctl env Ioc_disconnect ''VDS_IOC_DISCONNECT'') (\<lambda>_. ret ()))"

section \<open>Frames from the kernel module\<close>

text \<open>Sends a report when the port has a backend.\<close>

definition on_backend :: "bt_backend option \<Rightarrow> (bt_backend \<Rightarrow> ('s, 'd, unit) port_act) \<Rightarrow> ('s, 'd, unit) port_act" where
  "on_backend backend k = (case backend of None \<Rightarrow> ret () | Some b \<Rightarrow> k b)"

definition forward_to :: "('s, 'd) os_env \<Rightarrow> bt_backend option \<Rightarrow> ('s, 'd, unit) port_act" where
  "forward_to env backend = on_backend backend (forward_bt_state_if_changed env)"

definition route_audio_out :: "bool \<Rightarrow> ('s, 'd) linux_port \<Rightarrow> ('s, 'd) linux_port" where
  "route_audio_out active p =
     p\<lparr>lp_output_state := set_audio_out_stream_active active (headset_plugged p) (lp_output_state p)\<rparr>"

definition send_mic_state :: "('s, 'd) os_env \<Rightarrow> bt_backend \<Rightarrow> ('s, 'd, bool) port_act" where
  "send_mic_state env b =
     with_port (\<lambda>p.
       let (report, output) = build_bt_mic_state_report (audio_in_stream_active p) (mic_muted p) (lp_output_state p)
       in seq_act (upd_port (\<lambda>p. p\<lparr>lp_output_state := output\<rparr>)) (on_log (try_send_output_report env b report)))"

definition send_mic_report :: "('s, 'd) os_env \<Rightarrow> bt_backend \<Rightarrow> ('s, 'd, bool) port_act" where
  "send_mic_report env b =
     with_port (\<lambda>p.
       let (report, output) = build_bt_mic_report (audio_in_stream_active p) (lp_output_state p)
       in seq_act (upd_port (\<lambda>p. p\<lparr>lp_output_state := output\<rparr>)) (on_log (try_send_output_report env b report)))"

text \<open>
  \<open>FRAME_USB_INTERFACE\<close>: the four bytes of \<open>vds_usb_interface_event\<close>; a wrong size is only logged.
\<close>

definition handle_interface_event :: "('s, 'd) os_env \<Rightarrow> bt_backend option \<Rightarrow> bytes \<Rightarrow> ('s, 'd, unit) port_act" where
  "handle_interface_event env backend payload =
     (if length payload \<noteq> 4 then ret ()
      else
        (let altsetting = payload ! 1; interface_type = payload ! 2 in
         if interface_type = 1 then
           seq_act (upd_port (\<lambda>p. p\<lparr>audio_out_stream_active := altsetting \<noteq> 0\<rparr>))
             (if altsetting = 0 then
                seq_act (upd_port (\<lambda>p. p\<lparr>pending_audio_chunks := []\<rparr>))
                  (bind_act (lift_result (fresh_extractor env)) (\<lambda>ex. upd_port (\<lambda>p. p\<lparr>lp_extractor := ex\<rparr>)))
              else seq_act (upd_port (route_audio_out True)) (forward_to env backend))
         else if interface_type = 2 then
           seq_act (upd_port (\<lambda>p. p\<lparr>audio_in_stream_active := altsetting \<noteq> 0\<rparr>))
             (bind_act (lift_result (os_new_decoder env)) (\<lambda>dec.
              seq_act (upd_port (\<lambda>p. p\<lparr>lp_mic_decoder := dec\<rparr>))
                (on_backend backend (\<lambda>b. seq_act (send_mic_state env b) (seq_act (send_mic_report env b) (ret ()))))))
         else ret ()))"

definition handle_hid_out :: "('s, 'd) os_env \<Rightarrow> bt_backend option \<Rightarrow> bytes \<Rightarrow> ('s, 'd, unit) port_act" where
  "handle_hid_out env backend payload =
     with_port (\<lambda>p.
       case apply_usb_output_report payload (lp_output_state p) of
         (False, output) \<Rightarrow> upd_port (\<lambda>p. p\<lparr>lp_output_state := output\<rparr>)
       | (True, output) \<Rightarrow>
           seq_act (upd_port (\<lambda>p. p\<lparr>lp_output_state := output\<rparr>))
             (seq_act (if audio_out_stream_active p \<or> speaker_waveout_active p
                       then upd_port (route_audio_out True) else ret ())
               (forward_to env backend)))"

text \<open>\<open>FRAME_USB_FEATURE_GET\<close>: from the cache, or forwarded with a note that USB waits for it.\<close>

definition handle_feature_get :: "('s, 'd) os_env \<Rightarrow> bt_backend option \<Rightarrow> bytes \<Rightarrow> ('s, 'd, unit) port_act" where
  "handle_feature_get env backend payload =
     (if payload = [] then ret ()
      else
        (let report_id = payload ! 0 in
         with_port (\<lambda>p.
           if feature_cached p report_id
           then seq_act (send_frame env FRAME_USB_FEATURE_REPLY (feature_cache p report_id)) (ret ())
           else on_backend backend (\<lambda>b.
             seq_act (upd_port (\<lambda>p. p\<lparr>pending_feature_reports := pending_feature_reports p @ [report_id]\<rparr>))
               (on_log (send_feature_get env b report_id))))))"

text \<open>
  \<open>FRAME_USB_FEATURE_SET\<close>: the test commands of WebHID (report 0x80, with or without a repeated
  report id) are answered by the daemon; preparing and switching the waveout of the audio device
  makes the daemon play a tone of its own on the speaker.
\<close>

definition test_result :: "u8 \<Rightarrow> u8 \<Rightarrow> bytes" where
  "test_result device action =
     (replicate kUsbInputReportSize 0)[0 := kTestCommandResultReportId, 1 := device, 2 := action,
        3 := kTestCommandCompleteStatus]"

definition handle_waveout_control :: "('s, 'd) os_env \<Rightarrow> bt_backend option \<Rightarrow> bool \<Rightarrow> ('s, 'd, unit) port_act" where
  "handle_waveout_control env backend enable =
     with_port (\<lambda>p.
       let speaker_waveout = (enable \<and> speaker_waveout_selected p) in
       seq_act (upd_port (\<lambda>p. p\<lparr>speaker_waveout_active := speaker_waveout, speaker_waveout_phase := 0\<rparr>))
         (bind_act (lift_result (fresh_extractor env)) (\<lambda>ex.
          seq_act (upd_port (\<lambda>p. p\<lparr>lp_waveout_extractor := ex\<rparr>))
            (seq_act (upd_port (\<lambda>p. (route_audio_out speaker_waveout p)\<lparr>audio_out_stream_active := speaker_waveout\<rparr>))
              (seq_act (if speaker_waveout then ret () else upd_port (\<lambda>p. p\<lparr>pending_audio_chunks := []\<rparr>))
                (forward_to env backend))))))"

definition handle_test_command :: "('s, 'd) os_env \<Rightarrow> bt_backend option \<Rightarrow> bytes \<Rightarrow> ('s, 'd, unit) port_act" where
  "handle_test_command env backend payload =
     (if length payload \<ge> 3 \<and> payload ! 0 = kTestCommandReportId then
        (let command_offset = (if payload ! 1 = kTestCommandReportId then 2 else 1) in
         if length payload > command_offset + 1 then
           (let device = payload ! command_offset; action = payload ! (command_offset + 1);
                data_offset = command_offset + 2 in
            seq_act (cache_feature_report env (test_result device action))
              (if device = kTestCommandAudioDevice \<and> action = kTestCommandWaveoutPrepare then
                 upd_port (\<lambda>p. p\<lparr>speaker_waveout_selected := length payload > data_offset + 2
                   \<and> payload ! (data_offset + 2) = kTestCommandSpeakerParam\<rparr>)
               else if device = kTestCommandAudioDevice \<and> action = kTestCommandWaveoutControl
                   \<and> length payload > data_offset
               then handle_waveout_control env backend (payload ! data_offset \<noteq> 0)
               else ret ()))
         else ret ())
      else ret ())"

definition handle_feature_set :: "('s, 'd) os_env \<Rightarrow> bt_backend option \<Rightarrow> bytes \<Rightarrow> ('s, 'd, unit) port_act" where
  "handle_feature_set env backend payload =
     (if payload = [] then ret ()
      else seq_act (handle_test_command env backend payload)
        (on_backend backend (\<lambda>b. on_log (send_feature_set env b payload))))"

text \<open>\<open>FRAME_USB_AUDIO_OUT\<close>: full windows join the queue, which drops its oldest when it is full.\<close>

definition queue_chunk :: "audio_chunk \<Rightarrow> ('s, 'd) linux_port \<Rightarrow> ('s, 'd) linux_port" where
  "queue_chunk chunk p =
     (let p = (if length (pending_audio_chunks p) \<ge> kMaxPendingAudioChunks
               then p\<lparr>pending_audio_chunks := tl (pending_audio_chunks p),
                 trace_state := (trace_state p)
                   \<lparr>dropped_audio_haptics_count := dropped_audio_haptics_count (trace_state p) + 1,
                    queue_dropped_audio_haptics_count := queue_dropped_audio_haptics_count (trace_state p) + 1\<rparr>\<rparr>
               else p)
      in p\<lparr>pending_audio_chunks := pending_audio_chunks p @ [chunk]\<rparr>)"

definition handle_audio_out :: "('s, 'd) os_env \<Rightarrow> bt_backend option \<Rightarrow> bytes \<Rightarrow> ('s, 'd, unit) port_act" where
  "handle_audio_out env backend payload =
     on_backend backend (\<lambda>_.
       with_port (\<lambda>p.
         case push_usb_audio (os_encode env) payload (lp_extractor p) of
           (ex, Inl e) \<Rightarrow> seq_act (upd_port (\<lambda>p. p\<lparr>lp_extractor := ex\<rparr>)) (throw e)
         | (ex, Inr chunks) \<Rightarrow> upd_port (\<lambda>p. fold queue_chunk chunks (p\<lparr>lp_extractor := ex\<rparr>))))"

definition handle_frame :: "('s, 'd) os_env \<Rightarrow> bt_backend option \<Rightarrow> frame_header \<Rightarrow> bytes \<Rightarrow> ('s, 'd, unit) port_act" where
  "handle_frame env backend header payload =
     (if fh_type header = FRAME_USB_INTERFACE then handle_interface_event env backend payload
      else if fh_type header = FRAME_USB_HID_OUT then handle_hid_out env backend payload
      else if fh_type header = FRAME_USB_FEATURE_GET then handle_feature_get env backend payload
      else if fh_type header = FRAME_USB_FEATURE_SET then handle_feature_set env backend payload
      else if fh_type header = FRAME_USB_AUDIO_OUT then handle_audio_out env backend payload
      else ret ())"

text \<open>\<open>handle_vds_frame\<close> on what one \<open>read\<close> answers; an interrupted or empty read gives \<open>false\<close>.\<close>

abbreviation (input) vds_frame_header_size :: nat where "vds_frame_header_size \<equiv> 16"

definition handle_vds_frame :: "('s, 'd) os_env \<Rightarrow> bt_backend option \<Rightarrow> read_answer \<Rightarrow> ('s, 'd, bool) port_act" where
  "handle_vds_frame env backend answer =
     with_port (\<lambda>p.
       case answer of
         Read_would_block \<Rightarrow> ret False
       | Read_error e \<Rightarrow> throw (Runtime_error (lp_path p @ '' read failed: '' @ e))
       | Read_bytes bs \<Rightarrow>
           (let got = take (vds_frame_header_size + VDS_FRAME_MAX_PAYLOAD) bs in
            if got = [] then throw (Runtime_error (lp_path p @ '' closed''))
            else case read_header got of
              None \<Rightarrow> throw (Runtime_error (lp_path p @ '' short VDS frame header''))
            | Some header \<Rightarrow>
                if unat (fh_length header) > VDS_FRAME_MAX_PAYLOAD
                then throw (Runtime_error (lp_path p @ '' oversized VDS frame''))
                else if length got \<noteq> vds_frame_header_size + unat (fh_length header)
                then throw (Runtime_error (lp_path p @ '' short VDS frame payload''))
                else seq_act (handle_frame env backend header (drop vds_frame_header_size got)) (ret True)))"

section \<open>Packets from the controller\<close>

text \<open>
  A microphone packet becomes an audio frame while the input stream is on. Whatever fails on the way
  is counted, not thrown.
\<close>

definition forward_mic_packet :: "('s, 'd) os_env \<Rightarrow> bytes \<Rightarrow> ('s, 'd, unit) port_act" where
  "forward_mic_packet env packet =
     seq_act (tally (\<lambda>c. c\<lparr>bt_mic_packet_count := bt_mic_packet_count c + 1\<rparr>))
       (with_port (\<lambda>p.
          let failed = tally (\<lambda>c. c\<lparr>bt_mic_decode_fail_count := bt_mic_decode_fail_count c + 1\<rparr>) in
          if \<not> audio_in_stream_active p then tally (\<lambda>c. c\<lparr>bt_mic_drop_count := bt_mic_drop_count c + 1\<rparr>)
          else case bt_mic_opus_payload packet of
            None \<Rightarrow> failed
          | Some opus_payload \<Rightarrow>
              catch_act
                (case decode_mic (os_decode env) opus_payload (lp_mic_decoder p) of
                   (dec, r) \<Rightarrow>
                     seq_act (upd_port (\<lambda>p. p\<lparr>lp_mic_decoder := dec\<rparr>))
                       (bind_act (lift_result r) (\<lambda>pcm.
                        seq_act (send_frame env FRAME_USB_AUDIO_IN pcm)
                          (tally (\<lambda>c. c\<lparr>audio_in_forward_count := audio_in_forward_count c + 1\<rparr>)))))
                (\<lambda>_. failed)))"

text \<open>
  The buttons and the jack in an input report: a new press of the mute button toggles the
  microphone, the jack routes the audio.
\<close>

definition report_bit :: "bytes \<Rightarrow> nat \<Rightarrow> u8 \<Rightarrow> bool" where
  "report_bit report offset bits \<longleftrightarrow> report ! offset AND bits \<noteq> 0"

definition follow_mute_button :: "('s, 'd) os_env \<Rightarrow> bt_backend \<Rightarrow> bytes \<Rightarrow> ('s, 'd, unit) port_act" where
  "follow_mute_button env b report =
     with_port (\<lambda>p.
       let down = report_bit report kUsbInputMuteButtonOffset kUsbInputMuteButtonMask;
           mic_plugged = report_bit report kUsbInputHeadsetOffset kUsbInputMicPluggedMask;
           mic_mute_changed = (down \<and> \<not> mute_button_down p);
           headset_mic_changed = (mic_plugged \<noteq> lp_headset_mic_plugged p) in
       seq_act (upd_port (\<lambda>p. p\<lparr>mic_muted := (if mic_mute_changed then \<not> mic_muted p else mic_muted p),
           mute_button_down := down, lp_headset_mic_plugged := mic_plugged\<rparr>))
         (if mic_mute_changed \<or> (headset_mic_changed \<and> audio_in_stream_active p)
          then seq_act (send_mic_state env b) (ret ()) else ret ()))"

definition follow_headphones :: "('s, 'd) os_env \<Rightarrow> bt_backend \<Rightarrow> bytes \<Rightarrow> ('s, 'd, unit) port_act" where
  "follow_headphones env b report =
     with_port (\<lambda>p.
       let plugged = report_bit report kUsbInputHeadsetOffset kUsbInputHeadphonesPluggedMask in
       if plugged \<noteq> headset_plugged p then
         seq_act (upd_port (\<lambda>p. p\<lparr>headset_plugged := plugged\<rparr>))
           (if audio_out_stream_active p \<or> speaker_waveout_active p
            then seq_act (upd_port (route_audio_out True)) (forward_bt_state_if_changed env b)
            else ret ())
       else ret ())"

definition hid_in_frame :: "bytes \<Rightarrow> bytes" where
  "hid_in_frame report =
     header_bytes \<lparr>fh_type = FRAME_USB_HID_IN, fh_flags = 0, fh_length = of_nat (length report), fh_sequence = 0\<rparr>
     @ report"

text \<open>\<open>handle_bt_input\<close> on what \<open>read_interrupt_packet\<close> answers: whether there was a packet.\<close>

definition handle_bt_input :: "('s, 'd) os_env \<Rightarrow> bt_backend \<Rightarrow> read_answer \<Rightarrow> ('s, 'd, bool) port_act" where
  "handle_bt_input env b answer =
     bind_act (lift_result (read_interrupt_packet answer)) (\<lambda>packet.
       case packet of
         None \<Rightarrow> ret False
       | Some packet \<Rightarrow>
           if payload_type_of packet = Audio_payload then seq_act (forward_mic_packet env packet) (ret True)
           else case bt_input_to_usb_input packet of
             None \<Rightarrow> ret True
           | Some report \<Rightarrow>
               seq_act (follow_mute_button env b report)
                 (seq_act (follow_headphones env b report)
                   (seq_act (write_vds_frame env (hid_in_frame report)) (ret True))))"

text \<open>\<open>handle_bt_control\<close>: a feature report is cached, and handed to USB when a request waits for it.\<close>

definition handle_bt_control :: "('s, 'd) os_env \<Rightarrow> read_answer \<Rightarrow> ('s, 'd, bool) port_act" where
  "handle_bt_control env answer =
     bind_act (lift_result (read_feature_report answer)) (\<lambda>report.
       case report of
         None \<Rightarrow> ret False
       | Some report \<Rightarrow>
           if report = [] then ret True
           else seq_act (upd_port (store_feature report))
             (with_port (\<lambda>p.
                if report ! 0 \<in> set (pending_feature_reports p) then
                  seq_act (upd_port (\<lambda>p. p\<lparr>pending_feature_reports := remove1 (report ! 0) (pending_feature_reports p)\<rparr>))
                    (seq_act (send_frame env FRAME_USB_FEATURE_REPLY report) (ret True))
                else ret True)))"

section \<open>Priming the feature cache\<close>

text \<open>
  \<open>initialize_bt_controller\<close>: each report is asked for and awaited; the poll is answered by a
  time-out, an error, a closed channel or readable input, and the list of answers ends with the
  time-out.
\<close>

datatype init_answer = Init_interrupted | Init_not_ready | Init_closed | Init_spurious | Init_readable read_answer

definition init_timeout :: "u8 \<Rightarrow> exn" where
  "init_timeout report_id =
     Runtime_error (''timed out waiting for initial Bluetooth feature report '' @ hex_u8 report_id)"

fun await_feature :: "('s, 'd) os_env \<Rightarrow> u8 \<Rightarrow> init_answer list \<Rightarrow> ('s, 'd, init_answer list) port_act" where
  "await_feature env report_id [] = throw (init_timeout report_id)"
| "await_feature env report_id (Init_interrupted # answers) = await_feature env report_id answers"
| "await_feature env report_id (Init_not_ready # answers) = throw (init_timeout report_id)"
| "await_feature env report_id (Init_closed # answers) =
     throw (Runtime_error ''Bluetooth control channel closed during initial feature report fetch'')"
| "await_feature env report_id (Init_spurious # answers) = await_feature env report_id answers"
| "await_feature env report_id (Init_readable answer # answers) =
     (case read_feature_report answer of
        Inl e \<Rightarrow> throw e
      | Inr None \<Rightarrow> await_feature env report_id answers
      | Inr (Some report) \<Rightarrow>
          if report = [] then await_feature env report_id answers
          else seq_act (cache_feature_report env report)
            (if report ! 0 = report_id then ret answers else await_feature env report_id answers))"

fun fetch_features :: "('s, 'd) os_env \<Rightarrow> bt_backend \<Rightarrow> u8 list \<Rightarrow> init_answer list \<Rightarrow> ('s, 'd, unit) port_act" where
  "fetch_features env b [] answers = ret ()"
| "fetch_features env b (report_id # report_ids) answers =
     seq_act (on_log (send_feature_get env b report_id))
       (bind_act (await_feature env report_id answers) (fetch_features env b report_ids))"

definition initialize_bt_controller :: "('s, 'd) os_env \<Rightarrow> bt_backend \<Rightarrow> init_answer list \<Rightarrow> ('s, 'd, unit) port_act" where
  "initialize_bt_controller env b answers = fetch_features env b kInitialFeatureReportIds answers"

section \<open>Audio output\<close>

text \<open>\<open>flush_pending_audio_chunk\<close>: at most one chunk per interval; a refused one is dropped.\<close>

definition drop_stale :: "('s, 'd) linux_port \<Rightarrow> ('s, 'd) linux_port" where
  "drop_stale p =
     (let stale = length (pending_audio_chunks p) - kFreshPendingAudioChunks; c = trace_state p
      in p\<lparr>pending_audio_chunks := drop stale (pending_audio_chunks p),
           trace_state := c\<lparr>dropped_audio_haptics_count := dropped_audio_haptics_count c + of_nat stale,
             queue_dropped_audio_haptics_count := queue_dropped_audio_haptics_count c + of_nat stale,
             stale_audio_haptics_count := stale_audio_haptics_count c + of_nat stale\<rparr>\<rparr>)"

definition chunk_sent :: "int \<Rightarrow> ('s, 'd) linux_port \<Rightarrow> ('s, 'd) linux_port" where
  "chunk_sent now p =
     (let state = state_bytes (lp_output_state p);
          p = p\<lparr>pending_audio_chunks := tl (pending_audio_chunks p), last_sent_bt_state := Some state,
            next_haptics_send_time := now + kAudioOutputInterval\<rparr>
      in if pending_bt_state p = Some state then clear_pending p else p)"

definition chunk_refused :: "int \<Rightarrow> ('s, 'd) linux_port \<Rightarrow> ('s, 'd) linux_port" where
  "chunk_refused now p =
     p\<lparr>pending_audio_chunks := tl (pending_audio_chunks p),
       next_haptics_send_time := now + kHapticsOutputBlockedRetry,
       trace_state := (trace_state p)
         \<lparr>dropped_audio_haptics_count := dropped_audio_haptics_count (trace_state p) + 1,
          blocked_audio_haptics_count := blocked_audio_haptics_count (trace_state p) + 1\<rparr>\<rparr>"

definition flush_pending_audio_chunk :: "('s, 'd) os_env \<Rightarrow> bt_backend \<Rightarrow> ('s, 'd, bool) port_act" where
  "flush_pending_audio_chunk env b =
     with_port (\<lambda>p.
       if pending_audio_chunks p = [] then ret True
       else read_clock env (\<lambda>now.
         if next_haptics_send_time p \<noteq> 0 \<and> now < next_haptics_send_time p then ret True
         else seq_act (upd_port drop_stale)
           (with_port (\<lambda>p.
              let chunk = hd (pending_audio_chunks p);
                  (packet, builder) = build_packet (ac_haptics chunk) (ac_speaker chunk)
                    (state_bytes (lp_output_state p)) True (headset_plugged p) (lp_haptics_builder p) in
              seq_act (upd_port (\<lambda>p. p\<lparr>lp_haptics_builder := builder\<rparr>))
                (bind_act (on_log (try_send_output_report env b packet)) (\<lambda>taken.
                   if taken then seq_act (upd_port (chunk_sent now)) (ret True)
                   else read_clock env (\<lambda>later. seq_act (upd_port (chunk_refused later)) (ret False))))))))"

text \<open>
  \<open>enqueue_speaker_waveout_chunk\<close>: one window of the tone; \<open>os_waveout_sample\<close> is the sample
  that \<open>std::sin\<close> gives for a phase.
\<close>

fun waveout_pcm :: "('s, 'd) os_env \<Rightarrow> nat \<Rightarrow> u32 \<Rightarrow> bytes \<times> u32" where
  "waveout_pcm env 0 phase = ([], phase)"
| "waveout_pcm env (Suc n) phase =
     (let sample = os_waveout_sample env (unat phase);
          value = [ucast (sample AND 0xff), ucast (drop_bit 8 sample AND 0xff)] :: bytes;
          (pcm, phase') = waveout_pcm env n ((phase + 1) mod of_nat kSpeakerWaveoutPeriodFrames)
      in (value @ value @ [0, 0, 0, 0] @ pcm, phase'))"

definition enqueue_speaker_waveout_chunk :: "('s, 'd) os_env \<Rightarrow> ('s, 'd, unit) port_act" where
  "enqueue_speaker_waveout_chunk env =
     with_port (\<lambda>p.
       if \<not> speaker_waveout_active p \<or> pending_audio_chunks p \<noteq> [] then ret ()
       else (let (pcm, phase) = waveout_pcm env kPcmWindowFrames (speaker_waveout_phase p) in
         seq_act (upd_port (\<lambda>p. p\<lparr>speaker_waveout_phase := phase\<rparr>))
           (case push_usb_audio (os_encode env) pcm (lp_waveout_extractor p) of
              (ex, Inl e) \<Rightarrow> seq_act (upd_port (\<lambda>p. p\<lparr>lp_waveout_extractor := ex\<rparr>)) (throw e)
            | (ex, Inr chunks) \<Rightarrow>
                upd_port (\<lambda>p. p\<lparr>lp_waveout_extractor := ex,
                  pending_audio_chunks := pending_audio_chunks p
                    @ take (kMaxPendingAudioChunks - length (pending_audio_chunks p)) chunks\<rparr>))))"

text \<open>One port in \<open>flush_pending_outputs\<close>: audio waits while a state report is refused.\<close>

definition flush_port :: "('s, 'd) os_env \<Rightarrow> bt_backend \<Rightarrow> ('s, 'd, unit) port_act" where
  "flush_port env b =
     bind_act (flush_pending_bt_state_report env b) (\<lambda>flushed.
       if \<not> flushed then ret ()
       else seq_act (enqueue_speaker_waveout_chunk env)
         (seq_act (flush_pending_audio_chunk env b) (ret ())))"

end
