(* ===== verification/LinuxPortFlow.thy ===== *)
theory LinuxPortFlow
  imports LinuxPort
begin

text \<open>
  What the operations of a virtual port of the Linux daemon guarantee: the shape of its state, the
  delivery of the newest output state, the pace of the audio, the answers to feature requests and
  the mute button.
\<close>

section \<open>Weakest preconditions of the operations\<close>

lemma wp_upd_port [wp_simps]: "wp (upd_port f) Q E w = Q () (w\<lparr>lk_port := f (lk_port w)\<rparr>)"
  by (simp add: upd_port_def wp_simps)

lemma wp_with_port [wp_simps]: "wp (with_port k) Q E w = wp (k (lk_port w)) Q E w"
  by (simp add: with_port_def wp_simps)

lemma wp_read_clock [wp_simps]: "wp (read_clock env k) Q E w = wp (k (os_clock env (lk_log w))) Q E w"
  by (simp add: read_clock_def wp_simps)

lemma wp_tally [wp_simps]:
  "wp (tally f) Q E w = Q () (w\<lparr>lk_port := (lk_port w)\<lparr>trace_state := f (trace_state (lk_port w))\<rparr>\<rparr>)"
  by (simp add: tally_def wp_simps)

lemma wp_on_log [wp_simps]:
  "wp (on_log m) Q E w = wp m (\<lambda>x l. Q x (w\<lparr>lk_log := l\<rparr>)) (\<lambda>e l. E e (w\<lparr>lk_log := l\<rparr>)) (lk_log w)"
  by (simp add: wp_def on_log_def split: prod.splits sum.splits)

lemma wp_log_event [wp_simps]: "wp (log_event ev) Q E l = Q () (l @ [ev])"
  by (simp add: log_event_def wp_simps)

lemma wp_try_send:
  assumes "\<And>l'. l' = l \<Longrightarrow> bb_interrupt_fd b < 0 \<Longrightarrow> Q False l'"
    and "\<And>l'. l' = l @ [Bt_sent Interrupt_channel (bb_address b) (hidp_output_packet report)] \<Longrightarrow> Q True l'"
    and "\<And>l'. l' = l @ [Bt_refused (bb_address b) (hidp_output_packet report)] \<Longrightarrow> Q False l'"
    and "\<And>e l'. l' = l @ [Bt_broken Interrupt_channel (bb_address b) (hidp_output_packet report)] \<Longrightarrow>
      is_bluetooth_error e \<Longrightarrow> E e l'"
  shows "wp (try_send_output_report env b report) Q E l"
  using assms try_write_packet_error
  by (auto simp: try_send_output_report_def wp_simps Let_def split: sum.split bool.split)

lemma wp_write_packet:
  assumes "Q () (l @ [Bt_sent channel address packet])"
    and "\<And>e sent. is_bluetooth_error e \<Longrightarrow> E e (l @ [Bt_broken channel address sent])"
  shows "wp (write_packet env channel address packet) Q E l"
proof -
  obtain sent r where r: "write_full ''Bluetooth L2CAP'' kBtWritePollTimeoutMs
      (os_write_full env l @ [Wr_would_block Poll_timeout]) packet [] = Some (sent, r)"
    and e: "\<And>e. r = Inl e \<Longrightarrow> prefix ''Bluetooth L2CAP'' (what e)"
    using write_full_ends by blast
  show ?thesis
  proof (cases r)
    case (Inl ex)
    with e have "is_bluetooth_error ex" by (simp add: is_bluetooth_error_def)
    with Inl r assms show ?thesis by (simp add: write_packet_def wp_simps)
  next
    case (Inr u)
    with r assms show ?thesis by (simp add: write_packet_def wp_simps)
  qed
qed

lemma write_frame_error:
  "write_frame_loop path answers bs = Inl e \<Longrightarrow> prefix ''write failed: '' (what e) \<or> prefix ''short '' (what e)"
  by (induction path answers bs rule: write_frame_loop.induct) (auto split: if_splits)

lemma wp_write_vds_frame:
  assumes "Q True (w\<lparr>lk_log := lk_log w @ [Frame_written (lp_path (lk_port w)) bs]\<rparr>)"
    and "\<And>c. c = (trace_state (lk_port w))\<lparr>dropped_usb_frame_count := dropped_usb_frame_count (trace_state (lk_port w)) + 1\<rparr> \<Longrightarrow>
      Q False (w\<lparr>lk_port := (lk_port w)\<lparr>trace_state := c\<rparr>, lk_log := lk_log w @ [Frame_refused (lp_path (lk_port w)) bs]\<rparr>)"
    and "\<And>e. write_frame_loop (lp_path (lk_port w)) (os_write_frame env (lk_log w)) bs = Inl e \<Longrightarrow>
      E e (w\<lparr>lk_log := lk_log w @ [Frame_broken (lp_path (lk_port w)) bs]\<rparr>)"
  shows "wp (write_vds_frame env bs) Q E w"
  using assms by (auto simp: write_vds_frame_def wp_simps Let_def split: sum.split bool.split)

lemma wp_any: "(\<And>x w'. Q x w') \<Longrightarrow> (\<And>e w'. E e w') \<Longrightarrow> wp m Q E w"
  by (simp add: wp_def split: prod.splits sum.splits)

section \<open>The shape of a port\<close>

text \<open>
  The state has its size, the queue of chunks and the phase of the tone are bounded, a cached report
  is the one of its id and fits a frame, the report that waits encodes the state that waits, and
  every dropped chunk was dropped by the queue or refused by Bluetooth.
\<close>

definition pending_matches :: "('s, 'd) linux_port \<Rightarrow> bool" where
  "pending_matches p =
     (case (pending_bt_state p, pending_bt_state_report p) of
        (None, None) \<Rightarrow> True
      | (Some s, Some r) \<Rightarrow> length s = kDsStateSize \<and> (\<exists>q. r = state_report_of q s)
      | _ \<Rightarrow> False)"

definition cache_ok :: "(u8 \<Rightarrow> bool) \<Rightarrow> (u8 \<Rightarrow> bytes) \<Rightarrow> bool" where
  "cache_ok cached cache \<longleftrightarrow>
     (\<forall>i. cached i \<longrightarrow> cache i \<noteq> [] \<and> length (cache i) \<le> kBtReadBufferSize \<and> cache i ! 0 = i)"

definition drops_add_up :: "trace_counts \<Rightarrow> bool" where
  "drops_add_up c \<longleftrightarrow>
     dropped_audio_haptics_count c = queue_dropped_audio_haptics_count c + blocked_audio_haptics_count c"

definition port_ok :: "('s, 'd) linux_port \<Rightarrow> bool" where
  "port_ok p \<longleftrightarrow> length (state_bytes (lp_output_state p)) = kDsStateSize
     \<and> length (pending_audio_chunks p) \<le> kMaxPendingAudioChunks
     \<and> unat (speaker_waveout_phase p) < kSpeakerWaveoutPeriodFrames
     \<and> cache_ok (feature_cached p) (feature_cache p)
     \<and> pending_matches p \<and> drops_add_up (trace_state p)"

abbreviation link_ok :: "('s, 'd) link \<Rightarrow> bool" where
  "link_ok w \<equiv> port_ok (lk_port w)"

lemma pending_matches_simps [simp]:
  "pending_matches (clear_pending p)"
  "pending_bt_state p = None \<Longrightarrow> pending_bt_state_report p = None \<Longrightarrow> pending_matches p"
  "length s = kDsStateSize \<Longrightarrow>
    pending_matches (p\<lparr>pending_bt_state := Some s, pending_bt_state_report := Some (state_report_of q s)\<rparr>)"
  by (auto simp: pending_matches_def clear_pending_def)

lemma pending_matches_cases:
  assumes "pending_matches p"
  obtains (None) "pending_bt_state p = None" "pending_bt_state_report p = None"
  | (Some) s q where "pending_bt_state p = Some s" "pending_bt_state_report p = Some (state_report_of q s)"
      "length s = kDsStateSize"
  using assms by (auto simp: pending_matches_def split: option.splits)

lemma clear_pending_fields [simp]:
  "lp_output_state (clear_pending p) = lp_output_state p"
  "pending_audio_chunks (clear_pending p) = pending_audio_chunks p"
  "speaker_waveout_phase (clear_pending p) = speaker_waveout_phase p"
  "feature_cached (clear_pending p) = feature_cached p"
  "feature_cache (clear_pending p) = feature_cache p"
  "trace_state (clear_pending p) = trace_state p"
  "last_sent_bt_state (clear_pending p) = last_sent_bt_state p"
  "pending_bt_state (clear_pending p) = None"
  "pending_bt_state_report (clear_pending p) = None"
  "next_haptics_send_time (clear_pending p) = next_haptics_send_time p"
  "lp_path (clear_pending p) = lp_path p"
  "mic_muted (clear_pending p) = mic_muted p"
  "mute_button_down (clear_pending p) = mute_button_down p"
  "pending_feature_reports (clear_pending p) = pending_feature_reports p"
  by (simp_all add: clear_pending_def)

lemma report_states:
  "build_bt_state_report d = (r, d') \<Longrightarrow> state_bytes d' = state_bytes d \<and> r = state_report_of (report_sequence d) (state_bytes d)"
  "build_bt_mic_report a d = (r, d') \<Longrightarrow> state_bytes d' = state_bytes d"
  by (auto simp: build_bt_state_report_def build_bt_mic_report_def next_report_sequence_def Let_def)

lemma route_length [simp]:
  "length (state_bytes d) = kDsStateSize \<Longrightarrow> length (state_bytes (set_audio_out_stream_active a h d)) = kDsStateSize"
  by (simp add: set_audio_out_stream_active_def Let_def)

lemma apply_length:
  "apply_usb_output_report r d = (ok, d') \<Longrightarrow> length (state_bytes d) = kDsStateSize \<Longrightarrow>
    length (state_bytes d') = kDsStateSize"
  by (auto simp: apply_usb_output_report_def split: option.splits)

lemma mic_state_length:
  "build_bt_mic_state_report a m d = (x, d') \<Longrightarrow> length (state_bytes d) = kDsStateSize \<Longrightarrow>
    length (state_bytes d') = kDsStateSize"
  by (auto simp: build_bt_mic_state_report_def next_report_sequence_def Let_def)

lemma port_ok_clear [simp]: "port_ok p \<Longrightarrow> port_ok (clear_pending p)"
  by (simp add: port_ok_def)

text \<open>Updates outside the fields \<open>port_ok\<close> speaks of.\<close>

lemma port_ok_frame [simp]:
  "port_ok (p\<lparr>last_sent_bt_state := a\<rparr>) = port_ok p"
  "port_ok (p\<lparr>lp_extractor := b\<rparr>) = port_ok p"
  "port_ok (p\<lparr>lp_waveout_extractor := b\<rparr>) = port_ok p"
  "port_ok (p\<lparr>lp_mic_decoder := c\<rparr>) = port_ok p"
  "port_ok (p\<lparr>lp_haptics_builder := d\<rparr>) = port_ok p"
  "port_ok (p\<lparr>next_haptics_send_time := e\<rparr>) = port_ok p"
  "port_ok (p\<lparr>audio_out_stream_active := f\<rparr>) = port_ok p"
  "port_ok (p\<lparr>audio_in_stream_active := f\<rparr>) = port_ok p"
  "port_ok (p\<lparr>mic_muted := f\<rparr>) = port_ok p"
  "port_ok (p\<lparr>mute_button_down := f\<rparr>) = port_ok p"
  "port_ok (p\<lparr>headset_plugged := f\<rparr>) = port_ok p"
  "port_ok (p\<lparr>lp_headset_mic_plugged := f\<rparr>) = port_ok p"
  "port_ok (p\<lparr>speaker_waveout_selected := f\<rparr>) = port_ok p"
  "port_ok (p\<lparr>speaker_waveout_active := f\<rparr>) = port_ok p"
  "port_ok (p\<lparr>pending_feature_reports := g\<rparr>) = port_ok p"
  by (simp_all add: port_ok_def pending_matches_def)

lemma port_ok_output [simp]:
  "port_ok p \<Longrightarrow> length (state_bytes d) = kDsStateSize \<Longrightarrow> port_ok (p\<lparr>lp_output_state := d\<rparr>)"
  by (simp add: port_ok_def pending_matches_def)

lemma port_ok_chunks [simp]:
  "port_ok p \<Longrightarrow> length cs \<le> kMaxPendingAudioChunks \<Longrightarrow> port_ok (p\<lparr>pending_audio_chunks := cs\<rparr>)"
  by (simp add: port_ok_def pending_matches_def)

lemma port_ok_counts [simp]:
  "port_ok p \<Longrightarrow> drops_add_up c \<Longrightarrow> port_ok (p\<lparr>trace_state := c\<rparr>)"
  by (simp add: port_ok_def pending_matches_def)

lemma port_ok_phase [simp]:
  "port_ok p \<Longrightarrow> unat v < kSpeakerWaveoutPeriodFrames \<Longrightarrow> port_ok (p\<lparr>speaker_waveout_phase := v\<rparr>)"
  by (simp add: port_ok_def pending_matches_def)

lemma port_ok_pending [simp]:
  "port_ok p \<Longrightarrow> length s = kDsStateSize \<Longrightarrow>
    port_ok (p\<lparr>pending_bt_state := Some s, pending_bt_state_report := Some (state_report_of q s)\<rparr>)"
  by (simp add: port_ok_def)

lemma port_okD:
  assumes "port_ok p"
  shows "length (state_bytes (lp_output_state p)) = kDsStateSize"
    "length (pending_audio_chunks p) \<le> kMaxPendingAudioChunks"
    "unat (speaker_waveout_phase p) < kSpeakerWaveoutPeriodFrames"
    "cache_ok (feature_cached p) (feature_cache p)" "pending_matches p" "drops_add_up (trace_state p)"
  using assms by (simp_all add: port_ok_def)

lemma port_ok_store:
  "port_ok p \<Longrightarrow> report \<noteq> [] \<Longrightarrow> length report \<le> kBtReadBufferSize \<Longrightarrow> port_ok (store_feature report p)"
  by (simp add: port_ok_def pending_matches_def store_feature_def cache_ok_def)

lemma drops_frame [simp]:
  "drops_add_up (c\<lparr>dropped_usb_frame_count := n\<rparr>) = drops_add_up c"
  "drops_add_up (c\<lparr>deferred_bt_state_count := n\<rparr>) = drops_add_up c"
  "drops_add_up (c\<lparr>blocked_bt_state_count := n\<rparr>) = drops_add_up c"
  "drops_add_up (c\<lparr>bt_mic_packet_count := n\<rparr>) = drops_add_up c"
  "drops_add_up (c\<lparr>bt_mic_drop_count := n\<rparr>) = drops_add_up c"
  "drops_add_up (c\<lparr>bt_mic_decode_fail_count := n\<rparr>) = drops_add_up c"
  "drops_add_up (c\<lparr>audio_in_forward_count := n\<rparr>) = drops_add_up c"
  "drops_add_up (coalesced c) = drops_add_up c"
  by (simp_all add: drops_add_up_def coalesced_def)

section \<open>Every operation keeps the shape\<close>

lemma on_log_keeps_port [keeps_intros]: "keeps (\<lambda>w. I (lk_port w)) (on_log m)"
  by (auto simp: keeps_def wp_simps intro!: wp_any)

lemma upd_port_keeps [keeps_intros]:
  "(\<And>p. I p \<Longrightarrow> I (f p)) \<Longrightarrow> keeps (\<lambda>w. I (lk_port w)) (upd_port f)"
  by (simp add: keeps_def wp_simps)

lemma tally_ok [keeps_intros]: "(\<And>c. drops_add_up c \<Longrightarrow> drops_add_up (f c)) \<Longrightarrow> keeps link_ok (tally f)"
  by (simp add: keeps_def wp_simps port_okD)

text \<open>The port an operation read at some point satisfied the invariant then.\<close>

lemma with_port_keeps [keeps_intros]:
  "(\<And>p. I p \<Longrightarrow> keeps (\<lambda>w. I (lk_port w)) (k p)) \<Longrightarrow> keeps (\<lambda>w. I (lk_port w)) (with_port k)"
  by (simp add: keeps_def wp_simps)

lemma read_clock_keeps [keeps_intros]:
  "(\<And>now. keeps I (k now)) \<Longrightarrow> keeps I (read_clock env k)"
  unfolding read_clock_def by (intro keeps_intros)

lemma write_vds_frame_ok [keeps_intros]: "keeps link_ok (write_vds_frame env bs)"
  by (rule keepsI, rule wp_write_vds_frame) (simp_all add: port_okD)

lemma send_frame_ok [keeps_intros]: "keeps link_ok (send_frame env type payload)"
  unfolding send_frame_def by (intro keeps_intros)

lemma cache_feature_ok [keeps_intros]:
  "length report \<le> kBtReadBufferSize \<Longrightarrow> keeps link_ok (cache_feature_report env report)"
  unfolding cache_feature_report_def by (intro keeps_intros) (simp add: port_ok_store)

lemma flush_state_ok [keeps_intros]: "keeps link_ok (flush_pending_bt_state_report env b)"
  unfolding flush_pending_bt_state_report_def
  by (intro keeps_intros) (auto intro!: keeps_intros split: option.split)

lemma send_new_state_ok [keeps_intros]: "keeps link_ok (send_new_state env b)"
  unfolding send_new_state_def Let_def
  by (intro keeps_intros) (auto dest: report_states(1) simp: port_okD)

lemma forward_ok [keeps_intros]: "keeps link_ok (forward_bt_state_if_changed env b)"
  unfolding forward_bt_state_if_changed_def Let_def by (intro keeps_intros) simp_all

lemma keeps_bind_lift:
  "(\<And>x. r = Inr x \<Longrightarrow> keeps I (h x)) \<Longrightarrow> keeps I (bind_act (lift_result r) h)"
  by (auto simp: keeps_def wp_simps split: sum.split)

lemma ret_unit_ok [keeps_intros]: "keeps I m \<Longrightarrow> keeps I (seq_act m (ret x))"
  by (intro keeps_intros)

lemma port_ioctl_keeps [keeps_intros]: "keeps (\<lambda>w. I (lk_port w)) (port_ioctl env request name)"
  unfolding port_ioctl_def Let_def by (intro keeps_intros)

lemma reset_ok: "keeps link_ok (reset_virtual_port env)"
  unfolding reset_virtual_port_def
  by (intro keeps_intros)
    (simp_all add: port_ok_def pending_matches_def cache_ok_def drops_add_up_def no_counts_def initial_output_def
      kInitialDsState_def kInitialSetStateData_def)

lemma disconnect_ok [keeps_intros]: "keeps link_ok (disconnect_virtual_port env)"
  unfolding disconnect_virtual_port_def
  by (intro keeps_intros) (simp add: port_ok_def pending_matches_def)

lemma on_backend_keeps [keeps_intros]: "(\<And>b. keeps I (k b)) \<Longrightarrow> keeps I (on_backend backend k)"
  unfolding on_backend_def by (intro keeps_intros)

lemma forward_to_ok [keeps_intros]: "keeps link_ok (forward_to env backend)"
  unfolding forward_to_def by (intro keeps_intros)

lemma route_ok [simp]: "port_ok p \<Longrightarrow> port_ok (route_audio_out a p)"
  by (simp add: route_audio_out_def port_okD)

lemma mic_state_ok [keeps_intros]: "keeps link_ok (send_mic_state env b)"
  unfolding send_mic_state_def Let_def
  by (intro keeps_intros) (simp add: port_okD mic_state_length)

lemma mic_report_ok [keeps_intros]: "keeps link_ok (send_mic_report env b)"
  unfolding send_mic_report_def Let_def
  by (intro keeps_intros) (simp add: port_okD report_states(2))

lemma interface_ok [keeps_intros]: "keeps link_ok (handle_interface_event env backend payload)"
  unfolding handle_interface_event_def Let_def by (intro keeps_intros) simp_all

lemma hid_out_ok [keeps_intros]: "keeps link_ok (handle_hid_out env backend payload)"
  unfolding handle_hid_out_def
proof (rule with_port_keeps)
  fix p :: "('s, 'd) linux_port"
  assume ok: "port_ok p"
  obtain taken d' where applied: "apply_usb_output_report payload (lp_output_state p) = (taken, d')"
    by (rule prod.exhaust)
  have "length (state_bytes d') = kDsStateSize"
    using apply_length [OF applied] port_okD(1) [OF ok] .
  then show "keeps link_ok
      (case apply_usb_output_report payload (lp_output_state p) of
         (False, output) \<Rightarrow> upd_port (\<lambda>p. p\<lparr>lp_output_state := output\<rparr>)
       | (True, output) \<Rightarrow>
           seq_act (upd_port (\<lambda>p. p\<lparr>lp_output_state := output\<rparr>))
             (seq_act (if audio_out_stream_active p \<or> speaker_waveout_active p
                       then upd_port (route_audio_out True) else ret ())
               (forward_to env backend)))"
    by (cases taken) (auto simp: applied ok intro!: keeps_intros)
qed

lemma feature_get_ok [keeps_intros]: "keeps link_ok (handle_feature_get env backend payload)"
  unfolding handle_feature_get_def Let_def by (intro keeps_intros) simp

lemma test_result_length [simp]: "length (test_result d a) = kUsbInputReportSize"
  by (simp add: test_result_def)

lemma waveout_ok [keeps_intros]: "keeps link_ok (handle_waveout_control env backend enable)"
  unfolding handle_waveout_control_def Let_def by (intro keeps_intros) simp_all

lemma test_command_ok [keeps_intros]: "keeps link_ok (handle_test_command env backend payload)"
  unfolding handle_test_command_def Let_def by (intro keeps_intros) simp_all

lemma feature_set_ok [keeps_intros]: "keeps link_ok (handle_feature_set env backend payload)"
  unfolding handle_feature_set_def by (intro keeps_intros)

lemma queue_chunk_ok: "port_ok p \<Longrightarrow> port_ok (queue_chunk chunk p)"
  using port_okD(2,6) [of p] by (auto simp: queue_chunk_def Let_def drops_add_up_def)

lemma queue_chunks_ok: "port_ok p \<Longrightarrow> port_ok (fold queue_chunk chunks p)"
  by (induction chunks arbitrary: p) (simp_all add: queue_chunk_ok)

lemma audio_out_ok [keeps_intros]: "keeps link_ok (handle_audio_out env backend payload)"
  unfolding handle_audio_out_def by (intro keeps_intros) (simp_all add: queue_chunks_ok)

lemma handle_frame_ok [keeps_intros]: "keeps link_ok (handle_frame env backend header payload)"
  unfolding handle_frame_def by (intro keeps_intros)

lemma handle_vds_frame_ok [keeps_intros]: "keeps link_ok (handle_vds_frame env backend answer)"
  unfolding handle_vds_frame_def Let_def
  by (rule with_port_keeps, cases answer) (auto intro!: keeps_intros)

lemma forward_mic_ok [keeps_intros]: "keeps link_ok (forward_mic_packet env packet)"
  unfolding forward_mic_packet_def Let_def by (intro keeps_intros) simp_all

lemma mute_ok [keeps_intros]: "keeps link_ok (follow_mute_button env b report)"
  unfolding follow_mute_button_def Let_def by (intro keeps_intros) simp

lemma headphones_ok [keeps_intros]: "keeps link_ok (follow_headphones env b report)"
  unfolding follow_headphones_def Let_def by (intro keeps_intros) simp_all

lemma bt_input_ok [keeps_intros]: "keeps link_ok (handle_bt_input env b answer)"
  unfolding handle_bt_input_def by (intro keeps_intros)

lemma read_feature_length: "read_feature_report answer = Inr (Some report) \<Longrightarrow> length report \<le> kBtReadBufferSize"
  by (auto simp: read_feature_report_def bt_feature_to_usb_feature_reply_def Let_def
      split: read_answer.splits if_splits)

lemma bt_control_ok [keeps_intros]: "keeps link_ok (handle_bt_control env answer)"
  unfolding handle_bt_control_def
proof (rule keeps_bind_lift)
  fix report
  assume "read_feature_report answer = Inr report"
  then show "keeps link_ok (case report of
         None \<Rightarrow> ret False
       | Some report \<Rightarrow>
           if report = [] then ret True
           else seq_act (upd_port (store_feature report))
             (with_port (\<lambda>p.
                if report ! 0 \<in> set (pending_feature_reports p) then
                  seq_act (upd_port (\<lambda>p. p\<lparr>pending_feature_reports := remove1 (report ! 0) (pending_feature_reports p)\<rparr>))
                    (seq_act (send_frame env FRAME_USB_FEATURE_REPLY report) (ret True))
                else ret True)))"
    by (intro keeps_intros) (simp_all add: port_ok_store read_feature_length)
qed

lemma await_feature_ok [keeps_intros]: "keeps link_ok (await_feature env report_id answers)"
  by (induction env report_id answers rule: await_feature.induct)
    (auto intro!: keeps_intros simp: read_feature_length split: sum.split option.split)

lemma fetch_features_ok [keeps_intros]: "keeps link_ok (fetch_features env b ids answers)"
  by (induction env b ids answers rule: fetch_features.induct) (auto intro!: keeps_intros)

lemma initialize_ok [keeps_intros]: "keeps link_ok (initialize_bt_controller env b answers)"
  unfolding initialize_bt_controller_def by (intro keeps_intros)

lemma drop_stale_ok [simp]: "port_ok p \<Longrightarrow> port_ok (drop_stale p)"
  using port_okD(2,6) [of p] by (auto simp: drop_stale_def Let_def drops_add_up_def)

lemma chunk_sent_ok: "port_ok p \<Longrightarrow> port_ok (chunk_sent now p)"
  using port_okD(2) [of p] by (auto simp: chunk_sent_def Let_def)

lemma chunk_refused_ok: "port_ok p \<Longrightarrow> port_ok (chunk_refused now p)"
  using port_okD(2,6) [of p] by (auto simp: chunk_refused_def drops_add_up_def)

lemma flush_chunk_ok [keeps_intros]: "keeps link_ok (flush_pending_audio_chunk env b)"
  unfolding flush_pending_audio_chunk_def Let_def
  by (intro keeps_intros) (simp_all add: chunk_sent_ok chunk_refused_ok)

lemma waveout_phase:
  "unat phase < kSpeakerWaveoutPeriodFrames \<Longrightarrow> unat (snd (waveout_pcm env n phase)) < kSpeakerWaveoutPeriodFrames"
proof (induction n arbitrary: phase)
  case (Suc n)
  have "unat ((phase + 1) mod of_nat kSpeakerWaveoutPeriodFrames) < kSpeakerWaveoutPeriodFrames"
    by (simp add: unat_mod)
  from Suc.IH [OF this] show ?case by (simp add: Let_def case_prod_beta)
qed simp

lemma enqueue_waveout_ok [keeps_intros]: "keeps link_ok (enqueue_speaker_waveout_chunk env)"
  unfolding enqueue_speaker_waveout_chunk_def Let_def
proof (intro keeps_intros)
  fix p :: "('s, 'd) linux_port" and q :: "('s, 'd) linux_port" and pcm phase
  assume "port_ok p" and "waveout_pcm env kPcmWindowFrames (speaker_waveout_phase p) = (pcm, phase)" and "port_ok q"
  then show "port_ok (q\<lparr>speaker_waveout_phase := phase\<rparr>)"
    using waveout_phase [of "speaker_waveout_phase p" env kPcmWindowFrames] by (simp add: port_okD)
next
  fix p :: "('s, 'd) linux_port" and q :: "('s, 'd) linux_port" and ex chunks
  assume "port_ok q"
  then show "port_ok (q\<lparr>lp_waveout_extractor := ex, pending_audio_chunks := pending_audio_chunks q
      @ take (kMaxPendingAudioChunks - length (pending_audio_chunks q)) chunks\<rparr>)"
    using port_okD(2) [of q] by simp
qed simp_all

lemma flush_port_ok [keeps_intros]: "keeps link_ok (flush_port env b)"
  unfolding flush_port_def by (intro keeps_intros)

end
