(* ===== verification/LinuxDelivery.thy ===== *)
theory LinuxDelivery
  imports LinuxPortFlow
begin

text \<open>
  What reaches the controller and the host through a virtual port of the Linux daemon: the newest
  output state, audio at its pace, the answers to feature requests, and the mute button.
\<close>

section \<open>The newest output state is delivered or waits\<close>

text \<open>
  The microphone reports change the bytes of the microphone section (flags, volume, audio control,
  mute light, power save) of the kept state and carry them themselves; all other bytes of the state
  go by state reports and audio packets. Two states are close when they agree outside that section.
\<close>

definition mic_section :: "nat set" where
  "mic_section = {kOutputFlag0Offset, kOutputFlag1Offset, kOutputMicVolumeOffset, kOutputAudioControlOffset,
     kOutputMuteLedOffset, kOutputPowerSaveControlOffset, kOutputAudioControl2Offset}"

definition mic_close :: "bytes \<Rightarrow> bytes \<Rightarrow> bool" where
  "mic_close s t \<longleftrightarrow> length s = length t \<and> (\<forall>i < length s. i \<notin> mic_section \<longrightarrow> s ! i = t ! i)"

lemma mic_close_refl [simp]: "mic_close s s"
  by (simp add: mic_close_def)

lemma mic_close_trans: "mic_close s t \<Longrightarrow> mic_close t u \<Longrightarrow> mic_close s u"
  by (simp add: mic_close_def)

lemma mic_state_close:
  assumes "build_bt_mic_state_report a m d = (r, d')"
  shows "mic_close (state_bytes d) (state_bytes d')"
  using assms
  by (auto simp: build_bt_mic_state_report_def Let_def mic_close_def mic_section_def byte_simps
      put_byte_def or_byte_def next_report_sequence_def)

text \<open>The state that waits is the newest, or none waits and the newest was accepted by the queue.\<close>

definition synced :: "('s, 'd) linux_port \<Rightarrow> bool" where
  "synced p \<longleftrightarrow>
     (\<exists>s. (if pending_bt_state p = None then last_sent_bt_state p else pending_bt_state p) = Some s
        \<and> mic_close s (state_bytes (lp_output_state p)))"

abbreviation link_synced :: "('s, 'd) link \<Rightarrow> bool" where
  "link_synced w \<equiv> port_ok (lk_port w) \<and> synced (lk_port w)"

lemma synced_frame [simp]:
  "synced (p\<lparr>lp_extractor := b\<rparr>) = synced p"
  "synced (p\<lparr>lp_waveout_extractor := b\<rparr>) = synced p"
  "synced (p\<lparr>lp_mic_decoder := c\<rparr>) = synced p"
  "synced (p\<lparr>lp_haptics_builder := d\<rparr>) = synced p"
  "synced (p\<lparr>next_haptics_send_time := e\<rparr>) = synced p"
  "synced (p\<lparr>pending_audio_chunks := x\<rparr>) = synced p"
  "synced (p\<lparr>audio_out_stream_active := f\<rparr>) = synced p"
  "synced (p\<lparr>audio_in_stream_active := f\<rparr>) = synced p"
  "synced (p\<lparr>mic_muted := f\<rparr>) = synced p"
  "synced (p\<lparr>mute_button_down := f\<rparr>) = synced p"
  "synced (p\<lparr>headset_plugged := f\<rparr>) = synced p"
  "synced (p\<lparr>lp_headset_mic_plugged := f\<rparr>) = synced p"
  "synced (p\<lparr>speaker_waveout_selected := f\<rparr>) = synced p"
  "synced (p\<lparr>speaker_waveout_active := f\<rparr>) = synced p"
  "synced (p\<lparr>speaker_waveout_phase := h\<rparr>) = synced p"
  "synced (p\<lparr>pending_feature_reports := g\<rparr>) = synced p"
  "synced (p\<lparr>trace_state := i\<rparr>) = synced p"
  "synced (store_feature r p) = synced p"
  by (simp_all add: synced_def store_feature_def)

lemma synced_mic: "synced p \<Longrightarrow> mic_close (state_bytes (lp_output_state p)) (state_bytes d) \<Longrightarrow>
    synced (p\<lparr>lp_output_state := d\<rparr>)"
  by (auto simp: synced_def intro: mic_close_trans)

lemma synced_tally [keeps_intros]: "keeps (\<lambda>w. synced (lk_port w)) (tally f)"
  by (simp add: keeps_def wp_simps)

lemma send_new_state_syncs: "returns_with (\<lambda>_. True) (send_new_state env b) (\<lambda>w. synced (lk_port w))"
proof (rule returns_withI)
  fix w :: "('a, 'b) link"
  obtain packet d' where built: "build_bt_state_report (lp_output_state (lk_port w)) = (packet, d')"
    by (rule prod.exhaust)
  have [simp]: "state_bytes d' = state_bytes (lp_output_state (lk_port w))"
    using report_states(1) [OF built] by simp
  show "wp (send_new_state env b) (\<lambda>_ w. synced (lk_port w)) (\<lambda>_ _. True) w"
    by (auto simp: send_new_state_def wp_simps Let_def built synced_def intro!: wp_any)
qed

lemma forward_syncs: "returns_with (\<lambda>_. True) (forward_bt_state_if_changed env b) (\<lambda>w. synced (lk_port w))"
  unfolding forward_bt_state_if_changed_def
proof (rule returns_seq)
  show "returns_with (\<lambda>_. True) (flush_pending_bt_state_report env b) (\<lambda>_. True)"
    by (simp add: returns_with_def)
  show "returns_with (\<lambda>_. True) (with_port (\<lambda>p.
          let state = state_bytes (lp_output_state p) in
          if last_sent_bt_state p = Some state then
            (if pending_bt_state p \<noteq> None then seq_act (upd_port clear_pending) (tally coalesced) else ret ())
          else if pending_bt_state p = Some state then ret ()
          else send_new_state env b)) (\<lambda>w. synced (lk_port w))"
    using send_new_state_syncs [of env b]
    by (auto simp: returns_with_def wp_simps Let_def synced_def)
qed

lemma flush_keeps_synced [keeps_intros]: "keeps (\<lambda>w. synced (lk_port w)) (flush_pending_bt_state_report env b)"
  unfolding flush_pending_bt_state_report_def
  by (auto simp: keeps_def wp_simps synced_def intro!: wp_any split: option.split if_splits)

lemma write_frame_synced [keeps_intros]: "keeps (\<lambda>w. synced (lk_port w)) (write_vds_frame env bs)"
  by (rule keepsI, rule wp_write_vds_frame) simp_all

lemma send_frame_synced [keeps_intros]: "keeps (\<lambda>w. synced (lk_port w)) (send_frame env type payload)"
  unfolding send_frame_def by (intro keeps_intros)

lemma cache_feature_synced [keeps_intros]: "keeps (\<lambda>w. synced (lk_port w)) (cache_feature_report env report)"
  unfolding cache_feature_report_def by (intro keeps_intros) simp

lemma mic_state_synced [keeps_intros]: "keeps (\<lambda>w. synced (lk_port w)) (send_mic_state env b)"
  by (auto simp: keeps_def send_mic_state_def wp_simps Let_def intro!: wp_any synced_mic mic_state_close)

lemma mic_report_synced [keeps_intros]: "keeps (\<lambda>w. synced (lk_port w)) (send_mic_report env b)"
  by (auto simp: keeps_def send_mic_report_def wp_simps Let_def report_states(2) intro!: wp_any synced_mic)

section \<open>Every operation keeps the output in step\<close>

text \<open>An operation that ends by forwarding the state leaves it in step, whatever it changed before.\<close>

abbreviation port_synced :: "('s, 'd) link \<Rightarrow> bool" where
  "port_synced w \<equiv> synced (lk_port w)"

lemma forward_to_syncs: "wp (forward_to env (Some b)) (\<lambda>_ w. synced (lk_port w)) (\<lambda>_ _. True) w"
  using forward_syncs [of env b] by (simp add: forward_to_def on_backend_def returns_with_def)

lemma interface_syncs: "returns_with port_synced (handle_interface_event env (Some b) payload) port_synced"
proof -
  have "keeps port_synced (on_backend (Some b) (\<lambda>b. seq_act (send_mic_state env b) (seq_act (send_mic_report env b) (ret ()))))"
    by (auto simp: on_backend_def intro!: keeps_intros)
  from keeps_returns [OF this] show ?thesis
    by (auto simp: returns_with_def handle_interface_event_def wp_simps Let_def forward_to_syncs split: sum.split)
qed

lemma hid_out_syncs: "returns_with port_synced (handle_hid_out env (Some b) payload) port_synced"
  by (auto simp: returns_with_def handle_hid_out_def wp_simps forward_to_syncs apply_usb_output_report_def
      split: prod.split bool.split option.splits)

lemma feature_get_syncs: "keeps port_synced (handle_feature_get env backend payload)"
  unfolding handle_feature_get_def Let_def by (intro keeps_intros) simp

lemma test_command_syncs: "returns_with port_synced (handle_test_command env (Some b) payload) port_synced"
proof -
  have cached: "wp (cache_feature_report env r) (\<lambda>_. port_synced) (\<lambda>_ _. True) w" if "port_synced w" for r and w :: "('a, 'b) link"
    using keeps_wp [OF cache_feature_synced that] by (auto intro: wp_mono)
  have waveout: "wp (handle_waveout_control env (Some b) e) (\<lambda>_. port_synced) (\<lambda>_ _. True) w" for e and w :: "('a, 'b) link"
    by (auto simp: handle_waveout_control_def wp_simps Let_def forward_to_syncs split: sum.split)
  show ?thesis
    by (auto simp: returns_with_def handle_test_command_def wp_simps Let_def waveout intro!: wp_mono [OF cached])
qed

lemma feature_set_syncs: "returns_with port_synced (handle_feature_set env (Some b) payload) port_synced"
  unfolding handle_feature_set_def
  by (intro returns_if returns_seq [OF test_command_syncs] keeps_returns)
    (auto simp: on_backend_def intro!: keeps_intros)

lemma queue_synced [simp]: "synced (fold queue_chunk chunks p) = synced p"
  by (induction chunks arbitrary: p) (auto simp: queue_chunk_def Let_def)

lemma audio_out_syncs: "keeps port_synced (handle_audio_out env backend payload)"
  unfolding handle_audio_out_def by (intro keeps_intros) simp_all

lemma handle_frame_syncs: "returns_with port_synced (handle_frame env (Some b) header payload) port_synced"
  unfolding handle_frame_def
  by (intro returns_if interface_syncs hid_out_syncs feature_set_syncs keeps_returns feature_get_syncs audio_out_syncs
      keeps_intros)

lemma vds_frame_syncs: "returns_with port_synced (handle_vds_frame env (Some b) answer) port_synced"
  using handle_frame_syncs [of env b]
  by (auto simp: returns_with_def handle_vds_frame_def wp_simps Let_def split: read_answer.split option.split)

lemma forward_mic_syncs: "keeps port_synced (forward_mic_packet env packet)"
  unfolding forward_mic_packet_def Let_def by (intro keeps_intros) simp_all

lemma mute_syncs: "keeps port_synced (follow_mute_button env b report)"
  unfolding follow_mute_button_def Let_def by (intro keeps_intros) simp

lemma headphones_syncs: "returns_with port_synced (follow_headphones env b report) port_synced"
  using forward_syncs [of env b]
  by (auto simp: returns_with_def follow_headphones_def wp_simps Let_def)

lemma bt_input_syncs: "returns_with port_synced (handle_bt_input env b answer) port_synced"
proof -
  have "returns_with port_synced (seq_act (follow_mute_button env b report)
      (seq_act (follow_headphones env b report) (seq_act (write_vds_frame env (hid_in_frame report)) (ret True)))) port_synced"
    for report :: bytes
    by (intro returns_seq [OF keeps_returns [OF mute_syncs]] returns_seq [OF headphones_syncs] keeps_returns keeps_intros)
  then show ?thesis
    unfolding handle_bt_input_def
    by (intro returns_bind_lift)
      (auto split: option.split intro!: returns_if keeps_returns keeps_intros forward_mic_syncs)
qed

lemma bt_control_syncs: "keeps port_synced (handle_bt_control env answer)"
  unfolding handle_bt_control_def by (intro keeps_intros) simp_all

lemma drop_stale_synced [simp]: "synced (drop_stale p) = synced p"
  by (simp add: drop_stale_def Let_def)

lemma chunk_refused_synced [simp]: "synced (chunk_refused now p) = synced p"
  by (simp add: chunk_refused_def)

lemma chunk_sent_synced: "synced p \<Longrightarrow> synced (chunk_sent now p)"
  by (auto simp: chunk_sent_def Let_def synced_def)

lemma flush_chunk_syncs [keeps_intros]: "keeps port_synced (flush_pending_audio_chunk env b)"
  unfolding flush_pending_audio_chunk_def Let_def by (intro keeps_intros) (simp_all add: chunk_sent_synced)

lemma enqueue_waveout_syncs [keeps_intros]: "keeps port_synced (enqueue_speaker_waveout_chunk env)"
  unfolding enqueue_speaker_waveout_chunk_def Let_def by (intro keeps_intros) simp_all

lemma flush_port_syncs: "keeps port_synced (flush_port env b)"
  unfolding flush_port_def by (intro keeps_intros)

section \<open>The run of a connected port\<close>

text \<open>
  The daemon's event loop applies these operations to a port with a backend, in any order, as frames
  and packets arrive; the clock and the room in the queues are the environment's.
\<close>

inductive port_step :: "('s, 'd) os_env \<Rightarrow> bt_backend \<Rightarrow> ('s, 'd) link \<Rightarrow> ('s, 'd) link \<Rightarrow> bool"
  for env :: "('s, 'd) os_env" and b :: bt_backend where
  Frame: "handle_vds_frame env (Some b) answer w = (Inr x, w') \<Longrightarrow> port_step env b w w'"
| Input: "handle_bt_input env b answer w = (Inr x, w') \<Longrightarrow> port_step env b w w'"
| Control: "handle_bt_control env answer w = (Inr x, w') \<Longrightarrow> port_step env b w w'"
| Flush: "flush_port env b w = (Inr u, w') \<Longrightarrow> port_step env b w w'"

inductive port_run :: "('s, 'd) os_env \<Rightarrow> bt_backend \<Rightarrow> ('s, 'd) link \<Rightarrow> ('s, 'd) link \<Rightarrow> bool"
  for env :: "('s, 'd) os_env" and b :: bt_backend where
  Start: "port_run env b w w"
| Step: "port_run env b w w' \<Longrightarrow> port_step env b w' w'' \<Longrightarrow> port_run env b w w''"

lemma port_step_keeps:
  assumes "port_step env b w w'" and "P w"
    and "\<And>answer. returns_with P (handle_vds_frame env (Some b) answer) P"
    and "\<And>answer. returns_with P (handle_bt_input env b answer) P"
    and "\<And>answer. returns_with P (handle_bt_control env answer) P"
    and "returns_with P (flush_port env b) P"
  shows "P w'"
  using assms by (cases rule: port_step.cases) (blast dest: returns_with_result)+

lemma port_run_ok: "port_run env b w w' \<Longrightarrow> link_ok w \<Longrightarrow> link_ok w'"
  by (induction rule: port_run.induct) (auto elim!: port_step_keeps intro!: keeps_returns keeps_intros)

lemma port_run_synced: "port_run env b w w' \<Longrightarrow> port_synced w \<Longrightarrow> port_synced w'"
  by (induction rule: port_run.induct)
    (auto elim!: port_step_keeps intro!: keeps_returns [OF bt_control_syncs] keeps_returns [OF flush_port_syncs]
      vds_frame_syncs bt_input_syncs)

section \<open>Invariants over what was sent\<close>

text \<open>
  A property of the log, the state last accepted and the time of the next audio packet holds in every
  run of a port when it survives what can happen to these three: other events, an accepted state
  report, an accepted audio packet and a refused one.
\<close>

definition is_audio :: "bt_backend \<Rightarrow> event \<Rightarrow> bool" where
  "is_audio b e \<longleftrightarrow> (\<exists>packet. e = Bt_sent Interrupt_channel (bb_address b) packet \<and> packet ! 1 = VDS_BT_HAPTICS_REPORT_ID)"

text \<open>The other events: everything but accepted packets that carry a whole state.\<close>

definition mic_packet :: "bytes \<Rightarrow> bool" where
  "mic_packet packet \<longleftrightarrow> (\<exists>a m d. packet = hidp_output_packet (fst (build_bt_mic_state_report a m d))
     \<or> packet = hidp_output_packet (fst (build_bt_mic_report a d)))"

definition aside :: "bt_backend \<Rightarrow> event \<Rightarrow> bool" where
  "aside b e \<longleftrightarrow> (\<forall>packet. e = Bt_sent Interrupt_channel (bb_address b) packet \<longrightarrow> mic_packet packet)"

lemma aside_simps [simp]:
  "aside b (Bt_sent Control_channel a packet)" "aside b (Bt_refused a packet)" "aside b (Bt_broken ch a packet)"
  "aside b (Frame_written path bs)" "aside b (Frame_refused path bs)" "aside b (Frame_broken path bs)"
  "mic_packet packet \<Longrightarrow> aside b (Bt_sent ch a packet)"
  by (simp_all add: aside_def)

lemma mic_packets:
  "build_bt_mic_state_report a m d = (r, d') \<Longrightarrow> mic_packet (hidp_output_packet r)"
  "build_bt_mic_report a d = (r, d') \<Longrightarrow> mic_packet (hidp_output_packet r)"
  unfolding mic_packet_def by (metis fst_conv)+

lemma mic_report_id:
  "fst (build_bt_mic_state_report a m d) ! 0 \<noteq> VDS_BT_HAPTICS_REPORT_ID"
  "fst (build_bt_mic_report a d) ! 0 \<noteq> VDS_BT_HAPTICS_REPORT_ID"
  by (simp_all add: build_bt_mic_state_report_def build_bt_mic_report_def Let_def sealed_nth)

lemma aside_not_audio: "aside b e \<Longrightarrow> \<not> is_audio b e"
  by (auto simp: aside_def is_audio_def mic_packet_def hidp_output_packet_def mic_report_id)

text \<open>An event about this controller or this port.\<close>

definition placed :: "bt_backend \<Rightarrow> string \<Rightarrow> event \<Rightarrow> bool" where
  "placed b path e \<longleftrightarrow> event_place e \<in> {Inl (bb_address b), Inr path}"

lemma placed_simps [simp]:
  "placed b path (Bt_sent channel (bb_address b) packet)" "placed b path (Bt_refused (bb_address b) packet)"
  "placed b path (Bt_broken channel (bb_address b) packet)" "placed b path (Frame_written path bs)"
  "placed b path (Frame_refused path bs)" "placed b path (Frame_broken path bs)"
  by (simp_all add: placed_def)

definition audio_due :: "('s, 'd) os_env \<Rightarrow> ('s, 'd) linux_port \<Rightarrow> log \<Rightarrow> bool" where
  "audio_due env p l \<longleftrightarrow> next_haptics_send_time p = 0 \<or> next_haptics_send_time p \<le> os_clock env l"

locale port_invariant =
  fixes env :: "('s, 'd) os_env" and b :: bt_backend and I :: "('s, 'd) linux_port \<Rightarrow> log \<Rightarrow> bool"
  assumes port_change: "I p l \<Longrightarrow> last_sent_bt_state p' = last_sent_bt_state p \<Longrightarrow>
      next_haptics_send_time p' = next_haptics_send_time p \<Longrightarrow> lp_path p' = lp_path p \<Longrightarrow> I p' l"
    and other_event: "I p l \<Longrightarrow> aside b e \<Longrightarrow> placed b (lp_path p) e \<Longrightarrow> I p (l @ [e])"
    and state_taken: "I p l \<Longrightarrow> length s = kDsStateSize \<Longrightarrow>
      I (p\<lparr>last_sent_bt_state := Some s\<rparr>)
        (l @ [Bt_sent Interrupt_channel (bb_address b) (hidp_output_packet (state_report_of q s))])"
    and audio_taken: "I p l \<Longrightarrow> audio_due env p l \<Longrightarrow>
      I (p\<lparr>last_sent_bt_state := Some s, next_haptics_send_time := os_clock env l + kAudioOutputInterval\<rparr>)
        (l @ [Bt_sent Interrupt_channel (bb_address b)
           (hidp_output_packet (fst (build_packet haptics speaker s True plugged hb)))])"
    and audio_refused: "I p l \<Longrightarrow> audio_due env p l \<Longrightarrow> l' = l \<or> (\<exists>e. aside b e \<and> placed b (lp_path p) e \<and> l' = l @ [e]) \<Longrightarrow>
      I (p\<lparr>next_haptics_send_time := os_clock env l' + kHapticsOutputBlockedRetry\<rparr>) l'"
begin

abbreviation K :: "('s, 'd) link \<Rightarrow> bool" where
  "K w \<equiv> port_ok (lk_port w) \<and> I (lk_port w) (lk_log w)"

lemma K_with_port [keeps_intros]: "(\<And>p. port_ok p \<Longrightarrow> keeps K (k p)) \<Longrightarrow> keeps K (with_port k)"
  by (simp add: keeps_def wp_simps)

lemma K_upd_port [keeps_intros]:
  "(\<And>p. port_ok p \<Longrightarrow> port_ok (f p) \<and> last_sent_bt_state (f p) = last_sent_bt_state p
      \<and> next_haptics_send_time (f p) = next_haptics_send_time p \<and> lp_path (f p) = lp_path p) \<Longrightarrow> keeps K (upd_port f)"
  by (auto simp: keeps_def wp_simps intro: port_change)

lemma K_tally [keeps_intros]: "(\<And>c. drops_add_up c \<Longrightarrow> drops_add_up (f c)) \<Longrightarrow> keeps K (tally f)"
  unfolding tally_def by (intro keeps_intros) (simp add: port_okD)

lemma K_try_send [keeps_intros]:
  "mic_packet (hidp_output_packet report) \<Longrightarrow> keeps K (on_log (try_send_output_report env b report))"
  by (rule keepsI, unfold wp_on_log, rule wp_try_send)
    (simp_all add: other_event)

lemma K_write_packet: "keeps K (on_log (write_packet env Control_channel (bb_address b) packet))"
  by (rule keepsI, unfold wp_on_log, rule wp_write_packet) (simp_all add: other_event)

lemma K_feature [keeps_intros]:
  "keeps K (on_log (send_feature_get env b i))" "keeps K (on_log (send_feature_set env b r))"
  using K_write_packet
  by (auto simp: keeps_def send_feature_get_def send_feature_set_def wp_simps split: sum.split)

lemma K_read_clock [keeps_intros]: "(\<And>now. keeps K (k now)) \<Longrightarrow> keeps K (read_clock env k)"
  unfolding read_clock_def by (intro keeps_intros)

lemma K_write_frame [keeps_intros]: "keeps K (write_vds_frame env bs)"
  by (rule keepsI, rule wp_write_vds_frame)
    (simp_all add: other_event port_okD, auto intro: port_change [OF other_event])

lemma K_send_frame [keeps_intros]: "keeps K (send_frame env type payload)"
  unfolding send_frame_def by (intro keeps_intros)

lemma K_cache [keeps_intros]: "length report \<le> kBtReadBufferSize \<Longrightarrow> keeps K (cache_feature_report env report)"
  unfolding cache_feature_report_def
  by (intro keeps_intros) (simp_all add: port_ok_store, simp_all add: store_feature_def)

lemma K_flush_state [keeps_intros]: "keeps K (flush_pending_bt_state_report env b)"
proof (rule keepsI)
  fix w
  assume k: "K w"
  from port_okD(5) [of "lk_port w"] k have "pending_matches (lk_port w)" by simp
  then show "wp (flush_pending_bt_state_report env b) (\<lambda>_. K) (\<lambda>_. K) w"
  proof (cases rule: pending_matches_cases)
    case None
    with k show ?thesis by (simp add: flush_pending_bt_state_report_def wp_simps)
  next
    case (Some s q)
    from k have "I (lk_port w) (lk_log w)" by simp
    from port_change [OF state_taken [OF this Some(3), of q]]
    have "I (clear_pending ((lk_port w)\<lparr>last_sent_bt_state := Some s\<rparr>))
        (lk_log w @ [Bt_sent Interrupt_channel (bb_address b) (hidp_output_packet (state_report_of q s))])"
      by simp
    then show ?thesis
      unfolding flush_pending_bt_state_report_def using k
      by (auto simp: wp_simps Some port_okD  intro!: wp_try_send other_event
          intro: port_change [OF other_event] port_change)
  qed
qed

lemma K_send_new_state [keeps_intros]: "keeps K (send_new_state env b)"
proof (rule keepsI)
  fix w
  assume k: "K w"
  obtain packet d where built: "build_bt_state_report (lp_output_state (lk_port w)) = (packet, d)"
    by (rule prod.exhaust)
  define s where "s = state_bytes (lp_output_state (lk_port w))"
  define p where "p = (lk_port w)\<lparr>lp_output_state := d\<rparr>"
  have d: "state_bytes d = s" "packet = state_report_of (report_sequence (lp_output_state (lk_port w))) s"
    using report_states(1) [OF built] by (simp_all add: s_def)
  have len: "length s = kDsStateSize" using k by (simp add: s_def port_okD)
  have ok: "port_ok p" and Ip: "I p (lk_log w)" using k len by (auto simp: p_def d intro: port_change)
  have "I (clear_pending (p\<lparr>last_sent_bt_state := Some s\<rparr>))
      (lk_log w @ [Bt_sent Interrupt_channel (bb_address b) (hidp_output_packet packet)])"
    unfolding d by (rule port_change [OF state_taken [OF Ip len]]) simp_all
  moreover have "I q l"
    if "last_sent_bt_state q = last_sent_bt_state p" "next_haptics_send_time q = next_haptics_send_time p"
      and "lp_path q = lp_path p" "l = lk_log w \<or> (\<exists>ev. aside b ev \<and> placed b (lp_path p) ev \<and> l = lk_log w @ [ev])" for q l
    using that port_change [OF Ip that(1-3)] other_event [of q] by auto
  ultimately show "wp (send_new_state env b) (\<lambda>_. K) (\<lambda>_. K) w"
    unfolding send_new_state_def using ok len
    by (auto simp: wp_simps built Let_def  d(2) port_okD simp flip: s_def p_def intro!: wp_try_send)
qed

lemma K_forward [keeps_intros]: "keeps K (forward_bt_state_if_changed env b)"
  unfolding forward_bt_state_if_changed_def Let_def by (intro keeps_intros) simp_all

text \<open>A port without a controller sends nothing.\<close>

abbreviation of_backend :: "bt_backend option \<Rightarrow> bool" where
  "of_backend backend \<equiv> backend \<in> {None, Some b}"

lemma K_on_backend [keeps_intros]: "of_backend backend \<Longrightarrow> keeps K (k b) \<Longrightarrow> keeps K (on_backend backend k)"
  by (auto simp: on_backend_def intro: keeps_intros)

lemma K_forward_to [keeps_intros]: "of_backend backend \<Longrightarrow> keeps K (forward_to env backend)"
  unfolding forward_to_def by (intro keeps_intros)

lemma K_mic_state [keeps_intros]: "keeps K (send_mic_state env b)"
  unfolding send_mic_state_def Let_def
  by (intro keeps_intros) (simp_all add: port_okD mic_state_length, metis mic_packets(1))

lemma K_mic_report [keeps_intros]: "keeps K (send_mic_report env b)"
  unfolding send_mic_report_def Let_def
  by (intro keeps_intros) (simp_all add: port_okD report_states(2), metis mic_packets(2))

lemma K_interface [keeps_intros]: "of_backend backend \<Longrightarrow> keeps K (handle_interface_event env backend payload)"
  unfolding handle_interface_event_def Let_def
  by (intro keeps_intros) (simp_all add: route_audio_out_def port_okD)

lemma K_route: "keeps K (upd_port (route_audio_out a))"
  by (intro keeps_intros) (simp add: route_audio_out_def port_okD)

lemma K_hid_out [keeps_intros]:
  assumes backend: "of_backend backend"
  shows "keeps K (handle_hid_out env backend payload)"
  unfolding handle_hid_out_def
proof (rule K_with_port)
  fix p :: "('s, 'd) linux_port"
  assume ok: "port_ok p"
  note forward = K_forward_to [OF backend]
  obtain taken d' where applied: "apply_usb_output_report payload (lp_output_state p) = (taken, d')"
    by (rule prod.exhaust)
  have "length (state_bytes d') = kDsStateSize"
    using apply_length [OF applied] port_okD(1) [OF ok] .
  then show "keeps K
      (case apply_usb_output_report payload (lp_output_state p) of
         (False, output) \<Rightarrow> upd_port (\<lambda>p. p\<lparr>lp_output_state := output\<rparr>)
       | (True, output) \<Rightarrow>
           seq_act (upd_port (\<lambda>p. p\<lparr>lp_output_state := output\<rparr>))
             (seq_act (if audio_out_stream_active p \<or> speaker_waveout_active p
                       then upd_port (route_audio_out True) else ret ())
               (forward_to env backend)))"
    by (cases taken) (auto simp: applied ok intro!: keeps_seq keeps_if keeps_ret forward K_route K_upd_port)
qed

lemma K_feature_get [keeps_intros]: "of_backend backend \<Longrightarrow> keeps K (handle_feature_get env backend payload)"
  unfolding handle_feature_get_def Let_def by (intro keeps_intros) simp_all

lemma K_waveout [keeps_intros]: "of_backend backend \<Longrightarrow> keeps K (handle_waveout_control env backend enable)"
  unfolding handle_waveout_control_def Let_def
  by (intro keeps_intros) (simp_all add: route_audio_out_def port_okD)

lemma K_test_command [keeps_intros]: "of_backend backend \<Longrightarrow> keeps K (handle_test_command env backend payload)"
  unfolding handle_test_command_def Let_def by (intro keeps_intros) simp_all

lemma K_feature_set [keeps_intros]: "of_backend backend \<Longrightarrow> keeps K (handle_feature_set env backend payload)"
  unfolding handle_feature_set_def by (intro keeps_intros)

lemma queue_chunks_fields [simp]:
  "last_sent_bt_state (fold queue_chunk chunks p) = last_sent_bt_state p"
  "next_haptics_send_time (fold queue_chunk chunks p) = next_haptics_send_time p"
  "lp_path (fold queue_chunk chunks p) = lp_path p"
  by (induction chunks arbitrary: p) (auto simp: queue_chunk_def Let_def)

lemma K_audio_out [keeps_intros]: "of_backend backend \<Longrightarrow> keeps K (handle_audio_out env backend payload)"
  unfolding handle_audio_out_def by (intro keeps_intros) (simp_all add: queue_chunks_ok)

lemma K_handle_frame [keeps_intros]: "of_backend backend \<Longrightarrow> keeps K (handle_frame env backend header payload)"
  unfolding handle_frame_def by (intro keeps_intros)

lemma K_vds_frame [keeps_intros]: "of_backend backend \<Longrightarrow> keeps K (handle_vds_frame env backend answer)"
  unfolding handle_vds_frame_def Let_def
  by (rule K_with_port, cases answer) (auto intro!: keeps_intros)

lemma K_forward_mic [keeps_intros]: "keeps K (forward_mic_packet env packet)"
  unfolding forward_mic_packet_def Let_def by (intro keeps_intros) simp_all

lemma K_mute [keeps_intros]: "keeps K (follow_mute_button env b report)"
  unfolding follow_mute_button_def Let_def by (intro keeps_intros) simp

lemma K_headphones [keeps_intros]: "keeps K (follow_headphones env b report)"
  unfolding follow_headphones_def Let_def
  by (intro keeps_intros) (simp_all add: route_audio_out_def port_okD)

lemma K_bt_input [keeps_intros]: "keeps K (handle_bt_input env b answer)"
  unfolding handle_bt_input_def by (intro keeps_intros)

lemma K_bt_control [keeps_intros]: "keeps K (handle_bt_control env answer)"
  unfolding handle_bt_control_def
proof (rule keeps_bind_lift)
  fix report
  assume "read_feature_report answer = Inr report"
  then show "keeps K (case report of
         None \<Rightarrow> ret False
       | Some report \<Rightarrow>
           if report = [] then ret True
           else seq_act (upd_port (store_feature report))
             (with_port (\<lambda>p.
                if report ! 0 \<in> set (pending_feature_reports p) then
                  seq_act (upd_port (\<lambda>p. p\<lparr>pending_feature_reports := remove1 (report ! 0) (pending_feature_reports p)\<rparr>))
                    (seq_act (send_frame env FRAME_USB_FEATURE_REPLY report) (ret True))
                else ret True)))"
    by (intro keeps_intros) (simp_all add: port_ok_store read_feature_length, simp_all add: store_feature_def)
qed

lemma K_flush_chunk [keeps_intros]: "keeps K (flush_pending_audio_chunk env b)"
proof (rule keepsI)
  fix w
  assume k: "K w"
  define p where "p = drop_stale (lk_port w)"
  have p: "port_ok p" "last_sent_bt_state p = last_sent_bt_state (lk_port w)"
    "next_haptics_send_time p = next_haptics_send_time (lk_port w)" "lp_path p = lp_path (lk_port w)"
    using k by (simp_all add: p_def, simp_all add: drop_stale_def Let_def)
  define chunk where "chunk = hd (pending_audio_chunks p)"
  obtain packet hb where built: "build_packet (ac_haptics chunk) (ac_speaker chunk)
      (state_bytes (lp_output_state p)) True (headset_plugged p) (lp_haptics_builder p) = (packet, hb)"
    by (rule prod.exhaust)
  then have packet: "packet = fst (build_packet (ac_haptics chunk) (ac_speaker chunk)
      (state_bytes (lp_output_state p)) True (headset_plugged p) (lp_haptics_builder p))" by simp
  define q where "q = p\<lparr>lp_haptics_builder := hb\<rparr>"
  have q: "port_ok q" "lp_output_state q = lp_output_state p" using p by (simp_all add: q_def)
  have Iq: "I q (lk_log w)" using k p by (auto simp: q_def intro: port_change)
  define now where "now = os_clock env (lk_log w)"
  have taken: "I (chunk_sent now q) (lk_log w @ [Bt_sent Interrupt_channel (bb_address b) (hidp_output_packet packet)])"
    if "audio_due env q (lk_log w)"
    unfolding packet
    by (rule port_change [OF audio_taken [OF Iq that]]) (simp_all add: chunk_sent_def Let_def now_def q(2))
  have refused: "I (chunk_refused (os_clock env l) q) l"
    if "audio_due env q (lk_log w)" "l = lk_log w \<or> (\<exists>e. aside b e \<and> placed b (lp_path q) e \<and> l = lk_log w @ [e])" for l
    by (rule port_change [OF audio_refused [OF Iq that]]) (simp_all add: chunk_refused_def)
  have due: "audio_due env q (lk_log w)"
    if "\<not> (next_haptics_send_time (lk_port w) \<noteq> 0 \<and> now < next_haptics_send_time (lk_port w))"
    using that p by (auto simp: audio_due_def q_def now_def)
  have broken: "I q (lk_log w @ [Bt_broken Interrupt_channel (bb_address b) x])" for x
    using Iq by (rule other_event) simp_all
  have send: "wp (try_send_output_report env b packet)
      (\<lambda>taken l. if taken then K \<lparr>lk_port = chunk_sent now q, lk_log = l\<rparr>
        else K \<lparr>lk_port = chunk_refused (os_clock env l) q, lk_log = l\<rparr>)
      (\<lambda>_ l. K \<lparr>lk_port = q, lk_log = l\<rparr>) (lk_log w)"
    if "audio_due env q (lk_log w)"
    using taken [OF that] refused [OF that] broken q(1)
    by (intro wp_try_send) (simp_all add: chunk_sent_ok chunk_refused_ok )
  show "wp (flush_pending_audio_chunk env b) (\<lambda>_. K) (\<lambda>_. K) w"
    unfolding flush_pending_audio_chunk_def
    using k due by (simp add: wp_simps built Let_def flip: p_def now_def chunk_def q_def) (auto intro!: wp_mono [OF send])
qed

lemma K_enqueue_waveout [keeps_intros]: "keeps K (enqueue_speaker_waveout_chunk env)"
  using enqueue_waveout_ok [of env]
  by (auto simp: keeps_def enqueue_speaker_waveout_chunk_def Let_def wp_simps intro: port_change
      split: prod.split sum.split)

lemma K_flush_port [keeps_intros]: "keeps K (flush_port env b)"
  unfolding flush_port_def by (intro keeps_intros)

lemma run_keeps: "port_run env b w w' \<Longrightarrow> K w \<Longrightarrow> K w'"
proof (induction rule: port_run.induct)
  case (Step w w' w'')
  from Step.hyps(2) Step.IH [OF Step.prems] show ?case
    by (rule port_step_keeps) (intro keeps_returns keeps_intros, simp?)+
qed

end

text \<open>What was last accepted is in the log: a packet that carries that state.\<close>

definition carries :: "bt_backend \<Rightarrow> bytes \<Rightarrow> event \<Rightarrow> bool" where
  "carries b s e \<longleftrightarrow> (\<exists>r. e = Bt_sent Interrupt_channel (bb_address b) (hidp_output_packet r)
     \<and> ((\<exists>q. r = state_report_of q s)
        \<or> (\<exists>haptics speaker plugged hb. r = fst (build_packet haptics speaker s True plugged hb))
        \<or> (\<exists>d. state_bytes d = s \<and> r = build_bt_init_report d)))"

lemma carries_state: "carries b s (Bt_sent Interrupt_channel (bb_address b) (hidp_output_packet (state_report_of q s)))"
  unfolding carries_def by blast

lemma carries_audio: "carries b s (Bt_sent Interrupt_channel (bb_address b)
    (hidp_output_packet (fst (build_packet haptics speaker s True plugged hb))))"
  unfolding carries_def by blast

definition accepted :: "bt_backend \<Rightarrow> ('s, 'd) linux_port \<Rightarrow> log \<Rightarrow> bool" where
  "accepted b p l \<longleftrightarrow> (\<forall>s. last_sent_bt_state p = Some s \<longrightarrow>
     (\<exists>before e after. l = before @ e # after \<and> carries b s e \<and> list_all (aside b) after))"

lemma accepted_new: "last_sent_bt_state p = Some s \<Longrightarrow> carries b s e \<Longrightarrow> accepted b p (l @ [e])"
  unfolding accepted_def by force

lemma accepted_aside:
  assumes "accepted b p l" and "aside b e"
  shows "accepted b p (l @ [e])"
  unfolding accepted_def
proof (intro allI impI)
  fix s
  assume "last_sent_bt_state p = Some s"
  with assms(1) obtain before c after where "l = before @ c # after" "carries b s c" "list_all (aside b) after"
    unfolding accepted_def by blast
  with assms(2) have "l @ [e] = before @ c # (after @ [e]) \<and> carries b s c \<and> list_all (aside b) (after @ [e])" by simp
  then show "\<exists>before c after. l @ [e] = before @ c # after \<and> carries b s c \<and> list_all (aside b) after" by blast
qed

lemma accepted_port: "accepted b p l \<Longrightarrow> last_sent_bt_state p' = last_sent_bt_state p \<Longrightarrow> accepted b p' l"
  by (simp add: accepted_def)

interpretation acceptance: port_invariant env b "accepted b" for env :: "('s, 'd) os_env" and b
  by unfold_locales (auto intro: accepted_new accepted_aside accepted_port carries_state carries_audio)

text \<open>
  A steady clock that has been running: the audio packets of a connection are an interval apart. The
  clock was read for the packet at position \<open>i\<close> of the log when the log was \<open>take i\<close> of it.
\<close>

definition clock_ok :: "('s, 'd) os_env \<Rightarrow> bool" where
  "clock_ok env \<longleftrightarrow> (\<forall>l. 0 < os_clock env l) \<and> (\<forall>l l'. prefix l l' \<longrightarrow> os_clock env l \<le> os_clock env l')"

definition paced :: "('s, 'd) os_env \<Rightarrow> bt_backend \<Rightarrow> nat \<Rightarrow> log \<Rightarrow> bool" where
  "paced env b n l \<longleftrightarrow> (\<forall>i j. n \<le> i \<and> i < j \<and> j < length l \<and> is_audio b (l ! i) \<and> is_audio b (l ! j) \<longrightarrow>
     os_clock env (take i l) + kAudioOutputInterval \<le> os_clock env (take j l))"

definition audio_before :: "('s, 'd) os_env \<Rightarrow> bt_backend \<Rightarrow> nat \<Rightarrow> log \<Rightarrow> int \<Rightarrow> bool" where
  "audio_before env b n l t \<longleftrightarrow>
     (\<forall>i. n \<le> i \<and> i < length l \<and> is_audio b (l ! i) \<longrightarrow> os_clock env (take i l) + kAudioOutputInterval \<le> t)"

lemma paced_snoc:
  "paced env b n (l @ [e]) \<longleftrightarrow> paced env b n l \<and> (is_audio b e \<and> n \<le> length l \<longrightarrow> audio_before env b n l (os_clock env l))"
proof
  assume paced: "paced env b n (l @ [e])"
  have "paced env b n l"
    unfolding paced_def
  proof (intro allI impI)
    fix i j
    assume "n \<le> i \<and> i < j \<and> j < length l \<and> is_audio b (l ! i) \<and> is_audio b (l ! j)"
    with paced [unfolded paced_def, rule_format, of i j]
    show "os_clock env (take i l) + kAudioOutputInterval \<le> os_clock env (take j l)" by (simp add: nth_append)
  qed
  moreover have "audio_before env b n l (os_clock env l)" if "is_audio b e \<and> n \<le> length l"
    unfolding audio_before_def
  proof (intro allI impI)
    fix i
    assume "n \<le> i \<and> i < length l \<and> is_audio b (l ! i)"
    with that paced [unfolded paced_def, rule_format, of i "length l"]
    show "os_clock env (take i l) + kAudioOutputInterval \<le> os_clock env l" by (simp add: nth_append)
  qed
  ultimately show "paced env b n l \<and> (is_audio b e \<and> n \<le> length l \<longrightarrow> audio_before env b n l (os_clock env l))"
    by blast
next
  assume "paced env b n l \<and> (is_audio b e \<and> n \<le> length l \<longrightarrow> audio_before env b n l (os_clock env l))"
  then show "paced env b n (l @ [e])"
    unfolding paced_def audio_before_def by (auto simp: nth_append less_Suc_eq)
qed

lemma audio_before_snoc:
  "audio_before env b n (l @ [e]) t \<longleftrightarrow> audio_before env b n l t
     \<and> (is_audio b e \<and> n \<le> length l \<longrightarrow> os_clock env l + kAudioOutputInterval \<le> t)"
  unfolding audio_before_def by (auto simp: nth_append less_Suc_eq)

lemma audio_before_mono: "audio_before env b n l t \<Longrightarrow> t \<le> t' \<Longrightarrow> audio_before env b n l t'"
  by (auto simp: audio_before_def dest: spec intro: order_trans)

lemma audio_before_due:
  assumes "clock_ok env" "audio_before env b n l (next_haptics_send_time p)" "audio_due env p l" "prefix l l'"
  shows "audio_before env b n l (os_clock env l')"
proof (cases "next_haptics_send_time p = 0")
  case True
  with assms(1,2) have "\<not> (n \<le> i \<and> i < length l \<and> is_audio b (l ! i))" for i
    by (auto simp: audio_before_def clock_ok_def not_le add_pos_pos dest!: spec [of _ i])
      (metis add_pos_pos not_less zero_less_numeral)
  then show ?thesis by (auto simp: audio_before_def)
next
  case False
  with assms show ?thesis
    by (auto simp: audio_due_def clock_ok_def intro: audio_before_mono order_trans)
qed

definition pacing :: "('s, 'd) os_env \<Rightarrow> bt_backend \<Rightarrow> nat \<Rightarrow> ('s, 'd) linux_port \<Rightarrow> log \<Rightarrow> bool" where
  "pacing env b n p l \<longleftrightarrow> (clock_ok env \<longrightarrow> paced env b n l \<and> audio_before env b n l (next_haptics_send_time p))"

lemma build_packet_id: "fst (build_packet haptics speaker s a h hb) ! 0 = VDS_BT_HAPTICS_REPORT_ID"
  by (simp add: build_packet_def Let_def sealed_nth nth_write_at write_at_def nth_append)

lemma state_report_not_audio:
  "length s = kDsStateSize \<Longrightarrow> \<not> is_audio b (Bt_sent Interrupt_channel a (hidp_output_packet (state_report_of q s)))"
  by (simp add: is_audio_def hidp_output_packet_def state_report_of)

interpretation audio_pacing: port_invariant env b "pacing env b n" for env :: "('s, 'd) os_env" and b n
proof
  fix p :: "('s, 'd) linux_port" and l q and s :: bytes
  assume "pacing env b n p l" "length s = kDsStateSize"
  then show "pacing env b n (p\<lparr>last_sent_bt_state := Some s\<rparr>)
      (l @ [Bt_sent Interrupt_channel (bb_address b) (hidp_output_packet (state_report_of q s))])"
    by (simp add: pacing_def paced_snoc audio_before_snoc state_report_not_audio)
next
  fix p :: "('s, 'd) linux_port" and l haptics speaker plugged hb and s :: bytes
  assume p: "pacing env b n p l" and due: "audio_due env p l"
  let ?t = "os_clock env l"
  show "pacing env b n (p\<lparr>last_sent_bt_state := Some s, next_haptics_send_time := ?t + kAudioOutputInterval\<rparr>)
      (l @ [Bt_sent Interrupt_channel (bb_address b)
         (hidp_output_packet (fst (build_packet haptics speaker s True plugged hb)))])"
    unfolding pacing_def
  proof
    assume "clock_ok env"
    with p due have "paced env b n l" "audio_before env b n l ?t"
      by (auto simp: pacing_def intro: audio_before_due)
    then show "paced env b n (l @ [Bt_sent Interrupt_channel (bb_address b)
         (hidp_output_packet (fst (build_packet haptics speaker s True plugged hb)))])
      \<and> audio_before env b n (l @ [Bt_sent Interrupt_channel (bb_address b)
         (hidp_output_packet (fst (build_packet haptics speaker s True plugged hb)))])
        (next_haptics_send_time (p\<lparr>last_sent_bt_state := Some s, next_haptics_send_time := ?t + kAudioOutputInterval\<rparr>))"
      by (simp add: paced_snoc audio_before_snoc audio_before_mono [of env b n l ?t])
  qed
next
  fix p :: "('s, 'd) linux_port" and l l'
  assume p: "pacing env b n p l" and due: "audio_due env p l"
    and l': "l' = l \<or> (\<exists>e. aside b e \<and> placed b (lp_path p) e \<and> l' = l @ [e])"
  let ?t = "os_clock env l'"
  have "paced env b n l' \<and> audio_before env b n l' (?t + kHapticsOutputBlockedRetry)" if "clock_ok env"
  proof -
    from l' have "prefix l l'" by auto
    from that p due this have "audio_before env b n l ?t" by (auto simp: pacing_def intro: audio_before_due)
    then have before: "audio_before env b n l (?t + kHapticsOutputBlockedRetry)" by (rule audio_before_mono) simp
    from that p have "paced env b n l" by (simp add: pacing_def)
    from l' show ?thesis
    proof
      assume "l' = l"
      with before \<open>paced env b n l\<close> show ?thesis by simp
    next
      assume "\<exists>e. aside b e \<and> placed b (lp_path p) e \<and> l' = l @ [e]"
      then obtain e where "\<not> is_audio b e" "l' = l @ [e]" using aside_not_audio by blast
      with before \<open>paced env b n l\<close> show ?thesis by (simp add: paced_snoc audio_before_snoc)
    qed
  qed
  then show "pacing env b n (p\<lparr>next_haptics_send_time := ?t + kHapticsOutputBlockedRetry\<rparr>) l'"
    by (simp add: pacing_def)
qed (simp_all add: pacing_def paced_snoc audio_before_snoc aside_not_audio)

text \<open>A step of a port keeps its path and adds events about this port and its controller only.\<close>

definition stays :: "bt_backend \<Rightarrow> string \<Rightarrow> log \<Rightarrow> ('s, 'd) linux_port \<Rightarrow> log \<Rightarrow> bool" where
  "stays b path before p l \<longleftrightarrow> lp_path p = path \<and> (\<exists>es. l = before @ es \<and> list_all (placed b path) es)"

lemma stays_event: "stays b path before p l \<Longrightarrow> placed b path e \<Longrightarrow> lp_path p' = path \<Longrightarrow> stays b path before p' (l @ [e])"
  unfolding stays_def by (force intro: exI [where x = "es @ [e]" for es])

interpretation locality: port_invariant env b "stays b path before" for env :: "('s, 'd) os_env" and b path before
  by unfold_locales (auto simp: stays_event, auto simp: stays_def)

end
