(* ===== verification/LinuxInputs.thy ===== *)
theory LinuxInputs
  imports LinuxDelivery "HOL-Library.Multiset"
begin

text \<open>
  What the host and the user see of a virtual port of the Linux daemon: input reports as frames, the
  mute button, feature requests; and the properties of a run of a connected port.
\<close>

section \<open>Input reports and the mute button\<close>

text \<open>The frames a port has written or tried to write, and the presses of a button that is held or not.\<close>

fun is_frame_event :: "event \<Rightarrow> bool" where
  "is_frame_event (Frame_written path bs) = True"
| "is_frame_event (Frame_refused path bs) = True"
| "is_frame_event (Frame_broken path bs) = True"
| "is_frame_event e = False"

fun presses :: "bool \<Rightarrow> bool list \<Rightarrow> nat" where
  "presses held [] = 0"
| "presses held (down # downs) = (if down \<and> \<not> held then 1 else 0) + presses down downs"

definition mute_down :: "bytes \<Rightarrow> bool" where
  "mute_down report = report_bit report kUsbInputMuteButtonOffset kUsbInputMuteButtonMask"

text \<open>The part of the state the frames, the path and the mute button make up.\<close>

definition input_view :: "('s, 'd) link \<Rightarrow> bool \<times> bool \<times> string \<times> event list" where
  "input_view w = (mic_muted (lk_port w), mute_button_down (lk_port w), lp_path (lk_port w),
     filter is_frame_event (lk_log w))"

abbreviation views :: "bool \<times> bool \<times> string \<times> event list \<Rightarrow> ('s, 'd) link \<Rightarrow> bool" where
  "views v w \<equiv> input_view w = v"

lemma view_upd [keeps_intros]:
  "(\<And>p. mic_muted (f p) = mic_muted p \<and> mute_button_down (f p) = mute_button_down p \<and> lp_path (f p) = lp_path p)
    \<Longrightarrow> keeps (views v) (upd_port f)"
  by (simp add: keeps_def wp_simps input_view_def)

lemma view_tally [keeps_intros]: "keeps (views v) (tally f)"
  unfolding tally_def by (intro keeps_intros) simp

lemma view_with_port [keeps_intros]: "(\<And>p. keeps (views v) (k p)) \<Longrightarrow> keeps (views v) (with_port k)"
  unfolding with_port_def by (intro keeps_intros)

lemma view_try_send [keeps_intros]: "keeps (views v) (on_log (try_send_output_report env b report))"
  by (rule keepsI, unfold wp_on_log, rule wp_try_send) (auto simp: input_view_def)

lemma view_flush [keeps_intros]: "keeps (views v) (flush_pending_bt_state_report env b)"
  unfolding flush_pending_bt_state_report_def
  by (intro keeps_intros) (auto intro!: keeps_intros split: option.split)

lemma view_send_new [keeps_intros]: "keeps (views v) (send_new_state env b)"
  unfolding send_new_state_def Let_def by (intro keeps_intros) simp_all

lemma view_forward [keeps_intros]: "keeps (views v) (forward_bt_state_if_changed env b)"
  unfolding forward_bt_state_if_changed_def Let_def by (intro keeps_intros) simp_all

lemma view_mic_state [keeps_intros]: "keeps (views v) (send_mic_state env b)"
  unfolding send_mic_state_def Let_def by (intro keeps_intros) simp_all

lemma view_headphones [keeps_intros]: "keeps (views v) (follow_headphones env b report)"
  unfolding follow_headphones_def Let_def by (intro keeps_intros) (simp_all add: route_audio_out_def)

lemma wp_follow_mute:
  assumes "views (m, d, path, es) w"
  shows "wp (follow_mute_button env b report)
    (\<lambda>_. views (m \<noteq> (mute_down report \<and> \<not> d), mute_down report, path, es)) (\<lambda>_ _. True) w"
proof -
  let ?v = "(m \<noteq> (mute_down report \<and> \<not> d), mute_down report, path, es)"
  have "wp (send_mic_state env b) (\<lambda>_. views ?v) (\<lambda>_ _. True) w'" if "views ?v w'" for w' :: "('a, 'b) link"
    using keeps_wp [OF view_mic_state that] by (rule wp_mono) simp_all
  with assms show ?thesis
    by (auto simp: follow_mute_button_def Let_def wp_simps input_view_def mute_down_def)
qed

text \<open>One packet with an input report: one frame with that report, and the mute button followed.\<close>

definition forwards :: "string \<Rightarrow> event \<Rightarrow> bytes \<Rightarrow> bool" where
  "forwards path e report \<longleftrightarrow> e \<in> {Frame_written path (hid_in_frame report), Frame_refused path (hid_in_frame report)}"

lemma wp_input_report:
  assumes "views (m, d, path, es) w" and "length packet \<le> kBtReadBufferSize"
    and "bt_input_to_usb_input packet = Some report"
  shows "wp (handle_bt_input env b (Read_bytes packet))
    (\<lambda>_ w'. \<exists>e. forwards path e report
       \<and> views (m \<noteq> (mute_down report \<and> \<not> d), mute_down report, path, es @ [e]) w') (\<lambda>_ _. True) w"
    (is "wp _ ?Q ?E w")
proof -
  let ?v = "(m \<noteq> (mute_down report \<and> \<not> d), mute_down report, path, es)"
  have packet: "packet \<noteq> []" "payload_type_of packet = Control_payload"
    using assms(3) by (auto simp: bt_input_to_usb_input_def split: if_splits)
  have frame: "wp (write_vds_frame env (hid_in_frame report)) (\<lambda>_. ?Q True) ?E w'"
    if "views ?v w'" for w' :: "('a, 'b) link"
    using that by (intro wp_write_vds_frame) (auto simp: input_view_def forwards_def)
  have jack: "wp (follow_headphones env b report) (\<lambda>_. wp (write_vds_frame env (hid_in_frame report)) (\<lambda>_. ?Q True) ?E) ?E w'"
    if "views ?v w'" for w' :: "('a, 'b) link"
    using keeps_wp [OF view_headphones that] by (rule wp_mono) (simp_all only: frame)
  have "wp (follow_mute_button env b report) (\<lambda>_. wp (follow_headphones env b report)
      (\<lambda>_. wp (write_vds_frame env (hid_in_frame report)) (\<lambda>_. ?Q True) ?E) ?E) ?E w"
    using wp_follow_mute [OF assms(1)] by (rule wp_mono) (simp_all only: jack)
  then show ?thesis
    using assms(2,3) packet by (simp add: handle_bt_input_def read_interrupt_packet_def wp_simps)
qed

definition handle_inputs :: "('s, 'd) os_env \<Rightarrow> bt_backend \<Rightarrow> bytes list \<Rightarrow> ('s, 'd, unit) port_act" where
  "handle_inputs env b packets = for_each (\<lambda>packet. seq_act (handle_bt_input env b (Read_bytes packet)) (ret ())) packets"

definition input_report :: "bytes \<Rightarrow> bytes" where
  "input_report packet = the (bt_input_to_usb_input packet)"

definition is_input_packet :: "bytes \<Rightarrow> bool" where
  "is_input_packet packet \<longleftrightarrow> length packet \<le> kBtReadBufferSize \<and> bt_input_to_usb_input packet \<noteq> None"

lemma wp_inputs:
  assumes "views (m, d, path, es) w" and "list_all is_input_packet packets"
  shows "wp (handle_inputs env b packets)
    (\<lambda>_ w'. \<exists>new d'. list_all2 (forwards path) new (map input_report packets)
       \<and> views (m \<noteq> odd (presses d (map (mute_down \<circ> input_report) packets)), d', path, es @ new) w') (\<lambda>_ _. True) w"
  using assms
proof (induction packets arbitrary: m d es w)
  case Nil
  then show ?case by (simp add: handle_inputs_def wp_simps)
next
  case (Cons packet packets)
  let ?r = "input_report packet"
  from Cons.prems have report: "length packet \<le> kBtReadBufferSize" "bt_input_to_usb_input packet = Some ?r"
    by (auto simp: is_input_packet_def input_report_def)
  have rest: "wp (handle_inputs env b packets)
    (\<lambda>_ w'. \<exists>new d'. list_all2 (forwards path) new (map input_report (packet # packets))
       \<and> views (m \<noteq> odd (presses d (map (mute_down \<circ> input_report) (packet # packets))), d', path, es @ new) w')
      (\<lambda>_ _. True) w'"
    if e: "forwards path e ?r" and v: "views (m \<noteq> (mute_down ?r \<and> \<not> d), mute_down ?r, path, es @ [e]) w'" for e and w' :: "('a, 'b) link"
  proof -
    from Cons.prems(2) have "list_all is_input_packet packets" by simp
    from Cons.IH [OF v this] show ?thesis
    proof (rule wp_mono)
      fix x w''
      assume "\<exists>new d'. list_all2 (forwards path) new (map input_report packets)
        \<and> views ((m \<noteq> (mute_down ?r \<and> \<not> d)) \<noteq> odd (presses (mute_down ?r) (map (mute_down \<circ> input_report) packets)),
            d', path, (es @ [e]) @ new) (w'' :: ('a, 'b) link)"
      then obtain new d' where new: "list_all2 (forwards path) new (map input_report packets)"
        and v': "views ((m \<noteq> (mute_down ?r \<and> \<not> d)) \<noteq> odd (presses (mute_down ?r) (map (mute_down \<circ> input_report) packets)),
            d', path, (es @ [e]) @ new) w''" by blast
      from v' have "views (m \<noteq> odd (presses d (map (mute_down \<circ> input_report) (packet # packets))), d', path, es @ e # new) w''"
        by (auto simp: input_view_def)
      with new e show "\<exists>new d'. list_all2 (forwards path) new (map input_report (packet # packets))
        \<and> views (m \<noteq> odd (presses d (map (mute_down \<circ> input_report) (packet # packets))), d', path, es @ new) w''"
        by (intro exI [of _ "e # new"] exI [of _ d']) simp
    qed simp
  qed
  have step: "handle_inputs env b (packet # packets)
      = seq_act (seq_act (handle_bt_input env b (Read_bytes packet)) (ret ())) (handle_inputs env b packets)"
    by (simp add: handle_inputs_def)
  show ?case
    unfolding step wp_seq wp_ret
    by (rule wp_mono [OF wp_input_report [OF Cons.prems(1) report]]) (use rest in blast)+
qed

text \<open>
  C17. Every input report of a controller becomes one frame for the kernel module, in order and byte for
  byte (a full queue may refuse it), and the microphone is muted and unmuted by the presses of the
  mute button alone: holding it down changes nothing.
\<close>

theorem inputs_and_mute_button:
  assumes "list_all is_input_packet packets"
    and "handle_inputs env b packets w = (Inr u, w')"
  shows "(\<exists>new. filter is_frame_event (lk_log w') = filter is_frame_event (lk_log w) @ new
      \<and> list_all2 (forwards (lp_path (lk_port w))) new (map input_report packets))
    \<and> mic_muted (lk_port w') = (mic_muted (lk_port w) \<noteq>
        odd (presses (mute_button_down (lk_port w)) (map (mute_down \<circ> input_report) packets)))"
proof -
  have "views (mic_muted (lk_port w), mute_button_down (lk_port w), lp_path (lk_port w), filter is_frame_event (lk_log w)) w"
    by (simp add: input_view_def)
  from wp_returns [OF assms(2) wp_inputs [OF this assms(1)]] show ?thesis
    by (auto simp: input_view_def)
qed

section \<open>A port to run\<close>

lemma wp_succeeds: "wp m Q (\<lambda>_ _. False) w \<Longrightarrow> \<exists>x w'. m w = (Inr x, w') \<and> Q x w'"
  by (auto simp: wp_def split: prod.splits sum.splits)

definition example_extractor :: "unit extractor" where
  "example_extractor = \<lparr>ex_encoder = (), ex_pending = [], ex_speaker_pcm = [], ex_haptics_pcm = [],
     ex_window_frames = kPcmWindowFrames, ex_window_pos = 0, ex_has_signal = False, ex_has_haptics_signal = False\<rparr>"

definition example_linux_port :: "(unit, unit) linux_port" where
  "example_linux_port = \<lparr>lp_path = ''/dev/vds0'', lp_extractor = example_extractor,
     lp_waveout_extractor = example_extractor, lp_mic_decoder = (), lp_haptics_builder = fresh_builder,
     lp_output_state = initial_output, pending_audio_chunks = [], last_sent_bt_state = Some kInitialDsState,
     pending_bt_state = None, pending_bt_state_report = None, next_haptics_send_time = 0,
     audio_out_stream_active = False, audio_in_stream_active = False, mic_muted = False,
     mute_button_down = False, headset_plugged = False, lp_headset_mic_plugged = False,
     speaker_waveout_selected = True, speaker_waveout_active = False, speaker_waveout_phase = 0,
     feature_cache = (\<lambda>_. []), feature_cached = (\<lambda>_. False), pending_feature_reports = [],
     trace_state = no_counts\<rparr>"

definition example_backend :: bt_backend where
  "example_backend = \<lparr>bb_address = ''aa:bb:cc:dd:ee:01'', bb_control_fd = 7, bb_interrupt_fd = 8\<rparr>"

text \<open>An environment whose queues are full, and one that takes audio packets and whose clock steps by an interval.\<close>

definition full_queues :: "(unit, unit) os_env" where
  "full_queues = \<lparr>os_send = (\<lambda>_. []), os_write_full = (\<lambda>_. [Wrote 2]), os_write_frame = (\<lambda>_. []),
     os_ioctl = (\<lambda>_. None), os_clock = (\<lambda>l. int (length l) * kAudioOutputInterval + 1),
     os_encode = (\<lambda>s pcm. (s, Inr [])), os_decode = (\<lambda>s bs. (s, Inr [])), os_new_encoder = Inr (),
     os_new_decoder = Inr (), os_waveout_sample = (\<lambda>_. 0)\<rparr>"

definition taking_queues :: "(unit, unit) os_env" where
  "taking_queues = full_queues\<lparr>os_send := (\<lambda>_. [Sent (kBtHapticsReportSize + 1)])\<rparr>"

definition connected_link :: "(unit, unit) link" where
  "connected_link = \<lparr>lk_port = example_linux_port, lk_log = [Bt_sent Interrupt_channel ''aa:bb:cc:dd:ee:01''
     (hidp_output_packet (build_bt_init_report initial_output))]\<rparr>"

lemma example_port_ok: "port_ok example_linux_port"
  by (simp add: example_linux_port_def port_ok_def pending_matches_def cache_ok_def drops_add_up_def no_counts_def
      initial_output_def kInitialDsState_def kInitialSetStateData_def)

lemma example_synced: "synced example_linux_port"
  by (simp add: example_linux_port_def synced_def initial_output_def)

lemma example_accepted: "accepted example_backend example_linux_port (lk_log connected_link)"
proof -
  have "carries example_backend kInitialDsState (hd (lk_log connected_link))"
    unfolding carries_def connected_link_def
    by (auto simp: example_backend_def initial_output_def intro!: exI [of _ initial_output])
  then have "accepted example_backend example_linux_port ([] @ [hd (lk_log connected_link)])"
    by (rule accepted_new [rotated]) (simp add: example_linux_port_def)
  then show ?thesis by (simp add: connected_link_def)
qed

lemma full_queues_send: "wp (try_send_output_report full_queues example_backend r) Q E l
    = Q False (l @ [Bt_refused (bb_address example_backend) (hidp_output_packet r)])"
  by (simp add: try_send_output_report_def full_queues_def example_backend_def wp_simps Let_def log_event_def)

lemma full_queues_frame: "wp (write_vds_frame full_queues bs) Q E w =
    Q False (w\<lparr>lk_port := (lk_port w)\<lparr>trace_state := (trace_state (lk_port w))
        \<lparr>dropped_usb_frame_count := dropped_usb_frame_count (trace_state (lk_port w)) + 1\<rparr>\<rparr>,
      lk_log := lk_log w @ [Frame_refused (lp_path (lk_port w)) bs]\<rparr>)"
  by (simp add: write_vds_frame_def full_queues_def wp_simps Let_def)

definition input_packet :: "u8 \<Rightarrow> bytes" where
  "input_packet buttons = (replicate 66 0)[0 := kBtHidpInputPrefix, 1 := VDS_BT_STATE_REPORT_ID, 2 := 1, 12 := buttons]"

lemma input_packet_report:
  "bt_input_to_usb_input (input_packet v) = Some ((replicate 64 0)[0 := 1, 10 := v])"
  by (simp add: bt_input_to_usb_input_def payload_type_of_def input_packet_def) (simp add: numeral_eq_Suc)

lemma input_packet_ok [simp]: "is_input_packet (input_packet v)"
  by (simp add: is_input_packet_def input_packet_report) (simp add: input_packet_def)

lemma input_packet_mute [simp]: "mute_down (input_report (input_packet v)) \<longleftrightarrow> v AND kUsbInputMuteButtonMask \<noteq> 0"
  by (simp add: input_report_def input_packet_report mute_down_def report_bit_def)

text \<open>With full queues, no step of an input throws.\<close>

lemma no_throw_upd_port [no_throw_intros]: "no_throw (upd_port f)"
  unfolding upd_port_def by (intro no_throw_intros)

lemma no_throw_tally [no_throw_intros]: "no_throw (tally f)"
  unfolding tally_def by (intro no_throw_intros)

lemma no_throw_with_port [no_throw_intros]: "(\<And>p. no_throw (k p)) \<Longrightarrow> no_throw (with_port k)"
  unfolding with_port_def by (intro no_throw_intros)

lemma full_queues_no_throw [no_throw_intros]:
  "no_throw (on_log (try_send_output_report full_queues example_backend r))"
  by (rule no_throwI) (simp add: wp_on_log full_queues_send)

lemma full_queues_frame_no_throw [no_throw_intros]: "no_throw (write_vds_frame full_queues bs)"
  by (rule no_throwI) (simp add: full_queues_frame)

lemma full_queues_mic [no_throw_intros]: "no_throw (send_mic_state full_queues example_backend)"
  unfolding send_mic_state_def Let_def by (intro no_throw_intros)

lemma full_queues_forward [no_throw_intros]: "no_throw (forward_bt_state_if_changed full_queues example_backend)"
  unfolding forward_bt_state_if_changed_def flush_pending_bt_state_report_def send_new_state_def Let_def
  by (intro no_throw_intros)

lemma full_queues_input: "no_throw (handle_bt_input full_queues example_backend (Read_bytes (input_packet v)))"
proof -
  have packet: "payload_type_of (input_packet v) \<noteq> Audio_payload" "input_packet v \<noteq> []"
    "length (input_packet v) \<le> kBtReadBufferSize"
    using input_packet_report [of v] by (auto simp: bt_input_to_usb_input_def input_packet_def split: if_splits)
  let ?rest = "\<lambda>report. seq_act (follow_mute_button full_queues example_backend report)
     (seq_act (follow_headphones full_queues example_backend report)
       (seq_act (write_vds_frame full_queues (hid_in_frame report)) (ret True)))"
  have "no_throw (?rest report)" for report
    unfolding follow_mute_button_def follow_headphones_def Let_def by (intro no_throw_intros)
  then have "no_throw (bind_act (lift_result (Inr (Some (input_packet v)))) (\<lambda>_. ?rest (input_report (input_packet v))))"
    by (simp add: no_throw_def wp_simps)
  with packet show ?thesis
    by (simp add: handle_bt_input_def read_interrupt_packet_def input_packet_report input_report_def no_throw_def wp_simps)
qed

section \<open>The properties of a run\<close>

text \<open>
  C4. The newest output state reaches the controller: whatever frames, packets and refused sends a run of
  a connected port went through, either the newest state (up to the microphone section, which has
  reports of its own) waits as the report to send next, or the last packet that carries a whole state
  and that the Bluetooth queue accepted carries it.
\<close>

theorem newest_state_delivered:
  assumes "port_run env b w w'" and "port_ok (lk_port w)" and "synced (lk_port w)"
    and "accepted b (lk_port w) (lk_log w)"
  shows "\<exists>s. mic_close s (state_bytes (lp_output_state (lk_port w')))
    \<and> (if pending_bt_state (lk_port w') = None
        then \<exists>before e after. lk_log w' = before @ e # after \<and> carries b s e \<and> list_all (aside b) after
        else \<exists>q. pending_bt_state_report (lk_port w') = Some (state_report_of q s))"
proof -
  have ok: "port_ok (lk_port w')" and synced: "synced (lk_port w')"
    using port_run_synced [OF assms(1)] port_run_ok [OF assms(1)] assms(2,3) by simp_all
  have "accepted b (lk_port w') (lk_log w')"
    using acceptance.run_keeps [OF assms(1)] assms(2,4) by simp
  from ok have "pending_matches (lk_port w')" by (simp add: port_ok_def)
  from this synced \<open>accepted b (lk_port w') (lk_log w')\<close> show ?thesis
    by (cases rule: pending_matches_cases) (auto simp: synced_def accepted_def)
qed

text \<open>A frame with an output report while the queues are full: the new state waits.\<close>

definition example_output_frame :: bytes where
  "example_output_frame =
     header_bytes \<lparr>fh_type = FRAME_USB_HID_OUT, fh_flags = 0, fh_length = 48, fh_sequence = 0\<rparr>
       @ (replicate 48 0)[0 := 2, 1 := 3, 3 := 0xff]"

lemma full_queues_output: "no_throw (handle_vds_frame full_queues (Some example_backend) (Read_bytes example_output_frame))"
proof -
  have hid: "no_throw (handle_hid_out full_queues (Some example_backend) payload)" for payload
    unfolding handle_hid_out_def forward_to_def on_backend_def
    by (rule no_throw_with_port) (auto split: prod.split bool.split intro!: no_throw_intros)
  have "length (header_bytes h) = 16" for h by (simp add: header_bytes_def)
  then show ?thesis
    unfolding handle_vds_frame_def
    by (intro no_throw_with_port)
      (auto simp: example_output_frame_def read_header_bytes handle_frame_def intro!: no_throw_seq hid no_throw_ret)
qed

theorem newest_state_delivered_witness:
  "\<exists>w'. port_run full_queues example_backend connected_link w'
    \<and> (\<exists>s. mic_close s (state_bytes (lp_output_state (lk_port w')))
      \<and> (if pending_bt_state (lk_port w') = None
          then \<exists>before e after. lk_log w' = before @ e # after \<and> carries example_backend s e
            \<and> list_all (aside example_backend) after
          else \<exists>q. pending_bt_state_report (lk_port w') = Some (state_report_of q s)))"
proof -
  obtain x w' where "handle_vds_frame full_queues (Some example_backend) (Read_bytes example_output_frame) connected_link = (Inr x, w')"
    using no_throw_returns [OF full_queues_output] by blast
  then have run: "port_run full_queues example_backend connected_link w'" by (blast intro: port_run.intros port_step.intros)
  have start: "lk_port connected_link = example_linux_port" by (simp add: connected_link_def)
  from newest_state_delivered [OF run] run show ?thesis
    unfolding start using example_port_ok example_synced example_accepted by blast
qed

text \<open>
  C19. The shape of a port is kept by every run: the output state has its size, the audio queue and the
  phase of the tone stay in their bounds, a cached report is the one of its id and fits a frame, the
  waiting report encodes the waiting state, and the counts of dropped chunks add up.
\<close>

theorem port_run_keeps_shape:
  assumes "port_run env b w w'" and "port_ok (lk_port w)"
  shows "port_ok (lk_port w')"
  using port_run_ok assms by blast

theorem port_run_keeps_shape_witness:
  "\<exists>w'. port_run full_queues example_backend connected_link w' \<and> port_ok (lk_port w')"
proof -
  obtain x w' where "handle_vds_frame full_queues (Some example_backend) (Read_bytes example_output_frame) connected_link = (Inr x, w')"
    using no_throw_returns [OF full_queues_output] by blast
  then have run: "port_run full_queues example_backend connected_link w'" by (blast intro: port_run.intros port_step.intros)
  have "port_ok (lk_port connected_link)" by (simp add: connected_link_def example_port_ok)
  with run port_run_keeps_shape [OF run] show ?thesis by blast
qed

lemma full_queues_inputs: "no_throw (handle_inputs full_queues example_backend (map input_packet vs))"
  unfolding handle_inputs_def
  by (induction vs) (auto intro!: no_throw_intros full_queues_input)

theorem inputs_and_mute_button_witness:
  "\<exists>u w'. handle_inputs full_queues example_backend (map input_packet [4, 4, 0]) connected_link = (Inr u, w')
    \<and> mic_muted (lk_port w') \<and> (\<exists>new. filter is_frame_event (lk_log w') = new \<and> length new = 3)"
proof -
  obtain u w' where run: "handle_inputs full_queues example_backend (map input_packet [4, 4, 0]) connected_link = (Inr u, w')"
    using no_throw_returns [OF full_queues_inputs] by blast
  have "list_all is_input_packet (map input_packet [4, 4, 0])" by simp
  from inputs_and_mute_button [OF this run] have "mic_muted (lk_port w')"
    "\<exists>new. filter is_frame_event (lk_log w') = new \<and> length new = 3"
    by (auto simp: connected_link_def example_linux_port_def dest: list_all2_lengthD)
  with run show ?thesis by blast
qed

section \<open>The pace of the audio\<close>

text \<open>
  C12. Haptics and speaker packets leave at most once per interval: on a steady clock, any two audio
  packets that a run of a connected port gave to the Bluetooth queue were sent at least ten
  milliseconds apart, however many chunks waited and whatever was refused in between.
\<close>

theorem audio_packets_paced:
  assumes "port_run env b w w'" and "port_ok (lk_port w)" and "clock_ok env"
    and "length (lk_log w) \<le> i" "i < j" "j < length (lk_log w')"
    and "is_audio b (lk_log w' ! i)" "is_audio b (lk_log w' ! j)"
  shows "os_clock env (take i (lk_log w')) + 10000000 \<le> os_clock env (take j (lk_log w'))"
proof -
  let ?n = "length (lk_log w)"
  have "pacing env b ?n (lk_port w) (lk_log w)"
    by (auto simp: pacing_def paced_def audio_before_def)
  with assms(2) have "pacing env b ?n (lk_port w') (lk_log w')"
    using audio_pacing.run_keeps [OF assms(1)] by simp
  with assms(3-8) show ?thesis
    by (auto simp: pacing_def paced_def)
qed

text \<open>Two flushes of a port with two chunks, on a clock that steps by an interval.\<close>

definition example_chunk :: audio_chunk where
  "example_chunk = \<lparr>ac_haptics = replicate kHapticsSampleSize 0, ac_speaker = replicate kSpeakerOpusSize 0,
     ac_has_signal = True, ac_has_haptics_signal = True\<rparr>"

definition queued_link :: "(unit, unit) link" where
  "queued_link = connected_link\<lparr>lk_port := example_linux_port\<lparr>pending_audio_chunks := [example_chunk, example_chunk]\<rparr>\<rparr>"

definition can_flush :: "(unit, unit) link \<Rightarrow> bool" where
  "can_flush w \<longleftrightarrow> port_ok (lk_port w) \<and> pending_bt_state_report (lk_port w) = None
     \<and> \<not> speaker_waveout_active (lk_port w)
     \<and> pending_audio_chunks (lk_port w) \<noteq> [] \<and> set (pending_audio_chunks (lk_port w)) \<subseteq> {example_chunk}
     \<and> length (pending_audio_chunks (lk_port w)) \<le> kFreshPendingAudioChunks
     \<and> audio_due taking_queues (lk_port w) (lk_log w)"

lemma taking_queues_send:
  "length r = kBtHapticsReportSize \<Longrightarrow> wp (try_send_output_report taking_queues example_backend r) Q E l
    = Q True (l @ [Bt_sent Interrupt_channel (bb_address example_backend) (hidp_output_packet r)])"
  by (simp add: try_send_output_report_def taking_queues_def full_queues_def example_backend_def wp_simps Let_def
      log_event_def hidp_output_packet_def)

lemma drop_stale_fields [simp]:
  "lp_output_state (drop_stale p) = lp_output_state p" "headset_plugged (drop_stale p) = headset_plugged p"
  "lp_haptics_builder (drop_stale p) = lp_haptics_builder p"
  "pending_bt_state (drop_stale p) = pending_bt_state p"
  "pending_bt_state_report (drop_stale p) = pending_bt_state_report p"
  "speaker_waveout_active (drop_stale p) = speaker_waveout_active p"
  by (simp_all add: drop_stale_def Let_def)

lemma chunk_sent_fields [simp]:
  "pending_audio_chunks (chunk_sent now p) = tl (pending_audio_chunks p)"
  "next_haptics_send_time (chunk_sent now p) = now + kAudioOutputInterval"
  "speaker_waveout_active (chunk_sent now p) = speaker_waveout_active p"
  "pending_bt_state_report p = None \<Longrightarrow> pending_bt_state_report (chunk_sent now p) = None"
  by (simp_all add: chunk_sent_def clear_pending_def Let_def)

lemma flush_one:
  assumes "can_flush w"
  shows "wp (flush_port taking_queues example_backend)
    (\<lambda>_ w'. \<exists>packet. lk_log w' = lk_log w @ [packet] \<and> is_audio example_backend packet
      \<and> port_ok (lk_port w') \<and> pending_bt_state_report (lk_port w') = None \<and> \<not> speaker_waveout_active (lk_port w')
      \<and> pending_audio_chunks (lk_port w') = tl (pending_audio_chunks (lk_port w))
      \<and> next_haptics_send_time (lk_port w') = os_clock taking_queues (lk_log w) + kAudioOutputInterval)
    (\<lambda>_ _. False) w"
proof -
  let ?p = "lk_port w"
  from assms have w: "port_ok ?p" "pending_bt_state_report ?p = None" "\<not> speaker_waveout_active ?p"
    "pending_audio_chunks ?p \<noteq> []" "length (pending_audio_chunks ?p) \<le> kFreshPendingAudioChunks"
    "audio_due taking_queues ?p (lk_log w)" "set (pending_audio_chunks ?p) \<subseteq> {example_chunk}"
    by (simp_all add: can_flush_def)
  then have chunk: "hd (pending_audio_chunks ?p) = example_chunk" by (cases "pending_audio_chunks ?p") auto
  have none: "pending_bt_state ?p = None" using port_okD(5) [OF w(1)] w(2) by (auto elim: pending_matches_cases)
  have stale: "pending_audio_chunks (drop_stale ?p) = pending_audio_chunks ?p" using w(5) by (simp add: drop_stale_def Let_def)
  obtain r hb where built: "build_packet (ac_haptics example_chunk) (ac_speaker example_chunk)
      (state_bytes (lp_output_state ?p)) True (headset_plugged ?p) (lp_haptics_builder ?p) = (r, hb)"
    by (rule prod.exhaust)
  have "length (ac_haptics example_chunk) = kHapticsSampleSize" "length (ac_speaker example_chunk) = kSpeakerOpusSize"
    by (simp_all add: example_chunk_def)
  note parts = build_packet_parts [OF this port_okD(1) [OF w(1)] built]
  have due: "\<not> (next_haptics_send_time ?p \<noteq> 0 \<and> os_clock taking_queues (lk_log w) < next_haptics_send_time ?p)"
    using w(6) by (auto simp: audio_due_def)
  have audio: "is_audio example_backend (Bt_sent Interrupt_channel (bb_address example_backend) (hidp_output_packet r))"
    using parts(3) by (simp add: is_audio_def hidp_output_packet_def)
  have "port_ok (chunk_sent now ((drop_stale ?p)\<lparr>lp_haptics_builder := hb\<rparr>))" for now
    using w(1) by (intro chunk_sent_ok) simp
  then show ?thesis
    using w(2-4) none chunk stale built due audio parts(1)
    by (simp add: flush_port_def flush_pending_bt_state_report_def enqueue_speaker_waveout_chunk_def
        flush_pending_audio_chunk_def wp_simps Let_def taking_queues_send)
qed

lemma taking_clock: "clock_ok taking_queues"
  by (auto simp: clock_ok_def taking_queues_def full_queues_def dest!: prefix_length_le)

theorem audio_packets_paced_witness:
  "\<exists>w'. port_run taking_queues example_backend queued_link w'
    \<and> is_audio example_backend (lk_log w' ! 1) \<and> is_audio example_backend (lk_log w' ! 2)
    \<and> os_clock taking_queues (take 1 (lk_log w')) + 10000000 \<le> os_clock taking_queues (take 2 (lk_log w'))"
proof -
  have start: "can_flush queued_link"
    using example_port_ok
    by (simp add: can_flush_def queued_link_def connected_link_def example_linux_port_def audio_due_def port_ok_def
        pending_matches_def)
  from wp_succeeds [OF flush_one [OF start]] obtain u w1 a where
    first: "flush_port taking_queues example_backend queued_link = (Inr u, w1)" "lk_log w1 = lk_log queued_link @ [a]"
      "is_audio example_backend a" and "port_ok (lk_port w1)" "pending_bt_state_report (lk_port w1) = None"
      "\<not> speaker_waveout_active (lk_port w1)" "pending_audio_chunks (lk_port w1) = [example_chunk]"
      "next_haptics_send_time (lk_port w1) = os_clock taking_queues (lk_log queued_link) + kAudioOutputInterval"
    by (auto simp: queued_link_def)
  then have "can_flush w1"
    by (simp add: can_flush_def audio_due_def taking_queues_def full_queues_def algebra_simps)
  from wp_succeeds [OF flush_one [OF this]] obtain v w2 c where
    second: "flush_port taking_queues example_backend w1 = (Inr v, w2)" "lk_log w2 = lk_log w1 @ [c]"
      "is_audio example_backend c" by auto
  from first second have run: "port_run taking_queues example_backend queued_link w2"
    by (blast intro: port_run.intros port_step.Flush)
  have log: "length (lk_log queued_link) = 1" by (simp add: queued_link_def connected_link_def)
  with first second have audio: "is_audio example_backend (lk_log w2 ! 1)" "is_audio example_backend (lk_log w2 ! 2)"
    by (simp_all add: nth_append)
  have "port_ok (lk_port queued_link)" using start by (simp add: can_flush_def)
  from audio_packets_paced [OF run this taking_clock, of 1 2] log first second audio run show ?thesis by auto
qed

section \<open>Feature requests\<close>

lemma wp_feature_miss:
  assumes "\<not> feature_cached (lk_port w) i" and "\<not> bb_control_fd b < 0"
  shows "wp (handle_feature_get env (Some b) [i])
    (\<lambda>_ w'. w' = \<lparr>lk_port = (lk_port w)\<lparr>pending_feature_reports := pending_feature_reports (lk_port w) @ [i]\<rparr>,
      lk_log = lk_log w @ [Bt_sent Control_channel (bb_address b) (feature_get_packet i)]\<rparr>) (\<lambda>_ _. True) w"
  using assms unfolding handle_feature_get_def
  by (auto simp: wp_simps on_backend_def send_feature_get_def intro!: wp_write_packet)

definition replies :: "string \<Rightarrow> bytes \<Rightarrow> event \<Rightarrow> bool" where
  "replies path report e \<longleftrightarrow> (\<exists>bs. frame_bytes FRAME_USB_FEATURE_REPLY report = Inr bs
     \<and> e \<in> {Frame_written path bs, Frame_refused path bs})"

lemma wp_reply:
  assumes "\<And>e c. replies (lp_path (lk_port w)) report e \<Longrightarrow>
    Q (w\<lparr>lk_port := (lk_port w)\<lparr>trace_state := c\<rparr>, lk_log := lk_log w @ [e]\<rparr>)"
  shows "wp (send_frame env FRAME_USB_FEATURE_REPLY report) (\<lambda>_. Q) (\<lambda>_ _. True) w"
proof (cases "frame_bytes FRAME_USB_FEATURE_REPLY report")
  case (Inr bs)
  have "Q (w\<lparr>lk_log := lk_log w @ [e]\<rparr>)" if "replies (lp_path (lk_port w)) report e" for e
    using assms [OF that, of "trace_state (lk_port w)"] by simp
  with Inr assms show ?thesis
    unfolding send_frame_def by (auto simp: wp_simps replies_def intro!: wp_write_vds_frame)
qed (simp add: send_frame_def wp_simps)

lemma wp_feature_answer:
  assumes "bt_feature_to_usb_feature_reply packet = Some (i # rest)" and "length packet \<le> kBtReadBufferSize"
    and "i \<in> set (pending_feature_reports (lk_port w))"
  shows "wp (handle_bt_control env (Read_bytes packet))
    (\<lambda>_ w'. \<exists>e. replies (lp_path (lk_port w)) (i # rest) e \<and> lk_log w' = lk_log w @ [e]
      \<and> lp_path (lk_port w') = lp_path (lk_port w)
      \<and> feature_cached (lk_port w') i \<and> feature_cache (lk_port w') i = i # rest
      \<and> pending_feature_reports (lk_port w') = remove1 i (pending_feature_reports (lk_port w)))
    (\<lambda>_ _. True) w"
  using assms
  by (auto simp: handle_bt_control_def read_feature_report_def bt_feature_to_usb_feature_reply_def wp_simps
      store_feature_def split: if_splits intro!: wp_reply)

lemma wp_feature_hit:
  assumes "feature_cached (lk_port w) i"
  shows "wp (handle_feature_get env backend [i])
    (\<lambda>_ w'. \<exists>e. replies (lp_path (lk_port w)) (feature_cache (lk_port w) i) e \<and> lk_log w' = lk_log w @ [e]
      \<and> pending_feature_reports (lk_port w') = pending_feature_reports (lk_port w)) (\<lambda>_ _. True) w"
  using assms by (auto simp: handle_feature_get_def wp_simps intro!: wp_reply)

text \<open>
  C18. A feature report the host asks for: a miss sends one request to the controller, its answer gives one
  reply to the host and no request stays open, and the same report is answered from the cache from
  then on, without the controller.
\<close>

theorem feature_request_resolved:
  assumes "\<not> feature_cached (lk_port w) i" and "0 \<le> bb_control_fd b"
    and "handle_feature_get env (Some b) [i] w = (Inr u1, w1)"
    and "bt_feature_to_usb_feature_reply packet = Some (i # rest)" and "length packet \<le> kBtReadBufferSize"
    and "handle_bt_control env (Read_bytes packet) w1 = (Inr x, w2)"
    and "handle_feature_get env backend [i] w2 = (Inr u2, w3)"
  shows "\<exists>e1 e2. lk_log w3 = lk_log w @ [Bt_sent Control_channel (bb_address b) [0x43, i], e1, e2]
    \<and> replies (lp_path (lk_port w)) (i # rest) e1 \<and> replies (lp_path (lk_port w)) (i # rest) e2
    \<and> mset (pending_feature_reports (lk_port w3)) = mset (pending_feature_reports (lk_port w))"
proof -
  from assms(2) have "\<not> bb_control_fd b < 0" by simp
  from wp_returns [OF assms(3) wp_feature_miss [OF assms(1) this]]
  have w1: "lk_log w1 = lk_log w @ [Bt_sent Control_channel (bb_address b) [0x43, i]]"
    "lp_path (lk_port w1) = lp_path (lk_port w)"
    "pending_feature_reports (lk_port w1) = pending_feature_reports (lk_port w) @ [i]"
    by (simp_all add: feature_get_packet_def)
  then have "i \<in> set (pending_feature_reports (lk_port w1))" by simp
  from wp_returns [OF assms(6) wp_feature_answer [OF assms(4,5) this]] obtain e1 where
    w2: "replies (lp_path (lk_port w)) (i # rest) e1" "lk_log w2 = lk_log w1 @ [e1]"
      "lp_path (lk_port w2) = lp_path (lk_port w)" "feature_cache (lk_port w2) i = i # rest"
      "pending_feature_reports (lk_port w2) = remove1 i (pending_feature_reports (lk_port w) @ [i])"
    and cached: "feature_cached (lk_port w2) i"
    using w1 by auto
  from wp_returns [OF assms(7) wp_feature_hit [OF cached]] w1 w2 obtain e2 where
    "replies (lp_path (lk_port w)) (i # rest) e2" "lk_log w3 = lk_log w2 @ [e2]"
    "pending_feature_reports (lk_port w3) = pending_feature_reports (lk_port w2)"
    by auto
  moreover have "mset (remove1 i (xs @ [i])) = mset xs" for xs by simp
  ultimately show ?thesis using w1 w2 by auto
qed

lemma full_queues_request:
  "\<exists>w'. handle_feature_get full_queues (Some example_backend) [i] connected_link = (Inr (), w')"
proof -
  have "write_full ''Bluetooth L2CAP'' kBtWritePollTimeoutMs [Wrote 2, Wr_would_block Poll_timeout] [0x43, i] []
    = Some ([0x43, i], Inr ())" by (simp add: numeral_2_eq_2)
  then have "wp (handle_feature_get full_queues (Some example_backend) [i]) (\<lambda>_ _. True) (\<lambda>_ _. False) connected_link"
    by (simp add: handle_feature_get_def on_backend_def send_feature_get_def write_packet_def wp_simps feature_get_packet_def
        connected_link_def example_linux_port_def example_backend_def full_queues_def)
  from wp_succeeds [OF this] show ?thesis by auto
qed

lemma full_queues_reply:
  assumes "length r \<le> VDS_FRAME_MAX_PAYLOAD"
  shows "no_throw (send_frame full_queues FRAME_USB_FEATURE_REPLY r)"
  using assms by (simp add: no_throw_def send_frame_def wp_simps frame_bytes_def Let_def full_queues_frame)

lemma full_queues_answer: "no_throw (handle_bt_control full_queues (Read_bytes [0xa3, i, 1]))"
  using full_queues_reply [of "[i, 1]"]
  by (simp add: no_throw_def handle_bt_control_def read_feature_report_def bt_feature_to_usb_feature_reply_def wp_simps)

lemma full_queues_hit:
  "feature_cached (lk_port w) i \<Longrightarrow> length (feature_cache (lk_port w) i) \<le> VDS_FRAME_MAX_PAYLOAD \<Longrightarrow>
    \<exists>u w'. handle_feature_get full_queues backend [i] w = (Inr u, w')"
  using full_queues_reply [of "feature_cache (lk_port w) i"]
    wp_succeeds [of "handle_feature_get full_queues backend [i]" "\<lambda>_ _. True" w]
  by (simp add: no_throw_def handle_feature_get_def wp_simps)

theorem feature_request_resolved_witness:
  "\<exists>e1 e2. \<exists>w3 :: (unit, unit) link. lk_log w3 = lk_log connected_link @ [Bt_sent Control_channel ''aa:bb:cc:dd:ee:01'' [0x43, 5], e1, e2]
    \<and> replies ''/dev/vds0'' [5, 1] e1 \<and> replies ''/dev/vds0'' [5, 1] e2"
proof -
  have start: "\<not> feature_cached (lk_port connected_link) 5" "lp_path (lk_port connected_link) = ''/dev/vds0''"
    by (simp_all add: connected_link_def example_linux_port_def)
  have control: "0 \<le> bb_control_fd example_backend" "\<not> bb_control_fd example_backend < 0" by (simp_all add: example_backend_def)
  obtain w1 where first: "handle_feature_get full_queues (Some example_backend) [5] connected_link = (Inr (), w1)"
    using full_queues_request by blast
  from wp_returns [OF first wp_feature_miss [OF start(1) control(2)]]
  have waits: "5 \<in> set (pending_feature_reports (lk_port w1))" by simp
  have packet: "bt_feature_to_usb_feature_reply [0xa3, 5, 1] = Some (5 # [1])" "length [0xa3, 5, 1 :: u8] \<le> kBtReadBufferSize"
    by (simp_all add: bt_feature_to_usb_feature_reply_def)
  obtain x w2 where second: "handle_bt_control full_queues (Read_bytes [0xa3, 5, 1]) w1 = (Inr x, w2)"
    using no_throw_returns [OF full_queues_answer] by blast
  from wp_returns [OF second wp_feature_answer [OF packet waits]]
  have "feature_cached (lk_port w2) 5" "length (feature_cache (lk_port w2) 5) \<le> VDS_FRAME_MAX_PAYLOAD" by auto
  from full_queues_hit [OF this] obtain u w3 where
    "handle_feature_get full_queues (Some example_backend) [5] w2 = (Inr u, w3)" by blast
  note resolved = feature_request_resolved [OF start(1) control(1) first packet second this]
  have "bb_address example_backend = ''aa:bb:cc:dd:ee:01''" by (simp add: example_backend_def)
  with resolved start(2) show ?thesis by (simp only: append_Cons append_Nil) blast
qed

end
