(* ===== verification/LinuxDaemon.thy ===== *)
theory LinuxDaemon
  imports LinuxPort ControlRequests
begin

text \<open>
  The Linux daemon around its virtual ports (\<open>src/src/platform/linux/vdsd.cc\<close>): controllers and the
  ports they use, accepting Bluetooth channels, reloading the database, the control socket, and the
  rounds of the event loop. What udev, BlueZ, the sockets and epoll answer is an argument.
\<close>

abbreviation (input) kMaxPortFramesPerWake :: nat where "kMaxPortFramesPerWake \<equiv> 64"
abbreviation (input) kMaxBtPacketsPerWake :: nat where "kMaxBtPacketsPerWake \<equiv> 64"
abbreviation (input) kPendingOutputPollMs :: int where "kPendingOutputPollMs \<equiv> 2"
abbreviation (input) kBluetoothPreemptWait :: int where "kBluetoothPreemptWait \<equiv> 2000000000"

definition kLinuxVirtualPortProviderUnavailable :: string where
  "kLinuxVirtualPortProviderUnavailable =
     ''vds_hcd kernel module is not loaded or no /dev/vds# ports are available''"

section \<open>State and environment\<close>

record controller_rt =
  ct_config :: controller_config
  ct_device :: string
  ct_profile :: "nat option"
  ct_backend :: "bt_backend option"
  ct_pending_control :: "int option"
  ct_pending_interrupt :: "int option"
  ct_connected :: bool
  ct_error :: string

text \<open>
  A virtual port that was moved from is an entry without path: its string and its descriptor are
  empty. The epoll set is what each descriptor was registered with.
\<close>

record ('s, 'd) daemon =
  dm_ports :: "('s, 'd) linux_port list"
  dm_controllers :: "controller_rt list"
  dm_trace_flags :: u32
  dm_reload :: bool
  dm_epoll_dirty :: bool
  dm_epoll :: "(64 word) list option"
  dm_files :: files
  dm_messages :: "log_record list"
  dm_log :: log

record ('s, 'd) daemon_env =
  de_os :: "('s, 'd) os_env"
  de_devices :: "log \<Rightarrow> string list result"
  de_open :: "log \<Rightarrow> string \<Rightarrow> string option"
  de_modalias :: "log \<Rightarrow> string \<Rightarrow> string option result"
  de_owner_present :: "log \<Rightarrow> string \<Rightarrow> bool result"
  de_owner_polls :: "log \<Rightarrow> string \<Rightarrow> (int \<times> bool result) list"
  de_initial :: "log \<Rightarrow> init_answer list"
  de_ba2str :: "bytes \<Rightarrow> string"
  de_db_path :: string
  de_load :: "log \<Rightarrow> os"
  de_control :: "log \<Rightarrow> os \<times> os"
  de_interference :: "log \<Rightarrow> files \<Rightarrow> files"
  de_targets :: "log \<Rightarrow> controller_target list result"
  de_epoll_error :: "log \<Rightarrow> string option"

type_synonym ('s, 'd, 'a) daemon_act = "(('s, 'd) daemon, 'a) act"

definition on_port :: "nat \<Rightarrow> ('s, 'd, 'a) port_act \<Rightarrow> ('s, 'd, 'a) daemon_act" where
  "on_port j m w =
     (case m \<lparr>lk_port = dm_ports w ! j, lk_log = dm_log w\<rparr> of
        (r, l) \<Rightarrow> (r, w\<lparr>dm_ports := (dm_ports w)[j := lk_port l], dm_log := lk_log l\<rparr>))"

definition upd_controller :: "nat \<Rightarrow> (controller_rt \<Rightarrow> controller_rt) \<Rightarrow> ('s, 'd, unit) daemon_act" where
  "upd_controller i f = upd (\<lambda>w. w\<lparr>dm_controllers := (dm_controllers w)[i := f (dm_controllers w ! i)]\<rparr>)"

definition note_event :: "event \<Rightarrow> ('s, 'd, unit) daemon_act" where
  "note_event e = upd (\<lambda>w. w\<lparr>dm_log := dm_log w @ [e]\<rparr>)"

definition epoll_dirty :: "('s, 'd, unit) daemon_act" where
  "epoll_dirty = upd (\<lambda>w. w\<lparr>dm_epoll_dirty := True\<rparr>)"

section \<open>Ports and who uses them\<close>

fun find_first :: "('a \<Rightarrow> bool) \<Rightarrow> 'a list \<Rightarrow> nat option" where
  "find_first P [] = None"
| "find_first P (x # xs) = (if P x then Some 0 else map_option Suc (find_first P xs))"

definition find_port_index :: "('s, 'd) linux_port list \<Rightarrow> string \<Rightarrow> nat option" where
  "find_port_index ports path = find_first (\<lambda>p. lp_path p = path) ports"

definition present_port_indices :: "('s, 'd) linux_port list \<Rightarrow> nat list" where
  "present_port_indices ports = List.map_filter (\<lambda>p. port_index_from_path Linux (lp_path p)) ports"

definition controller_uses_port :: "controller_rt \<Rightarrow> bool" where
  "controller_uses_port c \<longleftrightarrow> ct_backend c \<noteq> None \<or> ct_pending_control c \<noteq> None \<or> ct_pending_interrupt c \<noteq> None
     \<or> ct_connected c"

definition port_used_by_other_controller :: "controller_rt list \<Rightarrow> nat \<Rightarrow> string \<Rightarrow> bool" where
  "port_used_by_other_controller cs self device =
     list_ex (\<lambda>k. k \<noteq> self \<and> ct_device (cs ! k) = device \<and> controller_uses_port (cs ! k)) [0..<length cs]"

definition available_port_index :: "('s, 'd) linux_port list \<Rightarrow> controller_rt list \<Rightarrow> nat \<Rightarrow> nat option" where
  "available_port_index ports cs self =
     (let occupied = List.map_filter (\<lambda>k.
            if k = self \<or> \<not> controller_uses_port (cs ! k) then None
            else port_index_from_path Linux (ct_device (cs ! k))) [0..<length cs] in
      case select_controller_config_port (ct_config (cs ! self)) (present_port_indices ports) occupied of
        None \<Rightarrow> None
      | Some port \<Rightarrow> find_first (\<lambda>p. port_index_from_path Linux (lp_path p) = Some port) ports)"

definition controller_for_port :: "controller_rt list \<Rightarrow> string \<Rightarrow> nat option" where
  "controller_for_port cs device = find_first (\<lambda>c. ct_device c = device \<and> controller_uses_port c) cs"

definition controller_for_address :: "controller_rt list \<Rightarrow> string \<Rightarrow> nat option" where
  "controller_for_address cs address = find_first (\<lambda>c. cc_address (ct_config c) = address) cs"

definition drop_channels :: "controller_rt \<Rightarrow> controller_rt" where
  "drop_channels c = c\<lparr>ct_backend := None, ct_pending_control := None, ct_pending_interrupt := None\<rparr>"

definition release_port :: "controller_rt \<Rightarrow> controller_rt" where
  "release_port c = (drop_channels c)\<lparr>ct_connected := False, ct_device := []\<rparr>"

definition drop_bt_backend :: "('s, 'd) daemon_env \<Rightarrow> nat \<Rightarrow> nat \<Rightarrow> ('s, 'd, unit) daemon_act" where
  "drop_bt_backend env i j =
     with_state (\<lambda>w.
       let c = dm_controllers w ! i in
       if ct_backend c = None \<and> \<not> ct_connected c then ret ()
       else seq_act (on_port j (upd_port clear_pending))
         (seq_act (upd_controller i release_port)
           (on_port j (disconnect_virtual_port (de_os env)))))"

section \<open>The nodes of the kernel module\<close>

definition open_port :: "('s, 'd) os_env \<Rightarrow> string \<Rightarrow> ('s, 'd) linux_port result" where
  "open_port env device =
     bind_result (fresh_extractor env) (\<lambda>ex.
     bind_result (fresh_extractor env) (\<lambda>wex.
     bind_result (os_new_decoder env) (\<lambda>dec.
       Inr \<lparr>lp_path = device, lp_extractor = ex, lp_waveout_extractor = wex, lp_mic_decoder = dec,
         lp_haptics_builder = fresh_builder, lp_output_state = initial_output, pending_audio_chunks = [],
         last_sent_bt_state = None, pending_bt_state = None, pending_bt_state_report = None,
         next_haptics_send_time = 0, audio_out_stream_active = False, audio_in_stream_active = False,
         mic_muted = False, mute_button_down = False, headset_plugged = False, lp_headset_mic_plugged = False,
         speaker_waveout_selected = True, speaker_waveout_active = False, speaker_waveout_phase = 0,
         feature_cache = (\<lambda>_. []), feature_cached = (\<lambda>_. False), pending_feature_reports = [],
         trace_state = no_counts\<rparr>)))"

text \<open>
  The loop of \<open>sync_virtual_ports\<close>: the ports that are kept are moved into the new vector one by
  one; an exception leaves the vector with the entries that were moved from.
\<close>

definition moved_from :: "('s, 'd) linux_port \<Rightarrow> ('s, 'd) linux_port" where
  "moved_from p = p\<lparr>lp_path := []\<rparr>"

fun sync_loop :: "('s, 'd) daemon_env \<Rightarrow> string list \<Rightarrow> ('s, 'd) linux_port list
    \<Rightarrow> ('s, 'd, ('s, 'd) linux_port list) daemon_act" where
  "sync_loop env [] updated = ret updated"
| "sync_loop env (device # devices) updated =
     with_state (\<lambda>w.
       case find_port_index (dm_ports w) device of
         Some j \<Rightarrow>
           seq_act (upd (\<lambda>w. w\<lparr>dm_ports := (dm_ports w)[j := moved_from (dm_ports w ! j)]\<rparr>))
             (sync_loop env devices (updated @ [dm_ports w ! j]))
       | None \<Rightarrow>
           (case de_open env (dm_log w) device of
              Some e \<Rightarrow> throw (Runtime_error (''failed to open '' @ device @ '': '' @ e))
            | None \<Rightarrow> bind_act (lift_result (open_port (de_os env) device)) (\<lambda>p.
                sync_loop env devices (updated @ [p]))))"

definition sync_virtual_ports :: "('s, 'd) daemon_env \<Rightarrow> string list \<Rightarrow> ('s, 'd, unit) daemon_act" where
  "sync_virtual_ports env devices =
     bind_act (sync_loop env devices []) (\<lambda>updated. upd (\<lambda>w. w\<lparr>dm_ports := updated\<rparr>))"

section \<open>Connecting a controller\<close>

definition detect_bluetooth_profile :: "('s, 'd) daemon_env \<Rightarrow> string \<Rightarrow> ('s, 'd, nat) daemon_act" where
  "detect_bluetooth_profile env address =
     with_state (\<lambda>w. lift_result (
       bind_result (de_modalias env (dm_log w) address) (\<lambda>modalias.
         case modalias of
           None \<Rightarrow> Inl (Runtime_error (''failed to query BlueZ modalias for '' @ address))
         | Some text \<Rightarrow>
             (case controller_profile_from_modalias text of
                None \<Rightarrow> Inl (Runtime_error (''failed to detect Bluetooth device ID for '' @ address))
              | Some profile \<Rightarrow> usb_profile_from_controller_profile profile))))"

definition resolve_config_profile :: "('s, 'd) daemon_env \<Rightarrow> controller_config \<Rightarrow> ('s, 'd, nat) daemon_act" where
  "resolve_config_profile env config =
     (if cc_profile config = Unspecified then detect_bluetooth_profile env (cc_address config)
      else lift_result (usb_profile_from_controller_profile (cc_profile config)))"

text \<open>
  Waiting for the default Bluetooth driver to release a device: one pair of the time and whether the
  device is still there per turn of the loop; the list ends with the deadline.
\<close>

fun await_release :: "int \<Rightarrow> (int \<times> bool result) list \<Rightarrow> bool result" where
  "await_release deadline [] = Inr False"
| "await_release deadline ((now, present) # polls) =
     (if now < deadline then bind_result present (\<lambda>present. if present then await_release deadline polls else Inr True)
      else Inr False)"

definition preempt_default_bluetooth_owner :: "('s, 'd) daemon_env \<Rightarrow> string \<Rightarrow> ('s, 'd, unit) daemon_act" where
  "preempt_default_bluetooth_owner env address =
     with_state (\<lambda>w.
       bind_act (lift_result (de_owner_present env (dm_log w) address)) (\<lambda>present.
         if \<not> present then ret ()
         else seq_act (note_event (Owner_disconnected address))
           (with_state (\<lambda>w.
              bind_act (lift_result (await_release (os_clock (de_os env) (dm_log w) + kBluetoothPreemptWait)
                (de_owner_polls env (dm_log w) address))) (\<lambda>_. ret ())))))"

definition send_init_report :: "('s, 'd) os_env \<Rightarrow> bt_backend \<Rightarrow> ('s, 'd, unit) port_act" where
  "send_init_report env b =
     with_port (\<lambda>p. seq_act (on_log (send_output_report env b (build_bt_init_report (lp_output_state p))))
       (upd_port (\<lambda>p. p\<lparr>last_sent_bt_state := Some (state_bytes (lp_output_state p))\<rparr>)))"

definition prepare_port :: "('s, 'd) daemon_env \<Rightarrow> nat \<Rightarrow> bt_backend \<Rightarrow> ('s, 'd, unit) port_act" where
  "prepare_port env profile b =
     seq_act (reset_virtual_port (de_os env))
       (seq_act (port_ioctl (de_os env) Ioc_disconnect ''VDS_IOC_DISCONNECT'')
         (seq_act (port_ioctl (de_os env) (Ioc_set_profile profile) ''VDS_IOC_SET_PROFILE'')
           (seq_act (with_state (\<lambda>l. initialize_bt_controller (de_os env) b (de_initial env (lk_log l))))
             (send_init_report (de_os env) b))))"

definition complete_pending_controller :: "('s, 'd) daemon_env \<Rightarrow> nat \<Rightarrow> nat \<Rightarrow> ('s, 'd, unit) daemon_act" where
  "complete_pending_controller env i j =
     with_state (\<lambda>w.
       let c = dm_controllers w ! i; address = cc_address (ct_config c);
           b = \<lparr>bb_address = address, bb_control_fd = the (ct_pending_control c),
                bb_interrupt_fd = the (ct_pending_interrupt c)\<rparr> in
       bind_act (resolve_config_profile env (ct_config c)) (\<lambda>profile.
         seq_act (preempt_default_bluetooth_owner env address)
           (seq_act (upd_controller i (\<lambda>c. c\<lparr>ct_pending_control := None, ct_pending_interrupt := None\<rparr>))
             (seq_act (on_port j (prepare_port env profile b))
               (seq_act (upd_controller i (\<lambda>c. c\<lparr>ct_backend := Some b, ct_profile := Some profile\<rparr>))
                 (seq_act (on_port j (port_ioctl (de_os env) Ioc_connect ''VDS_IOC_CONNECT''))
                   (upd_controller i (\<lambda>c. c\<lparr>ct_connected := True, ct_error := []\<rparr>))))))))"

text \<open>
  One accepted channel. The port of the controller is the one it has when no other controller uses
  it, or the lowest allowed free one.
\<close>

definition own_port :: "('s, 'd) linux_port list \<Rightarrow> controller_rt list \<Rightarrow> nat \<Rightarrow> nat option" where
  "own_port ports cs i =
     (let device = ct_device (cs ! i) in
      if device = [] \<or> port_used_by_other_controller cs i device then None else find_port_index ports device)"

definition refuse_channel :: "nat \<Rightarrow> string \<Rightarrow> ('s, 'd, bool) daemon_act" where
  "refuse_channel i reason = seq_act (upd_controller i (\<lambda>c. c\<lparr>ct_error := reason\<rparr>)) (ret False)"

definition assign_port :: "nat \<Rightarrow> ('s, 'd, bool) daemon_act" where
  "assign_port i =
     with_state (\<lambda>w.
       if own_port (dm_ports w) (dm_controllers w) i \<noteq> None then ret True
       else if dm_ports w = [] then refuse_channel i kLinuxVirtualPortProviderUnavailable
       else case available_port_index (dm_ports w) (dm_controllers w) i of
         None \<Rightarrow> refuse_channel i ''no available virtual port''
       | Some j \<Rightarrow> seq_act (upd_controller i (\<lambda>c. c\<lparr>ct_device := lp_path (dm_ports w ! j)\<rparr>)) (ret True))"

definition keep_channel :: "bool \<Rightarrow> int \<Rightarrow> controller_rt \<Rightarrow> controller_rt" where
  "keep_channel control fd c =
     (if control then c\<lparr>ct_pending_control := Some fd\<rparr> else c\<lparr>ct_pending_interrupt := Some fd\<rparr>)"

definition connect_failed :: "string \<Rightarrow> controller_rt \<Rightarrow> controller_rt" where
  "connect_failed reason c = (release_port c)\<lparr>ct_error := reason\<rparr>"

definition join_channels :: "('s, 'd) daemon_env \<Rightarrow> nat \<Rightarrow> ('s, 'd, unit) daemon_act" where
  "join_channels env i =
     with_state (\<lambda>w.
       let c = dm_controllers w ! i in
       if ct_pending_control c = None \<or> ct_pending_interrupt c = None then ret ()
       else case find_port_index (dm_ports w) (ct_device c) of
         None \<Rightarrow> upd_controller i (\<lambda>c. c\<lparr>ct_pending_control := None, ct_pending_interrupt := None, ct_device := [],
           ct_error := ''assigned virtual port disappeared''\<rparr>)
       | Some j \<Rightarrow>
           catch_act (seq_act (complete_pending_controller env i j) epoll_dirty)
             (\<lambda>e. upd_controller i (connect_failed (what e))))"

definition accept_channel :: "('s, 'd) daemon_env \<Rightarrow> bool \<Rightarrow> bt_accepted_channel \<Rightarrow> ('s, 'd, unit) daemon_act" where
  "accept_channel env control ch =
     with_state (\<lambda>w.
       case controller_for_address (dm_controllers w) (ba_address ch) of
         None \<Rightarrow> ret ()
       | Some i \<Rightarrow>
           if ct_backend (dm_controllers w ! i) \<noteq> None then ret ()
           else bind_act (assign_port i) (\<lambda>assigned.
             if \<not> assigned then ret ()
             else seq_act (upd_controller i (keep_channel control (ba_fd ch))) (join_channels env i)))"

fun handle_bt_accept :: "('s, 'd) daemon_env \<Rightarrow> bool \<Rightarrow> accept_answer list \<Rightarrow> ('s, 'd, unit) daemon_act" where
  "handle_bt_accept env control [] = ret ()"
| "handle_bt_accept env control (answer # answers) =
     (case accept_l2cap_psm (de_ba2str env) (if control then kHidControlPsm else kHidInterruptPsm) answer of
        Inl e \<Rightarrow> throw e
      | Inr None \<Rightarrow> ret ()
      | Inr (Some ch) \<Rightarrow> seq_act (accept_channel env control ch) (handle_bt_accept env control answers))"

section \<open>Pending output and the time to wait\<close>

text \<open>The ports of the connected controllers.\<close>

definition backed_ports :: "('s, 'd) linux_port list \<Rightarrow> controller_rt list \<Rightarrow> ('s, 'd) linux_port list" where
  "backed_ports ports cs =
     List.map_filter (\<lambda>c. if ct_backend c = None then None
       else map_option ((!) ports) (find_port_index ports (ct_device c))) cs"

definition has_pending_bt_output :: "('s, 'd) linux_port list \<Rightarrow> controller_rt list \<Rightarrow> bool" where
  "has_pending_bt_output ports cs =
     list_ex (\<lambda>p. pending_bt_state_report p \<noteq> None \<or> pending_audio_chunks p \<noteq> [] \<or> speaker_waveout_active p)
       (backed_ports ports cs)"

text \<open>The clock counts nanoseconds; the wait is rounded up to milliseconds.\<close>

fun audio_wait_loop :: "int \<Rightarrow> ('s, 'd) linux_port list \<Rightarrow> int \<Rightarrow> int" where
  "audio_wait_loop now [] timeout = timeout"
| "audio_wait_loop now (p # ps) timeout =
     (if pending_audio_chunks p = [] then audio_wait_loop now ps timeout
      else if next_haptics_send_time p = 0 \<or> next_haptics_send_time p \<le> now then 0
      else audio_wait_loop now ps (min timeout ((next_haptics_send_time p - now + 999999) div 1000000)))"

definition next_wakeup_timeout_ms :: "int \<Rightarrow> ('s, 'd) linux_port list \<Rightarrow> controller_rt list \<Rightarrow> int" where
  "next_wakeup_timeout_ms now ports cs =
     audio_wait_loop now (backed_ports ports cs)
       (if has_pending_bt_output ports cs then min 60000 kPendingOutputPollMs else 60000)"

definition flush_controller :: "('s, 'd) daemon_env \<Rightarrow> nat \<Rightarrow> ('s, 'd, unit) daemon_act" where
  "flush_controller env i =
     with_state (\<lambda>w.
       let c = dm_controllers w ! i in
       case ct_backend c of
         None \<Rightarrow> ret ()
       | Some b \<Rightarrow>
           (case find_port_index (dm_ports w) (ct_device c) of
              None \<Rightarrow> seq_act (upd_controller i release_port) epoll_dirty
            | Some j \<Rightarrow>
                catch_act (on_port j (flush_port (de_os env) b))
                  (\<lambda>e. if is_bluetooth_error e then seq_act (drop_bt_backend env i j) epoll_dirty else throw e)))"

definition for_controllers :: "(nat \<Rightarrow> ('s, 'd, unit) daemon_act) \<Rightarrow> ('s, 'd, unit) daemon_act" where
  "for_controllers f = with_state (\<lambda>w. for_each f [0..<length (dm_controllers w)])"

definition flush_pending_outputs :: "('s, 'd) daemon_env \<Rightarrow> ('s, 'd, unit) daemon_act" where
  "flush_pending_outputs env = for_controllers (flush_controller env)"

end
