(* ===== verification/LinuxLoop.thy ===== *)
theory LinuxLoop
  imports LinuxDaemon
begin

text \<open>
  Reloading the database, the control socket and the rounds of the event loop of the Linux daemon
  (\<open>src/src/platform/linux/vdsd.cc\<close>).
\<close>

section \<open>Reloading the database\<close>

text \<open>Controllers whose node of the kernel module is gone lose their channels.\<close>

definition release_lost :: "('s, 'd) daemon_env \<Rightarrow> string list \<Rightarrow> nat \<Rightarrow> ('s, 'd, unit) daemon_act" where
  "release_lost env devices i =
     with_state (\<lambda>w.
       let c = dm_controllers w ! i in
       if \<not> controller_uses_port c \<or> ct_device c \<in> set devices then ret ()
       else seq_act
         (case find_port_index (dm_ports w) (ct_device c) of
            None \<Rightarrow> ret ()
          | Some j \<Rightarrow> on_port j (disconnect_virtual_port (de_os env)))
         (upd_controller i release_port))"

definition controller_has_present_allowed_port :: "('s, 'd) linux_port list \<Rightarrow> controller_config \<Rightarrow> bool" where
  "controller_has_present_allowed_port ports config =
     controller_config_has_candidate_port config (present_port_indices ports)"

definition fresh_runtime :: "controller_config \<Rightarrow> controller_rt" where
  "fresh_runtime config =
     \<lparr>ct_config = config, ct_device = [], ct_profile = None, ct_backend = None, ct_pending_control = None,
      ct_pending_interrupt = None, ct_connected = False, ct_error = []\<rparr>"

text \<open>The runtime a configuration takes over: the first one not taken yet with its address and profile.\<close>

definition previous_runtime :: "controller_rt list \<Rightarrow> bool list \<Rightarrow> controller_config \<Rightarrow> nat option" where
  "previous_runtime cs preserved config =
     find_first (\<lambda>k. \<not> preserved ! k \<and> cc_address (ct_config (cs ! k)) = cc_address config
       \<and> cc_profile (ct_config (cs ! k)) = cc_profile config) [0..<length cs]"

text \<open>What the loop over the configurations carries: the taken runtimes, the ports in use, the new runtimes.\<close>

type_synonym binding_state = "bool list \<times> string list \<times> controller_rt list"

definition take_over :: "('s, 'd) daemon_env \<Rightarrow> controller_config \<Rightarrow> nat \<Rightarrow> string list
    \<Rightarrow> ('s, 'd, string list \<times> controller_rt) daemon_act" where
  "take_over env config k active =
     with_state (\<lambda>w.
       let old = dm_controllers w ! k;
           device_present = (ct_device old \<noteq> [] \<and> find_port_index (dm_ports w) (ct_device old) \<noteq> None);
           available = (device_present \<and> controller_config_allows_path Linux config (ct_device old)
             \<and> ct_device old \<notin> set active);
           heir = (fresh_runtime config)\<lparr>ct_profile := ct_profile old, ct_error := ct_error old\<rparr> in
       if \<not> controller_uses_port old then ret (active, heir)
       else if available then ret (active @ [ct_device old], old\<lparr>ct_config := config\<rparr>)
       else seq_act
         (case find_port_index (dm_ports w) (ct_device old) of
            Some j \<Rightarrow> if ct_connected old \<and> device_present then on_port j (disconnect_virtual_port (de_os env)) else ret ()
          | None \<Rightarrow> ret ())
         (seq_act (upd_controller k release_port) (ret (active, heir))))"

fun bind_configs :: "('s, 'd) daemon_env \<Rightarrow> bool \<Rightarrow> controller_config list \<Rightarrow> binding_state
    \<Rightarrow> ('s, 'd, binding_state) daemon_act" where
  "bind_configs env provider [] acc = ret acc"
| "bind_configs env provider (config # configs) (preserved, active, heirs) =
     seq_act (if provider then preempt_default_bluetooth_owner env (cc_address config) else ret ())
       (with_state (\<lambda>w.
          case previous_runtime (dm_controllers w) preserved config of
            None \<Rightarrow> bind_configs env provider configs (preserved, active, heirs @ [fresh_runtime config])
          | Some k \<Rightarrow>
              bind_act (take_over env config k active) (\<lambda>(active, heir).
                bind_configs env provider configs (preserved[k := True], active, heirs @ [heir]))))"

definition remove_unbound :: "('s, 'd) daemon_env \<Rightarrow> bool list \<Rightarrow> nat \<Rightarrow> ('s, 'd, unit) daemon_act" where
  "remove_unbound env preserved i =
     with_state (\<lambda>w.
       let c = dm_controllers w ! i in
       if preserved ! i \<or> \<not> ct_connected c then ret ()
       else case find_port_index (dm_ports w) (ct_device c) of
         None \<Rightarrow> ret ()
       | Some j \<Rightarrow> on_port j (disconnect_virtual_port (de_os env)))"

definition reconcile_controller_configs :: "('s, 'd) daemon_env \<Rightarrow> ('s, 'd, unit) daemon_act" where
  "reconcile_controller_configs env =
     with_state (\<lambda>w. bind_act (lift_result (de_devices env (dm_log w))) (\<lambda>devices.
       seq_act (for_controllers (release_lost env devices))
         (seq_act (sync_virtual_ports env devices)
           (with_state (\<lambda>w. bind_act
              (lift_result (load_config_db (de_load env (dm_log w)) (de_db_path env) (dm_files w))) (\<lambda>db.
              bind_act (bind_configs env (devices \<noteq> []) (controllers db)
                  (replicate (length (dm_controllers w)) False, [], [])) (\<lambda>(preserved, active, heirs).
                seq_act (for_controllers (remove_unbound env preserved))
                  (upd (\<lambda>w. w\<lparr>dm_controllers := heirs\<rparr>)))))))))"

section \<open>The control socket\<close>

text \<open>
  One client: the connection is accepted, one \<open>read\<close> of at most 255 bytes is the request, and a
  reply that cannot be written is dropped.
\<close>

datatype client_answer = No_client | Client_failed string | Client_read_failed string | Client_request string

definition controller_statuses :: "controller_rt list \<Rightarrow> vdsd_control_controller_status list" where
  "controller_statuses cs =
     map (\<lambda>c. \<lparr>vc_address = cc_address (ct_config c), vc_connected = ct_connected c,
       vc_path = (if ct_connected c then ct_device c else [])\<rparr>) cs"

definition port_candidates :: "('s, 'd) linux_port list \<Rightarrow> vdsd_control_port_candidate list" where
  "port_candidates ports =
     List.map_filter (\<lambda>p. map_option (\<lambda>k. \<lparr>vk_port = k, vk_path = lp_path p\<rparr>)
       (port_index_from_path Linux (lp_path p))) ports"

definition port_bindings :: "controller_rt list \<Rightarrow> vdsd_control_port_binding list" where
  "port_bindings cs =
     List.map_filter (\<lambda>c. if \<not> controller_uses_port c then None
       else map_option (\<lambda>k. \<lparr>vb_port = k, vb_address = cc_address (ct_config c), vb_device_address = []\<rparr>)
         (port_index_from_path Linux (ct_device c))) cs"

definition control_env_of :: "('s, 'd) daemon_env \<Rightarrow> ('s, 'd) daemon \<Rightarrow> control_env" where
  "control_env_of env w =
     \<lparr>ce_platform = Linux, ce_db_path = de_db_path env, ce_controllers = controller_statuses (dm_controllers w),
      ce_ports = build_vdsd_control_port_statuses (port_candidates (dm_ports w)) (port_bindings (dm_controllers w)),
      ce_list_targets = de_targets env (dm_log w), ce_os_load = fst (de_control env (dm_log w)),
      ce_os_update = snd (de_control env (dm_log w)), ce_interference = de_interference env (dm_log w)\<rparr>"

definition answer_command :: "('s, 'd) daemon_env \<Rightarrow> string \<Rightarrow> ('s, 'd, unit) daemon_act" where
  "answer_command env request =
     with_state (\<lambda>w.
       case handle_vdsd_control_command (control_env_of env w) (trim_command request)
           \<lparr>cs_files = dm_files w, cs_trace_flags = dm_trace_flags w, cs_reload_requested = dm_reload w,
            cs_log = dm_messages w\<rparr> of
         (reply, st) \<Rightarrow>
           seq_act (upd (\<lambda>w. w\<lparr>dm_files := cs_files st, dm_trace_flags := cs_trace_flags st,
               dm_reload := cs_reload_requested st, dm_messages := cs_log st\<rparr>))
             (note_event (Client_reply reply)))"

fun handle_control_client :: "('s, 'd) daemon_env \<Rightarrow> client_answer \<Rightarrow> ('s, 'd, unit) daemon_act" where
  "handle_control_client env No_client = ret ()"
| "handle_control_client env (Client_failed e) = throw (Runtime_error (''accept control client failed: '' @ e))"
| "handle_control_client env (Client_read_failed e) = throw (Runtime_error (''read control client failed: '' @ e))"
| "handle_control_client env (Client_request request) =
     (if request = [] then ret () else answer_command env (take 255 request))"

section \<open>Events\<close>

datatype event_type =
  Ev_control | Ev_port | Ev_bt_control | Ev_bt_interrupt | Ev_accept_control | Ev_accept_interrupt | Ev_udev

fun event_code :: "event_type \<Rightarrow> 64 word" where
  "event_code Ev_control = 1"
| "event_code Ev_port = 2"
| "event_code Ev_bt_control = 3"
| "event_code Ev_bt_interrupt = 4"
| "event_code Ev_accept_control = 5"
| "event_code Ev_accept_interrupt = 6"
| "event_code Ev_udev = 7"

definition encode_event :: "event_type \<Rightarrow> nat \<Rightarrow> 64 word" where
  "encode_event t index = push_bit 32 (event_code t) OR take_bit 32 (of_nat index)"

definition event_type_of :: "64 word \<Rightarrow> event_type option" where
  "event_type_of code =
     (if code = 1 then Some Ev_control else if code = 2 then Some Ev_port else if code = 3 then Some Ev_bt_control
      else if code = 4 then Some Ev_bt_interrupt else if code = 5 then Some Ev_accept_control
      else if code = 6 then Some Ev_accept_interrupt else if code = 7 then Some Ev_udev else None)"

definition decode_event :: "64 word \<Rightarrow> event_type option \<times> nat" where
  "decode_event data = (event_type_of (drop_bit 32 data), unat (take_bit 32 data))"

text \<open>
  \<open>rebuild_epoll\<close>: the listeners, every port and both channels of every connected controller. A
  port that was moved from has no descriptor, which epoll refuses.
\<close>

definition epoll_set :: "('s, 'd) linux_port list \<Rightarrow> controller_rt list \<Rightarrow> (64 word) list" where
  "epoll_set ports cs =
     [encode_event Ev_control 0, encode_event Ev_udev 0, encode_event Ev_accept_control 0,
      encode_event Ev_accept_interrupt 0]
     @ map (encode_event Ev_port) [0..<length ports]
     @ concat (map (\<lambda>i. if ct_backend (cs ! i) = None then []
         else [encode_event Ev_bt_control i, encode_event Ev_bt_interrupt i]) [0..<length cs])"

definition rebuild_epoll :: "('s, 'd) daemon_env \<Rightarrow> ('s, 'd, unit) daemon_act" where
  "rebuild_epoll env =
     with_state (\<lambda>w.
       case de_epoll_error env (dm_log w) of
         Some e \<Rightarrow> throw (Runtime_error (''epoll_create1 failed: '' @ e))
       | None \<Rightarrow>
           if list_ex (\<lambda>p. lp_path p = []) (dm_ports w)
           then throw (Runtime_error ''epoll add failed: Bad file descriptor'')
           else upd (\<lambda>w. w\<lparr>dm_epoll := Some (epoll_set (dm_ports w) (dm_controllers w)), dm_epoll_dirty := False\<rparr>))"

text \<open>An event with what the calls its handler makes will answer.\<close>

record ready_event =
  re_data :: "64 word"
  re_in :: bool
  re_error :: bool
  re_client :: client_answer
  re_accepts :: "accept_answer list"
  re_reads :: "read_answer list"
  re_drained :: bool

text \<open>A handler is called until it has nothing more to read, and a bounded number of times per wake.\<close>

fun drain_reads :: "('x \<Rightarrow> ('w, bool) act) \<Rightarrow> 'x list \<Rightarrow> ('w, unit) act" where
  "drain_reads f [] = ret ()"
| "drain_reads f (x # xs) = bind_act (f x) (\<lambda>more. if more then drain_reads f xs else ret ())"

definition request_reload :: "('s, 'd, unit) daemon_act" where
  "request_reload = upd (\<lambda>w. w\<lparr>dm_reload := True, dm_epoll_dirty := True\<rparr>)"

definition lost_channel :: "('s, 'd) daemon_env \<Rightarrow> nat \<Rightarrow> nat \<Rightarrow> ('s, 'd, unit) daemon_act" where
  "lost_channel env i j = seq_act (drop_bt_backend env i j) epoll_dirty"

definition serve_port :: "('s, 'd) daemon_env \<Rightarrow> nat \<Rightarrow> ready_event \<Rightarrow> ('s, 'd, unit) daemon_act" where
  "serve_port env j e =
     with_state (\<lambda>w.
       if j \<ge> length (dm_ports w) then ret ()
       else
         (let owner = controller_for_port (dm_controllers w) (lp_path (dm_ports w ! j));
              backend = Option.bind owner (\<lambda>i. ct_backend (dm_controllers w ! i)) in
          seq_act
            (if re_in e then
               catch_act
                 (drain_reads (\<lambda>answer. on_port j (handle_vds_frame (de_os env) backend answer))
                   (take kMaxPortFramesPerWake (re_reads e)))
                 (\<lambda>ex. case owner of
                    Some i \<Rightarrow> if is_bluetooth_error ex then lost_channel env i j else throw ex
                  | None \<Rightarrow> throw ex)
             else ret ())
            (if re_error e then request_reload else ret ())))"

definition serve_channel ::
    "('s, 'd) daemon_env \<Rightarrow> (bt_backend \<Rightarrow> read_answer \<Rightarrow> ('s, 'd, bool) port_act) \<Rightarrow> nat \<Rightarrow> ready_event
      \<Rightarrow> ('s, 'd, unit) daemon_act" where
  "serve_channel env handler i e =
     with_state (\<lambda>w.
       if i \<ge> length (dm_controllers w) then ret ()
       else case ct_backend (dm_controllers w ! i) of
         None \<Rightarrow> ret ()
       | Some b \<Rightarrow>
           (case find_port_index (dm_ports w) (ct_device (dm_controllers w ! i)) of
              None \<Rightarrow> seq_act (upd_controller i (\<lambda>c. c\<lparr>ct_backend := None, ct_connected := False\<rparr>)) epoll_dirty
            | Some j \<Rightarrow>
                seq_act
                  (if re_in e then
                     catch_act
                       (drain_reads (\<lambda>answer. on_port j (handler b answer)) (take kMaxBtPacketsPerWake (re_reads e)))
                       (\<lambda>ex. if is_bluetooth_error ex then lost_channel env i j else throw ex)
                   else ret ())
                  (if re_error e then lost_channel env i j else ret ())))"

definition handle_event :: "('s, 'd) daemon_env \<Rightarrow> ready_event \<Rightarrow> ('s, 'd, unit) daemon_act" where
  "handle_event env e =
     (case decode_event (re_data e) of
        (Some Ev_control, _) \<Rightarrow>
          seq_act (if re_in e then handle_control_client env (re_client e) else ret ())
            (if re_error e then throw (Runtime_error ''control socket epoll error'') else ret ())
      | (Some Ev_accept_control, _) \<Rightarrow>
          seq_act (if re_in e then handle_bt_accept env True (re_accepts e) else ret ())
            (if re_error e then throw (Runtime_error ''Bluetooth listener epoll error'') else ret ())
      | (Some Ev_accept_interrupt, _) \<Rightarrow>
          seq_act (if re_in e then handle_bt_accept env False (re_accepts e) else ret ())
            (if re_error e then throw (Runtime_error ''Bluetooth listener epoll error'') else ret ())
      | (Some Ev_udev, _) \<Rightarrow>
          seq_act (if re_in e \<and> re_drained e then request_reload else ret ())
            (if re_error e then throw (Runtime_error ''udev monitor epoll error'') else ret ())
      | (Some Ev_port, j) \<Rightarrow> serve_port env j e
      | (Some Ev_bt_control, i) \<Rightarrow> serve_channel env (\<lambda>b. handle_bt_control (de_os env)) i e
      | (Some Ev_bt_interrupt, i) \<Rightarrow> serve_channel env (handle_bt_input (de_os env)) i e
      | (None, i) \<Rightarrow> serve_channel env (handle_bt_input (de_os env)) i (e\<lparr>re_in := False, re_error := False\<rparr>))"

section \<open>The rounds of the loop\<close>

datatype epoll_answer = Epoll_interrupted | Epoll_failed string | Epoll_events "ready_event list"

definition reload_if_requested :: "('s, 'd) daemon_env \<Rightarrow> ('s, 'd, unit) daemon_act" where
  "reload_if_requested env =
     with_state (\<lambda>w.
       if dm_reload w then
         seq_act (catch_act (seq_act (reconcile_controller_configs env) epoll_dirty) (\<lambda>_. ret ()))
           (upd (\<lambda>w. w\<lparr>dm_reload := False\<rparr>))
       else ret ())"

definition daemon_round :: "('s, 'd) daemon_env \<Rightarrow> epoll_answer \<Rightarrow> ('s, 'd, unit) daemon_act" where
  "daemon_round env answer =
     seq_act (reload_if_requested env)
       (seq_act (with_state (\<lambda>w. if dm_epoll_dirty w \<or> dm_epoll w = None then rebuild_epoll env else ret ()))
         (case answer of
            Epoll_interrupted \<Rightarrow> ret ()
          | Epoll_failed e \<Rightarrow> throw (Runtime_error (''epoll_wait failed: '' @ e))
          | Epoll_events events \<Rightarrow>
              seq_act (for_each (handle_event env) events) (flush_pending_outputs env)))"

definition disconnect_all :: "('s, 'd) daemon_env \<Rightarrow> ('s, 'd, unit) daemon_act" where
  "disconnect_all env =
     seq_act
       (for_controllers (\<lambda>i. with_state (\<lambda>w.
          let c = dm_controllers w ! i in
          if \<not> ct_connected c then ret ()
          else seq_act
            (case find_port_index (dm_ports w) (ct_device c) of
               None \<Rightarrow> ret ()
             | Some j \<Rightarrow> on_port j (disconnect_virtual_port (de_os env)))
            (upd_controller i (\<lambda>c. c\<lparr>ct_connected := False\<rparr>)))))
       (upd (\<lambda>w. w\<lparr>dm_controllers := []\<rparr>))"

text \<open>The daemon starts without ports and controllers and loads its database in the first round.\<close>

definition daemon_start :: "files \<Rightarrow> ('s, 'd) daemon" where
  "daemon_start fs =
     \<lparr>dm_ports = [], dm_controllers = [], dm_trace_flags = 0, dm_reload = True, dm_epoll_dirty = True,
      dm_epoll = None, dm_files = fs, dm_messages = [], dm_log = []\<rparr>"

fun daemon_rounds :: "('s, 'd) daemon_env \<Rightarrow> epoll_answer list \<Rightarrow> ('s, 'd, unit) daemon_act" where
  "daemon_rounds env [] = ret ()"
| "daemon_rounds env (answer # answers) = seq_act (daemon_round env answer) (daemon_rounds env answers)"

definition daemon_main :: "('s, 'd) daemon_env \<Rightarrow> epoll_answer list \<Rightarrow> ('s, 'd, unit) daemon_act" where
  "daemon_main env answers =
     with_state (\<lambda>w. bind_act (lift_result (de_devices env (dm_log w))) (\<lambda>devices.
       if devices = [] then throw (Runtime_error kLinuxVirtualPortProviderUnavailable)
       else seq_act (daemon_rounds env answers) (disconnect_all env)))"

end
