(* ===== verification/LinuxRuntime.thy ===== *)
theory LinuxRuntime
  imports LinuxDelivery LinuxLoop
begin

text \<open>
  What holds of the Linux daemon between the handlers of its event loop: which controller uses which
  virtual port, and that every connected controller gets the newest output state of its port. The
  handlers keep it on every path, the exceptions they catch included.
\<close>

section \<open>Weakest preconditions of the steps of the daemon\<close>

lemma wp_on_port [wp_simps]:
  "wp (on_port j m) Q E w =
    wp m (\<lambda>x l. Q x (w\<lparr>dm_ports := (dm_ports w)[j := lk_port l], dm_log := lk_log l\<rparr>))
      (\<lambda>e l. E e (w\<lparr>dm_ports := (dm_ports w)[j := lk_port l], dm_log := lk_log l\<rparr>))
      \<lparr>lk_port = dm_ports w ! j, lk_log = dm_log w\<rparr>"
  by (simp add: wp_def on_port_def split: prod.split sum.split)

lemma wp_upd_controller [wp_simps]:
  "wp (upd_controller i f) Q E w = Q () (w\<lparr>dm_controllers := (dm_controllers w)[i := f (dm_controllers w ! i)]\<rparr>)"
  by (simp add: upd_controller_def wp_simps)

lemma wp_note_event [wp_simps]: "wp (note_event e) Q E w = Q () (w\<lparr>dm_log := dm_log w @ [e]\<rparr>)"
  by (simp add: note_event_def wp_simps)

lemma wp_epoll_dirty [wp_simps]: "wp epoll_dirty Q E w = Q () (w\<lparr>dm_epoll_dirty := True\<rparr>)"
  by (simp add: epoll_dirty_def wp_simps)

text \<open>A loop over the controllers, with what holds after the first \<open>k\<close> turns.\<close>

lemma wp_for_upt:
  assumes "\<And>k w. k < n \<Longrightarrow> P k w \<Longrightarrow> wp (f k) (\<lambda>_. P (Suc k)) E w" and "P k w" and "k \<le> n"
  shows "wp (for_each f [k..<n]) (\<lambda>_. P n) E w"
  using assms(2,3)
proof (induction "n - k" arbitrary: k w)
  case 0
  then show ?case by (simp add: wp_simps)
next
  case (Suc d)
  then have k: "k < n" "[k..<n] = k # [Suc k..<n]" by (simp_all add: upt_rec)
  have "wp (for_each f [Suc k..<n]) (\<lambda>_. P n) E w'" if "P (Suc k) w'" for w'
    using Suc.hyps(1) [of "Suc k" w'] Suc.hyps(2) that k by simp
  with assms(1) [OF k(1) Suc.prems(1)] show ?case
    unfolding k(2) by (auto simp: wp_simps intro: wp_mono)
qed

lemma wp_for_controllers:
  assumes "\<And>k w. k < n \<Longrightarrow> P k w \<Longrightarrow> wp (f k) (\<lambda>_. P (Suc k)) E w" and "P 0 w" and "length (dm_controllers w) = n"
  shows "wp (for_controllers f) (\<lambda>_. P n) E w"
  using wp_for_upt [of n P f E 0 w] assms by (simp add: for_controllers_def wp_simps)

section \<open>The first entry\<close>

lemma find_first_Some:
  "find_first P xs = Some i \<longleftrightarrow> i < length xs \<and> P (xs ! i) \<and> (\<forall>k<i. \<not> P (xs ! k))"
  by (induction xs arbitrary: i) (auto simp: nth_Cons less_Suc_eq_0_disj split: nat.splits)

lemma find_first_None: "find_first P xs = None \<longleftrightarrow> (\<forall>x \<in> set xs. \<not> P x)"
  by (induction xs) auto

lemma find_first_update:
  "P y = P (xs ! j) \<Longrightarrow> find_first P (xs[j := y]) = find_first P xs"
  by (induction xs arbitrary: j) (auto split: nat.split)

lemma find_port_Some: "find_port_index ports d = Some j \<Longrightarrow> j < length ports \<and> lp_path (ports ! j) = d"
  by (simp add: find_port_index_def find_first_Some)

lemma find_port_update [simp]:
  "lp_path p = lp_path (ports ! j) \<Longrightarrow> find_port_index (ports[j := p]) d = find_port_index ports d"
  unfolding find_port_index_def by (rule find_first_update) simp

lemma paths_update [simp]: "lp_path p = lp_path (ports ! j) \<Longrightarrow> map lp_path (ports[j := p]) = map lp_path ports"
  by (metis list_update_id map_update)

section \<open>The invariant\<close>

text \<open>
  A controller uses only a port its configuration allows; its backend is the connection of its own
  address, and it is connected exactly when it has one.
\<close>

definition rt_ok :: "controller_rt \<Rightarrow> bool" where
  "rt_ok c \<longleftrightarrow> wf_config (ct_config c)
     \<and> (ct_device c \<noteq> [] \<longrightarrow> controller_config_allows_path Linux (ct_config c) (ct_device c))
     \<and> (controller_uses_port c \<longrightarrow> ct_device c \<noteq> [])
     \<and> (\<forall>b. ct_backend c = Some b \<longrightarrow> ct_pending_control c = None \<and> ct_pending_interrupt c = None
          \<and> bb_address b = cc_address (ct_config c))
     \<and> (ct_connected c \<longleftrightarrow> ct_backend c \<noteq> None)
     \<and> (\<forall>fd. ct_pending_interrupt c = Some fd \<longrightarrow> 0 \<le> fd)"

text \<open>No other controller uses the device of a controller.\<close>

definition sole :: "controller_rt list \<Rightarrow> nat \<Rightarrow> bool" where
  "sole cs i \<longleftrightarrow> (\<forall>k < length cs. k \<noteq> i \<longrightarrow> controller_uses_port (cs ! k) \<longrightarrow> ct_device (cs ! k) \<noteq> ct_device (cs ! i))"

definition users_distinct :: "controller_rt list \<Rightarrow> bool" where
  "users_distinct cs \<longleftrightarrow> (\<forall>i < length cs. controller_uses_port (cs ! i) \<longrightarrow> sole cs i)"

text \<open>The port of a connected controller has its newest state delivered or waiting.\<close>

definition served :: "('s, 'd) linux_port list \<Rightarrow> log \<Rightarrow> controller_rt \<Rightarrow> bool" where
  "served ports l c \<longleftrightarrow> (\<forall>b j. ct_backend c = Some b \<and> find_port_index ports (ct_device c) = Some j \<longrightarrow>
     synced (ports ! j) \<and> accepted b (ports ! j) l)"

definition addresses :: "controller_rt list \<Rightarrow> string list" where
  "addresses cs = map (\<lambda>c. cc_address (ct_config c)) cs"

text \<open>Ports have different paths; only ports that were moved from have none.\<close>

definition paths_ok :: "string list \<Rightarrow> bool" where
  "paths_ok paths \<longleftrightarrow> distinct (filter (\<lambda>path. path \<noteq> []) paths)"

text \<open>\<open>X\<close> holds the controllers whose port is in the middle of an operation that threw.\<close>

definition runtime_ok :: "nat set \<Rightarrow> ('s, 'd) daemon \<Rightarrow> bool" where
  "runtime_ok X w \<longleftrightarrow> list_all rt_ok (dm_controllers w) \<and> distinct (addresses (dm_controllers w))
     \<and> users_distinct (dm_controllers w) \<and> list_all port_ok (dm_ports w) \<and> paths_ok (map lp_path (dm_ports w))
     \<and> (\<forall>k < length (dm_controllers w). k \<notin> X \<longrightarrow> served (dm_ports w) (dm_log w) (dm_controllers w ! k))"

lemma rt_okD:
  assumes "rt_ok c"
  shows "wf_config (ct_config c)" "canonical_address (cc_address (ct_config c))" "cc_address (ct_config c) \<noteq> []"
    "ct_device c \<noteq> [] \<Longrightarrow> controller_config_allows_path Linux (ct_config c) (ct_device c)"
    "controller_uses_port c \<Longrightarrow> ct_device c \<noteq> []"
    "ct_backend c = Some b \<Longrightarrow> bb_address b = cc_address (ct_config c)"
    "ct_backend c = Some b \<Longrightarrow> ct_pending_control c = None \<and> ct_pending_interrupt c = None"
    "ct_connected c \<longleftrightarrow> ct_backend c \<noteq> None"
    "ct_pending_interrupt c = Some fd \<Longrightarrow> 0 \<le> fd"
  using assms canonical_length [of "cc_address (ct_config c)"] by (auto simp: rt_ok_def wf_config_def)

lemma runtime_okD:
  assumes "runtime_ok X w"
  shows "k < length (dm_controllers w) \<Longrightarrow> rt_ok (dm_controllers w ! k)"
    "distinct (addresses (dm_controllers w))" "users_distinct (dm_controllers w)"
    "j < length (dm_ports w) \<Longrightarrow> port_ok (dm_ports w ! j)"
    "k < length (dm_controllers w) \<Longrightarrow> k \<notin> X \<Longrightarrow> served (dm_ports w) (dm_log w) (dm_controllers w ! k)"
    "paths_ok (map lp_path (dm_ports w))"
  using assms by (simp_all add: runtime_ok_def list_all_length)

lemma runtime_ok_mono: "runtime_ok X w \<Longrightarrow> X \<subseteq> Y \<Longrightarrow> runtime_ok Y w"
  by (auto simp: runtime_ok_def)

lemma runtime_ok_frame [simp]:
  "runtime_ok X (w\<lparr>dm_epoll_dirty := d\<rparr>) = runtime_ok X w"
  "runtime_ok X (w\<lparr>dm_reload := d\<rparr>) = runtime_ok X w"
  "runtime_ok X (w\<lparr>dm_epoll := e\<rparr>) = runtime_ok X w"
  "runtime_ok X (w\<lparr>dm_trace_flags := t\<rparr>) = runtime_ok X w"
  "runtime_ok X (w\<lparr>dm_files := fs\<rparr>) = runtime_ok X w"
  "runtime_ok X (w\<lparr>dm_messages := ms\<rparr>) = runtime_ok X w"
  by (simp_all add: runtime_ok_def)

lemma address_distinct:
  "runtime_ok X w \<Longrightarrow> i < length (dm_controllers w) \<Longrightarrow> k < length (dm_controllers w) \<Longrightarrow> k \<noteq> i \<Longrightarrow>
    cc_address (ct_config (dm_controllers w ! k)) \<noteq> cc_address (ct_config (dm_controllers w ! i))"
  using runtime_okD(2) [of X w] by (auto simp: addresses_def distinct_conv_nth)

text \<open>A controller changes.\<close>

lemma runtime_ok_update:
  assumes "runtime_ok (insert i X) w" and "i < length (dm_controllers w)" and "rt_ok c"
    and "ct_config c = ct_config (dm_controllers w ! i)"
    and "controller_uses_port c \<Longrightarrow> sole ((dm_controllers w)[i := c]) i"
    and "served (dm_ports w) (dm_log w) c"
  shows "runtime_ok X (w\<lparr>dm_controllers := (dm_controllers w)[i := c]\<rparr>)"
proof -
  let ?cs = "dm_controllers w"
  have "addresses (?cs[i := c]) = addresses ?cs"
    using assms(2,4) by (auto simp: addresses_def map_update intro!: nth_equalityI simp: nth_list_update)
  moreover have "users_distinct (?cs[i := c])"
    unfolding users_distinct_def
  proof (intro allI impI)
    fix k
    assume k: "k < length (?cs[i := c])" and uses: "controller_uses_port (?cs[i := c] ! k)"
    show "sole (?cs[i := c]) k"
    proof (cases "k = i")
      case True
      with uses assms(2,5) show ?thesis by simp
    next
      case False
      with k uses runtime_okD(3) [OF assms(1)] have "sole ?cs k" by (simp add: users_distinct_def)
      with False uses k assms(2,5) show ?thesis by (fastforce simp: sole_def nth_list_update)
    qed
  qed
  ultimately show ?thesis
    using assms by (auto simp: runtime_ok_def list_all_length nth_list_update)
qed

text \<open>A controller that stops using its port.\<close>

lemma runtime_ok_release:
  assumes "runtime_ok (insert i X) w" and "\<not> controller_uses_port (f (dm_controllers w ! i))"
    and "rt_ok (dm_controllers w ! i) \<Longrightarrow> rt_ok (f (dm_controllers w ! i))"
    and "ct_config (f (dm_controllers w ! i)) = ct_config (dm_controllers w ! i)"
  shows "runtime_ok X (w\<lparr>dm_controllers := (dm_controllers w)[i := f (dm_controllers w ! i)]\<rparr>)"
proof (cases "i < length (dm_controllers w)")
  case True
  with assms show ?thesis
    by (intro runtime_ok_update) (auto simp: runtime_okD(1) served_def controller_uses_port_def)
next
  case False
  then have "(dm_controllers w)[i := f (dm_controllers w ! i)] = dm_controllers w"
    by (simp add: list_update_beyond)
  with False assms(1) show ?thesis by (auto simp: runtime_ok_def)
qed

section \<open>An operation on one port\<close>

text \<open>The controllers an operation of backend \<open>b\<close> on the port \<open>path\<close> cannot touch.\<close>

definition elsewhere :: "bt_backend \<Rightarrow> string \<Rightarrow> controller_rt \<Rightarrow> bool" where
  "elsewhere b path c \<longleftrightarrow> (ct_backend c \<noteq> None \<longrightarrow> ct_device c \<noteq> path \<and> cc_address (ct_config c) \<noteq> bb_address b)"

lemma placed_aside:
  "placed b path e \<Longrightarrow> bb_address b' \<noteq> bb_address b \<Longrightarrow> aside b' e"
  by (auto simp: placed_def aside_def)

lemma accepted_extend: "accepted b p l \<Longrightarrow> list_all (aside b) es \<Longrightarrow> accepted b p (l @ es)"
proof (induction es rule: rev_induct)
  case (snoc e es)
  then show ?case using accepted_aside [of b p "l @ es" e] by simp
qed simp

lemma served_elsewhere:
  assumes "served ports l c" and "rt_ok c" and "elsewhere b path c" and "list_all (placed b path) es"
    and "lp_path (ports ! j) = path" and "lp_path p = path"
  shows "served (ports[j := p]) (l @ es) c"
  unfolding served_def
proof (intro allI impI, elim conjE)
  fix b' k
  assume b': "ct_backend c = Some b'" and k: "find_port_index (ports[j := p]) (ct_device c) = Some k"
  with assms(5,6) have found: "find_port_index ports (ct_device c) = Some k" by simp
  from b' assms(2,3) have "ct_device c \<noteq> path" "bb_address b' \<noteq> bb_address b"
    by (simp_all add: elsewhere_def rt_okD)
  then have "k \<noteq> j" "list_all (aside b') es"
    using find_port_Some [OF found] assms(4,5) by (auto simp: list_all_iff intro: placed_aside)
  moreover have "synced (ports ! k) \<and> accepted b' (ports ! k) l"
    using assms(1) b' found by (simp add: served_def)
  ultimately show "synced (ports[j := p] ! k) \<and> accepted b' (ports[j := p] ! k) (l @ es)"
    by (simp add: accepted_extend)
qed

lemma runtime_ok_port:
  assumes "runtime_ok X w" and "port_ok p" and "lp_path p = lp_path (dm_ports w ! j)"
    and "l = dm_log w @ es" and "list_all (placed b (lp_path (dm_ports w ! j))) es"
    and "\<And>k. k < length (dm_controllers w) \<Longrightarrow> k \<notin> X \<Longrightarrow> elsewhere b (lp_path (dm_ports w ! j)) (dm_controllers w ! k)"
  shows "runtime_ok X (w\<lparr>dm_ports := (dm_ports w)[j := p], dm_log := l\<rparr>)"
proof -
  have "list_all port_ok ((dm_ports w)[j := p])"
    using assms(1,2) by (cases "j < length (dm_ports w)") (auto simp: runtime_ok_def list_all_length nth_list_update)
  moreover have "served ((dm_ports w)[j := p]) l (dm_controllers w ! k)"
    if "k < length (dm_controllers w)" "k \<notin> X" for k
    unfolding assms(4) using runtime_okD [OF assms(1)] assms(3,5,6) that by (intro served_elsewhere) auto
  ultimately show ?thesis using assms(1,3) by (simp add: runtime_ok_def del: map_update)
qed

text \<open>A connected controller with its backend and its port.\<close>

definition backed :: "nat \<Rightarrow> bt_backend \<Rightarrow> nat \<Rightarrow> ('s, 'd) daemon \<Rightarrow> bool" where
  "backed i b j w \<longleftrightarrow> i < length (dm_controllers w) \<and> ct_backend (dm_controllers w ! i) = Some b
     \<and> find_port_index (dm_ports w) (ct_device (dm_controllers w ! i)) = Some j"

lemma backed_others:
  assumes "runtime_ok X w" and "backed i b j w" and "k < length (dm_controllers w)" and "k \<noteq> i"
  shows "elsewhere b (lp_path (dm_ports w ! j)) (dm_controllers w ! k)"
proof -
  have path: "lp_path (dm_ports w ! j) = ct_device (dm_controllers w ! i)"
    using assms(2) by (auto simp: backed_def dest: find_port_Some)
  have "bb_address b = cc_address (ct_config (dm_controllers w ! i))"
    using assms(1,2) by (auto simp: backed_def dest: runtime_okD(1) rt_okD(6))
  moreover have "cc_address (ct_config (dm_controllers w ! k)) \<noteq> cc_address (ct_config (dm_controllers w ! i))"
    using assms by (intro address_distinct) (auto simp: backed_def)
  moreover have "sole (dm_controllers w) i"
    using assms(2) runtime_okD(3) [OF assms(1)] by (auto simp: users_distinct_def backed_def controller_uses_port_def)
  ultimately show ?thesis
    using assms(3,4) path by (auto simp: elsewhere_def sole_def controller_uses_port_def)
qed

text \<open>A handler of a controller leaves the other controllers and the nodes alone.\<close>

definition within :: "nat \<Rightarrow> ('s, 'd) daemon \<Rightarrow> ('s, 'd) daemon \<Rightarrow> bool" where
  "within i w0 w \<longleftrightarrow> map lp_path (dm_ports w) = map lp_path (dm_ports w0)
     \<and> (\<exists>c. dm_controllers w = (dm_controllers w0)[i := c])"

lemma within_refl [simp]: "within i w w"
  by (auto simp: within_def intro: exI [of _ "dm_controllers w ! i"])

lemma within_trans: "within i w0 w \<Longrightarrow> within i w w' \<Longrightarrow> within i w0 w'"
  by (auto simp: within_def)

lemma within_port:
  "within i w0 w \<Longrightarrow> lp_path p = lp_path (dm_ports w ! j) \<Longrightarrow> within i w0 (w\<lparr>dm_ports := (dm_ports w)[j := p], dm_log := l\<rparr>)"
  by (auto simp: within_def simp del: list_update_id map_update)

lemma within_controller:
  "within i w0 w \<Longrightarrow> within i w0 (w\<lparr>dm_controllers := (dm_controllers w)[i := c]\<rparr>)"
  by (auto simp: within_def)

lemma within_dirty [simp]: "within i w0 (w\<lparr>dm_epoll_dirty := d\<rparr>) = within i w0 w"
  by (simp add: within_def)

text \<open>What the handlers of a port promise, with its controller.\<close>

definition serves :: "bt_backend \<Rightarrow> ('s, 'd, 'a) port_act \<Rightarrow> bool" where
  "serves b m \<longleftrightarrow>
     (\<forall>path l. keeps (\<lambda>w. link_ok w \<and> stays b path l (lk_port w) (lk_log w)) m)
     \<and> returns_with (\<lambda>w. link_ok w \<and> synced (lk_port w) \<and> accepted b (lk_port w) (lk_log w)) m
         (\<lambda>w. synced (lk_port w) \<and> accepted b (lk_port w) (lk_log w))"

lemma servesI:
  assumes "\<And>path l. keeps (\<lambda>w. link_ok w \<and> stays b path l (lk_port w) (lk_log w)) m"
    and "keeps (\<lambda>w. link_ok w \<and> accepted b (lk_port w) (lk_log w)) m"
    and "returns_with port_synced m port_synced"
  shows "serves b m"
proof -
  have "returns_with (\<lambda>w. link_ok w \<and> synced (lk_port w) \<and> accepted b (lk_port w) (lk_log w)) m
      (\<lambda>w. (link_ok w \<and> accepted b (lk_port w) (lk_log w)) \<and> synced (lk_port w))"
    by (rule returns_conj) (rule returns_weaken [OF keeps_returns [OF assms(2)]] returns_weaken [OF assms(3)]; simp)+
  then have "returns_with (\<lambda>w. link_ok w \<and> synced (lk_port w) \<and> accepted b (lk_port w) (lk_log w)) m
      (\<lambda>w. synced (lk_port w) \<and> accepted b (lk_port w) (lk_log w))"
    by (rule returns_weaken) auto
  with assms(1) show ?thesis by (simp add: serves_def)
qed

lemma handlers_serve:
  "serves b (handle_vds_frame env (Some b) answer)" "serves b (handle_bt_input env b answer)"
  "serves b (handle_bt_control env answer)" "serves b (flush_port env b)"
  by (rule servesI; rule locality.K_vds_frame locality.K_bt_input locality.K_bt_control locality.K_flush_port
      acceptance.K_vds_frame acceptance.K_bt_input acceptance.K_bt_control acceptance.K_flush_port
      vds_frame_syncs bt_input_syncs keeps_returns [OF bt_control_syncs] keeps_returns [OF flush_port_syncs]; simp)+

lemma serve_step:
  assumes serves: "serves b m" and ok: "runtime_ok {} w" and backed: "backed i b j w"
  shows "wp (on_port j m) (\<lambda>_ w'. runtime_ok {} w' \<and> backed i b j w' \<and> within i w w')
    (\<lambda>_ w'. runtime_ok {i} w' \<and> backed i b j w' \<and> within i w w') w"
proof -
  let ?p = "dm_ports w ! j" and ?path = "lp_path (dm_ports w ! j)" and ?l0 = "\<lparr>lk_port = dm_ports w ! j, lk_log = dm_log w\<rparr>"
  let ?after = "\<lambda>l. w\<lparr>dm_ports := (dm_ports w)[j := lk_port l], dm_log := lk_log l\<rparr>"
  let ?stays = "\<lambda>l. link_ok l \<and> stays b ?path (dm_log w) (lk_port l) (lk_log l)"
  let ?served = "\<lambda>l. synced (lk_port l) \<and> accepted b (lk_port l) (lk_log l)"
  from backed have j: "j < length (dm_ports w)" and i: "i < length (dm_controllers w)"
    by (auto simp: backed_def dest: find_port_Some)
  have start: "?stays ?l0" using runtime_okD(4) [OF ok j] by (simp add: stays_def)
  have "served (dm_ports w) (dm_log w) (dm_controllers w ! i)" using runtime_okD(5) [OF ok i] by simp
  with backed have "?served ?l0" by (simp add: served_def backed_def)
  with serves start have returned: "wp m (\<lambda>_ l. ?served l) (\<lambda>_ _. True) ?l0"
    by (auto simp: serves_def returns_with_def)
  have kept: "wp m (\<lambda>_. ?stays) (\<lambda>_. ?stays) ?l0"
    using serves start unfolding serves_def by (blast intro: keeps_wp)
  have threw: "runtime_ok {i} (?after l) \<and> backed i b j (?after l) \<and> within i w (?after l)" if "?stays l" for l
  proof -
    from that obtain es where l: "port_ok (lk_port l)" "lp_path (lk_port l) = ?path" "lk_log l = dm_log w @ es"
      "list_all (placed b ?path) es" by (auto simp: stays_def)
    with backed have "backed i b j (?after l)" by (simp add: backed_def)
    moreover have "runtime_ok {i} (?after l)"
      using runtime_ok_mono [OF ok] backed_others [OF ok backed] by (intro runtime_ok_port [OF _ l]) auto
    moreover have "within i w (?after l)" using l by (intro within_port) simp_all
    ultimately show ?thesis by simp
  qed
  have whole: "runtime_ok {} (?after l) \<and> backed i b j (?after l) \<and> within i w (?after l)" if "?stays l" "?served l" for l
  proof -
    from threw [OF that(1)] have ok': "runtime_ok {i} (?after l)" and backed': "backed i b j (?after l)" "within i w (?after l)" by simp_all
    have "served (dm_ports (?after l)) (dm_log (?after l)) (dm_controllers w ! i)"
      using that(2) backed' j by (simp add: served_def backed_def)
    then have "runtime_ok {} (?after l)" using ok' by (auto simp: runtime_ok_def)
    with backed' show ?thesis by simp
  qed
  show ?thesis
    unfolding wp_on_port
    by (rule wp_mono [OF wp_conj [OF kept returned]]) (use threw whole in blast)+
qed

lemma wp_drain_reads:
  assumes "\<And>x w. P w \<Longrightarrow> wp (f x) (\<lambda>_. P) E w" and "P w"
  shows "wp (drain_reads f xs) (\<lambda>_. P) E w"
  using assms(2)
proof (induction xs arbitrary: w)
  case (Cons x xs)
  then show ?case by (auto simp: wp_simps intro: wp_mono [OF assms(1)])
qed (simp add: wp_simps)

section \<open>Losing a channel\<close>

lemma wp_disconnect:
  assumes "port_ok (lk_port l)"
  shows "wp (disconnect_virtual_port env)
    (\<lambda>_ l'. port_ok (lk_port l') \<and> lp_path (lk_port l') = lp_path (lk_port l)
      \<and> (\<exists>es. lk_log l' = lk_log l @ es \<and> list_all (placed b (lp_path (lk_port l))) es)) (\<lambda>_ _. False) l"
  using assms
  by (auto simp: disconnect_virtual_port_def port_ioctl_def wp_simps Let_def placed_def port_okD split: option.split)

lemma disconnect_step:
  assumes "runtime_ok X w" and "j < length (dm_ports w)"
    and "\<And>k. k < length (dm_controllers w) \<Longrightarrow> k \<notin> X \<Longrightarrow> elsewhere b (lp_path (dm_ports w ! j)) (dm_controllers w ! k)"
  shows "wp (on_port j (disconnect_virtual_port env))
    (\<lambda>_ w'. runtime_ok X w' \<and> dm_controllers w' = dm_controllers w
       \<and> map lp_path (dm_ports w') = map lp_path (dm_ports w) \<and> dm_reload w' = dm_reload w) (\<lambda>_ _. False) w"
proof -
  have ok: "port_ok (lk_port \<lparr>lk_port = dm_ports w ! j, lk_log = dm_log w\<rparr>)" using assms(1,2) by (simp add: runtime_okD)
  show ?thesis
    unfolding wp_on_port
    by (rule wp_mono [OF wp_disconnect [OF ok, of env b]])
      (use assms in \<open>auto intro!: runtime_ok_port simp del: map_update\<close>)
qed

lemma release_port_simps [simp]:
  "ct_backend (release_port c) = None" "ct_config (release_port c) = ct_config c"
  "\<not> controller_uses_port (release_port c)" "rt_ok c \<Longrightarrow> rt_ok (release_port c)"
  by (simp_all add: release_port_def drop_channels_def controller_uses_port_def rt_ok_def)

lemma wp_drop:
  assumes "runtime_ok {i} w" and "backed i b j w"
  shows "wp (drop_bt_backend env i j)
    (\<lambda>_ w'. runtime_ok {} w' \<and> within i w w' \<and> ct_backend (dm_controllers w' ! i) = None) (\<lambda>_ _. False) w"
proof -
  let ?p = "dm_ports w ! j"
  let ?w1 = "w\<lparr>dm_ports := (dm_ports w)[j := clear_pending ?p]\<rparr>"
  let ?w2 = "?w1\<lparr>dm_controllers := (dm_controllers w)[i := release_port (dm_controllers w ! i)]\<rparr>"
  from assms(2) have j: "j < length (dm_ports w)" and i: "i < length (dm_controllers w)"
    and some: "ct_backend (dm_controllers w ! i) = Some b" by (auto simp: backed_def dest: find_port_Some)
  have path: "lp_path (clear_pending ?p) = lp_path ?p" by (simp add: clear_pending_def)
  have "runtime_ok {i} (w\<lparr>dm_ports := (dm_ports w)[j := clear_pending ?p], dm_log := dm_log w\<rparr>)"
    using runtime_okD(4) [OF assms(1) j] path backed_others [OF assms]
    by (intro runtime_ok_port [OF assms(1), where es = "[]" and b = b]) auto
  then have "runtime_ok {i} ?w1" by simp
  from runtime_ok_release [of i "{}" ?w1 release_port] this have ok: "runtime_ok {} ?w2" by simp
  have "elsewhere b (lp_path (dm_ports ?w2 ! j)) (dm_controllers ?w2 ! k)" if "k < length (dm_controllers ?w2)" for k
    using backed_others [OF assms, of k] that i j path by (cases "k = i") (auto simp: elsewhere_def nth_list_update)
  then have "wp (on_port j (disconnect_virtual_port (de_os env)))
    (\<lambda>_ w'. runtime_ok {} w' \<and> dm_controllers w' = dm_controllers ?w2 \<and> map lp_path (dm_ports w') = map lp_path (dm_ports ?w2)
      \<and> dm_reload w' = dm_reload ?w2)
    (\<lambda>_ _. False) ?w2"
    using ok j by (intro disconnect_step) auto
  moreover have "map lp_path (dm_ports ?w2) = map lp_path (dm_ports w)"
    using path by (simp del: map_update)
  ultimately show ?thesis
    unfolding drop_bt_backend_def using some i
    by (auto simp: wp_simps Let_def within_def elim!: wp_mono)
qed

lemma runtime_ok_drop:
  "runtime_ok {} w \<Longrightarrow> f = release_port \<or> f = (\<lambda>c. c\<lparr>ct_backend := None, ct_connected := False\<rparr>)
    \<Longrightarrow> i < length (dm_controllers w) \<Longrightarrow> ct_backend (dm_controllers w ! i) \<noteq> None
    \<Longrightarrow> runtime_ok {} (w\<lparr>dm_controllers := (dm_controllers w)[i := f (dm_controllers w ! i)]\<rparr>)"
  by (rule runtime_ok_release, erule runtime_ok_mono)
    (auto dest: runtime_okD(1) rt_okD(7) simp: controller_uses_port_def rt_ok_def release_port_def drop_channels_def)

lemma wp_lost_channel:
  assumes "runtime_ok {i} w" and "backed i b j w" and "within i w0 w"
    and "\<And>w'. runtime_ok {} w' \<Longrightarrow> within i w0 w' \<Longrightarrow> ct_backend (dm_controllers w' ! i) = None \<Longrightarrow> Q w'"
  shows "wp (lost_channel env i j) (\<lambda>_. Q) E w"
  unfolding lost_channel_def wp_seq wp_epoll_dirty
  by (rule wp_mono [OF wp_drop [OF assms(1,2)]]) (use assms(3) within_trans in \<open>auto intro!: assms(4)\<close>)

text \<open>A handler of a connected controller whose Bluetooth errors cost it its channels.\<close>

lemma wp_guarded:
  assumes "\<And>w. runtime_ok {} w \<Longrightarrow> backed i b j w \<Longrightarrow> wp m (\<lambda>_ w'. runtime_ok {} w' \<and> backed i b j w' \<and> within i w w')
      (\<lambda>_ w'. runtime_ok {i} w' \<and> backed i b j w' \<and> within i w w') w"
    and "runtime_ok {} w" and "backed i b j w"
  shows "wp (catch_act m (\<lambda>e. if is_bluetooth_error e then lost_channel env i j else throw e))
    (\<lambda>_ w'. runtime_ok {} w' \<and> within i w w' \<and> (ct_backend (dm_controllers w' ! i) = None \<or> backed i b j w'))
    (\<lambda>e _. \<not> is_bluetooth_error e) w"
  unfolding wp_catch
  by (rule wp_mono [OF assms(1) [OF assms(2,3)]]) (auto simp: wp_simps intro!: wp_lost_channel)

section \<open>Flushing\<close>

definition found :: "('s, 'd) daemon \<Rightarrow> nat \<Rightarrow> bool" where
  "found w i \<longleftrightarrow> (ct_backend (dm_controllers w ! i) \<noteq> None \<longrightarrow>
     find_port_index (dm_ports w) (ct_device (dm_controllers w ! i)) \<noteq> None)"

lemma find_port_map: "find_port_index ports d = find_first (\<lambda>path. path = d) (map lp_path ports)"
  unfolding find_port_index_def by (induction ports) auto

lemma found_within: "within i w w' \<Longrightarrow> k \<noteq> i \<Longrightarrow> found w' k = found w k"
  by (auto simp: within_def found_def find_port_map)

lemma within_length: "within i w w' \<Longrightarrow> length (dm_controllers w') = length (dm_controllers w)"
  by (auto simp: within_def)

lemma flush_controller_ok:
  assumes "runtime_ok {} w" and "i < length (dm_controllers w)"
  shows "wp (flush_controller env i) (\<lambda>_ w'. runtime_ok {} w' \<and> within i w w' \<and> found w' i)
    (\<lambda>e _. \<not> is_bluetooth_error e) w"
proof (cases "ct_backend (dm_controllers w ! i)")
  case None
  with assms show ?thesis by (simp add: flush_controller_def wp_simps found_def)
next
  case (Some b)
  show ?thesis
  proof (cases "find_port_index (dm_ports w) (ct_device (dm_controllers w ! i))")
    case None
    with Some assms show ?thesis
      by (simp add: flush_controller_def wp_simps runtime_ok_drop found_def within_controller)
  next
    case (Some j)
    with \<open>ct_backend (dm_controllers w ! i) = Some b\<close> assms have backed: "backed i b j w" by (simp add: backed_def)
    have step: "wp (on_port j (flush_port (de_os env) b)) (\<lambda>_ w'. runtime_ok {} w' \<and> backed i b j w' \<and> within i w w')
      (\<lambda>_ w'. runtime_ok {i} w' \<and> backed i b j w' \<and> within i w w') w"
      if "runtime_ok {} w" "backed i b j w" for w :: "('a, 'b) daemon"
      using serve_step [OF handlers_serve(4)] that .
    have "flush_controller env i w = catch_act (on_port j (flush_port (de_os env) b))
        (\<lambda>e. if is_bluetooth_error e then lost_channel env i j else throw e) w"
      using backed by (simp add: flush_controller_def with_state_def backed_def Let_def lost_channel_def cong: if_cong)
    then have "wp (flush_controller env i) Q E w = wp (catch_act (on_port j (flush_port (de_os env) b))
        (\<lambda>e. if is_bluetooth_error e then lost_channel env i j else throw e)) Q E w" for Q E
      by (simp add: wp_def)
    moreover have "wp (catch_act (on_port j (flush_port (de_os env) b))
        (\<lambda>e. if is_bluetooth_error e then lost_channel env i j else throw e))
      (\<lambda>_ w'. runtime_ok {} w' \<and> within i w w' \<and> found w' i) (\<lambda>e _. \<not> is_bluetooth_error e) w"
      by (rule wp_mono [OF wp_guarded [OF step assms(1) backed]]) (auto simp: found_def backed_def)
    ultimately show ?thesis by simp
  qed
qed

lemma flush_outputs_ok:
  assumes "runtime_ok {} w"
  shows "wp (flush_pending_outputs env) (\<lambda>_ w'. runtime_ok {} w' \<and> (\<forall>k < length (dm_controllers w'). found w' k))
    (\<lambda>e _. \<not> is_bluetooth_error e) w"
proof -
  let ?P = "\<lambda>k w'. runtime_ok {} w' \<and> length (dm_controllers w') = length (dm_controllers w) \<and> (\<forall>k' < k. found w' k')"
  have "wp (flush_pending_outputs env) (\<lambda>_. ?P (length (dm_controllers w))) (\<lambda>e _. \<not> is_bluetooth_error e) w"
    unfolding flush_pending_outputs_def
  proof (rule wp_for_controllers [where P = ?P])
    fix k and w' :: "('a, 'b) daemon"
    assume k: "k < length (dm_controllers w)" and P: "?P k w'"
    then have "wp (flush_controller env k) (\<lambda>_ w''. runtime_ok {} w'' \<and> within k w' w'' \<and> found w'' k)
      (\<lambda>e _. \<not> is_bluetooth_error e) w'" by (intro flush_controller_ok) simp_all
    then show "wp (flush_controller env k) (\<lambda>_. ?P (Suc k)) (\<lambda>e _. \<not> is_bluetooth_error e) w'"
      by (rule wp_mono) (use P in \<open>auto simp: less_Suc_eq found_within dest: within_length\<close>)
  qed (use assms in simp_all)
  then show ?thesis by (rule wp_mono) auto
qed

section \<open>Channels\<close>

lemma serve_channel_ok:
  assumes handler: "\<And>b answer. serves b (handler b answer)" and ok: "runtime_ok {} w"
  shows "wp (serve_channel env handler i e) (\<lambda>_ w'. runtime_ok {} w' \<and> within i w w') (\<lambda>ex _. \<not> is_bluetooth_error ex) w"
proof (cases "i < length (dm_controllers w) \<and> ct_backend (dm_controllers w ! i) \<noteq> None")
  case False
  with ok show ?thesis by (auto simp: serve_channel_def wp_simps)
next
  case True
  then obtain b where b: "i < length (dm_controllers w)" "ct_backend (dm_controllers w ! i) = Some b" by blast
  show ?thesis
  proof (cases "find_port_index (dm_ports w) (ct_device (dm_controllers w ! i))")
    case None
    with b ok runtime_ok_drop [of w "\<lambda>c. c\<lparr>ct_backend := None, ct_connected := False\<rparr>" i]
    show ?thesis by (simp add: serve_channel_def wp_simps within_controller)
  next
    case (Some j)
    with b have backed: "backed i b j w" by (simp add: backed_def)
    let ?reads = "drain_reads (\<lambda>answer. on_port j (handler b answer)) (take kMaxBtPacketsPerWake (re_reads e))"
    let ?guarded = "catch_act ?reads (\<lambda>ex. if is_bluetooth_error ex then lost_channel env i j else throw ex)"
    have reads: "wp ?reads (\<lambda>_ w'. runtime_ok {} w' \<and> backed i b j w' \<and> within i w w')
      (\<lambda>_ w'. runtime_ok {i} w' \<and> backed i b j w' \<and> within i w w') w"
      if "runtime_ok {} w" "backed i b j w" for w :: "('a, 'b) daemon"
    proof (rule wp_drain_reads [where P = "\<lambda>w'. runtime_ok {} w' \<and> backed i b j w' \<and> within i w w'"])
      fix answer and w' :: "('a, 'b) daemon"
      assume P: "runtime_ok {} w' \<and> backed i b j w' \<and> within i w w'"
      then show "wp (on_port j (handler b answer)) (\<lambda>_ w'. runtime_ok {} w' \<and> backed i b j w' \<and> within i w w')
          (\<lambda>_ w'. runtime_ok {i} w' \<and> backed i b j w' \<and> within i w w') w'"
        using serve_step [OF handler, of w' i b j answer] by (auto elim!: wp_mono intro: within_trans)
    qed (use that in simp)
    have lost: "wp (if re_error e then lost_channel env i j else ret ()) (\<lambda>_ w''. runtime_ok {} w'' \<and> within i w w'')
        (\<lambda>ex _. \<not> is_bluetooth_error ex) w'"
      if "within i w w'" "runtime_ok {} w'" "ct_backend (dm_controllers w' ! i) = None \<or> backed i b j w'"
      for w' :: "('a, 'b) daemon"
    proof (cases "ct_backend (dm_controllers w' ! i) = None")
      case True
      have "i < length (dm_controllers w')" using b(1) within_length [OF that(1)] by simp
      with that(2) True have "\<not> ct_connected (dm_controllers w' ! i)" using rt_okD(8) runtime_okD(1) by metis
      with that True show ?thesis by (simp add: wp_simps lost_channel_def drop_bt_backend_def)
    next
      case False
      with that(3) have "backed i b j w'" by simp
      from wp_lost_channel [OF runtime_ok_mono [OF that(2)] this that(1)] that(1,2) show ?thesis
        by (simp add: wp_simps)
    qed
    have first: "wp (if re_in e then ?guarded else ret ())
      (\<lambda>_ w'. runtime_ok {} w' \<and> within i w w' \<and> (ct_backend (dm_controllers w' ! i) = None \<or> backed i b j w'))
      (\<lambda>ex _. \<not> is_bluetooth_error ex) w"
      using wp_guarded [OF reads ok backed] ok backed by (simp add: wp_simps)
    have eq: "wp (serve_channel env handler i e) Q E w =
        wp (seq_act (if re_in e then ?guarded else ret ()) (if re_error e then lost_channel env i j else ret ())) Q E w" for Q E
      using b Some by (simp add: serve_channel_def wp_with_state)
    show ?thesis
      unfolding eq wp_seq
      by (intro wp_mono [OF first]) (use lost in auto)
  qed
qed

section \<open>Ports\<close>

text \<open>A port whose controller has no backend.\<close>

lemma idle_step:
  assumes "runtime_ok {} w" and "j < length (dm_ports w)"
    and "\<And>k. k < length (dm_controllers w) \<Longrightarrow> elsewhere b (lp_path (dm_ports w ! j)) (dm_controllers w ! k)"
    and "\<And>path l. keeps (\<lambda>w. link_ok w \<and> stays b path l (lk_port w) (lk_log w)) m"
  shows "wp (on_port j m) (\<lambda>_ w'. runtime_ok {} w' \<and> dm_controllers w' = dm_controllers w
      \<and> map lp_path (dm_ports w') = map lp_path (dm_ports w))
    (\<lambda>_ w'. runtime_ok {} w' \<and> dm_controllers w' = dm_controllers w) w"
proof -
  let ?l0 = "\<lparr>lk_port = dm_ports w ! j, lk_log = dm_log w\<rparr>" and ?path = "lp_path (dm_ports w ! j)"
  have "link_ok ?l0 \<and> stays b ?path (dm_log w) (lk_port ?l0) (lk_log ?l0)"
    using assms(1,2) by (simp add: runtime_okD stays_def)
  from keeps_wp [OF assms(4) this] show ?thesis
    unfolding wp_on_port
    by (rule wp_mono) (use assms(3) in \<open>auto simp: stays_def simp del: map_update intro!: runtime_ok_port [OF assms(1)]\<close>)
qed

lemma find_path:
  assumes "paths_ok (map lp_path ports)" and "j < length ports" and "lp_path (ports ! j) \<noteq> []"
  shows "find_port_index ports (lp_path (ports ! j)) = Some j"
proof -
  have "lp_path (ports ! k) \<noteq> lp_path (ports ! j)" if "k < j" for k
    using assms that unfolding paths_ok_def
  proof (induction ports arbitrary: j k)
    case (Cons p ports)
    show ?case
    proof (cases j)
      case (Suc j')
      have ne: "lp_path (ports ! j') \<noteq> []" and len: "j' < length ports" using Cons.prems Suc by simp_all
      show ?thesis
      proof (cases k)
        case 0
        have "lp_path (ports ! j') \<in> set (filter (\<lambda>path. path \<noteq> []) (map lp_path ports))"
          using ne len by (auto intro: imageI)
        with Cons.prems(1) 0 Suc show ?thesis by (auto split: if_splits)
      next
        case (Suc k')
        from Cons.prems(1) have "distinct (filter (\<lambda>path. path \<noteq> []) (map lp_path ports))" by (auto split: if_splits)
        moreover from Cons.prems(4) Suc \<open>j = Suc j'\<close> have "k' < j'" by simp
        ultimately show ?thesis using Cons.IH len ne Suc \<open>j = Suc j'\<close> by simp
      qed
    qed (use Cons.prems in simp)
  qed simp
  with assms(2) show ?thesis by (simp add: find_port_index_def find_first_Some)
qed

definition no_backend :: bt_backend where
  "no_backend = \<lparr>bb_address = [], bb_control_fd = -1, bb_interrupt_fd = -1\<rparr>"

lemma serve_port_ok:
  assumes ok: "runtime_ok {} w"
  shows "wp (serve_port env j e) (\<lambda>_. runtime_ok {}) (\<lambda>_ _. True) w"
proof (cases "j < length (dm_ports w)")
  case False
  with ok show ?thesis by (simp add: serve_port_def wp_simps)
next
  case j: True
  let ?path = "lp_path (dm_ports w ! j)"
  define owner where "owner = controller_for_port (dm_controllers w) ?path"
  define backend where "backend = Option.bind owner (\<lambda>i. ct_backend (dm_controllers w ! i))"
  let ?reads = "drain_reads (\<lambda>answer. on_port j (handle_vds_frame (de_os env) backend answer)) (take kMaxPortFramesPerWake (re_reads e))"
  let ?caught = "\<lambda>ex. case owner of Some i \<Rightarrow> if is_bluetooth_error ex then lost_channel env i j else throw ex | None \<Rightarrow> throw ex"
  have user: "i < length (dm_controllers w) \<and> ct_device (dm_controllers w ! i) = ?path \<and> controller_uses_port (dm_controllers w ! i)"
    if "owner = Some i" for i
    using that by (simp add: owner_def controller_for_port_def find_first_Some)
  have nobody: "ct_device c \<noteq> ?path \<or> \<not> controller_uses_port c" if "owner = None" "c \<in> set (dm_controllers w)" for c
    using that by (auto simp: owner_def controller_for_port_def find_first_None)
  have reads: "wp ?reads (\<lambda>_. runtime_ok {}) (\<lambda>ex. wp (?caught ex) (\<lambda>_. runtime_ok {}) (\<lambda>_ _. True)) w"
  proof (cases backend)
    case (Some b)
    then obtain i where i: "owner = Some i" "ct_backend (dm_controllers w ! i) = Some b"
      by (auto simp: backend_def bind_eq_Some_conv)
    from user [OF i(1)] have "?path \<noteq> []" using rt_okD(5) runtime_okD(1) [OF ok] by metis
    with user [OF i(1)] i(2) j have backed: "backed i b j w"
      using find_path [OF runtime_okD(6) [OF ok] j] by (simp add: backed_def)
    let ?P = "\<lambda>w'. runtime_ok {} w' \<and> backed i b j w' \<and> within i w w'"
    have "wp ?reads (\<lambda>_. ?P) (\<lambda>ex. wp (?caught ex) (\<lambda>_. runtime_ok {}) (\<lambda>_ _. True)) w"
    proof (rule wp_drain_reads)
      fix answer and w' :: "('a, 'b) daemon"
      assume P: "?P w'"
      then have step: "wp (on_port j (handle_vds_frame (de_os env) backend answer))
        (\<lambda>_ w''. runtime_ok {} w'' \<and> backed i b j w'' \<and> within i w' w'')
        (\<lambda>_ w''. runtime_ok {i} w'' \<and> backed i b j w'' \<and> within i w' w'') w'"
        unfolding Some by (intro serve_step handlers_serve) simp_all
      show "wp (on_port j (handle_vds_frame (de_os env) backend answer)) (\<lambda>_. ?P)
          (\<lambda>ex. wp (?caught ex) (\<lambda>_. runtime_ok {}) (\<lambda>_ _. True)) w'"
        by (rule wp_mono [OF step])
          (use P in \<open>auto intro: within_trans simp: i(1) wp_simps intro!: wp_lost_channel\<close>)
    qed (use ok backed in simp)
    then show ?thesis by (rule wp_mono) simp_all
  next
    case None
    let ?P = "\<lambda>w'. runtime_ok {} w' \<and> dm_controllers w' = dm_controllers w \<and> map lp_path (dm_ports w') = map lp_path (dm_ports w)"
    have "elsewhere no_backend ?path (dm_controllers w ! k)" if k: "k < length (dm_controllers w)" for k
    proof (cases "ct_backend (dm_controllers w ! k) = None")
      case False
      then have uses: "controller_uses_port (dm_controllers w ! k)" by (simp add: controller_uses_port_def)
      have "ct_device (dm_controllers w ! k) \<noteq> ?path"
      proof (cases owner)
        case None
        with nobody [of "dm_controllers w ! k"] k uses show ?thesis by simp
      next
        case (Some i)
        with None False have "k \<noteq> i" by (auto simp: backend_def)
        with user [OF Some] k uses runtime_okD(3) [OF ok] show ?thesis by (auto simp: users_distinct_def sole_def)
      qed
      then show ?thesis using rt_okD(3) [OF runtime_okD(1) [OF ok k]] by (simp add: elsewhere_def no_backend_def)
    qed (simp add: elsewhere_def)
    note apart = this
    have caught: "wp (?caught ex) (\<lambda>_. runtime_ok {}) (\<lambda>_ _. True) w'"
      if "runtime_ok {} w'" "dm_controllers w' = dm_controllers w" for ex and w' :: "('a, 'b) daemon"
    proof (cases owner)
      case (Some i)
      with None that user [OF Some] have "ct_backend (dm_controllers w' ! i) = None" "\<not> ct_connected (dm_controllers w' ! i)"
        using rt_okD(8) [OF runtime_okD(1) [OF that(1), of i]] by (simp_all add: backend_def)
      with that Some show ?thesis by (simp add: wp_simps lost_channel_def drop_bt_backend_def)
    qed (simp add: wp_simps)
    have "wp ?reads (\<lambda>_. ?P) (\<lambda>ex. wp (?caught ex) (\<lambda>_. runtime_ok {}) (\<lambda>_ _. True)) w"
    proof (rule wp_drain_reads)
      fix answer and w' :: "('a, 'b) daemon"
      assume P: "?P w'"
      then have same: "length (dm_ports w') = length (dm_ports w)" "lp_path (dm_ports w' ! j) = ?path"
        using j by (metis length_map, metis j length_map nth_map)
      have "wp (on_port j (handle_vds_frame (de_os env) None answer))
        (\<lambda>_ w''. runtime_ok {} w'' \<and> dm_controllers w'' = dm_controllers w'
          \<and> map lp_path (dm_ports w'') = map lp_path (dm_ports w'))
        (\<lambda>_ w''. runtime_ok {} w'' \<and> dm_controllers w'' = dm_controllers w') w'"
        using P apart j same by (intro idle_step [where b = no_backend] locality.K_vds_frame) auto
      then show "wp (on_port j (handle_vds_frame (de_os env) backend answer)) (\<lambda>_. ?P)
          (\<lambda>ex. wp (?caught ex) (\<lambda>_. runtime_ok {}) (\<lambda>_ _. True)) w'"
        unfolding None by (rule wp_mono) (use P caught in auto)
    qed (use ok in simp)
    then show ?thesis by (rule wp_mono) simp_all
  qed
  have eq: "wp (serve_port env j e) Q E w = wp (seq_act (if re_in e then catch_act ?reads ?caught else ret ())
      (if re_error e then request_reload else ret ())) Q E w" for Q E
    using j by (simp add: serve_port_def wp_with_state Let_def owner_def backend_def)
  have first: "wp (if re_in e then catch_act ?reads ?caught else ret ()) (\<lambda>_. runtime_ok {}) (\<lambda>_ _. True) w"
    using reads ok by (simp add: wp_catch wp_ret)
  show ?thesis
    unfolding eq wp_seq by (rule wp_mono [OF first]) (simp_all add: wp_simps request_reload_def)
qed

end
