(* ===== verification/LinuxConnect.thy ===== *)
theory LinuxConnect
  imports LinuxRuntime
begin

text \<open>
  Connecting a controller and reloading the database keep the invariant of the Linux daemon, whatever
  fails on the way.
\<close>

section \<open>Preparing the port\<close>

definition idle :: "bt_backend \<Rightarrow> string \<Rightarrow> log \<Rightarrow> ('s, 'd) link \<Rightarrow> bool" where
  "idle b path l w \<longleftrightarrow> link_ok w \<and> stays b path l (lk_port w) (lk_log w) \<and> pending_bt_state (lk_port w) = None"

abbreviation sane :: "bt_backend \<Rightarrow> string \<Rightarrow> log \<Rightarrow> ('s, 'd) link \<Rightarrow> bool" where
  "sane b path l w \<equiv> link_ok w \<and> stays b path l (lk_port w) (lk_log w)"

lemma idle_sane: "idle b path l w \<Longrightarrow> sane b path l w"
  by (simp add: idle_def)

lemma idle_event:
  "idle b path l w \<Longrightarrow> placed b path e \<Longrightarrow> port_ok p \<Longrightarrow> lp_path p = path \<Longrightarrow> pending_bt_state p = None \<Longrightarrow>
    idle b path l (w\<lparr>lk_port := p, lk_log := lk_log w @ [e]\<rparr>)"
  by (auto simp: idle_def intro: stays_event)

lemma idle_upd [keeps_intros]:
  "(\<And>p. port_ok p \<Longrightarrow> port_ok (f p) \<and> lp_path (f p) = lp_path p \<and> pending_bt_state (f p) = pending_bt_state p)
    \<Longrightarrow> keeps (idle b path l) (upd_port f)"
  by (auto simp: keeps_def wp_simps idle_def stays_def)

lemma idle_with_port [keeps_intros]: "(\<And>p. port_ok p \<Longrightarrow> keeps (idle b path l) (k p)) \<Longrightarrow> keeps (idle b path l) (with_port k)"
  by (simp add: keeps_def wp_simps idle_def)

lemma idleD: "idle b path l w \<Longrightarrow> lp_path (lk_port w) = path \<and> port_ok (lk_port w) \<and> pending_bt_state (lk_port w) = None"
  by (simp add: idle_def stays_def)

lemma idle_log: "idle b path l w \<Longrightarrow> placed b path e \<Longrightarrow> idle b path l (w\<lparr>lk_log := lk_log w @ [e]\<rparr>)"
  by (auto simp: idle_def intro: stays_event dest: idleD) (auto simp: stays_def)

lemma idle_write_frame [keeps_intros]: "keeps (idle b path l) (write_vds_frame env bs)"
  by (rule keepsI, rule wp_write_vds_frame) (auto intro!: idle_event idle_log simp: port_okD dest: idleD)

lemma idle_send_frame [keeps_intros]: "keeps (idle b path l) (send_frame env type payload)"
  unfolding send_frame_def by (intro keeps_intros)

lemma idle_cache [keeps_intros]:
  "length report \<le> kBtReadBufferSize \<Longrightarrow> keeps (idle b path l) (cache_feature_report env report)"
  unfolding cache_feature_report_def
  by (intro keeps_intros) (simp_all add: port_ok_store, simp_all add: store_feature_def)

lemma idle_await [keeps_intros]: "keeps (idle b path l) (await_feature env report_id answers)"
  by (induction env report_id answers rule: await_feature.induct)
    (auto intro!: keeps_intros simp: read_feature_length split: sum.split option.split)

lemma idle_write_packet: "keeps (idle b path l) (on_log (write_packet env channel (bb_address b) packet))"
  by (rule keepsI, unfold wp_on_log, rule wp_write_packet) (auto intro!: idle_log)

lemma idle_feature_get [keeps_intros]: "keeps (idle b path l) (on_log (send_feature_get env b i))"
proof (cases "bb_control_fd b < 0")
  case True
  then show ?thesis by (simp add: send_feature_get_def keeps_def wp_simps)
next
  case False
  then show ?thesis by (simp add: send_feature_get_def idle_write_packet)
qed

lemma idle_fetch [keeps_intros]: "keeps (idle b path l) (fetch_features env b ids answers)"
  by (induction env b ids answers rule: fetch_features.induct) (auto intro!: keeps_intros)

lemma idle_ioctl [keeps_intros]: "keeps (idle b path l) (port_ioctl env request name)"
  by (auto simp: keeps_def port_ioctl_def wp_simps Let_def placed_def split: option.split
      intro!: idle_log dest: idleD)

lemma idle_initialize [keeps_intros]: "keeps (idle b path l) (initialize_bt_controller env b answers)"
  unfolding initialize_bt_controller_def by (intro keeps_intros)

lemma wp_reset:
  assumes "sane b path l w"
  shows "wp (reset_virtual_port env) (\<lambda>_. idle b path l) (\<lambda>_. sane b path l) w"
proof -
  have start: "link_ok w" "stays b path l (lk_port w) (lk_log w)" using assms by simp_all
  have kept: "wp (reset_virtual_port env) (\<lambda>_. link_ok) (\<lambda>_. link_ok) w"
    using reset_ok start(1) by (rule keeps_wp)
  have "wp (reset_virtual_port env) (\<lambda>_ w. stays b path l (lk_port w) (lk_log w) \<and> pending_bt_state (lk_port w) = None)
      (\<lambda>_ w. stays b path l (lk_port w) (lk_log w)) w"
    using start(2) by (auto simp: reset_virtual_port_def wp_simps stays_def split: sum.split)
  from wp_conj [OF kept this] show ?thesis by (rule wp_mono) (auto simp: idle_def)
qed

text \<open>A prepared port has the initial state delivered.\<close>

lemma wp_send_init:
  assumes "idle b path l w" and "\<not> bb_interrupt_fd b < 0"
  shows "wp (send_init_report env b)
    (\<lambda>_ w'. sane b path l w' \<and> synced (lk_port w') \<and> accepted b (lk_port w') (lk_log w')) (\<lambda>_. sane b path l) w"
proof -
  let ?s = "state_bytes (lp_output_state (lk_port w))" and ?report = "build_bt_init_report (lp_output_state (lk_port w))"
  let ?p = "(lk_port w)\<lparr>last_sent_bt_state := Some ?s\<rparr>"
  let ?sent = "Bt_sent Interrupt_channel (bb_address b) (hidp_output_packet ?report)"
  have "carries b ?s ?sent" unfolding carries_def by blast
  then have "accepted b ?p (lk_log w @ [?sent])" by (intro accepted_new) simp_all
  moreover have "synced ?p" using idleD [OF assms(1)] by (simp add: synced_def)
  moreover have "sane b path l (w\<lparr>lk_port := ?p, lk_log := lk_log w @ [?sent]\<rparr>)"
    using idle_event [OF assms(1), of ?sent ?p] idleD [OF assms(1)] by (simp add: idle_def port_okD)
  moreover have "sane b path l (w\<lparr>lk_log := lk_log w @ [Bt_broken Interrupt_channel (bb_address b) sent]\<rparr>)" for sent
    using idle_log [OF assms(1), of "Bt_broken Interrupt_channel (bb_address b) sent"] by (simp add: idle_def)
  ultimately show ?thesis
    using assms(2) by (auto simp: send_init_report_def send_output_report_def wp_simps intro!: wp_write_packet)
qed

lemma wp_prepare:
  assumes "sane b path l w" and "\<not> bb_interrupt_fd b < 0"
  shows "wp (prepare_port env profile b)
    (\<lambda>_ w'. sane b path l w' \<and> synced (lk_port w') \<and> accepted b (lk_port w') (lk_log w')) (\<lambda>_. sane b path l) w"
    (is "wp _ ?Q ?E w")
proof -
  let ?steps = "seq_act (port_ioctl (de_os env) Ioc_disconnect ''VDS_IOC_DISCONNECT'')
      (seq_act (port_ioctl (de_os env) (Ioc_set_profile profile) ''VDS_IOC_SET_PROFILE'')
        (with_state (\<lambda>l. initialize_bt_controller (de_os env) b (de_initial env (lk_log l)))))"
  have steps: "keeps (idle b path l) ?steps" by (intro keeps_intros)
  have "wp ?steps (\<lambda>_. wp (send_init_report (de_os env) b) ?Q ?E) ?E w'" if "idle b path l w'" for w'
    by (rule wp_mono [OF keeps_wp [OF steps that]]) (erule wp_send_init [OF _ assms(2)], erule idle_sane)
  then have "wp (reset_virtual_port (de_os env)) (\<lambda>_. wp ?steps (\<lambda>_. wp (send_init_report (de_os env) b) ?Q ?E) ?E) ?E w"
    by (intro wp_mono [OF wp_reset [OF assms(1)]]) auto
  then show ?thesis by (simp add: prepare_port_def wp_seq)
qed

section \<open>Joining the two channels\<close>

lemma served_event: "served ports l c \<Longrightarrow> (\<And>b. aside b e) \<Longrightarrow> served ports (l @ [e]) c"
  by (auto simp: served_def intro: accepted_aside)

lemma runtime_ok_log:
  assumes "runtime_ok X w" and "\<And>b. aside b e"
  shows "runtime_ok X (w\<lparr>dm_log := dm_log w @ [e]\<rparr>)"
  using assms(1) by (auto simp: runtime_ok_def intro: served_event assms(2))

lemma wp_preempt:
  assumes "Q w" and "\<And>w. Q w \<Longrightarrow> Q (w\<lparr>dm_log := dm_log w @ [Owner_disconnected address]\<rparr>)"
  shows "wp (preempt_default_bluetooth_owner env address) (\<lambda>_. Q) (\<lambda>_. Q) w"
  using assms by (auto simp: preempt_default_bluetooth_owner_def wp_simps split: sum.split)

lemma wp_resolve: "Q w \<Longrightarrow> wp (resolve_config_profile env config) (\<lambda>_. Q) (\<lambda>_. Q) w"
  by (simp add: resolve_config_profile_def detect_bluetooth_profile_def wp_simps split: sum.split)

text \<open>What an exception leaves is repaired by releasing the port of the controller.\<close>

definition releasable :: "nat \<Rightarrow> ('s, 'd) daemon \<Rightarrow> bool" where
  "releasable i w \<longleftrightarrow> runtime_ok {i} w \<or> (\<exists>w0 c. runtime_ok {i} w0 \<and> rt_ok (release_port c)
     \<and> ct_config c = ct_config (dm_controllers w0 ! i) \<and> i < length (dm_controllers w0)
     \<and> w = w0\<lparr>dm_controllers := (dm_controllers w0)[i := c]\<rparr>)"

lemma rt_ok_error [simp]: "rt_ok (c\<lparr>ct_error := e\<rparr>) = rt_ok c"
  by (simp add: rt_ok_def controller_uses_port_def)

lemma uses_error [simp]: "controller_uses_port (c\<lparr>ct_error := e\<rparr>) = controller_uses_port c"
  by (simp add: controller_uses_port_def)

lemma connect_failed_ok:
  assumes "releasable i w"
  shows "runtime_ok {} (w\<lparr>dm_controllers := (dm_controllers w)[i := connect_failed e (dm_controllers w ! i)]\<rparr>)"
proof -
  have plain: "runtime_ok {} (w\<lparr>dm_controllers := (dm_controllers w)[i := connect_failed e (dm_controllers w ! i)]\<rparr>)"
    if "runtime_ok {i} w" for w :: "('a, 'b) daemon"
    by (rule runtime_ok_release [OF that]) (simp_all add: connect_failed_def)
  from assms consider "runtime_ok {i} w"
    | w0 c where "runtime_ok {i} w0" "rt_ok (release_port c)" "ct_config c = ct_config (dm_controllers w0 ! i)"
        "i < length (dm_controllers w0)" "w = w0\<lparr>dm_controllers := (dm_controllers w0)[i := c]\<rparr>"
    unfolding releasable_def by blast
  then show ?thesis
  proof cases
    case 1
    then show ?thesis by (rule plain)
  next
    case 2
    have "runtime_ok {} (w0\<lparr>dm_controllers := (dm_controllers w0)[i := connect_failed e c]\<rparr>)"
      by (rule runtime_ok_update [OF 2(1,4)]) (use 2 in \<open>simp_all add: connect_failed_def served_def\<close>)
    with 2(4,5) show ?thesis by simp
  qed
qed

text \<open>The part after the profile is known and the default owner has gone.\<close>

lemma wp_complete:
  assumes ok: "runtime_ok {} w" and i: "i < length (dm_controllers w)"
    and pending: "ct_pending_control (dm_controllers w ! i) = Some cfd" "ct_pending_interrupt (dm_controllers w ! i) = Some ifd"
    and j: "find_port_index (dm_ports w) (ct_device (dm_controllers w ! i)) = Some j"
  shows "wp (complete_pending_controller env i j) (\<lambda>_. runtime_ok {}) (\<lambda>_. releasable i) w"
proof -
  let ?c = "dm_controllers w ! i"
  let ?b = "\<lparr>bb_address = cc_address (ct_config ?c), bb_control_fd = cfd, bb_interrupt_fd = ifd\<rparr>"
  let ?bare = "?c\<lparr>ct_pending_control := None, ct_pending_interrupt := None\<rparr>"
  let ?d = "ct_device ?c"
  from j have path: "j < length (dm_ports w)" "lp_path (dm_ports w ! j) = ?d" by (auto dest: find_port_Some)
  have rt: "rt_ok ?c" using runtime_okD(1) [OF ok i] .
  have none: "ct_backend ?c = None" "\<not> ct_connected ?c" using rt pending rt_okD(7,8) by fastforce+
  have d: "?d \<noteq> []" and sole: "sole (dm_controllers w) i" and fd: "\<not> ifd < 0"
    using rt pending runtime_okD(3) [OF ok] i rt_okD(5,9) [of ?c]
    by (auto simp: controller_uses_port_def users_distinct_def not_less)
  have bare: "rt_ok ?bare" "\<not> controller_uses_port ?bare"
    using rt none by (auto simp: rt_ok_def controller_uses_port_def)
  let ?same = "\<lambda>w'. runtime_ok {} w' \<and> dm_controllers w' = dm_controllers w \<and> dm_ports w' = dm_ports w"
  have finish: "wp (on_port j (port_ioctl (de_os env) Ioc_connect ''VDS_IOC_CONNECT''))
      (\<lambda>_. wp (upd_controller i (\<lambda>c. c\<lparr>ct_connected := True, ct_error := []\<rparr>)) (\<lambda>_. runtime_ok {}) (\<lambda>_. releasable i))
      (\<lambda>_. releasable i) (w'\<lparr>dm_controllers := (dm_controllers w')[i := ?bare\<lparr>ct_backend := Some ?b, ct_profile := Some profile\<rparr>]\<rparr>)"
    if w': "runtime_ok {} w'" "dm_controllers w' = (dm_controllers w)[i := ?bare]"
      "find_port_index (dm_ports w') ?d = Some j" "synced (dm_ports w' ! j)" "accepted ?b (dm_ports w' ! j) (dm_log w')"
    for profile and w' :: "('a, 'b) daemon"
  proof -
    let ?new = "?bare\<lparr>ct_backend := Some ?b, ct_profile := Some profile, ct_connected := True, ct_error := []\<rparr>"
    let ?half = "?bare\<lparr>ct_backend := Some ?b, ct_profile := Some profile\<rparr>"
    have i': "i < length (dm_controllers w')" using w'(2) i by simp
    have swap: "w'\<lparr>dm_controllers := cs, dm_log := l\<rparr> = w'\<lparr>dm_log := l, dm_controllers := cs\<rparr>" for cs l by simp
    have later: "runtime_ok {} (w'\<lparr>dm_log := dm_log w' @ [e]\<rparr>)" "accepted ?b (dm_ports w' ! j) (dm_log w' @ [e])"
      if "\<And>b. aside b e" for e
      using runtime_ok_log [OF w'(1) that] accepted_aside [OF w'(5) that] .
    have new: "rt_ok ?new" using rt none d by (auto simp: rt_ok_def)
    have half: "rt_ok (release_port ?half)" using rt
      by (simp add: release_port_def drop_channels_def rt_ok_def controller_uses_port_def)
    have "sole ((dm_controllers w')[i := ?new]) i"
      using sole i by (auto simp: w'(2) sole_def nth_list_update)
    then have "runtime_ok {} (w'\<lparr>dm_log := dm_log w' @ [e], dm_controllers := (dm_controllers w')[i := ?new]\<rparr>)"
      if "\<And>b. aside b e" for e
      using runtime_ok_update [of i "{}" "w'\<lparr>dm_log := dm_log w' @ [e]\<rparr>" ?new] later [OF that] new i' w'
      by (auto simp: served_def intro: runtime_ok_mono)
    moreover have "releasable i (w'\<lparr>dm_controllers := (dm_controllers w')[i := ?half], dm_log := dm_log w' @ [e]\<rparr>)"
      if "\<And>b. aside b e" for e
      unfolding releasable_def swap
      by (rule disjI2, rule exI [of _ "w'\<lparr>dm_log := dm_log w' @ [e]\<rparr>"], rule exI [of _ ?half])
        (use later [OF that] half i' w'(2) i in \<open>auto intro: runtime_ok_mono\<close>)
    ultimately show ?thesis
      using i' w'(3)
      by (auto simp: wp_simps port_ioctl_def Let_def aside_def split: option.split)
  qed
  have prepare: "wp (on_port j (prepare_port env profile ?b))
      (\<lambda>_ w'. runtime_ok {} w' \<and> dm_controllers w' = dm_controllers w1
        \<and> find_port_index (dm_ports w') ?d = Some j \<and> synced (dm_ports w' ! j) \<and> accepted ?b (dm_ports w' ! j) (dm_log w'))
      (\<lambda>_. releasable i) w1"
    if w1: "runtime_ok {} w1" "dm_controllers w1 = (dm_controllers w)[i := ?bare]" "dm_ports w1 = dm_ports w"
    for profile and w1 :: "('a, 'b) daemon"
  proof -
    let ?l0 = "\<lparr>lk_port = dm_ports w1 ! j, lk_log = dm_log w1\<rparr>"
    have "sane ?b ?d (dm_log w1) ?l0"
      using runtime_okD(4) [OF w1(1)] w1(3) path by (simp add: stays_def)
    from wp_prepare [OF this, of env profile] fd
    have wp: "wp (prepare_port env profile ?b)
      (\<lambda>_ l. sane ?b ?d (dm_log w1) l \<and> synced (lk_port l) \<and> accepted ?b (lk_port l) (lk_log l))
      (\<lambda>_. sane ?b ?d (dm_log w1)) ?l0" by simp
    have apart: "elsewhere ?b (lp_path (dm_ports w1 ! j)) (dm_controllers w1 ! k)" if k: "k < length (dm_controllers w1)" for k
    proof (cases "k = i")
      case True
      with w1(2) i none show ?thesis by (simp add: elsewhere_def)
    next
      case False
      with k w1(2,3) path sole address_distinct [OF ok i, of k] show ?thesis
        by (auto simp: elsewhere_def sole_def controller_uses_port_def)
    qed
    have after: "runtime_ok {} (w1\<lparr>dm_ports := (dm_ports w1)[j := lk_port l], dm_log := lk_log l\<rparr>)"
      if "sane ?b ?d (dm_log w1) l" for l
    proof -
      from that obtain es where l: "port_ok (lk_port l)" "lp_path (lk_port l) = lp_path (dm_ports w1 ! j)"
        "lk_log l = dm_log w1 @ es" "list_all (placed ?b (lp_path (dm_ports w1 ! j))) es"
        using path w1(3) by (auto simp: stays_def)
      show ?thesis by (rule runtime_ok_port [OF w1(1) l apart])
    qed
    show ?thesis
      unfolding wp_on_port
      by (rule wp_mono [OF wp])
        (use after path j w1(3) in \<open>auto simp: releasable_def stays_def intro: runtime_ok_mono\<close>)
  qed
  have rest: "wp (seq_act (upd_controller i (\<lambda>c. c\<lparr>ct_pending_control := None, ct_pending_interrupt := None\<rparr>))
       (seq_act (on_port j (prepare_port env profile ?b))
         (seq_act (upd_controller i (\<lambda>c. c\<lparr>ct_backend := Some ?b, ct_profile := Some profile\<rparr>))
           (seq_act (on_port j (port_ioctl (de_os env) Ioc_connect ''VDS_IOC_CONNECT''))
             (upd_controller i (\<lambda>c. c\<lparr>ct_connected := True, ct_error := []\<rparr>))))))
      (\<lambda>_. runtime_ok {}) (\<lambda>_. releasable i) w1"
    if w1: "runtime_ok {} w1" "dm_controllers w1 = dm_controllers w" "dm_ports w1 = dm_ports w"
    for profile and w1 :: "('a, 'b) daemon"
  proof -
    let ?w2 = "w1\<lparr>dm_controllers := (dm_controllers w)[i := ?bare]\<rparr>"
    have "runtime_ok {} ?w2"
      using runtime_ok_release [of i "{}" w1 "\<lambda>_. ?bare"] w1 bare by (auto intro: runtime_ok_mono)
    then have "wp (on_port j (prepare_port env profile ?b))
      (\<lambda>_ w'. runtime_ok {} w' \<and> dm_controllers w' = dm_controllers ?w2
        \<and> find_port_index (dm_ports w') ?d = Some j \<and> synced (dm_ports w' ! j) \<and> accepted ?b (dm_ports w' ! j) (dm_log w'))
      (\<lambda>_. releasable i) ?w2" using w1 by (intro prepare) simp_all
    then have "wp (on_port j (prepare_port env profile ?b))
      (\<lambda>_. wp (seq_act (upd_controller i (\<lambda>c. c\<lparr>ct_backend := Some ?b, ct_profile := Some profile\<rparr>))
           (seq_act (on_port j (port_ioctl (de_os env) Ioc_connect ''VDS_IOC_CONNECT''))
             (upd_controller i (\<lambda>c. c\<lparr>ct_connected := True, ct_error := []\<rparr>)))) (\<lambda>_. runtime_ok {}) (\<lambda>_. releasable i))
      (\<lambda>_. releasable i) ?w2"
      by (rule wp_mono) (use finish [of _ profile] i in \<open>simp_all add: wp_seq wp_upd_controller\<close>)
    then show ?thesis using w1 by (simp add: wp_seq wp_upd_controller)
  qed
  have same: "?same w" using ok by simp
  have "wp (resolve_config_profile env (ct_config ?c)) (\<lambda>_. ?same) (\<lambda>_. ?same) w"
    using same by (rule wp_resolve)
  moreover have "wp (preempt_default_bluetooth_owner env (cc_address (ct_config ?c))) (\<lambda>_. ?same) (\<lambda>_. ?same) w'"
    if "?same w'" for w'
    using that by (rule wp_preempt) (auto intro: runtime_ok_log simp: aside_def)
  moreover have "releasable i w'" if "?same w'" for w'
    using that by (auto simp: releasable_def intro: runtime_ok_mono)
  ultimately show ?thesis
    unfolding complete_pending_controller_def Let_def
    using pending rest by (simp add: wp_with_state wp_bind wp_seq) (fastforce elim!: wp_mono)
qed


lemma join_channels_ok:
  assumes ok: "runtime_ok {} w" and i: "i < length (dm_controllers w)"
  shows "wp (join_channels env i) (\<lambda>_. runtime_ok {}) (\<lambda>_ _. False) w"
proof -
  let ?c = "dm_controllers w ! i"
  have rt: "rt_ok ?c" using runtime_okD(1) [OF ok i] .
  consider "ct_pending_control ?c = None \<or> ct_pending_interrupt ?c = None"
    | cfd ifd where "ct_pending_control ?c = Some cfd" "ct_pending_interrupt ?c = Some ifd"
    by (cases "ct_pending_control ?c"; cases "ct_pending_interrupt ?c") blast+
  then show ?thesis
  proof cases
    case 1
    with ok show ?thesis by (simp add: join_channels_def wp_simps)
  next
    case 2
    show ?thesis
    proof (cases "find_port_index (dm_ports w) (ct_device ?c)")
      case None
      let ?f = "\<lambda>c. c\<lparr>ct_pending_control := None, ct_pending_interrupt := None, ct_device := [],
        ct_error := ''assigned virtual port disappeared''\<rparr>"
      have "ct_backend ?c = None \<and> \<not> ct_connected ?c" using rt 2 rt_okD(7,8) by fastforce
      then have "runtime_ok {} (w\<lparr>dm_controllers := (dm_controllers w)[i := ?f ?c]\<rparr>)"
        using rt by (intro runtime_ok_release [of i "{}" w ?f, OF runtime_ok_mono [OF ok]])
          (auto simp: controller_uses_port_def rt_ok_def)
      with None 2 show ?thesis by (simp add: join_channels_def wp_simps)
    next
      case (Some j)
      have "wp (complete_pending_controller env i j)
          (\<lambda>_. wp epoll_dirty (\<lambda>_. runtime_ok {}) (\<lambda>e. wp (upd_controller i (connect_failed (what e))) (\<lambda>_. runtime_ok {}) (\<lambda>_ _. False)))
          (\<lambda>e. wp (upd_controller i (connect_failed (what e))) (\<lambda>_. runtime_ok {}) (\<lambda>_ _. False)) w"
        by (rule wp_mono [OF wp_complete [OF ok i 2 Some]]) (simp_all add: wp_simps connect_failed_ok)
      with 2 Some show ?thesis by (simp add: join_channels_def wp_with_state Let_def wp_catch wp_seq)
    qed
  qed
qed

section \<open>Accepting a channel\<close>

lemma own_port_sole:
  assumes "own_port ports cs i \<noteq> None"
  shows "sole cs i" "ct_device (cs ! i) \<noteq> []"
  using assms
  by (auto simp: own_port_def Let_def port_used_by_other_controller_def sole_def list_ex_iff split: if_splits)

lemma map_filter_set: "y \<in> set (List.map_filter f xs) \<longleftrightarrow> (\<exists>x \<in> set xs. f x = Some y)"
  by (force simp: List.map_filter_def)

lemma available_port:
  assumes "available_port_index ports cs i = Some j"
  shows "j < length ports" "lp_path (ports ! j) \<noteq> []"
    "controller_config_allows_path Linux (ct_config (cs ! i)) (lp_path (ports ! j))"
    "k < length cs \<Longrightarrow> k \<noteq> i \<Longrightarrow> controller_uses_port (cs ! k) \<Longrightarrow> ct_device (cs ! k) \<noteq> lp_path (ports ! j)"
proof -
  let ?occupied = "List.map_filter (\<lambda>k. if k = i \<or> \<not> controller_uses_port (cs ! k) then None
    else port_index_from_path Linux (ct_device (cs ! k))) [0..<length cs]"
  obtain port where port: "select_controller_config_port (ct_config (cs ! i)) (present_port_indices ports) ?occupied = Some port"
    and found: "find_first (\<lambda>p. port_index_from_path Linux (lp_path p) = Some port) ports = Some j"
    using assms by (auto simp: available_port_index_def Let_def split: option.splits)
  from found have path: "j < length ports" "port_index_from_path Linux (lp_path (ports ! j)) = Some port"
    by (simp_all add: find_first_Some)
  from select_port_loop_Some [OF port [unfolded select_controller_config_port_def]]
  have "port \<in> set (controller_config_port_targets (ct_config (cs ! i)))" and free: "port \<notin> set ?occupied" by simp_all
  then have "controller_config_allows_port (ct_config (cs ! i)) port"
    by (auto simp: controller_config_port_targets_def controller_config_allows_port_def split: if_splits)
  with path show "controller_config_allows_path Linux (ct_config (cs ! i)) (lp_path (ports ! j))"
    by (simp add: controller_config_allows_path_def)
  show "j < length ports" by (rule path)
  show "lp_path (ports ! j) \<noteq> []"
  proof
    assume "lp_path (ports ! j) = []"
    with path(2) show False by (simp add: port_index_from_path_def)
  qed
  show "ct_device (cs ! k) \<noteq> lp_path (ports ! j)" if "k < length cs" "k \<noteq> i" "controller_uses_port (cs ! k)"
  proof
    assume "ct_device (cs ! k) = lp_path (ports ! j)"
    with path(2) that have "port \<in> set ?occupied" by (auto simp: map_filter_set intro!: bexI [of _ k])
    with free show False ..
  qed
qed

lemma assign_port_ok:
  assumes ok: "runtime_ok {} w" and i: "i < length (dm_controllers w)" and none: "ct_backend (dm_controllers w ! i) = None"
  shows "wp (assign_port i)
    (\<lambda>assigned w'. runtime_ok {} w' \<and> length (dm_controllers w') = length (dm_controllers w)
      \<and> (assigned \<longrightarrow> sole (dm_controllers w') i \<and> ct_device (dm_controllers w' ! i) \<noteq> []
          \<and> ct_backend (dm_controllers w' ! i) = None)) (\<lambda>_ _. False) w"
proof -
  let ?c = "dm_controllers w ! i"
  have rt: "rt_ok ?c" and unconnected: "\<not> ct_connected ?c" using runtime_okD(1) [OF ok i] none rt_okD(8) by auto
  have "sole ((dm_controllers w)[i := ?c\<lparr>ct_error := reason\<rparr>]) i" if "controller_uses_port ?c" for reason
    using that runtime_okD(3) [OF ok] i by (auto simp: users_distinct_def sole_def nth_list_update)
  then have refused: "runtime_ok {} (w\<lparr>dm_controllers := (dm_controllers w)[i := ?c\<lparr>ct_error := reason\<rparr>]\<rparr>)" for reason
    using rt i none by (intro runtime_ok_update [OF runtime_ok_mono [OF ok]]) (simp_all add: served_def)
  show ?thesis
  proof (cases "own_port (dm_ports w) (dm_controllers w) i = None \<and> dm_ports w \<noteq> []")
    case False
    with ok refused none show ?thesis
      by (auto simp: assign_port_def refuse_channel_def wp_simps own_port_sole)
  next
    case True
    show ?thesis
    proof (cases "available_port_index (dm_ports w) (dm_controllers w) i")
      case None
      with True refused show ?thesis by (simp add: assign_port_def refuse_channel_def wp_simps)
    next
      case (Some j)
      note port = available_port [OF Some]
      let ?new = "?c\<lparr>ct_device := lp_path (dm_ports w ! j)\<rparr>"
      have new: "rt_ok ?new" using rt port(2,3) by (auto simp: rt_ok_def)
      have sole: "sole ((dm_controllers w)[i := ?new]) i" using port(4) i by (auto simp: sole_def nth_list_update)
      have "runtime_ok {} (w\<lparr>dm_controllers := (dm_controllers w)[i := ?new]\<rparr>)"
        by (rule runtime_ok_update [OF runtime_ok_mono [OF ok] i new _ sole]) (simp_all add: none served_def)
      with True Some sole port(2) none i show ?thesis by (simp add: assign_port_def wp_simps)
    qed
  qed
qed

lemma keep_channel_ok:
  assumes ok: "runtime_ok {} w" and i: "i < length (dm_controllers w)" and "sole (dm_controllers w) i"
    and "ct_device (dm_controllers w ! i) \<noteq> []" and none: "ct_backend (dm_controllers w ! i) = None" and fd: "0 \<le> fd"
  shows "runtime_ok {} (w\<lparr>dm_controllers := (dm_controllers w)[i := keep_channel control fd (dm_controllers w ! i)]\<rparr>)"
proof -
  let ?c = "dm_controllers w ! i"
  have "rt_ok (keep_channel control fd ?c)"
    using runtime_okD(1) [OF ok i] assms(4-6) by (auto simp: keep_channel_def rt_ok_def controller_uses_port_def)
  then show ?thesis
    using assms(3) i none
    by (intro runtime_ok_update [OF runtime_ok_mono [OF ok] i])
      (auto simp: keep_channel_def served_def sole_def nth_list_update)
qed

lemma accept_channel_ok:
  assumes ok: "runtime_ok {} w" and fd: "0 \<le> ba_fd ch"
  shows "wp (accept_channel env control ch) (\<lambda>_. runtime_ok {}) (\<lambda>_ _. False) w"
proof (cases "controller_for_address (dm_controllers w) (ba_address ch)")
  case None
  with ok show ?thesis by (simp add: accept_channel_def wp_simps)
next
  case (Some i)
  then have i: "i < length (dm_controllers w)" by (simp add: controller_for_address_def find_first_Some)
  show ?thesis
  proof (cases "ct_backend (dm_controllers w ! i) = None")
    case False
    with ok Some show ?thesis by (simp add: accept_channel_def wp_simps)
  next
    case True
    have join: "wp (join_channels env i) (\<lambda>_. runtime_ok {}) (\<lambda>_ _. False)
        (w'\<lparr>dm_controllers := (dm_controllers w')[i := keep_channel control (ba_fd ch) (dm_controllers w' ! i)]\<rparr>)"
      if "runtime_ok {} w'" "length (dm_controllers w') = length (dm_controllers w)" "sole (dm_controllers w') i"
        "ct_device (dm_controllers w' ! i) \<noteq> []" "ct_backend (dm_controllers w' ! i) = None" for w' :: "('a, 'b) daemon"
      using that i fd by (intro join_channels_ok keep_channel_ok) simp_all
    have "wp (assign_port i) (\<lambda>assigned. wp (if \<not> assigned then ret ()
        else seq_act (upd_controller i (keep_channel control (ba_fd ch))) (join_channels env i))
          (\<lambda>_. runtime_ok {}) (\<lambda>_ _. False)) (\<lambda>_ _. False) w"
      by (rule wp_mono [OF assign_port_ok [OF ok i True]]) (use join in \<open>auto simp: wp_simps\<close>)
    with Some True show ?thesis by (simp add: accept_channel_def wp_with_state wp_bind)
  qed
qed

lemma accepted_fd: "accept_l2cap_psm ba2str psm answer = Inr (Some ch) \<Longrightarrow> 0 \<le> ba_fd ch"
  by (auto simp: accept_l2cap_psm_def split: accept_answer.splits option.splits)

lemma handle_bt_accept_ok:
  assumes "runtime_ok {} w"
  shows "wp (handle_bt_accept env control answers) (\<lambda>_. runtime_ok {}) (\<lambda>_ _. True) w"
  using assms
proof (induction answers arbitrary: w)
  case (Cons answer answers)
  have "wp (accept_channel env control ch) (\<lambda>_. wp (handle_bt_accept env control answers) (\<lambda>_. runtime_ok {}) (\<lambda>_ _. True))
      (\<lambda>_ _. True) w"
    if "accept_l2cap_psm (de_ba2str env) (if control then kHidControlPsm else kHidInterruptPsm) answer = Inr (Some ch)" for ch
    by (rule wp_mono [OF accept_channel_ok [OF Cons.prems accepted_fd [OF that]]]) (auto intro: Cons.IH)
  with Cons.prems show ?case by (auto simp: wp_simps split: sum.split option.split)
qed (simp add: wp_simps)

section \<open>Events\<close>

lemma handle_control_ok:
  assumes "runtime_ok {} w"
  shows "wp (handle_control_client env answer) (\<lambda>_. runtime_ok {}) (\<lambda>_ _. True) w"
proof (cases answer)
  case (Client_request request)
  have "runtime_ok {} (w\<lparr>dm_files := fs, dm_trace_flags := t, dm_reload := d, dm_messages := ms, dm_log := dm_log w @ [Client_reply reply]\<rparr>)"
    for fs t d ms reply
    using runtime_ok_log [of "{}" "w\<lparr>dm_files := fs, dm_trace_flags := t, dm_reload := d, dm_messages := ms\<rparr>" "Client_reply reply"]
      assms by (simp add: aside_def)
  with Client_request assms show ?thesis
    by (simp add: answer_command_def wp_simps split: prod.split)
qed (use assms in \<open>simp_all add: wp_simps\<close>)

lemma handle_event_ok:
  assumes ok: "runtime_ok {} w"
  shows "wp (handle_event env e) (\<lambda>_. runtime_ok {}) (\<lambda>_ _. True) w"
proof -
  have channel: "wp (serve_channel env handler i e') (\<lambda>_. runtime_ok {}) (\<lambda>_ _. True) w"
    if "\<And>b answer. serves b (handler b answer)" for handler i e'
    by (rule wp_mono [OF serve_channel_ok [OF that ok]]) simp_all
  obtain t index where "decode_event (re_data e) = (t, index)" by (rule prod.exhaust)
  then show ?thesis
    using channel [OF handlers_serve(2)] channel [OF handlers_serve(3)] serve_port_ok [OF ok]
      handle_control_ok [OF ok] handle_bt_accept_ok [OF ok] ok
    by (cases t) (auto simp: handle_event_def wp_simps request_reload_def split: event_type.split intro: wp_mono)
qed

lemma handle_events_ok:
  "runtime_ok {} w \<Longrightarrow> wp (for_each (handle_event env) es) (\<lambda>_. runtime_ok {}) (\<lambda>_ _. True) w"
proof (induction es arbitrary: w)
  case (Cons e es)
  show ?case
    unfolding for_each.simps wp_seq
    by (rule wp_mono [OF handle_event_ok [OF Cons.prems]]) (use Cons.IH in auto)
qed (simp add: wp_simps)

end
