(* ===== verification/LinuxReload.thy ===== *)
theory LinuxReload
  imports LinuxConnect
begin

text \<open>
  Reloading the database of the Linux daemon: the ports follow the nodes of the kernel module, every
  configuration keeps the connection it had when it may, and what fails leaves the invariant.
\<close>

lemma wp_upd_fun: "wp (upd f) Q E = (\<lambda>w. Q () (f w))"
  by (simp add: fun_eq_iff wp_upd)

lemma wp_with_state_fun: "wp (with_state k) Q E = (\<lambda>w. wp (k w) Q E w)"
  by (simp add: fun_eq_iff wp_with_state)

section \<open>Disconnecting a port\<close>

definition with_controllers :: "('s, 'd) daemon \<Rightarrow> controller_rt list \<Rightarrow> ('s, 'd) daemon" where
  "with_controllers w cs = w\<lparr>dm_controllers := cs\<rparr>"

lemma with_controllers_simps [simp]:
  "dm_controllers (with_controllers w cs) = cs" "dm_ports (with_controllers w cs) = dm_ports w"
  "dm_log (with_controllers w cs) = dm_log w" "with_controllers w (dm_controllers w) = w"
  "with_controllers (with_controllers w cs) cs' = with_controllers w cs'"
  by (simp_all add: with_controllers_def)

text \<open>No connected controller of the list has the port.\<close>

definition unused :: "string \<Rightarrow> nat set \<Rightarrow> controller_rt list \<Rightarrow> bool" where
  "unused path X cs \<longleftrightarrow> (\<forall>k < length cs. k \<notin> X \<longrightarrow> ct_backend (cs ! k) \<noteq> None \<longrightarrow> ct_device (cs ! k) \<noteq> path)"

lemma wp_disconnect_port:
  assumes "j < length (dm_ports w)" and "port_ok (dm_ports w ! j)"
    and "\<And>w'. dm_controllers w' = dm_controllers w \<Longrightarrow> map lp_path (dm_ports w') = map lp_path (dm_ports w) \<Longrightarrow>
      (\<And>X cs. runtime_ok X (with_controllers w cs) \<Longrightarrow> unused (lp_path (dm_ports w ! j)) X cs \<Longrightarrow>
        runtime_ok X (with_controllers w' cs)) \<Longrightarrow> Q () w'"
  shows "wp (on_port j (disconnect_virtual_port env)) Q (\<lambda>_ _. False) w"
proof -
  let ?l0 = "\<lparr>lk_port = dm_ports w ! j, lk_log = dm_log w\<rparr>" and ?path = "lp_path (dm_ports w ! j)"
  have "port_ok (lk_port ?l0)" using assms(2) by simp
  note wp = wp_disconnect [OF this, of env no_backend]
  have "Q () (w\<lparr>dm_ports := (dm_ports w)[j := lk_port l], dm_log := lk_log l\<rparr>)"
    if l: "port_ok (lk_port l)" "lp_path (lk_port l) = ?path" "lk_log l = dm_log w @ es" "list_all (placed no_backend ?path) es"
    for l :: "('a, 'b) link" and es
  proof (rule assms(3))
    let ?w = "w\<lparr>dm_ports := (dm_ports w)[j := lk_port l], dm_log := lk_log l\<rparr>"
    show "dm_controllers ?w = dm_controllers w" by simp
    show "map lp_path (dm_ports ?w) = map lp_path (dm_ports w)" using l by (simp del: map_update)
    fix X cs
    assume ok: "runtime_ok X (with_controllers w cs)" and unused: "unused ?path X cs"
    have "elsewhere no_backend ?path (cs ! k)" if "k < length cs" "k \<notin> X" for k
      using runtime_okD(1) [OF ok, of k] that unused rt_okD(3) [of "cs ! k"]
      by (auto simp: elsewhere_def unused_def no_backend_def)
    then have "runtime_ok X ((with_controllers w cs)\<lparr>dm_ports := (dm_ports w)[j := lk_port l], dm_log := lk_log l\<rparr>)"
      using runtime_ok_port [OF ok l(1), of j "lk_log l" es no_backend] l by simp
    then show "runtime_ok X (with_controllers ?w cs)" by (simp add: runtime_ok_def with_controllers_def)
  qed
  then show ?thesis
    unfolding wp_on_port by (intro wp_mono [OF wp]) auto
qed

text \<open>A controller loses its port, which is disconnected when it exists.\<close>

lemma users_unused:
  assumes "users_distinct cs" and "i < length cs" and "controller_uses_port (cs ! i)"
  shows "unused (ct_device (cs ! i)) {i} cs"
  using assms by (fastforce simp: unused_def users_distinct_def sole_def controller_uses_port_def)

definition keep_or_release :: "nat \<Rightarrow> ('s, 'd) daemon \<Rightarrow> ('s, 'd) daemon \<Rightarrow> bool" where
  "keep_or_release i w w' \<longleftrightarrow> map lp_path (dm_ports w') = map lp_path (dm_ports w)
     \<and> dm_controllers w' = (dm_controllers w)[i := release_port (dm_controllers w ! i)]"

lemma wp_release_controller:
  assumes ok: "runtime_ok {} w" and i: "i < length (dm_controllers w)" and uses: "controller_uses_port (dm_controllers w ! i)"
    and m: "m = on_port j (disconnect_virtual_port env) \<or> m = ret ()"
    and j: "find_port_index (dm_ports w) (ct_device (dm_controllers w ! i)) = Some j \<or> m = ret ()"
  shows "wp (seq_act m (upd_controller i release_port))
    (\<lambda>_ w'. runtime_ok {} w' \<and> keep_or_release i w w'
      \<and> (\<forall>cs. runtime_ok {} (with_controllers w cs) \<longrightarrow> unused (ct_device (dm_controllers w ! i)) {} cs \<longrightarrow>
           runtime_ok {} (with_controllers w' cs))) (\<lambda>_ _. False) w"
proof (cases "m = ret ()")
  case True
  have "runtime_ok {} (w\<lparr>dm_controllers := (dm_controllers w)[i := release_port (dm_controllers w ! i)]\<rparr>)"
    by (rule runtime_ok_release [OF runtime_ok_mono [OF ok]]) simp_all
  with True show ?thesis by (simp add: wp_simps keep_or_release_def with_controllers_def)
next
  case False
  with m j have m: "m = on_port j (disconnect_virtual_port env)"
    and j: "find_port_index (dm_ports w) (ct_device (dm_controllers w ! i)) = Some j" by auto
  from find_port_Some [OF j] have path: "j < length (dm_ports w)" "lp_path (dm_ports w ! j) = ct_device (dm_controllers w ! i)"
    by simp_all
  note unused = users_unused [OF runtime_okD(3) [OF ok] i uses]
  show ?thesis
    unfolding m wp_seq
  proof (rule wp_disconnect_port [OF path(1) runtime_okD(4) [OF ok path(1)]])
    fix w' :: "('a, 'b) daemon"
    assume w': "dm_controllers w' = dm_controllers w" "map lp_path (dm_ports w') = map lp_path (dm_ports w)"
      and keeps: "\<And>X cs. runtime_ok X (with_controllers w cs) \<Longrightarrow> unused (lp_path (dm_ports w ! j)) X cs \<Longrightarrow>
        runtime_ok X (with_controllers w' cs)"
    have "runtime_ok {i} (with_controllers w (dm_controllers w))" using runtime_ok_mono [OF ok] by simp
    from keeps [OF this] unused path have "runtime_ok {i} (with_controllers w' (dm_controllers w))" by simp
    then have "runtime_ok {i} w'" by (simp flip: w'(1))
    then have "runtime_ok {} (w'\<lparr>dm_controllers := (dm_controllers w')[i := release_port (dm_controllers w' ! i)]\<rparr>)"
      by (rule runtime_ok_release) simp_all
    moreover have "runtime_ok {} (with_controllers w' cs)"
      if "runtime_ok {} (with_controllers w cs)" "unused (ct_device (dm_controllers w ! i)) {} cs" for cs
      using keeps [OF that(1)] that(2) path by simp
    ultimately show "wp (upd_controller i release_port)
      (\<lambda>_ w'. runtime_ok {} w' \<and> keep_or_release i w w'
        \<and> (\<forall>cs. runtime_ok {} (with_controllers w cs) \<longrightarrow> unused (ct_device (dm_controllers w ! i)) {} cs \<longrightarrow>
           runtime_ok {} (with_controllers w' cs))) (\<lambda>_ _. False) w'"
      using w' by (auto simp: wp_simps keep_or_release_def with_controllers_def)
  qed
qed

section \<open>Lost nodes\<close>

definition all_found :: "('s, 'd) daemon \<Rightarrow> bool" where
  "all_found w \<longleftrightarrow> (\<forall>k < length (dm_controllers w). found w k)"

lemma release_length: "keep_or_release i w w' \<Longrightarrow> length (dm_controllers w') = length (dm_controllers w)"
  by (simp add: keep_or_release_def)

lemma release_found:
  "keep_or_release i w w' \<Longrightarrow> i < length (dm_controllers w) \<Longrightarrow> all_found w \<Longrightarrow> all_found w'"
  by (auto simp: keep_or_release_def all_found_def found_def find_port_map nth_list_update)

lemma release_lost_ok:
  assumes ok: "runtime_ok {} w" and i: "i < length (dm_controllers w)" and "all_found w"
  shows "wp (release_lost env devices i) (\<lambda>_ w'. runtime_ok {} w' \<and> all_found w'
    \<and> length (dm_controllers w') = length (dm_controllers w)) (\<lambda>_ _. False) w"
proof (cases "\<not> controller_uses_port (dm_controllers w ! i) \<or> ct_device (dm_controllers w ! i) \<in> set devices")
  case True
  with assms show ?thesis by (auto simp: release_lost_def wp_simps)
next
  case False
  let ?m = "case find_port_index (dm_ports w) (ct_device (dm_controllers w ! i)) of
      None \<Rightarrow> ret () | Some j \<Rightarrow> on_port j (disconnect_virtual_port (de_os env))"
  have "wp (seq_act ?m (upd_controller i release_port))
    (\<lambda>_ w'. runtime_ok {} w' \<and> keep_or_release i w w'
      \<and> (\<forall>cs. runtime_ok {} (with_controllers w cs) \<longrightarrow> unused (ct_device (dm_controllers w ! i)) {} cs \<longrightarrow>
           runtime_ok {} (with_controllers w' cs))) (\<lambda>_ _. False) w"
    using False
    by (cases "find_port_index (dm_ports w) (ct_device (dm_controllers w ! i))")
      (auto intro!: wp_release_controller [OF ok i])
  then have "wp (seq_act ?m (upd_controller i release_port)) (\<lambda>_ w'. runtime_ok {} w' \<and> all_found w'
      \<and> length (dm_controllers w') = length (dm_controllers w)) (\<lambda>_ _. False) w"
    by (rule wp_mono) (use assms(2,3) in \<open>auto dest: release_found release_length\<close>)
  with False show ?thesis by (simp add: release_lost_def wp_with_state Let_def)
qed

lemma release_all_lost:
  assumes "runtime_ok {} w" and "all_found w"
  shows "wp (for_controllers (release_lost env devices)) (\<lambda>_ w'. runtime_ok {} w' \<and> all_found w') (\<lambda>_ _. False) w"
proof -
  let ?P = "\<lambda>k w'. runtime_ok {} w' \<and> all_found w' \<and> length (dm_controllers w') = length (dm_controllers w)"
  have "wp (for_controllers (release_lost env devices)) (\<lambda>_. ?P (length (dm_controllers w))) (\<lambda>_ _. False) w"
  proof (rule wp_for_controllers [where P = ?P])
    fix k and w' :: "('a, 'b) daemon"
    assume "k < length (dm_controllers w)" "?P k w'"
    then show "wp (release_lost env devices k) (\<lambda>_. ?P (Suc k)) (\<lambda>_ _. False) w'"
      by (intro wp_mono [OF release_lost_ok]) auto
  qed (use assms in auto)
  then show ?thesis by (rule wp_mono) auto
qed

section \<open>The ports follow the nodes\<close>

text \<open>While the vector is rebuilt, the ports of the nodes seen so far have been moved from.\<close>

definition moved :: "string list \<Rightarrow> ('s, 'd) linux_port list \<Rightarrow> ('s, 'd) linux_port list" where
  "moved devices ports = map (\<lambda>p. if lp_path p \<in> set devices then moved_from p else p) ports"

definition taken_from :: "('s, 'd) linux_port list \<Rightarrow> string \<Rightarrow> ('s, 'd) linux_port \<Rightarrow> bool" where
  "taken_from ports d p \<longleftrightarrow> lp_path p = d \<and> port_ok p \<and> (\<forall>j. find_port_index ports d = Some j \<longrightarrow> p = ports ! j)"

lemma find_moved:
  "d \<noteq> [] \<Longrightarrow> find_port_index (moved devices ports) d = (if d \<in> set devices then None else find_port_index ports d)"
  unfolding find_port_index_def moved_def by (induction ports) (auto simp: moved_from_def)

lemma moved_nth: "j < length ports \<Longrightarrow> lp_path (ports ! j) \<notin> set devices \<Longrightarrow> moved devices ports ! j = ports ! j"
  by (simp add: moved_def)

lemma find_port_unique:
  assumes "paths_ok (map lp_path ports)" and "find_port_index ports d = Some j" and "d \<noteq> []"
    and "k < length ports" and "lp_path (ports ! k) = d"
  shows "k = j"
  using find_path [of ports k] assms by simp

lemma moved_step:
  assumes "paths_ok (map lp_path ports)" and "find_port_index ports d = Some j" and "d \<noteq> []" and "d \<notin> set devices"
  shows "(moved devices ports)[j := moved_from (moved devices ports ! j)] = moved (devices @ [d]) ports"
proof (rule nth_equalityI)
  fix k
  assume "k < length ((moved devices ports)[j := moved_from (moved devices ports ! j)])"
  then have k: "k < length ports" by (simp add: moved_def)
  show "(moved devices ports)[j := moved_from (moved devices ports ! j)] ! k = moved (devices @ [d]) ports ! k"
  proof (cases "k = j")
    case True
    with k assms(2,4) find_port_Some [OF assms(2)] show ?thesis by (simp add: moved_def)
  next
    case False
    with k find_port_unique [OF assms(1-3)] have "lp_path (ports ! k) \<noteq> d" by blast
    with k False show ?thesis by (simp add: moved_def)
  qed
qed (simp add: moved_def)

lemma open_port_ok: "open_port env d = Inr p \<Longrightarrow> lp_path p = d \<and> port_ok p"
  by (auto simp: open_port_def bind_result_def port_ok_def pending_matches_def cache_ok_def drops_add_up_def no_counts_def
      initial_output_def kInitialDsState_def kInitialSetStateData_def split: sum.splits)

lemma sync_loop_ok:
  assumes ports: "paths_ok (map lp_path ports)" "list_all port_ok ports"
    and "distinct (seen @ devices)" "[] \<notin> set devices" "list_all2 (taken_from ports) seen updated"
    and "dm_ports w = moved seen ports"
  shows "wp (sync_loop env devices updated)
    (\<lambda>updated w'. list_all2 (taken_from ports) (seen @ devices) updated \<and> (\<exists>ds. w' = w\<lparr>dm_ports := moved ds ports\<rparr>))
    (\<lambda>_ w'. \<exists>ds. w' = w\<lparr>dm_ports := moved ds ports\<rparr>) w"
  using assms(3-)
proof (induction devices arbitrary: seen updated w)
  case Nil
  then have "\<exists>ds. w = w\<lparr>dm_ports := moved ds ports\<rparr>" by (intro exI [of _ seen]) simp
  with Nil show ?case by (simp add: wp_simps)
next
  case (Cons d devices)
  from Cons.prems have d: "d \<noteq> []" "d \<notin> set seen" by auto
  have here: "find_port_index (dm_ports w) d = find_port_index ports d"
    using Cons.prems(4) d by (simp add: find_moved)
  have stay: "w = w\<lparr>dm_ports := moved seen ports\<rparr>" using Cons.prems(4) by simp
  show ?case
  proof (cases "find_port_index ports d")
    case (Some j)
    from find_port_Some [OF Some] d have j: "j < length ports" "moved seen ports ! j = ports ! j" "lp_path (ports ! j) = d"
      by (simp_all add: moved_nth)
    have taken: "taken_from ports d (ports ! j)" using Some j ports(2) by (simp add: taken_from_def list_all_length)
    let ?w = "w\<lparr>dm_ports := moved (seen @ [d]) ports\<rparr>"
    have "wp (sync_loop env devices (updated @ [ports ! j]))
      (\<lambda>updated w'. list_all2 (taken_from ports) ((seen @ [d]) @ devices) updated \<and> (\<exists>ds. w' = ?w\<lparr>dm_ports := moved ds ports\<rparr>))
      (\<lambda>_ w'. \<exists>ds. w' = ?w\<lparr>dm_ports := moved ds ports\<rparr>) ?w"
      using Cons.prems taken by (intro Cons.IH) (auto intro: list_all2_appendI)
    moreover have "(dm_ports w)[j := moved_from (dm_ports w ! j)] = moved (seen @ [d]) ports"
      unfolding Cons.prems(4) using moved_step [OF ports(1) Some d] .
    ultimately show ?thesis using Some here j Cons.prems(4) by (simp add: wp_simps)
  next
    case None
    have "wp (sync_loop env devices (updated @ [p]))
      (\<lambda>updated w'. list_all2 (taken_from ports) ((seen @ [d]) @ devices) updated \<and> (\<exists>ds. w' = w\<lparr>dm_ports := moved ds ports\<rparr>))
      (\<lambda>_ w'. \<exists>ds. w' = w\<lparr>dm_ports := moved ds ports\<rparr>) w" if "open_port (de_os env) d = Inr p" for p
    proof (rule Cons.IH)
      have "taken_from ports d p" using open_port_ok [OF that] None by (simp add: taken_from_def)
      with Cons.prems(3) show "list_all2 (taken_from ports) (seen @ [d]) (updated @ [p])" by (simp add: list_all2_appendI)
      have "moved (seen @ [d]) ports = moved seen ports"
        using None by (auto simp: moved_def find_port_index_def find_first_None)
      then show "dm_ports w = moved (seen @ [d]) ports" using Cons.prems(4) by simp
    qed (use Cons.prems in auto)
    with None here stay show ?thesis by (auto simp: wp_simps split: option.split sum.split)
  qed
qed

lemma runtime_ok_ports:
  assumes ok: "runtime_ok {} w" and "list_all port_ok ports" and "paths_ok (map lp_path ports)"
    and "\<And>c b k. c \<in> set (dm_controllers w) \<Longrightarrow> ct_backend c = Some b \<Longrightarrow> find_port_index ports (ct_device c) = Some k \<Longrightarrow>
      \<exists>j. find_port_index (dm_ports w) (ct_device c) = Some j \<and> ports ! k = dm_ports w ! j"
  shows "runtime_ok {} (w\<lparr>dm_ports := ports\<rparr>)"
proof -
  have "served ports (dm_log w) (dm_controllers w ! k)" if "k < length (dm_controllers w)" for k
    using runtime_okD(5) [OF ok that] assms(4) [OF nth_mem [OF that]] by (fastforce simp: served_def)
  with assms(1-3) show ?thesis by (simp add: runtime_ok_def)
qed

lemma paths_ok_moved: "paths_ok (map lp_path ports) \<Longrightarrow> paths_ok (map lp_path (moved devices ports))"
proof (induction ports)
  case (Cons p ports)
  have sub: "set (filter (\<lambda>path. path \<noteq> []) (map lp_path (moved devices ports))) \<subseteq> set (filter (\<lambda>path. path \<noteq> []) (map lp_path ports))"
    by (auto simp: moved_def moved_from_def)
  from Cons show ?case using sub
    by (auto simp: paths_ok_def moved_def moved_from_def split: if_splits)
qed (simp add: moved_def)

lemma moved_ok:
  assumes ok: "runtime_ok {} w"
  shows "runtime_ok {} (w\<lparr>dm_ports := moved devices (dm_ports w)\<rparr>)"
proof (rule runtime_ok_ports [OF ok])
  have "port_ok (moved_from p)" if "port_ok p" for p :: "('a, 'b) linux_port"
    using that by (simp add: moved_from_def port_ok_def pending_matches_def)
  then show "list_all port_ok (moved devices (dm_ports w))"
    using runtime_okD(4) [OF ok] by (auto simp: moved_def list_all_length)
  show "paths_ok (map lp_path (moved devices (dm_ports w)))" by (rule paths_ok_moved [OF runtime_okD(6) [OF ok]])
  fix c b k
  assume c: "c \<in> set (dm_controllers w)" "ct_backend c = Some b"
    and k: "find_port_index (moved devices (dm_ports w)) (ct_device c) = Some k"
  have "rt_ok c" using c(1) runtime_okD(1) [OF ok] by (auto simp: in_set_conv_nth)
  with c(2) have "ct_device c \<noteq> []" using rt_okD(5) [of c] by (simp add: controller_uses_port_def)
  with k have old: "find_port_index (dm_ports w) (ct_device c) = Some k" and "ct_device c \<notin> set devices"
    by (simp_all add: find_moved split: if_splits)
  with find_port_Some [OF old] show "\<exists>j. find_port_index (dm_ports w) (ct_device c) = Some j \<and>
      moved devices (dm_ports w) ! k = dm_ports w ! j" by (auto simp: moved_nth)
qed

lemma sync_ports_ok:
  assumes ok: "runtime_ok {} w" and found: "all_found w"
    and nodes: "distinct devices" "[] \<notin> set devices"
  shows "wp (sync_virtual_ports env devices)
    (\<lambda>_ w'. runtime_ok {} w' \<and> dm_controllers w' = dm_controllers w) (\<lambda>_. runtime_ok {}) w"
proof -
  let ?ports = "dm_ports w"
  have "moved [] ?ports = ?ports" by (simp add: moved_def map_idI)
  then have loop: "wp (sync_loop env devices [])
    (\<lambda>updated w'. list_all2 (taken_from ?ports) ([] @ devices) updated \<and> (\<exists>ds. w' = w\<lparr>dm_ports := moved ds ?ports\<rparr>))
    (\<lambda>_ w'. \<exists>ds. w' = w\<lparr>dm_ports := moved ds ?ports\<rparr>) w"
    using runtime_okD(6) [OF ok] runtime_okD(4) [OF ok] nodes by (intro sync_loop_ok) (simp_all add: list_all_length)
  have "runtime_ok {} (w\<lparr>dm_ports := updated\<rparr>)" if taken: "list_all2 (taken_from ?ports) devices updated" for updated
  proof (rule runtime_ok_ports [OF ok])
    have paths: "map lp_path updated = devices" using taken by (induction) (auto simp: taken_from_def)
    show "list_all port_ok updated" using taken by (induction) (auto simp: taken_from_def)
    show "paths_ok (map lp_path updated)" using nodes by (simp add: paths paths_ok_def)
    fix c b k
    assume c: "c \<in> set (dm_controllers w)" "ct_backend c = Some b" and k: "find_port_index updated (ct_device c) = Some k"
    from c(1) obtain i where i: "i < length (dm_controllers w)" "c = dm_controllers w ! i" by (auto simp: in_set_conv_nth)
    with found c(2) obtain j where j: "find_port_index ?ports (ct_device c) = Some j" by (auto simp: all_found_def found_def)
    from find_port_Some [OF k] have "taken_from ?ports (devices ! k) (updated ! k)" "devices ! k = ct_device c"
      using taken paths by (auto simp: list_all2_conv_all_nth)
    with j show "\<exists>j. find_port_index ?ports (ct_device c) = Some j \<and> updated ! k = ?ports ! j"
      by (auto simp: taken_from_def)
  qed
  then show ?thesis
    unfolding sync_virtual_ports_def wp_bind
    by (intro wp_mono [OF loop]) (use moved_ok [OF ok] in \<open>auto simp: wp_simps\<close>)
qed

section \<open>Binding the configurations\<close>

text \<open>
  The new runtimes satisfy the invariant beside the old ones; a port a new runtime uses is the port
  of the old runtime it has taken over.
\<close>

definition binding_ok :: "controller_config list \<Rightarrow> binding_state \<Rightarrow> ('s, 'd) daemon \<Rightarrow> bool" where
  "binding_ok configs acc w \<longleftrightarrow> (case acc of (preserved, active, heirs) \<Rightarrow>
     runtime_ok {} w \<and> runtime_ok {} (with_controllers w heirs)
     \<and> length preserved = length (dm_controllers w) \<and> addresses heirs = map cc_address configs
     \<and> (\<forall>h \<in> set heirs. controller_uses_port h \<longrightarrow> ct_device h \<in> set active)
     \<and> (\<forall>a \<in> set active. \<exists>k < length preserved. preserved ! k \<and> controller_uses_port (dm_controllers w ! k)
          \<and> ct_device (dm_controllers w ! k) = a))"

lemma binding_okD:
  assumes "binding_ok configs (preserved, active, heirs) w"
  shows "runtime_ok {} w" "runtime_ok {} (with_controllers w heirs)" "length preserved = length (dm_controllers w)"
    "addresses heirs = map cc_address configs"
    "h \<in> set heirs \<Longrightarrow> controller_uses_port h \<Longrightarrow> ct_device h \<in> set active"
    "a \<in> set active \<Longrightarrow> \<exists>k < length preserved. preserved ! k \<and> controller_uses_port (dm_controllers w ! k)
          \<and> ct_device (dm_controllers w ! k) = a"
  using assms unfolding binding_ok_def prod.case by blast+

text \<open>The port of a runtime that was not taken over is not used by a new one.\<close>

lemma binding_unused:
  assumes ok: "binding_ok configs (preserved, active, heirs) w" and k: "k < length (dm_controllers w)"
    and "\<not> preserved ! k" and "controller_uses_port (dm_controllers w ! k)"
  shows "unused (ct_device (dm_controllers w ! k)) {} heirs"
  unfolding unused_def
proof (intro allI impI notI)
  fix n
  assume n: "n < length heirs" "ct_backend (heirs ! n) \<noteq> None" and same: "ct_device (heirs ! n) = ct_device (dm_controllers w ! k)"
  then have "ct_device (heirs ! n) \<in> set active"
    using binding_okD(5) [OF ok nth_mem [OF n(1)]] by (simp add: controller_uses_port_def)
  from binding_okD(6) [OF ok this] obtain m where m: "m < length preserved" "preserved ! m"
    "controller_uses_port (dm_controllers w ! m)" "ct_device (dm_controllers w ! m) = ct_device (heirs ! n)" by blast
  with assms(3) have "m \<noteq> k" by auto
  moreover have "sole (dm_controllers w) k"
    using runtime_okD(3) [OF binding_okD(1) [OF ok]] k assms(4) by (simp add: users_distinct_def)
  ultimately show False using m binding_okD(3) [OF ok] same by (simp add: sole_def)
qed

lemma runtime_ok_add:
  assumes ok: "runtime_ok {} (with_controllers w heirs)" and "rt_ok h" and "cc_address (ct_config h) \<notin> set (addresses heirs)"
    and apart: "\<And>g. g \<in> set heirs \<Longrightarrow> controller_uses_port g \<Longrightarrow> controller_uses_port h \<Longrightarrow> ct_device g \<noteq> ct_device h"
    and "served (dm_ports w) (dm_log w) h"
  shows "runtime_ok {} (with_controllers w (heirs @ [h]))"
proof -
  have "ct_device (heirs ! k) \<noteq> ct_device h"
    if "k < length heirs" "controller_uses_port (heirs ! k)" "controller_uses_port h" for k
    using apart [OF nth_mem [OF that(1)] that(2,3)] .
  then have "users_distinct (heirs @ [h])"
    using runtime_okD(3) [OF ok] by (fastforce simp: users_distinct_def sole_def nth_append less_Suc_eq)
  with assms show ?thesis
    by (auto simp: runtime_ok_def addresses_def nth_append less_Suc_eq)
qed

lemma rt_ok_fresh: "wf_config config \<Longrightarrow> rt_ok (fresh_runtime config)"
  by (simp add: rt_ok_def fresh_runtime_def controller_uses_port_def)

lemma fresh_simps [simp]:
  "ct_config (fresh_runtime config) = config" "ct_backend (fresh_runtime config) = None"
  "\<not> controller_uses_port (fresh_runtime config)"
  by (simp_all add: fresh_runtime_def controller_uses_port_def)

lemma binding_add:
  assumes ok: "binding_ok configs (preserved, active, heirs) w" and h: "rt_ok h" "ct_config h = config" "\<not> controller_uses_port h"
    and "cc_address config \<notin> set (map cc_address configs)"
  shows "binding_ok (configs @ [config]) (preserved, active, heirs @ [h]) w"
proof -
  have "runtime_ok {} (with_controllers w (heirs @ [h]))"
    using h assms(5) binding_okD(4) [OF ok]
    by (intro runtime_ok_add [OF binding_okD(2) [OF ok]]) (auto simp: served_def controller_uses_port_def)
  with ok h show ?thesis by (auto simp: binding_ok_def addresses_def)
qed

lemma binding_mark:
  assumes "binding_ok configs (preserved, active, heirs) w" and "k < length preserved"
  shows "binding_ok configs (preserved[k := True], active, heirs) w"
proof -
  have "\<exists>m < length preserved. preserved[k := True] ! m \<and> controller_uses_port (dm_controllers w ! m)
      \<and> ct_device (dm_controllers w ! m) = a" if "a \<in> set active" for a
    using binding_okD(6) [OF assms(1) that] by (metis assms(2) nth_list_update)
  with assms(1) show ?thesis by (simp add: binding_ok_def)
qed

text \<open>A runtime that lends its port to its successor, and one that does not.\<close>

lemma binding_inherit:
  assumes ok: "binding_ok configs (preserved, active, heirs) w" and k: "k < length (dm_controllers w)" "\<not> preserved ! k"
    and uses: "controller_uses_port (dm_controllers w ! k)" and free: "ct_device (dm_controllers w ! k) \<notin> set active"
    and allowed: "controller_config_allows_path Linux config (ct_device (dm_controllers w ! k))"
    and config: "wf_config config" "cc_address (ct_config (dm_controllers w ! k)) = cc_address config"
    and new: "cc_address config \<notin> set (map cc_address configs)"
  shows "binding_ok (configs @ [config]) (preserved[k := True], active @ [ct_device (dm_controllers w ! k)],
    heirs @ [(dm_controllers w ! k)\<lparr>ct_config := config\<rparr>]) w"
proof -
  let ?old = "dm_controllers w ! k" and ?heir = "(dm_controllers w ! k)\<lparr>ct_config := config\<rparr>"
  note runtime = binding_okD(1) [OF ok]
  have rt: "rt_ok ?old" by (rule runtime_okD(1) [OF runtime k(1)])
  have same: "controller_uses_port ?heir = controller_uses_port ?old" by (simp add: controller_uses_port_def)
  have "rt_ok ?heir" using rt allowed config by (auto simp: rt_ok_def same)
  moreover have "served (dm_ports w) (dm_log w) ?heir"
    using runtime_okD(5) [OF runtime k(1)] by (simp add: served_def)
  moreover have "ct_device g \<noteq> ct_device ?old" if "g \<in> set heirs" "controller_uses_port g" for g
    using binding_okD(5) [OF ok that] free by auto
  ultimately have "runtime_ok {} (with_controllers w (heirs @ [?heir]))"
    using binding_okD(4) [OF ok] new
    by (intro runtime_ok_add [OF binding_okD(2) [OF ok]]) auto
  moreover note marked = binding_mark [OF ok, of k]
  have "length preserved = length (dm_controllers w)" by (rule binding_okD(3) [OF ok])
  with marked k(1) have marked: "binding_ok configs (preserved[k := True], active, heirs) w" by simp
  moreover have "\<exists>m < length preserved. preserved[k := True] ! m \<and> controller_uses_port (dm_controllers w ! m)
      \<and> ct_device (dm_controllers w ! m) = ct_device ?old"
    using uses k(1) binding_okD(3) [OF ok] by (intro exI [of _ k]) simp
  ultimately show ?thesis
    using binding_okD(5) [OF ok] by (auto simp: binding_ok_def addresses_def)
qed

lemma wp_refuse_port:
  assumes ok: "binding_ok configs (preserved, active, heirs) w" and k: "k < length (dm_controllers w)" "\<not> preserved ! k"
    and uses: "controller_uses_port (dm_controllers w ! k)"
    and m: "m = on_port j (disconnect_virtual_port env) \<or> m = ret ()"
    and j: "find_port_index (dm_ports w) (ct_device (dm_controllers w ! k)) = Some j \<or> m = ret ()"
  shows "wp (seq_act m (upd_controller k release_port)) (\<lambda>_ w'. binding_ok configs (preserved, active, heirs) w') (\<lambda>_ _. False) w"
proof (rule wp_mono [OF wp_release_controller [OF binding_okD(1) [OF ok] k(1) uses m j]])
  fix u w'
  assume released: "runtime_ok {} w' \<and> keep_or_release k w w'
      \<and> (\<forall>cs. runtime_ok {} (with_controllers w cs) \<longrightarrow> unused (ct_device (dm_controllers w ! k)) {} cs \<longrightarrow>
           runtime_ok {} (with_controllers w' cs))"
  then have heirs: "runtime_ok {} (with_controllers w' heirs)"
    using binding_okD(2) [OF ok] binding_unused [OF ok k uses] by blast
  have cs: "dm_controllers w' = (dm_controllers w)[k := release_port (dm_controllers w ! k)]"
    using released by (simp add: keep_or_release_def)
  have "\<exists>m < length preserved. preserved ! m \<and> controller_uses_port (dm_controllers w' ! m) \<and> ct_device (dm_controllers w' ! m) = a"
    if "a \<in> set active" for a
    using binding_okD(6) [OF ok that] k(2) unfolding cs by (metis nth_list_update_neq)
  with heirs released ok show "binding_ok configs (preserved, active, heirs) w'"
    by (simp add: binding_ok_def keep_or_release_def)
qed simp

lemma previous_runtime_Some:
  "previous_runtime cs preserved config = Some k \<Longrightarrow> k < length cs \<and> \<not> preserved ! k
    \<and> cc_address (ct_config (cs ! k)) = cc_address config"
  by (auto simp: previous_runtime_def find_first_Some)

lemma take_over_ok:
  assumes ok: "binding_ok configs (preserved, active, heirs) w"
    and k: "previous_runtime (dm_controllers w) preserved config = Some k"
    and config: "wf_config config" "cc_address config \<notin> set (map cc_address configs)"
  shows "wp (take_over env config k active)
    (\<lambda>(active', heir) w'. binding_ok (configs @ [config]) (preserved[k := True], active', heirs @ [heir]) w') (\<lambda>_ _. False) w"
proof -
  let ?old = "dm_controllers w ! k"
  let ?heir = "(fresh_runtime config)\<lparr>ct_profile := ct_profile ?old, ct_error := ct_error ?old\<rparr>"
  let ?present = "ct_device ?old \<noteq> [] \<and> find_port_index (dm_ports w) (ct_device ?old) \<noteq> None"
  let ?available = "?present \<and> controller_config_allows_path Linux config (ct_device ?old) \<and> ct_device ?old \<notin> set active"
  from previous_runtime_Some [OF k] have k: "k < length (dm_controllers w)" "\<not> preserved ! k"
    "cc_address (ct_config ?old) = cc_address config" by simp_all
  have heir: "rt_ok ?heir" "ct_config ?heir = config" "\<not> controller_uses_port ?heir"
    using config(1) by (simp_all add: rt_ok_def fresh_runtime_def controller_uses_port_def)
  have mark: "binding_ok (configs @ [config]) (preserved[k := True], active, heirs @ [?heir]) w'"
    if "binding_ok configs (preserved, active, heirs) w'" for w' :: "('a, 'b) daemon"
  proof -
    have "k < length preserved" using k(1) binding_okD(3) [OF ok] by simp
    from binding_add [OF binding_mark [OF that this] heir config(2)] show ?thesis .
  qed
  show ?thesis
  proof (cases "controller_uses_port ?old")
    case False
    with mark [OF ok] show ?thesis by (simp add: take_over_def wp_simps Let_def)
  next
    case uses: True
    show ?thesis
    proof (cases ?available)
      case True
      with binding_inherit [OF ok k(1,2) uses _ _ config(1) k(3) config(2)] uses show ?thesis
        by (simp add: take_over_def wp_simps Let_def)
    next
      case False
      let ?m = "case find_port_index (dm_ports w) (ct_device ?old) of
          Some j \<Rightarrow> if ct_connected ?old \<and> ?present then on_port j (disconnect_virtual_port (de_os env)) else ret ()
        | None \<Rightarrow> ret ()"
      have "wp (seq_act ?m (upd_controller k release_port)) (\<lambda>_ w'. binding_ok configs (preserved, active, heirs) w') (\<lambda>_ _. False) w"
        by (cases "find_port_index (dm_ports w) (ct_device ?old)")
          (auto intro!: wp_refuse_port [OF ok k(1,2) uses])
      then have "wp (seq_act ?m (seq_act (upd_controller k release_port) (ret (active, ?heir))))
          (\<lambda>(active', heir) w'. binding_ok (configs @ [config]) (preserved[k := True], active', heirs @ [heir]) w') (\<lambda>_ _. False) w"
        unfolding wp_seq wp_ret prod.case by (rule wp_mono) (use mark in \<open>auto elim!: wp_mono\<close>)
      moreover have "?available = False" using False by blast
      ultimately show ?thesis
        unfolding take_over_def wp_with_state Let_def using uses by (simp only: if_False not_True_eq_False)
    qed
  qed
qed

lemma bind_configs_ok:
  assumes "binding_ok seen acc w" and "list_all wf_config configs" and "distinct (map cc_address (seen @ configs))"
  shows "wp (bind_configs env provider configs acc) (\<lambda>acc' w'. binding_ok (seen @ configs) acc' w') (\<lambda>_. runtime_ok {}) w"
  using assms
proof (induction configs arbitrary: seen acc w)
  case Nil
  then show ?case by (simp add: wp_simps)
next
  case (Cons config configs)
  obtain preserved active heirs where acc: "acc = (preserved, active, heirs)" by (rule prod_cases3)
  from Cons.prems(2,3) have config: "wf_config config" "cc_address config \<notin> set (map cc_address seen)" "list_all wf_config configs"
    and distinct: "distinct (map cc_address ((seen @ [config]) @ configs))" by auto
  have rest: "wp (bind_configs env provider configs acc') (\<lambda>acc' w'. binding_ok (seen @ config # configs) acc' w') (\<lambda>_. runtime_ok {}) w'"
    if "binding_ok (seen @ [config]) acc' w'" for acc' and w' :: "('a, 'b) daemon"
    using Cons.IH [OF that config(3) distinct] by simp
  let ?next = "\<lambda>w'. wp (case previous_runtime (dm_controllers w') preserved config of
            None \<Rightarrow> bind_configs env provider configs (preserved, active, heirs @ [fresh_runtime config])
          | Some k \<Rightarrow>
              bind_act (take_over env config k active) (\<lambda>(active, heir).
                bind_configs env provider configs (preserved[k := True], active, heirs @ [heir])))
      (\<lambda>acc' w'. binding_ok (seen @ config # configs) acc' w') (\<lambda>_. runtime_ok {}) w'"
  have turn: "?next w'" if ok: "binding_ok seen (preserved, active, heirs) w'" for w' :: "('a, 'b) daemon"
  proof (cases "previous_runtime (dm_controllers w') preserved config")
    case None
    have "binding_ok (seen @ [config]) (preserved, active, heirs @ [fresh_runtime config]) w'"
      using binding_add [OF ok rt_ok_fresh [OF config(1)] _ _ config(2)] by simp
    with None rest show ?thesis by simp
  next
    case (Some k)
    have "wp (take_over env config k active) (\<lambda>(active', heir). wp (bind_configs env provider configs (preserved[k := True], active', heirs @ [heir]))
        (\<lambda>acc' w'. binding_ok (seen @ config # configs) acc' w') (\<lambda>_. runtime_ok {})) (\<lambda>_. runtime_ok {}) w'"
      by (rule wp_mono [OF take_over_ok [OF ok Some config(1,2)]]) (use rest in auto)
    with Some show ?thesis by (simp add: wp_bind split_def)
  qed
  have logged: "binding_ok seen (preserved, active, heirs) (w'\<lparr>dm_log := dm_log w' @ [Owner_disconnected a]\<rparr>)"
    if ok: "binding_ok seen (preserved, active, heirs) w'" for w' :: "('a, 'b) daemon" and a
  proof -
    have "aside b (Owner_disconnected a)" for b by (simp add: aside_def)
    from runtime_ok_log [OF binding_okD(1) [OF ok] this] runtime_ok_log [OF binding_okD(2) [OF ok] this] ok show ?thesis
      by (auto simp: binding_ok_def with_controllers_def runtime_ok_def)
  qed
  have "wp (if provider then preempt_default_bluetooth_owner env (cc_address config) else ret ())
      (\<lambda>_. binding_ok seen (preserved, active, heirs)) (\<lambda>_. runtime_ok {}) w"
  proof (cases provider)
    case True
    have "wp (preempt_default_bluetooth_owner env (cc_address config)) (\<lambda>_. binding_ok seen (preserved, active, heirs))
        (\<lambda>_. binding_ok seen (preserved, active, heirs)) w"
      using Cons.prems(1) acc logged by (intro wp_preempt) auto
    then have "wp (preempt_default_bluetooth_owner env (cc_address config)) (\<lambda>_. binding_ok seen (preserved, active, heirs))
        (\<lambda>_. runtime_ok {}) w" by (rule wp_mono) (auto dest: binding_okD(1))
    with True show ?thesis by simp
  qed (use Cons.prems(1) acc in \<open>simp add: wp_simps\<close>)
  then have "wp (if provider then preempt_default_bluetooth_owner env (cc_address config) else ret ()) (\<lambda>_. ?next) (\<lambda>_. runtime_ok {}) w"
    by (rule wp_mono) (use turn in auto)
  then show ?case unfolding acc bind_configs.simps wp_seq wp_with_state_fun .
qed

section \<open>The whole reload\<close>

lemma remove_unbound_ok:
  assumes ok: "runtime_ok UNIV w" "runtime_ok {} (with_controllers w heirs)" and i: "i < length (dm_controllers w)"
    and unused: "\<not> preserved ! i \<Longrightarrow> controller_uses_port (dm_controllers w ! i) \<Longrightarrow> unused (ct_device (dm_controllers w ! i)) {} heirs"
  shows "wp (remove_unbound env preserved i) (\<lambda>_ w'. runtime_ok UNIV w' \<and> runtime_ok {} (with_controllers w' heirs)
      \<and> dm_controllers w' = dm_controllers w) (\<lambda>_ _. False) w"
proof (cases "preserved ! i \<or> \<not> ct_connected (dm_controllers w ! i)
    \<or> find_port_index (dm_ports w) (ct_device (dm_controllers w ! i)) = None")
  case True
  with ok show ?thesis by (auto simp: remove_unbound_def wp_simps)
next
  case False
  then obtain j where j: "find_port_index (dm_ports w) (ct_device (dm_controllers w ! i)) = Some j"
    and i': "\<not> preserved ! i" "ct_connected (dm_controllers w ! i)" by blast
  from find_port_Some [OF j] have path: "j < length (dm_ports w)" "lp_path (dm_ports w ! j) = ct_device (dm_controllers w ! i)"
    by simp_all
  have unused: "unused (lp_path (dm_ports w ! j)) {} heirs"
    using unused [OF i'(1)] i'(2) path(2) by (simp add: controller_uses_port_def)
  have "wp (on_port j (disconnect_virtual_port (de_os env))) (\<lambda>_ w'. runtime_ok UNIV w' \<and> runtime_ok {} (with_controllers w' heirs)
      \<and> dm_controllers w' = dm_controllers w) (\<lambda>_ _. False) w"
  proof (rule wp_disconnect_port [OF path(1) runtime_okD(4) [OF ok(1) path(1)]])
    fix w' :: "('a, 'b) daemon"
    assume w': "dm_controllers w' = dm_controllers w"
      and keeps: "\<And>X cs. runtime_ok X (with_controllers w cs) \<Longrightarrow> unused (lp_path (dm_ports w ! j)) X cs \<Longrightarrow>
        runtime_ok X (with_controllers w' cs)"
    have "runtime_ok UNIV (with_controllers w' (dm_controllers w))" using ok(1) by (intro keeps) (simp_all add: unused_def)
    with keeps [OF ok(2) unused] w'
    show "runtime_ok UNIV w' \<and> runtime_ok {} (with_controllers w' heirs) \<and> dm_controllers w' = dm_controllers w"
      by (simp flip: w')
  qed
  with i' j show ?thesis by (simp add: remove_unbound_def wp_with_state Let_def)
qed

lemma reconcile_ok:
  assumes ok: "runtime_ok {} w" and found: "all_found w"
    and nodes: "\<And>l devices. de_devices env l = Inr devices \<Longrightarrow> distinct devices \<and> [] \<notin> set devices"
  shows "wp (reconcile_controller_configs env) (\<lambda>_. runtime_ok {}) (\<lambda>_. runtime_ok {}) w"
proof -
  have bound: "wp (for_controllers (remove_unbound env preserved)) (\<lambda>_ w'. runtime_ok {} (w'\<lparr>dm_controllers := heirs\<rparr>)) (\<lambda>_. runtime_ok {}) w"
    if b: "binding_ok configs (preserved, active, heirs) w" for configs preserved active heirs and w :: "('a, 'b) daemon"
  proof -
    let ?P = "\<lambda>k w'. runtime_ok UNIV w' \<and> runtime_ok {} (with_controllers w' heirs) \<and> dm_controllers w' = dm_controllers w"
    have "wp (for_controllers (remove_unbound env preserved)) (\<lambda>_. ?P (length (dm_controllers w))) (\<lambda>_. runtime_ok {}) w"
    proof (rule wp_for_controllers [where P = ?P])
      fix k and w' :: "('a, 'b) daemon"
      assume k: "k < length (dm_controllers w)" and P: "?P k w'"
      then have "wp (remove_unbound env preserved k) (\<lambda>_ w''. runtime_ok UNIV w'' \<and> runtime_ok {} (with_controllers w'' heirs)
        \<and> dm_controllers w'' = dm_controllers w') (\<lambda>_ _. False) w'"
        using binding_unused [OF b k] by (intro remove_unbound_ok) auto
      then show "wp (remove_unbound env preserved k) (\<lambda>_. ?P (Suc k)) (\<lambda>_. runtime_ok {}) w'"
        by (rule wp_mono) (use P in auto)
    qed (use binding_okD(1,2) [OF b] in \<open>auto intro: runtime_ok_mono\<close>)
    then show ?thesis by (rule wp_mono) (simp_all add: with_controllers_def)
  qed
  have bind: "wp (bind_act (bind_configs env provider (controllers db) (replicate (length (dm_controllers w)) False, [], []))
      (\<lambda>(preserved, active, heirs). seq_act (for_controllers (remove_unbound env preserved))
        (upd (\<lambda>w. w\<lparr>dm_controllers := heirs\<rparr>)))) (\<lambda>_. runtime_ok {}) (\<lambda>_. runtime_ok {}) w"
    if "runtime_ok {} w" "wf_db db" for provider db and w :: "('a, 'b) daemon"
  proof -
    have "runtime_ok {} (with_controllers w [])"
      using that(1) by (simp add: runtime_ok_def addresses_def users_distinct_def)
    then have start: "binding_ok [] (replicate (length (dm_controllers w)) False, [], []) w"
      using that(1) by (simp add: binding_ok_def addresses_def)
    have "list_all wf_config (controllers db)" "distinct (map cc_address ([] @ controllers db))"
      using that(2) by (simp_all add: wf_db_def distinct_keys_def)
    from bind_configs_ok [OF start this] show ?thesis
      unfolding wp_bind
      by (rule wp_mono) (use bound in \<open>auto simp: wp_seq wp_upd_fun\<close>)
  qed
  have load: "wp (with_state (\<lambda>w. bind_act
        (lift_result (load_config_db (de_load env (dm_log w)) (de_db_path env) (dm_files w))) (\<lambda>db.
        bind_act (bind_configs env provider (controllers db) (replicate (length (dm_controllers w)) False, [], []))
          (\<lambda>(preserved, active, heirs). seq_act (for_controllers (remove_unbound env preserved))
            (upd (\<lambda>w. w\<lparr>dm_controllers := heirs\<rparr>)))))) (\<lambda>_. runtime_ok {}) (\<lambda>_. runtime_ok {}) w"
    if "runtime_ok {} w" for provider and w :: "('a, 'b) daemon"
    using that bind [OF that load_wf] by (auto simp: wp_with_state wp_bind wp_lift split: sum.split)
  have synced: "wp (sync_virtual_ports env devices) (\<lambda>_. runtime_ok {}) (\<lambda>_. runtime_ok {}) w"
    if "runtime_ok {} w" "all_found w" "de_devices env l = Inr devices" for l devices and w :: "('a, 'b) daemon"
    using nodes [OF that(3)] by (intro wp_mono [OF sync_ports_ok [OF that(1,2)]]) auto
  have "wp (for_controllers (release_lost env devices)) (\<lambda>_. wp (sync_virtual_ports env devices) (\<lambda>_. runtime_ok {}) (\<lambda>_. runtime_ok {}))
      (\<lambda>_. runtime_ok {}) w" if "de_devices env (dm_log w) = Inr devices" for devices
    by (rule wp_mono [OF release_all_lost [OF ok found]]) (use synced that in auto)
  note ports = this
  show ?thesis
  proof (cases "de_devices env (dm_log w)")
    case (Inl e)
    with ok show ?thesis by (simp add: reconcile_controller_configs_def wp_simps)
  next
    case (Inr devices)
    have "wp (for_controllers (release_lost env devices)) (\<lambda>_. wp (sync_virtual_ports env devices)
      (\<lambda>_. wp (with_state (\<lambda>w. bind_act
        (lift_result (load_config_db (de_load env (dm_log w)) (de_db_path env) (dm_files w))) (\<lambda>db.
        bind_act (bind_configs env (devices \<noteq> []) (controllers db) (replicate (length (dm_controllers w)) False, [], []))
          (\<lambda>(preserved, active, heirs). seq_act (for_controllers (remove_unbound env preserved))
            (upd (\<lambda>w. w\<lparr>dm_controllers := heirs\<rparr>)))))) (\<lambda>_. runtime_ok {}) (\<lambda>_. runtime_ok {})) (\<lambda>_. runtime_ok {})) (\<lambda>_. runtime_ok {}) w"
      by (rule wp_mono [OF ports [OF Inr]]) (auto elim!: wp_mono intro: load)
    with Inr show ?thesis by (simp add: reconcile_controller_configs_def wp_with_state wp_bind wp_lift wp_seq)
  qed
qed

end
