(* ===== verification/LinuxExample.thy ===== *)
theory LinuxExample
  imports LinuxReload LinuxInputs
begin

text \<open>
  A run of the Linux daemon with one controller on one virtual port: from the start of the daemon to
  the connection of the controller. It is the concrete input of the properties of the rounds.
\<close>

section \<open>An environment where every call succeeds\<close>

definition smooth_os :: "(unit, unit) os_env" where
  "smooth_os = full_queues\<lparr>os_write_full := (\<lambda>_. replicate 200 (Wrote 1))\<rparr>"

definition own_config :: controller_config where
  "own_config = \<lparr>cc_address = ''aa:bb:cc:dd:ee:01'', cc_profile = Dse, cc_ports = []\<rparr>"

definition own_db :: config_db where
  "own_db = \<lparr>controllers = [own_config]\<rparr>"

definition feature_answer :: "u8 \<Rightarrow> init_answer" where
  "feature_answer i = Init_readable (Read_bytes [0xa3, i, 7])"

definition one_controller :: "(unit, unit) daemon_env" where
  "one_controller =
     \<lparr>de_os = smooth_os, de_devices = (\<lambda>_. Inr [''/dev/vds0'']), de_open = (\<lambda>_ _. None),
      de_modalias = (\<lambda>_ _. Inr None), de_owner_present = (\<lambda>_ _. Inr False), de_owner_polls = (\<lambda>_ _. []),
      de_initial = (\<lambda>_. map feature_answer kInitialFeatureReportIds), de_ba2str = (\<lambda>_. ''AA:BB:CC:DD:EE:01''),
      de_db_path = ''db'', de_load = (\<lambda>_. os_ok), de_control = (\<lambda>_. (os_ok, os_ok)), de_interference = (\<lambda>_ fs. fs),
      de_targets = (\<lambda>_. Inr []), de_epoll_error = (\<lambda>_. None)\<rparr>"

definition own_files :: files where
  "own_files = [''db'' \<mapsto> serialize_config_db own_db]"

definition accept_event :: "event_type \<Rightarrow> nat \<Rightarrow> ready_event" where
  "accept_event t fd = \<lparr>re_data = encode_event t 0, re_in = True, re_error = False, re_client = No_client,
     re_accepts = [Accepted [] fd None, Accept_none], re_reads = [], re_drained = False\<rparr>"

definition own_backend :: bt_backend where
  "own_backend = \<lparr>bb_address = ''aa:bb:cc:dd:ee:01'', bb_control_fd = 7, bb_interrupt_fd = 8\<rparr>"

section \<open>Preparing the port\<close>

text \<open>A port with nothing to send.\<close>

definition quiet :: "(unit, unit) link \<Rightarrow> bool" where
  "quiet l \<longleftrightarrow> lp_path (lk_port l) = ''/dev/vds0'' \<and> pending_bt_state (lk_port l) = None
     \<and> pending_bt_state_report (lk_port l) = None \<and> pending_audio_chunks (lk_port l) = []
     \<and> \<not> speaker_waveout_active (lk_port l) \<and> pending_feature_reports (lk_port l) = []
     \<and> length (state_bytes (lp_output_state (lk_port l))) = kDsStateSize"

lemma quiet_log [simp]: "quiet (w\<lparr>lk_log := l\<rparr>) = quiet w"
  by (simp add: quiet_def)

lemma write_bytes:
  "length bs \<le> n \<Longrightarrow> write_full label t (replicate n (Wrote (Suc 0)) @ as) bs out = Some (out @ bs, Inr ())"
proof (induction bs arbitrary: n out)
  case (Cons b bs)
  then obtain m where "n = Suc m" by (cases n) auto
  with Cons show ?case by simp
qed simp

lemma smooth_write:
  "length packet \<le> 200 \<Longrightarrow> quiet w \<Longrightarrow> (\<And>w'. quiet w' \<Longrightarrow> Q () w') \<Longrightarrow>
    wp (on_log (write_packet smooth_os channel address packet)) Q E w"
  by (simp add: wp_on_log write_packet_def smooth_os_def write_bytes wp_simps log_event_def)

lemma smooth_feature_get:
  "quiet w \<Longrightarrow> (\<And>w'. quiet w' \<Longrightarrow> Q () w') \<Longrightarrow> wp (on_log (send_feature_get smooth_os own_backend i)) Q E w"
  by (simp add: send_feature_get_def own_backend_def smooth_write feature_get_packet_def)

lemma smooth_frame:
  "quiet w \<Longrightarrow> (\<And>w'. quiet w' \<Longrightarrow> Q False w') \<Longrightarrow> wp (write_vds_frame smooth_os bs) Q E w"
  by (simp add: write_vds_frame_def smooth_os_def full_queues_def quiet_def wp_simps Let_def)

lemma smooth_cache:
  assumes "r \<noteq> []" and "length r \<le> 64" and "quiet w" and "\<And>w'. quiet w' \<Longrightarrow> Q () w'"
  shows "wp (cache_feature_report smooth_os r) Q E w"
proof -
  have "quiet (w\<lparr>lk_port := store_feature r (lk_port w)\<rparr>)"
    using assms(3) by (simp add: quiet_def store_feature_def)
  then show ?thesis
    using assms(1,2,4)
    by (simp add: cache_feature_report_def wp_simps store_feature_def send_frame_def frame_bytes_def Let_def)
      (erule smooth_frame, simp)
qed

lemma smooth_fetch:
  "quiet w \<Longrightarrow> (\<And>w'. quiet w' \<Longrightarrow> Q () w') \<Longrightarrow>
    wp (fetch_features smooth_os own_backend ids (map feature_answer ids)) Q E w"
proof (induction ids arbitrary: w)
  case (Cons i ids)
  have "wp (cache_feature_report smooth_os [i, 7])
      (\<lambda>_. wp (fetch_features smooth_os own_backend ids (map feature_answer ids)) Q E) E w'" if "quiet w'" for w'
    by (rule smooth_cache) (use that Cons in auto)
  then have "wp (on_log (send_feature_get smooth_os own_backend i))
      (\<lambda>_. wp (cache_feature_report smooth_os [i, 7])
        (\<lambda>_. wp (fetch_features smooth_os own_backend ids (map feature_answer ids)) Q E) E) E w"
    using Cons.prems(1) by (intro smooth_feature_get) auto
  then show ?case
    by (simp add: wp_seq wp_bind wp_ret feature_answer_def [of i] read_feature_report_def bt_feature_to_usb_feature_reply_def)
qed (simp add: wp_simps)

lemma smooth_ioctl:
  "quiet w \<Longrightarrow> (\<And>w'. quiet w' \<Longrightarrow> Q () w') \<Longrightarrow> wp (port_ioctl smooth_os request name) Q E w"
  by (simp add: port_ioctl_def smooth_os_def full_queues_def wp_simps Let_def)

lemma smooth_reset:
  "lp_path (lk_port w) = ''/dev/vds0'' \<Longrightarrow> (\<And>w'. quiet w' \<Longrightarrow> Q () w') \<Longrightarrow> wp (reset_virtual_port smooth_os) Q E w"
  by (simp add: reset_virtual_port_def smooth_os_def full_queues_def fresh_extractor_def new_extractor_def quiet_def wp_simps
      initial_output_def kInitialDsState_def kInitialSetStateData_def)

lemma smooth_init_report:
  "quiet w \<Longrightarrow> (\<And>w'. quiet w' \<Longrightarrow> Q () w') \<Longrightarrow> wp (send_init_report smooth_os own_backend) Q E w"
proof -
  have "length (build_bt_init_report d) \<le> 199" if "length (state_bytes d) = kDsStateSize" for d
    using that by (simp add: build_bt_init_report_def)
  then show "quiet w \<Longrightarrow> (\<And>w'. quiet w' \<Longrightarrow> Q () w') \<Longrightarrow> wp (send_init_report smooth_os own_backend) Q E w"
    unfolding send_init_report_def with_port_def wp_seq wp_with_state send_output_report_def
    by (simp add: own_backend_def hidp_output_packet_def)
      (rule smooth_write, auto simp: wp_simps quiet_def upd_port_def)
qed

lemma smooth_prepare:
  assumes "lp_path (lk_port w) = ''/dev/vds0''" and "\<And>w'. quiet w' \<Longrightarrow> Q () w'"
  shows "wp (prepare_port one_controller profile own_backend) Q E w"
  unfolding prepare_port_def wp_seq wp_with_state initialize_bt_controller_def
  by (simp add: one_controller_def wp_with_state)
   (intro smooth_reset [OF assms(1)] smooth_ioctl smooth_fetch smooth_init_report assms(2); simp)

lemma smooth_flush:
  "quiet w \<Longrightarrow> (\<And>w'. quiet w' \<Longrightarrow> Q () w') \<Longrightarrow> wp (flush_port smooth_os b) Q E w"
  by (simp add: flush_port_def flush_pending_bt_state_report_def enqueue_speaker_waveout_chunk_def
      flush_pending_audio_chunk_def wp_simps quiet_def)

section \<open>The run\<close>

text \<open>One controller and a quiet port.\<close>

definition on_one :: "controller_rt \<Rightarrow> (unit, unit) daemon \<Rightarrow> bool" where
  "on_one c w \<longleftrightarrow> dm_controllers w = [c] \<and> (\<exists>p. dm_ports w = [p] \<and> (\<forall>l. quiet \<lparr>lk_port = p, lk_log = l\<rparr>))"

lemma quiet_link: "quiet l \<Longrightarrow> quiet \<lparr>lk_port = lk_port l, lk_log = l'\<rparr>"
  by (simp add: quiet_def)

lemma on_one_simps [simp]:
  "on_one c (w\<lparr>dm_log := l\<rparr>) = on_one c w" "on_one c (w\<lparr>dm_epoll_dirty := d\<rparr>) = on_one c w"
  "on_one c (w\<lparr>dm_epoll := e\<rparr>) = on_one c w" "on_one c (w\<lparr>dm_reload := d\<rparr>) = on_one c w"
  "on_one c (w\<lparr>dm_files := fs\<rparr>) = on_one c w" "on_one c' (w\<lparr>dm_controllers := [c']\<rparr>) = (\<exists>c. on_one c (w\<lparr>dm_controllers := [c]\<rparr>))"
  by (simp_all add: on_one_def)

lemma own_db_loads: "load_config_db os_ok ''db'' own_files = Inr own_db"
proof -
  have "wf_db own_db"
    by (simp add: own_db_def own_config_def wf_db_def wf_config_def distinct_keys_def
      canonical_address_def address_shape_def is_separator_index_def isxdigit_def isdigit_def
      tolower_def code_of_def valid_ports_def kMaxPortCount_def)
  then show ?thesis by (simp add: load_serialized own_files_def)
qed

lemma lower_address: "map tolower ''AA:BB:CC:DD:EE:01'' = ''aa:bb:cc:dd:ee:01''"
  by code_simp

lemma one_controller_simps [simp]:
  "de_os one_controller = smooth_os" "de_devices one_controller l = Inr [''/dev/vds0'']"
  "de_open one_controller l device = None" "de_owner_present one_controller l address = Inr False"
  "de_db_path one_controller = ''db''" "de_load one_controller l = os_ok" "de_epoll_error one_controller l = None"
  "bluetooth_address_string (de_ba2str one_controller) bs = ''aa:bb:cc:dd:ee:01''"
  by (simp_all add: one_controller_def bluetooth_address_string_def lower_address del: list.map)

lemma opened: "\<exists>p. open_port smooth_os ''/dev/vds0'' = Inr p \<and> (\<forall>l. quiet \<lparr>lk_port = p, lk_log = l\<rparr>)"
  by (simp add: open_port_def smooth_os_def full_queues_def fresh_extractor_def new_extractor_def quiet_def
      initial_output_def kInitialDsState_def kInitialSetStateData_def)

lemma own_reload:
  "wp (reload_if_requested one_controller) (\<lambda>_ w. on_one (fresh_runtime own_config) w \<and> dm_epoll_dirty w)
    (\<lambda>_ _. False) (daemon_start own_files)"
proof -
  obtain p where p: "open_port smooth_os ''/dev/vds0'' = Inr p" "\<And>l. quiet \<lparr>lk_port = p, lk_log = l\<rparr>"
    using opened by blast
  show ?thesis
    using p(2) by (simp add: reload_if_requested_def daemon_start_def wp_simps own_db_loads p(1)
      reconcile_controller_configs_def for_controllers_def sync_virtual_ports_def find_port_index_def own_db_def
      preempt_default_bluetooth_owner_def previous_runtime_def on_one_def)
qed

text \<open>The controller while its channels are accepted.\<close>

definition half_connected :: controller_rt where
  "half_connected = (fresh_runtime own_config)\<lparr>ct_device := ''/dev/vds0'', ct_pending_control := Some 7\<rparr>"

definition fully_connected :: controller_rt where
  "fully_connected = (fresh_runtime own_config)\<lparr>ct_device := ''/dev/vds0'', ct_backend := Some own_backend,
     ct_profile := Some VDS_PROFILE_DSE, ct_connected := True\<rparr>"

lemma decode_accept [simp]:
  "decode_event (encode_event Ev_accept_control 0) = (Some Ev_accept_control, 0)"
  "decode_event (encode_event Ev_accept_interrupt 0) = (Some Ev_accept_interrupt, 0)"
  by (simp_all add: decode_event_def encode_event_def event_type_of_def)

lemma quiet_path: "quiet l \<Longrightarrow> lp_path (lk_port l) = ''/dev/vds0''"
  by (simp add: quiet_def)

lemma on_one_port:
  assumes "on_one c w"
  obtains p where "dm_ports w = [p]" "lp_path p = ''/dev/vds0''" "\<forall>l. quiet \<lparr>lk_port = p, lk_log = l\<rparr>"
proof -
  from assms obtain p where p: "dm_ports w = [p]" "\<And>l. quiet \<lparr>lk_port = p, lk_log = l\<rparr>"
    by (auto simp: on_one_def)
  from p(2) [of "[]"] have "lp_path p = ''/dev/vds0''" by (simp add: quiet_def)
  with p show thesis by (intro that) auto
qed

lemma accept_first:
  assumes "on_one (fresh_runtime own_config) w"
  shows "wp (handle_event one_controller (accept_event Ev_accept_control 7)) (\<lambda>_. on_one half_connected) (\<lambda>_ _. False) w"
proof -
  obtain p where p: "dm_ports w = [p]" "lp_path p = ''/dev/vds0''" "\<forall>l. quiet \<lparr>lk_port = p, lk_log = l\<rparr>"
    using assms by (rule on_one_port)
  have w: "dm_controllers w = [fresh_runtime own_config]" using assms by (simp add: on_one_def)
  have index: "port_index_from_path Linux ''/dev/vds0'' = Some 0" by code_simp
  have select: "select_controller_config_port own_config [0] [] = Some 0" by code_simp
  have available: "available_port_index [p] [fresh_runtime own_config] 0 = Some 0"
    by (simp add: available_port_index_def fresh_runtime_def select index p present_port_indices_def List.map_filter_simps)
  show ?thesis
    using p(3)
    by (simp add: handle_event_def accept_event_def wp_simps accept_l2cap_psm_def accept_channel_def w p(1,2)
      controller_for_address_def fresh_runtime_def own_config_def assign_port_def own_port_def
      available [unfolded fresh_runtime_def own_config_def] keep_channel_def join_channels_def half_connected_def on_one_def)
qed

lemma accept_second:
  assumes "on_one half_connected w"
  shows "wp (handle_event one_controller (accept_event Ev_accept_interrupt 8)) (\<lambda>_. on_one fully_connected) (\<lambda>_ _. False) w"
proof -
  obtain p where p: "dm_ports w = [p]" "lp_path p = ''/dev/vds0''" "\<forall>l. quiet \<lparr>lk_port = p, lk_log = l\<rparr>"
    using assms by (rule on_one_port)
  have w: "dm_controllers w = [half_connected]" using assms by (simp add: on_one_def)
  have connect: "wp (complete_pending_controller one_controller 0 0) (\<lambda>_. on_one fully_connected) (\<lambda>_ _. False)
      (w\<lparr>dm_controllers := [half_connected\<lparr>ct_pending_interrupt := Some 8\<rparr>]\<rparr>)"
    by (simp add: complete_pending_controller_def wp_simps w p(1,2) half_connected_def fresh_runtime_def own_config_def
      resolve_config_profile_def preempt_default_bluetooth_owner_def Let_def)
      (rule smooth_prepare [unfolded own_backend_def], simp add: p, rule smooth_ioctl, erule quiet_link,
       auto simp: on_one_def fully_connected_def fresh_runtime_def own_config_def own_backend_def intro: quiet_link)
  have "wp (complete_pending_controller one_controller 0 0) (\<lambda>_. wp epoll_dirty (\<lambda>_. on_one fully_connected) E) E
      (w\<lparr>dm_controllers := [half_connected\<lparr>ct_pending_interrupt := Some 8\<rparr>]\<rparr>)" for E
    by (rule wp_mono [OF connect]) (simp_all add: wp_simps)
  then show ?thesis
    by (simp add: handle_event_def accept_event_def wp_simps accept_l2cap_psm_def accept_channel_def w p(1,2)
      controller_for_address_def half_connected_def fresh_runtime_def own_config_def assign_port_def own_port_def
      port_used_by_other_controller_def find_port_index_def keep_channel_def join_channels_def)
qed

lemma own_rebuild:
  assumes "on_one c w" and "\<And>w'. on_one c w' \<Longrightarrow> Q () w'"
  shows "wp (rebuild_epoll one_controller) Q E w"
  using assms(1) by (rule on_one_port) (use assms in \<open>simp add: rebuild_epoll_def wp_simps\<close>)

lemma flush_quiet:
  assumes "on_one fully_connected w"
  shows "wp (flush_pending_outputs one_controller) (\<lambda>_. on_one fully_connected) (\<lambda>_ _. False) w"
proof -
  obtain p where p: "dm_ports w = [p]" "lp_path p = ''/dev/vds0''" "\<forall>l. quiet \<lparr>lk_port = p, lk_log = l\<rparr>"
    using assms by (rule on_one_port)
  have w: "dm_controllers w = [fully_connected]" using assms by (simp add: on_one_def)
  show ?thesis
    by (simp add: flush_pending_outputs_def for_controllers_def wp_simps w flush_controller_def
      fully_connected_def fresh_runtime_def find_port_index_def p)
     (rule smooth_flush, use p in \<open>auto simp: w on_one_def fully_connected_def fresh_runtime_def quiet_link\<close>)
qed

definition accepted_channels :: epoll_answer where
  "accepted_channels = Epoll_events [accept_event Ev_accept_control 7, accept_event Ev_accept_interrupt 8]"

lemma one_controller_round:
  "wp (daemon_rounds one_controller [accepted_channels]) (\<lambda>_. on_one fully_connected) (\<lambda>_ _. False) (daemon_start own_files)"
proof -
  have flush: "wp (flush_pending_outputs one_controller) (\<lambda>_. wp (ret ()) (\<lambda>_. on_one fully_connected) (\<lambda>_ _. False))
      (\<lambda>_ _. False) w" if "on_one fully_connected w" for w
    using flush_quiet [OF that] by (simp add: wp_ret)
  have second: "wp (handle_event one_controller (accept_event Ev_accept_interrupt 8))
      (\<lambda>_. wp (ret ()) (\<lambda>_. wp (flush_pending_outputs one_controller)
        (\<lambda>_. wp (ret ()) (\<lambda>_. on_one fully_connected) (\<lambda>_ _. False)) (\<lambda>_ _. False)) (\<lambda>_ _. False)) (\<lambda>_ _. False) w"
    if "on_one half_connected w" for w
    by (rule wp_mono [OF accept_second [OF that]]) (use flush in \<open>auto simp: wp_ret\<close>)
  show ?thesis
    unfolding accepted_channels_def daemon_rounds.simps daemon_round_def wp_seq
    apply (rule wp_mono [OF own_reload])
     apply (simp_all only: wp_with_state epoll_answer.case for_each.simps wp_seq simp_thms if_True)
    apply (elim conjE, rule own_rebuild, assumption)
    apply (rule wp_mono [OF accept_first], assumption)
     apply (erule second)
    apply assumption
    done
qed

lemma one_controller_runs:
  obtains w where "daemon_rounds one_controller [accepted_channels] (daemon_start own_files) = (Inr (), w)"
    "dm_controllers w = [fully_connected]" "find_port_index (dm_ports w) ''/dev/vds0'' = Some 0"
proof -
  obtain r w where run: "daemon_rounds one_controller [accepted_channels] (daemon_start own_files) = (r, w)"
    by fastforce
  with one_controller_round have ok: "r = Inr ()" "on_one fully_connected w"
    by (auto simp: wp_def split: sum.splits)
  from ok(2) obtain p where p: "dm_ports w = [p]" "lp_path p = ''/dev/vds0''" by (rule on_one_port)
  then have "find_port_index (dm_ports w) ''/dev/vds0'' = Some 0" by (simp add: find_port_index_def)
  moreover have "dm_controllers w = [fully_connected]" using ok(2) by (simp add: on_one_def)
  ultimately show thesis using that run ok(1) by blast
qed

end
