(* ===== verification/LinuxRounds.thy ===== *)
theory LinuxRounds
  imports LinuxExample
begin

text \<open>
  The rounds of the event loop of the Linux daemon from its start: who uses which port, what every
  connected controller gets, what an error costs, and when the loop wakes up.
\<close>

section \<open>Rounds\<close>

text \<open>udev lists every node once.\<close>

definition nodes_ok :: "('s, 'd) daemon_env \<Rightarrow> bool" where
  "nodes_ok env \<longleftrightarrow> (\<forall>l devices. de_devices env l = Inr devices \<longrightarrow> distinct devices \<and> [] \<notin> set devices)"

definition between_rounds :: "('s, 'd) daemon \<Rightarrow> bool" where
  "between_rounds w \<longleftrightarrow> runtime_ok {} w \<and> (dm_reload w \<longrightarrow> all_found w)"

lemma reload_ok:
  assumes "nodes_ok env" and "between_rounds w"
  shows "wp (reload_if_requested env) (\<lambda>_ w'. runtime_ok {} w' \<and> \<not> dm_reload w') (\<lambda>_ _. False) w"
proof (cases "dm_reload w")
  case True
  with assms(2) have start: "runtime_ok {} w" "all_found w" by (simp_all add: between_rounds_def)
  have "wp (reconcile_controller_configs env) (\<lambda>_. runtime_ok {}) (\<lambda>_. runtime_ok {}) w"
    using assms(1) start by (intro reconcile_ok) (auto simp: nodes_ok_def)
  then have "wp (catch_act (seq_act (reconcile_controller_configs env) epoll_dirty) (\<lambda>_. ret ()))
      (\<lambda>_. runtime_ok {}) (\<lambda>_ _. False) w"
    unfolding wp_catch wp_seq by (rule wp_mono) (simp_all add: wp_simps)
  then have "wp (seq_act (catch_act (seq_act (reconcile_controller_configs env) epoll_dirty) (\<lambda>_. ret ()))
      (upd (\<lambda>w. w\<lparr>dm_reload := False\<rparr>))) (\<lambda>_ w'. runtime_ok {} w' \<and> \<not> dm_reload w') (\<lambda>_ _. False) w"
    by (subst wp_seq, elim wp_mono) (simp_all add: wp_upd)
  with True show ?thesis by (simp add: reload_if_requested_def wp_with_state)
next
  case False
  with assms(2) show ?thesis by (simp add: reload_if_requested_def wp_simps between_rounds_def)
qed

lemma rebuild_ok:
  assumes "runtime_ok {} w" and "\<not> dm_reload w"
  shows "wp (with_state (\<lambda>w. if dm_epoll_dirty w \<or> dm_epoll w = None then rebuild_epoll env else ret ()))
    (\<lambda>_ w'. runtime_ok {} w' \<and> \<not> dm_reload w') (\<lambda>_ _. True) w"
  using assms by (auto simp: wp_simps rebuild_epoll_def split: option.split)

lemma round_ok:
  assumes "nodes_ok env" and "between_rounds w"
  shows "wp (daemon_round env answer) (\<lambda>_. between_rounds) (\<lambda>_ _. True) w"
proof -
  let ?serve = "case answer of
      Epoll_interrupted \<Rightarrow> ret ()
    | Epoll_failed e \<Rightarrow> throw (Runtime_error (''epoll_wait failed: '' @ e))
    | Epoll_events events \<Rightarrow> seq_act (for_each (handle_event env) events) (flush_pending_outputs env)"
  have events: "wp (for_each (handle_event env) es) (\<lambda>_. wp (flush_pending_outputs env) (\<lambda>_. between_rounds) (\<lambda>_ _. True))
      (\<lambda>_ _. True) w" if "runtime_ok {} w" for es and w :: "('a, 'b) daemon"
    by (rule wp_mono [OF handle_events_ok [OF that]])
      (auto intro: wp_mono [OF flush_outputs_ok] simp: between_rounds_def all_found_def)
  have serve: "wp ?serve (\<lambda>_. between_rounds) (\<lambda>_ _. True) w" if "runtime_ok {} w" "\<not> dm_reload w" for w :: "('a, 'b) daemon"
    using that events [OF that(1)]
    by (cases answer) (simp_all add: wp_ret wp_throw wp_seq between_rounds_def)
  have "wp (with_state (\<lambda>w. if dm_epoll_dirty w \<or> dm_epoll w = None then rebuild_epoll env else ret ()))
      (\<lambda>_. wp ?serve (\<lambda>_. between_rounds) (\<lambda>_ _. True)) (\<lambda>_ _. True) w"
    if "runtime_ok {} w" "\<not> dm_reload w" for w :: "('a, 'b) daemon"
    by (rule wp_mono [OF rebuild_ok [OF that]]) (use serve in auto)
  then show ?thesis
    unfolding daemon_round_def wp_seq
    by (intro wp_mono [OF reload_ok [OF assms]]) auto
qed

lemma start_ok: "between_rounds (daemon_start fs)"
  by (simp add: between_rounds_def runtime_ok_def daemon_start_def addresses_def users_distinct_def paths_ok_def all_found_def)

lemma rounds_ok:
  assumes "nodes_ok env" and "between_rounds w"
  shows "wp (daemon_rounds env answers) (\<lambda>_. between_rounds) (\<lambda>_ _. True) w"
  using assms(2)
proof (induction answers arbitrary: w)
  case (Cons answer answers)
  show ?case
    unfolding daemon_rounds.simps wp_seq
    by (rule wp_mono [OF round_ok [OF assms(1) Cons.prems]]) (use Cons.IH in auto)
qed (simp add: wp_simps)

lemma run_ok: "nodes_ok env \<Longrightarrow> daemon_rounds env answers (daemon_start fs) = (Inr u, w) \<Longrightarrow> runtime_ok {} w"
  using wp_returns [OF _ rounds_ok [OF _ start_ok]] by (auto simp: between_rounds_def)

text \<open>
  C6. Whatever connects, fails, disappears or is reconfigured: after every round of the event loop a
  virtual port is used by one controller at most, that controller's configuration allows it, and a
  controller is shown as connected exactly while it has its Bluetooth backend.
\<close>

theorem daemon_port_use:
  assumes "nodes_ok env" and "daemon_rounds env answers (daemon_start fs) = (Inr u, w)"
    and "i < length (dm_controllers w)" and "controller_uses_port (dm_controllers w ! i)"
  shows "controller_config_allows_path Linux (ct_config (dm_controllers w ! i)) (ct_device (dm_controllers w ! i))
    \<and> (\<forall>k < length (dm_controllers w). k \<noteq> i \<longrightarrow> controller_uses_port (dm_controllers w ! k) \<longrightarrow>
         ct_device (dm_controllers w ! k) \<noteq> ct_device (dm_controllers w ! i))
    \<and> (ct_connected (dm_controllers w ! i) \<longleftrightarrow> ct_backend (dm_controllers w ! i) \<noteq> None)"
proof -
  have ok: "runtime_ok {} w" by (rule run_ok [OF assms(1,2)])
  have rt: "rt_ok (dm_controllers w ! i)" by (rule runtime_okD(1) [OF ok assms(3)])
  have "sole (dm_controllers w) i" using runtime_okD(3) [OF ok] assms(3,4) by (simp add: users_distinct_def)
  then show ?thesis using rt_okD(4,8) [OF rt] rt_okD(5) [OF rt assms(4)] by (simp add: sole_def)
qed

lemma one_controller_nodes: "nodes_ok one_controller"
  by (simp add: nodes_ok_def)

lemma fully_connected_simps [simp]:
  "controller_uses_port fully_connected" "ct_backend fully_connected = Some own_backend"
  "ct_device fully_connected = ''/dev/vds0''"
  by (simp_all add: fully_connected_def controller_uses_port_def)

theorem daemon_port_use_witness:
  "\<exists>w. daemon_rounds one_controller [accepted_channels] (daemon_start own_files) = (Inr (), w)
    \<and> controller_config_allows_path Linux (ct_config (dm_controllers w ! 0)) (ct_device (dm_controllers w ! 0))
    \<and> (\<forall>k < length (dm_controllers w). k \<noteq> 0 \<longrightarrow> controller_uses_port (dm_controllers w ! k) \<longrightarrow>
         ct_device (dm_controllers w ! k) \<noteq> ct_device (dm_controllers w ! 0))
    \<and> (ct_connected (dm_controllers w ! 0) \<longleftrightarrow> ct_backend (dm_controllers w ! 0) \<noteq> None)"
proof -
  obtain w where w: "daemon_rounds one_controller [accepted_channels] (daemon_start own_files) = (Inr (), w)"
    "dm_controllers w = [fully_connected]" by (rule one_controller_runs)
  with daemon_port_use [OF one_controller_nodes w(1), of 0] show ?thesis by auto
qed

text \<open>
  C2. Every connected controller gets the newest output state of its virtual port, however many
  controllers share the daemon: after every round the newest state (up to the microphone section)
  waits to be sent to it, or the last whole state its Bluetooth queue accepted is that state.
\<close>

theorem daemon_delivers_state:
  assumes "nodes_ok env" and "daemon_rounds env answers (daemon_start fs) = (Inr u, w)"
    and "i < length (dm_controllers w)" and "ct_backend (dm_controllers w ! i) = Some b"
    and "find_port_index (dm_ports w) (ct_device (dm_controllers w ! i)) = Some j"
  shows "bb_address b = cc_address (ct_config (dm_controllers w ! i))
    \<and> (\<exists>s. mic_close s (state_bytes (lp_output_state (dm_ports w ! j)))
        \<and> (if pending_bt_state (dm_ports w ! j) = None
            then \<exists>before e after. dm_log w = before @ e # after \<and> carries b s e \<and> list_all (aside b) after
            else \<exists>q. pending_bt_state_report (dm_ports w ! j) = Some (state_report_of q s)))"
proof -
  have ok: "runtime_ok {} w" by (rule run_ok [OF assms(1,2)])
  have j: "j < length (dm_ports w)" using find_port_Some [OF assms(5)] by simp
  have "served (dm_ports w) (dm_log w) (dm_controllers w ! i)" using runtime_okD(5) [OF ok assms(3)] by simp
  with assms(4,5) have "synced (dm_ports w ! j)" "accepted b (dm_ports w ! j) (dm_log w)" by (simp_all add: served_def)
  moreover have "pending_matches (dm_ports w ! j)" using port_okD(5) [OF runtime_okD(4) [OF ok j]] .
  ultimately have "\<exists>s. mic_close s (state_bytes (lp_output_state (dm_ports w ! j)))
        \<and> (if pending_bt_state (dm_ports w ! j) = None
            then \<exists>before e after. dm_log w = before @ e # after \<and> carries b s e \<and> list_all (aside b) after
            else \<exists>q. pending_bt_state_report (dm_ports w ! j) = Some (state_report_of q s))"
    by (auto simp: synced_def accepted_def elim!: pending_matches_cases)
  with rt_okD(6) [OF runtime_okD(1) [OF ok assms(3)] assms(4)] show ?thesis by simp
qed

theorem daemon_delivers_state_witness:
  "\<exists>w s. daemon_rounds one_controller [accepted_channels] (daemon_start own_files) = (Inr (), w)
    \<and> mic_close s (state_bytes (lp_output_state (dm_ports w ! 0)))
    \<and> (if pending_bt_state (dm_ports w ! 0) = None
        then \<exists>before e after. dm_log w = before @ e # after \<and> carries own_backend s e \<and> list_all (aside own_backend) after
        else \<exists>q. pending_bt_state_report (dm_ports w ! 0) = Some (state_report_of q s))"
proof -
  obtain w where w: "daemon_rounds one_controller [accepted_channels] (daemon_start own_files) = (Inr (), w)"
    "dm_controllers w = [fully_connected]" "find_port_index (dm_ports w) ''/dev/vds0'' = Some 0"
    by (rule one_controller_runs)
  with daemon_delivers_state [OF one_controller_nodes w(1), of 0 own_backend 0] show ?thesis by auto
qed

section \<open>What an error costs\<close>

text \<open>
  C10. A Bluetooth error never ends the daemon and never reaches another controller: serving a channel of
  controller \<open>i\<close> and flushing its output end with an exception only for an error of another kind, and
  otherwise leave every other controller as it was and the invariant of the daemon in force.
\<close>

theorem bluetooth_errors_contained:
  assumes "nodes_ok env" and "daemon_rounds env answers (daemon_start fs) = (Inr u, w)"
    and "i < length (dm_controllers w)"
    and "m \<in> {flush_controller env i, serve_channel env (handle_bt_input (de_os env)) i e,
      serve_channel env (\<lambda>b. handle_bt_control (de_os env)) i e}"
    and "m w = (r, w')"
  shows "case r of
      Inl ex \<Rightarrow> \<not> is_bluetooth_error ex
    | Inr _ \<Rightarrow> runtime_ok {} w' \<and> map lp_path (dm_ports w') = map lp_path (dm_ports w)
        \<and> (\<exists>c. dm_controllers w' = (dm_controllers w)[i := c])"
proof -
  have ok: "runtime_ok {} w" by (rule run_ok [OF assms(1,2)])
  have "wp m (\<lambda>_ w'. runtime_ok {} w' \<and> within i w w') (\<lambda>ex _. \<not> is_bluetooth_error ex) w"
    using assms(4) serve_channel_ok [OF handlers_serve(2) ok] serve_channel_ok [OF handlers_serve(3) ok]
      wp_mono [OF flush_controller_ok [OF ok assms(3)]]
    by auto
  with assms(5) show ?thesis by (auto simp: wp_def within_def split: sum.splits)
qed

theorem bluetooth_errors_contained_witness:
  "\<exists>w r w'. daemon_rounds one_controller [accepted_channels] (daemon_start own_files) = (Inr (), w)
    \<and> flush_controller one_controller 0 w = (r, w')
    \<and> (case r of
        Inl ex \<Rightarrow> \<not> is_bluetooth_error ex
      | Inr _ \<Rightarrow> runtime_ok {} w' \<and> map lp_path (dm_ports w') = map lp_path (dm_ports w)
          \<and> (\<exists>c. dm_controllers w' = (dm_controllers w)[0 := c]))"
proof -
  obtain w where w: "daemon_rounds one_controller [accepted_channels] (daemon_start own_files) = (Inr (), w)"
    "dm_controllers w = [fully_connected]" by (rule one_controller_runs)
  obtain r w' where step: "flush_controller one_controller 0 w = (r, w')" by fastforce
  with bluetooth_errors_contained [OF one_controller_nodes w(1), of 0 _ "accept_event Ev_control 0" r w'] w
  show ?thesis by auto
qed

text \<open>
  C20. Opening a new node fails after a kept port was moved into the new list: the exception leaves the old
  list with an entry that has no descriptor any more, and the next \<open>rebuild_epoll\<close>, which comes at
  once after a udev event, ends the daemon and with it every other connection.
\<close>

theorem failed_open_ends_daemon:
  assumes "dm_ports w = [p]" and "lp_path p = d" and "d \<noteq> d'" and "d \<noteq> []" and "d' \<noteq> []" and "dm_controllers w = []"
    and "dm_reload w" and "dm_epoll_dirty w" and "\<And>l. de_devices env l = Inr [d, d']"
    and "\<And>l. de_open env l d' = Some e" and "\<And>l. de_epoll_error env l = None"
  shows "fst (daemon_round env answer w) = Inl (Runtime_error ''epoll add failed: Bad file descriptor'')"
proof -
  have "wp (daemon_round env answer) (\<lambda>_ _. False)
      (\<lambda>ex _. ex = Runtime_error ''epoll add failed: Bad file descriptor'') w"
    using assms
    by (simp add: daemon_round_def reload_if_requested_def reconcile_controller_configs_def for_controllers_def
      sync_virtual_ports_def wp_simps find_port_index_def moved_from_def rebuild_epoll_def)
  then show ?thesis by (auto simp: wp_def split: prod.splits sum.splits)
qed

definition second_node_fails :: "(unit, unit) daemon_env" where
  "second_node_fails = one_controller\<lparr>de_devices := (\<lambda>_. Inr [''/dev/vds0'', ''/dev/vds1'']),
     de_open := (\<lambda>_ device. if device = ''/dev/vds1'' then Some ''Permission denied'' else None)\<rparr>"

theorem failed_open_ends_daemon_witness:
  "fst (daemon_round second_node_fails (Epoll_events [])
      ((daemon_start own_files)\<lparr>dm_ports := [example_linux_port\<lparr>lp_path := ''/dev/vds0''\<rparr>]\<rparr>))
    = Inl (Runtime_error ''epoll add failed: Bad file descriptor'')"
  by (rule failed_open_ends_daemon [where d = "''/dev/vds0''" and p = "example_linux_port\<lparr>lp_path := ''/dev/vds0''\<rparr>" and d' = "''/dev/vds1''" and e = "''Permission denied''"])
    (simp_all add: daemon_start_def second_node_fails_def)

section \<open>Events and the time to wait\<close>

lemma decode_encode: "i < 2 ^ 32 \<Longrightarrow> decode_event (encode_event t i) = (Some t, i)"
proof -
  assume i: "i < 2 ^ 32"
  have word: "take_bit 32 (of_nat i :: 64 word) = of_nat i"
    using i by (simp only: take_bit_of_nat take_bit_nat_eq_self)
  have "drop_bit 32 (encode_event t i) = event_code t"
    by (cases t) (simp_all add: encode_event_def drop_bit_or drop_bit_take_bit)
  moreover have "take_bit 32 (encode_event t i) = of_nat i"
    by (simp add: encode_event_def take_bit_or take_bit_push_bit word)
  ultimately show ?thesis
    using i by (cases t) (simp_all add: decode_event_def event_type_of_def unat_of_nat)
qed

definition epoll_targets :: "('s, 'd) linux_port list \<Rightarrow> controller_rt list \<Rightarrow> (event_type \<times> nat) list" where
  "epoll_targets ports cs =
     [(Ev_control, 0), (Ev_udev, 0), (Ev_accept_control, 0), (Ev_accept_interrupt, 0)]
     @ map (Pair Ev_port) [0..<length ports]
     @ concat (map (\<lambda>i. if ct_backend (cs ! i) = None then [] else [(Ev_bt_control, i), (Ev_bt_interrupt, i)])
         [0..<length cs])"

lemma epoll_target:
  "(t, i) \<in> set (epoll_targets ports cs) \<longleftrightarrow>
    (case t of
       Ev_port \<Rightarrow> i < length ports
     | Ev_bt_control \<Rightarrow> i < length cs \<and> ct_backend (cs ! i) \<noteq> None
     | Ev_bt_interrupt \<Rightarrow> i < length cs \<and> ct_backend (cs ! i) \<noteq> None
     | _ \<Rightarrow> i = 0)"
  by (cases t) (auto simp: epoll_targets_def split: if_splits)

lemma epoll_set_targets: "epoll_set ports cs = map (\<lambda>(t, i). encode_event t i) (epoll_targets ports cs)"
  by (auto simp: epoll_set_def epoll_targets_def map_concat intro!: arg_cong [where f = concat])

lemma distinct_blocks:
  "distinct is \<Longrightarrow> distinct (concat (map (\<lambda>i. if P i then [] else [(Ev_bt_control, i), (Ev_bt_interrupt, i)]) is))"
  by (induction "is") auto

lemma epoll_targets_distinct: "distinct (epoll_targets ports cs)"
  by (auto simp: epoll_targets_def distinct_map inj_on_def distinct_blocks split: if_splits)

text \<open>
  C28. What epoll is told about a descriptor comes back as the kind of event and an index that is in range:
  \<open>rebuild_epoll\<close> registers the listeners once, every port, and both channels of exactly the connected
  controllers, no two with the same data.
\<close>

theorem epoll_data_decodes:
  assumes "length ports < 2 ^ 32" and "length cs < 2 ^ 32"
  shows "distinct (epoll_set ports cs)
    \<and> (\<forall>t i. (\<exists>d \<in> set (epoll_set ports cs). decode_event d = (Some t, i)) \<longleftrightarrow>
        (case t of
           Ev_port \<Rightarrow> i < length ports
         | Ev_bt_control \<Rightarrow> i < length cs \<and> ct_backend (cs ! i) \<noteq> None
         | Ev_bt_interrupt \<Rightarrow> i < length cs \<and> ct_backend (cs ! i) \<noteq> None
         | _ \<Rightarrow> i = 0))"
proof -
  let ?targets = "epoll_targets ports cs"
  have range: "\<forall>(t, i) \<in> set ?targets. i < 2 ^ 32"
    using assms by (auto simp: epoll_targets_def split: if_splits)
  have decoded: "map decode_event (epoll_set ports cs) = map (\<lambda>(t, i). (Some t, i)) ?targets"
    unfolding epoll_set_targets by (auto simp: decode_encode dest!: range [rule_format])
  then have "distinct (map decode_event (epoll_set ports cs))"
    by (simp add: distinct_map epoll_targets_distinct inj_on_def split: prod.split)
  moreover have "(\<exists>d \<in> set (epoll_set ports cs). decode_event d = (Some t, i)) \<longleftrightarrow> (t, i) \<in> set ?targets" for t i
  proof -
    have "(\<exists>d \<in> set (epoll_set ports cs). decode_event d = (Some t, i))
        \<longleftrightarrow> (Some t, i) \<in> set (map decode_event (epoll_set ports cs))" unfolding set_map image_iff by metis
    then show ?thesis unfolding decoded by (simp add: image_iff case_prod_beta) force
  qed
  ultimately show ?thesis by (simp add: distinct_map epoll_target)
qed

lemma round_up:
  fixes k x :: int
  assumes "0 < k" and "0 < x"
  shows "0 < (x + (k - 1)) div k \<and> ((x + (k - 1)) div k - 1) * k < x"
proof
  show "0 < (x + (k - 1)) div k" using assms by (simp add: pos_imp_zdiv_pos_iff)
  have "k * ((x + (k - 1)) div k) + (x + (k - 1)) mod k = x + (k - 1)" by (rule mult_div_mod_eq)
  moreover have "0 \<le> (x + (k - 1)) mod k" using assms(1) by (rule pos_mod_sign)
  moreover have "((x + (k - 1)) div k - 1) * k = k * ((x + (k - 1)) div k) - k"
    by (simp only: left_diff_distrib mult_1 mult.commute [of k])
  ultimately show "((x + (k - 1)) div k - 1) * k < x" by linarith
qed

text \<open>
  C27. How long the loop sleeps: never longer than a minute, two milliseconds while a report or audio of a
  connected controller waits, no longer than up to the millisecond after the next audio packet is due,
  and it polls without sleeping only when an audio packet is due.
\<close>

theorem wakeup_in_time:
  assumes "t = next_wakeup_timeout_ms now ports cs"
  shows "0 \<le> t \<and> t \<le> 60000 \<and> (has_pending_bt_output ports cs \<longrightarrow> t \<le> kPendingOutputPollMs)
    \<and> (\<forall>p \<in> set (backed_ports ports cs). pending_audio_chunks p \<noteq> [] \<longrightarrow>
         t = 0 \<or> now + (t - 1) * 1000000 < next_haptics_send_time p)
    \<and> (t = 0 \<longrightarrow> (\<exists>p \<in> set (backed_ports ports cs). pending_audio_chunks p \<noteq> []
         \<and> (next_haptics_send_time p = 0 \<or> next_haptics_send_time p \<le> now)))"
proof -
  have "0 < u \<Longrightarrow> 0 \<le> audio_wait_loop now ps u \<and> audio_wait_loop now ps u \<le> u
    \<and> (\<forall>p \<in> set ps. pending_audio_chunks p \<noteq> [] \<longrightarrow>
         audio_wait_loop now ps u = 0 \<or> now + (audio_wait_loop now ps u - 1) * 1000000 < next_haptics_send_time p)
    \<and> (audio_wait_loop now ps u = 0 \<longrightarrow> (\<exists>p \<in> set ps. pending_audio_chunks p \<noteq> []
         \<and> (next_haptics_send_time p = 0 \<or> next_haptics_send_time p \<le> now)))" for u and ps :: "('a, 'b) linux_port list"
  proof (induction ps arbitrary: u)
    case (Cons p ps)
    let ?due = "(next_haptics_send_time p - now + 999999) div 1000000"
    have due: "0 < ?due \<and> (?due - 1) * 1000000 < next_haptics_send_time p - now" if "now < next_haptics_send_time p"
      using that round_up [of 1000000 "next_haptics_send_time p - now"] by simp
    show ?case
    proof (cases "pending_audio_chunks p = [] \<or> next_haptics_send_time p = 0 \<or> next_haptics_send_time p \<le> now")
      case True
      then show ?thesis using Cons by auto
    next
      case False
      then have "0 < min u ?due" using Cons.prems due by simp
      with Cons.IH [of "min u ?due"] False due show ?thesis by auto
    qed
  qed simp
  from this [of "if has_pending_bt_output ports cs then min 60000 kPendingOutputPollMs else 60000" "backed_ports ports cs"]
  show ?thesis unfolding assms next_wakeup_timeout_ms_def by auto
qed

theorem epoll_data_decodes_witness:
  "distinct (epoll_set [example_linux_port] [fully_connected])
    \<and> (\<exists>d \<in> set (epoll_set [example_linux_port] [fully_connected]). decode_event d = (Some Ev_bt_interrupt, 0))"
  using epoll_data_decodes [of "[example_linux_port]" "[fully_connected]"] by simp

definition due_port :: "(unit, unit) linux_port" where
  "due_port = example_linux_port\<lparr>lp_path := ''/dev/vds0'', next_haptics_send_time := 1500000,
     pending_audio_chunks := [\<lparr>ac_haptics = [], ac_speaker = [], ac_has_signal = False, ac_has_haptics_signal = False\<rparr>]\<rparr>"

theorem wakeup_in_time_witness:
  "\<exists>t. t = next_wakeup_timeout_ms 1000000 [due_port] [fully_connected] \<and> 0 \<le> t \<and> t \<le> 60000
    \<and> (t = 0 \<or> 1000000 + (t - 1) * 1000000 < next_haptics_send_time due_port)"
proof -
  have "backed_ports [due_port] [fully_connected] = [due_port]"
    by (simp add: backed_ports_def List.map_filter_simps find_port_index_def due_port_def)
  moreover have "pending_audio_chunks due_port \<noteq> []" by (simp add: due_port_def)
  ultimately show ?thesis
    using wakeup_in_time [OF refl, of 1000000 "[due_port]" "[fully_connected]"] by auto
qed

end
