(* ===== verification/KernelUsb.thy ===== *)
theory KernelUsb
  imports UsbIpSubmit Audio
begin

text \<open>
  The USB device the kernel module presents (\<open>src/module/vds_usb_core.c\<close>): its state, its cache of
  feature reports, and the control requests of endpoint 0. The host controller is behind the
  operations of \<open>vds_usb_device_ops\<close>, which are an argument. Results are the numbers of the
  code, 0 or a negative error.
\<close>

section \<open>Errors and transfers\<close>

abbreviation (input) EPIPE :: int where "EPIPE \<equiv> 32"
abbreviation (input) ENOENT :: int where "ENOENT \<equiv> 2"
abbreviation (input) EINVAL :: int where "EINVAL \<equiv> 22"
abbreviation (input) EINPROGRESS :: int where "EINPROGRESS \<equiv> 115"

datatype pipe_type = Pipe_control | Pipe_interrupt | Pipe_isochronous | Pipe_bulk

record iso_frame =
  id_offset :: nat
  id_length :: nat
  id_actual :: nat
  id_status :: int

text \<open>A transfer: \<open>ur_length\<close> is \<open>transfer_buffer_length\<close>; a missing buffer is None.\<close>

record urb =
  ur_pipe :: pipe_type
  ur_endpoint :: nat
  ur_in :: bool
  ur_setup :: "bytes option"
  ur_buffer :: "bytes option"
  ur_length :: nat
  ur_actual :: nat
  ur_frames :: "iso_frame list"
  ur_errors :: nat
  ur_start_frame :: int

definition copy_to_urb :: "bytes \<Rightarrow> urb \<Rightarrow> int \<times> urb" where
  "copy_to_urb data u =
     (let n = min (length data) (ur_length u) in
      if n \<noteq> 0 \<and> ur_buffer u = None then (- EPIPE, u)
      else (0, u\<lparr>ur_buffer := map_option (write_at 0 (take n data)) (ur_buffer u), ur_actual := n\<rparr>))"

section \<open>The device\<close>

record usb_profile =
  up_profile :: nat
  up_product_id :: u16
  up_device_version :: u16
  up_class :: u8
  up_subclass :: u8
  up_protocol :: u8
  up_max_packet_size0 :: u8
  up_num_configurations :: u8
  up_configuration_value :: u8
  up_manufacturer :: string
  up_product :: string
  up_configuration :: bytes
  up_hid :: bytes
  up_hid_report :: bytes
  up_audio_control :: nat
  up_audio_out :: nat
  up_audio_in :: nat
  up_hid_interface :: nat
  up_audio_out_endpoint :: u8
  up_audio_in_endpoint :: u8
  up_hid_in_endpoint :: u8
  up_hid_out_endpoint :: u8
  up_hid_interval_us :: nat
  up_speaker_unit :: nat
  up_mic_unit :: nat

definition dualsense_profile :: usb_profile where
  "dualsense_profile =
     \<lparr>up_profile = VDS_PROFILE_DS5, up_product_id = 0x0ce6, up_device_version = VDS_USB_DEVICE_BCD, up_class = 0,
      up_subclass = 0, up_protocol = 0, up_max_packet_size0 = 64, up_num_configurations = VDS_USB_NUM_CONFIGURATIONS,
      up_configuration_value = VDS_USB_CONFIGURATION_VALUE, up_manufacturer = VDS_USB_MANUFACTURER_STRING,
      up_product = VDS_DS5_USB_PRODUCT_STRING, up_configuration = vds_ds5_usb_configuration_descriptor,
      up_hid = vds_ds5_usb_hid_descriptor, up_hid_report = vds_ds5_usb_hid_report_descriptor, up_audio_control = 0,
      up_audio_out = 1, up_audio_in = 2, up_hid_interface = 3, up_audio_out_endpoint = VDS_USB_AUDIO_OUT_ENDPOINT,
      up_audio_in_endpoint = VDS_USB_AUDIO_IN_ENDPOINT, up_hid_in_endpoint = VDS_USB_HID_IN_ENDPOINT,
      up_hid_out_endpoint = VDS_USB_HID_OUT_ENDPOINT, up_hid_interval_us = 1000, up_speaker_unit = 2, up_mic_unit = 5\<rparr>"

definition dualsense_edge_profile :: usb_profile where
  "dualsense_edge_profile =
     \<lparr>up_profile = VDS_PROFILE_DSE, up_product_id = 0x0df2, up_device_version = VDS_USB_DEVICE_BCD, up_class = 0,
      up_subclass = 0, up_protocol = 0, up_max_packet_size0 = 64, up_num_configurations = VDS_USB_NUM_CONFIGURATIONS,
      up_configuration_value = VDS_USB_CONFIGURATION_VALUE, up_manufacturer = VDS_USB_MANUFACTURER_STRING,
      up_product = VDS_DSE_USB_PRODUCT_STRING, up_configuration = vds_dse_usb_configuration_descriptor,
      up_hid = vds_dse_usb_hid_descriptor, up_hid_report = vds_dse_usb_hid_report_descriptor, up_audio_control = 0,
      up_audio_out = 1, up_audio_in = 2, up_hid_interface = 3, up_audio_out_endpoint = VDS_USB_AUDIO_OUT_ENDPOINT,
      up_audio_in_endpoint = VDS_USB_AUDIO_IN_ENDPOINT, up_hid_in_endpoint = VDS_USB_HID_IN_ENDPOINT,
      up_hid_out_endpoint = VDS_USB_HID_OUT_ENDPOINT, up_hid_interval_us = 1000, up_speaker_unit = 2, up_mic_unit = 5\<rparr>"

definition audio_feature_index :: "usb_profile \<Rightarrow> nat \<Rightarrow> nat option" where
  "audio_feature_index pr entity_id =
     (if entity_id = up_speaker_unit pr then Some 0
      else if up_mic_unit pr \<noteq> 0xff \<and> entity_id = up_mic_unit pr then Some 1 else None)"

abbreviation (input) VDS_CONTROLLER_HID_PACKET_SIZE :: nat where "VDS_CONTROLLER_HID_PACKET_SIZE \<equiv> 64"
abbreviation (input) VDS_USB_SPK_VOLUME_MIN :: s16 where "VDS_USB_SPK_VOLUME_MIN \<equiv> - 25600"
abbreviation (input) VDS_USB_SPK_VOLUME_MAX :: s16 where "VDS_USB_SPK_VOLUME_MAX \<equiv> 0"
abbreviation (input) VDS_USB_SPK_VOLUME_RES :: s16 where "VDS_USB_SPK_VOLUME_RES \<equiv> 0x0100"

record usb_device =
  ud_profile :: nat
  ud_address :: u8
  ud_configuration :: u8
  ud_audio_out :: u8
  ud_audio_in :: u8
  ud_hid_idle :: u8
  ud_hid_protocol :: u8
  ud_mute :: "u8 list"
  ud_volume :: "s16 list"
  ud_cache_len :: "u8 \<Rightarrow> nat"
  ud_cache :: "u8 \<Rightarrow> bytes"

definition valid_profile :: "nat \<Rightarrow> bool" where
  "valid_profile profile \<longleftrightarrow> profile = VDS_PROFILE_DS5 \<or> profile = VDS_PROFILE_DSE"

definition profile_of :: "nat \<Rightarrow> usb_profile" where
  "profile_of profile = (if profile = VDS_PROFILE_DSE then dualsense_edge_profile else dualsense_profile)"

definition device_profile :: "usb_device \<Rightarrow> usb_profile" where
  "device_profile d = profile_of (ud_profile d)"

definition reset_usb_state :: "usb_device \<Rightarrow> usb_device" where
  "reset_usb_state d =
     d\<lparr>ud_address := 0, ud_configuration := 0, ud_audio_out := 0, ud_audio_in := 0, ud_hid_idle := 0,
       ud_hid_protocol := 0, ud_mute := replicate 2 0, ud_volume := replicate 2 VDS_USB_SPK_VOLUME_MIN,
       ud_cache_len := (\<lambda>_. 0)\<rparr>"

definition usb_device_init :: "nat \<Rightarrow> usb_device" where
  "usb_device_init profile =
     reset_usb_state \<lparr>ud_profile = (if valid_profile profile then profile else VDS_PROFILE_DS5), ud_address = 0,
       ud_configuration = 0, ud_audio_out = 0, ud_audio_in = 0, ud_hid_idle = 0, ud_hid_protocol = 0,
       ud_mute = replicate 2 0, ud_volume = replicate 2 0, ud_cache_len = (\<lambda>_. 0),
       ud_cache = (\<lambda>_. replicate VDS_CONTROLLER_HID_PACKET_SIZE 0)\<rparr>"

definition usb_set_profile :: "nat \<Rightarrow> usb_device \<Rightarrow> int \<times> usb_device" where
  "usb_set_profile profile d =
     (if valid_profile profile then (0, reset_usb_state (d\<lparr>ud_profile := profile\<rparr>)) else (- EINVAL, d))"

definition update_feature_reply :: "bytes \<Rightarrow> usb_device \<Rightarrow> int \<times> usb_device" where
  "update_feature_reply payload d =
     (if payload = [] \<or> length payload > VDS_CONTROLLER_HID_PACKET_SIZE then (- EINVAL, d)
      else (let i = payload ! 0 in
        (0, d\<lparr>ud_cache := (ud_cache d)(i := write_at 0 payload (ud_cache d i)),
             ud_cache_len := (ud_cache_len d)(i := length payload)\<rparr>)))"

definition endpoint_number :: "u8 \<Rightarrow> nat" where
  "endpoint_number address = unat (address AND 0x0f)"

definition is_hid_in :: "usb_device \<Rightarrow> nat \<Rightarrow> bool" where
  "is_hid_in d endpoint \<longleftrightarrow> endpoint = endpoint_number (up_hid_in_endpoint (device_profile d))"

definition is_hid_out :: "usb_device \<Rightarrow> nat \<Rightarrow> bool" where
  "is_hid_out d endpoint \<longleftrightarrow> endpoint = endpoint_number (up_hid_out_endpoint (device_profile d))"

definition is_audio_out :: "usb_device \<Rightarrow> nat \<Rightarrow> bool" where
  "is_audio_out d endpoint \<longleftrightarrow> endpoint = endpoint_number (up_audio_out_endpoint (device_profile d))"

definition is_audio_in :: "usb_device \<Rightarrow> nat \<Rightarrow> bool" where
  "is_audio_in d endpoint \<longleftrightarrow> up_audio_in_endpoint (device_profile d) \<noteq> 0xff
     \<and> endpoint = endpoint_number (up_audio_in_endpoint (device_profile d))"

definition copy_string_descriptor :: "string option \<Rightarrow> urb \<Rightarrow> int \<times> urb" where
  "copy_string_descriptor text_of u =
     (case text_of of
        None \<Rightarrow> copy_to_urb [4, 3, 0x09, 0x04] u
      | Some s \<Rightarrow>
          (let units = concat (map (\<lambda>c. [of_nat (code_of c), 0]) (take 126 (takeWhile (\<lambda>c. code_of c \<noteq> 0) s))) in
           copy_to_urb (of_nat (2 + length units) # 3 # units) u))"

definition copy_cached_feature_report :: "usb_device \<Rightarrow> u8 \<Rightarrow> urb \<Rightarrow> int \<times> urb" where
  "copy_cached_feature_report d report_id u =
     (if ud_cache_len d report_id = 0 then (- ENOENT, u)
      else copy_to_urb (take (ud_cache_len d report_id) (ud_cache d report_id)) u)"

section \<open>Control requests\<close>

text \<open>The operations of the host controller, on its state; the transfer is the one at hand.\<close>

record 'c usb_ops =
  op_enqueue :: "u16 \<Rightarrow> bytes \<Rightarrow> 'c \<Rightarrow> int \<times> 'c"
  op_defer :: "u8 \<Rightarrow> 'c \<Rightarrow> int \<times> 'c"
  op_status :: "u32 \<Rightarrow> bool \<Rightarrow> 'c \<Rightarrow> 'c"

type_synonym 'c control_result = "int \<times> urb \<times> usb_device \<times> 'c"

abbreviation (input) VDS_STATUS_CONNECTED :: u32 where "VDS_STATUS_CONNECTED \<equiv> 1"
abbreviation (input) VDS_STATUS_CONFIGURED :: u32 where "VDS_STATUS_CONFIGURED \<equiv> 2"
abbreviation (input) VDS_STATUS_HID_ENABLED :: u32 where "VDS_STATUS_HID_ENABLED \<equiv> 4"
abbreviation (input) VDS_STATUS_AUDIO_ENABLED :: u32 where "VDS_STATUS_AUDIO_ENABLED \<equiv> 8"

definition index_low :: "setup_packet \<Rightarrow> nat" where
  "index_low su = unat (su_index su) mod 256"

definition index_high :: "setup_packet \<Rightarrow> nat" where
  "index_high su = unat (su_index su) div 256"

text \<open>What a request answers to the host without touching the host controller.\<close>

definition answer_with :: "bytes \<Rightarrow> urb \<Rightarrow> usb_device \<Rightarrow> 'c \<Rightarrow> 'c control_result" where
  "answer_with bs u d c = (case copy_to_urb bs u of (r, u') \<Rightarrow> (r, u', d, c))"

definition stall :: "urb \<Rightarrow> usb_device \<Rightarrow> 'c \<Rightarrow> 'c control_result" where
  "stall u d c = (- EPIPE, u, d, c)"

definition audio_get :: "nat \<Rightarrow> setup_packet \<Rightarrow> usb_device \<Rightarrow> bytes option" where
  "audio_get i su d =
     (if value_high su = 0x01 then (if su_request su = 0x81 then Some [ud_mute d ! i] else None)
      else if value_high su = 0x02 then
        (if su_request su = 0x81 then Some (le_bytes 2 (ud_volume d ! i))
         else if su_request su = 0x82 then Some (le_bytes 2 VDS_USB_SPK_VOLUME_MIN)
         else if su_request su = 0x83 then Some (le_bytes 2 VDS_USB_SPK_VOLUME_MAX)
         else if su_request su = 0x84 then Some (le_bytes 2 VDS_USB_SPK_VOLUME_RES) else None)
      else None)"

definition audio_set :: "nat \<Rightarrow> setup_packet \<Rightarrow> urb \<Rightarrow> usb_device \<Rightarrow> 'c \<Rightarrow> 'c control_result" where
  "audio_set i su u d c =
     (case ur_buffer u of
        None \<Rightarrow> stall u d c
      | Some data \<Rightarrow>
          if su_request su \<noteq> 0x01 then stall u d c
          else if value_high su = 0x01 \<and> ur_length u \<ge> 1 then
            (0, u\<lparr>ur_actual := 1\<rparr>, d\<lparr>ud_mute := (ud_mute d)[i := data ! 0]\<rparr>, c)
          else if value_high su = 0x02 \<and> ur_length u \<ge> 2 then
            (0, u\<lparr>ur_actual := 2\<rparr>, d\<lparr>ud_volume := (ud_volume d)[i := le_value (take 2 data)]\<rparr>, c)
          else stall u d c)"

definition audio_control :: "setup_packet \<Rightarrow> urb \<Rightarrow> usb_device \<Rightarrow> 'c \<Rightarrow> 'c control_result" where
  "audio_control su u d c =
     (let pr = device_profile d in
      if index_low su \<noteq> up_audio_control pr then stall u d c
      else case audio_feature_index pr (index_high su) of
        None \<Rightarrow> stall u d c
      | Some i \<Rightarrow>
          if device_to_host su then
            (case audio_get i su d of None \<Rightarrow> stall u d c | Some bs \<Rightarrow> answer_with bs u d c)
          else audio_set i su u d c)"

text \<open>A feature report that is not cached is asked for: the transfer waits before the daemon sees the request.\<close>

definition get_feature_report :: "'c usb_ops \<Rightarrow> setup_packet \<Rightarrow> urb \<Rightarrow> usb_device \<Rightarrow> 'c \<Rightarrow> 'c control_result" where
  "get_feature_report ops su u d c =
     (let i = value_low su in
      case copy_cached_feature_report d i u of
        (r, u') \<Rightarrow>
          if r \<noteq> - ENOENT then (r, u', d, c)
          else (case op_defer ops i c of
            (r, c) \<Rightarrow>
              if r \<noteq> 0 then (r, u, d, c)
              else (case op_enqueue ops VDS_FRAME_USB_FEATURE_GET (i # le_bytes 2 (su_length su)) c of
                (r, c) \<Rightarrow> (if r \<noteq> 0 then r else - EINPROGRESS, u, d, c))))"

definition set_feature_report :: "'c usb_ops \<Rightarrow> setup_packet \<Rightarrow> urb \<Rightarrow> usb_device \<Rightarrow> 'c \<Rightarrow> 'c control_result" where
  "set_feature_report ops su u d c =
     (if value_high su \<noteq> 0x03 then stall u d c
      else if ur_length u = 0 then (0, u\<lparr>ur_actual := 0\<rparr>, d, c)
      else case ur_buffer u of
        None \<Rightarrow> stall u d c
      | Some data \<Rightarrow>
          if ur_length u > VDS_CONTROLLER_HID_PACKET_SIZE then stall u d c
          else (case op_enqueue ops VDS_FRAME_USB_FEATURE_SET (value_low su # take (ur_length u) data) c of
            (r, c) \<Rightarrow> if r \<noteq> 0 then (r, u, d, c) else (0, u\<lparr>ur_actual := ur_length u\<rparr>, d, c)))"

definition hid_control :: "'c usb_ops \<Rightarrow> setup_packet \<Rightarrow> urb \<Rightarrow> usb_device \<Rightarrow> 'c \<Rightarrow> 'c control_result" where
  "hid_control ops su u d c =
     (if index_low su \<noteq> up_hid_interface (device_profile d) then stall u d c
      else if su_request su = 0x01 then
        (if value_high su = 0x03 then get_feature_report ops su u d c
         else answer_with (value_low su # replicate (VDS_CONTROLLER_HID_PACKET_SIZE - 1) 0) u d c)
      else if su_request su = 0x09 then set_feature_report ops su u d c
      else if su_request su = 0x02 then answer_with [ud_hid_idle d] u d c
      else if su_request su = 0x03 then answer_with [ud_hid_protocol d] u d c
      else if su_request su = 0x0a then (0, u, d\<lparr>ud_hid_idle := value_high su\<rparr>, c)
      else if su_request su = 0x0b then (0, u, d\<lparr>ud_hid_protocol := value_low su\<rparr>, c)
      else stall u d c)"

definition device_descriptor :: "usb_profile \<Rightarrow> bytes" where
  "device_descriptor pr =
     [18, 1] @ le_bytes 2 (0x0200 :: u16) @ [up_class pr, up_subclass pr, up_protocol pr, up_max_packet_size0 pr]
     @ le_bytes 2 (0x054c :: u16) @ le_bytes 2 (up_product_id pr) @ le_bytes 2 (up_device_version pr)
     @ [1, 2, 0, up_num_configurations pr]"

definition qualifier_descriptor :: bytes where
  "qualifier_descriptor = [10, 6] @ le_bytes 2 (0x0200 :: u16) @ [0, 0, 0, 64, 1, 0]"

definition usb_get_descriptor :: "setup_packet \<Rightarrow> urb \<Rightarrow> usb_device \<Rightarrow> int \<times> urb" where
  "usb_get_descriptor su u d =
     (let pr = device_profile d; t = value_high su in
      if t = 1 then copy_to_urb (device_descriptor pr) u
      else if t = 2 then copy_to_urb (up_configuration pr) u
      else if t = 6 then copy_to_urb qualifier_descriptor u
      else if t = 3 then
        (if value_low su = 0 then copy_string_descriptor None u
         else if value_low su = 1 then copy_string_descriptor (Some (up_manufacturer pr)) u
         else if value_low su = 2 then copy_string_descriptor (Some (up_product pr)) u
         else (- EPIPE, u))
      else if t = 0x22 \<and> index_low su = up_hid_interface pr then copy_to_urb (up_hid_report pr) u
      else if t = 0x21 \<and> index_low su = up_hid_interface pr then copy_to_urb (up_hid pr) u
      else (- EPIPE, u))"

definition interface_frame :: "'c usb_ops \<Rightarrow> nat \<Rightarrow> u8 \<Rightarrow> u8 \<Rightarrow> 'c \<Rightarrow> 'c" where
  "interface_frame ops interface_number altsetting kind c =
     snd (op_enqueue ops VDS_FRAME_USB_INTERFACE [of_nat interface_number, altsetting, kind, 0] c)"

definition set_configuration :: "'c usb_ops \<Rightarrow> setup_packet \<Rightarrow> urb \<Rightarrow> usb_device \<Rightarrow> 'c \<Rightarrow> 'c control_result" where
  "set_configuration ops su u d c =
     (let v = up_configuration_value (device_profile d) in
      if su_value su \<noteq> 0 \<and> su_value su \<noteq> ucast v then stall u d c
      else (0, u, d\<lparr>ud_configuration := value_low su, ud_audio_out := 0, ud_audio_in := 0\<rparr>,
        op_status ops VDS_STATUS_AUDIO_ENABLED False
          (op_status ops (VDS_STATUS_CONFIGURED OR VDS_STATUS_HID_ENABLED) (value_low su = v) c)))"

definition usb_set_interface :: "'c usb_ops \<Rightarrow> setup_packet \<Rightarrow> urb \<Rightarrow> usb_device \<Rightarrow> 'c \<Rightarrow> 'c control_result" where
  "usb_set_interface ops su u d c =
     (let pr = device_profile d; i = index_low su; alt = value_low su in
      if i = up_hid_interface pr then
        (if su_value su \<noteq> 0 then stall u d c else (0, u, d, interface_frame ops i 0 0 c))
      else if su_value su > 1 then stall u d c
      else if i = up_audio_out pr then
        (0, u, d\<lparr>ud_audio_out := alt\<rparr>, interface_frame ops i alt 1 (op_status ops VDS_STATUS_AUDIO_ENABLED (alt = 1) c))
      else if up_audio_in pr \<noteq> 0xff \<and> i = up_audio_in pr then
        (0, u, d\<lparr>ud_audio_in := alt\<rparr>, interface_frame ops i alt 2 c)
      else stall u d c)"

definition usb_get_interface :: "setup_packet \<Rightarrow> urb \<Rightarrow> usb_device \<Rightarrow> 'c \<Rightarrow> 'c control_result" where
  "usb_get_interface su u d c =
     (let pr = device_profile d; i = index_low su in
      if i = up_audio_out pr then answer_with [ud_audio_out d] u d c
      else if up_audio_in pr \<noteq> 0xff \<and> i = up_audio_in pr then answer_with [ud_audio_in d] u d c
      else if i = up_hid_interface pr then answer_with [0] u d c
      else stall u d c)"

definition standard_control :: "'c usb_ops \<Rightarrow> setup_packet \<Rightarrow> urb \<Rightarrow> usb_device \<Rightarrow> 'c \<Rightarrow> 'c control_result" where
  "standard_control ops su u d c =
     (if su_request su = 6 then (case usb_get_descriptor su u d of (r, u') \<Rightarrow> (r, u', d, c))
      else if su_request su = 5 then (0, u, d\<lparr>ud_address := value_low su AND 0x7f\<rparr>, c)
      else if su_request su = 9 then set_configuration ops su u d c
      else if su_request su = 8 then answer_with [ud_configuration d] u d c
      else if su_request su = 11 then usb_set_interface ops su u d c
      else if su_request su = 10 then usb_get_interface su u d c
      else if su_request su = 0 then answer_with [0, 0] u d c
      else if su_request su = 1 \<or> su_request su = 3 then (0, u, d, c)
      else stall u d c)"

definition control_urb :: "'c usb_ops \<Rightarrow> urb \<Rightarrow> usb_device \<Rightarrow> 'c \<Rightarrow> 'c control_result" where
  "control_urb ops u d c =
     (case ur_setup u of
        None \<Rightarrow> stall u d c
      | Some bs \<Rightarrow>
          (let su = read_setup bs; u = u\<lparr>ur_actual := 0\<rparr>; kind = su_request_type su AND 0x60 in
           if kind = 0 then standard_control ops su u d c
           else if kind = 0x20 \<and> su_request_type su AND 0x1f = 1 then
             (if index_low su = up_hid_interface (device_profile d) then hid_control ops su u d c
              else audio_control su u d c)
           else stall u d c))"

end
