(* ===== verification/KernelHcd.thy ===== *)
theory KernelHcd
  imports KernelUsb
begin

text \<open>
  The virtual host controller of the kernel module (\<open>src/module/vds_hcd_core.c\<close>): the queues between
  the transfers of the host and the frames of the daemon, the thread that gives transfers back, the
  character device and the root hub. Transfers are named by numbers; the store of their contexts is
  part of the state, so that the lists hold names as the code's lists hold pointers.
\<close>

abbreviation (input) ENOMEM :: int where "ENOMEM \<equiv> 12"
abbreviation (input) EAGAIN :: int where "EAGAIN \<equiv> 11"
abbreviation (input) EFAULT :: int where "EFAULT \<equiv> 14"
abbreviation (input) EBUSY :: int where "EBUSY \<equiv> 16"
abbreviation (input) ENOTTY :: int where "ENOTTY \<equiv> 25"
abbreviation (input) ENOSPC :: int where "ENOSPC \<equiv> 28"
abbreviation (input) EOVERFLOW :: int where "EOVERFLOW \<equiv> 75"
abbreviation (input) EMSGSIZE :: int where "EMSGSIZE \<equiv> 90"
abbreviation (input) EOPNOTSUPP :: int where "EOPNOTSUPP \<equiv> 95"
abbreviation (input) ESHUTDOWN :: int where "ESHUTDOWN \<equiv> 108"
abbreviation (input) ERESTARTSYS :: int where "ERESTARTSYS \<equiv> 512"

abbreviation (input) VDS_AUDIO_IN_BYTES_PER_MS :: nat where "VDS_AUDIO_IN_BYTES_PER_MS \<equiv> 192"
abbreviation (input) VDS_AUDIO_OUT_BYTES_PER_MS :: nat where "VDS_AUDIO_OUT_BYTES_PER_MS \<equiv> 384"
abbreviation (input) VDS_AUDIO_IN_QUEUE_MAX_BYTES :: nat where "VDS_AUDIO_IN_QUEUE_MAX_BYTES \<equiv> 19200"
abbreviation (input) kMaxEvents :: nat where "kMaxEvents \<equiv> 16384"

section \<open>State\<close>

record hcd_event =
  ev_header :: frame_header
  ev_payload :: bytes

record audio_packet =
  au_offset :: nat
  au_payload :: bytes

datatype urb_state = Urb_active | Urb_pending_hid_in | Urb_pending_feature_get | Urb_pending_giveback

text \<open>A context whose transfer is being given back is gone from the store; a time of 0 is none.\<close>

record urb_context =
  uc_urb :: urb
  uc_ready :: int
  uc_status :: int
  uc_report :: u8
  uc_state :: urb_state
  uc_iso_out :: bool
  uc_iso_in :: bool

text \<open>
  \<open>hd_given\<close> records the transfers given back to the USB core and \<open>hd_allocs\<close> counts allocations, so
  that the environment can tell which of them fail.
\<close>

record hcd =
  hd_events :: "hcd_event list"
  hd_pending_in :: "nat list"
  hd_pending_get :: "nat list"
  hd_completed :: "nat list"
  hd_inputs :: "bytes list"
  hd_audio :: "audio_packet list"
  hd_to_user :: "64 word"
  hd_from_user :: "64 word"
  hd_sequence :: "64 word"
  hd_next_out :: int
  hd_next_in :: int
  hd_next_hid :: int
  hd_event_count :: nat
  hd_status :: u32
  hd_port :: u32
  hd_stopping :: bool
  hd_opened :: bool
  hd_input_count :: nat
  hd_audio_count :: nat
  hd_audio_bytes :: nat
  hd_usb :: usb_device
  hd_contexts :: "nat \<Rightarrow> urb_context option"
  hd_given :: "(nat \<times> int \<times> urb) list"
  hd_allocs :: nat

text \<open>
  What a call meets: the clock, which allocations succeed, the answers of the USB core, whether user
  memory can be copied, and the error of copying a payload, 0 for none.
\<close>

record kernel_env =
  kn_now :: int
  kn_alloc :: "nat \<Rightarrow> bool"
  kn_link :: int
  kn_check_unlink :: int
  kn_fault :: bool
  kn_memdup :: int
  kn_interrupted :: bool

definition allocate :: "kernel_env \<Rightarrow> hcd \<Rightarrow> bool \<times> hcd" where
  "allocate env dev = (kn_alloc env (hd_allocs dev), dev\<lparr>hd_allocs := hd_allocs dev + 1\<rparr>)"

definition upd_context :: "nat \<Rightarrow> (urb_context \<Rightarrow> urb_context) \<Rightarrow> hcd \<Rightarrow> hcd" where
  "upd_context i f dev = dev\<lparr>hd_contexts := (hd_contexts dev)(i := map_option f (hd_contexts dev i))\<rparr>"

definition upd_urb :: "nat \<Rightarrow> (urb \<Rightarrow> urb) \<Rightarrow> hcd \<Rightarrow> hcd" where
  "upd_urb i f = upd_context i (\<lambda>c. c\<lparr>uc_urb := f (uc_urb c)\<rparr>)"

definition status_set :: "u32 \<Rightarrow> bool \<Rightarrow> hcd \<Rightarrow> hcd" where
  "status_set flags enabled dev =
     dev\<lparr>hd_status := (if enabled then hd_status dev OR flags else hd_status dev AND NOT flags)\<rparr>"

section \<open>Frames for the daemon\<close>

definition enqueue_frame :: "kernel_env \<Rightarrow> u16 \<Rightarrow> bytes \<Rightarrow> hcd \<Rightarrow> int \<times> hcd" where
  "enqueue_frame env type payload dev =
     (if length payload > VDS_FRAME_MAX_PAYLOAD then (- EMSGSIZE, dev)
      else case allocate env dev of
        (False, dev) \<Rightarrow> (- ENOMEM, dev)
      | (True, dev) \<Rightarrow>
          if hd_stopping dev then (- ESHUTDOWN, dev)
          else if hd_event_count dev \<ge> kMaxEvents then (- ENOSPC, dev)
          else (0, dev\<lparr>hd_events := hd_events dev @ [\<lparr>ev_header = \<lparr>fh_type = type, fh_flags = 0,
                 fh_length = of_nat (length payload), fh_sequence = hd_sequence dev\<rparr>, ev_payload = payload\<rparr>],
               hd_sequence := hd_sequence dev + 1, hd_event_count := hd_event_count dev + 1,
               hd_to_user := hd_to_user dev + 1\<rparr>))"

definition defer_feature_get :: "nat \<Rightarrow> u8 \<Rightarrow> hcd \<Rightarrow> int \<times> hcd" where
  "defer_feature_get i report_id dev =
     (if hd_contexts dev i = None then (- EINVAL, dev)
      else if hd_stopping dev then (- ESHUTDOWN, dev)
      else (0, (upd_context i (\<lambda>c. c\<lparr>uc_report := report_id, uc_state := Urb_pending_feature_get\<rparr>) dev)
         \<lparr>hd_pending_get := hd_pending_get dev @ [i]\<rparr>))"

definition hcd_ops :: "kernel_env \<Rightarrow> nat \<Rightarrow> hcd usb_ops" where
  "hcd_ops env i = \<lparr>op_enqueue = enqueue_frame env, op_defer = defer_feature_get i, op_status = status_set\<rparr>"

text \<open>Reading: None is a call that blocks. \<open>kn_fault\<close> is the copy to user memory, which comes after the frame was taken.\<close>

definition read_ready :: "hcd \<Rightarrow> bool" where
  "read_ready dev \<longleftrightarrow> hd_stopping dev \<or> hd_events dev \<noteq> []"

definition vds_read :: "kernel_env \<Rightarrow> bool \<Rightarrow> nat \<Rightarrow> hcd \<Rightarrow> (int + bytes) option \<times> hcd" where
  "vds_read env nonblock n dev =
     (if nonblock \<and> \<not> read_ready dev then (Some (Inl (- EAGAIN)), dev)
      else if \<not> read_ready dev then (if kn_interrupted env then Some (Inl (- ERESTARTSYS)) else None, dev)
      else case hd_events dev of
        [] \<Rightarrow> (Some (Inl (if hd_stopping dev then - ESHUTDOWN else - EAGAIN)), dev)
      | e # events \<Rightarrow>
          if n < 16 + length (ev_payload e) then (Some (Inl (- EMSGSIZE)), dev)
          else (Some (if kn_fault env then Inl (- EFAULT) else Inr (header_bytes (ev_header e) @ ev_payload e)),
            dev\<lparr>hd_events := events, hd_event_count := hd_event_count dev - 1\<rparr>))"

definition vds_poll :: "hcd \<Rightarrow> u32" where
  "vds_poll dev = 0x104 OR (if hd_events dev \<noteq> [] then 0x41 else 0) OR (if hd_stopping dev then 0x10 else 0)"

section \<open>Transfers that are done\<close>

text \<open>
  A transfer without a time goes before the first one with a time, a timed one before the first later
  one.
\<close>

definition insert_completed :: "(nat \<Rightarrow> int) \<Rightarrow> nat \<Rightarrow> nat list \<Rightarrow> nat list" where
  "insert_completed ready i is =
     (let later = (\<lambda>k. ready k \<noteq> 0 \<and> (ready i = 0 \<or> ready i < ready k)) in
      takeWhile (\<lambda>k. \<not> later k) is @ i # dropWhile (\<lambda>k. \<not> later k) is)"

definition ready_time :: "hcd \<Rightarrow> nat \<Rightarrow> int" where
  "ready_time dev i = (case hd_contexts dev i of None \<Rightarrow> 0 | Some c \<Rightarrow> uc_ready c)"

definition queue_giveback :: "nat \<Rightarrow> int \<Rightarrow> hcd \<Rightarrow> bool \<times> hcd" where
  "queue_giveback i status dev =
     (case hd_contexts dev i of
        None \<Rightarrow> (False, dev)
      | Some c \<Rightarrow>
          if uc_state c = Urb_pending_giveback then (False, dev)
          else (True, (upd_context i (\<lambda>c. c\<lparr>uc_status := status, uc_state := Urb_pending_giveback\<rparr>) dev)
            \<lparr>hd_pending_in := removeAll i (hd_pending_in dev), hd_pending_get := removeAll i (hd_pending_get dev),
             hd_completed := insert_completed (ready_time dev) i (hd_completed dev)\<rparr>))"

text \<open>A loop over a list whose entries leave it: over the list as it was; whether any call woke the thread.\<close>

fun give_back_all :: "(nat \<Rightarrow> hcd \<Rightarrow> int \<times> hcd) \<Rightarrow> nat list \<Rightarrow> hcd \<Rightarrow> bool \<times> hcd" where
  "give_back_all f [] dev = (False, dev)"
| "give_back_all f (i # is) dev =
     (case f i dev of
        (status, dev) \<Rightarrow> (case queue_giveback i status dev of
          (woken, dev) \<Rightarrow> (case give_back_all f is dev of (again, dev) \<Rightarrow> (woken \<or> again, dev))))"

definition cancel_pending_urbs :: "int \<Rightarrow> hcd \<Rightarrow> bool \<times> hcd" where
  "cancel_pending_urbs status dev =
     (case give_back_all (\<lambda>_ dev. (status, dev)) (hd_pending_in dev) dev of
        (woken, dev) \<Rightarrow> (case give_back_all (\<lambda>_ dev. (status, dev)) (hd_pending_get dev) dev of
          (again, dev) \<Rightarrow> (woken \<or> again, dev)))"

definition flush_buffered_frames :: "hcd \<Rightarrow> hcd" where
  "flush_buffered_frames dev =
     dev\<lparr>hd_inputs := [], hd_input_count := 0, hd_audio := [], hd_audio_count := 0, hd_audio_bytes := 0,
       hd_events := [], hd_event_count := 0\<rparr>"

section \<open>Audio of the host\<close>

definition frame_fits :: "urb \<Rightarrow> iso_frame \<Rightarrow> bool" where
  "frame_fits u d \<longleftrightarrow> id_offset d \<le> ur_length u \<and> id_length d \<le> ur_length u - id_offset d"

definition overflow_frame :: "iso_frame \<Rightarrow> iso_frame" where
  "overflow_frame d = d\<lparr>id_status := - EOVERFLOW, id_actual := 0\<rparr>"

text \<open>
  Neighbouring packets are joined up to the size of a frame: \<open>chunk\<close> is the offset and the length of
  what is joined so far, and the next packet joins when it begins where the chunk ends.
\<close>

definition send_chunk :: "kernel_env \<Rightarrow> bytes \<Rightarrow> (nat \<times> nat) option \<Rightarrow> hcd \<Rightarrow> hcd" where
  "send_chunk env data chunk dev =
     (case chunk of
        None \<Rightarrow> dev
      | Some (start, n) \<Rightarrow> snd (enqueue_frame env VDS_FRAME_USB_AUDIO_OUT (take n (drop start data)) dev))"

fun iso_out_loop :: "kernel_env \<Rightarrow> bytes \<Rightarrow> iso_frame list \<Rightarrow> (nat \<times> nat) option \<Rightarrow> hcd \<Rightarrow> hcd" where
  "iso_out_loop env data [] chunk dev = send_chunk env data chunk dev"
| "iso_out_loop env data (d # ds) chunk dev =
     (if id_length d = 0 then iso_out_loop env data ds chunk dev
      else case chunk of
        None \<Rightarrow> iso_out_loop env data ds (Some (id_offset d, id_length d)) dev
      | Some (start, n) \<Rightarrow>
          if id_offset d = start + n \<and> n + id_length d \<le> VDS_FRAME_MAX_PAYLOAD then
            iso_out_loop env data ds (Some (start, n + id_length d)) dev
          else iso_out_loop env data ds (Some (id_offset d, id_length d)) (send_chunk env data chunk dev))"

definition deliver_frames :: "urb \<Rightarrow> iso_frame list" where
  "deliver_frames u =
     map (\<lambda>d. if frame_fits u d then d\<lparr>id_status := 0, id_actual := id_length d\<rparr> else overflow_frame d) (ur_frames u)"

definition count_errors :: "urb \<Rightarrow> nat" where
  "count_errors u = length (filter (\<lambda>d. \<not> frame_fits u d) (ur_frames u))"

definition iso_out_urb :: "kernel_env \<Rightarrow> urb \<Rightarrow> hcd \<Rightarrow> int \<times> urb \<times> hcd" where
  "iso_out_urb env u dev =
     (case ur_buffer u of
        None \<Rightarrow> (- EPIPE, u, dev)
      | Some data \<Rightarrow>
          (0, u\<lparr>ur_frames := deliver_frames u, ur_errors := count_errors u,
                ur_actual := sum_list (map id_length (filter (frame_fits u) (ur_frames u)))\<rparr>,
           iso_out_loop env data (filter (frame_fits u) (ur_frames u)) None dev))"

text \<open>Microphone data: bytes from the queued packets, then silence.\<close>

fun take_audio :: "nat \<Rightarrow> audio_packet list \<Rightarrow> bytes \<times> audio_packet list" where
  "take_audio n [] = (replicate n 0, [])"
| "take_audio n (p # ps) =
     (if n = 0 then ([], p # ps)
      else (let available = length (au_payload p) - au_offset p; k = min n available;
                got = take k (drop (au_offset p) (au_payload p)) in
        if au_offset p + k = length (au_payload p) then
          (case take_audio (n - k) ps of (again, rest) \<Rightarrow> (got @ again, rest))
        else (got, p\<lparr>au_offset := au_offset p + k\<rparr> # ps)))"

definition packet_bytes :: "audio_packet \<Rightarrow> bytes" where
  "packet_bytes p = drop (au_offset p) (au_payload p)"

definition fill_audio_in :: "nat \<Rightarrow> hcd \<Rightarrow> bytes \<times> hcd" where
  "fill_audio_in n dev =
     (case take_audio n (hd_audio dev) of
        (data, rest) \<Rightarrow>
          (data, dev\<lparr>hd_audio := rest, hd_audio_count := hd_audio_count dev - (length (hd_audio dev) - length rest),
             hd_audio_bytes := hd_audio_bytes dev
               - (length (concat (map packet_bytes (hd_audio dev))) - length (concat (map packet_bytes rest)))\<rparr>))"

fun iso_in_loop :: "urb \<Rightarrow> iso_frame list \<Rightarrow> bytes \<Rightarrow> hcd \<Rightarrow> iso_frame list \<times> bytes \<times> hcd" where
  "iso_in_loop u [] data dev = ([], data, dev)"
| "iso_in_loop u (d # ds) data dev =
     (if \<not> frame_fits u d then (case iso_in_loop u ds data dev of (ds', data', dev') \<Rightarrow> (overflow_frame d # ds', data', dev'))
      else (let n = min (id_length d) VDS_AUDIO_IN_BYTES_PER_MS in
        case fill_audio_in n dev of
          (bs, dev) \<Rightarrow> (case iso_in_loop u ds (write_at (id_offset d) bs data) dev of
            (ds', data', dev') \<Rightarrow> (d\<lparr>id_status := 0, id_actual := n\<rparr> # ds', data', dev'))))"

definition iso_in_urb :: "urb \<Rightarrow> hcd \<Rightarrow> int \<times> urb \<times> hcd" where
  "iso_in_urb u dev =
     (case ur_buffer u of
        None \<Rightarrow> (- EPIPE, u, dev)
      | Some data \<Rightarrow>
          (case iso_in_loop u (ur_frames u) data dev of
             (ds, data', dev') \<Rightarrow>
               (0, u\<lparr>ur_frames := ds, ur_errors := count_errors u, ur_buffer := Some data',
                  ur_actual := sum_list (map id_actual ds)\<rparr>, dev')))"

section \<open>The thread that gives transfers back\<close>

text \<open>
  One turn: nothing while the first transfer is not due; otherwise it leaves the queue, an
  isochronous one is served, and it is given back. \<open>ktime_us_delta\<close> counts whole microseconds.
\<close>

definition us_delta :: "int \<Rightarrow> int \<Rightarrow> int" where
  "us_delta later earlier = (if later \<ge> earlier then (later - earlier) div 1000 else - ((earlier - later) div 1000))"

definition serve_iso :: "kernel_env \<Rightarrow> urb_context \<Rightarrow> hcd \<Rightarrow> int \<times> urb \<times> hcd" where
  "serve_iso env c dev =
     (case (if uc_status c = 0 \<and> uc_iso_out c then iso_out_urb env (uc_urb c) dev else (uc_status c, uc_urb c, dev)) of
        (status, u, dev) \<Rightarrow> if status = 0 \<and> uc_iso_in c then iso_in_urb u dev else (status, u, dev))"

definition giveback_turn :: "kernel_env \<Rightarrow> hcd \<Rightarrow> hcd" where
  "giveback_turn env dev =
     (case hd_completed dev of
        [] \<Rightarrow> dev
      | i # is \<Rightarrow>
          (case hd_contexts dev i of
             None \<Rightarrow> dev
           | Some c \<Rightarrow>
               if uc_ready c \<noteq> 0 \<and> us_delta (uc_ready c) (kn_now env) > 0 then dev
               else (case serve_iso env c (dev\<lparr>hd_completed := is, hd_contexts := (hd_contexts dev)(i := None)\<rparr>) of
                 (status, u, dev) \<Rightarrow> dev\<lparr>hd_given := hd_given dev @ [(i, status, u)]\<rparr>)))"

section \<open>Frames from the daemon\<close>

definition fill_hid_in_urb :: "bytes \<Rightarrow> urb \<Rightarrow> urb" where
  "fill_hid_in_urb payload u =
     (let n = min (length payload) (ur_length u) in
      u\<lparr>ur_buffer := map_option (write_at 0 (take n payload)) (ur_buffer u), ur_actual := n\<rparr>)"

definition schedule_hid_in :: "kernel_env \<Rightarrow> nat \<Rightarrow> hcd \<Rightarrow> hcd" where
  "schedule_hid_in env i dev =
     (let base = (if hd_next_hid dev > kn_now env then hd_next_hid dev else kn_now env);
          ready = base + int (up_hid_interval_us (device_profile (hd_usb dev))) * 1000 in
      (upd_context i (\<lambda>c. c\<lparr>uc_ready := ready\<rparr>) dev)\<lparr>hd_next_hid := ready\<rparr>)"

definition write_input_frame :: "kernel_env \<Rightarrow> bytes \<Rightarrow> hcd \<Rightarrow> int \<times> hcd" where
  "write_input_frame env payload dev =
     (if payload = [] \<or> length payload > VDS_CONTROLLER_HID_PACKET_SIZE then (- EINVAL, dev)
      else if hd_stopping dev then (- ESHUTDOWN, dev)
      else case hd_pending_in dev of
        i # _ \<Rightarrow>
          (0, (snd (queue_giveback i 0 (schedule_hid_in env i (upd_urb i (fill_hid_in_urb payload) dev))))
             \<lparr>hd_from_user := hd_from_user dev + 1\<rparr>)
      | [] \<Rightarrow>
          if hd_inputs dev \<noteq> [] then
            (0, dev\<lparr>hd_inputs := butlast (hd_inputs dev) @ [payload], hd_from_user := hd_from_user dev + 1\<rparr>)
          else (case allocate env dev of
            (False, dev) \<Rightarrow> (- ENOMEM, dev)
          | (True, dev) \<Rightarrow> (0, dev\<lparr>hd_inputs := [payload], hd_input_count := hd_input_count dev + 1,
              hd_from_user := hd_from_user dev + 1\<rparr>)))"

text \<open>Every transfer that waits for the report is filled and given back.\<close>

definition fill_feature_urb :: "bytes \<Rightarrow> nat \<Rightarrow> hcd \<Rightarrow> int \<times> hcd" where
  "fill_feature_urb payload i dev =
     (case hd_contexts dev i of
        None \<Rightarrow> (0, dev)
      | Some c \<Rightarrow> (case copy_to_urb payload (uc_urb c) of (status, u) \<Rightarrow> (status, upd_urb i (\<lambda>_. u) dev)))"

definition waits_for :: "u8 \<Rightarrow> hcd \<Rightarrow> nat \<Rightarrow> bool" where
  "waits_for report_id dev i \<longleftrightarrow> (case hd_contexts dev i of None \<Rightarrow> False | Some c \<Rightarrow> uc_report c = report_id)"

definition complete_feature_replies :: "bytes \<Rightarrow> hcd \<Rightarrow> hcd" where
  "complete_feature_replies payload dev =
     snd (give_back_all (fill_feature_urb payload) (filter (waits_for (payload ! 0) dev) (hd_pending_get dev)) dev)"

definition write_feature_reply :: "bytes \<Rightarrow> hcd \<Rightarrow> int \<times> hcd" where
  "write_feature_reply payload dev =
     (case update_feature_reply payload (hd_usb dev) of
        (r, d) \<Rightarrow>
          if r \<noteq> 0 then (r, dev)
          else if hd_stopping dev then (- ESHUTDOWN, dev\<lparr>hd_usb := d\<rparr>)
          else (0, (complete_feature_replies payload (dev\<lparr>hd_usb := d\<rparr>))\<lparr>hd_from_user := hd_from_user dev + 1\<rparr>))"

text \<open>The oldest packets give way to a new one.\<close>

fun make_room :: "nat \<Rightarrow> audio_packet list \<Rightarrow> nat \<Rightarrow> audio_packet list \<times> nat" where
  "make_room n [] queued = ([], queued)"
| "make_room n (p # ps) queued =
     (if queued + n > VDS_AUDIO_IN_QUEUE_MAX_BYTES
      then make_room n ps (queued - (length (au_payload p) - au_offset p)) else (p # ps, queued))"

definition write_audio_in_frame :: "kernel_env \<Rightarrow> bytes \<Rightarrow> hcd \<Rightarrow> int \<times> hcd" where
  "write_audio_in_frame env payload dev =
     (if payload = [] then (- EINVAL, dev)
      else case allocate env dev of
        (False, dev) \<Rightarrow> (- ENOMEM, dev)
      | (True, dev) \<Rightarrow>
          if hd_stopping dev then (- ESHUTDOWN, dev)
          else (case make_room (length payload) (hd_audio dev) (hd_audio_bytes dev) of
            (kept, queued) \<Rightarrow>
              (0, dev\<lparr>hd_audio := kept @ [\<lparr>au_offset = 0, au_payload = payload\<rparr>],
                hd_audio_count := hd_audio_count dev - (length (hd_audio dev) - length kept) + 1,
                hd_audio_bytes := queued + length payload, hd_from_user := hd_from_user dev + 1\<rparr>)))"

definition vds_write :: "kernel_env \<Rightarrow> bytes \<Rightarrow> hcd \<Rightarrow> int \<times> hcd" where
  "vds_write env bs dev =
     (case read_header bs of
        None \<Rightarrow> (- EINVAL, dev)
      | Some h \<Rightarrow>
          if hd_stopping dev then (- ESHUTDOWN, dev)
          else if kn_fault env then (- EFAULT, dev)
          else if unat (fh_length h) > VDS_FRAME_MAX_PAYLOAD \<or> length bs \<noteq> 16 + unat (fh_length h) then (- EINVAL, dev)
          else if fh_flags h \<noteq> 0 then (- EINVAL, dev)
          else if fh_type h \<notin> {VDS_FRAME_USB_HID_IN, VDS_FRAME_USB_FEATURE_REPLY, VDS_FRAME_USB_AUDIO_IN} then (- EINVAL, dev)
          else if fh_length h \<noteq> 0 \<and> kn_memdup env \<noteq> 0 then (kn_memdup env, dev)
          else
            (let payload = drop 16 bs in
             case (if fh_type h = VDS_FRAME_USB_HID_IN then write_input_frame env payload dev
                   else if fh_type h = VDS_FRAME_USB_FEATURE_REPLY then write_feature_reply payload dev
                   else write_audio_in_frame env payload dev) of
               (r, dev) \<Rightarrow> (if r \<noteq> 0 then r else int (length bs), dev)))"

section \<open>Connecting the device\<close>

abbreviation (input) PORT_CONNECTION :: u32 where "PORT_CONNECTION \<equiv> 0x1"
abbreviation (input) PORT_ENABLE :: u32 where "PORT_ENABLE \<equiv> 0x2"
abbreviation (input) PORT_RESET :: u32 where "PORT_RESET \<equiv> 0x10"
abbreviation (input) PORT_POWER :: u32 where "PORT_POWER \<equiv> 0x100"
abbreviation (input) PORT_HIGH_SPEED :: u32 where "PORT_HIGH_SPEED \<equiv> 0x400"
abbreviation (input) PORT_C_CONNECTION :: u32 where "PORT_C_CONNECTION \<equiv> 0x10000"
abbreviation (input) PORT_C_RESET :: u32 where "PORT_C_RESET \<equiv> 0x100000"
abbreviation (input) PORT_C_MASK :: u32 where "PORT_C_MASK \<equiv> 0x1f0000"

definition connect_device :: "hcd \<Rightarrow> hcd" where
  "connect_device dev =
     status_set VDS_STATUS_CONNECTED True
       (dev\<lparr>hd_port := hd_port dev OR PORT_POWER OR PORT_CONNECTION
          OR (if hd_port dev AND PORT_CONNECTION = 0 then PORT_C_CONNECTION else 0)\<rparr>)"

definition disconnect_device :: "hcd \<Rightarrow> hcd" where
  "disconnect_device dev =
     (let port = (hd_port dev AND NOT (PORT_CONNECTION OR PORT_ENABLE OR PORT_HIGH_SPEED))
        OR (if hd_port dev AND PORT_CONNECTION \<noteq> 0 then PORT_C_CONNECTION else 0);
          dev = flush_buffered_frames (snd (cancel_pending_urbs (- ESHUTDOWN) (dev\<lparr>hd_port := port\<rparr>)));
          dev = status_set (VDS_STATUS_CONNECTED OR VDS_STATUS_CONFIGURED OR VDS_STATUS_HID_ENABLED OR VDS_STATUS_AUDIO_ENABLED)
            False (dev\<lparr>hd_next_out := 0, hd_next_in := 0, hd_next_hid := 0\<rparr>) in
      dev\<lparr>hd_usb := reset_usb_state (hd_usb dev)\<rparr>)"

definition set_connection :: "bool \<Rightarrow> hcd \<Rightarrow> hcd" where
  "set_connection on dev =
     (if hd_stopping dev then dev else if on then connect_device dev else disconnect_device dev)"

record vds_status =
  vst_flags :: u32
  vst_profile :: nat
  vst_to_user :: "64 word"
  vst_from_user :: "64 word"

definition get_status :: "hcd \<Rightarrow> vds_status" where
  "get_status dev = \<lparr>vst_flags = hd_status dev, vst_profile = ud_profile (hd_usb dev),
     vst_to_user = hd_to_user dev, vst_from_user = hd_from_user dev\<rparr>"

datatype hcd_ioctl = Hio_get_status | Hio_get_driver_info | Hio_set_profile nat nat | Hio_connect | Hio_disconnect | Hio_other

definition ioctl_set_profile :: "nat \<Rightarrow> nat \<Rightarrow> hcd \<Rightarrow> int \<times> hcd" where
  "ioctl_set_profile profile polling_rate_mode dev =
     (if polling_rate_mode \<noteq> 0 then (- EOPNOTSUPP, dev)
      else if hd_status dev AND VDS_STATUS_CONNECTED \<noteq> 0 then (- EBUSY, dev)
      else case usb_set_profile profile (hd_usb dev) of
        (r, d) \<Rightarrow>
          if r \<noteq> 0 then (r, dev)
          else (0, status_set (VDS_STATUS_CONFIGURED OR VDS_STATUS_HID_ENABLED OR VDS_STATUS_AUDIO_ENABLED) False
            (dev\<lparr>hd_usb := d\<rparr>)))"

definition vds_ioctl :: "kernel_env \<Rightarrow> hcd_ioctl \<Rightarrow> hcd \<Rightarrow> int \<times> hcd" where
  "vds_ioctl env cmd dev =
     (if cmd \<noteq> Hio_get_status \<and> cmd \<noteq> Hio_get_driver_info \<and> hd_stopping dev then (- ESHUTDOWN, dev)
      else case cmd of
        Hio_get_status \<Rightarrow> (if kn_fault env then - EFAULT else 0, dev)
      | Hio_get_driver_info \<Rightarrow> (if kn_fault env then - EFAULT else 0, dev)
      | Hio_set_profile profile mode \<Rightarrow> if kn_fault env then (- EFAULT, dev) else ioctl_set_profile profile mode dev
      | Hio_connect \<Rightarrow> (0, set_connection True dev)
      | Hio_disconnect \<Rightarrow> (0, set_connection False dev)
      | Hio_other \<Rightarrow> (- ENOTTY, dev))"

definition vds_open :: "hcd \<Rightarrow> int \<times> hcd" where
  "vds_open dev = (if hd_opened dev then (- EBUSY, dev) else (0, dev\<lparr>hd_opened := True\<rparr>))"

definition vds_release :: "hcd \<Rightarrow> hcd" where
  "vds_release dev =
     (if hd_status dev AND VDS_STATUS_CONNECTED \<noteq> 0 then set_connection False (dev\<lparr>hd_opened := False\<rparr>)
      else dev\<lparr>hd_opened := False\<rparr>)"

section \<open>Transfers of the host\<close>

text \<open>How long an isochronous transfer plays: the milliseconds of its bytes, at least one.\<close>

definition iso_duration_us :: "urb \<Rightarrow> bool \<Rightarrow> nat" where
  "iso_duration_us u input =
     (let bytes_per_ms = (if input then VDS_AUDIO_IN_BYTES_PER_MS else VDS_AUDIO_OUT_BYTES_PER_MS);
          total = sum_list (map (\<lambda>d. if input then min (id_length d) VDS_AUDIO_IN_BYTES_PER_MS else id_length d) (ur_frames u)) in
      if total = 0 then max (length (ur_frames u)) 1 * 1000
      else max ((total * 1000 + bytes_per_ms - 1) div bytes_per_ms) 1000)"

definition schedule_iso :: "kernel_env \<Rightarrow> nat \<Rightarrow> bool \<Rightarrow> hcd \<Rightarrow> hcd" where
  "schedule_iso env i input dev =
     (case hd_contexts dev i of
        None \<Rightarrow> dev
      | Some c \<Rightarrow>
          (let next_ready = (if input then hd_next_in dev else hd_next_out dev);
               base = (if next_ready > kn_now env then next_ready else kn_now env);
               ready = base + int (iso_duration_us (uc_urb c) input) * 1000;
               dev = upd_context i (\<lambda>c. c\<lparr>uc_ready := ready, uc_urb := (uc_urb c)\<lparr>ur_start_frame := base div 1000000\<rparr>\<rparr>) dev in
           if input then dev\<lparr>hd_next_in := ready\<rparr> else dev\<lparr>hd_next_out := ready\<rparr>))"

definition interrupt_out_urb :: "kernel_env \<Rightarrow> urb \<Rightarrow> hcd \<Rightarrow> int \<times> urb \<times> hcd" where
  "interrupt_out_urb env u dev =
     (if ur_length u = 0 then (0, u\<lparr>ur_actual := 0\<rparr>, dev)
      else case ur_buffer u of
        None \<Rightarrow> (- EPIPE, u, dev)
      | Some data \<Rightarrow>
          if ur_length u > VDS_CONTROLLER_HID_PACKET_SIZE then (- EPIPE, u, dev)
          else (0, u\<lparr>ur_actual := ur_length u\<rparr>, snd (enqueue_frame env VDS_FRAME_USB_HID_OUT (take (ur_length u) data) dev)))"

text \<open>A report that is kept is handed out; otherwise the transfer waits for one.\<close>

definition interrupt_in_urb :: "kernel_env \<Rightarrow> nat \<Rightarrow> hcd \<Rightarrow> int \<times> hcd" where
  "interrupt_in_urb env i dev =
     (case hd_inputs dev of
        payload # inputs \<Rightarrow>
          (0, schedule_hid_in env i (upd_urb i (fill_hid_in_urb payload)
             (dev\<lparr>hd_inputs := inputs, hd_input_count := hd_input_count dev - 1\<rparr>)))
      | [] \<Rightarrow> (- EINPROGRESS, (upd_context i (\<lambda>c. c\<lparr>uc_state := Urb_pending_hid_in\<rparr>) dev)
             \<lparr>hd_pending_in := hd_pending_in dev @ [i]\<rparr>))"

definition fresh_context :: "urb \<Rightarrow> urb_context" where
  "fresh_context u =
     \<lparr>uc_urb = u, uc_ready = 0, uc_status = 0, uc_report = 0, uc_state = Urb_active, uc_iso_out = False, uc_iso_in = False\<rparr>"

text \<open>
  \<open>vds_urb_enqueue\<close> in the three parts between which the lock is free: the transfer is linked, it is
  served, and what is done is queued. None is a transfer that waits.
\<close>

definition urb_link :: "kernel_env \<Rightarrow> nat \<Rightarrow> urb \<Rightarrow> hcd \<Rightarrow> int \<times> hcd" where
  "urb_link env i u dev =
     (case allocate env dev of
        (False, dev) \<Rightarrow> (- ENOMEM, dev)
      | (True, dev) \<Rightarrow>
          if hd_stopping dev then (- ESHUTDOWN, dev)
          else if kn_link env \<noteq> 0 then (kn_link env, dev)
          else (0, dev\<lparr>hd_contexts := (hd_contexts dev)(i := Some (fresh_context u))\<rparr>))"

definition serve_iso_urb :: "kernel_env \<Rightarrow> nat \<Rightarrow> urb \<Rightarrow> hcd \<Rightarrow> int \<times> hcd" where
  "serve_iso_urb env i u dev =
     (let out = (\<not> ur_in u \<and> is_audio_out (hd_usb dev) (ur_endpoint u));
          inp = (ur_in u \<and> is_audio_in (hd_usb dev) (ur_endpoint u)) in
      if (out \<or> inp) \<and> ur_buffer u \<noteq> None then
        (0, schedule_iso env i inp (upd_context i (\<lambda>c. c\<lparr>uc_iso_out := out, uc_iso_in := inp\<rparr>) dev))
      else (- EPIPE, dev))"

definition urb_serve :: "kernel_env \<Rightarrow> nat \<Rightarrow> hcd \<Rightarrow> int option \<times> hcd" where
  "urb_serve env i dev =
     (case hd_contexts dev i of
        None \<Rightarrow> (None, dev)
      | Some c \<Rightarrow>
          (let u = uc_urb c in
           case ur_pipe u of
             Pipe_control \<Rightarrow>
               (case control_urb (hcd_ops env i) u (hd_usb dev) dev of
                  (r, u', d, dev) \<Rightarrow>
                    (if r = - EINPROGRESS then None else Some r, upd_urb i (\<lambda>_. u') (dev\<lparr>hd_usb := d\<rparr>)))
           | Pipe_interrupt \<Rightarrow>
               if ur_in u \<and> is_hid_in (hd_usb dev) (ur_endpoint u) then
                 (case interrupt_in_urb env i dev of (r, dev) \<Rightarrow> (if r = - EINPROGRESS then None else Some r, dev))
               else if \<not> ur_in u \<and> is_hid_out (hd_usb dev) (ur_endpoint u) then
                 (case interrupt_out_urb env u dev of (r, u', dev) \<Rightarrow> (Some r, upd_urb i (\<lambda>_. u') dev))
               else (Some (- EPIPE), dev)
           | Pipe_isochronous \<Rightarrow> (case serve_iso_urb env i u dev of (r, dev) \<Rightarrow> (Some r, dev))
           | Pipe_bulk \<Rightarrow> (Some (- EPIPE), dev)))"

definition urb_enqueue :: "kernel_env \<Rightarrow> nat \<Rightarrow> urb \<Rightarrow> hcd \<Rightarrow> int \<times> hcd" where
  "urb_enqueue env i u dev =
     (case urb_link env i u dev of
        (r, dev) \<Rightarrow>
          if r \<noteq> 0 then (r, dev)
          else (case urb_serve env i dev of
            (None, dev) \<Rightarrow> (0, dev)
          | (Some status, dev) \<Rightarrow> (0, snd (queue_giveback i status dev))))"

definition urb_dequeue :: "kernel_env \<Rightarrow> nat \<Rightarrow> int \<Rightarrow> hcd \<Rightarrow> int \<times> hcd" where
  "urb_dequeue env i status dev =
     (if kn_check_unlink env \<noteq> 0 then (kn_check_unlink env, dev)
      else (0, case hd_contexts dev i of
          None \<Rightarrow> dev
        | Some c \<Rightarrow>
            if uc_state c = Urb_pending_giveback then upd_context i (\<lambda>c. c\<lparr>uc_status := status, uc_ready := 0\<rparr>) dev
            else snd (queue_giveback i status dev)))"

definition get_frame_number :: "kernel_env \<Rightarrow> int" where
  "get_frame_number env = kn_now env div 1000000"

section \<open>The root hub\<close>

definition hub_descriptor :: bytes where
  "hub_descriptor = [9, 0x29, 1] @ le_bytes 2 (0x0001 :: u16) @ [0, 0, 0, 0xff]"

definition hub_status_data :: "hcd \<Rightarrow> bytes" where
  "hub_status_data dev = (if hd_port dev AND PORT_C_MASK \<noteq> 0 then [2] else [])"

datatype hub_request =
  Clear_hub_feature | Get_hub_descriptor | Get_hub_status | Get_port_status nat
| Clear_port_feature nat nat | Set_port_feature nat nat | Hub_other

definition clear_port_feature :: "nat \<Rightarrow> u32 \<Rightarrow> u32 option" where
  "clear_port_feature value port =
     (if value = 1 then Some (port AND NOT PORT_ENABLE)
      else if value = 8 then Some (port AND NOT PORT_POWER)
      else if value \<in> {16, 17, 18, 19, 20} then Some (port AND NOT (push_bit value 1))
      else None)"

definition set_port_feature :: "nat \<Rightarrow> u32 \<Rightarrow> u32 option" where
  "set_port_feature value port =
     (if value = 8 then Some (port OR PORT_POWER)
      else if value = 4 then
        Some (if port AND PORT_CONNECTION \<noteq> 0
              then (port AND NOT PORT_RESET) OR PORT_ENABLE OR PORT_HIGH_SPEED OR PORT_C_RESET else port)
      else None)"

definition hub_control :: "hub_request \<Rightarrow> hcd \<Rightarrow> (int + bytes) \<times> hcd" where
  "hub_control request dev =
     (let port_change = (\<lambda>index change. if index \<noteq> 1 then (Inl (- EPIPE), dev)
          else case change (hd_port dev) of None \<Rightarrow> (Inl (- EPIPE), dev) | Some port \<Rightarrow> (Inr [], dev\<lparr>hd_port := port\<rparr>)) in
      case request of
        Clear_hub_feature \<Rightarrow> (Inr [], dev)
      | Get_hub_descriptor \<Rightarrow> (Inr hub_descriptor, dev)
      | Get_hub_status \<Rightarrow> (Inr [0, 0, 0, 0], dev)
      | Get_port_status index \<Rightarrow> (if index \<noteq> 1 then Inl (- EPIPE) else Inr (le_bytes 4 (hd_port dev)), dev)
      | Clear_port_feature index value \<Rightarrow> port_change index (clear_port_feature value)
      | Set_port_feature index value \<Rightarrow> port_change index (set_port_feature value)
      | Hub_other \<Rightarrow> (Inl (- EPIPE), dev))"

section \<open>Start and stop\<close>

definition hcd_probe :: hcd where
  "hcd_probe =
     \<lparr>hd_events = [], hd_pending_in = [], hd_pending_get = [], hd_completed = [], hd_inputs = [], hd_audio = [],
      hd_to_user = 0, hd_from_user = 0, hd_sequence = 0, hd_next_out = 0, hd_next_in = 0, hd_next_hid = 0,
      hd_event_count = 0, hd_status = 0, hd_port = 0, hd_stopping = False, hd_opened = False, hd_input_count = 0,
      hd_audio_count = 0, hd_audio_bytes = 0, hd_usb = usb_device_init VDS_PROFILE_DS5, hd_contexts = (\<lambda>_. None),
      hd_given = [], hd_allocs = 0\<rparr>"

definition hcd_start :: "hcd \<Rightarrow> hcd" where
  "hcd_start dev =
     status_set VDS_STATUS_CONNECTED False
       (dev\<lparr>hd_stopping := False, hd_next_out := 0, hd_next_in := 0, hd_next_hid := 0, hd_port := PORT_POWER\<rparr>)"

definition hcd_stop :: "hcd \<Rightarrow> hcd" where
  "hcd_stop dev =
     (flush_buffered_frames (snd (cancel_pending_urbs (- ESHUTDOWN) (dev\<lparr>hd_stopping := True\<rparr>))))\<lparr>hd_status := 0\<rparr>"

section \<open>Runs\<close>

datatype kcall =
  Submit nat urb | Unlink nat int | Giveback | Read_frame bool nat | Write_frame bytes | Ioctl hcd_ioctl
| Open | Release | Hub hub_request | Stop

fun kernel_step :: "kernel_env \<Rightarrow> kcall \<Rightarrow> hcd \<Rightarrow> hcd" where
  "kernel_step env (Submit i u) dev = snd (urb_enqueue env i u dev)"
| "kernel_step env (Unlink i status) dev = snd (urb_dequeue env i status dev)"
| "kernel_step env Giveback dev = giveback_turn env dev"
| "kernel_step env (Read_frame nonblock n) dev = snd (vds_read env nonblock n dev)"
| "kernel_step env (Write_frame bs) dev = snd (vds_write env bs dev)"
| "kernel_step env (Ioctl cmd) dev = snd (vds_ioctl env cmd dev)"
| "kernel_step env Open dev = snd (vds_open dev)"
| "kernel_step env Release dev = vds_release dev"
| "kernel_step env (Hub request) dev = snd (hub_control request dev)"
| "kernel_step env Stop dev = hcd_stop dev"

fun kernel_run :: "(kernel_env \<times> kcall) list \<Rightarrow> hcd \<Rightarrow> hcd" where
  "kernel_run [] dev = dev"
| "kernel_run ((env, call) # calls) dev = kernel_run calls (kernel_step env call dev)"

end
