(* ===== verification/KernelQueues.thy ===== *)
theory KernelQueues
  imports KernelHcd
begin

text \<open>
  The invariant of the host controller of the kernel module: every transfer is in exactly one queue or
  given back, the queues have their bounds, and what is kept for the host is never kept beside a
  transfer that waits for it.
\<close>

section \<open>Who owns a transfer\<close>

text \<open>The transfers in a state; \<open>X\<close> holds those that are linked and not yet served.\<close>

definition in_state :: "hcd \<Rightarrow> urb_state \<Rightarrow> nat set" where
  "in_state dev s = {i. \<exists>c. hd_contexts dev i = Some c \<and> uc_state c = s}"

definition queues_ok :: "nat set \<Rightarrow> hcd \<Rightarrow> bool" where
  "queues_ok X dev \<longleftrightarrow> distinct (hd_pending_in dev) \<and> distinct (hd_pending_get dev) \<and> distinct (hd_completed dev)
     \<and> set (hd_pending_in dev) = in_state dev Urb_pending_hid_in
     \<and> set (hd_pending_get dev) = in_state dev Urb_pending_feature_get
     \<and> set (hd_completed dev) = in_state dev Urb_pending_giveback \<and> X = in_state dev Urb_active"

text \<open>The part of the state the queues are.\<close>

definition queue_view :: "hcd \<Rightarrow> nat list \<times> nat list \<times> nat list \<times> (nat \<Rightarrow> urb_context option)" where
  "queue_view dev = (hd_pending_in dev, hd_pending_get dev, hd_completed dev, hd_contexts dev)"

lemma queues_view: "queue_view dev' = queue_view dev \<Longrightarrow> queues_ok X dev' = queues_ok X dev"
  by (simp add: queues_ok_def in_state_def queue_view_def)

lemma insert_completed_split:
  obtains xs ys where "insert_completed ready i is = xs @ i # ys" and "is = xs @ ys"
proof -
  let ?P = "\<lambda>k. \<not> (ready k \<noteq> 0 \<and> (ready i = 0 \<or> ready i < ready k))"
  show thesis by (rule that [of "takeWhile ?P is" "dropWhile ?P is"]) (simp_all only: insert_completed_def Let_def takeWhile_dropWhile_id)
qed

lemma set_insert_completed [simp]: "set (insert_completed ready i is) = insert i (set is)"
  by (rule insert_completed_split [of ready i "is"]) auto

lemma distinct_insert_completed [simp]:
  "distinct (insert_completed ready i is) \<longleftrightarrow> distinct is \<and> i \<notin> set is"
  by (rule insert_completed_split [of ready i "is"]) auto

lemma upd_context_simps [simp]:
  "hd_contexts (upd_context i f dev) = (hd_contexts dev)(i := map_option f (hd_contexts dev i))"
  "hd_pending_in (upd_context i f dev) = hd_pending_in dev" "hd_pending_get (upd_context i f dev) = hd_pending_get dev"
  "hd_completed (upd_context i f dev) = hd_completed dev"
  by (simp_all add: upd_context_def)

lemma in_state_upd:
  "in_state (upd_context i f dev) s =
    (case hd_contexts dev i of
       None \<Rightarrow> in_state dev s
     | Some c \<Rightarrow> if uc_state (f c) = s then insert i (in_state dev s) else in_state dev s - {i})"
  by (auto simp: in_state_def split: option.split)

lemma in_state_unique: "i \<in> in_state dev s \<Longrightarrow> i \<in> in_state dev t \<Longrightarrow> s = t"
  by (auto simp: in_state_def)

text \<open>A change of a context that leaves its state leaves the queues in order.\<close>

lemma in_state_keeps: "(\<And>c. uc_state (f c) = uc_state c) \<Longrightarrow> in_state (upd_context i f dev) s = in_state dev s"
  by (auto simp: in_state_def split: if_splits)

lemma queues_upd_context:
  "(\<And>c. uc_state (f c) = uc_state c) \<Longrightarrow> queues_ok X (upd_context i f dev) = queues_ok X dev"
  by (simp add: queues_ok_def in_state_keeps)

lemma queues_upd_urb [simp]: "queues_ok X (upd_urb i f dev) = queues_ok X dev"
  unfolding upd_urb_def by (rule queues_upd_context) simp

lemma in_state_fields [simp]:
  "in_state (dev\<lparr>hd_pending_in := a\<rparr>) s = in_state dev s" "in_state (dev\<lparr>hd_pending_get := a\<rparr>) s = in_state dev s"
  "in_state (dev\<lparr>hd_completed := a\<rparr>) s = in_state dev s"
  by (simp_all add: in_state_def)

lemma queues_giveback:
  assumes "queues_ok X dev"
  shows "queues_ok (X - {i}) (snd (queue_giveback i status dev))"
proof (cases "hd_contexts dev i")
  case None
  then have "i \<notin> X" using assms by (auto simp: queues_ok_def in_state_def)
  then show ?thesis using assms None by (simp add: queue_giveback_def)
next
  case (Some c)
  then have "i \<in> in_state dev s \<longleftrightarrow> uc_state c = s" for s by (simp add: in_state_def)
  then show ?thesis
    using assms Some
    by (auto simp: queue_giveback_def queues_ok_def in_state_upd distinct_removeAll)
qed

lemma queues_giveback_pending: "queues_ok {} dev \<Longrightarrow> queues_ok {} (snd (queue_giveback i status dev))"
  using queues_giveback [of "{}"] by simp

lemma give_back_all_snd [simp]:
  "snd (give_back_all f [] dev) = dev"
  "snd (give_back_all f (i # is) dev)
    = snd (give_back_all f is (snd (queue_giveback i (fst (f i dev)) (snd (f i dev)))))"
  by (simp_all split: prod.split)

lemma cancel_snd:
  "snd (cancel_pending_urbs status dev) =
    (let dev' = snd (give_back_all (\<lambda>_ dev. (status, dev)) (hd_pending_in dev) dev) in
     snd (give_back_all (\<lambda>_ dev. (status, dev)) (hd_pending_get dev') dev'))"
  by (simp add: cancel_pending_urbs_def split: prod.split)

text \<open>What every step of a loop keeps, the loop keeps.\<close>

lemma give_back_all_keeps:
  assumes "\<And>i dev. P dev \<Longrightarrow> P (snd (f i dev))" and "\<And>i status dev. P dev \<Longrightarrow> P (snd (queue_giveback i status dev))"
    and "P dev"
  shows "P (snd (give_back_all f is dev))"
  using assms(3) by (induction "is" arbitrary: dev) (simp_all del: give_back_all.simps add: assms(1,2))

lemma cancel_keeps:
  assumes "\<And>i status dev. P dev \<Longrightarrow> P (snd (queue_giveback i status dev))" and "P dev"
  shows "P (snd (cancel_pending_urbs status dev))"
  by (simp add: cancel_snd Let_def give_back_all_keeps [of P] assms)

lemma queues_cancel: "queues_ok {} dev \<Longrightarrow> queues_ok {} (snd (cancel_pending_urbs status dev))"
  by (rule cancel_keeps [of "queues_ok {}"]) (rule queues_giveback_pending)

section \<open>What an operation leaves alone\<close>

lemma enqueue_view [simp]: "queue_view (snd (enqueue_frame env type payload dev)) = queue_view dev"
  by (simp add: enqueue_frame_def allocate_def queue_view_def split: prod.split bool.split)

lemma status_view [simp]: "queue_view (status_set flags on dev) = queue_view dev"
  by (simp add: status_set_def queue_view_def)

lemma queues_enqueue [simp]: "queues_ok X (snd (enqueue_frame env type payload dev)) = queues_ok X dev"
  by (rule queues_view, rule enqueue_view)

lemma queues_defer:
  assumes "queues_ok {i} dev"
  shows "queues_ok (if fst (defer_feature_get i report dev) = 0 then {} else {i}) (snd (defer_feature_get i report dev))"
proof -
  have "i \<in> in_state dev Urb_active" using assms by (auto simp: queues_ok_def)
  then obtain c where "hd_contexts dev i = Some c" "uc_state c = Urb_active" by (auto simp: in_state_def)
  moreover have "i \<in> in_state dev s \<longleftrightarrow> s = Urb_active" for s using calculation by (auto simp: in_state_def)
  ultimately show ?thesis
    using assms by (auto simp: defer_feature_get_def queues_ok_def in_state_upd dest: in_state_unique)
qed

section \<open>The rest of the invariant\<close>

definition event_ok :: "hcd_event \<Rightarrow> bool" where
  "event_ok e \<longleftrightarrow> fh_flags (ev_header e) = 0 \<and> fh_length (ev_header e) = of_nat (length (ev_payload e))
     \<and> length (ev_payload e) \<le> VDS_FRAME_MAX_PAYLOAD"

text \<open>The frames are counted, bounded, and numbered one after the other up to the next number.\<close>

definition frames_ok :: "hcd \<Rightarrow> bool" where
  "frames_ok dev \<longleftrightarrow> hd_event_count dev = length (hd_events dev) \<and> hd_event_count dev \<le> kMaxEvents
     \<and> list_all event_ok (hd_events dev)
     \<and> (\<forall>k < length (hd_events dev). fh_sequence (ev_header (hd_events dev ! k))
          = hd_sequence dev - of_nat (length (hd_events dev) - k))"

text \<open>At most one report is kept, and none while a transfer waits for one.\<close>

definition inputs_ok :: "hcd \<Rightarrow> bool" where
  "inputs_ok dev \<longleftrightarrow> hd_input_count dev = length (hd_inputs dev) \<and> length (hd_inputs dev) \<le> 1
     \<and> (\<forall>p \<in> set (hd_inputs dev). p \<noteq> [] \<and> length p \<le> VDS_CONTROLLER_HID_PACKET_SIZE)
     \<and> (hd_inputs dev = [] \<or> hd_pending_in dev = [])"

definition audio_packet_ok :: "audio_packet \<Rightarrow> bool" where
  "audio_packet_ok p \<longleftrightarrow> au_offset p < length (au_payload p) \<and> length (au_payload p) \<le> VDS_FRAME_MAX_PAYLOAD"

definition audio_bytes :: "audio_packet list \<Rightarrow> bytes" where
  "audio_bytes ps = concat (map packet_bytes ps)"

definition audio_ok :: "hcd \<Rightarrow> bool" where
  "audio_ok dev \<longleftrightarrow> hd_audio_count dev = length (hd_audio dev) \<and> list_all audio_packet_ok (hd_audio dev)
     \<and> hd_audio_bytes dev = length (audio_bytes (hd_audio dev)) \<and> hd_audio_bytes dev \<le> VDS_AUDIO_IN_QUEUE_MAX_BYTES"

text \<open>A stopped controller keeps nothing and lets nothing wait.\<close>

definition stop_ok :: "hcd \<Rightarrow> bool" where
  "stop_ok dev \<longleftrightarrow> (hd_stopping dev \<longrightarrow> hd_events dev = [] \<and> hd_inputs dev = [] \<and> hd_audio dev = []
     \<and> hd_pending_in dev = [] \<and> hd_pending_get dev = [])"

definition usb_ok :: "usb_device \<Rightarrow> bool" where
  "usb_ok d \<longleftrightarrow> valid_profile (ud_profile d) \<and> length (ud_mute d) = 2 \<and> length (ud_volume d) = 2
     \<and> (\<forall>i. ud_cache_len d i \<le> VDS_CONTROLLER_HID_PACKET_SIZE \<and> length (ud_cache d i) = VDS_CONTROLLER_HID_PACKET_SIZE)"

definition kernel_ok :: "nat set \<Rightarrow> hcd \<Rightarrow> bool" where
  "kernel_ok X dev \<longleftrightarrow> queues_ok X dev \<and> frames_ok dev \<and> inputs_ok dev \<and> audio_ok dev \<and> stop_ok dev \<and> usb_ok (hd_usb dev)"

lemma kernel_okD:
  assumes "kernel_ok X dev"
  shows "queues_ok X dev" "frames_ok dev" "inputs_ok dev" "audio_ok dev" "stop_ok dev" "usb_ok (hd_usb dev)"
  using assms by (simp_all add: kernel_ok_def)

subsection \<open>Frames\<close>

lemma enqueue_fields [simp]:
  "hd_pending_in (snd (enqueue_frame env type payload dev)) = hd_pending_in dev"
  "hd_pending_get (snd (enqueue_frame env type payload dev)) = hd_pending_get dev"
  "hd_completed (snd (enqueue_frame env type payload dev)) = hd_completed dev"
  "hd_contexts (snd (enqueue_frame env type payload dev)) = hd_contexts dev"
  "hd_inputs (snd (enqueue_frame env type payload dev)) = hd_inputs dev"
  "hd_input_count (snd (enqueue_frame env type payload dev)) = hd_input_count dev"
  "hd_audio (snd (enqueue_frame env type payload dev)) = hd_audio dev"
  "hd_audio_count (snd (enqueue_frame env type payload dev)) = hd_audio_count dev"
  "hd_audio_bytes (snd (enqueue_frame env type payload dev)) = hd_audio_bytes dev"
  "hd_stopping (snd (enqueue_frame env type payload dev)) = hd_stopping dev"
  "hd_usb (snd (enqueue_frame env type payload dev)) = hd_usb dev"
  "hd_given (snd (enqueue_frame env type payload dev)) = hd_given dev"
  by (simp_all add: enqueue_frame_def allocate_def split: prod.split bool.split)

lemma frames_enqueue: "frames_ok dev \<Longrightarrow> frames_ok (snd (enqueue_frame env type payload dev))"
  by (auto simp: enqueue_frame_def allocate_def frames_ok_def event_ok_def nth_append less_Suc_eq Suc_diff_le
      split: prod.split bool.split)

lemma stop_enqueue: "stop_ok dev \<Longrightarrow> stop_ok (snd (enqueue_frame env type payload dev))"
  by (auto simp: enqueue_frame_def allocate_def stop_ok_def split: prod.split bool.split)

lemma kernel_enqueue [simp]: "kernel_ok X dev \<Longrightarrow> kernel_ok X (snd (enqueue_frame env type payload dev))"
  using frames_enqueue stop_enqueue by (auto simp: kernel_ok_def inputs_ok_def audio_ok_def)

lemma kernel_status [simp]: "kernel_ok X (status_set flags on dev) = kernel_ok X dev"
  by (simp add: kernel_ok_def queues_ok_def in_state_def frames_ok_def inputs_ok_def audio_ok_def stop_ok_def status_set_def)

end
