(* ===== verification/KernelControl.thy ===== *)
theory KernelControl
  imports KernelQueues
begin

text \<open>
  Control requests and the invariant: the contract of \<open>vds_usb_device_ops\<close> as a locale, the control
  requests inside it, and the host controller as its provider; then every call of the USB core and of
  the daemon keeps the invariant.
\<close>

section \<open>The operations of the host controller as a contract\<close>

text \<open>
  A transfer is idle until it is deferred, from when on it waits for the daemon. Frames and status bits
  do not change that, and no operation returns the number that means waiting.
\<close>

locale usb_host =
  fixes ops :: "'c usb_ops" and idle waiting :: "'c \<Rightarrow> bool"
  assumes enqueue_idle: "idle c \<Longrightarrow> idle (snd (op_enqueue ops type payload c))"
    and enqueue_waiting: "waiting c \<Longrightarrow> waiting (snd (op_enqueue ops type payload c))"
    and status_idle: "idle c \<Longrightarrow> idle (op_status ops flags on c)"
    and defer_idle: "idle c \<Longrightarrow> if fst (op_defer ops i c) = 0 then waiting (snd (op_defer ops i c)) else idle (snd (op_defer ops i c))"
    and enqueue_done: "fst (op_enqueue ops type payload c) \<noteq> - EINPROGRESS"
    and defer_done: "fst (op_defer ops i c) \<noteq> - EINPROGRESS"
begin

text \<open>A request that returns has left its transfer idle or waiting, and waiting when it says so.\<close>

definition settled :: "'c control_result \<Rightarrow> bool" where
  "settled out \<longleftrightarrow> (case out of (r, u, d, c) \<Rightarrow> if r = - EINPROGRESS then waiting c else idle c \<or> waiting c)"

lemma copy_to_urb_done: "fst (copy_to_urb bs u) \<noteq> - EINPROGRESS"
  by (simp add: copy_to_urb_def Let_def)

lemma settled_answer: "idle c \<Longrightarrow> settled (answer_with bs u d c)"
  using copy_to_urb_done [of bs u] by (auto simp: settled_def answer_with_def split: prod.split)

lemma settled_stall: "idle c \<Longrightarrow> settled (stall u d c)"
  by (simp add: settled_def stall_def)

lemma settled_done: "idle c \<Longrightarrow> settled (0, u, d, c)"
  by (simp add: settled_def)

lemma settled_interface: "idle c \<Longrightarrow> idle (interface_frame ops n alt kind c)"
  by (simp add: interface_frame_def enqueue_idle)

lemma settled_get_feature: "idle c \<Longrightarrow> settled (get_feature_report ops su u d c)"
  using copy_to_urb_done enqueue_done [of VDS_FRAME_USB_FEATURE_GET] enqueue_waiting defer_idle [of c] defer_done
  by (auto simp: get_feature_report_def copy_cached_feature_report_def settled_def Let_def prod_eq_iff
      split: prod.split if_splits)

lemma settled_set_feature: "idle c \<Longrightarrow> settled (set_feature_report ops su u d c)"
  using enqueue_done [of VDS_FRAME_USB_FEATURE_SET] enqueue_idle
  by (auto simp: set_feature_report_def settled_def stall_def prod_eq_iff split: prod.split option.split)

lemma settled_hid: "idle c \<Longrightarrow> settled (hid_control ops su u d c)"
  by (simp add: hid_control_def settled_answer settled_stall settled_done settled_get_feature settled_set_feature)

lemma settled_audio: "idle c \<Longrightarrow> settled (audio_control su u d c)"
  by (simp add: audio_control_def audio_set_def Let_def settled_answer settled_stall settled_done split: option.split)

lemma get_descriptor_done: "fst (usb_get_descriptor su u d) \<noteq> - EINPROGRESS"
  using copy_to_urb_done by (simp add: usb_get_descriptor_def copy_string_descriptor_def Let_def)

lemma settled_standard_parts:
  assumes "idle c"
  shows "settled (case usb_get_descriptor su u d of (r, u') \<Rightarrow> (r, u', d, c))"
    and "settled (set_configuration ops su u d c)" and "settled (usb_set_interface ops su u d c)"
    and "settled (usb_get_interface su u d c)"
proof -
  show "settled (case usb_get_descriptor su u d of (r, u') \<Rightarrow> (r, u', d, c))"
    using get_descriptor_done [of su u d] assms by (auto simp: settled_def split: prod.split)
  show "settled (set_configuration ops su u d c)"
    by (simp add: set_configuration_def Let_def settled_stall settled_done status_idle assms)
  show "settled (usb_set_interface ops su u d c)"
    by (simp add: usb_set_interface_def Let_def settled_stall settled_done settled_interface status_idle assms)
  show "settled (usb_get_interface su u d c)"
    by (simp add: usb_get_interface_def Let_def settled_stall settled_answer assms)
qed

lemma settled_standard: "idle c \<Longrightarrow> settled (standard_control ops su u d c)"
  by (simp add: standard_control_def settled_standard_parts settled_answer settled_stall settled_done)

lemma settled_control: "idle c \<Longrightarrow> settled (control_urb ops u d c)"
  by (simp add: control_urb_def Let_def settled_standard settled_hid settled_audio settled_stall split: option.split)

end

text \<open>The state of the device keeps its shape, whatever the host asks for.\<close>

lemma usb_ok_updates [simp]:
  "usb_ok (d\<lparr>ud_address := a\<rparr>) = usb_ok d" "usb_ok (d\<lparr>ud_configuration := b\<rparr>) = usb_ok d"
  "usb_ok (d\<lparr>ud_audio_out := b\<rparr>) = usb_ok d" "usb_ok (d\<lparr>ud_audio_in := b\<rparr>) = usb_ok d"
  "usb_ok (d\<lparr>ud_hid_idle := b\<rparr>) = usb_ok d" "usb_ok (d\<lparr>ud_hid_protocol := b\<rparr>) = usb_ok d"
  by (simp_all add: usb_ok_def)

lemma usb_ok_reset [simp]: "usb_ok d \<Longrightarrow> usb_ok (reset_usb_state d)"
  by (simp add: usb_ok_def reset_usb_state_def)

lemma usb_ok_audio_set: "usb_ok d \<Longrightarrow> usb_ok (fst (snd (snd (audio_set i su u d c))))"
  by (simp add: audio_set_def stall_def usb_ok_def split: option.split)

lemma answer_keeps_device [simp]: "fst (snd (snd (answer_with bs u d c))) = d" "fst (snd (snd (stall u d c))) = d"
  by (simp_all add: answer_with_def stall_def split: prod.split)

lemma usb_ok_control:
  assumes "usb_ok d"
  shows "usb_ok (fst (snd (snd (control_urb ops u d c))))"
proof -
  have hid: "usb_ok (fst (snd (snd (hid_control ops su u d c))))" for su u
    using assms by (simp add: hid_control_def get_feature_report_def set_feature_report_def Let_def
        split: prod.split option.split)
  have audio: "usb_ok (fst (snd (snd (audio_control su u d c))))" for su u
    using usb_ok_audio_set [OF assms] assms by (auto simp: audio_control_def Let_def split: option.split)
  have standard: "usb_ok (fst (snd (snd (standard_control ops su u d c))))" for su u
    using assms by (simp add: standard_control_def set_configuration_def usb_set_interface_def usb_get_interface_def Let_def
        split: prod.split)
  show ?thesis
    using assms hid audio standard by (simp add: control_urb_def Let_def split: option.split)
qed

lemma usb_ok_init: "usb_ok (usb_device_init profile)"
  by (simp add: usb_device_init_def usb_ok_def reset_usb_state_def valid_profile_def)

lemma usb_ok_set_profile: "usb_ok d \<Longrightarrow> usb_ok (snd (usb_set_profile profile d))"
  by (simp add: usb_set_profile_def usb_ok_def reset_usb_state_def)

lemma usb_ok_feature_reply: "usb_ok d \<Longrightarrow> usb_ok (snd (update_feature_reply payload d))"
  by (simp add: update_feature_reply_def usb_ok_def Let_def)

section \<open>The host controller provides them\<close>

lemma kernel_defer:
  assumes "kernel_ok {i} dev"
  shows "if fst (defer_feature_get i report dev) = 0 then kernel_ok {} (snd (defer_feature_get i report dev))
    else kernel_ok {i} (snd (defer_feature_get i report dev))"
proof -
  have "hd_inputs (snd (defer_feature_get i report dev)) = hd_inputs dev"
    "hd_stopping dev \<Longrightarrow> snd (defer_feature_get i report dev) = dev"
    "frames_ok (snd (defer_feature_get i report dev)) = frames_ok dev"
    "inputs_ok (snd (defer_feature_get i report dev)) = inputs_ok dev"
    "audio_ok (snd (defer_feature_get i report dev)) = audio_ok dev"
    "hd_usb (snd (defer_feature_get i report dev)) = hd_usb dev"
    "hd_stopping (snd (defer_feature_get i report dev)) = hd_stopping dev"
    by (simp_all add: defer_feature_get_def upd_context_def frames_ok_def inputs_ok_def audio_ok_def)
  then show ?thesis
    using kernel_okD [OF assms] queues_defer [of i dev report]
    by (auto simp: kernel_ok_def stop_ok_def split: if_splits)
qed

lemma enqueue_done: "fst (enqueue_frame env type payload dev) \<noteq> - EINPROGRESS"
  by (simp add: enqueue_frame_def split: prod.split bool.split)

lemma defer_done: "fst (defer_feature_get i report dev) \<noteq> - EINPROGRESS"
  by (simp add: defer_feature_get_def)

interpretation hcd_host: usb_host "hcd_ops env i" "kernel_ok {i}" "kernel_ok {}" for env i
proof
  show "if fst (op_defer (hcd_ops env i) report dev) = 0 then kernel_ok {} (snd (op_defer (hcd_ops env i) report dev))
      else kernel_ok {i} (snd (op_defer (hcd_ops env i) report dev))" if "kernel_ok {i} dev" for report dev
    using kernel_defer [OF that] by (simp add: hcd_ops_def)
qed (simp_all add: hcd_ops_def enqueue_done [simplified] defer_done [simplified])

end
