(* ===== verification/KernelInvariant.thy ===== *)
theory KernelInvariant
  imports KernelControl "HOL-Library.Sublist"
begin

text \<open>
  Every call of the USB core, of the thread and of the daemon keeps the invariant of the host
  controller; so every state a run reaches has it.
\<close>

section \<open>What the invariant does not look at\<close>

lemma kernel_ok_fields [simp]:
  "kernel_ok X (dev\<lparr>hd_next_out := a\<rparr>) = kernel_ok X dev" "kernel_ok X (dev\<lparr>hd_next_in := a\<rparr>) = kernel_ok X dev"
  "kernel_ok X (dev\<lparr>hd_next_hid := a\<rparr>) = kernel_ok X dev" "kernel_ok X (dev\<lparr>hd_from_user := b\<rparr>) = kernel_ok X dev"
  "kernel_ok X (dev\<lparr>hd_port := c\<rparr>) = kernel_ok X dev" "kernel_ok X (dev\<lparr>hd_opened := d\<rparr>) = kernel_ok X dev"
  "kernel_ok X (dev\<lparr>hd_allocs := e\<rparr>) = kernel_ok X dev" "kernel_ok X (dev\<lparr>hd_given := g\<rparr>) = kernel_ok X dev"
  "kernel_ok X (dev\<lparr>hd_status := f\<rparr>) = kernel_ok X dev"
  by (simp_all add: kernel_ok_def queues_ok_def in_state_def frames_ok_def inputs_ok_def audio_ok_def stop_ok_def)

lemma kernel_ok_usb: "kernel_ok X dev \<Longrightarrow> usb_ok d \<Longrightarrow> kernel_ok X (dev\<lparr>hd_usb := d\<rparr>)"
  by (simp add: kernel_ok_def queues_ok_def in_state_def frames_ok_def inputs_ok_def audio_ok_def stop_ok_def)

lemma kernel_upd_context:
  assumes "\<And>c. uc_state (f c) = uc_state c"
  shows "kernel_ok X (upd_context i f dev) = kernel_ok X dev"
proof -
  have "frames_ok (upd_context i f dev) = frames_ok dev" "inputs_ok (upd_context i f dev) = inputs_ok dev"
    "audio_ok (upd_context i f dev) = audio_ok dev" "stop_ok (upd_context i f dev) = stop_ok dev"
    "hd_usb (upd_context i f dev) = hd_usb dev"
    by (simp_all add: upd_context_def frames_ok_def inputs_ok_def audio_ok_def stop_ok_def)
  then show ?thesis by (simp add: kernel_ok_def queues_upd_context assms)
qed

lemma kernel_upd_urb [simp]: "kernel_ok X (upd_urb i f dev) = kernel_ok X dev"
  unfolding upd_urb_def by (rule kernel_upd_context) simp

lemma kernel_allocate [simp]: "kernel_ok X (snd (allocate env dev)) = kernel_ok X dev"
  by (simp add: allocate_def)

lemma kernel_schedule [simp]:
  "kernel_ok X (schedule_hid_in env i dev) = kernel_ok X dev" "kernel_ok X (schedule_iso env i input dev) = kernel_ok X dev"
  by (simp_all add: schedule_hid_in_def schedule_iso_def Let_def kernel_upd_context split: option.split)

section \<open>Giving back\<close>

lemma kernel_giveback:
  assumes "kernel_ok X dev"
  shows "kernel_ok (X - {i}) (snd (queue_giveback i status dev))"
proof -
  let ?dev = "snd (queue_giveback i status dev)"
  have "hd_inputs ?dev = hd_inputs dev" "hd_input_count ?dev = hd_input_count dev" "hd_stopping ?dev = hd_stopping dev"
    "hd_events ?dev = hd_events dev" "hd_audio ?dev = hd_audio dev" "hd_usb ?dev = hd_usb dev"
    "frames_ok ?dev = frames_ok dev" "audio_ok ?dev = audio_ok dev"
    by (simp_all add: queue_giveback_def upd_context_def frames_ok_def audio_ok_def split: option.split)
  moreover have "hd_pending_in dev = [] \<Longrightarrow> hd_pending_in ?dev = []" "hd_pending_get dev = [] \<Longrightarrow> hd_pending_get ?dev = []"
    by (simp_all add: queue_giveback_def split: option.split)
  ultimately show ?thesis
    using kernel_okD [OF assms] queues_giveback [of X dev i status]
    by (auto simp: kernel_ok_def inputs_ok_def stop_ok_def)
qed

lemma kernel_giveback_pending: "kernel_ok {} dev \<Longrightarrow> kernel_ok {} (snd (queue_giveback i status dev))"
  using kernel_giveback [of "{}"] by simp

lemma kernel_give_back_all:
  "(\<And>i dev. kernel_ok {} dev \<Longrightarrow> kernel_ok {} (snd (f i dev))) \<Longrightarrow> kernel_ok {} dev
    \<Longrightarrow> kernel_ok {} (snd (give_back_all f is dev))"
  by (rule give_back_all_keeps [of "kernel_ok {}"]) (auto intro: kernel_giveback_pending)

lemma kernel_cancel: "kernel_ok {} dev \<Longrightarrow> kernel_ok {} (snd (cancel_pending_urbs status dev))"
  by (rule cancel_keeps [of "kernel_ok {}"]) (rule kernel_giveback_pending)

section \<open>Microphone data as a stream of bytes\<close>

lemma audio_bytes_simps [simp]: "audio_bytes [] = []" "audio_bytes (p # ps) = packet_bytes p @ audio_bytes ps"
  "audio_bytes (ps @ qs) = audio_bytes ps @ audio_bytes qs"
  by (simp_all add: audio_bytes_def)

lemma take_audio_none [simp]: "take_audio 0 ps = ([], ps)"
  by (cases ps) simp_all

text \<open>Taking bytes takes them off the front of the stream, and zeros follow its end.\<close>

lemma take_audio_stream:
  assumes "list_all audio_packet_ok ps"
  shows "fst (take_audio n ps) = take n (audio_bytes ps) @ replicate (n - length (audio_bytes ps)) 0"
    and "audio_bytes (snd (take_audio n ps)) = drop n (audio_bytes ps)"
    and "list_all audio_packet_ok (snd (take_audio n ps))" and "length (snd (take_audio n ps)) \<le> length ps"
proof -
  have "fst (take_audio n ps) = take n (audio_bytes ps) @ replicate (n - length (audio_bytes ps)) 0
      \<and> audio_bytes (snd (take_audio n ps)) = drop n (audio_bytes ps)
      \<and> list_all audio_packet_ok (snd (take_audio n ps)) \<and> length (snd (take_audio n ps)) \<le> length ps"
    using assms
  proof (induction ps arbitrary: n)
    case Nil
    then show ?case by simp
  next
    case (Cons p ps)
    let ?a = "length (au_payload p) - au_offset p"
    have offset: "au_offset p < length (au_payload p)" "length (packet_bytes p) = ?a"
      using Cons.prems by (simp_all add: audio_packet_ok_def packet_bytes_def)
    show ?case
    proof (cases "n < ?a")
      case True
      then show ?thesis
        using Cons.prems offset
        by (auto simp: Let_def packet_bytes_def audio_packet_ok_def add.commute)
    next
      case False
      then have "min n ?a = ?a" "0 < n" using offset by simp_all
      then show ?thesis
        using Cons.IH [of "n - ?a"] Cons.prems offset False
        by (auto simp: Let_def packet_bytes_def split: prod.split)
    qed
  qed
  then show "fst (take_audio n ps) = take n (audio_bytes ps) @ replicate (n - length (audio_bytes ps)) 0"
    "audio_bytes (snd (take_audio n ps)) = drop n (audio_bytes ps)"
    "list_all audio_packet_ok (snd (take_audio n ps))" "length (snd (take_audio n ps)) \<le> length ps"
    by blast+
qed

lemma audio_ok_fill: "audio_ok dev \<Longrightarrow> audio_ok (snd (fill_audio_in n dev))"
  using take_audio_stream [of "hd_audio dev" n]
  by (auto simp: audio_ok_def fill_audio_in_def audio_bytes_def [symmetric] split: prod.split)

lemma fill_audio_fields [simp]:
  "hd_pending_in (snd (fill_audio_in n dev)) = hd_pending_in dev" "hd_pending_get (snd (fill_audio_in n dev)) = hd_pending_get dev"
  "hd_completed (snd (fill_audio_in n dev)) = hd_completed dev" "hd_contexts (snd (fill_audio_in n dev)) = hd_contexts dev"
  "hd_inputs (snd (fill_audio_in n dev)) = hd_inputs dev" "hd_input_count (snd (fill_audio_in n dev)) = hd_input_count dev"
  "hd_stopping (snd (fill_audio_in n dev)) = hd_stopping dev" "hd_usb (snd (fill_audio_in n dev)) = hd_usb dev"
  "hd_events (snd (fill_audio_in n dev)) = hd_events dev" "frames_ok (snd (fill_audio_in n dev)) = frames_ok dev"
  "hd_given (snd (fill_audio_in n dev)) = hd_given dev"
  by (simp_all add: fill_audio_in_def frames_ok_def split: prod.split)

lemma kernel_fill_audio:
  assumes "kernel_ok X dev"
  shows "kernel_ok X (snd (fill_audio_in n dev))"
proof -
  have "hd_audio dev = [] \<Longrightarrow> hd_audio (snd (fill_audio_in n dev)) = []"
    by (simp add: fill_audio_in_def)
  then show ?thesis
    using kernel_okD [OF assms] audio_ok_fill [of dev n]
    by (simp add: kernel_ok_def inputs_ok_def stop_ok_def queues_ok_def in_state_def)
qed

lemma make_room_ok:
  assumes "list_all audio_packet_ok ps" "q = length (audio_bytes ps)" "q \<le> VDS_AUDIO_IN_QUEUE_MAX_BYTES"
    "n \<le> VDS_AUDIO_IN_QUEUE_MAX_BYTES"
  shows "suffix (fst (make_room n ps q)) ps" and "snd (make_room n ps q) = length (audio_bytes (fst (make_room n ps q)))"
    and "snd (make_room n ps q) + n \<le> VDS_AUDIO_IN_QUEUE_MAX_BYTES"
proof -
  have "suffix (fst (make_room n ps q)) ps \<and> snd (make_room n ps q) = length (audio_bytes (fst (make_room n ps q)))
      \<and> snd (make_room n ps q) + n \<le> VDS_AUDIO_IN_QUEUE_MAX_BYTES"
    using assms
  proof (induction ps arbitrary: q)
    case Nil
    then show ?case by simp
  next
    case (Cons p ps)
    let ?q = "q - (length (au_payload p) - au_offset p)"
    have "?q = length (audio_bytes ps)" "?q \<le> VDS_AUDIO_IN_QUEUE_MAX_BYTES"
      using Cons.prems by (simp_all add: packet_bytes_def)
    then show ?case
      using Cons.IH [of ?q] Cons.prems
      by (cases "q + n > VDS_AUDIO_IN_QUEUE_MAX_BYTES") (auto simp: suffix_Cons)
  qed
  then show "suffix (fst (make_room n ps q)) ps" "snd (make_room n ps q) = length (audio_bytes (fst (make_room n ps q)))"
    "snd (make_room n ps q) + n \<le> VDS_AUDIO_IN_QUEUE_MAX_BYTES"
    by blast+
qed

section \<open>Serving a transfer\<close>

lemma kernel_send [simp]: "kernel_ok X dev \<Longrightarrow> kernel_ok X (send_chunk env data chunk dev)"
  by (simp add: send_chunk_def split: option.split prod.split)

lemma kernel_iso_out: "kernel_ok X dev \<Longrightarrow> kernel_ok X (iso_out_loop env data ds chunk dev)"
  by (induction ds arbitrary: chunk dev) (simp_all split: option.split prod.split)

lemma iso_in_loop_snd [simp]:
  "snd (snd (iso_in_loop u [] data dev)) = dev"
  "snd (snd (iso_in_loop u (d # ds) data dev)) =
    (if \<not> frame_fits u d then snd (snd (iso_in_loop u ds data dev))
     else let n = min (id_length d) VDS_AUDIO_IN_BYTES_PER_MS in
       snd (snd (iso_in_loop u ds (write_at (id_offset d) (fst (fill_audio_in n dev)) data) (snd (fill_audio_in n dev)))))"
  by (simp_all add: Let_def split: prod.split)

lemma kernel_iso_in: "kernel_ok X dev \<Longrightarrow> kernel_ok X (snd (snd (iso_in_loop u ds data dev)))"
  by (induction ds arbitrary: data dev) (simp_all del: iso_in_loop.simps add: Let_def kernel_fill_audio)

lemma kernel_serve_iso: "kernel_ok X dev \<Longrightarrow> kernel_ok X (snd (snd (serve_iso env c dev)))"
proof -
  have inp: "kernel_ok X (snd (snd (iso_in_urb u dev)))" if "kernel_ok X dev" for u dev
    using kernel_iso_in [OF that] that by (auto simp: iso_in_urb_def split: option.split prod.split) (metis snd_conv)
  assume ok: "kernel_ok X dev"
  have out: "kernel_ok X (snd (snd (iso_out_urb env u dev)))" for u
    by (simp add: iso_out_urb_def kernel_iso_out ok split: option.split)
  show ?thesis
    using inp out ok by (auto simp: serve_iso_def split: prod.split) (metis snd_conv)+
qed

lemma kernel_waits:
  assumes "kernel_ok {i} dev" "\<not> hd_stopping dev"
  shows "hd_inputs dev = [] \<Longrightarrow> kernel_ok {} ((upd_context i (\<lambda>c. c\<lparr>uc_state := Urb_pending_hid_in\<rparr>) dev)
             \<lparr>hd_pending_in := hd_pending_in dev @ [i]\<rparr>)"
proof -
  assume empty: "hd_inputs dev = []"
  let ?dev = "(upd_context i (\<lambda>c. c\<lparr>uc_state := Urb_pending_hid_in\<rparr>) dev)\<lparr>hd_pending_in := hd_pending_in dev @ [i]\<rparr>"
  have queues: "queues_ok {i} dev" using assms(1) by (rule kernel_okD)
  then have "i \<in> in_state dev Urb_active" by (auto simp: queues_ok_def)
  then obtain c where "hd_contexts dev i = Some c" "uc_state c = Urb_active" by (auto simp: in_state_def)
  moreover have "i \<in> in_state dev s \<longleftrightarrow> s = Urb_active" for s using calculation by (auto simp: in_state_def)
  ultimately have "queues_ok {} ?dev"
    using queues by (auto simp: queues_ok_def in_state_upd dest: in_state_unique)
  moreover have "frames_ok ?dev = frames_ok dev" "audio_ok ?dev = audio_ok dev" "inputs_ok ?dev" "stop_ok ?dev"
    "hd_usb ?dev = hd_usb dev"
    using kernel_okD [OF assms(1)] assms(2) empty
    by (simp_all add: upd_context_def frames_ok_def audio_ok_def inputs_ok_def stop_ok_def)
  ultimately show "kernel_ok {} ?dev"
    using kernel_okD [OF assms(1)] by (simp add: kernel_ok_def)
qed

lemma kernel_interrupt_in:
  assumes "kernel_ok {i} dev" "\<not> hd_stopping dev"
  shows "if fst (interrupt_in_urb env i dev) = - EINPROGRESS then kernel_ok {} (snd (interrupt_in_urb env i dev))
    else kernel_ok {i} (snd (interrupt_in_urb env i dev))"
proof (cases "hd_inputs dev")
  case Nil
  then show ?thesis using kernel_waits [OF assms] by (simp add: interrupt_in_urb_def)
next
  case (Cons p ps)
  let ?dev = "dev\<lparr>hd_inputs := ps, hd_input_count := hd_input_count dev - 1\<rparr>"
  have "kernel_ok {i} ?dev"
    using assms Cons by (auto simp: kernel_ok_def queues_ok_def in_state_def frames_ok_def inputs_ok_def audio_ok_def stop_ok_def)
  then show ?thesis using Cons by (simp add: interrupt_in_urb_def)
qed

lemma control_run:
  assumes "kernel_ok {i} dev" and "control_urb (hcd_ops env i) u (hd_usb dev) dev = (r, u', d, dev')"
  shows "if r = - EINPROGRESS then kernel_ok {} (upd_urb i (\<lambda>_. u') (dev'\<lparr>hd_usb := d\<rparr>))
    else kernel_ok {i} (upd_urb i (\<lambda>_. u') (dev'\<lparr>hd_usb := d\<rparr>)) \<or> kernel_ok {} (upd_urb i (\<lambda>_. u') (dev'\<lparr>hd_usb := d\<rparr>))"
  using hcd_host.settled_control [OF assms(1), where env = env and u = u and d = "hd_usb dev"]
    usb_ok_control [OF kernel_okD(6) [OF assms(1)], of "hcd_ops env i" u dev] assms(2)
  by (auto simp: hcd_host.settled_def intro: kernel_ok_usb)

text \<open>What is done is given back, whatever served it; what waits is in its queue.\<close>

lemma kernel_serve:
  assumes "kernel_ok {i} dev" "\<not> hd_stopping dev" and "urb_serve env i dev = (result, dev')"
  shows "case result of None \<Rightarrow> kernel_ok {} dev' | Some _ \<Rightarrow> kernel_ok {i} dev' \<or> kernel_ok {} dev'"
proof -
  have "i \<in> in_state dev Urb_active" using kernel_okD(1) [OF assms(1)] by (auto simp: queues_ok_def)
  then obtain c where c: "hd_contexts dev i = Some c" by (auto simp: in_state_def)
  show ?thesis
  proof (cases "ur_pipe (uc_urb c)")
    case Pipe_control
    then show ?thesis
      using assms c control_run [OF assms(1), of env "uc_urb c"] by (auto simp: urb_serve_def split: prod.splits if_splits)
  next
    case Pipe_interrupt
    then show ?thesis
      using assms c kernel_interrupt_in [OF assms(1,2), of env]
      by (auto simp: urb_serve_def interrupt_out_urb_def Let_def split: prod.splits if_splits option.splits)
  next
    case Pipe_isochronous
    then show ?thesis
      using assms c by (auto simp: urb_serve_def serve_iso_urb_def Let_def kernel_upd_context split: prod.splits if_splits)
  next
    case Pipe_bulk
    then show ?thesis using assms c by (auto simp: urb_serve_def)
  qed
qed

lemma kernel_fresh:
  assumes "kernel_ok {} dev" "hd_contexts dev i = None"
  shows "kernel_ok {i} (dev\<lparr>hd_contexts := (hd_contexts dev)(i := Some (fresh_context u))\<rparr>)"
proof -
  have "in_state (dev\<lparr>hd_contexts := (hd_contexts dev)(i := Some (fresh_context u))\<rparr>) s
      = (if s = Urb_active then insert i (in_state dev s) else in_state dev s)" for s
    using assms(2) by (auto simp: in_state_def fresh_context_def)
  then show ?thesis
    using kernel_okD [OF assms(1)]
    by (simp add: kernel_ok_def queues_ok_def frames_ok_def inputs_ok_def audio_ok_def stop_ok_def)
qed

lemma kernel_submit:
  assumes "kernel_ok {} dev" "hd_contexts dev i = None"
  shows "kernel_ok {} (snd (urb_enqueue env i u dev))"
proof (cases "urb_link env i u dev")
  case (Pair r linked)
  show ?thesis
  proof (cases "r = 0")
    case False
    then have "kernel_ok {} linked"
      using Pair assms(1) by (auto simp: urb_link_def allocate_def split: if_splits bool.splits)
    then show ?thesis using Pair False by (simp add: urb_enqueue_def)
  next
    case True
    then have "kernel_ok {i} linked" "\<not> hd_stopping linked"
      using Pair kernel_fresh [of "dev\<lparr>hd_allocs := hd_allocs dev + 1\<rparr>" i u] assms
      by (auto simp: urb_link_def allocate_def split: if_splits bool.splits)
    then have "case fst (urb_serve env i linked) of None \<Rightarrow> kernel_ok {} (snd (urb_serve env i linked))
        | Some _ \<Rightarrow> kernel_ok {i} (snd (urb_serve env i linked)) \<or> kernel_ok {} (snd (urb_serve env i linked))"
      by (rule kernel_serve) simp
    then show ?thesis
      using Pair True kernel_giveback [of "{i}" _ i]
      by (auto simp: urb_enqueue_def kernel_giveback_pending split: prod.split option.split)
  qed
qed

section \<open>The other calls\<close>

lemma kernel_unlink: "kernel_ok {} dev \<Longrightarrow> kernel_ok {} (snd (urb_dequeue env i status dev))"
  by (auto simp: urb_dequeue_def kernel_upd_context kernel_giveback_pending split: option.split)

lemma kernel_giveback_turn:
  assumes "kernel_ok {} dev"
  shows "kernel_ok {} (giveback_turn env dev)"
proof (cases "hd_completed dev")
  case Nil
  then show ?thesis using assms by (simp add: giveback_turn_def)
next
  case (Cons i ids)
  let ?dev = "dev\<lparr>hd_completed := ids, hd_contexts := (hd_contexts dev)(i := None)\<rparr>"
  have queues: "queues_ok {} dev" using assms by (rule kernel_okD)
  then have "i \<in> in_state dev Urb_pending_giveback" using Cons by (auto simp: queues_ok_def)
  then have "i \<notin> in_state dev s" if "s \<noteq> Urb_pending_giveback" for s using that by (auto simp: in_state_def)
  moreover have "in_state ?dev s = in_state dev s - {i}" for s by (auto simp: in_state_def)
  ultimately have "queues_ok {} ?dev" using queues Cons by (auto simp: queues_ok_def)
  then have "kernel_ok {} ?dev"
    using kernel_okD [OF assms] by (simp add: kernel_ok_def frames_ok_def inputs_ok_def audio_ok_def stop_ok_def)
  then have "kernel_ok {} (snd (snd (serve_iso env c ?dev)))" for c by (rule kernel_serve_iso)
  then show ?thesis
    using assms Cons by (auto simp: giveback_turn_def split: option.split prod.split) (metis snd_conv)+
qed

lemma kernel_read:
  assumes "kernel_ok X dev"
  shows "kernel_ok X (snd (vds_read env nonblock n dev))"
proof (cases "hd_events dev")
  case Nil
  then show ?thesis using assms by (simp add: vds_read_def)
next
  case (Cons e es)
  have frames: "frames_ok dev" using assms by (rule kernel_okD)
  have "fh_sequence (ev_header (es ! k)) = hd_sequence dev - of_nat (length es - k)" if "k < length es" for k
    using frames that Cons unfolding frames_ok_def by (auto dest!: spec [of _ "Suc k"])
  then have "frames_ok (dev\<lparr>hd_events := es, hd_event_count := hd_event_count dev - 1\<rparr>)"
    using frames Cons by (simp add: frames_ok_def)
  then have "kernel_ok X (dev\<lparr>hd_events := es, hd_event_count := hd_event_count dev - 1\<rparr>)"
    using kernel_okD [OF assms] Cons by (simp add: kernel_ok_def queues_ok_def in_state_def inputs_ok_def audio_ok_def stop_ok_def)
  then show ?thesis using Cons assms by (simp add: vds_read_def)
qed

text \<open>A report goes to the oldest transfer or is kept alone.\<close>

lemma kernel_input_queue:
  assumes "kernel_ok X dev" "hd_pending_in dev = []" "\<not> hd_stopping dev" "payload \<noteq> []" "length payload \<le> VDS_CONTROLLER_HID_PACKET_SIZE"
  shows "kernel_ok X (dev\<lparr>hd_inputs := [payload], hd_input_count := Suc 0\<rparr>)"
  using kernel_okD [OF assms(1)] assms(2-)
  by (simp add: kernel_ok_def queues_ok_def in_state_def frames_ok_def inputs_ok_def audio_ok_def stop_ok_def)

lemma kernel_write_input:
  assumes "kernel_ok {} dev"
  shows "kernel_ok {} (snd (write_input_frame env payload dev))"
proof (cases "payload = [] \<or> length payload > VDS_CONTROLLER_HID_PACKET_SIZE \<or> hd_stopping dev \<or> hd_pending_in dev \<noteq> []")
  case True
  have "kernel_ok {} (snd (queue_giveback i 0 (schedule_hid_in env i (upd_urb i (fill_hid_in_urb payload) dev))))" for i
    by (rule kernel_giveback_pending) (simp add: assms)
  then show ?thesis using True assms by (auto simp: write_input_frame_def split: list.split)
next
  case False
  then have free: "payload \<noteq> []" "length payload \<le> VDS_CONTROLLER_HID_PACKET_SIZE" "\<not> hd_stopping dev" "hd_pending_in dev = []"
    by auto
  have inputs: "hd_input_count dev = length (hd_inputs dev)" "length (hd_inputs dev) \<le> 1"
    using kernel_okD(3) [OF assms] by (simp_all add: inputs_ok_def)
  show ?thesis
  proof (cases "hd_inputs dev")
    case Nil
    then show ?thesis
      using assms free inputs kernel_input_queue [of "{}" "dev\<lparr>hd_allocs := hd_allocs dev + 1\<rparr>" payload]
      by (simp add: write_input_frame_def allocate_def split: bool.split)
  next
    case (Cons p ps)
    then have "ps = []" "hd_input_count dev = Suc 0" using inputs by simp_all
    then have "dev\<lparr>hd_inputs := butlast (hd_inputs dev) @ [payload]\<rparr> = dev\<lparr>hd_inputs := [payload], hd_input_count := Suc 0\<rparr>"
      using Cons by simp
    then show ?thesis
      using assms free Cons kernel_input_queue [of "{}" dev payload] by (simp add: write_input_frame_def)
  qed
qed

lemma kernel_fill_feature [simp]: "kernel_ok X (snd (fill_feature_urb payload i dev)) = kernel_ok X dev"
  by (simp add: fill_feature_urb_def split: option.split prod.split)

lemma kernel_write_feature:
  assumes "kernel_ok {} dev"
  shows "kernel_ok {} (snd (write_feature_reply payload dev))"
proof -
  have "usb_ok (snd (update_feature_reply payload (hd_usb dev)))"
    by (rule usb_ok_feature_reply) (rule kernel_okD(6) [OF assms])
  then have "kernel_ok {} (dev\<lparr>hd_usb := snd (update_feature_reply payload (hd_usb dev))\<rparr>)"
    by (rule kernel_ok_usb [OF assms])
  then show ?thesis
    using assms kernel_give_back_all [of "fill_feature_urb payload"]
    by (auto simp: write_feature_reply_def complete_feature_replies_def split: prod.split)
qed

lemma kernel_write_audio:
  assumes "kernel_ok X dev" "length payload \<le> VDS_FRAME_MAX_PAYLOAD"
  shows "kernel_ok X (snd (write_audio_in_frame env payload dev))"
proof (cases "payload = [] \<or> \<not> kn_alloc env (hd_allocs dev) \<or> hd_stopping dev")
  case True
  then show ?thesis using assms(1) by (auto simp: write_audio_in_frame_def allocate_def split: bool.split)
next
  case False
  let ?kept = "make_room (length payload) (hd_audio dev) (hd_audio_bytes dev)"
  have audio: "audio_ok dev" using assms(1) by (rule kernel_okD)
  have room: "suffix (fst ?kept) (hd_audio dev)" "snd ?kept = length (audio_bytes (fst ?kept))"
    "snd ?kept + length payload \<le> VDS_AUDIO_IN_QUEUE_MAX_BYTES"
    using make_room_ok [of "hd_audio dev" "hd_audio_bytes dev" "length payload"] audio assms(2) by (simp_all add: audio_ok_def)
  then have "list_all audio_packet_ok (fst ?kept)" "length (fst ?kept) \<le> length (hd_audio dev)"
    using audio suffix_length_le [OF room(1)] set_mono_suffix [OF room(1)] by (auto simp: audio_ok_def list_all_iff)
  then have "audio_ok (snd (write_audio_in_frame env payload dev))"
    using False room audio assms(2)
    by (auto simp: write_audio_in_frame_def allocate_def audio_ok_def audio_packet_ok_def packet_bytes_def split: prod.split)
  then show ?thesis
    using kernel_okD [OF assms(1)] False
    by (auto simp: write_audio_in_frame_def allocate_def kernel_ok_def queues_ok_def in_state_def frames_ok_def inputs_ok_def
        stop_ok_def split: prod.split)
qed

lemma kernel_write:
  assumes "kernel_ok {} dev"
  shows "kernel_ok {} (snd (vds_write env bs dev))"
proof -
  have audio: "kernel_ok {} (snd (write_audio_in_frame env (drop 16 bs) dev))" if "length bs = 16 + n" "n \<le> VDS_FRAME_MAX_PAYLOAD" for n
    using that by (intro kernel_write_audio [OF assms]) simp
  show ?thesis
    using assms kernel_write_input [OF assms] kernel_write_feature [OF assms] audio
    by (auto simp: vds_write_def Let_def prod_eq_iff case_prod_beta split: option.split)
qed

text \<open>Flushed after every waiting transfer was cancelled, the controller keeps nothing.\<close>

lemma giveback_lists:
  "hd_pending_in (snd (queue_giveback i status dev)) =
    (if hd_contexts dev i = None \<or> i \<in> in_state dev Urb_pending_giveback then hd_pending_in dev else removeAll i (hd_pending_in dev))"
  "hd_pending_get (snd (queue_giveback i status dev)) =
    (if hd_contexts dev i = None \<or> i \<in> in_state dev Urb_pending_giveback then hd_pending_get dev else removeAll i (hd_pending_get dev))"
  by (auto simp: queue_giveback_def in_state_def split: option.split)

lemma giveback_pending_removed:
  assumes "kernel_ok {} dev"
  shows "set (hd_pending_in (snd (queue_giveback i status dev))) = set (hd_pending_in dev) - {i}"
    and "set (hd_pending_get (snd (queue_giveback i status dev))) = set (hd_pending_get dev) - {i}"
proof -
  have queues: "queues_ok {} dev" using assms by (rule kernel_okD)
  then have "hd_contexts dev i = None \<or> i \<in> in_state dev Urb_pending_giveback
      \<Longrightarrow> i \<notin> set (hd_pending_in dev) \<and> i \<notin> set (hd_pending_get dev)"
    by (auto simp: queues_ok_def in_state_def)
  then show "set (hd_pending_in (snd (queue_giveback i status dev))) = set (hd_pending_in dev) - {i}"
    and "set (hd_pending_get (snd (queue_giveback i status dev))) = set (hd_pending_get dev) - {i}"
    by (auto simp: giveback_lists)
qed

lemma give_back_all_removed:
  "kernel_ok {} dev \<Longrightarrow>
    set (hd_pending_in (snd (give_back_all (\<lambda>_ dev. (status, dev)) ids dev))) = set (hd_pending_in dev) - set ids
    \<and> set (hd_pending_get (snd (give_back_all (\<lambda>_ dev. (status, dev)) ids dev))) = set (hd_pending_get dev) - set ids"
  by (induction ids arbitrary: dev)
    (auto simp del: give_back_all.simps simp: kernel_giveback_pending giveback_pending_removed)

lemma cancel_empties:
  assumes "kernel_ok {} dev"
  shows "hd_pending_in (snd (cancel_pending_urbs status dev)) = []"
    and "hd_pending_get (snd (cancel_pending_urbs status dev)) = []"
proof -
  let ?dev = "snd (give_back_all (\<lambda>_ dev. (status, dev)) (hd_pending_in dev) dev)"
  have "kernel_ok {} ?dev" by (rule kernel_give_back_all) (simp_all add: assms)
  from give_back_all_removed [OF this] give_back_all_removed [OF assms]
  have "set (hd_pending_in (snd (cancel_pending_urbs status dev))) = {}"
    "set (hd_pending_get (snd (cancel_pending_urbs status dev))) = {}"
    by (simp_all add: cancel_snd Let_def)
  then show "hd_pending_in (snd (cancel_pending_urbs status dev)) = []"
    "hd_pending_get (snd (cancel_pending_urbs status dev)) = []"
    by simp_all
qed

lemma kernel_flush: "kernel_ok X dev \<Longrightarrow> kernel_ok X (flush_buffered_frames dev)"
  by (simp add: flush_buffered_frames_def kernel_ok_def queues_ok_def in_state_def frames_ok_def inputs_ok_def audio_ok_def stop_ok_def)

lemma kernel_disconnect:
  assumes "kernel_ok {} dev"
  shows "kernel_ok {} (disconnect_device dev)"
proof -
  have "kernel_ok {} (flush_buffered_frames (snd (cancel_pending_urbs (- ESHUTDOWN) (dev\<lparr>hd_port := port\<rparr>))))" for port
    by (rule kernel_flush, rule kernel_cancel) (simp add: assms)
  moreover from this
  have "usb_ok (hd_usb (flush_buffered_frames (snd (cancel_pending_urbs (- ESHUTDOWN) (dev\<lparr>hd_port := port\<rparr>)))))" for port
    by (rule kernel_okD(6))
  ultimately show ?thesis
    unfolding disconnect_device_def Let_def by (intro kernel_ok_usb usb_ok_reset) (simp_all add: status_set_def)
qed

lemma kernel_connection: "kernel_ok {} dev \<Longrightarrow> kernel_ok {} (set_connection on dev)"
  by (simp add: set_connection_def kernel_disconnect connect_device_def)

lemma kernel_ioctl: "kernel_ok {} dev \<Longrightarrow> kernel_ok {} (snd (vds_ioctl env cmd dev))"
  using usb_ok_set_profile [OF kernel_okD(6)]
  by (auto simp: vds_ioctl_def ioctl_set_profile_def kernel_connection prod_eq_iff case_prod_beta split: hcd_ioctl.split
      intro: kernel_ok_usb)

lemma kernel_hub: "kernel_ok X dev \<Longrightarrow> kernel_ok X (snd (hub_control request dev))"
  by (simp add: hub_control_def Let_def split: hub_request.split option.split)

lemma kernel_stop:
  assumes "kernel_ok {} dev"
  shows "kernel_ok {} (hcd_stop dev)"
proof -
  let ?live = "snd (cancel_pending_urbs (- ESHUTDOWN) dev)"
  have same: "snd (cancel_pending_urbs (- ESHUTDOWN) (dev\<lparr>hd_stopping := True\<rparr>)) = ?live\<lparr>hd_stopping := True\<rparr>"
  proof -
    have ready_stopping: "ready_time (dev\<lparr>hd_stopping := True\<rparr>) = ready_time dev" for dev
      by (rule ext) (simp add: ready_time_def)
    have "queue_giveback i status (dev\<lparr>hd_stopping := True\<rparr>)
        = (fst (queue_giveback i status dev), (snd (queue_giveback i status dev))\<lparr>hd_stopping := True\<rparr>)" for i status dev
      by (simp add: queue_giveback_def upd_context_def ready_stopping split: option.split)
    then have "give_back_all (\<lambda>_ dev. (status, dev)) ids (dev\<lparr>hd_stopping := True\<rparr>)
        = (fst (give_back_all (\<lambda>_ dev. (status, dev)) ids dev), (snd (give_back_all (\<lambda>_ dev. (status, dev)) ids dev))\<lparr>hd_stopping := True\<rparr>)"
      for ids status dev
      by (induction ids arbitrary: dev) (simp_all add: case_prod_beta)
    then show ?thesis by (simp add: cancel_snd Let_def)
  qed
  have "kernel_ok {} (flush_buffered_frames ?live)" by (rule kernel_flush) (rule kernel_cancel [OF assms])
  then have "kernel_ok {} (flush_buffered_frames (?live\<lparr>hd_stopping := True\<rparr>))"
    using cancel_empties [OF assms]
    by (simp add: flush_buffered_frames_def kernel_ok_def queues_ok_def in_state_def frames_ok_def inputs_ok_def audio_ok_def
        stop_ok_def)
  then show ?thesis by (simp add: hcd_stop_def same)
qed

section \<open>Every run\<close>

text \<open>The USB core names a transfer once until it is given back.\<close>

fun call_ok :: "kcall \<Rightarrow> hcd \<Rightarrow> bool" where
  "call_ok (Submit i u) dev \<longleftrightarrow> hd_contexts dev i = None"
| "call_ok _ dev \<longleftrightarrow> True"

fun calls_ok :: "(kernel_env \<times> kcall) list \<Rightarrow> hcd \<Rightarrow> bool" where
  "calls_ok [] dev \<longleftrightarrow> True"
| "calls_ok ((env, call) # calls) dev \<longleftrightarrow> call_ok call dev \<and> calls_ok calls (kernel_step env call dev)"

lemma kernel_step_ok: "kernel_ok {} dev \<Longrightarrow> call_ok call dev \<Longrightarrow> kernel_ok {} (kernel_step env call dev)"
  by (cases call)
    (simp_all add: kernel_submit kernel_unlink kernel_giveback_turn kernel_read kernel_write kernel_ioctl kernel_hub kernel_stop
      vds_open_def vds_release_def kernel_connection)

lemma kernel_run_ok: "kernel_ok {} dev \<Longrightarrow> calls_ok calls dev \<Longrightarrow> kernel_ok {} (kernel_run calls dev)"
  by (induction calls dev rule: kernel_run.induct) (simp_all add: kernel_step_ok)

lemma kernel_start: "kernel_ok {} (hcd_start hcd_probe)"
  by (simp add: hcd_start_def hcd_probe_def status_set_def kernel_ok_def queues_ok_def in_state_def frames_ok_def inputs_ok_def audio_ok_def
      stop_ok_def usb_ok_init)

end
