(* ===== verification/KernelLedger.thy ===== *)
theory KernelLedger
  imports KernelInvariant
begin

text \<open>
  The ledger of the transfers: which ones the USB core handed over, which ones it got back. No call
  loses or repeats one, and a stopped controller returns all it has.
\<close>

section \<open>What every operation of the controller keeps, a control request keeps\<close>

lemma control_keeps:
  assumes ops: "\<And>type payload c. P c \<Longrightarrow> P (snd (op_enqueue ops type payload c))" "\<And>i c. P c \<Longrightarrow> P (snd (op_defer ops i c))"
    "\<And>flags on c. P c \<Longrightarrow> P (op_status ops flags on c)" and "P c"
  shows "P (snd (snd (snd (control_urb ops u d c))))"
proof -
  have plain: "P (snd (snd (snd (answer_with bs u d c))))" "P (snd (snd (snd (stall u d c))))" for bs u d
    using assms(4) by (simp_all add: answer_with_def stall_def split: prod.split)
  have interface: "P (interface_frame ops n alt kind c)" if "P c" for n alt kind c
    using ops(1) [OF that] by (simp add: interface_frame_def)
  have "P (snd (snd (snd (audio_control su u d c))))" for su u
    using assms(4) plain by (simp add: audio_control_def audio_set_def Let_def split: option.split)
  moreover have "P (snd (snd (snd (get_feature_report ops su u d c))))" "P (snd (snd (snd (set_feature_report ops su u d c))))" for su u
    using assms(4) ops(1,2) plain
    by (simp_all add: get_feature_report_def set_feature_report_def Let_def case_prod_beta split: option.split)
  then have "P (snd (snd (snd (hid_control ops su u d c))))" for su u
    using assms(4) plain by (simp add: hid_control_def)
  moreover have "P (snd (snd (snd (standard_control ops su u d c))))" for su u
    using assms(4) ops(3) plain interface
    by (simp add: standard_control_def set_configuration_def usb_set_interface_def usb_get_interface_def Let_def case_prod_beta)
  ultimately show ?thesis
    using plain by (simp add: control_urb_def Let_def split: option.split)
qed

section \<open>Known and given\<close>

text \<open>The transfers the controller knows, and the numbers of those it gave back, in order.\<close>

definition known :: "hcd \<Rightarrow> nat set" where
  "known dev = dom (hd_contexts dev)"

definition returned :: "hcd \<Rightarrow> nat list" where
  "returned dev = map fst (hd_given dev)"

definition ledger :: "hcd \<Rightarrow> nat set \<times> nat list" where
  "ledger dev = (known dev, returned dev)"

lemma ledger_fields [simp]:
  "ledger (dev\<lparr>hd_pending_in := l\<rparr>) = ledger dev" "ledger (dev\<lparr>hd_pending_get := l\<rparr>) = ledger dev"
  "ledger (dev\<lparr>hd_completed := l\<rparr>) = ledger dev" "ledger (dev\<lparr>hd_inputs := ps\<rparr>) = ledger dev"
  "ledger (dev\<lparr>hd_input_count := n\<rparr>) = ledger dev" "ledger (dev\<lparr>hd_audio := au\<rparr>) = ledger dev"
  "ledger (dev\<lparr>hd_audio_count := n\<rparr>) = ledger dev" "ledger (dev\<lparr>hd_audio_bytes := n\<rparr>) = ledger dev"
  "ledger (dev\<lparr>hd_events := es\<rparr>) = ledger dev" "ledger (dev\<lparr>hd_event_count := n\<rparr>) = ledger dev"
  "ledger (dev\<lparr>hd_usb := d\<rparr>) = ledger dev" "ledger (dev\<lparr>hd_allocs := n\<rparr>) = ledger dev"
  "ledger (dev\<lparr>hd_from_user := w\<rparr>) = ledger dev" "ledger (dev\<lparr>hd_status := st\<rparr>) = ledger dev"
  "ledger (dev\<lparr>hd_port := st\<rparr>) = ledger dev" "ledger (dev\<lparr>hd_opened := b\<rparr>) = ledger dev"
  "ledger (dev\<lparr>hd_stopping := b\<rparr>) = ledger dev" "ledger (dev\<lparr>hd_next_out := t\<rparr>) = ledger dev"
  "ledger (dev\<lparr>hd_next_in := t\<rparr>) = ledger dev" "ledger (dev\<lparr>hd_next_hid := t\<rparr>) = ledger dev"
  "ledger (dev\<lparr>hd_sequence := w\<rparr>) = ledger dev" "ledger (dev\<lparr>hd_to_user := w\<rparr>) = ledger dev"
  by (simp_all add: ledger_def known_def returned_def)

lemma ledger_upd [simp]: "ledger (upd_context i f dev) = ledger dev" "ledger (upd_urb i g dev) = ledger dev"
  by (auto simp: ledger_def known_def returned_def upd_urb_def upd_context_def dom_def)

lemma ledger_parts [simp]:
  "ledger (snd (allocate env dev)) = ledger dev" "ledger (snd (enqueue_frame env type payload dev)) = ledger dev"
  "ledger (snd (defer_feature_get i report dev)) = ledger dev" "ledger (status_set flags on dev) = ledger dev"
  "ledger (snd (queue_giveback i status dev)) = ledger dev" "ledger (flush_buffered_frames dev) = ledger dev"
  "ledger (schedule_hid_in env i dev) = ledger dev" "ledger (schedule_iso env i input dev) = ledger dev"
  "ledger (snd (fill_audio_in n dev)) = ledger dev" "ledger (snd (fill_feature_urb payload i dev)) = ledger dev"
  "ledger (send_chunk env data chunk dev) = ledger dev"
  by (simp_all add: allocate_def enqueue_frame_def defer_feature_get_def status_set_def queue_giveback_def flush_buffered_frames_def
      schedule_hid_in_def schedule_iso_def fill_audio_in_def fill_feature_urb_def send_chunk_def Let_def
      split: prod.split bool.split option.split)

lemma ledger_loops [simp]:
  "(\<And>i dev. ledger (snd (f i dev)) = ledger dev) \<Longrightarrow> ledger (snd (give_back_all f is dev)) = ledger dev"
  "ledger (snd (cancel_pending_urbs status dev)) = ledger dev" "ledger (iso_out_loop env data ds chunk dev) = ledger dev"
  "ledger (snd (snd (iso_in_loop u ds bs dev))) = ledger dev"
proof -
  show all: "ledger (snd (give_back_all f is dev)) = ledger dev" if "\<And>i dev. ledger (snd (f i dev)) = ledger dev" for f "is" dev
    by (rule give_back_all_keeps [of "\<lambda>dev'. ledger dev' = ledger dev"]) (simp_all add: that)
  show "ledger (snd (cancel_pending_urbs status dev)) = ledger dev"
    by (rule cancel_keeps [of "\<lambda>dev'. ledger dev' = ledger dev"]) simp_all
  show "ledger (iso_out_loop env data ds chunk dev) = ledger dev"
    by (induction ds arbitrary: chunk dev) (simp_all split: option.split prod.split)
  show "ledger (snd (snd (iso_in_loop u ds bs dev))) = ledger dev"
    by (induction ds arbitrary: bs dev) (simp_all del: iso_in_loop.simps add: Let_def)
qed

lemma ledger_serve [simp]: "ledger (snd (urb_serve env i dev)) = ledger dev"
proof -
  have "ledger (snd (snd (snd (control_urb (hcd_ops env i) u d dev)))) = ledger dev" for u d
    by (rule control_keeps [of "\<lambda>dev'. ledger dev' = ledger dev"]) (simp_all add: hcd_ops_def)
  then show ?thesis
    by (simp add: urb_serve_def interrupt_in_urb_def interrupt_out_urb_def serve_iso_urb_def Let_def case_prod_beta
        split: option.split pipe_type.split list.split)
qed

lemma ledger_serve_iso [simp]: "ledger (snd (snd (serve_iso env c dev))) = ledger dev"
  by (simp add: serve_iso_def iso_out_urb_def iso_in_urb_def case_prod_beta split: option.split)

lemma ledger_calls [simp]:
  "ledger (snd (urb_dequeue env i status dev)) = ledger dev" "ledger (snd (vds_read env nonblock n dev)) = ledger dev"
  "ledger (snd (vds_write env bs dev)) = ledger dev" "ledger (set_connection on dev) = ledger dev"
  "ledger (snd (vds_ioctl env cmd dev)) = ledger dev" "ledger (snd (vds_open dev)) = ledger dev"
  "ledger (vds_release dev) = ledger dev" "ledger (snd (hub_control request dev)) = ledger dev" "ledger (hcd_stop dev) = ledger dev"
proof -
  show connection: "ledger (set_connection on dev) = ledger dev" for on dev
    by (simp add: set_connection_def connect_device_def disconnect_device_def Let_def)
  have "ledger (snd (write_input_frame env p dev)) = ledger dev" "ledger (snd (write_audio_in_frame env p dev)) = ledger dev" 
    "ledger (snd (write_feature_reply p dev)) = ledger dev" for p
    by (simp_all add: write_input_frame_def write_audio_in_frame_def write_feature_reply_def complete_feature_replies_def allocate_def
        case_prod_beta split: list.split bool.split)
  then show "ledger (snd (vds_write env bs dev)) = ledger dev"
    by (simp add: vds_write_def Let_def case_prod_beta split: option.split)
  show "ledger (snd (urb_dequeue env i status dev)) = ledger dev"
    by (simp add: urb_dequeue_def split: option.split)
  show "ledger (snd (vds_read env nonblock n dev)) = ledger dev"
    by (simp add: vds_read_def split: list.split)
  show "ledger (snd (vds_ioctl env cmd dev)) = ledger dev"
    by (simp add: vds_ioctl_def ioctl_set_profile_def connection case_prod_beta split: hcd_ioctl.split)
  show "ledger (snd (vds_open dev)) = ledger dev" "ledger (vds_release dev) = ledger dev"
    by (simp_all add: vds_open_def vds_release_def connection)
  show "ledger (snd (hub_control request dev)) = ledger dev"
    by (simp add: hub_control_def Let_def split: hub_request.split option.split)
  show "ledger (hcd_stop dev) = ledger dev" by (simp add: hcd_stop_def)
qed

section \<open>Runs\<close>

fun submitted :: "(kernel_env \<times> kcall) list \<Rightarrow> nat list" where
  "submitted [] = []"
| "submitted ((env, call) # calls) = (case call of Submit i u \<Rightarrow> [i] | _ \<Rightarrow> []) @ submitted calls"

text \<open>The transfers whose submission the controller accepted.\<close>

fun accepted :: "(kernel_env \<times> kcall) list \<Rightarrow> hcd \<Rightarrow> nat list" where
  "accepted [] dev = []"
| "accepted ((env, call) # calls) dev =
     (case call of Submit i u \<Rightarrow> if fst (urb_enqueue env i u dev) = 0 then [i] else [] | _ \<Rightarrow> [])
       @ accepted calls (kernel_step env call dev)"

definition balanced :: "nat list \<Rightarrow> hcd \<Rightarrow> bool" where
  "balanced ids dev \<longleftrightarrow> distinct ids \<and> distinct (returned dev) \<and> set ids = known dev \<union> set (returned dev)
     \<and> known dev \<inter> set (returned dev) = {}"

lemma balanced_ledger: "ledger dev' = ledger dev \<Longrightarrow> balanced ids dev' = balanced ids dev"
  by (simp add: balanced_def ledger_def)

lemma ledger_submit:
  "ledger (snd (urb_enqueue env i u dev)) =
    (if fst (urb_enqueue env i u dev) = 0 then (insert i (known dev), returned dev) else ledger dev)"
proof (cases "urb_link env i u dev")
  case (Pair r linked)
  have link: "ledger linked = (if r = 0 then (insert i (known dev), returned dev) else ledger dev)"
    using Pair by (auto simp: urb_link_def allocate_def ledger_def known_def returned_def split: if_splits bool.splits)
  have "ledger (snd (urb_enqueue env i u dev)) = ledger linked"
    using Pair ledger_serve [of env i linked]
    by (auto simp: urb_enqueue_def case_prod_beta split: option.split)
  moreover have "fst (urb_enqueue env i u dev) = 0 \<longleftrightarrow> r = 0"
    using Pair by (auto simp: urb_enqueue_def case_prod_beta split: option.split)
  ultimately show ?thesis using link by simp
qed

text \<open>A turn of the thread returns the first transfer of the queue, or waits for its time.\<close>

lemma turn_cases:
  assumes "kernel_ok {} dev"
  obtains "giveback_turn env dev = dev"
  | i ids where "hd_completed dev = i # ids" "i \<in> known dev"
      "ledger (giveback_turn env dev) = (known dev - {i}, returned dev @ [i])"
proof (cases "hd_completed dev")
  case Nil
  then show ?thesis using that(1) by (simp add: giveback_turn_def)
next
  case (Cons i ids)
  then have "i \<in> in_state dev Urb_pending_giveback" using kernel_okD(1) [OF assms] by (auto simp: queues_ok_def)
  then obtain c where c: "hd_contexts dev i = Some c" by (auto simp: in_state_def)
  let ?dev = "dev\<lparr>hd_completed := ids, hd_contexts := (hd_contexts dev)(i := None)\<rparr>"
  show ?thesis
  proof (cases "uc_ready c \<noteq> 0 \<and> us_delta (uc_ready c) (kn_now env) > 0")
    case True
    then show ?thesis using that(1) Cons c by (simp add: giveback_turn_def)
  next
    case False
    have "ledger ?dev = (known dev - {i}, returned dev)" by (auto simp: ledger_def known_def returned_def)
    then have "ledger (snd (snd (serve_iso env c ?dev))) = (known dev - {i}, returned dev)" by simp
    then have "ledger (giveback_turn env dev) = (known dev - {i}, returned dev @ [i])"
      using False Cons c by (simp add: giveback_turn_def ledger_def known_def returned_def case_prod_beta)
    then show ?thesis using that(2) Cons c by (simp add: known_def domI)
  qed
qed

lemma balanced_step:
  assumes "kernel_ok {} dev" "balanced ids dev" and "\<And>i u. call = Submit i u \<Longrightarrow> i \<notin> set ids"
  shows "balanced (ids @ accepted [(env, call)] dev) (kernel_step env call dev)"
proof (cases call)
  case (Submit i u)
  then show ?thesis
    using assms ledger_submit [of env i u dev] by (auto simp: balanced_def ledger_def split: if_splits)
next
  case Giveback
  then show ?thesis
    using assms(2) by (cases rule: turn_cases [OF assms(1), of env]) (auto simp: balanced_def ledger_def)
qed (simp_all add: balanced_ledger assms(2))

lemma balanced_run:
  assumes "kernel_ok {} dev" "balanced ids dev" "distinct (submitted calls)" "set ids \<inter> set (submitted calls) = {}"
  shows "kernel_ok {} (kernel_run calls dev)" "balanced (ids @ accepted calls dev) (kernel_run calls dev)"
proof -
  have "kernel_ok {} (kernel_run calls dev) \<and> balanced (ids @ accepted calls dev) (kernel_run calls dev)"
    using assms
  proof (induction calls arbitrary: dev ids)
    case Nil
    then show ?case by simp
  next
    case (Cons entry calls)
    obtain env call where entry: "entry = (env, call)" by (cases entry)
    have fresh: "i \<notin> set ids" if "call = Submit i u" for i u using Cons.prems(4) that entry by simp
    have "known dev \<subseteq> set ids" using Cons.prems(2) by (auto simp: balanced_def)
    then have "call_ok call dev" using fresh by (cases call) (auto simp: known_def dom_def)
    then have "kernel_ok {} (kernel_step env call dev)" by (rule kernel_step_ok [OF Cons.prems(1)])
    moreover have "balanced (ids @ accepted [(env, call)] dev) (kernel_step env call dev)"
      by (rule balanced_step [OF Cons.prems(1,2) fresh])
    moreover have "distinct (submitted calls)" "set (ids @ accepted [(env, call)] dev) \<inter> set (submitted calls) = {}"
      using Cons.prems(3,4) entry by (auto split: kcall.splits if_splits)
    ultimately show ?case using Cons.IH [of "kernel_step env call dev" "ids @ accepted [(env, call)] dev"] entry by simp
  qed
  then show "kernel_ok {} (kernel_run calls dev)" "balanced (ids @ accepted calls dev) (kernel_run calls dev)" by blast+
qed

section \<open>A stopped controller returns everything\<close>

lemma ready_serve_iso [simp]: "hd_contexts (snd (snd (serve_iso env c dev))) = hd_contexts dev"
  "hd_completed (snd (snd (serve_iso env c dev))) = hd_completed dev"
proof -
  have "hd_contexts (iso_out_loop env data ds chunk dev) = hd_contexts dev
      \<and> hd_completed (iso_out_loop env data ds chunk dev) = hd_completed dev" for data ds chunk dev
    by (induction ds arbitrary: chunk dev) (simp_all add: send_chunk_def split: option.split prod.split)
  moreover have "hd_contexts (snd (snd (iso_in_loop u ds bs dev))) = hd_contexts dev
      \<and> hd_completed (snd (snd (iso_in_loop u ds bs dev))) = hd_completed dev" for u ds bs dev
    by (induction ds arbitrary: bs dev) (simp_all del: iso_in_loop.simps add: Let_def)
  ultimately show "hd_contexts (snd (snd (serve_iso env c dev))) = hd_contexts dev"
    "hd_completed (snd (snd (serve_iso env c dev))) = hd_completed dev"
    by (simp_all add: serve_iso_def iso_out_urb_def iso_in_urb_def case_prod_beta split: option.split)
qed

definition all_due :: "kernel_env \<Rightarrow> hcd \<Rightarrow> bool" where
  "all_due env dev \<longleftrightarrow> (\<forall>i c. hd_contexts dev i = Some c \<longrightarrow> uc_ready c \<le> kn_now env)"

lemma due_turn:
  assumes "kernel_ok {} dev" "all_due env dev"
  shows "all_due env (giveback_turn env dev)" and "hd_completed (giveback_turn env dev) = tl (hd_completed dev)"
proof -
  have "us_delta a b \<le> 0" if "a \<le> b" for a b using that by (auto simp: us_delta_def)
  moreover have "\<exists>c. hd_contexts dev i = Some c" if "i \<in> set (hd_completed dev)" for i
    using kernel_okD(1) [OF assms(1)] that by (auto simp: queues_ok_def in_state_def)
  ultimately show "all_due env (giveback_turn env dev)" "hd_completed (giveback_turn env dev) = tl (hd_completed dev)"
    using assms(2)
    by (fastforce simp: giveback_turn_def all_due_def case_prod_beta split: list.split option.split)+
qed

lemma due_turns:
  assumes "kernel_ok {} dev" "all_due env dev"
  shows "hd_completed (kernel_run (replicate n (env, Giveback)) dev) = drop n (hd_completed dev)"
  using assms
proof (induction n arbitrary: dev)
  case (Suc n)
  then show ?case
    using Suc.IH [of "giveback_turn env dev"] due_turn [OF Suc.prems] kernel_giveback_turn [OF Suc.prems(1), of env]
    by (simp add: drop_Suc)
qed simp

text \<open>Cancelling changes no time.\<close>

lemma due_giveback: "all_due env dev \<Longrightarrow> all_due env (snd (queue_giveback i status dev))"
  by (auto simp: all_due_def queue_giveback_def upd_context_def split: option.split)

lemma due_stop: "all_due env dev \<Longrightarrow> all_due env (hcd_stop dev)"
proof -
  assume due: "all_due env dev"
  have "all_due env (snd (cancel_pending_urbs (- ESHUTDOWN) (dev\<lparr>hd_stopping := True\<rparr>)))"
    by (rule cancel_keeps [of "all_due env"], erule due_giveback) (use due in \<open>simp add: all_due_def\<close>)
  then show ?thesis by (simp add: hcd_stop_def flush_buffered_frames_def all_due_def)
qed

lemma stopped_stays: "hd_stopping dev \<Longrightarrow> hd_stopping (kernel_run (replicate n (env, Giveback)) dev)"
proof (induction n arbitrary: dev)
  case (Suc n)
  have iso_out: "hd_stopping (iso_out_loop env data ds chunk dev) = hd_stopping dev" for env data ds chunk dev
    by (induction ds arbitrary: chunk dev) (simp_all add: send_chunk_def split: option.split prod.split)
  have iso_in: "hd_stopping (snd (snd (iso_in_loop u ds bs dev))) = hd_stopping dev" for u ds bs dev
    by (induction ds arbitrary: bs dev) (simp_all del: iso_in_loop.simps add: Let_def)
  have "hd_stopping (giveback_turn env dev) = hd_stopping dev"
    by (simp add: giveback_turn_def serve_iso_def iso_out_urb_def iso_in_urb_def iso_out iso_in case_prod_beta
        split: list.split option.split)
  then show ?case using Suc by simp
qed simp

lemma submitted_turns [simp]: "submitted (replicate n (env, Giveback)) = []" "accepted (replicate n (env, Giveback)) dev = []"
  by (induction n arbitrary: dev) simp_all

lemma stopped_ends: "hd_stopping (hcd_stop dev)"
proof -
  have "hd_stopping (snd (cancel_pending_urbs status (dev\<lparr>hd_stopping := True\<rparr>)))" for status
    by (rule cancel_keeps [of hd_stopping]) (simp_all add: queue_giveback_def upd_context_def split: option.split)
  then show ?thesis by (simp add: hcd_stop_def flush_buffered_frames_def)
qed

lemma accepted_bound: "length (accepted calls dev) \<le> length (submitted calls)"
  by (induction calls dev rule: accepted.induct) (auto split: kcall.split)

text \<open>With nothing waiting and nothing queued, nothing is known.\<close>

lemma empty_known:
  assumes "kernel_ok {} dev" "hd_stopping dev" "hd_completed dev = []"
  shows "known dev = {}"
proof -
  have "queues_ok {} dev" "stop_ok dev" using assms(1) by (simp_all add: kernel_okD)
  then have "in_state dev s = {}" for s using assms(2,3) by (cases s) (auto simp: queues_ok_def stop_ok_def)
  then have "hd_contexts dev i = None" for i by (cases "hd_contexts dev i") (auto simp: in_state_def)
  then show ?thesis by (simp add: known_def dom_def)
qed

lemma distinct_length_le:
  assumes "set xs \<subseteq> set ys" "distinct xs"
  shows "length xs \<le> length ys"
proof -
  have "length xs = card (set xs)" using assms(2) by (simp add: distinct_card)
  also have "\<dots> \<le> card (set ys)" using assms(1) by (simp add: card_mono)
  also have "\<dots> \<le> length ys" by (rule card_length)
  finally show ?thesis .
qed

lemma balanced_start: "balanced [] (hcd_start hcd_probe)"
proof -
  have "known (hcd_start hcd_probe) = {}" "returned (hcd_start hcd_probe) = []"
    by (simp_all add: hcd_start_def known_def returned_def status_set_def) (simp_all add: hcd_probe_def)
  then show ?thesis by (simp add: balanced_def)
qed

lemma drained:
  fixes env :: kernel_env
  defines "start \<equiv> hcd_start hcd_probe"
  assumes "distinct (submitted calls)" "all_due env (kernel_run calls start)" "length (submitted calls) \<le> n"
  defines "final \<equiv> kernel_run (replicate n (env, Giveback)) (hcd_stop (kernel_run calls start))"
  shows "known final = {}" "distinct (returned final)" "set (returned final) = set (accepted calls start)"
proof -
  let ?dev = "kernel_run calls start" and ?ids = "accepted calls start"
  have start: "kernel_ok {} start" "balanced [] start"
    unfolding start_def by (rule kernel_start, rule balanced_start)
  have run: "kernel_ok {} ?dev" "balanced ?ids ?dev"
    using balanced_run [OF start assms(2)] by simp_all
  then have stop: "kernel_ok {} (hcd_stop ?dev)" "balanced ?ids (hcd_stop ?dev)" "all_due env (hcd_stop ?dev)"
    using due_stop [OF assms(3)] by (simp_all add: kernel_stop balanced_ledger [OF ledger_calls(9)])
  have final: "kernel_ok {} final" "balanced ?ids final"
    using balanced_run [OF stop(1,2), of "replicate n (env, Giveback)"] by (simp_all add: final_def)
  have "set (hd_completed (hcd_stop ?dev)) \<subseteq> set ?ids" "distinct (hd_completed (hcd_stop ?dev))"
    using stop(2) kernel_okD(1) [OF stop(1)] by (auto simp: balanced_def queues_ok_def in_state_def known_def)
  then have "length (hd_completed (hcd_stop ?dev)) \<le> length ?ids"
    by (intro distinct_length_le)
  then have "hd_completed final = []"
    using due_turns [OF stop(1,3), of n] accepted_bound [of calls start] assms(4) by (simp add: final_def)
  then show known: "known final = {}"
    by (intro empty_known final) (simp_all add: final_def stopped_stays stopped_ends)
  show "distinct (returned final)" "set (returned final) = set ?ids"
    using final(2) known by (simp_all add: balanced_def)
qed

section \<open>Properties\<close>

lemma known_queues:
  assumes "kernel_ok {} dev"
  shows "distinct (hd_pending_in dev @ hd_pending_get dev @ hd_completed dev)
    \<and> set (hd_pending_in dev @ hd_pending_get dev @ hd_completed dev) = known dev"
proof -
  have queues: "queues_ok {} dev" using assms by (rule kernel_okD)
  have "i \<in> known dev \<longleftrightarrow> (\<exists>s. i \<in> in_state dev s)" for i by (auto simp: known_def in_state_def)
  moreover have "(\<exists>s. i \<in> in_state dev s) \<longleftrightarrow> i \<in> set (hd_pending_in dev) \<or> i \<in> set (hd_pending_get dev) \<or> i \<in> set (hd_completed dev)" for i
    using queues by (auto simp: queues_ok_def) (metis empty_iff urb_state.exhaust)
  ultimately show ?thesis using queues by (auto simp: queues_ok_def dest: in_state_unique)
qed

text \<open>
  C5. Whatever sequence of calls the USB core, the thread and the daemon make, with the environment's
  answers free, as long as the USB core names each transfer once: every transfer the host controller
  holds is in exactly one of its three queues, none of them is one it has given back, and the rest of
  the invariant holds (the frames for the daemon are at most 16384, complete and numbered without a
  gap, at most one input report is kept and none while a transfer waits for one, the microphone queue
  holds as many bytes as it counts and at most 19200, a stopped controller keeps nothing).
\<close>

theorem controller_run_invariant:
  assumes "distinct (submitted calls)"
  defines "dev \<equiv> kernel_run calls (hcd_start hcd_probe)"
  shows "kernel_ok {} dev \<and> distinct (hd_pending_in dev @ hd_pending_get dev @ hd_completed dev)
    \<and> set (hd_pending_in dev @ hd_pending_get dev @ hd_completed dev) = known dev \<and> known dev \<inter> set (returned dev) = {}"
proof -
  have "kernel_ok {} dev" "balanced (accepted calls (hcd_start hcd_probe)) dev"
    using balanced_run [OF kernel_start balanced_start assms(1)] by (simp_all add: dev_def)
  then show ?thesis using known_queues [of dev] by (simp add: balanced_def)
qed

definition example_kernel :: kernel_env where
  "example_kernel = \<lparr>kn_now = 1000000, kn_alloc = (\<lambda>_. True), kn_link = 0, kn_check_unlink = 0, kn_fault = False, kn_memdup = 0, kn_interrupted = False\<rparr>"

text \<open>An interrupt transfer that waits for a report, one that is refused, and a turn of the thread.\<close>

definition example_urb :: "pipe_type \<Rightarrow> urb" where
  "example_urb pipe = \<lparr>ur_pipe = pipe, ur_endpoint = 4, ur_in = True, ur_setup = None, ur_buffer = Some (replicate 64 0),
     ur_length = 64, ur_actual = 0, ur_frames = [], ur_errors = 0, ur_start_frame = 0\<rparr>"

definition example_calls :: "(kernel_env \<times> kcall) list" where
  "example_calls = map (Pair example_kernel)
     [Submit 7 (example_urb Pipe_interrupt), Submit 9 (example_urb Pipe_bulk), Giveback]"

theorem controller_run_invariant_witness:
  "distinct (submitted example_calls)
    \<and> distinct (hd_pending_in (kernel_run example_calls (hcd_start hcd_probe))
      @ hd_pending_get (kernel_run example_calls (hcd_start hcd_probe))
      @ hd_completed (kernel_run example_calls (hcd_start hcd_probe)))"
proof -
  have "distinct (submitted example_calls)" by (simp add: example_calls_def)
  then show ?thesis using controller_run_invariant [of example_calls] by simp
qed

text \<open>
  C3. However a run went, once the controller is stopped and its thread has as many turns as there were
  submissions, at a time when every pending completion is due, each transfer the controller accepted
  has been given back to the USB core exactly once, and no other transfer was given back.
\<close>

theorem transfers_return_once:
  assumes "distinct (submitted calls)" and "all_due env (kernel_run calls (hcd_start hcd_probe))" and "length (submitted calls) \<le> n"
  defines "final \<equiv> kernel_run (replicate n (env, Giveback)) (hcd_stop (kernel_run calls (hcd_start hcd_probe)))"
  shows "known final = {} \<and> distinct (returned final) \<and> set (returned final) = set (accepted calls (hcd_start hcd_probe))"
  using drained [OF assms(1-3)] by (simp add: final_def)

lemma example_due: "all_due example_kernel (kernel_run example_calls (hcd_start hcd_probe))"
  by (simp add: example_calls_def hcd_start_def hcd_probe_def status_set_def urb_enqueue_def urb_link_def urb_serve_def example_urb_def
      example_kernel_def allocate_def fresh_context_def Let_def interrupt_in_urb_def is_hid_in_def device_profile_def profile_of_def
      usb_device_init_def reset_usb_state_def valid_profile_def dualsense_profile_def endpoint_number_def VDS_USB_HID_IN_ENDPOINT_def
      queue_giveback_def upd_context_def giveback_turn_def serve_iso_def insert_completed_def ready_time_def all_due_def)

theorem transfers_return_once_witness:
  "set (returned (kernel_run (replicate 3 (example_kernel, Giveback)) (hcd_stop (kernel_run example_calls (hcd_start hcd_probe)))))
    = set (accepted example_calls (hcd_start hcd_probe))"
proof -
  have "distinct (submitted example_calls)" "length (submitted example_calls) \<le> 3" by (simp_all add: example_calls_def)
  then show ?thesis using transfers_return_once [OF _ example_due, of 3] by simp
qed

end
