(* ===== verification/KernelFlow.thy ===== *)
theory KernelFlow
  imports KernelLedger LinuxPort
begin

text \<open>
  What flows through the host controller: frames to the daemon and from it, input reports, feature
  reports, and the audio of both directions.
\<close>

section \<open>Frames to the daemon\<close>

lemma header_size [simp]: "length (header_bytes h) = 16" "header_bytes h \<noteq> []"
proof -
  show "length (header_bytes h) = 16" by (simp add: header_bytes_def)
  then show "header_bytes h \<noteq> []" by (metis list.size(3) zero_neq_numeral)
qed

lemma payload_size [simp]: "length payload \<le> VDS_FRAME_MAX_PAYLOAD \<Longrightarrow> unat (of_nat (length payload) :: u32) = length payload"
  by (simp add: unat_of_nat take_bit_nat_eq_self)

text \<open>
  C21. Whatever the calls before, the oldest frame a read takes is one the daemon accepts: its framing
  checks pass, it is the frame the controller queued that is handled, with its whole payload, and
  exactly this frame has left the queue.
\<close>

theorem frames_reach_daemon:
  fixes env :: "('s, 'd) os_env"
  assumes "distinct (submitted calls)" and "hd_events (kernel_run calls (hcd_start hcd_probe)) = e # es"
    and "16 + VDS_FRAME_MAX_PAYLOAD \<le> n" and "\<not> kn_fault kenv"
  shows "\<exists>bs. fst (vds_read kenv nonblock n (kernel_run calls (hcd_start hcd_probe))) = Some (Inr bs)
    \<and> hd_events (snd (vds_read kenv nonblock n (kernel_run calls (hcd_start hcd_probe)))) = es
    \<and> handle_vds_frame env backend (Read_bytes bs) = seq_act (handle_frame env backend (ev_header e) (ev_payload e)) (ret True)"
proof -
  let ?dev = "kernel_run calls (hcd_start hcd_probe)" and ?bs = "header_bytes (ev_header e) @ ev_payload e"
  have "kernel_ok {} ?dev" using balanced_run [OF kernel_start balanced_start assms(1)] by simp
  then have e: "length (ev_payload e) \<le> VDS_FRAME_MAX_PAYLOAD" "fh_length (ev_header e) = of_nat (length (ev_payload e))"
    using kernel_okD(2) [of "{}" ?dev] assms(2) by (simp_all add: frames_ok_def event_ok_def)
  then have "handle_vds_frame env backend (Read_bytes ?bs) = seq_act (handle_frame env backend (ev_header e) (ev_payload e)) (ret True)"
    using e by (auto simp: handle_vds_frame_def with_port_def with_state_def read_header_bytes Let_def fun_eq_iff)
  then show ?thesis using assms(2-4) e(1) by (simp add: vds_read_def read_ready_def)
qed

definition example_output :: urb where
  "example_output = (example_urb Pipe_interrupt)\<lparr>ur_in := False, ur_endpoint := 3, ur_buffer := Some [2, 9, 9], ur_length := 3\<rparr>"

theorem frames_reach_daemon_witness:
  "\<forall>(env :: (unit, unit) os_env) backend. \<exists>bs.
     fst (vds_read example_kernel True 5000 (kernel_run [(example_kernel, Submit 4 example_output)] (hcd_start hcd_probe))) = Some (Inr bs)
     \<and> handle_vds_frame env backend (Read_bytes bs)
        = seq_act (handle_frame env backend \<lparr>fh_type = VDS_FRAME_USB_HID_OUT, fh_flags = 0, fh_length = 3, fh_sequence = 0\<rparr> [2, 9, 9]) (ret True)"
proof (intro allI)
  fix env :: "(unit, unit) os_env" and backend
  have events: "hd_events (kernel_run [(example_kernel, Submit 4 example_output)] (hcd_start hcd_probe))
      = [\<lparr>ev_header = \<lparr>fh_type = VDS_FRAME_USB_HID_OUT, fh_flags = 0, fh_length = 3, fh_sequence = 0\<rparr>, ev_payload = [2, 9, 9]\<rparr>]"
    by (simp add: hcd_start_def hcd_probe_def status_set_def urb_enqueue_def urb_link_def urb_serve_def example_output_def example_urb_def
        example_kernel_def allocate_def fresh_context_def Let_def interrupt_out_urb_def is_hid_out_def device_profile_def profile_of_def
        usb_device_init_def reset_usb_state_def valid_profile_def dualsense_profile_def endpoint_number_def VDS_USB_HID_OUT_ENDPOINT_def
        VDS_PROFILE_DS5_def VDS_PROFILE_DSE_def enqueue_frame_def upd_urb_def upd_context_def queue_giveback_def)
  have "\<not> kn_fault example_kernel" by (simp add: example_kernel_def)
  from frames_reach_daemon [OF _ events _ this, of 5000 True env backend]
  show "\<exists>bs. fst (vds_read example_kernel True 5000 (kernel_run [(example_kernel, Submit 4 example_output)] (hcd_start hcd_probe))) = Some (Inr bs)
     \<and> handle_vds_frame env backend (Read_bytes bs)
        = seq_act (handle_frame env backend \<lparr>fh_type = VDS_FRAME_USB_HID_OUT, fh_flags = 0, fh_length = 3, fh_sequence = 0\<rparr> [2, 9, 9]) (ret True)"
    by auto
qed

section \<open>Input reports\<close>

lemma hid_interval [simp]: "up_hid_interval_us (device_profile d) = 1000"
  by (simp add: device_profile_def profile_of_def dualsense_profile_def dualsense_edge_profile_def)

lemma write_input_accepted:
  assumes "report \<noteq> []" "length report \<le> VDS_CONTROLLER_HID_PACKET_SIZE" "\<not> hd_stopping dev" "\<not> kn_fault env" "kn_memdup env = 0"
  shows "vds_write env (hid_in_frame report) dev =
    (case write_input_frame env report dev of (r, dev) \<Rightarrow> (if r \<noteq> 0 then r else int (16 + length report), dev))"
  using assms by (simp add: vds_write_def hid_in_frame_def read_header_bytes VDS_FRAME_USB_HID_IN_def Let_def split: prod.split)

text \<open>
  C23. An input report the daemon writes goes to the transfer that has waited longest: its buffer begins
  with the report, cut to the transfer's length, it is done with status 0, and its time is at least one
  millisecond after this one and after that of the report before. No report is kept beside it, and the
  other waiting transfers stay as they were.
\<close>

theorem input_report_reaches_host:
  assumes "kernel_ok {} dev" and "report \<noteq> []" and "length report \<le> VDS_CONTROLLER_HID_PACKET_SIZE" and "\<not> hd_stopping dev"
    and "\<not> kn_fault env" and "kn_memdup env = 0" and "hd_pending_in dev = i # ids" and "hd_contexts dev i = Some c" and "ur_buffer (uc_urb c) = Some buffer"
    and "ur_length (uc_urb c) \<le> length buffer"
  defines "n \<equiv> min (length report) (ur_length (uc_urb c))" and "dev' \<equiv> snd (vds_write env (hid_in_frame report) dev)"
  shows "fst (vds_write env (hid_in_frame report) dev) = int (length (hid_in_frame report))
    \<and> hd_pending_in dev' = ids \<and> hd_inputs dev' = [] \<and> i \<in> set (hd_completed dev')
    \<and> (\<exists>ready. hd_contexts dev' i = Some (c\<lparr>uc_urb := (uc_urb c)\<lparr>ur_buffer := Some (take n report @ drop n buffer), ur_actual := n\<rparr>,
          uc_ready := ready, uc_status := 0, uc_state := Urb_pending_giveback\<rparr>)
        \<and> kn_now env + 1000000 \<le> ready \<and> hd_next_hid dev + 1000000 \<le> ready \<and> hd_next_hid dev' = ready)
    \<and> (\<forall>k. k \<noteq> i \<longrightarrow> hd_contexts dev' k = hd_contexts dev k)"
proof -
  have queues: "queues_ok {} dev" and inputs: "inputs_ok dev" using assms(1) by (simp_all add: kernel_okD)
  have "i \<in> in_state dev Urb_pending_hid_in" using queues assms(7) by (auto simp: queues_ok_def)
  then have state: "uc_state c = Urb_pending_hid_in" using assms(8) by (simp add: in_state_def)
  have ids: "i \<notin> set ids" using queues assms(7) by (auto simp: queues_ok_def)
  have "hd_inputs dev = []" using inputs assms(7) by (simp add: inputs_ok_def)
  moreover have "length (hid_in_frame report) = 16 + length report" by (simp add: hid_in_frame_def)
  ultimately show ?thesis
    using assms(2-10) state ids
    by (auto simp: dev'_def n_def write_input_accepted write_input_frame_def queue_giveback_def schedule_hid_in_def upd_urb_def
        upd_context_def fill_hid_in_urb_def write_at_def Let_def)
qed

definition example_waiting :: hcd where
  "example_waiting = (hcd_start hcd_probe)\<lparr>hd_pending_in := [7],
     hd_contexts := [7 \<mapsto> (fresh_context (example_urb Pipe_interrupt))\<lparr>uc_state := Urb_pending_hid_in\<rparr>]\<rparr>"

lemma example_waiting_ok: "kernel_ok {} example_waiting"
  by (auto simp: example_waiting_def hcd_start_def hcd_probe_def status_set_def kernel_ok_def queues_ok_def in_state_def frames_ok_def
      inputs_ok_def audio_ok_def stop_ok_def usb_ok_init fresh_context_def split: if_splits)

theorem input_report_reaches_host_witness:
  "hd_pending_in (snd (vds_write example_kernel (hid_in_frame [1, 128]) example_waiting)) = []
    \<and> 7 \<in> set (hd_completed (snd (vds_write example_kernel (hid_in_frame [1, 128]) example_waiting)))"
proof -
  let ?c = "(fresh_context (example_urb Pipe_interrupt))\<lparr>uc_state := Urb_pending_hid_in\<rparr>"
  have "hd_pending_in example_waiting = [7]" "hd_contexts example_waiting 7 = Some ?c" "\<not> hd_stopping example_waiting"
    by (simp_all add: example_waiting_def hcd_start_def hcd_probe_def status_set_def)
  moreover have "ur_buffer (uc_urb ?c) = Some (replicate 64 0)" "ur_length (uc_urb ?c) = 64" "\<not> kn_fault example_kernel" "kn_memdup example_kernel = 0"
    by (simp_all add: fresh_context_def example_urb_def example_kernel_def)
  ultimately show ?thesis
    using input_report_reaches_host [OF example_waiting_ok, of "[1, 128]" example_kernel 7 "[]" ?c "replicate 64 0"] by simp
qed

subsection \<open>While nothing waits\<close>

definition keeps_report :: "hcd \<Rightarrow> bytes \<Rightarrow> hcd \<Rightarrow> bool" where
  "keeps_report dev report dev' \<longleftrightarrow> kernel_ok {} dev' \<and> hd_inputs dev' = [report] \<and> hd_pending_in dev' = [] \<and> \<not> hd_stopping dev'
     \<and> hd_contexts dev' = hd_contexts dev \<and> hd_usb dev' = hd_usb dev"

lemma write_keeps_report:
  assumes "kernel_ok {} dev" "hd_pending_in dev = []" "\<not> hd_stopping dev" "report \<noteq> []" "length report \<le> VDS_CONTROLLER_HID_PACKET_SIZE"
    and "\<not> kn_fault env" "kn_memdup env = 0" "kn_alloc env = (\<lambda>_. True)"
  shows "keeps_report dev report (snd (vds_write env (hid_in_frame report) dev))"
proof -
  have "kernel_ok {} (snd (vds_write env (hid_in_frame report) dev))" using assms(1) by (rule kernel_write)
  moreover have "length (hd_inputs dev) \<le> 1" using kernel_okD(3) [OF assms(1)] by (simp add: inputs_ok_def)
  then have "butlast (hd_inputs dev) = []" by (cases "hd_inputs dev") auto
  ultimately show ?thesis
    using assms by (simp add: keeps_report_def write_input_accepted write_input_frame_def allocate_def split: list.split)
qed

lemma writes_keep_newest:
  assumes "kernel_ok {} dev" "hd_pending_in dev = []" "\<not> hd_stopping dev" "reports \<noteq> []"
    and "\<forall>report \<in> set reports. report \<noteq> [] \<and> length report \<le> VDS_CONTROLLER_HID_PACKET_SIZE"
    and "\<not> kn_fault env" "kn_memdup env = 0" "kn_alloc env = (\<lambda>_. True)"
  shows "keeps_report dev (last reports) (kernel_run (map (\<lambda>report. (env, Write_frame (hid_in_frame report))) reports) dev)"
  using assms(1-5)
proof (induction reports arbitrary: dev)
  case (Cons report reports)
  let ?dev = "snd (vds_write env (hid_in_frame report) dev)"
  have kept: "keeps_report dev report ?dev" using Cons.prems assms(6,7,8) by (intro write_keeps_report) auto
  show ?case
  proof (cases "reports = []")
    case True
    then show ?thesis using kept by simp
  next
    case False
    then have "keeps_report ?dev (last reports) (kernel_run (map (\<lambda>report. (env, Write_frame (hid_in_frame report))) reports) ?dev)"
      using kept Cons.prems by (intro Cons.IH) (auto simp: keeps_report_def)
    then show ?thesis using kept False by (simp add: keeps_report_def)
  qed
qed simp

lemma run_append: "kernel_run (xs @ ys) dev = kernel_run ys (kernel_run xs dev)"
  by (induction xs dev rule: kernel_run.induct) simp_all

text \<open>
  C22. While no transfer waits, only the newest input report is kept, however many the daemon writes: the
  next interrupt transfer the host submits is done at once with exactly that report, none is kept
  afterwards, and nothing waits.
\<close>

theorem newest_report_taken:
  fixes i :: nat
  assumes "kernel_ok {} dev" and "hd_pending_in dev = []" and "\<not> hd_stopping dev" and "reports \<noteq> []"
    and "\<forall>report \<in> set reports. report \<noteq> [] \<and> length report \<le> VDS_CONTROLLER_HID_PACKET_SIZE"
    and "\<not> kn_fault env" and "kn_memdup env = 0" and "kn_alloc env = (\<lambda>_. True)" and "kn_link env = 0"
    and "ur_pipe u = Pipe_interrupt" and "ur_in u" and "is_hid_in (hd_usb dev) (ur_endpoint u)"
  defines "dev' \<equiv> kernel_run (map (\<lambda>report. (env, Write_frame (hid_in_frame report))) reports @ [(env, Submit i u)]) dev"
  shows "hd_inputs dev' = [] \<and> hd_pending_in dev' = [] \<and> i \<in> set (hd_completed dev')
    \<and> (\<exists>c. hd_contexts dev' i = Some c \<and> uc_urb c = fill_hid_in_urb (last reports) u \<and> uc_status c = 0
        \<and> uc_state c = Urb_pending_giveback \<and> kn_now env + 1000000 \<le> uc_ready c)"
proof -
  let ?kept = "kernel_run (map (\<lambda>report. (env, Write_frame (hid_in_frame report))) reports) dev"
  have "keeps_report dev (last reports) ?kept" using assms(1-8) by (rule writes_keep_newest)
  then show ?thesis
    using assms(7-12)
    by (auto simp: dev'_def run_append keeps_report_def urb_enqueue_def urb_link_def allocate_def urb_serve_def fresh_context_def
        interrupt_in_urb_def upd_urb_def upd_context_def schedule_hid_in_def queue_giveback_def Let_def)
qed

theorem newest_report_taken_witness:
  "\<exists>c. hd_contexts (kernel_run [(example_kernel, Write_frame (hid_in_frame [1, 2])), (example_kernel, Write_frame (hid_in_frame [1, 3])),
      (example_kernel, Submit 5 (example_urb Pipe_interrupt))] (hcd_start hcd_probe)) 5 = Some c
    \<and> uc_urb c = fill_hid_in_urb [1, 3] (example_urb Pipe_interrupt)"
proof -
  have "hd_pending_in (hcd_start hcd_probe) = []" "\<not> hd_stopping (hcd_start hcd_probe)"
    "is_hid_in (hd_usb (hcd_start hcd_probe)) (ur_endpoint (example_urb Pipe_interrupt))"
    by (simp_all add: hcd_start_def hcd_probe_def status_set_def is_hid_in_def device_profile_def profile_of_def example_urb_def
        usb_device_init_def reset_usb_state_def valid_profile_def dualsense_profile_def endpoint_number_def VDS_USB_HID_IN_ENDPOINT_def
        VDS_PROFILE_DS5_def VDS_PROFILE_DSE_def)
  moreover have "\<not> kn_fault example_kernel" "kn_memdup example_kernel = 0" "kn_alloc example_kernel = (\<lambda>_. True)" "kn_link example_kernel = 0"
    "ur_pipe (example_urb Pipe_interrupt) = Pipe_interrupt" "ur_in (example_urb Pipe_interrupt)"
    by (simp_all add: example_kernel_def example_urb_def)
  ultimately show ?thesis
    using newest_report_taken [OF kernel_start, of "[[1, 2], [1, 3]]" example_kernel "example_urb Pipe_interrupt" 5] by auto
qed

section \<open>Feature reports\<close>

definition reply_frame :: "bytes \<Rightarrow> bytes" where
  "reply_frame payload =
     header_bytes \<lparr>fh_type = FRAME_USB_FEATURE_REPLY, fh_flags = 0, fh_length = of_nat (length payload), fh_sequence = 0\<rparr> @ payload"

lemma reply_frame_sent:
  "length payload \<le> VDS_FRAME_MAX_PAYLOAD \<Longrightarrow> frame_bytes FRAME_USB_FEATURE_REPLY payload = Inr (reply_frame payload)"
  by (simp add: frame_bytes_def reply_frame_def Let_def)

text \<open>What a reply makes of a transfer that waits for it.\<close>

definition answered :: "bytes \<Rightarrow> urb_context \<Rightarrow> urb_context" where
  "answered payload c = c\<lparr>uc_urb := snd (copy_to_urb payload (uc_urb c)), uc_status := fst (copy_to_urb payload (uc_urb c)),
     uc_state := Urb_pending_giveback\<rparr>"

lemma fill_then_give:
  fixes payload :: bytes
  assumes "hd_contexts dev i = Some c" "uc_state c \<noteq> Urb_pending_giveback"
  defines "dev' \<equiv> snd (queue_giveback i (fst (fill_feature_urb payload i dev)) (snd (fill_feature_urb payload i dev)))"
  shows "hd_contexts dev' = (hd_contexts dev)(i \<mapsto> answered payload c)" "hd_pending_get dev' = removeAll i (hd_pending_get dev)"
    "hd_usb dev' = hd_usb dev" "hd_events dev' = hd_events dev"
  using assms(1,2)
  by (simp_all add: dev'_def fill_feature_urb_def queue_giveback_def upd_urb_def upd_context_def answered_def case_prod_beta)

lemma replies_complete:
  fixes payload :: bytes
  assumes "distinct ids" "\<forall>k \<in> set ids. \<exists>c. hd_contexts dev k = Some c \<and> uc_state c \<noteq> Urb_pending_giveback"
  defines "dev' \<equiv> snd (give_back_all (fill_feature_urb payload) ids dev)"
  shows "hd_contexts dev' k = (if k \<in> set ids then map_option (answered payload) (hd_contexts dev k) else hd_contexts dev k)"
    and "hd_pending_get dev' = filter (\<lambda>k. k \<notin> set ids) (hd_pending_get dev)" and "hd_usb dev' = hd_usb dev" and "hd_events dev' = hd_events dev"
proof -
  have "(\<forall>k. hd_contexts (snd (give_back_all (fill_feature_urb payload) ids dev)) k
        = (if k \<in> set ids then map_option (answered payload) (hd_contexts dev k) else hd_contexts dev k))
      \<and> hd_pending_get (snd (give_back_all (fill_feature_urb payload) ids dev)) = filter (\<lambda>k. k \<notin> set ids) (hd_pending_get dev)
      \<and> hd_usb (snd (give_back_all (fill_feature_urb payload) ids dev)) = hd_usb dev
      \<and> hd_events (snd (give_back_all (fill_feature_urb payload) ids dev)) = hd_events dev"
    using assms(1,2)
  proof (induction ids arbitrary: dev)
    case (Cons i ids)
    let ?dev = "snd (queue_giveback i (fst (fill_feature_urb payload i dev)) (snd (fill_feature_urb payload i dev)))"
    obtain c where c: "hd_contexts dev i = Some c" "uc_state c \<noteq> Urb_pending_giveback" using Cons.prems(2) by auto
    note step = fill_then_give [OF c, of payload]
    have "\<forall>k \<in> set ids. \<exists>c. hd_contexts ?dev k = Some c \<and> uc_state c \<noteq> Urb_pending_giveback"
      using Cons.prems step by auto
    from Cons.IH [OF _ this] show ?case
      using Cons.prems(1) step c
      by (auto simp del: give_back_all.simps simp: removeAll_filter_not_eq intro!: filter_cong)
  qed simp
  then show "hd_contexts dev' k = (if k \<in> set ids then map_option (answered payload) (hd_contexts dev k) else hd_contexts dev k)"
    "hd_pending_get dev' = filter (\<lambda>k. k \<notin> set ids) (hd_pending_get dev)" "hd_usb dev' = hd_usb dev" "hd_events dev' = hd_events dev"
    by (simp_all add: dev'_def)
qed

lemma write_reply_accepted:
  assumes "payload \<noteq> []" "length payload \<le> VDS_CONTROLLER_HID_PACKET_SIZE" "\<not> hd_stopping dev" "\<not> kn_fault env" "kn_memdup env = 0"
  shows "snd (vds_write env (reply_frame payload) dev)
    = (complete_feature_replies payload (dev\<lparr>hd_usb := snd (update_feature_reply payload (hd_usb dev))\<rparr>))
        \<lparr>hd_from_user := hd_from_user dev + 1\<rparr>"
  using assms
  by (simp add: vds_write_def reply_frame_def read_header_bytes VDS_FRAME_USB_HID_IN_def VDS_FRAME_USB_FEATURE_REPLY_def Let_def
      write_feature_reply_def update_feature_reply_def split: prod.split)

text \<open>
  A feature report from the daemon goes to every transfer that waits for its report id, and to no
  other: those are done with the report in their buffers, the rest of the transfers and their order in
  the queue stay, no frame is sent, and the device answers the report itself from then on.
\<close>

lemma reply_distributed:
  fixes payload :: bytes
  assumes "kernel_ok {} dev" and "payload \<noteq> []" and "length payload \<le> VDS_CONTROLLER_HID_PACKET_SIZE" and "\<not> hd_stopping dev"
    and "\<not> kn_fault env" and "kn_memdup env = 0"
  defines "dev' \<equiv> snd (vds_write env (reply_frame payload) dev)"
  defines "hit \<equiv> \<lambda>k. k \<in> set (hd_pending_get dev) \<and> waits_for (payload ! 0) dev k"
  shows "hd_contexts dev' = (\<lambda>k. if hit k then map_option (answered payload) (hd_contexts dev k) else hd_contexts dev k)
    \<and> hd_pending_get dev' = filter (\<lambda>k. \<not> hit k) (hd_pending_get dev) \<and> hd_events dev' = hd_events dev
    \<and> copy_cached_feature_report (hd_usb dev') (payload ! 0) u = copy_to_urb payload u"
proof -
  let ?dev = "dev\<lparr>hd_usb := snd (update_feature_reply payload (hd_usb dev))\<rparr>"
  let ?ids = "filter (waits_for (payload ! 0) ?dev) (hd_pending_get dev)"
  have queues: "queues_ok {} dev" and usb: "usb_ok (hd_usb dev)" using assms(1) by (simp_all add: kernel_okD)
  have waits: "waits_for (payload ! 0) ?dev = waits_for (payload ! 0) dev" by (simp add: waits_for_def fun_eq_iff)
  then have "set ?ids = {k. hit k}" by (auto simp: hit_def)
  moreover have "distinct ?ids" using queues by (simp add: queues_ok_def)
  moreover have "\<forall>k \<in> set ?ids. \<exists>c. hd_contexts ?dev k = Some c \<and> uc_state c \<noteq> Urb_pending_giveback"
    using queues by (auto simp: queues_ok_def in_state_def)
  ultimately have "hd_contexts dev' k = (if hit k then map_option (answered payload) (hd_contexts dev k) else hd_contexts dev k)"
    "hd_pending_get dev' = filter (\<lambda>k. \<not> hit k) (hd_pending_get dev)" "hd_events dev' = hd_events dev" "hd_usb dev' = hd_usb ?dev" for k
    using replies_complete [of ?ids ?dev payload] assms(2-6)
    by (simp_all add: dev'_def write_reply_accepted complete_feature_replies_def)
  moreover have "length (write_at 0 payload (ud_cache (hd_usb dev) (payload ! 0))) = VDS_CONTROLLER_HID_PACKET_SIZE"
    using usb assms(3) by (simp add: usb_ok_def write_at_def)
  ultimately show ?thesis
    using assms(2,3) by (simp add: copy_cached_feature_report_def update_feature_reply_def write_at_def Let_def fun_eq_iff)
qed

subsection \<open>From the request to the answer\<close>

text \<open>GET_REPORT for a feature report, at the interface of the reports.\<close>

definition feature_request :: "setup_packet \<Rightarrow> bool" where
  "feature_request su \<longleftrightarrow> su_request_type su = 0xa1 \<and> su_request su = 1 \<and> value_high su = 3 \<and> index_low su = 3"

lemma hid_interface [simp]: "up_hid_interface (device_profile d) = 3"
  by (simp add: device_profile_def profile_of_def dualsense_profile_def dualsense_edge_profile_def)

lemma feature_request_waits:
  fixes i :: nat
  assumes "\<not> hd_stopping dev" "kn_alloc env = (\<lambda>_. True)" "kn_link env = 0" "hd_event_count dev < kMaxEvents"
    and "ur_pipe u = Pipe_control" "ur_setup u = Some bs" "feature_request (read_setup bs)"
    and "ud_cache_len (hd_usb dev) (value_low (read_setup bs)) = 0"
  defines "dev' \<equiv> kernel_step env (Submit i u) dev"
  shows "hd_pending_get dev' = hd_pending_get dev @ [i]"
    and "hd_contexts dev' = (hd_contexts dev)(i \<mapsto> (fresh_context (u\<lparr>ur_actual := 0\<rparr>))
          \<lparr>uc_report := value_low (read_setup bs), uc_state := Urb_pending_feature_get\<rparr>)"
    and "hd_events dev' = hd_events dev @ [\<lparr>ev_header = \<lparr>fh_type = VDS_FRAME_USB_FEATURE_GET, fh_flags = 0, fh_length = 3,
          fh_sequence = hd_sequence dev\<rparr>, ev_payload = value_low (read_setup bs) # le_bytes 2 (su_length (read_setup bs))\<rparr>]"
    and "\<not> hd_stopping dev'" and "hd_usb dev' = hd_usb dev"
proof -
  have "length (le_bytes 2 w) = 2" for w :: u16 by simp
  then show "hd_pending_get dev' = hd_pending_get dev @ [i]"
    "hd_contexts dev' = (hd_contexts dev)(i \<mapsto> (fresh_context (u\<lparr>ur_actual := 0\<rparr>))
        \<lparr>uc_report := value_low (read_setup bs), uc_state := Urb_pending_feature_get\<rparr>)"
    "hd_events dev' = hd_events dev @ [\<lparr>ev_header = \<lparr>fh_type = VDS_FRAME_USB_FEATURE_GET, fh_flags = 0, fh_length = 3,
        fh_sequence = hd_sequence dev\<rparr>, ev_payload = value_low (read_setup bs) # le_bytes 2 (su_length (read_setup bs))\<rparr>]"
    "\<not> hd_stopping dev'" "hd_usb dev' = hd_usb dev"
    using assms(1-8)
    by (simp_all add: dev'_def urb_enqueue_def urb_link_def allocate_def urb_serve_def fresh_context_def control_urb_def hid_control_def
        feature_request_def get_feature_report_def copy_cached_feature_report_def hcd_ops_def defer_feature_get_def enqueue_frame_def
        upd_urb_def upd_context_def Let_def)
qed


definition example_request :: urb where
  "example_request = (example_urb Pipe_control)\<lparr>ur_endpoint := 0, ur_setup := Some [0xa1, 1, 0x05, 3, 3, 0, 41, 0]\<rparr>"


end
