(* ===== verification/KernelAudio.thy ===== *)
theory KernelAudio
  imports KernelLedger
begin

text \<open>
  The audio of both directions: the packets the host plays as frames for the daemon, and the
  microphone's frames as a stream of bytes the host's transfers are filled from.
\<close>

section \<open>Audio the host plays\<close>

definition packet_data :: "bytes \<Rightarrow> iso_frame \<Rightarrow> bytes" where
  "packet_data data d = take (id_length d) (drop (id_offset d) data)"

definition chunk_data :: "bytes \<Rightarrow> (nat \<times> nat) option \<Rightarrow> bytes" where
  "chunk_data data chunk = (case chunk of None \<Rightarrow> [] | Some (start, n) \<Rightarrow> take n (drop start data))"

text \<open>A device with room for so many frames more.\<close>

definition room_for :: "kernel_env \<Rightarrow> nat \<Rightarrow> hcd \<Rightarrow> bool" where
  "room_for env n dev \<longleftrightarrow> kn_alloc env = (\<lambda>_. True) \<and> \<not> hd_stopping dev \<and> hd_event_count dev + n \<le> kMaxEvents"

definition audio_event :: "hcd_event \<Rightarrow> bool" where
  "audio_event e \<longleftrightarrow> fh_type (ev_header e) = VDS_FRAME_USB_AUDIO_OUT \<and> length (ev_payload e) \<le> VDS_FRAME_MAX_PAYLOAD"

text \<open>\<open>dev'\<close> is \<open>dev\<close> with at most \<open>n\<close> audio frames more, which carry \<open>bs\<close>.\<close>

definition sends :: "nat \<Rightarrow> bytes \<Rightarrow> hcd \<Rightarrow> hcd \<Rightarrow> bool" where
  "sends n bs dev dev' \<longleftrightarrow> (\<exists>es. hd_events dev' = hd_events dev @ es \<and> concat (map ev_payload es) = bs \<and> length es \<le> n
     \<and> list_all audio_event es \<and> hd_event_count dev' = hd_event_count dev + length es \<and> hd_stopping dev' = hd_stopping dev)"

lemma sends_none: "sends n [] dev dev"
  by (simp add: sends_def)

lemma sends_then:
  assumes "sends n bs dev dev1" "sends m cs dev1 dev2"
  shows "sends (n + m) (bs @ cs) dev dev2"
  using assms unfolding sends_def by (elim exE conjE) (rule_tac x = "es @ esa" in exI, simp)

lemma send_chunk_sends:
  assumes "room_for env 1 dev" "case chunk of None \<Rightarrow> True | Some (start, n) \<Rightarrow> n \<le> VDS_FRAME_MAX_PAYLOAD"
  shows "sends 1 (chunk_data data chunk) dev (send_chunk env data chunk dev)"
  using assms
  by (auto simp: send_chunk_def chunk_data_def sends_def room_for_def enqueue_frame_def allocate_def audio_event_def split: option.splits)

lemma room_after: "sends n bs dev dev' \<Longrightarrow> room_for env (n + m) dev \<Longrightarrow> room_for env m dev'"
  by (auto simp: sends_def room_for_def)

lemma iso_out_sends:
  assumes "room_for env (1 + length ds) dev" "\<forall>d \<in> set ds. id_offset d + id_length d \<le> length data \<and> id_length d \<le> VDS_FRAME_MAX_PAYLOAD"
    and "case chunk of None \<Rightarrow> True | Some (start, n) \<Rightarrow> n \<le> VDS_FRAME_MAX_PAYLOAD \<and> start + n \<le> length data"
  shows "sends (1 + length ds) (chunk_data data chunk @ concat (map (packet_data data) ds)) dev (iso_out_loop env data ds chunk dev)"
  using assms
proof (induction ds arbitrary: chunk dev)
  case Nil
  then show ?case using send_chunk_sends [of env dev chunk data] by (auto split: option.splits)
next
  case (Cons d ds)
  have more: "sends (1 + length ds) bs a b \<Longrightarrow> sends (1 + length (d # ds)) bs a b" for bs a b
    by (fastforce simp: sends_def)
  have room: "room_for env (1 + length ds) dev" "room_for env 1 dev" using Cons.prems(1) by (simp_all add: room_for_def)
  have rest: "\<forall>d \<in> set ds. id_offset d + id_length d \<le> length data \<and> id_length d \<le> VDS_FRAME_MAX_PAYLOAD" using Cons.prems(2) by simp
  show ?case
  proof (cases "id_length d = 0")
    case True
    then have "packet_data data d = []" by (simp add: packet_data_def)
    then show ?thesis using True more [OF Cons.IH [OF room(1) rest Cons.prems(3)]] by simp
  next
    case False
    show ?thesis
    proof (cases chunk)
      case None
      then show ?thesis
        using False more [OF Cons.IH [OF room(1) rest, of "Some (id_offset d, id_length d)"]] Cons.prems(2)
        by (simp add: chunk_data_def packet_data_def)
    next
      case (Some se)
      obtain start n where se: "se = (start, n)" by (cases se)
      show ?thesis
      proof (cases "id_offset d = start + n \<and> n + id_length d \<le> VDS_FRAME_MAX_PAYLOAD")
        case True
        then have "chunk_data data (Some (start, n + id_length d)) = chunk_data data chunk @ packet_data data d"
          using Some se by (simp add: chunk_data_def packet_data_def take_add add.commute)
        then show ?thesis
          using False True Some se more [OF Cons.IH [OF room(1) rest, of "Some (start, n + id_length d)"]] Cons.prems(2)
          by simp
      next
        case break: False
        let ?dev = "send_chunk env data chunk dev"
        have sent: "sends 1 (chunk_data data chunk) dev ?dev"
          using send_chunk_sends [OF room(2), of chunk data] Cons.prems(3) Some se by simp
        have "room_for env (1 + length ds) ?dev"
          using room_after [OF sent, of env "1 + length ds"] Cons.prems(1) by simp
        from Cons.IH [OF this rest, of "Some (id_offset d, id_length d)"]
        have "sends (1 + length ds) (packet_data data d @ concat (map (packet_data data) ds)) ?dev
            (iso_out_loop env data ds (Some (id_offset d, id_length d)) ?dev)"
          using Cons.prems(2) by (simp add: chunk_data_def packet_data_def [of data d])
        from sends_then [OF sent this] show ?thesis
          using False break Some se by auto
      qed
    qed
  qed
qed

text \<open>
  C9. A transfer the host plays reaches the daemon byte by byte: the frames it adds carry exactly the data
  of its valid packets, in order and nothing else, however neighbouring packets are joined; no frame
  is over the size of a frame; invalid packets are marked and counted.
\<close>

theorem played_audio_reaches_daemon:
  assumes "ur_buffer u = Some data" and "ur_length u \<le> length data" and "room_for env (1 + length (ur_frames u)) dev"
    and "\<forall>d \<in> set (ur_frames u). id_length d \<le> VDS_FRAME_MAX_PAYLOAD"
  defines "valid \<equiv> filter (frame_fits u) (ur_frames u)"
  shows "\<exists>u' dev' es. iso_out_urb env u dev = (0, u', dev') \<and> hd_events dev' = hd_events dev @ es
    \<and> concat (map ev_payload es) = concat (map (packet_data data) valid) \<and> list_all audio_event es
    \<and> ur_errors u' + length valid = length (ur_frames u) \<and> ur_actual u' = length (concat (map ev_payload es))
    \<and> list_all2 (\<lambda>d d'. id_status d' = (if frame_fits u d then 0 else - EOVERFLOW)
        \<and> id_actual d' = (if frame_fits u d then id_length d else 0)) (ur_frames u) (ur_frames u')"
proof -
  let ?dev = "iso_out_loop env data valid None dev"
  have fits: "id_offset d + id_length d \<le> length data" if "d \<in> set valid" for d
    using that assms(2) by (auto simp: valid_def frame_fits_def)
  have "length valid \<le> length (ur_frames u)" by (simp add: valid_def)
  then have "room_for env (1 + length valid) dev" using assms(3) by (simp add: room_for_def)
  then have "sends (1 + length valid) (concat (map (packet_data data) valid)) dev ?dev"
    using iso_out_sends [of env valid dev data None] fits assms(4) by (auto simp: chunk_data_def valid_def)
  then obtain es where es: "hd_events ?dev = hd_events dev @ es" "concat (map ev_payload es) = concat (map (packet_data data) valid)"
    "list_all audio_event es" by (auto simp: sends_def)
  have "length (packet_data data d) = id_length d" if "d \<in> set valid" for d
    using fits [OF that] by (simp add: packet_data_def)
  then have "map (length \<circ> packet_data data) valid = map id_length valid" by simp
  then have "sum_list (map id_length valid) = length (concat (map ev_payload es))"
    by (simp add: es(2) length_concat del: map_eq_conv)
  moreover have "count_errors u + length valid = length (ur_frames u)"
    using sum_length_filter_compl [of "frame_fits u" "ur_frames u"] by (simp add: count_errors_def valid_def)
  moreover have "list_all2 (\<lambda>d d'. id_status d' = (if frame_fits u d then 0 else - EOVERFLOW)
      \<and> id_actual d' = (if frame_fits u d then id_length d else 0)) (ur_frames u) (deliver_frames u)"
    by (simp add: deliver_frames_def overflow_frame_def list_all2_map2 list_all2_same)
  ultimately show ?thesis using es assms(1) by (simp add: iso_out_urb_def valid_def)
qed

definition example_packets :: urb where
  "example_packets = (example_urb Pipe_isochronous)\<lparr>ur_in := False, ur_endpoint := 1, ur_buffer := Some [1, 2, 3, 4, 5, 6], ur_length := 6,
     ur_frames := map (\<lambda>(start, n). \<lparr>id_offset = start, id_length = n, id_actual = 0, id_status = 0\<rparr>) [(0, 2), (2, 2), (5, 3), (4, 1)]\<rparr>"

theorem played_audio_reaches_daemon_witness:
  "\<exists>u' dev' es. iso_out_urb example_kernel example_packets (hcd_start hcd_probe) = (0, u', dev')
    \<and> hd_events dev' = es \<and> concat (map ev_payload es) = [1, 2, 3, 4, 5] \<and> ur_actual u' = 5"
proof -
  have "ur_buffer example_packets = Some [1, 2, 3, 4, 5, 6]" "ur_length example_packets \<le> length [1, 2, 3, 4, 5, 6]"
    "\<forall>d \<in> set (ur_frames example_packets). id_length d \<le> VDS_FRAME_MAX_PAYLOAD"
    "room_for example_kernel (1 + length (ur_frames example_packets)) (hcd_start hcd_probe)"
    by (simp_all add: example_packets_def room_for_def example_kernel_def hcd_start_def hcd_probe_def status_set_def)
  from played_audio_reaches_daemon [OF this(1,2,4,3)]
  have "\<exists>u' dev' es. iso_out_urb example_kernel example_packets (hcd_start hcd_probe) = (0, u', dev')
      \<and> hd_events dev' = hd_events (hcd_start hcd_probe) @ es
      \<and> concat (map ev_payload es) = concat (map (packet_data [1, 2, 3, 4, 5, 6]) (filter (frame_fits example_packets) (ur_frames example_packets)))
      \<and> ur_actual u' = length (concat (map ev_payload es))"
    by blast
  moreover have "concat (map (packet_data [1, 2, 3, 4, 5, 6]) (filter (frame_fits example_packets) (ur_frames example_packets))) = [1, 2, 3, 4, 5]"
    "hd_events (hcd_start hcd_probe) = []"
    by (simp_all add: example_packets_def frame_fits_def packet_data_def hcd_start_def hcd_probe_def status_set_def)
  ultimately show ?thesis by force
qed

section \<open>Audio the microphone records\<close>

text \<open>What a transfer's packets hold after it was filled.\<close>

definition frames_data :: "bytes \<Rightarrow> iso_frame list \<Rightarrow> bytes" where
  "frames_data data ds = concat (map (\<lambda>d. take (id_actual d) (drop (id_offset d) data)) ds)"

text \<open>Packets one after the other, from an offset on, inside the buffer.\<close>

fun apart :: "nat \<Rightarrow> nat \<Rightarrow> iso_frame list \<Rightarrow> bool" where
  "apart from n [] \<longleftrightarrow> True"
| "apart from n (d # ds) \<longleftrightarrow> from \<le> id_offset d \<and> id_offset d + id_length d \<le> n \<and> apart (id_offset d + id_length d) n ds"

abbreviation stream :: "hcd \<Rightarrow> bytes" where "stream dev \<equiv> audio_bytes (hd_audio dev)"

definition wanted :: "iso_frame \<Rightarrow> nat" where
  "wanted d = min (id_length d) VDS_AUDIO_IN_BYTES_PER_MS"

definition padded :: "nat \<Rightarrow> bytes \<Rightarrow> bytes" where
  "padded n bs = take n bs @ replicate (n - length bs) 0"

lemma padded_add: "padded n bs @ padded m (drop n bs) = padded (n + m) bs"
proof (cases "n \<le> length bs")
  case True
  then show ?thesis by (simp add: padded_def take_add)
next
  case False
  then show ?thesis by (simp add: padded_def replicate_add [symmetric])
qed

lemma length_padded [simp]: "length (padded n bs) = n"
  by (simp add: padded_def)

lemma fill_audio_padded:
  assumes "audio_ok dev"
  shows "fst (fill_audio_in n dev) = padded n (stream dev)" "stream (snd (fill_audio_in n dev)) = drop n (stream dev)"
  using take_audio_stream [of "hd_audio dev" n] assms by (auto simp: fill_audio_in_def audio_ok_def padded_def split: prod.split)

lemma take_shorter: "take m xs = take m ys \<Longrightarrow> k \<le> m \<Longrightarrow> take k xs = take k ys"
  by (metis min.absorb1 take_take)

text \<open>Filling packets leaves the bytes before the first one alone, and the buffer its size.\<close>

lemma iso_in_data:
  "fst (snd (iso_in_loop u (d # ds) data dev)) =
    (if frame_fits u d
     then fst (snd (iso_in_loop u ds (write_at (id_offset d) (fst (fill_audio_in (wanted d) dev)) data) (snd (fill_audio_in (wanted d) dev))))
     else fst (snd (iso_in_loop u ds data dev)))"
  by (simp add: Let_def wanted_def case_prod_beta)

lemma iso_in_keeps:
  "apart from n ds \<Longrightarrow> n \<le> length data \<Longrightarrow> audio_ok dev \<Longrightarrow>
    take from (fst (snd (iso_in_loop u ds data dev))) = take from data \<and> length (fst (snd (iso_in_loop u ds data dev))) = length data"
proof (induction ds arbitrary: "from" data dev)
  case (Cons d ds)
  let ?bs = "fst (fill_audio_in (wanted d) dev)" and ?dev = "snd (fill_audio_in (wanted d) dev)"
  let ?data = "write_at (id_offset d) ?bs data" and ?next = "id_offset d + id_length d"
  have bs: "length ?bs = wanted d" using Cons.prems(3) by (simp add: fill_audio_padded)
  have ends: "from \<le> id_offset d" "?next \<le> n" "apart ?next n ds" "wanted d \<le> id_length d"
    using Cons.prems(1) by (simp_all add: wanted_def)
  have data: "length ?data = length data" "take from ?data = take from data"
    using bs ends Cons.prems(2) by (simp_all add: write_at_def)
  have skip: "take ?next (fst (snd (iso_in_loop u ds data dev))) = take ?next data \<and> length (fst (snd (iso_in_loop u ds data dev))) = length data"
    by (rule Cons.IH [OF ends(3) Cons.prems(2,3)])
  have filled: "take ?next (fst (snd (iso_in_loop u ds ?data ?dev))) = take ?next ?data \<and> length (fst (snd (iso_in_loop u ds ?data ?dev))) = length ?data"
    by (rule Cons.IH [OF ends(3)]) (simp_all add: data(1) Cons.prems(2,3) audio_ok_fill)
  show ?case
  proof (cases "frame_fits u d")
    case True
    then show ?thesis
      using take_shorter [OF filled [THEN conjunct1], of "from"] filled data ends(1) by (simp only: iso_in_data if_True)
  next
    case False
    then show ?thesis
      using take_shorter [OF skip [THEN conjunct1], of "from"] skip ends(1) by (simp only: iso_in_data if_False)
  qed
qed simp

lemma iso_in_stream:
  assumes "audio_ok dev" "apart from n ds" "n \<le> length data" "\<forall>d \<in> set ds. frame_fits u d"
  defines "out \<equiv> iso_in_loop u ds data dev" and "total_bytes \<equiv> sum_list (map wanted ds)"
  shows "frames_data (fst (snd out)) (fst out) = padded total_bytes (stream dev)"
    and "stream (snd (snd out)) = drop total_bytes (stream dev)"
    and "map id_actual (fst out) = map wanted ds" and "\<forall>d \<in> set (fst out). id_status d = 0"
proof -
  have "frames_data (fst (snd (iso_in_loop u ds data dev))) (fst (iso_in_loop u ds data dev)) = padded (sum_list (map wanted ds)) (stream dev)
      \<and> stream (snd (snd (iso_in_loop u ds data dev))) = drop (sum_list (map wanted ds)) (stream dev)
      \<and> map id_actual (fst (iso_in_loop u ds data dev)) = map wanted ds
      \<and> (\<forall>d \<in> set (fst (iso_in_loop u ds data dev)). id_status d = 0)"
    using assms(1-4)
  proof (induction ds arbitrary: "from" data dev)
    case Nil
    then show ?case by (simp add: frames_data_def padded_def)
  next
    case (Cons d ds)
    let ?bs = "fst (fill_audio_in (wanted d) dev)" and ?dev = "snd (fill_audio_in (wanted d) dev)"
    let ?data = "write_at (id_offset d) ?bs data" and ?next = "id_offset d + id_length d"
    let ?rest = "iso_in_loop u ds ?data ?dev"
    have bs: "?bs = padded (wanted d) (stream dev)" "stream ?dev = drop (wanted d) (stream dev)"
      using Cons.prems(1) by (simp_all add: fill_audio_padded)
    have ok: "audio_ok ?dev" using Cons.prems(1) by (rule audio_ok_fill)
    have ends: "apart ?next n ds" "?next \<le> n" "wanted d \<le> id_length d" using Cons.prems(2) by (simp_all add: wanted_def)
    have size: "length ?data = length data" using ends Cons.prems(3) by (simp add: write_at_def bs(1))
    have "take (wanted d) (drop (id_offset d) ?data) = ?bs"
      using take_drop_write_at [of "id_offset d" ?bs data] ends Cons.prems(3) by (simp add: bs(1))
    moreover have "take ?next (fst (snd ?rest)) = take ?next ?data"
      using iso_in_keeps [OF ends(1), of ?data ?dev u] ok size Cons.prems(3) by simp
    then have "take (id_offset d + wanted d) (fst (snd ?rest)) = take (id_offset d + wanted d) ?data"
      by (rule take_shorter) (simp add: ends(3))
    then have "take (wanted d) (drop (id_offset d) (fst (snd ?rest))) = take (wanted d) (drop (id_offset d) ?data)"
      by (simp only: take_drop add.commute)
    ultimately have first: "take (wanted d) (drop (id_offset d) (fst (snd ?rest))) = padded (wanted d) (stream dev)"
      by (simp add: bs(1))
    have step: "iso_in_loop u (d # ds) data dev = (d\<lparr>id_status := 0, id_actual := wanted d\<rparr> # fst ?rest, fst (snd ?rest), snd (snd ?rest))"
      using Cons.prems(4) by (simp add: Let_def wanted_def case_prod_beta)
    have "frames_data (fst (snd ?rest)) (fst ?rest) = padded (sum_list (map wanted ds)) (stream ?dev)
        \<and> stream (snd (snd ?rest)) = drop (sum_list (map wanted ds)) (stream ?dev)
        \<and> map id_actual (fst ?rest) = map wanted ds \<and> (\<forall>d \<in> set (fst ?rest). id_status d = 0)"
      by (rule Cons.IH [OF ok ends(1)]) (simp_all add: size Cons.prems(3,4) del: apart.simps)
    then show ?case
      unfolding step fst_conv snd_conv
      using padded_add [of "wanted d" "stream dev" "sum_list (map wanted ds)"]
      by (simp add: frames_data_def first bs(2) add.commute)
  qed
  then show "frames_data (fst (snd out)) (fst out) = padded total_bytes (stream dev)" "stream (snd (snd out)) = drop total_bytes (stream dev)"
    "map id_actual (fst out) = map wanted ds" "\<forall>d \<in> set (fst out). id_status d = 0"
    by (simp_all add: out_def total_bytes_def)
qed

subsection \<open>From the daemon to the host\<close>

definition audio_in_frame :: "bytes \<Rightarrow> bytes" where
  "audio_in_frame payload =
     header_bytes \<lparr>fh_type = VDS_FRAME_USB_AUDIO_IN, fh_flags = 0, fh_length = of_nat (length payload), fh_sequence = 0\<rparr> @ payload"

lemma make_room_free: "q + n \<le> VDS_AUDIO_IN_QUEUE_MAX_BYTES \<Longrightarrow> make_room n ps q = (ps, q)"
  by (cases ps) simp_all

text \<open>One frame: the stream grows at its end, and loses whole packets at its front only when it is full.\<close>

lemma write_audio_stream:
  assumes "kernel_ok {} dev" "\<not> hd_stopping dev" "kn_alloc env = (\<lambda>_. True)" "\<not> kn_fault env" "kn_memdup env = 0" "payload \<noteq> []"
    and "length payload \<le> VDS_FRAME_MAX_PAYLOAD"
  defines "dev' \<equiv> snd (vds_write env (audio_in_frame payload) dev)"
  shows "\<exists>kept. suffix kept (hd_audio dev) \<and> stream dev' = audio_bytes kept @ payload
      \<and> (length (stream dev) + length payload \<le> VDS_AUDIO_IN_QUEUE_MAX_BYTES \<longrightarrow> kept = hd_audio dev)"
    and "\<not> hd_stopping dev'" and "kernel_ok {} dev'"
proof -
  have audio: "audio_ok dev" using assms(1) by (rule kernel_okD)
  have header: "length (header_bytes h) = 16" for h by (simp add: header_bytes_def)
  have size: "unat (of_nat (length payload) :: u32) = length payload" using assms(7) by (simp add: unat_of_nat take_bit_nat_eq_self)
  have dev': "dev' = snd (write_audio_in_frame env payload dev)"
    using assms(2,4,5,6,7)
    by (simp add: dev'_def vds_write_def audio_in_frame_def read_header_bytes header size Let_def VDS_FRAME_USB_HID_IN_def
        VDS_FRAME_USB_FEATURE_REPLY_def VDS_FRAME_USB_AUDIO_IN_def case_prod_beta)
  let ?kept = "fst (make_room (length payload) (hd_audio dev) (hd_audio_bytes dev))"
  have "suffix ?kept (hd_audio dev)"
    using make_room_ok(1) [of "hd_audio dev" "hd_audio_bytes dev" "length payload"] audio assms(7) by (simp add: audio_ok_def)
  moreover have "stream dev' = audio_bytes ?kept @ payload"
    using assms(2,3,6) by (simp add: dev' write_audio_in_frame_def allocate_def packet_bytes_def case_prod_beta)
  moreover have "length (stream dev) + length payload \<le> VDS_AUDIO_IN_QUEUE_MAX_BYTES \<longrightarrow> ?kept = hd_audio dev"
    using audio by (simp add: audio_ok_def make_room_free)
  ultimately show "\<exists>kept. suffix kept (hd_audio dev) \<and> stream dev' = audio_bytes kept @ payload
      \<and> (length (stream dev) + length payload \<le> VDS_AUDIO_IN_QUEUE_MAX_BYTES \<longrightarrow> kept = hd_audio dev)" by blast
  show "\<not> hd_stopping dev'" using assms(2,3,6) by (simp add: dev' write_audio_in_frame_def allocate_def case_prod_beta)
  show "kernel_ok {} dev'" unfolding dev'_def using assms(1) by (rule kernel_write)
qed

lemma writes_stream:
  assumes "kernel_ok {} dev" "\<not> hd_stopping dev" "kn_alloc env = (\<lambda>_. True)" "\<not> kn_fault env" and "kn_memdup env = 0"
    and "\<forall>payload \<in> set payloads. payload \<noteq> [] \<and> length payload \<le> VDS_FRAME_MAX_PAYLOAD"
    and "length (stream dev) + length (concat payloads) \<le> VDS_AUDIO_IN_QUEUE_MAX_BYTES"
  shows "kernel_ok {} (kernel_run (map (\<lambda>payload. (env, Write_frame (audio_in_frame payload))) payloads) dev)
    \<and> stream (kernel_run (map (\<lambda>payload. (env, Write_frame (audio_in_frame payload))) payloads) dev) = stream dev @ concat payloads"
  using assms(1,2,6,7)
proof (induction payloads arbitrary: dev)
  case (Cons payload payloads)
  let ?dev = "snd (vds_write env (audio_in_frame payload) dev)"
  have "payload \<noteq> []" "length payload \<le> VDS_FRAME_MAX_PAYLOAD" using Cons.prems(3) by simp_all
  note step = write_audio_stream [OF Cons.prems(1,2) assms(3,4,5) this]
  then have "stream ?dev = stream dev @ payload" using Cons.prems(4) by auto
  then show ?case
    using Cons.IH [OF step(3,2)] Cons.prems(3,4) by simp
qed simp

text \<open>
  C8. What the daemon writes for the microphone reaches the host as one stream of bytes: after any frames
  that fit into the queue, a transfer whose packets lie one after the other in its buffer gets, over its
  packets in order, the bytes that were queued before and then those of the frames, and zeros after
  their end; the bytes it took are gone and the others wait for the next transfer.
\<close>

theorem recorded_audio_reaches_host:
  assumes "kernel_ok {} dev" and "\<not> hd_stopping dev" and "kn_alloc env = (\<lambda>_. True)" and "\<not> kn_fault env" and "kn_memdup env = 0"
    and "\<forall>payload \<in> set payloads. payload \<noteq> [] \<and> length payload \<le> VDS_FRAME_MAX_PAYLOAD"
    and "length (stream dev) + length (concat payloads) \<le> VDS_AUDIO_IN_QUEUE_MAX_BYTES"
    and "ur_buffer u = Some buffer" and "apart 0 (ur_length u) (ur_frames u)" and "ur_length u \<le> length buffer"
  defines "written \<equiv> kernel_run (map (\<lambda>payload. (env, Write_frame (audio_in_frame payload))) payloads) dev"
    and "wants \<equiv> sum_list (map wanted (ur_frames u))"
  shows "\<exists>u' dev' data. iso_in_urb u written = (0, u', dev') \<and> ur_buffer u' = Some data
    \<and> frames_data data (ur_frames u') = padded wants (stream dev @ concat payloads)
    \<and> stream dev' = drop wants (stream dev @ concat payloads) \<and> ur_actual u' = wants \<and> ur_errors u' = 0"
proof -
  have fit: "\<forall>d \<in> set ds. frame_fits u d" if "apart from (ur_length u) ds" for "from" ds
    using that by (induction ds arbitrary: "from") (auto simp: frame_fits_def)
  have written: "kernel_ok {} written" "stream written = stream dev @ concat payloads"
    using writes_stream [OF assms(1-7)] by (simp_all add: written_def)
  let ?out = "iso_in_loop u (ur_frames u) buffer written"
  note stream = iso_in_stream [OF kernel_okD(4) [OF written(1)] assms(9,10) fit [OF assms(9)]]
  have "count_errors u = 0" using fit [OF assms(9)] by (simp add: count_errors_def filter_empty_conv)
  then have "iso_in_urb u written = (0, u\<lparr>ur_frames := fst ?out, ur_errors := 0, ur_buffer := Some (fst (snd ?out)),
      ur_actual := wants\<rparr>, snd (snd ?out))"
    using stream(3) assms(8) by (simp add: iso_in_urb_def case_prod_beta wants_def)
  then show ?thesis using stream(1,2) written(2) by (simp add: wants_def)
qed

theorem recorded_audio_reaches_host_witness:
  "\<exists>u' dev' data. iso_in_urb (example_packets\<lparr>ur_frames := take 2 (ur_frames example_packets)\<rparr>)
      (kernel_run [(example_kernel, Write_frame (audio_in_frame [7, 8, 9]))] (hcd_start hcd_probe)) = (0, u', dev')
    \<and> ur_buffer u' = Some data \<and> frames_data data (ur_frames u') = [7, 8, 9, 0] \<and> stream dev' = []"
proof -
  let ?u = "example_packets\<lparr>ur_frames := take 2 (ur_frames example_packets)\<rparr>"
  have "\<not> hd_stopping (hcd_start hcd_probe)" "stream (hcd_start hcd_probe) = []"
    by (simp_all add: hcd_start_def hcd_probe_def status_set_def)
  moreover have "kn_alloc example_kernel = (\<lambda>_. True)" "\<not> kn_fault example_kernel" "kn_memdup example_kernel = 0"
    by (simp_all add: example_kernel_def)
  moreover have "ur_buffer ?u = Some [1, 2, 3, 4, 5, 6]" "apart 0 (ur_length ?u) (ur_frames ?u)" "ur_length ?u \<le> length [1, 2, 3, 4, 5, 6]"
    "sum_list (map wanted (ur_frames ?u)) = 4"
    by (simp_all add: example_packets_def wanted_def)
  ultimately show ?thesis
    using recorded_audio_reaches_host [OF kernel_start, of example_kernel "[[7, 8, 9]]" ?u "[1, 2, 3, 4, 5, 6]"]
    by (simp add: padded_def) blast
qed

section \<open>The pace of the audio\<close>

text \<open>An isochronous transfer the host plays, in an environment that lets it be submitted.\<close>

definition plays :: "hcd \<Rightarrow> kernel_env \<times> nat \<times> urb \<Rightarrow> bool" where
  "plays dev = (\<lambda>(env, i, u). kn_alloc env (hd_allocs dev) \<and> kn_link env = 0 \<and> ur_pipe u = Pipe_isochronous \<and> \<not> ur_in u
     \<and> is_audio_out (hd_usb dev) (ur_endpoint u) \<and> ur_buffer u \<noteq> None)"

definition submit_all :: "(kernel_env \<times> nat \<times> urb) list \<Rightarrow> (kernel_env \<times> kcall) list" where
  "submit_all = map (\<lambda>(env, i, u). (env, Submit i u))"

definition urb_bytes :: "urb \<Rightarrow> nat" where
  "urb_bytes u = sum_list (map id_length (ur_frames u))"

lemma duration_bounds: "1000 \<le> iso_duration_us u False" "1000 * urb_bytes u \<le> VDS_AUDIO_OUT_BYTES_PER_MS * iso_duration_us u False"
proof -
  have up: "b * 1000 \<le> 384 * ((b * 1000 + 383) div 384)" for b :: nat
    using div_mult_mod_eq [of "b * 1000 + 383" 384] mod_less_divisor [of 384 "b * 1000 + 383"] by linarith
  show "1000 * urb_bytes u \<le> VDS_AUDIO_OUT_BYTES_PER_MS * iso_duration_us u False"
  proof (cases "urb_bytes u = 0")
    case False
    then have "iso_duration_us u False = max ((urb_bytes u * 1000 + 383) div 384) 1000"
      by (auto simp: iso_duration_us_def urb_bytes_def Let_def add.commute)
    then show ?thesis using up [of "urb_bytes u"] by linarith
  qed simp
  show "1000 \<le> iso_duration_us u False" by (auto simp: iso_duration_us_def Let_def)
qed

lemma play_submit:
  assumes "plays dev (env, i, u)" "\<not> hd_stopping dev"
  defines "dev' \<equiv> kernel_step env (Submit i u) dev"
  shows "hd_next_out dev + int (iso_duration_us u False) * 1000 \<le> hd_next_out dev'"
    and "\<exists>c. hd_contexts dev' i = Some c \<and> uc_ready c = hd_next_out dev' \<and> uc_status c = 0 \<and> uc_state c = Urb_pending_giveback"
    and "\<not> hd_stopping dev'" "hd_usb dev' = hd_usb dev" "hd_allocs dev' = hd_allocs dev + 1"
  using assms(1,2)
  by (auto simp: dev'_def plays_def urb_enqueue_def urb_link_def allocate_def urb_serve_def fresh_context_def serve_iso_urb_def
      schedule_iso_def upd_context_def queue_giveback_def Let_def)



end
