(* ===== verification/KernelUnlink.thy ===== *)
theory KernelUnlink
  imports KernelLedger
begin

text \<open>
  Two statements on the edges of the kernel module: the descriptors it serves are those of the USB/IP
  server, and cancelling a transfer that is only half submitted breaks the queues.
\<close>

section \<open>The same descriptors on both systems\<close>

lemma copy_to_urb_whole:
  assumes "ur_buffer u = Some buffer" "ur_length u \<le> length buffer"
  shows "\<exists>u'. copy_to_urb bs u = (0, u') \<and> ur_actual u' = min (length bs) (ur_length u)
    \<and> map_option (take (ur_actual u')) (ur_buffer u') = Some (take (ur_length u) bs)"
  using assms by (auto simp: copy_to_urb_def write_at_def Let_def min_def)

lemma two_bytes: "le_bytes 2 w = [ucast w, ucast (drop_bit 8 w)]"
  by (simp add: le_bytes_def upt_rec)

lemma device_descriptors_agree:
  assumes "valid_profile profile"
  shows "device_descriptor (profile_of profile) = pd_device (descriptors_for_profile profile)"
    and "up_configuration (profile_of profile) = pd_config (descriptors_for_profile profile)"
    and "up_hid (profile_of profile) = pd_hid (descriptors_for_profile profile)"
    and "up_hid_report (profile_of profile) = pd_hid_report (descriptors_for_profile profile)"
  using assms
  by (auto simp: valid_profile_def device_descriptor_def profile_of_def descriptors_for_profile_def dualsense_profile_def
      dualsense_edge_profile_def vds_ds5_usb_device_descriptor_def vds_dse_usb_device_descriptor_def VDS_USB_DEVICE_BCD_def
      VDS_USB_NUM_CONFIGURATIONS_def VDS_PROFILE_DS5_def VDS_PROFILE_DSE_def two_bytes)

lemma strings_agree:
  assumes "valid_profile profile"
  shows "copy_string_descriptor None u = copy_to_urb (string_descriptor profile 0) u"
    and "copy_string_descriptor (Some (up_manufacturer (profile_of profile))) u = copy_to_urb (string_descriptor profile 1) u"
    and "copy_string_descriptor (Some (up_product (profile_of profile))) u = copy_to_urb (string_descriptor profile 2) u"
  using assms
  by (auto simp: valid_profile_def copy_string_descriptor_def string_descriptor_def build_langid_descriptor_def build_string_descriptor_def
      profile_of_def dualsense_profile_def dualsense_edge_profile_def VDS_USB_MANUFACTURER_STRING_def VDS_DS5_USB_PRODUCT_STRING_def
      VDS_DSE_USB_PRODUCT_STRING_def VDS_PROFILE_DS5_def VDS_PROFILE_DSE_def code_of_def Let_def)

text \<open>
  C25. The kernel module and the USB/IP server of the Windows daemon describe the same device: for every
  descriptor both know and every length the host asks for, the bytes in the host's buffer on Linux
  are the bytes of the answer on Windows.
\<close>

theorem descriptors_agree:
  assumes "valid_profile (ud_profile d)" and "value_high su \<in> {1, 2, 3, 0x21, 0x22}"
    and "value_high su = 3 \<Longrightarrow> value_low su \<in> {0, 1, 2}" and "value_high su \<in> {0x21, 0x22} \<Longrightarrow> index_low su = 3"
    and "ur_buffer u = Some buffer" and "ur_length u = unat (su_length su)" and "ur_length u \<le> length buffer"
  shows "\<exists>u'. usb_get_descriptor su u d = (0, u') \<and> ur_actual u' = length (get_descriptor (ud_profile d) su)
    \<and> map_option (take (ur_actual u')) (ur_buffer u') = Some (get_descriptor (ud_profile d) su)"
proof -
  have hid: "up_hid_interface (device_profile d) = 3"
    by (simp add: device_profile_def profile_of_def dualsense_profile_def dualsense_edge_profile_def)
  have "\<exists>bs. get_descriptor (ud_profile d) su = take (ur_length u) bs \<and> usb_get_descriptor su u d = copy_to_urb bs u"
    using assms(2-4,6) device_descriptors_agree [OF assms(1)] strings_agree [OF assms(1), of u]
    by (auto simp: get_descriptor_def usb_get_descriptor_def Let_def hid device_profile_def [symmetric])
  then obtain bs where bs: "get_descriptor (ud_profile d) su = take (ur_length u) bs" "usb_get_descriptor su u d = copy_to_urb bs u" by blast
  show ?thesis using copy_to_urb_whole [OF assms(5,7), of bs] by (auto simp: bs min.commute)
qed

theorem descriptors_agree_witness:
  "\<exists>u'. usb_get_descriptor (read_setup [0x80, 6, 2, 3, 0x09, 0x04, 64, 0]) (example_urb Pipe_control) (usb_device_init VDS_PROFILE_DSE) = (0, u')
    \<and> map_option (take (ur_actual u')) (ur_buffer u')
      = Some (get_descriptor VDS_PROFILE_DSE (read_setup [0x80, 6, 2, 3, 0x09, 0x04, 64, 0]))"
proof -
  let ?su = "read_setup [0x80, 6, 2, 3, 0x09, 0x04, 64, 0]"
  have "value_high ?su = 3" "value_low ?su = 2" "su_length ?su = 64"
    by (simp_all add: read_setup_def value_high_def value_low_def le_value_def)
  moreover have "ud_profile (usb_device_init VDS_PROFILE_DSE) = VDS_PROFILE_DSE"
    by (simp add: usb_device_init_def reset_usb_state_def valid_profile_def)
  moreover have "ur_buffer (example_urb Pipe_control) = Some (replicate 64 0)" "ur_length (example_urb Pipe_control) = 64"
    by (simp_all add: example_urb_def)
  ultimately show ?thesis
    using descriptors_agree [of "usb_device_init VDS_PROFILE_DSE" ?su "example_urb Pipe_control" "replicate 64 0"]
    by (auto simp: valid_profile_def)
qed

section \<open>A transfer cancelled while it is submitted\<close>

text \<open>
  C26. \<open>vds_urb_enqueue\<close> releases the lock between linking a transfer and serving it. When the USB core
  cancels an interrupt transfer in that moment, it is queued to be given back and afterwards put into
  the queue of waiting transfers as well, with a state that says it waits: one list node in two lists,
  one of which the thread frees. Whatever device it is, and whatever the cancelling status.
\<close>

theorem cancel_between_link_and_serve:
  fixes status :: int
  assumes "kernel_ok {} dev" and "hd_contexts dev i = None" and "\<not> hd_stopping dev" and "kn_alloc env = (\<lambda>_. True)" and "kn_link env = 0"
    and "kn_check_unlink env = 0" and "ur_pipe u = Pipe_interrupt" and "ur_in u" and "is_hid_in (hd_usb dev) (ur_endpoint u)"
    and "hd_inputs dev = []"
  defines "linked \<equiv> snd (urb_link env i u dev)"
  defines "cancelled \<equiv> snd (urb_dequeue env i status linked)"
  defines "served \<equiv> snd (urb_serve env i cancelled)"
  shows "i \<in> set (hd_completed served) \<inter> set (hd_pending_in served) \<and> i \<in> in_state served Urb_pending_hid_in
    \<and> (\<forall>X. \<not> kernel_ok X served)"
proof -
  have linked: "linked = dev\<lparr>hd_allocs := hd_allocs dev + 1, hd_contexts := (hd_contexts dev)(i \<mapsto> fresh_context u)\<rparr>"
    using assms(3-5) by (simp add: linked_def urb_link_def allocate_def)
  have served: "i \<in> set (hd_completed served)" "i \<in> set (hd_pending_in served)" "i \<in> in_state served Urb_pending_hid_in"
    using assms(6-10)
    by (simp_all add: served_def cancelled_def linked urb_dequeue_def queue_giveback_def upd_context_def fresh_context_def
        urb_serve_def interrupt_in_urb_def in_state_def Let_def)
  have "\<not> queues_ok X served" for X
  proof
    assume "queues_ok X served"
    then have "i \<in> in_state served Urb_pending_giveback" using served(1) by (simp add: queues_ok_def)
    then show False using served(3) by (auto dest: in_state_unique)
  qed
  then show ?thesis using served by (auto simp: kernel_ok_def)
qed

theorem cancel_between_link_and_serve_witness:
  "let linked = snd (urb_link example_kernel 3 (example_urb Pipe_interrupt) (hcd_start hcd_probe));
       served = snd (urb_serve example_kernel 3 (snd (urb_dequeue example_kernel 3 (- ENOENT) linked))) in
   3 \<in> set (hd_completed served) \<inter> set (hd_pending_in served)"
proof -
  have "\<not> hd_stopping (hcd_start hcd_probe)" "hd_contexts (hcd_start hcd_probe) 3 = None" "hd_inputs (hcd_start hcd_probe) = []"
    "is_hid_in (hd_usb (hcd_start hcd_probe)) (ur_endpoint (example_urb Pipe_interrupt))"
    by (simp_all add: hcd_start_def hcd_probe_def status_set_def is_hid_in_def device_profile_def profile_of_def example_urb_def
        usb_device_init_def reset_usb_state_def valid_profile_def dualsense_profile_def endpoint_number_def VDS_USB_HID_IN_ENDPOINT_def
        VDS_PROFILE_DS5_def VDS_PROFILE_DSE_def)
  moreover have "kn_alloc example_kernel = (\<lambda>_. True)" "kn_link example_kernel = 0" "kn_check_unlink example_kernel = 0"
    "ur_pipe (example_urb Pipe_interrupt) = Pipe_interrupt" "ur_in (example_urb Pipe_interrupt)"
    by (simp_all add: example_kernel_def example_urb_def)
  ultimately show ?thesis
    using cancel_between_link_and_serve [OF kernel_start, of 3 example_kernel "example_urb Pipe_interrupt" "- ENOENT"]
    by (simp only: Let_def) blast
qed

end
