(* ===== verification/Spec2Isabelle.thy ===== *)
theory Spec2Isabelle
  imports Prelude Jsonl Common Store Fs Config Crc OutputState Packets Trigger Audio DaemonCore
    ControlRequests Vdsctl DeviceInfo HandleIo UsbDescriptors Pacing UsbIpWire UsbIpPort UsbIpSubmit
    UsbIpSession UsbIpServer UsbIpClient Actions LinuxBt LinuxPort
    LinuxPortFlow LinuxDelivery LinuxInputs
    LinuxDaemon LinuxLoop LinuxRuntime LinuxConnect LinuxReload LinuxExample LinuxRounds
    KernelUsb KernelHcd KernelQueues KernelControl KernelInvariant KernelLedger KernelFlow KernelAudio KernelUnlink
begin

text \<open>
  A verification library of vDS, which shows a Bluetooth DualSense controller to games as if it were
  connected by USB.

  The program. \<open>vdsctl\<close> (\<open>src/src/vdsctl_common.cc\<close>) sends one line requests to the daemon
  \<open>vdsd\<close>, which answers them (\<open>handle_vdsd_control_command\<close>, \<open>src/src/vdsd_common.cc\<close>), keeps the
  controllers in a JSONL database (\<open>src/src/vds_config.cc\<close>, \<open>src/src/jsonl.cc\<close>) that is replaced
  atomically (\<open>src/src/platform/linux/vds_fs.cc\<close>), and moves reports and audio between a
  controller's Bluetooth channels and a virtual USB port (\<open>src/src/vds_protocol.cc\<close>). On Linux the
  virtual port is a device node of the kernel module, served by the epoll loop of
  \<open>src/src/platform/linux/vdsd.cc\<close>; on Windows it is a USB/IP device of the daemon's own server
  (\<open>src/src/platform/win32/vds_usbip.cc\<close>), and frames of the same format cross a named pipe.

  How the code is modelled. Structs are records, enums datatypes, machine integers words; text is
  \<open>string\<close> and a byte buffer a list of \<open>8 word\<close>. An exception is the left side of a sum
  (\<open>Prelude.exn\<close>). Operations that throw after they changed something return the state as well
  (\<open>Actions\<close>). The kernel module returns its numbers, 0 or a negative error. What lies outside the
  repository is an argument: what the operating system answers to each call, the clock, which
  allocations succeed, Opus (its state, its encoder and its decoder), \<open>std::pow\<close> and \<open>std::sin\<close>
  where samples depend on them. Threads of the USB/IP port are modelled by their lock regions, each
  one atomic step, in every interleaving; the Linux daemon is one thread and its state changes in the
  order of the code. Log lines are left out except where their layout is the subject.

  Theories, bottom up, with the code they model and what their lemmas show.
  \<^item> \<open>Prelude\<close>: results, the character classes of the C locale, decimal text, byte buffers.
    \<open>Store\<close>: the contract of the keyed vectors, a locale that the configuration, the backoffs and
    the port table interpret. \<open>Actions\<close>: operations that throw, their weakest preconditions.
  \<^item> \<open>Jsonl\<close> (\<open>jsonl.cc\<close>): reader and writers; what is written is read back.
  \<^item> \<open>Common\<close> (\<open>vds_common.cc\<close>, \<open>vds_profile.hh\<close>, \<open>vds_log.cc\<close>): hex text, modalias, log lines.
  \<^item> \<open>Fs\<close> (\<open>linux/vds_fs.cc\<close>): the calls of \<open>write_file_atomic\<close> as a trace of file states; a crash
    after any call leaves the old or the new text.
  \<^item> \<open>Config\<close> (\<open>vds_config.cc\<close>): addresses, ports, the database; updates refine a map.
  \<^item> \<open>Crc\<close>, \<open>OutputState\<close>, \<open>Trigger\<close>, \<open>Packets\<close>, \<open>Audio\<close> (\<open>vds_protocol.cc\<close>): the table driven
    checksum against the bit serial one, \<open>DsOutputState\<close>, the trigger effects, the packet builder and
    the driver frames, resampling and the extractor.
  \<^item> \<open>DaemonCore\<close>, \<open>ControlRequests\<close> (\<open>vdsd_common.cc\<close>) and \<open>Vdsctl\<close> (\<open>vdsctl_common.cc\<close>): options,
    launch decisions, every control command with its reply and its effect on the database file, and
    the client's commands.
  \<^item> \<open>DeviceInfo\<close> (\<open>vds_device_info.cc\<close>), \<open>HandleIo\<close> (\<open>win32/vds_io.cc\<close>, \<open>linux/vds_io.cc\<close>),
    \<open>UsbDescriptors\<close> (\<open>include/vds/ds5_usb.h\<close>).
  \<^item> \<open>Pacing\<close> (the timed queue of replies, a locale), \<open>UsbIpWire\<close>, \<open>UsbIpPort\<close>, \<open>UsbIpSubmit\<close>,
    \<open>UsbIpSession\<close>, \<open>UsbIpServer\<close>, \<open>UsbIpClient\<close> (\<open>win32/vds_usbip.cc\<close>): wire formats, the state of a
    port, the transfers, the session, reader and pacer threads as a step relation, the server, and
    the start of the \<open>usbip\<close> program.
  \<^item> \<open>LinuxBt\<close> (\<open>linux/vds_bt.cc\<close>) and \<open>LinuxPort\<close> (\<open>linux/vdsd.cc\<close>, the functions on
    \<open>VirtualPort\<close>): the Bluetooth channels and the virtual port of the Linux daemon, with every frame
    and packet handler. \<open>LinuxPortFlow\<close>: the invariant of a port and of its outputs, as weakest
    preconditions of the handlers. \<open>LinuxDelivery\<close> and \<open>LinuxInputs\<close>: runs of a connected port; the
    newest output state is delivered or waits, audio packets keep their interval, inputs, mute button
    and feature requests end to end.
  \<^item> \<open>LinuxDaemon\<close> and \<open>LinuxLoop\<close> (\<open>linux/vdsd.cc\<close>, from \<open>find_port_index\<close> to \<open>main\<close>): controllers,
    the choice of ports, channels that connect, the reload of the database, the control socket, the
    epoll set and the rounds of the loop. \<open>LinuxRuntime\<close>: the invariant of controllers and ports, kept
    by the output and input operations; \<open>LinuxConnect\<close> and \<open>LinuxReload\<close>: kept when a controller
    connects and when the database or the port nodes change. \<open>LinuxRounds\<close>: what follows for every
    number of rounds from the start; \<open>LinuxExample\<close>: a daemon with one controller, round by round, for
    the witnesses. The hypothesis \<open>nodes_ok\<close> there says that udev lists each node once.
  \<^item> \<open>KernelUsb\<close> (\<open>module/vds_usb_core.c\<close>, \<open>module/dualsense.c\<close>, \<open>module/dualsense_edge.c\<close>): the
    device the Linux kernel module presents and its control requests; \<open>KernelHcd\<close>
    (\<open>module/vds_hcd_core.c\<close>): the queues between the host's transfers and the daemon's frames, the
    thread that gives transfers back, the character device, the root hub. A transfer is a number and
    its context an entry of a store, as the code's lists hold pointers. \<open>KernelQueues\<close> defines the
    invariant; \<open>KernelControl\<close> states \<open>vds_usb_device_ops\<close> as a locale, proves what control requests
    do to a transfer inside it, and interprets it on the host controller; \<open>KernelInvariant\<close> proves that
    every call keeps the invariant. \<open>KernelLedger\<close>: every accepted transfer is given back exactly once.
    \<open>KernelFlow\<close>: frames between the module and the daemon, input and feature reports end to end.
    \<open>KernelAudio\<close>: both audio directions as streams of bytes, and their pace. \<open>KernelUnlink\<close>: the
    descriptors against those of the USB/IP server, and the race of a cancelled submission.
  \<^item> This theory: the client against the daemon.

  Bounds and answers. Loops over calls of the operating system run over the list of its answers; where
  the list may end, the result is \<open>None\<close> (the call has not returned) or the time-out that the code
  itself sets, as the theory says. \<open>session_loop\<close> ends because every round consumes input; the
  attachment wait of \<open>UsbIpClient\<close> because its clock advances. \<open>daemon_rounds\<close> runs as many rounds as
  there are answers of \<open>epoll_wait\<close>. A call into the kernel module is one step, although the code
  releases its lock inside some of them: the submission of a transfer is therefore given in its three
  parts as well, and the invariant is proved for whole calls only. No other fuel is used.

  Not modelled: the creation of sockets, pipes, threads and processes, the registration of the kernel
  module, the D-Bus and udev walks, the installer and the GUI, which call other systems without logic
  of their own; the Windows side around the USB/IP server: the daemon's processes
  (\<open>win32/vdsd.cc\<close>), its Bluetooth and HidHide device controls (\<open>win32/vds_bt.cc\<close>,
  \<open>win32/vds_hidhide.cc\<close>), its file replacement (\<open>win32/vds_fs.cc\<close>); and the options of the Linux
  daemon's command line that \<open>parse_platform_args\<close> adds.
\<close>

section \<open>The client against the daemon\<close>

text \<open>
  The transport between \<open>vdsctl\<close> and the daemon delivers one request text; the daemon trims it
  (\<open>trim_command\<close>) and answers with the reply of \<open>handle_vdsd_control_command\<close>.
\<close>

definition daemon_transport :: "control_env \<Rightarrow> control_state \<Rightarrow> transport" where
  "daemon_transport env st request = Inr (fst (handle_vdsd_control_command env (trim_command request) st))"

definition state_after :: "control_env \<Rightarrow> control_state \<Rightarrow> string \<Rightarrow> control_state" where
  "state_after env st request = snd (handle_vdsd_control_command env (trim_command request) st)"

lemma requested_config_of_client:
  assumes "wf_config config"
  shows "requested_config (cc_address config) (controller_profile_name (cc_profile config)) (cc_ports config) c
    \<longleftrightarrow> c = config"
  using assms by (auto simp: requested_config_def wf_config_def canonical_address_def)

lemma client_attach:
  assumes "wf_config config" and "all_calls_succeed env"
    and "load_config_db os_ok (ce_db_path env) (cs_files st) = Inr db"
    and run: "handle_vdsd_control_command env (trim_command (attach_request config)) st = (reply, st')"
  shows "reply_ok reply \<longleftrightarrow> registry db (cc_address config) = None
      \<and> (\<exists>ts. ce_list_targets env = Inr ts \<and> cc_address config \<in> ct_address ` set ts)
      \<and> (\<exists>db'. attached_db (ce_platform env) (port_status_paths (ce_ports env)) config db db')"
    and "\<exists>db'. load_config_db os_ok (ce_db_path env) (cs_files st') = Inr db'
      \<and> (if reply_ok reply
         then cs_reload_requested st' \<and> registry db' = (registry db)(cc_address config \<mapsto> config)
         else db' = db \<and> cs_reload_requested st' = cs_reload_requested st)"
proof -
  let ?pn = "controller_profile_name (cc_profile config)"
  have ports: "list_all (\<lambda>p. p \<le> unsigned_max) (cc_ports config)" "sort (cc_ports config) = cc_ports config"
    using assms(1) valid_ports_le [of "cc_ports config"]
    by (auto simp: wf_config_def list_all_iff valid_ports_def intro: sorted_sort_id)
  have "handle_attach_control_request env (attach_fields (cc_address config) ?pn (cc_ports config)) st = (reply, st')"
    using run handle_attach_text [OF _ ports(1), of "[]"] by (simp add: attach_request_object trim_write_object)
  note handled = handle_attach_decision [OF assms(2,3) this] handle_attach_outcome [OF assms(2,3) this]
  show "reply_ok reply \<longleftrightarrow> registry db (cc_address config) = None
      \<and> (\<exists>ts. ce_list_targets env = Inr ts \<and> cc_address config \<in> ct_address ` set ts)
      \<and> (\<exists>db'. attached_db (ce_platform env) (port_status_paths (ce_ports env)) config db db')"
    using handled(1) unfolding requested_config_of_client [OF assms(1)] by blast
  show "\<exists>db'. load_config_db os_ok (ce_db_path env) (cs_files st') = Inr db'
      \<and> (if reply_ok reply
         then cs_reload_requested st' \<and> registry db' = (registry db)(cc_address config \<mapsto> config)
         else db' = db \<and> cs_reload_requested st' = cs_reload_requested st)"
    using handled(2) ports(2) unfolding requested_config_of_client [OF assms(1)] by auto
qed

lemma run_attach_app:
  assumes "parse_vdsctl_attach argv = Inr config" and "argv ! 1 = ''attach''"
  shows "run_vdsctl_app platform (daemon_transport env st) version year argv =
    \<lparr>exit_status = 0,
     standard_output = fst (handle_vdsd_control_command env (trim_command (attach_request config)) st),
     standard_error = []\<rparr>"
proof -
  have "2 \<le> length argv" using assms(1) by (simp add: parse_vdsctl_attach_def split: if_splits)
  with assms show ?thesis
    by (simp add: run_vdsctl_app_def parse_vdsctl_command_def run_vdsctl_attach_def daemon_transport_def)
qed

section \<open>Properties\<close>

text \<open>
  C15. From the command line to the file: when \<open>vdsctl attach\<close> accepts its arguments, the client
  prints the daemon's reply and exits with 0; the daemon reads from the request exactly the
  configuration the client parsed; it says OK exactly when this address is free, is a target of the
  Bluetooth stack and the assignments can be met, and then the stored registry is the old one with
  exactly the parsed configuration added. Otherwise the stored registry is unchanged.
\<close>

theorem vdsctl_attach_end_to_end:
  assumes "parse_vdsctl_attach argv = Inr config" and "argv ! 1 = ''attach''" and "all_calls_succeed env"
    and "load_config_db os_ok (ce_db_path env) (cs_files st) = Inr db"
  shows "let outcome = run_vdsctl_app platform (daemon_transport env st) version year argv;
             st' = state_after env st (attach_request config);
             ok = reply_ok (standard_output outcome) in
    exit_status outcome = 0
    \<and> (ok \<longleftrightarrow> registry db (cc_address config) = None
        \<and> (\<exists>ts. ce_list_targets env = Inr ts \<and> cc_address config \<in> ct_address ` set ts)
        \<and> (\<exists>db'. attached_db (ce_platform env) (port_status_paths (ce_ports env)) config db db'))
    \<and> (\<exists>db'. load_config_db os_ok (ce_db_path env) (cs_files st') = Inr db'
        \<and> registry db' = (if ok then (registry db)(cc_address config \<mapsto> config) else registry db))"
proof -
  obtain reply st' where run: "handle_vdsd_control_command env (trim_command (attach_request config)) st = (reply, st')"
    by force
  note attached = client_attach [OF parse_vdsctl_attach_wf [OF assms(1)] assms(3,4) run]
  have loaded: "\<exists>db'. load_config_db os_ok (ce_db_path env) (cs_files st') = Inr db'
      \<and> registry db' = (if reply_ok reply then (registry db)(cc_address config \<mapsto> config) else registry db)"
    using attached(2) by (cases "reply_ok reply") auto
  show ?thesis
    using attached(1) loaded
    by (simp add: run run_attach_app [OF assms(1,2)] state_after_def Let_def)
qed

theorem vdsctl_attach_end_to_end_witness:
  "exit_status (run_vdsctl_app Linux (daemon_transport example_env example_state) ''1'' ''2026''
     [''vdsctl'', ''attach'', ''AA:BB:CC:DD:EE:01'', ''--ports'', ''1'', ''--profile'', ''dse'']) = 0"
proof -
  have "parse_vdsctl_attach [''vdsctl'', ''attach'', ''AA:BB:CC:DD:EE:01'', ''--ports'', ''1'', ''--profile'', ''dse'']
      = Inr \<lparr>cc_address = ''aa:bb:cc:dd:ee:01'', cc_profile = Dse, cc_ports = [1]\<rparr>"
  proof -
    have "map tolower ''AA:BB:CC:DD:EE:01'' = ''aa:bb:cc:dd:ee:01''" "address_shape ''AA:BB:CC:DD:EE:01''"
      by code_simp+
    then have "normalize_bluetooth_address ''AA:BB:CC:DD:EE:01'' = Inr ''aa:bb:cc:dd:ee:01''"
      unfolding Config.normalize_eq by simp
    moreover have "parse_ports ''1'' = Inr [1]"
      using parse_format_ports [of "[1]"]
      by (simp add: validate_ports_Inr kMaxPortCount_def format_ports_def to_string.simps digit_char_values)
    ultimately show ?thesis
      by (simp add: parse_vdsctl_attach_def option_value_def parse_controller_profile_def)
  qed
  from vdsctl_attach_end_to_end [OF this _ example_env_ok(1,3), of Linux "''1''" "''2026''"]
  show ?thesis by (simp add: Let_def)
qed

text \<open>
  Attaching and then detaching the same address, both through the client's requests, leaves
  the stored registry as it was before, and both replies say OK.
\<close>

theorem attach_then_detach_restores:
  assumes "wf_config config" and "all_calls_succeed env"
    and "load_config_db os_ok (ce_db_path env) (cs_files st) = Inr db"
    and "handle_vdsd_control_command env (trim_command (attach_request config)) st = (reply1, st1)"
    and "reply_ok reply1"
    and "handle_vdsd_control_command env (trim_command (detach_request (cc_address config))) st1 = (reply2, st2)"
  shows "reply_ok reply2
    \<and> (\<exists>db2. load_config_db os_ok (ce_db_path env) (cs_files st2) = Inr db2 \<and> registry db2 = registry db)"
proof -
  have addr: "address_shape (cc_address config)" "map tolower (cc_address config) = cc_address config"
    using assms(1) by (auto simp: wf_config_def canonical_address_def)
  note attached = client_attach [OF assms(1-4)]
  from attached(1) assms(5) have free: "registry db (cc_address config) = None" by blast
  from attached(2) assms(5) obtain db1 where
    db1: "load_config_db os_ok (ce_db_path env) (cs_files st1) = Inr db1"
      "registry db1 = (registry db)(cc_address config \<mapsto> config)" by auto
  have "handle_detach_control_request env (detach_fields (cc_address config)) st1 = (reply2, st2)"
    using assms(6) handle_detach_text [of "[]"] by (simp add: detach_request_object trim_write_object)
  from handle_detach_outcome [OF assms(2) db1(1) this] addr have ok: "reply_ok reply2"
    and "\<exists>db2. load_config_db os_ok (ce_db_path env) (cs_files st2) = Inr db2
      \<and> registry db2 = (registry db1)(cc_address config := None)"
    by (auto simp: db1(2))
  moreover have "(registry db1)(cc_address config := None) = registry db"
    using free by (auto simp: db1(2) fun_eq_iff)
  ultimately show ?thesis by simp
qed

theorem attach_then_detach_restores_witness:
  "let st1 = state_after example_env example_state (attach_request (example_config\<lparr>cc_ports := [1]\<rparr>)) in
   \<exists>db2. load_config_db os_ok ''vdsd.db'' (cs_files (state_after example_env st1
        (detach_request (cc_address example_config)))) = Inr db2 \<and> registry db2 = Map.empty"
proof -
  let ?c = "example_config\<lparr>cc_ports := [1]\<rparr>"
  have wf: "wf_config ?c"
    using example_wf(2) by (simp add: wf_config_def valid_ports_def kMaxPortCount_def)
  obtain reply1 st1 where run1: "handle_vdsd_control_command example_env
      (trim_command (attach_request ?c)) example_state = (reply1, st1)" by force
  obtain reply2 st2 where run2: "handle_vdsd_control_command example_env
      (trim_command (detach_request (cc_address ?c))) st1 = (reply2, st2)" by force
  have path: "port_index_from_path Linux ''/dev/vds1'' = Some 1" by code_simp
  have "attached_db Linux [''/dev/vds1''] ?c \<lparr>controllers = []\<rparr> \<lparr>controllers = [?c]\<rparr>"
    using wf path
    by (simp add: attached_db_def find_canonical upsert_controller_config_def validate_ports_Inr
        validate_config_assignments_def List.map_filter_simps kMaxPortCount_def wf_config_def)
  then have "reply_ok reply1"
    using client_attach(1) [OF wf example_env_ok(1,3) run1]
    by (auto simp: registry_def example_env_def port_status_paths_def example_config_def)
  from attach_then_detach_restores [OF wf example_env_ok(1,3) run1 this run2] run1 run2
  show ?thesis by (simp add: state_after_def Let_def registry_def fun_eq_iff example_env_def)
qed

end
